(* ===== verification/Prelude.thy ===== *)
theory Prelude
  imports Main "HOL-Library.Word"
begin

text \<open>
  Shared material of the development: the byte type, the parameters that stand for QtCore code
  (memory outside a byte view, size limits, UTF-8 conversion), and generic lemmas on words and
  lists. A 64-bit platform is modelled throughout: \<open>qsizetype\<close> is a signed 64-bit integer.
\<close>

unbundle bit_operations_syntax

type_synonym byte = "8 word"

type_synonym qstring = "16 word list"

text \<open>
  What the serializers take from QtCore and from the machine: the bytes that lie in memory outside
  a byte view (at a position relative to the begin of the view), \<open>QByteArray::maxSize()\<close>, and the
  two conversions between UTF-16 strings and UTF-8 bytes. None of them is code of the repository.
\<close>

record platform =
  oob_byte :: "int \<Rightarrow> byte"
  maxByteArray :: nat
  toUtf8 :: "qstring \<Rightarrow> byte list"
  fromUtf8 :: "byte list \<Rightarrow> qstring"

text \<open>A concrete platform for closed examples: Latin-1 strings, zero bytes around the view.\<close>

definition latin1_platform :: platform where
  "latin1_platform =
     \<lparr>oob_byte = (\<lambda>_. 0), maxByteArray = 2 ^ 63 - 2,
      toUtf8 = map (\<lambda>c. ucast c), fromUtf8 = map (\<lambda>b. ucast b)\<rparr>"

named_theorems wire_defs

text \<open>Words: the seven-bit groups of a varint and the value of shifts.\<close>

lemma unat_drop_bit_word: "unat (drop_bit n (w :: 'a::len word)) = unat w div 2 ^ n"
  by (simp add: unat_drop_bit_eq flip: drop_bit_eq_div)

lemma unat_and_mask_word: "unat ((w :: 'a::len word) AND mask n) = unat w mod 2 ^ n"
  by (simp add: unsigned_take_bit_eq flip: take_bit_eq_mask take_bit_eq_mod)

lemma unat_and_127: "unat ((w :: 'a::len word) AND 127) = unat w mod 128"
  using unat_and_mask_word [of w 7] by (simp add: mask_eq_exp_minus_1)

lemma drop_bit_less:
  assumes "w \<noteq> 0" and "0 < n"
  shows "unat (drop_bit n (w :: 'a::len word)) < unat w"
proof -
  have "0 < unat w" using assms(1) by (simp add: unat_gt_0)
  moreover have "1 < (2::nat) ^ n" using assms(2) by (intro one_less_power) simp_all
  ultimately show ?thesis unfolding unat_drop_bit_word by (rule div_less_dividend [rotated])
qed

text \<open>
  Traces: what a component does to the outside is a list of effects, in order. \<open>ordered R\<close> says
  that every effect stands in the relation \<open>R\<close> to the effects before it.
\<close>

definition ordered :: "('e list \<Rightarrow> 'e \<Rightarrow> bool) \<Rightarrow> 'e list \<Rightarrow> bool" where
  "ordered R es \<longleftrightarrow> (\<forall>xs e ys. es = xs @ e # ys \<longrightarrow> R xs e)"

lemma ordered_Nil [simp]: "ordered R []"
  by (simp add: ordered_def)

lemma ordered_snoc [simp]: "ordered R (es @ [e]) \<longleftrightarrow> ordered R es \<and> R es e"
proof
  assume *: "ordered R (es @ [e])"
  have "R xs x" if "es = xs @ x # ys" for xs x ys
    using * that unfolding ordered_def by (metis append_Cons append_assoc)
  moreover have "R es e" using * unfolding ordered_def by blast
  ultimately show "ordered R es \<and> R es e" by (auto simp: ordered_def)
next
  assume *: "ordered R es \<and> R es e"
  have "R xs x" if eq: "es @ [e] = xs @ x # ys" for xs x ys
  proof (cases ys rule: rev_cases)
    case Nil
    with eq * show ?thesis by simp
  next
    case (snoc zs z)
    with eq have "es = xs @ x # zs" by simp
    with * show ?thesis by (auto simp: ordered_def)
  qed
  then show "ordered R (es @ [e])" by (auto simp: ordered_def)
qed

lemma ordered_append:
  "ordered R es \<Longrightarrow> (\<And>xs x ys. ds = xs @ x # ys \<Longrightarrow> R (es @ xs) x) \<Longrightarrow> ordered R (es @ ds)"
proof (induction ds rule: rev_induct)
  case (snoc d ds)
  have "R (es @ xs) x" if "ds = xs @ x # ys" for xs x ys
    using snoc.prems(2) [of xs x "ys @ [d]"] that by simp
  with snoc have "ordered R (es @ ds)" by blast
  moreover have "R (es @ ds) d" using snoc.prems(2) [of ds d "[]"] by simp
  ultimately show ?case by (simp flip: append_assoc)
qed simp

end
