(* ===== verification/GrpcOptions.thy ===== *)
theory GrpcOptions
  imports Prelude "HOL-Library.Multiset"
begin

text \<open>
  Status codes, serialization formats and the options of calls and channels
  (src/src/grpc/qtgrpcnamespace.h, qgrpcstatus.h, qgrpcserializationformat.cpp,
  qgrpccommonoptions.cpp, qgrpccalloptions.cpp, qgrpcchanneloptions.cpp). A multi hash is the list
  of its pairs, for one key the newest first, compared as a multiset; a hash has one pair for a
  key. The implicit sharing of the option objects is not visible in the values and is left out.
\<close>

subsection \<open>Enumerations\<close>

datatype status_code =
  Ok | CancelledCode | Unknown | InvalidArgument | DeadlineExceeded | NotFound | AlreadyExists
| PermissionDenied | ResourceExhausted | FailedPrecondition | Aborted | OutOfRange | Unimplemented
| Internal | Unavailable | DataLoss | Unauthenticated

definition status_codes :: "status_code list" where
  "status_codes =
     [Ok, CancelledCode, Unknown, InvalidArgument, DeadlineExceeded, NotFound, AlreadyExists,
      PermissionDenied, ResourceExhausted, FailedPrecondition, Aborted, OutOfRange, Unimplemented,
      Internal, Unavailable, DataLoss, Unauthenticated]"

definition StatusCodeCount :: int where "StatusCodeCount = 16"

record grpc_status =
  code :: status_code
  message :: string

datatype rpc_type = UnaryCall | ServerStreaming | ClientStreaming | BidiStreaming

record rpc_descriptor =
  service :: string
  rpc_method :: string
  rpc_kind :: rpc_type

datatype compression_algorithm = Identity | Deflate | Gzip

primrec compression_flag :: "compression_algorithm \<Rightarrow> 32 word" where
  "compression_flag Identity = 1"
| "compression_flag Deflate = 2"
| "compression_flag Gzip = 4"

definition has_algorithm :: "32 word \<Rightarrow> compression_algorithm \<Rightarrow> bool" where
  "has_algorithm flags algo \<longleftrightarrow> flags AND compression_flag algo \<noteq> 0"

subsection \<open>Serialization formats\<close>

datatype serialization_format_kind = Default | Protobuf | Json

datatype serializer_class = QProtobufSerializer | QProtobufJsonSerializer | CustomSerializer

text \<open>The serializer is a shared object: \<open>serializer_id\<close> is its identity.\<close>

record serialization_format =
  format_suffix :: string
  serializer_kind :: serializer_class
  serializer_id :: nat

definition make_format :: "serialization_format_kind \<Rightarrow> nat \<Rightarrow> serialization_format" where
  "make_format k fresh =
     (if k = Json
      then \<lparr>format_suffix = ''json'', serializer_kind = QProtobufJsonSerializer, serializer_id = fresh\<rparr>
      else \<lparr>format_suffix = (if k = Protobuf then ''proto'' else ''''),
            serializer_kind = QProtobufSerializer, serializer_id = fresh\<rparr>)"

definition custom_format :: "string \<Rightarrow> nat \<Rightarrow> serialization_format" where
  "custom_format sfx obj =
     \<lparr>format_suffix = sfx, serializer_kind = CustomSerializer, serializer_id = obj\<rparr>"

definition format_comparesEqual :: "serialization_format \<Rightarrow> serialization_format \<Rightarrow> bool" where
  "format_comparesEqual a b \<longleftrightarrow>
     format_suffix a = format_suffix b \<and> serializer_id a = serializer_id b"

subsection \<open>Hashes\<close>

type_synonym metadata = "(string \<times> string) list"

definition hash_insertOrAssign :: "string \<Rightarrow> string \<Rightarrow> metadata \<Rightarrow> metadata" where
  "hash_insertOrAssign k v h = (k, v) # filter (\<lambda>e. fst e \<noteq> k) h"

definition hash_try_emplace :: "string \<Rightarrow> string \<Rightarrow> metadata \<Rightarrow> metadata" where
  "hash_try_emplace k v h = (if k \<in> fst ` set h then h else (k, v) # h)"

definition hash_equal :: "metadata \<Rightarrow> metadata \<Rightarrow> bool" where
  "hash_equal a b \<longleftrightarrow> set a = set b"

definition multi_equal :: "metadata \<Rightarrow> metadata \<Rightarrow> bool" where
  "multi_equal a b \<longleftrightarrow> mset a = mset b"

definition toHash :: "metadata \<Rightarrow> metadata" where
  "toHash multiHash = fold (\<lambda>(k, v). hash_try_emplace k v) multiHash []"

subsection \<open>The options common to calls and channels\<close>

record common_options =
  m_timeout :: "int option"
  m_metadata :: metadata
  m_deprecatedMetadata :: metadata
  m_filterServerMetadata :: "bool option"
  m_maximumReceiveMessageSize :: "64 word option"
  m_requestCompression :: "compression_algorithm option"

definition new_common_options :: common_options where
  "new_common_options =
     \<lparr>m_timeout = None, m_metadata = [], m_deprecatedMetadata = [], m_filterServerMetadata = None,
      m_maximumReceiveMessageSize = None, m_requestCompression = None\<rparr>"

definition common_setHashMetadata ::
  "metadata \<Rightarrow> 'a common_options_scheme \<Rightarrow> 'a common_options_scheme" where
  "common_setHashMetadata md d = d\<lparr>m_deprecatedMetadata := md, m_metadata := md\<rparr>"

definition common_setMetadata ::
  "metadata \<Rightarrow> 'a common_options_scheme \<Rightarrow> 'a common_options_scheme" where
  "common_setMetadata md d = d\<lparr>m_metadata := md, m_deprecatedMetadata := toHash md\<rparr>"

definition common_addMetadata ::
  "string \<Rightarrow> string \<Rightarrow> 'a common_options_scheme \<Rightarrow> 'a common_options_scheme" where
  "common_addMetadata k v d =
     d\<lparr>m_deprecatedMetadata := hash_insertOrAssign k v (m_deprecatedMetadata d),
       m_metadata := (k, v) # m_metadata d\<rparr>"

definition containsMetadata :: "string \<Rightarrow> string \<Rightarrow> 'a common_options_scheme \<Rightarrow> bool" where
  "containsMetadata k v d \<longleftrightarrow> v \<in> set (map snd (filter (\<lambda>e. fst e = k) (m_metadata d)))"

subsection \<open>The setters of QGrpcCallOptions and QGrpcChannelOptions\<close>

text \<open>Both classes have the same setters; each returns early where nothing changes.\<close>

definition setDeadlineTimeout :: "int \<Rightarrow> 'a common_options_scheme \<Rightarrow> 'a common_options_scheme" where
  "setDeadlineTimeout t d = (if m_timeout d = Some t then d else d\<lparr>m_timeout := Some t\<rparr>)"

definition setHashMetadata ::
  "metadata \<Rightarrow> 'a common_options_scheme \<Rightarrow> 'a common_options_scheme" where
  "setHashMetadata md d =
     (if hash_equal (m_deprecatedMetadata d) md then d else common_setHashMetadata md d)"

definition setMetadata ::
  "metadata \<Rightarrow> 'a common_options_scheme \<Rightarrow> 'a common_options_scheme" where
  "setMetadata md d = (if multi_equal (m_metadata d) md then d else common_setMetadata md d)"

definition addMetadata ::
  "string \<Rightarrow> string \<Rightarrow> 'a common_options_scheme \<Rightarrow> 'a common_options_scheme" where
  "addMetadata k v d = (if containsMetadata k v d then d else common_addMetadata k v d)"

definition setFilterServerMetadata ::
  "bool \<Rightarrow> 'a common_options_scheme \<Rightarrow> 'a common_options_scheme" where
  "setFilterServerMetadata b d =
     (if m_filterServerMetadata d = Some b then d else d\<lparr>m_filterServerMetadata := Some b\<rparr>)"

definition setMaximumReceiveMessageSize ::
  "64 word \<Rightarrow> 'a common_options_scheme \<Rightarrow> 'a common_options_scheme" where
  "setMaximumReceiveMessageSize n d =
     (if m_maximumReceiveMessageSize d = Some n then d
      else d\<lparr>m_maximumReceiveMessageSize := Some n\<rparr>)"

definition setRequestCompression ::
  "compression_algorithm \<Rightarrow> 'a common_options_scheme \<Rightarrow> 'a common_options_scheme" where
  "setRequestCompression algo d =
     (if m_requestCompression d = Some algo then d else d\<lparr>m_requestCompression := Some algo\<rparr>)"

definition call_comparesEqual :: "common_options \<Rightarrow> common_options \<Rightarrow> bool" where
  "call_comparesEqual a b \<longleftrightarrow>
     m_timeout a = m_timeout b \<and> m_filterServerMetadata a = m_filterServerMetadata b \<and>
     m_maximumReceiveMessageSize a = m_maximumReceiveMessageSize b \<and>
     m_requestCompression a = m_requestCompression b \<and> multi_equal (m_metadata a) (m_metadata b)"

subsection \<open>The options of a channel\<close>

definition DefaultInitialReconnectBackoff :: int where "DefaultInitialReconnectBackoff = 1000"
definition DefaultMaximumReconnectBackoff :: int where "DefaultMaximumReconnectBackoff = 120000"
definition DefaultConnectTimeout :: int where "DefaultConnectTimeout = 20000"
definition DefaultMaximumMetadataSize :: "64 word" where "DefaultMaximumMetadataSize = 16 * 1024"
definition MinimumMetadataSize :: "32 word" where "MinimumMetadataSize = 4 * 1024"

text \<open>The SSL configuration is an object of QtNetwork, here its identity.\<close>

record channel_options = common_options +
  co_serializationFormat :: serialization_format
  co_acceptedCompressionAlgorithms :: "32 word"
  co_initialReconnectBackoff :: "int option"
  co_maximumReconnectBackoff :: "int option"
  co_connectTimeout :: "int option"
  co_maximumMetadataSize :: "64 word option"
  co_sslConfiguration :: "nat option"

text \<open>Which encodings \<open>QDecompressHelper\<close> supports is a parameter.\<close>

definition supportedCompressionAlgorithms :: "(string \<Rightarrow> bool) \<Rightarrow> 32 word" where
  "supportedCompressionAlgorithms isSupportedEncoding =
     (let supported = compression_flag Identity;
          supported = (if isSupportedEncoding ''deflate'' then supported OR compression_flag Deflate
                       else supported)
      in if isSupportedEncoding ''gzip'' then supported OR compression_flag Gzip else supported)"

definition new_channel_options :: "(string \<Rightarrow> bool) \<Rightarrow> nat \<Rightarrow> channel_options" where
  "new_channel_options isSupportedEncoding fresh =
     common_options.extend new_common_options
       \<lparr>co_serializationFormat = make_format Default fresh,
        co_acceptedCompressionAlgorithms = supportedCompressionAlgorithms isSupportedEncoding,
        co_initialReconnectBackoff = None, co_maximumReconnectBackoff = None,
        co_connectTimeout = None, co_maximumMetadataSize = None, co_sslConfiguration = None\<rparr>"

definition clampNonNegative :: "int \<Rightarrow> int" where
  "clampNonNegative v = (if v < 0 then 0 else v)"

definition option_or :: "'a option \<Rightarrow> 'a \<Rightarrow> 'a" where
  "option_or x d = (case x of Some y \<Rightarrow> y | None \<Rightarrow> d)"

definition maximumMetadataSize :: "channel_options \<Rightarrow> 64 word" where
  "maximumMetadataSize d = option_or (co_maximumMetadataSize d) DefaultMaximumMetadataSize"

definition initialReconnectBackoff :: "channel_options \<Rightarrow> int" where
  "initialReconnectBackoff d =
     option_or (co_initialReconnectBackoff d) DefaultInitialReconnectBackoff"

definition maximumReconnectBackoff :: "channel_options \<Rightarrow> int" where
  "maximumReconnectBackoff d =
     option_or (co_maximumReconnectBackoff d) DefaultMaximumReconnectBackoff"

definition connectTimeout :: "channel_options \<Rightarrow> int" where
  "connectTimeout d = option_or (co_connectTimeout d) DefaultConnectTimeout"

definition setMaximumMetadataSize :: "64 word \<Rightarrow> channel_options \<Rightarrow> channel_options" where
  "setMaximumMetadataSize n d =
     (let size = (if n < ucast MinimumMetadataSize then ucast MinimumMetadataSize else n)
      in if co_maximumMetadataSize d = Some size then d
         else d\<lparr>co_maximumMetadataSize := Some size\<rparr>)"

definition setInitialReconnectBackoff :: "int \<Rightarrow> channel_options \<Rightarrow> channel_options" where
  "setInitialReconnectBackoff v d =
     (let delay = clampNonNegative v
      in if co_initialReconnectBackoff d = Some delay then d
         else d\<lparr>co_initialReconnectBackoff := Some delay\<rparr>)"

definition setMaximumReconnectBackoff :: "int \<Rightarrow> channel_options \<Rightarrow> channel_options" where
  "setMaximumReconnectBackoff v d =
     (let delay = clampNonNegative v
      in if co_maximumReconnectBackoff d = Some delay then d
         else d\<lparr>co_maximumReconnectBackoff := Some delay\<rparr>)"

definition setConnectTimeout :: "int \<Rightarrow> channel_options \<Rightarrow> channel_options" where
  "setConnectTimeout v d =
     (let timeout = clampNonNegative v
      in if co_connectTimeout d = Some timeout then d else d\<lparr>co_connectTimeout := Some timeout\<rparr>)"

definition setAcceptedCompressionAlgorithms ::
  "(string \<Rightarrow> bool) \<Rightarrow> 32 word \<Rightarrow> channel_options \<Rightarrow> channel_options" where
  "setAcceptedCompressionAlgorithms isSupportedEncoding algorithms d =
     (let a = (algorithms AND supportedCompressionAlgorithms isSupportedEncoding)
              OR compression_flag Identity
      in if co_acceptedCompressionAlgorithms d = a then d
         else d\<lparr>co_acceptedCompressionAlgorithms := a\<rparr>)"

definition setSerializationFormat ::
  "serialization_format \<Rightarrow> channel_options \<Rightarrow> channel_options" where
  "setSerializationFormat fmt d =
     (if format_comparesEqual (co_serializationFormat d) fmt then d
      else d\<lparr>co_serializationFormat := fmt\<rparr>)"

definition setSslConfiguration :: "nat \<Rightarrow> channel_options \<Rightarrow> channel_options" where
  "setSslConfiguration cfg d =
     (if co_sslConfiguration d = Some cfg then d else d\<lparr>co_sslConfiguration := Some cfg\<rparr>)"

definition channel_comparesEqual :: "channel_options \<Rightarrow> channel_options \<Rightarrow> bool" where
  "channel_comparesEqual a b \<longleftrightarrow>
     co_acceptedCompressionAlgorithms a = co_acceptedCompressionAlgorithms b \<and>
     m_timeout a = m_timeout b \<and> m_filterServerMetadata a = m_filterServerMetadata b \<and>
     m_maximumReceiveMessageSize a = m_maximumReceiveMessageSize b \<and>
     maximumMetadataSize a = maximumMetadataSize b \<and>
     multi_equal (m_metadata a) (m_metadata b) \<and>
     m_requestCompression a = m_requestCompression b \<and>
     format_comparesEqual (co_serializationFormat a) (co_serializationFormat b) \<and>
     initialReconnectBackoff a = initialReconnectBackoff b \<and>
     maximumReconnectBackoff a = maximumReconnectBackoff b \<and>
     connectTimeout a = connectTimeout b \<and> co_sslConfiguration a = co_sslConfiguration b"

subsection \<open>The two views of the metadata\<close>

lemma map_of_hash_try_emplace:
  "map_of (hash_try_emplace k' v h) k =
     (case map_of h k of Some w \<Rightarrow> Some w | None \<Rightarrow> if k = k' then Some v else None)"
proof (cases "k' \<in> fst ` set h")
  case True
  then have "map_of h k' \<noteq> None" by (simp add: map_of_eq_None_iff)
  with True show ?thesis by (auto simp: hash_try_emplace_def split: option.splits)
next
  case False
  then have "map_of h k' = None" by (simp add: map_of_eq_None_iff)
  with False show ?thesis by (auto simp: hash_try_emplace_def split: option.splits)
qed

lemma toHash_loop:
  "map_of (fold (\<lambda>(k, v). hash_try_emplace k v) md h) k =
     (case map_of h k of Some v \<Rightarrow> Some v | None \<Rightarrow> map_of md k)"
  by (induction md arbitrary: h) (auto simp: map_of_hash_try_emplace split: option.splits)

lemma toHash_newest: "map_of (toHash md) = map_of md"
  by (rule ext) (simp add: toHash_def toHash_loop)

lemma distinct_toHash_loop:
  "distinct (map fst h) \<Longrightarrow> distinct (map fst (fold (\<lambda>(k, v). hash_try_emplace k v) md h))"
  by (induction md arbitrary: h) (auto simp: hash_try_emplace_def split: prod.splits)

lemma distinct_toHash: "distinct (map fst (toHash md))"
  unfolding toHash_def by (rule distinct_toHash_loop) simp

lemma map_of_filter_other: "k \<noteq> k' \<Longrightarrow> map_of (filter (\<lambda>e. fst e \<noteq> k') h) k = map_of h k"
  by (induction h) auto

lemma hash_equal_map_of:
  "distinct (map fst a) \<Longrightarrow> distinct (map fst b) \<Longrightarrow> hash_equal a b \<longleftrightarrow> map_of a = map_of b"
  by (metis hash_equal_def map_of_inject_set)

text \<open>
  The hash of the deprecated interface has one value for a key, the newest one of the multi hash.
\<close>

definition views_agree :: "'a common_options_scheme \<Rightarrow> bool" where
  "views_agree d \<longleftrightarrow>
     map_of (m_deprecatedMetadata d) = map_of (m_metadata d) \<and>
     distinct (map fst (m_deprecatedMetadata d))"

lemma views_agree_setMetadata: "views_agree d \<Longrightarrow> views_agree (setMetadata md d)"
  by (simp add: views_agree_def setMetadata_def common_setMetadata_def toHash_newest distinct_toHash)

lemma views_agree_setHashMetadata:
  "views_agree d \<Longrightarrow> distinct (map fst md) \<Longrightarrow> views_agree (setHashMetadata md d)"
  by (simp add: views_agree_def setHashMetadata_def common_setHashMetadata_def)

lemma views_agree_addMetadata: "views_agree d \<Longrightarrow> views_agree (addMetadata k v d)"
  by (auto simp: views_agree_def addMetadata_def common_addMetadata_def hash_insertOrAssign_def
      map_of_filter_other distinct_map_filter intro!: ext)

text \<open>The operations of the metadata, one after the other.\<close>

datatype metadata_op = SetMulti metadata | SetHash metadata | AddPair string string

primrec apply_metadata_op ::
  "metadata_op \<Rightarrow> 'a common_options_scheme \<Rightarrow> 'a common_options_scheme" where
  "apply_metadata_op (SetMulti md) d = setMetadata md d"
| "apply_metadata_op (SetHash md) d = setHashMetadata md d"
| "apply_metadata_op (AddPair k v) d = addMetadata k v d"

primrec proper_op :: "metadata_op \<Rightarrow> bool" where
  "proper_op (SetMulti md) = True"
| "proper_op (SetHash md) = distinct (map fst md)"
| "proper_op (AddPair k v) = True"

lemma views_agree_op: "views_agree d \<Longrightarrow> proper_op m \<Longrightarrow> views_agree (apply_metadata_op m d)"
  by (cases m)
    (simp_all add: views_agree_setMetadata views_agree_setHashMetadata views_agree_addMetadata)

lemma views_agree_ops:
  "views_agree d \<Longrightarrow> \<forall>m \<in> set ops. proper_op m \<Longrightarrow> views_agree (fold apply_metadata_op ops d)"
  by (induction ops arbitrary: d) (simp_all add: views_agree_op)

text \<open>whatever sequence of metadata setters (multi valued, deprecated single valued, adding a
  pair) is called on fresh options, the deprecated hash gives for every key the newest value that
  the multi valued metadata has for it, and no key of it occurs twice.\<close>

theorem metadata_views_agree:
  assumes "\<forall>m \<in> set ops. proper_op m"
  shows "let d = fold apply_metadata_op ops new_common_options
         in map_of (m_deprecatedMetadata d) = map_of (m_metadata d) \<and>
            distinct (map fst (m_deprecatedMetadata d))"
proof -
  have "views_agree new_common_options" by (simp add: views_agree_def new_common_options_def)
  from views_agree_ops [OF this assms] show ?thesis by (simp add: views_agree_def Let_def)
qed

theorem metadata_views_agree_witness:
  "map_of (m_deprecatedMetadata
     (fold apply_metadata_op [AddPair ''k'' ''a'', AddPair ''k'' ''b''] new_common_options)) ''k'' = Some ''b''"
  using metadata_views_agree [of "[AddPair ''k'' ''a'', AddPair ''k'' ''b'']"]
  by (simp add: Let_def addMetadata_def containsMetadata_def common_addMetadata_def new_common_options_def)

lemma multi_equal_map_of: "distinct (map fst a) \<Longrightarrow> multi_equal a b \<Longrightarrow> map_of a = map_of b"
  by (metis distinct_map map_of_inject_set mset_eq_imp_distinct_iff mset_eq_setD mset_map multi_equal_def)

lemma distinct_keys_mset_unique:
  "distinct (map fst a) \<Longrightarrow> distinct (map fst b) \<Longrightarrow> map_of a = map_of b \<Longrightarrow> mset a = mset b"
  by (metis distinct_map map_of_inject_set set_eq_iff_mset_eq_distinct)

text \<open>the deprecated single valued \<open>setMetadata\<close> replaces the metadata except in one case: it
  returns early when the deprecated hash already has the given values, and then the older values
  of a key with several values stay and are still sent.\<close>

theorem deprecated_setMetadata_replaces_iff:
  assumes "views_agree d" and "distinct (map fst md)"
  shows "multi_equal (m_metadata (setHashMetadata md d)) md \<longleftrightarrow>
         distinct (map fst (m_metadata d)) \<or> map_of (m_metadata d) \<noteq> map_of md"
proof (cases "hash_equal (m_deprecatedMetadata d) md")
  case True
  with assms have eq: "map_of (m_metadata d) = map_of md"
    by (simp add: views_agree_def hash_equal_map_of)
  have "multi_equal (m_metadata d) md \<longleftrightarrow> distinct (map fst (m_metadata d))"
    using assms(2) eq distinct_keys_mset_unique mset_eq_imp_distinct_iff mset_map multi_equal_def
    by metis
  with True eq show ?thesis by (simp add: setHashMetadata_def)
next
  case False
  with assms have "map_of (m_metadata d) \<noteq> map_of md"
    by (simp add: views_agree_def hash_equal_map_of)
  with False show ?thesis
    by (simp add: setHashMetadata_def common_setHashMetadata_def multi_equal_def)
qed

theorem deprecated_setMetadata_replaces_iff_witness:
  "\<not> multi_equal (m_metadata (setHashMetadata [(''k'', ''b'')]
        (addMetadata ''k'' ''b'' (addMetadata ''k'' ''a'' new_common_options)))) [(''k'', ''b'')]"
  by (subst deprecated_setMetadata_replaces_iff)
    (simp_all add: views_agree_def addMetadata_def containsMetadata_def common_addMetadata_def
      new_common_options_def hash_insertOrAssign_def)

subsection \<open>Limits of the channel options\<close>

lemma has_algorithm_bit:
  "has_algorithm flags Identity \<longleftrightarrow> bit flags 0"
  "has_algorithm flags Deflate \<longleftrightarrow> bit flags 1"
  "has_algorithm flags Gzip \<longleftrightarrow> bit flags 2"
  using and_exp_eq_0_iff_not_bit [of flags 0] and_exp_eq_0_iff_not_bit [of flags 1]
    and_exp_eq_0_iff_not_bit [of flags 2]
  by (simp_all add: has_algorithm_def)

lemma supported_bits:
  "bit (supportedCompressionAlgorithms enc) n \<longleftrightarrow>
     n = 0 \<or> n = 1 \<and> enc ''deflate'' \<or> n = 2 \<and> enc ''gzip''"
proof -
  have "bit (compression_flag Identity) n \<longleftrightarrow> n = 0" "bit (compression_flag Deflate) n \<longleftrightarrow> n = 1"
      "bit (compression_flag Gzip) n \<longleftrightarrow> n = 2"
    using bit_exp_iff [where 'a = "32 word", of 0 n] bit_exp_iff [where 'a = "32 word", of 1 n]
      bit_exp_iff [where 'a = "32 word", of 2 n]
    by auto
  then show ?thesis
    by (auto simp: supportedCompressionAlgorithms_def Let_def bit_or_iff
        simp del: compression_flag.simps)
qed

lemma supported_has_identity: "has_algorithm (supportedCompressionAlgorithms enc) Identity"
  by (simp add: has_algorithm_bit supported_bits)

lemma accepted_algorithms:
  "has_algorithm (co_acceptedCompressionAlgorithms (setAcceptedCompressionAlgorithms enc a d)) algo \<longleftrightarrow>
     algo = Identity \<or>
     has_algorithm a algo \<and> has_algorithm (supportedCompressionAlgorithms enc) algo"
proof -
  have "co_acceptedCompressionAlgorithms (setAcceptedCompressionAlgorithms enc a d) =
      (a AND supportedCompressionAlgorithms enc) OR 1"
    by (simp add: setAcceptedCompressionAlgorithms_def Let_def)
  then show ?thesis by (cases algo) (simp_all add: has_algorithm_bit bit_simps)
qed

lemma setMaximumMetadataSize_bound:
  "ucast MinimumMetadataSize \<le> maximumMetadataSize (setMaximumMetadataSize n d)"
  by (auto simp: setMaximumMetadataSize_def maximumMetadataSize_def option_or_def Let_def not_less)

lemma formats_made_apart:
  "format_comparesEqual (make_format k i) (make_format k' j) \<Longrightarrow> i = j"
  by (simp add: format_comparesEqual_def make_format_def split: if_splits)

end
