(* ===== verification/Interceptors.thy ===== *)
theory Interceptors
  imports GrpcOptions
begin

text \<open>
  Interceptors (src/src/grpc/qgrpcinterceptor.h, qgrpcinterceptorchain.h, qgrpcinterceptorchain.cpp,
  qgrpcinterceptorengine_p.h): objects of the user that see or change a call at its stages. A chain
  holds them in the order in which they were added, an engine sorts their interfaces by stage. An
  interceptor is an identity \<open>'i\<close> here, and its code is a parameter.
\<close>

subsection \<open>Stages\<close>

datatype capability =
  StartCap | InitialMetadataCap | MessageReceivedCap | WriteMessageCap
| WritesDoneCap | TrailingMetadataCap | FinishedCap | CancelCap

primrec capability_value :: "capability \<Rightarrow> 64 word" where
  "capability_value StartCap = 0x01"
| "capability_value InitialMetadataCap = 0x02"
| "capability_value MessageReceivedCap = 0x04"
| "capability_value WriteMessageCap = 0x08"
| "capability_value WritesDoneCap = 0x10"
| "capability_value TrailingMetadataCap = 0x20"
| "capability_value FinishedCap = 0x40"
| "capability_value CancelCap = 0x80"

text \<open>The list of the interceptor types, in the order of the code.\<close>

definition InterceptorTypes :: "capability list" where
  "InterceptorTypes =
     [StartCap, InitialMetadataCap, MessageReceivedCap, WriteMessageCap, WritesDoneCap,
      TrailingMetadataCap, FinishedCap, CancelCap]"

definition countr_zero :: "64 word \<Rightarrow> nat" where
  "countr_zero w = length (takeWhile (\<lambda>i. \<not> bit w i) [0..<64])"

definition capabilityToIndex :: "capability \<Rightarrow> nat" where
  "capabilityToIndex c = countr_zero (capability_value c)"

datatype interception_flow = Outbound | Inbound

primrec flow :: "capability \<Rightarrow> interception_flow" where
  "flow StartCap = Outbound"
| "flow InitialMetadataCap = Inbound"
| "flow MessageReceivedCap = Inbound"
| "flow WriteMessageCap = Outbound"
| "flow WritesDoneCap = Outbound"
| "flow TrailingMetadataCap = Inbound"
| "flow FinishedCap = Inbound"
| "flow CancelCap = Outbound"

subsection \<open>Chains\<close>

text \<open>\<open>bases\<close> says from which interceptor types the class of the object is derived.\<close>

record 'i interceptor =
  identity :: 'i
  bases :: "capability \<Rightarrow> bool"

type_synonym 'i capability_binding = "capability \<times> 'i"

definition extractFrom :: "'i interceptor \<Rightarrow> 'i capability_binding list" where
  "extractFrom p = map (\<lambda>c. (c, identity p)) (filter (bases p) InterceptorTypes)"

text \<open>\<open>is_interceptor\<close>: at least one base.\<close>

definition is_interceptor :: "'i interceptor \<Rightarrow> bool" where
  "is_interceptor p \<longleftrightarrow> list_ex (bases p) InterceptorTypes"

record 'i chain_entry =
  storage :: 'i
  deleter :: bool
  bindings :: "'i capability_binding list"
  entry_capabilities :: "64 word"

definition setFlag :: "capability \<Rightarrow> 64 word \<Rightarrow> 64 word" where
  "setFlag c w = w OR capability_value c"

definition testFlag :: "64 word \<Rightarrow> capability \<Rightarrow> bool" where
  "testFlag w c \<longleftrightarrow> w AND capability_value c = capability_value c"

definition new_entry :: "'i \<Rightarrow> bool \<Rightarrow> 'i capability_binding list \<Rightarrow> 'i chain_entry" where
  "new_entry s d bs =
     \<lparr>storage = s, deleter = d, bindings = bs, entry_capabilities = fold (setFlag \<circ> fst) bs 0\<rparr>"

record 'i interceptor_chain =
  combinedCapabilities :: "64 word"
  interceptors :: "'i chain_entry list"

definition new_chain :: "'i interceptor_chain" where
  "new_chain = \<lparr>combinedCapabilities = 0, interceptors = []\<rparr>"

text \<open>The interceptors that the destructors of the entries delete.\<close>

definition destroyed :: "'i interceptor_chain \<Rightarrow> 'i list" where
  "destroyed ch = map storage (filter deleter (interceptors ch))"

definition clear_chain :: "'i interceptor_chain \<Rightarrow> 'i list \<times> 'i interceptor_chain" where
  "clear_chain ch = (destroyed ch, ch\<lparr>combinedCapabilities := 0, interceptors := []\<rparr>)"

definition add_entry :: "'i \<Rightarrow> bool \<Rightarrow> 'i capability_binding list \<Rightarrow> 'i interceptor_chain \<Rightarrow> bool \<times> 'i interceptor_chain" where
  "add_entry s d bs ch =
     (let e = new_entry s d bs
      in (True, ch\<lparr>combinedCapabilities := combinedCapabilities ch OR entry_capabilities e,
                   interceptors := interceptors ch @ [e]\<rparr>))"

text \<open>An argument is a pointer that may be null, with the flag of a \<open>std::unique_ptr\<close>.\<close>

type_synonym 'i interceptor_arg = "'i interceptor option \<times> bool"

definition addHelper :: "'i interceptor_arg \<Rightarrow> 'i interceptor_chain \<Rightarrow> bool \<times> 'i interceptor_chain" where
  "addHelper a ch =
     (case fst a of
        None \<Rightarrow> (False, ch)
      | Some p \<Rightarrow> add_entry (identity p) (snd a) (extractFrom p) ch)"

text \<open>The fold with \<open>&&\<close> of \<open>setHelper\<close>.\<close>

fun add_all :: "'i interceptor_arg list \<Rightarrow> 'i interceptor_chain \<Rightarrow> bool \<times> 'i interceptor_chain" where
  "add_all [] ch = (True, ch)"
| "add_all (a # as) ch =
     (case addHelper a ch of (True, ch') \<Rightarrow> add_all as ch' | (False, ch') \<Rightarrow> (False, ch'))"

text \<open>The result has the interceptors that were deleted: those of the chain before.\<close>

definition setHelper ::
  "'i interceptor_arg list \<Rightarrow> 'i interceptor_chain \<Rightarrow> bool \<times> 'i list \<times> 'i interceptor_chain" where
  "setHelper as ch =
     (if list_ex (\<lambda>a. fst a = None) as then (False, [], ch)
      else case add_all as new_chain of
             (True, tmp) \<Rightarrow> (True, destroyed ch, tmp)
           | (False, tmp) \<Rightarrow> (False, destroyed tmp, ch))"

definition chain_size :: "'i interceptor_chain \<Rightarrow> nat" where
  "chain_size ch = length (interceptors ch)"

definition chain_hasHandlerFor :: "'i interceptor_chain \<Rightarrow> capability \<Rightarrow> bool" where
  "chain_hasHandlerFor ch c = testFlag (combinedCapabilities ch) c"

definition capabilitiesAt :: "'i interceptor_chain \<Rightarrow> nat \<Rightarrow> 64 word option" where
  "capabilitiesAt ch i =
     (if i < chain_size ch then Some (entry_capabilities (interceptors ch ! i)) else None)"

subsection \<open>The engine\<close>

record 'i interceptor_engine =
  capabilityHandlers :: "'i list list"
  engine_chain :: "'i interceptor_chain"

definition new_engine :: "'i interceptor_engine" where
  "new_engine = \<lparr>capabilityHandlers = replicate (length InterceptorTypes) [], engine_chain = new_chain\<rparr>"

definition add_binding :: "'i capability_binding \<Rightarrow> 'i list list \<Rightarrow> 'i list list" where
  "add_binding b hs = (let idx = capabilityToIndex (fst b) in hs[idx := hs ! idx @ [snd b]])"

definition addInterceptor :: "'i capability_binding list \<Rightarrow> 'i list list \<Rightarrow> 'i list list" where
  "addInterceptor bs hs = fold add_binding bs hs"

definition setInterceptorChain :: "'i interceptor_chain \<Rightarrow> 'i interceptor_engine \<Rightarrow> 'i interceptor_engine" where
  "setInterceptorChain ch e =
     \<lparr>capabilityHandlers =
        fold (\<lambda>i. addInterceptor (bindings i)) (interceptors ch) (map (\<lambda>_. []) (capabilityHandlers e)),
      engine_chain = ch\<rparr>"

definition hasHandlerFor :: "'i interceptor_engine \<Rightarrow> capability \<Rightarrow> bool" where
  "hasHandlerFor e c = chain_hasHandlerFor (engine_chain e) c"

text \<open>\<open>meth\<close> is what the method of an interceptor does to its arguments and to the world of the user.\<close>

definition invoke :: "capability \<Rightarrow> ('i \<Rightarrow> 'a \<Rightarrow> 'a) \<Rightarrow> 'i interceptor_engine \<Rightarrow> 'a \<Rightarrow> 'a" where
  "invoke c meth e a =
     (let handlers = capabilityHandlers e ! capabilityToIndex c
      in if flow c = Outbound then fold meth handlers a else fold meth (rev handlers) a)"

datatype continuation = Proceed | Drop

fun start_loop :: "('i \<Rightarrow> 'a \<Rightarrow> continuation \<times> 'a) \<Rightarrow> 'i list \<Rightarrow> 'a \<Rightarrow> continuation \<times> 'a" where
  "start_loop meth [] a = (Proceed, a)"
| "start_loop meth (h # hs) a =
     (case meth h a of (Drop, a') \<Rightarrow> (Drop, a') | (Proceed, a') \<Rightarrow> start_loop meth hs a')"

definition onStart :: "('i \<Rightarrow> 'a \<Rightarrow> continuation \<times> 'a) \<Rightarrow> 'i interceptor_engine \<Rightarrow> 'a \<Rightarrow> continuation \<times> 'a" where
  "onStart meth e a = start_loop meth (capabilityHandlers e ! capabilityToIndex StartCap) a"

subsection \<open>Chains and engines that the code can build\<close>

text \<open>The entries have at least one binding, and the flags are those of the bindings.\<close>

definition chain_ok :: "'i interceptor_chain \<Rightarrow> bool" where
  "chain_ok ch \<longleftrightarrow>
     (\<forall>e \<in> set (interceptors ch). entry_capabilities e = fold (setFlag \<circ> fst) (bindings e) 0) \<and>
     combinedCapabilities ch = fold (\<lambda>e w. w OR entry_capabilities e) (interceptors ch) 0"

definition engine_ok :: "'i interceptor_engine \<Rightarrow> bool" where
  "engine_ok e \<longleftrightarrow> chain_ok (engine_chain e) \<and>
     (\<forall>c. capabilityHandlers e ! capabilityToIndex c =
        map snd (filter (\<lambda>b. fst b = c) (concat (map bindings (interceptors (engine_chain e))))))"

lemma capabilityToIndex_simps [simp]:
  "capabilityToIndex StartCap = 0" "capabilityToIndex InitialMetadataCap = 1"
  "capabilityToIndex MessageReceivedCap = 2" "capabilityToIndex WriteMessageCap = 3"
  "capabilityToIndex WritesDoneCap = 4" "capabilityToIndex TrailingMetadataCap = 5"
  "capabilityToIndex FinishedCap = 6" "capabilityToIndex CancelCap = 7"
  by (simp_all add: capabilityToIndex_def countr_zero_def upt_rec)

lemma capabilityToIndex_inject [simp]: "capabilityToIndex c = capabilityToIndex d \<longleftrightarrow> c = d"
  by (cases c; cases d) simp_all

lemma capabilityToIndex_less [simp]: "capabilityToIndex c < 8"
  by (cases c) simp_all

lemma length_InterceptorTypes [simp]: "length InterceptorTypes = 8"
  by (simp add: InterceptorTypes_def)

lemma InterceptorTypes_all [simp]: "set InterceptorTypes = UNIV" "distinct InterceptorTypes"
proof -
  have "c \<in> set InterceptorTypes" for c by (cases c) (simp_all add: InterceptorTypes_def)
  then show "set InterceptorTypes = UNIV" by blast
qed (simp add: InterceptorTypes_def)

lemma testFlag_zero [simp]: "\<not> testFlag 0 c"
  by (cases c) (simp_all add: testFlag_def)

lemma testFlag_or [simp]: "testFlag (v OR w) c \<longleftrightarrow> testFlag v c \<or> testFlag w c"
proof -
  have "testFlag u c \<longleftrightarrow> bit u (capabilityToIndex c)" for u :: "64 word"
  proof -
    have v: "capability_value c = push_bit (capabilityToIndex c) 1"
      by (cases c) simp_all
    have "capabilityToIndex c < 64" by (cases c) simp_all
    then show ?thesis unfolding testFlag_def v bit_eq_iff
      by (auto simp: bit_and_iff bit_exp_iff)
  qed
  then show ?thesis by (simp add: bit_simps)
qed

lemma testFlag_value [simp]: "testFlag (capability_value d) c \<longleftrightarrow> d = c"
  by (cases d; cases c) (simp_all add: testFlag_def)


lemma testFlag_bindings [simp]: "testFlag (fold (setFlag \<circ> fst) bs w) c \<longleftrightarrow> testFlag w c \<or> c \<in> fst ` set bs"
  by (induction bs arbitrary: w) (auto simp: setFlag_def)

lemma testFlag_entries:
  "testFlag (fold (\<lambda>e w. w OR entry_capabilities e) es w) c \<longleftrightarrow>
     testFlag w c \<or> (\<exists>e \<in> set es. testFlag (entry_capabilities e) c)"
  by (induction es arbitrary: w) auto

lemma extractFrom_caps [simp]: "fst ` set (extractFrom p) = {c. bases p c}"
  by (force simp: extractFrom_def)

lemma extractFrom_filter [simp]:
  "map snd (filter (\<lambda>b. fst b = c) (extractFrom p)) = (if bases p c then [identity p] else [])"
proof -
  have "filter (\<lambda>x. bases p x \<and> x = c) InterceptorTypes = (if bases p c then [c] else [])"
    by (cases c) (simp_all add: InterceptorTypes_def)
  then show ?thesis by (simp add: extractFrom_def filter_map comp_def conj_commute)
qed

lemma chain_ok_new [simp]: "chain_ok new_chain"
  by (simp add: chain_ok_def new_chain_def)

lemma chain_ok_add: "chain_ok ch \<Longrightarrow> chain_ok (snd (addHelper a ch))"
  by (auto simp: chain_ok_def addHelper_def add_entry_def new_entry_def Let_def split: option.split)

lemma chain_ok_add_all: "chain_ok ch \<Longrightarrow> chain_ok (snd (add_all as ch))"
proof (induction as arbitrary: ch)
  case (Cons a as)
  then show ?case using chain_ok_add [OF Cons.prems, of a] by (auto split: prod.split bool.split)
qed simp

lemma chain_ok_set: "chain_ok ch \<Longrightarrow> chain_ok (snd (snd (setHelper as ch)))"
  using chain_ok_add_all [OF chain_ok_new, of as]
  by (auto simp: setHelper_def split: prod.split bool.split)

lemma chain_ok_clear: "chain_ok (snd (clear_chain ch))"
  by (simp add: chain_ok_def clear_chain_def)

lemma length_addInterceptor [simp]: "length (addInterceptor bs hs) = length hs"
  unfolding addInterceptor_def by (induction bs arbitrary: hs) (simp_all add: add_binding_def Let_def)

lemma nth_addInterceptor:
  assumes "length hs = 8"
  shows "addInterceptor bs hs ! capabilityToIndex c =
    hs ! capabilityToIndex c @ map snd (filter (\<lambda>b. fst b = c) bs)"
  using assms unfolding addInterceptor_def
  by (induction bs arbitrary: hs) (auto simp: add_binding_def Let_def nth_list_update)

lemma nth_addInterceptors:
  assumes "length hs = 8"
  shows "fold (\<lambda>i. addInterceptor (bindings i)) es hs ! capabilityToIndex c =
    hs ! capabilityToIndex c @ map snd (filter (\<lambda>b. fst b = c) (concat (map bindings es)))"
  using assms by (induction es arbitrary: hs) (simp_all add: nth_addInterceptor)

lemma length_addInterceptors:
  "length (fold (\<lambda>i. addInterceptor (bindings i)) es hs) = length hs"
  by (induction es arbitrary: hs) simp_all

definition engine_of :: "'i interceptor_chain \<Rightarrow> 'i interceptor_engine" where
  "engine_of ch = setInterceptorChain ch new_engine"

lemma engine_ok_of: "chain_ok ch \<Longrightarrow> engine_ok (engine_of ch)"
  by (simp add: engine_ok_def engine_of_def setInterceptorChain_def new_engine_def nth_addInterceptors)

lemma hasHandlerFor_iff:
  assumes "engine_ok e"
  shows "hasHandlerFor e c \<longleftrightarrow> capabilityHandlers e ! capabilityToIndex c \<noteq> []"
proof -
  have "testFlag (entry_capabilities i) c \<longleftrightarrow> c \<in> fst ` set (bindings i)"
    if "i \<in> set (interceptors (engine_chain e))" for i
    using assms that by (simp add: engine_ok_def chain_ok_def)
  then have "hasHandlerFor e c \<longleftrightarrow>
      (\<exists>i \<in> set (interceptors (engine_chain e)). c \<in> fst ` set (bindings i))"
    using assms by (simp add: hasHandlerFor_def chain_hasHandlerFor_def engine_ok_def chain_ok_def testFlag_entries)
  also have "\<dots> \<longleftrightarrow> capabilityHandlers e ! capabilityToIndex c \<noteq> []"
    using assms by (auto simp: engine_ok_def filter_empty_conv image_iff)
  finally show ?thesis .
qed

text \<open>The test before an invocation only saves time.\<close>

lemma invoke_gated:
  assumes "engine_ok e"
  shows "(if hasHandlerFor e c then invoke c meth e a else a) = invoke c meth e a"
  using assms by (simp add: hasHandlerFor_iff invoke_def Let_def)

lemma onStart_gated:
  assumes "engine_ok e"
  shows "(if hasHandlerFor e StartCap then onStart meth e a else (Proceed, a)) = onStart meth e a"
  using assms by (simp add: hasHandlerFor_iff onStart_def)

lemma add_all_entries:
  assumes "\<forall>a \<in> set as. fst a \<noteq> None"
  shows "add_all as ch = (True, snd (add_all as ch)) \<and>
    map bindings (interceptors (snd (add_all as ch))) =
      map bindings (interceptors ch) @ map (extractFrom \<circ> the \<circ> fst) as"
  using assms
proof (induction as arbitrary: ch)
  case (Cons a as)
  then obtain p where p: "fst a = Some p" by auto
  obtain ch' where ch': "addHelper a ch = (True, ch')"
    "map bindings (interceptors ch') = map bindings (interceptors ch) @ [extractFrom p]"
    using p by (auto simp: addHelper_def add_entry_def new_entry_def Let_def)
  with Cons.IH [of ch'] Cons.prems p show ?case by simp
qed simp

lemma handlers_of_set:
  assumes "\<forall>a \<in> set as. fst a \<noteq> None" and "setHelper as ch = (ok, del, ch')"
  shows "ok \<and> del = destroyed ch \<and>
    capabilityHandlers (engine_of ch') ! capabilityToIndex c =
      map identity (filter (\<lambda>p. bases p c) (map (the \<circ> fst) as))"
proof -
  have nn: "\<not> list_ex (\<lambda>a. fst a = None) as" using assms(1) by (auto simp: list_ex_iff)
  have *: "setHelper as ch = (True, destroyed ch, snd (add_all as new_chain))"
    using nn add_all_entries [OF assms(1), of new_chain] by (cases "add_all as new_chain") (auto simp: setHelper_def)
  have flt: "map snd (filter (\<lambda>b. fst b = c) (concat (map (extractFrom \<circ> the \<circ> fst) as))) =
      map identity (filter (\<lambda>p. bases p c) (map (the \<circ> fst) as))"
    by (induction as) simp_all
  have "map bindings (interceptors (snd (add_all as new_chain))) = map (extractFrom \<circ> the \<circ> fst) as"
    using add_all_entries [OF assms(1), of new_chain] by (simp add: new_chain_def)
  then have "capabilityHandlers (engine_of (snd (add_all as new_chain))) ! capabilityToIndex c =
      map identity (filter (\<lambda>p. bases p c) (map (the \<circ> fst) as))"
    by (simp add: engine_of_def setInterceptorChain_def new_engine_def nth_addInterceptors flt)
  with * assms(2) show ?thesis by simp
qed

lemma start_loop_cases:
  "start_loop meth hs a = (r, b) \<Longrightarrow>
     (r = Proceed \<and> b = fold (\<lambda>h x. snd (meth h x)) hs a \<or>
      r = Drop \<and> (\<exists>n < length hs. b = fold (\<lambda>h x. snd (meth h x)) (take (Suc n) hs) a \<and>
        fst (meth (hs ! n) (fold (\<lambda>h x. snd (meth h x)) (take n hs) a)) = Drop))"
proof (induction hs arbitrary: a)
  case (Cons h hs)
  obtain r' a' where h: "meth h a = (r', a')" by (cases "meth h a") auto
  show ?case
  proof (cases r')
    case Proceed
    then have "start_loop meth hs a' = (r, b)" using Cons.prems h by simp
    from Cons.IH [OF this] show ?thesis
    proof (elim disjE conjE exE)
      fix n assume n: "r = Drop" "n < length hs" "b = fold (\<lambda>h x. snd (meth h x)) (take (Suc n) hs) a'"
        "fst (meth (hs ! n) (fold (\<lambda>h x. snd (meth h x)) (take n hs) a')) = Drop"
      then show ?thesis using h by (intro disjI2 conjI exI [of _ "Suc n"]) simp_all
    qed (simp add: h)
  next
    case Drop
    then show ?thesis using Cons.prems h by (intro disjI2 conjI exI [of _ 0]) simp_all
  qed
qed simp

text \<open>C30: Interceptors run in the order in which they were set on the way to the network and in the reverse order on
  the way back, each at the stages whose type it is derived from and at no other; a stage is skipped
  only when no interceptor has it; and at the start of a call the first one that drops the call is the
  last one that runs. The interceptors that the chain owned before are deleted.\<close>

theorem interceptors_run_in_order:
  assumes "\<forall>a \<in> set as. fst a \<noteq> None" and "setHelper as ch = (ok, del, ch')"
    and "hs = (\<lambda>c. map identity (filter (\<lambda>p. bases p c) (map (the \<circ> fst) as)))"
    and "chain_ok ch"
  shows "ok \<and> del = map storage (filter deleter (interceptors ch)) \<and>
    (\<forall>c. hasHandlerFor (engine_of ch') c = (hs c \<noteq> [])) \<and>
    invoke c meth (engine_of ch') x = fold meth (if flow c = Outbound then hs c else rev (hs c)) x \<and>
    (fst (onStart smeth (engine_of ch') y) = Proceed \<and>
       snd (onStart smeth (engine_of ch') y) = fold (\<lambda>i z. snd (smeth i z)) (hs StartCap) y \<or>
     (\<exists>n < length (hs StartCap). fst (onStart smeth (engine_of ch') y) = Drop \<and>
       snd (onStart smeth (engine_of ch') y) = fold (\<lambda>i z. snd (smeth i z)) (take (Suc n) (hs StartCap)) y \<and>
       fst (smeth (hs StartCap ! n) (fold (\<lambda>i z. snd (smeth i z)) (take n (hs StartCap)) y)) = Drop))"
proof -
  note set = handlers_of_set [OF assms(1,2)]
  have handlers: "capabilityHandlers (engine_of ch') ! capabilityToIndex c = hs c" for c
    using set [of c] by (simp add: assms(3))
  have "engine_ok (engine_of ch')"
    using chain_ok_set [OF assms(4), of as] assms(2) by (simp add: engine_ok_of)
  then have "hasHandlerFor (engine_of ch') c = (hs c \<noteq> [])" for c
    by (simp only: hasHandlerFor_iff handlers)
  moreover have "invoke c meth (engine_of ch') x = fold meth (if flow c = Outbound then hs c else rev (hs c)) x"
    by (simp add: invoke_def handlers Let_def)
  moreover have "start_loop smeth (hs StartCap) y = onStart smeth (engine_of ch') y"
    by (simp only: onStart_def handlers)
  ultimately show ?thesis
    using set [of StartCap] start_loop_cases [of smeth "hs StartCap" y] by (cases "onStart smeth (engine_of ch') y") (auto simp: destroyed_def)
qed

text \<open>Three interceptors; the second drops calls, the third is not asked.\<close>

definition demo_interceptors :: "nat interceptor_arg list" where
  "demo_interceptors =
     [(Some \<lparr>identity = 1, bases = (\<lambda>c. True)\<rparr>, True),
      (Some \<lparr>identity = 2, bases = (\<lambda>c. c = StartCap)\<rparr>, False),
      (Some \<lparr>identity = 3, bases = (\<lambda>c. c = StartCap \<or> c = FinishedCap)\<rparr>, True)]"

theorem interceptors_run_in_order_witness:
  "invoke FinishedCap (\<lambda>i xs. xs @ [i]) (engine_of (snd (snd (setHelper demo_interceptors new_chain)))) [] = [3, 1] \<and>
   invoke CancelCap (\<lambda>i xs. xs @ [i]) (engine_of (snd (snd (setHelper demo_interceptors new_chain)))) [] = [1]"
proof -
  obtain ok del ch' where s: "setHelper demo_interceptors new_chain = (ok, del, ch')"
    by (cases "setHelper demo_interceptors new_chain") auto
  have n: "\<forall>a \<in> set demo_interceptors. fst a \<noteq> None" by (simp add: demo_interceptors_def)
  have "invoke c (\<lambda>i xs. xs @ [i]) (engine_of ch') [] =
      fold (\<lambda>i xs. xs @ [i]) (if flow c = Outbound then map identity (filter (\<lambda>p. bases p c) (map (the \<circ> fst) demo_interceptors))
        else rev (map identity (filter (\<lambda>p. bases p c) (map (the \<circ> fst) demo_interceptors)))) []" for c
    using interceptors_run_in_order [OF n s refl chain_ok_new, of c "\<lambda>i xs. xs @ [i]" "[]" "\<lambda>i x. (Drop, x)" "0 :: nat"]
    by blast
  then show ?thesis unfolding s snd_conv by (simp add: demo_interceptors_def)
qed

end
