(* ===== verification/SelfcheckIterator.thy ===== *)
theory SelfcheckIterator
  imports Prelude
begin

text \<open>
  \<open>QProtobufSelfcheckIterator\<close> (src/src/protobuf/qprotobufselfcheckiterator_p.h): a byte iterator
  that knows the range it was created for. Pointers are positions relative to the begin of the
  view, as integers, because the code lets the iterator leave its range in both directions and
  tells so afterwards by \<open>isValid()\<close>. Dereferencing outside the view reads whatever is in memory
  there, a parameter of the model. Release builds are modelled: \<open>Q_ASSERT\<close> does nothing.
\<close>

record selfcheck_it =
  it_view :: "byte list"
  it_pos :: int

definition fromView :: "byte list \<Rightarrow> selfcheck_it" where
  "fromView container = \<lparr>it_view = container, it_pos = 0\<rparr>"

definition container_end :: "selfcheck_it \<Rightarrow> int" where
  "container_end it = int (length (it_view it))"

definition isValid :: "selfcheck_it \<Rightarrow> bool" where
  "isValid it \<longleftrightarrow> 0 \<le> it_pos it \<and> it_pos it \<le> container_end it"

definition it_deref :: "platform \<Rightarrow> selfcheck_it \<Rightarrow> byte" where
  "it_deref p it =
     (if 0 \<le> it_pos it \<and> it_pos it < container_end it then it_view it ! nat (it_pos it)
      else oob_byte p (it_pos it))"

definition it_inc :: "selfcheck_it \<Rightarrow> selfcheck_it" where
  "it_inc it = (if \<not> isValid it then it else it\<lparr>it_pos := it_pos it + 1\<rparr>)"

definition it_dec :: "selfcheck_it \<Rightarrow> selfcheck_it" where
  "it_dec it = (if \<not> isValid it then it else it\<lparr>it_pos := it_pos it - 1\<rparr>)"

text \<open>The post-increment and post-decrement forms return the old iterator and the moved one.\<close>

definition it_post_inc :: "selfcheck_it \<Rightarrow> selfcheck_it \<times> selfcheck_it" where
  "it_post_inc it = (it, it_inc it)"

definition it_post_dec :: "selfcheck_it \<Rightarrow> selfcheck_it \<times> selfcheck_it" where
  "it_post_dec it = (it, it_dec it)"

definition it_add :: "selfcheck_it \<Rightarrow> int \<Rightarrow> selfcheck_it" where
  "it_add it count = (if \<not> isValid it then it else it\<lparr>it_pos := it_pos it + count\<rparr>)"

definition it_sub :: "selfcheck_it \<Rightarrow> int \<Rightarrow> selfcheck_it" where
  "it_sub it count = (if \<not> isValid it then it else it\<lparr>it_pos := it_pos it - count\<rparr>)"

definition bytesLeft :: "selfcheck_it \<Rightarrow> int" where
  "bytesLeft it = (if isValid it then container_end it - it_pos it else 0)"

definition it_eq :: "selfcheck_it \<Rightarrow> selfcheck_it \<Rightarrow> bool" where
  "it_eq lhs rhs \<longleftrightarrow> it_pos lhs = it_pos rhs"

definition it_eq_ptr :: "selfcheck_it \<Rightarrow> int \<Rightarrow> bool" where
  "it_eq_ptr lhs other \<longleftrightarrow> it_pos lhs = other"

definition it_diff :: "selfcheck_it \<Rightarrow> selfcheck_it \<Rightarrow> int" where
  "it_diff lhs rhs = it_pos lhs - it_pos rhs"

text \<open>
  \<open>QByteArray(it.data(), n)\<close> and \<open>qFromUnaligned\<close> read \<open>n\<close> bytes from the position on, each as
  a dereference does.
\<close>

definition it_read :: "platform \<Rightarrow> selfcheck_it \<Rightarrow> nat \<Rightarrow> byte list" where
  "it_read p it n = map (\<lambda>i. it_deref p (it\<lparr>it_pos := it_pos it + int i\<rparr>)) [0..<n]"

text \<open>The bytes of the view from the position on: the list that the iterator stands for.\<close>

definition remaining :: "selfcheck_it \<Rightarrow> byte list" where
  "remaining it = drop (nat (it_pos it)) (it_view it)"

text \<open>An iterator that stands before the bytes \<open>bs\<close> of its view.\<close>

definition at_bytes :: "byte list \<Rightarrow> byte list \<Rightarrow> byte list \<Rightarrow> selfcheck_it" where
  "at_bytes pre bs post = \<lparr>it_view = pre @ bs @ post, it_pos = int (length pre)\<rparr>"

lemma isValid_fromView [simp]: "isValid (fromView bs)"
  by (simp add: isValid_def fromView_def container_end_def)

lemma remaining_fromView [simp]: "remaining (fromView bs) = bs"
  by (simp add: remaining_def fromView_def)

lemma bytesLeft_nonneg [simp]: "0 \<le> bytesLeft it"
  by (simp add: bytesLeft_def isValid_def)

lemma bytesLeft_remaining: "isValid it \<Longrightarrow> bytesLeft it = int (length (remaining it))"
  by (auto simp: bytesLeft_def isValid_def remaining_def container_end_def of_nat_diff nat_le_iff)

lemma bytesLeft_pos: "(0 < bytesLeft it) = (bytesLeft it \<noteq> 0)"
  using bytesLeft_nonneg [of it] by linarith

lemma bytesLeft_pos_valid: "bytesLeft it \<noteq> 0 \<Longrightarrow> isValid it"
  by (auto simp: bytesLeft_def split: if_splits)

lemma it_inc_view [simp]: "it_view (it_inc it) = it_view it"
  by (simp add: it_inc_def)

lemma it_add_view [simp]: "it_view (it_add it n) = it_view it"
  by (simp add: it_add_def)

lemma bytesLeft_inc: "bytesLeft it \<noteq> 0 \<Longrightarrow> bytesLeft (it_inc it) = bytesLeft it - 1"
  by (auto simp: bytesLeft_def it_inc_def isValid_def container_end_def split: if_splits)

lemma isValid_inc: "bytesLeft it \<noteq> 0 \<Longrightarrow> isValid (it_inc it)"
  by (auto simp: bytesLeft_def it_inc_def isValid_def container_end_def split: if_splits)

lemma isValid_add: "isValid it \<Longrightarrow> 0 \<le> n \<Longrightarrow> n \<le> bytesLeft it \<Longrightarrow> isValid (it_add it n)"
  by (auto simp: bytesLeft_def it_add_def isValid_def container_end_def split: if_splits)

lemma bytesLeft_add:
  "isValid it \<Longrightarrow> 0 \<le> n \<Longrightarrow> n \<le> bytesLeft it \<Longrightarrow> bytesLeft (it_add it n) = bytesLeft it - n"
  by (auto simp: bytesLeft_def it_add_def isValid_def container_end_def split: if_splits)

text \<open>Once invalid, forward moves no longer change the iterator: it cannot come back.\<close>

lemma invalid_stays:
  "\<not> isValid it \<Longrightarrow> it_inc it = it \<and> it_add it n = it \<and> it_sub it n = it \<and> it_dec it = it"
  by (simp add: it_inc_def it_add_def it_sub_def it_dec_def)

text \<open>Reading at a known place of the view.\<close>

lemma at_bytes_valid [simp]: "isValid (at_bytes pre bs post)"
  by (simp add: isValid_def at_bytes_def container_end_def)

lemma bytesLeft_at_bytes [simp]:
  "bytesLeft (at_bytes pre bs post) = int (length bs) + int (length post)"
  by (simp add: bytesLeft_def isValid_def at_bytes_def container_end_def)

lemma deref_at_bytes [simp]: "it_deref p (at_bytes pre (b # bs) post) = b"
  by (simp add: it_deref_def at_bytes_def container_end_def nth_append)

lemma it_inc_at_bytes: "it_inc (at_bytes pre (b # bs) post) = at_bytes (pre @ [b]) bs post"
  by (simp add: it_inc_def isValid_def at_bytes_def container_end_def)

lemma it_add_at_bytes:
  "it_add (at_bytes pre (xs @ bs) post) (int (length xs)) = at_bytes (pre @ xs) bs post"
  by (simp add: it_add_def isValid_def at_bytes_def container_end_def)

lemma at_bytes_shift: "at_bytes pre bs (xs @ post) = at_bytes pre (bs @ xs) post"
  by (simp add: at_bytes_def)

lemma it_read_at_bytes:
  "it_read p (at_bytes pre (xs @ bs) post) (length xs) = xs"
  by (rule nth_equalityI)
     (auto simp: it_read_def it_deref_def at_bytes_def container_end_def nth_append nat_add_distrib)

lemma it_read_remaining:
  assumes "isValid it" and "int n \<le> bytesLeft it"
  shows "it_read p it n = take n (remaining it)"
proof (rule nth_equalityI)
  show "length (it_read p it n) = length (take n (remaining it))"
    using assms by (simp add: it_read_def bytesLeft_remaining)
next
  fix i assume "i < length (it_read p it n)"
  then have i: "i < n" by (simp add: it_read_def)
  with assms show "it_read p it n ! i = take n (remaining it) ! i"
    by (auto simp: it_read_def it_deref_def remaining_def isValid_def bytesLeft_def
        container_end_def nat_add_distrib)
qed

lemma fromView_at_bytes: "fromView (bs @ post) = at_bytes [] bs post"
  by (simp add: fromView_def at_bytes_def)

end
