(* ===== verification/ScalarSerializers.thy ===== *)
theory ScalarSerializers
  imports SelfcheckIterator
begin

text \<open>
  The scalar codecs of the wire format (src/src/protobuf/protobufscalarserializers_p.h and .cpp):
  varints, little-endian fixed-width values, ZigZag integers, length-delimited strings, packed and
  non-packed lists. A template of the source over an integer type is a polymorphic function on
  words. A reader returns its value with the moved iterator, \<open>std::nullopt\<close> (or \<open>false\<close>) with the
  iterator where it stopped, or it reaches undefined behaviour of C++: a shift of a 64-bit integer
  by 64 bits or more.
\<close>

datatype 'a outcome = Got 'a selfcheck_it | Nullopt selfcheck_it | Undefined

fun map_outcome_val :: "('a \<Rightarrow> 'b) \<Rightarrow> 'a outcome \<Rightarrow> 'b outcome" where
  "map_outcome_val f (Got v it) = Got (f v) it"
| "map_outcome_val f (Nullopt it) = Nullopt it"
| "map_outcome_val f Undefined = Undefined"

subsection \<open>Types and values\<close>

text \<open>The scalar types of \<open>QtProtobuf\<close> (qtprotobuftypes.h) and their values. A floating point
  value is its IEEE-754 bit pattern.\<close>

datatype scalar_type =
  T_float | T_double | T_int32 | T_int64 | T_uint32 | T_uint64 | T_sint32 | T_sint64
| T_fixed32 | T_fixed64 | T_sfixed32 | T_sfixed64 | T_boolean | T_QString | T_QByteArray

datatype scalar =
  V_float "32 word" | V_double "64 word" | V_int32 "32 word" | V_int64 "64 word"
| V_uint32 "32 word" | V_uint64 "64 word" | V_sint32 "32 word" | V_sint64 "64 word"
| V_fixed32 "32 word" | V_fixed64 "64 word" | V_sfixed32 "32 word" | V_sfixed64 "64 word"
| V_boolean bool | V_QString qstring | V_QByteArray "byte list"

fun scalar_type_of :: "scalar \<Rightarrow> scalar_type" where
  "scalar_type_of (V_float _) = T_float"
| "scalar_type_of (V_double _) = T_double"
| "scalar_type_of (V_int32 _) = T_int32"
| "scalar_type_of (V_int64 _) = T_int64"
| "scalar_type_of (V_uint32 _) = T_uint32"
| "scalar_type_of (V_uint64 _) = T_uint64"
| "scalar_type_of (V_sint32 _) = T_sint32"
| "scalar_type_of (V_sint64 _) = T_sint64"
| "scalar_type_of (V_fixed32 _) = T_fixed32"
| "scalar_type_of (V_fixed64 _) = T_fixed64"
| "scalar_type_of (V_sfixed32 _) = T_sfixed32"
| "scalar_type_of (V_sfixed64 _) = T_sfixed64"
| "scalar_type_of (V_boolean _) = T_boolean"
| "scalar_type_of (V_QString _) = T_QString"
| "scalar_type_of (V_QByteArray _) = T_QByteArray"

text \<open>The type traits that select the template: unsigned, signed, ZigZag, fixed, length-delimited.\<close>

fun is_unsigned_int :: "scalar_type \<Rightarrow> bool" where
  "is_unsigned_int T_uint32 = True" | "is_unsigned_int T_uint64 = True"
| "is_unsigned_int T_boolean = True" | "is_unsigned_int _ = False"

fun is_signed_int :: "scalar_type \<Rightarrow> bool" where
  "is_signed_int T_int32 = True" | "is_signed_int T_int64 = True" | "is_signed_int _ = False"

fun is_zigzag_int :: "scalar_type \<Rightarrow> bool" where
  "is_zigzag_int T_sint32 = True" | "is_zigzag_int T_sint64 = True" | "is_zigzag_int _ = False"

definition is_int :: "scalar_type \<Rightarrow> bool" where
  "is_int t \<longleftrightarrow> is_unsigned_int t \<or> is_zigzag_int t \<or> is_signed_int t"

fun is_i32 :: "scalar_type \<Rightarrow> bool" where
  "is_i32 T_fixed32 = True" | "is_i32 T_sfixed32 = True" | "is_i32 T_float = True"
| "is_i32 _ = False"

fun is_i64 :: "scalar_type \<Rightarrow> bool" where
  "is_i64 T_fixed64 = True" | "is_i64 T_sfixed64 = True" | "is_i64 T_double = True"
| "is_i64 _ = False"

definition is_i32_or_i64 :: "scalar_type \<Rightarrow> bool" where
  "is_i32_or_i64 t \<longleftrightarrow> is_i32 t \<or> is_i64 t"

fun is_length_delimited :: "scalar_type \<Rightarrow> bool" where
  "is_length_delimited T_QString = True" | "is_length_delimited T_QByteArray = True"
| "is_length_delimited _ = False"

definition is_non_packed_compatible :: "scalar_type \<Rightarrow> bool" where
  "is_non_packed_compatible t \<longleftrightarrow> is_int t \<or> is_i32_or_i64 t \<or> is_length_delimited t"

subsection \<open>Serializers\<close>

function varint_groups :: "64 word \<Rightarrow> byte list" where
  "varint_groups v =
     (if v = 0 then [] else ucast ((v AND 127) OR 128) # varint_groups (drop_bit 7 v))"
  by pat_completeness auto
termination
  by (relation "measure unat") (auto intro: drop_bit_less)

declare varint_groups.simps [simp del]

definition serializeVarintCommonImpl :: "64 word \<Rightarrow> byte list" where
  "serializeVarintCommonImpl value =
     (if value = 0 then [0]
      else let result = varint_groups value
           in butlast result @ [last result AND NOT 128])"

definition serializeVarintCommon :: "'a::len word \<Rightarrow> byte list" where
  "serializeVarintCommon value = serializeVarintCommonImpl (ucast value)"

text \<open>\<open>qToUnaligned (qToLittleEndian value)\<close>: the bytes of the value, the lowest first.\<close>

definition le_bytes :: "nat \<Rightarrow> 'a::len word \<Rightarrow> byte list" where
  "le_bytes n value = map (\<lambda>i. ucast (drop_bit (8 * i) value)) [0..<n]"

definition serializeZigZag32 :: "32 word \<Rightarrow> byte list" where
  "serializeZigZag32 value = serializeVarintCommon (push_bit 1 value XOR signed_drop_bit 31 value)"

definition serializeZigZag64 :: "64 word \<Rightarrow> byte list" where
  "serializeZigZag64 value = serializeVarintCommon (push_bit 1 value XOR signed_drop_bit 63 value)"

definition prependLengthDelimitedSize :: "byte list \<Rightarrow> byte list" where
  "prependLengthDelimitedSize data = serializeVarintCommonImpl (of_nat (length data)) @ data"

fun serializeBasic :: "platform \<Rightarrow> scalar \<Rightarrow> byte list" where
  "serializeBasic p (V_float v) = le_bytes 4 v"
| "serializeBasic p (V_double v) = le_bytes 8 v"
| "serializeBasic p (V_int32 v) = serializeVarintCommon (scast v :: 64 word)"
| "serializeBasic p (V_int64 v) = serializeVarintCommon v"
| "serializeBasic p (V_uint32 v) = serializeVarintCommon v"
| "serializeBasic p (V_uint64 v) = serializeVarintCommon v"
| "serializeBasic p (V_sint32 v) = serializeZigZag32 v"
| "serializeBasic p (V_sint64 v) = serializeZigZag64 v"
| "serializeBasic p (V_fixed32 v) = le_bytes 4 v"
| "serializeBasic p (V_fixed64 v) = le_bytes 8 v"
| "serializeBasic p (V_sfixed32 v) = le_bytes 4 v"
| "serializeBasic p (V_sfixed64 v) = le_bytes 8 v"
| "serializeBasic p (V_boolean b) = serializeVarintCommon (if b then 1 else 0 :: 64 word)"
| "serializeBasic p (V_QString s) = prependLengthDelimitedSize (toUtf8 p s)"
| "serializeBasic p (V_QByteArray bs) = prependLengthDelimitedSize bs"

definition serializeListType :: "platform \<Rightarrow> scalar list \<Rightarrow> byte list" where
  "serializeListType p listValue =
     (if listValue = [] then []
      else prependLengthDelimitedSize (concat (map (serializeBasic p) listValue)))"

definition serializeNonPackedList :: "platform \<Rightarrow> scalar list \<Rightarrow> byte list \<Rightarrow> byte list" where
  "serializeNonPackedList p listValue header =
     concat (map (\<lambda>v. header @ serializeBasic p v) listValue)"

subsection \<open>Deserializers\<close>

text \<open>
  The loop of \<open>deserializeVarintCommon\<close>. It has no bound on the number of groups: an eleventh
  group is shifted by 70 bits, which C++ leaves undefined.
\<close>

function varint_loop :: "platform \<Rightarrow> selfcheck_it \<Rightarrow> 64 word \<Rightarrow> nat \<Rightarrow> 64 word outcome" where
  "varint_loop p it value k =
     (if bytesLeft it = 0 then Nullopt it
      else if 64 \<le> k then Undefined
      else let c = it_deref p it;
               value' = value + push_bit k (ucast (c AND 127));
               it' = it_inc it
           in if c AND 128 = 0 then Got value' it' else varint_loop p it' value' (k + 7))"
  by pat_completeness auto
termination
  by (relation "measure (\<lambda>(p, it, v, k). nat (bytesLeft it))")
     (auto simp: bytesLeft_inc bytesLeft_pos)

declare varint_loop.simps [simp del]

definition deserializeVarintCommon :: "platform \<Rightarrow> selfcheck_it \<Rightarrow> 'a::len word outcome" where
  "deserializeVarintCommon p it = map_outcome_val ucast (varint_loop p it 0 0)"

definition deserializeLengthDelimited :: "platform \<Rightarrow> selfcheck_it \<Rightarrow> byte list outcome" where
  "deserializeLengthDelimited p it =
     (if bytesLeft it \<noteq> 0 then
        (case (deserializeVarintCommon p it :: 64 word outcome) of
           Got len it' \<Rightarrow>
             if isValid it' \<and> uint len \<le> bytesLeft it' \<and> unat len \<le> maxByteArray p
             then Got (it_read p it' (unat len)) (it_add it' (uint len))
             else Nullopt it'
         | Nullopt it' \<Rightarrow> Nullopt it'
         | Undefined \<Rightarrow> Undefined)
      else Nullopt it)"

text \<open>\<open>qFromLittleEndian (qFromUnaligned ...)\<close>: the word whose bytes these are, lowest first.\<close>

definition of_le_bytes :: "byte list \<Rightarrow> 'a::len word" where
  "of_le_bytes bs = foldr (\<lambda>b acc. ucast b OR push_bit 8 acc) bs 0"

definition deserializeFixed :: "platform \<Rightarrow> nat \<Rightarrow> selfcheck_it \<Rightarrow> 'a::len word outcome" where
  "deserializeFixed p n it =
     (if bytesLeft it < int n then Nullopt it
      else Got (of_le_bytes (it_read p it n)) (it_add it (int n)))"

definition zigzag_decode :: "'a::len word \<Rightarrow> 'a word" where
  "zigzag_decode u = drop_bit 1 u XOR (- 1 * (u AND 1))"

fun deserializeBasic :: "platform \<Rightarrow> scalar_type \<Rightarrow> selfcheck_it \<Rightarrow> scalar outcome" where
  "deserializeBasic p T_float it = map_outcome_val V_float (deserializeFixed p 4 it)"
| "deserializeBasic p T_double it = map_outcome_val V_double (deserializeFixed p 8 it)"
| "deserializeBasic p T_int32 it =
     map_outcome_val (\<lambda>u :: 64 word. V_int32 (ucast u)) (deserializeVarintCommon p it)"
| "deserializeBasic p T_int64 it = map_outcome_val V_int64 (deserializeVarintCommon p it)"
| "deserializeBasic p T_uint32 it = map_outcome_val V_uint32 (deserializeVarintCommon p it)"
| "deserializeBasic p T_uint64 it = map_outcome_val V_uint64 (deserializeVarintCommon p it)"
| "deserializeBasic p T_sint32 it =
     map_outcome_val (\<lambda>u. V_sint32 (zigzag_decode u)) (deserializeVarintCommon p it)"
| "deserializeBasic p T_sint64 it =
     map_outcome_val (\<lambda>u. V_sint64 (zigzag_decode u)) (deserializeVarintCommon p it)"
| "deserializeBasic p T_fixed32 it = map_outcome_val V_fixed32 (deserializeFixed p 4 it)"
| "deserializeBasic p T_fixed64 it = map_outcome_val V_fixed64 (deserializeFixed p 8 it)"
| "deserializeBasic p T_sfixed32 it = map_outcome_val V_sfixed32 (deserializeFixed p 4 it)"
| "deserializeBasic p T_sfixed64 it = map_outcome_val V_sfixed64 (deserializeFixed p 8 it)"
| "deserializeBasic p T_boolean it =
     map_outcome_val (\<lambda>u :: 64 word. V_boolean (u \<noteq> 0)) (deserializeVarintCommon p it)"
| "deserializeBasic p T_QString it =
     map_outcome_val (\<lambda>bs. V_QString (fromUtf8 p bs)) (deserializeLengthDelimited p it)"
| "deserializeBasic p T_QByteArray it = map_outcome_val V_QByteArray (deserializeLengthDelimited p it)"

text \<open>Every reader that succeeds has moved forward, and stays inside the same view.\<close>

definition advances :: "selfcheck_it \<Rightarrow> 'a outcome \<Rightarrow> bool" where
  "advances it r \<longleftrightarrow>
     (case r of Got _ it' \<Rightarrow> it_view it' = it_view it \<and> isValid it' \<and> bytesLeft it' < bytesLeft it
              | _ \<Rightarrow> True)"

lemma advances_map [simp]: "advances it (map_outcome_val f r) = advances it r"
  by (cases r) (simp_all add: advances_def)

lemma varint_loop_advances: "advances it (varint_loop p it v k)"
proof (induction p it v k rule: varint_loop.induct)
  case (1 p it v k)
  show ?case
  proof (cases "bytesLeft it = 0 \<or> 64 \<le> k")
    case True
    then show ?thesis by (subst varint_loop.simps) (auto simp: advances_def)
  next
    case False
    then have left: "bytesLeft it \<noteq> 0" and k: "\<not> 64 \<le> k" by auto
    from left have inc: "isValid (it_inc it)" "bytesLeft (it_inc it) < bytesLeft it"
      by (simp_all add: isValid_inc bytesLeft_inc)
    show ?thesis
    proof (cases "it_deref p it AND 128 = 0")
      case True
      with left k inc show ?thesis
        by (subst varint_loop.simps) (simp add: advances_def)
    next
      case False
      from "1.IH" [OF left k refl refl refl False] inc
      have "advances it (varint_loop p (it_inc it)
              (v + push_bit k (ucast (it_deref p it AND 127))) (k + 7))"
        by (fastforce simp: advances_def split: outcome.splits)
      with left k False show ?thesis
        by (subst varint_loop.simps) (simp add: Let_def)
    qed
  qed
qed

lemma deserializeVarintCommon_advances [simp]: "advances it (deserializeVarintCommon p it)"
  by (simp add: deserializeVarintCommon_def varint_loop_advances)

lemma deserializeFixed_advances [simp]: "0 < n \<Longrightarrow> advances it (deserializeFixed p n it)"
  by (cases "isValid it")
     (auto simp: deserializeFixed_def advances_def bytesLeft_add isValid_add not_less bytesLeft_def [of it])

lemma deserializeLengthDelimited_advances [simp]: "advances it (deserializeLengthDelimited p it)"
  using deserializeVarintCommon_advances [of it p, where ?'a = 64]
  by (auto simp: deserializeLengthDelimited_def advances_def isValid_add bytesLeft_add
      intro: le_less_trans [rotated] split: outcome.splits)

lemma deserializeBasic_advances: "advances it (deserializeBasic p t it)"
  by (cases t) simp_all

text \<open>
  The loop of \<open>deserializeList\<close>: it runs until the iterator stands exactly at the end of the
  packed data, so an element that crosses the end is followed to the end of the view.
\<close>

function packed_loop ::
  "platform \<Rightarrow> scalar_type \<Rightarrow> selfcheck_it \<Rightarrow> selfcheck_it \<Rightarrow> scalar list \<Rightarrow> scalar list outcome" where
  "packed_loop p t it lastVarint out =
     (if it_eq it lastVarint then Got out it
      else (case deserializeBasic p t it of
              Got v it' \<Rightarrow> packed_loop p t it' lastVarint (out @ [v])
            | Nullopt it' \<Rightarrow> Nullopt it'
            | Undefined \<Rightarrow> Undefined))"
  by pat_completeness auto
termination
proof (relation "measure (\<lambda>(p, t, it, l, out). nat (bytesLeft it))")
  show "wf (measure (\<lambda>(p, t, it, l, out). nat (bytesLeft it)))" by simp
next
  fix p t it l out v it'
  assume "deserializeBasic p t it = Got v it'"
  with deserializeBasic_advances [of it p t] have "bytesLeft it' < bytesLeft it"
    by (simp add: advances_def)
  then show "((p, t, it', l, out @ [v]), p, t, it, l, out)
      \<in> measure (\<lambda>(p, t, it, l, out). nat (bytesLeft it))"
    by (simp add: le_less_trans [OF bytesLeft_nonneg])
qed

declare packed_loop.simps [simp del]

definition deserializeList ::
  "platform \<Rightarrow> scalar_type \<Rightarrow> selfcheck_it \<Rightarrow> scalar list outcome" where
  "deserializeList p t it =
     (case (deserializeVarintCommon p it :: 64 word outcome) of
        Nullopt it' \<Rightarrow> Nullopt it'
      | Undefined \<Rightarrow> Undefined
      | Got count it' \<Rightarrow>
          if uint count > 2 ^ 63 - 1 then Nullopt it'
          else let lastVarint = it_add it' (uint count)
               in if \<not> isValid lastVarint then Nullopt it'
                  else packed_loop p t it' lastVarint [])"

text \<open>One more element of a non-packed list is appended to the previous value.\<close>

definition deserializeNonPackedList ::
  "platform \<Rightarrow> scalar_type \<Rightarrow> selfcheck_it \<Rightarrow> scalar list \<Rightarrow> scalar list outcome" where
  "deserializeNonPackedList p t it previousValue =
     map_outcome_val (\<lambda>v. previousValue @ [v]) (deserializeBasic p t it)"

lemma packed_loop_Got:
  "packed_loop p t it l out = Got vs it' \<Longrightarrow>
   it_pos it' = it_pos l \<and> it_view it' = it_view it \<and> bytesLeft it' \<le> bytesLeft it"
proof (induction p t it l out rule: packed_loop.induct)
  case (1 p t it l out)
  show ?case
  proof (cases "it_eq it l")
    case True
    with 1(2) show ?thesis by (simp add: packed_loop.simps [of p t it l out] it_eq_def)
  next
    case False
    with 1(2) obtain v it1 where b: "deserializeBasic p t it = Got v it1"
      and r: "packed_loop p t it1 l (out @ [v]) = Got vs it'"
      by (auto simp: packed_loop.simps [of p t it l out] split: outcome.splits)
    from 1(1) [OF False b r] deserializeBasic_advances [of it p t] b show ?thesis
      by (simp add: advances_def)
  qed
qed

lemma deserializeList_advances: "advances it (deserializeList p t it)"
proof (cases "deserializeList p t it")
  case (Got vs it')
  then obtain count it1 where c: "(deserializeVarintCommon p it :: 64 word outcome) = Got count it1"
    and valid: "isValid (it_add it1 (uint count))"
    and r: "packed_loop p t it1 (it_add it1 (uint count)) [] = Got vs it'"
    by (auto simp: deserializeList_def Let_def split: outcome.splits if_splits)
  from c deserializeVarintCommon_advances [of it p, where ?'a = 64]
  have a: "it_view it1 = it_view it" "isValid it1" "bytesLeft it1 < bytesLeft it"
    by (simp_all add: advances_def)
  from packed_loop_Got [OF r] have pos: "it_pos it' = it_pos (it_add it1 (uint count))"
    and view: "it_view it' = it_view it1" and left: "bytesLeft it' \<le> bytesLeft it1" by auto
  from valid pos view have "isValid it'"
    by (simp add: isValid_def container_end_def)
  with a view left Got show ?thesis by (simp add: advances_def)
qed (simp_all add: advances_def)

lemma deserializeNonPackedList_advances: "advances it (deserializeNonPackedList p t it prev)"
  by (simp add: deserializeNonPackedList_def deserializeBasic_advances)

end
