(* ===== verification/ScalarRoundtrip.thy ===== *)
theory ScalarRoundtrip
  imports ScalarSerializers
begin

text \<open>
  Properties of the scalar codecs: what a serializer writes, the deserializer of the same type
  reads back, whatever bytes follow; a packed list is read back as a whole; the exact inputs on
  which the varint reader reaches undefined behaviour; the number of bytes of a varint.
\<close>

subsection \<open>Seven-bit groups\<close>

lemma bit_127: "bit (127 :: int) n \<longleftrightarrow> n < 7"
  using bit_mask_iff [where ?'a = int, of 7 n] by (simp add: mask_eq_exp_minus_1)
lemma bit_128: "bit (128 :: int) n \<longleftrightarrow> n = 7"
  using bit_exp_iff [where ?'a = int, of 7 n] by auto
lemma bit_m129: "bit (- 129 :: int) n \<longleftrightarrow> n \<noteq> 7"
  using bit_not_int_iff [of 128 n] by (simp add: not_int_def bit_128)
lemmas group_bits = bit_127 bit_128 bit_m129 bit_and_iff bit_or_iff bit_unsigned_iff possible_bit_def

lemma group_payload: "ucast ((ucast ((v AND 127) OR 128) :: byte) AND 127) = (v :: 64 word) AND 127"
  by (rule bit_word_eqI) (auto simp: group_bits)
lemma group_continues: "(ucast (((v :: 64 word) AND 127) OR 128) :: byte) AND 128 \<noteq> 0"
proof -
  have "bit ((ucast (((v :: 64 word) AND 127) OR 128) :: byte) AND 128) 7"
    by (simp add: group_bits)
  then show ?thesis by fastforce
qed
lemma group_last: "(ucast (((v :: 64 word) AND 127) OR 128) :: byte) AND NOT 128 = ucast (v AND 127)"
  by (rule bit_word_eqI) (auto simp: group_bits)
lemma small_and: "unat v < 128 \<Longrightarrow> (v :: 64 word) AND 127 = v"
  by (simp add: word_unat_eq_iff unat_and_127)
lemma small_group:
  assumes "unat (v :: 64 word) < 128"
  shows "(ucast v :: byte) AND 128 = 0" and "ucast ((ucast v :: byte) AND 127) = v"
    and "(ucast v :: byte) AND 127 = ucast v" and "ucast (ucast v :: byte) = v"
proof -
  have "ucast (v AND 127) AND (128 :: byte) = 0"
    by (rule bit_word_eqI) (auto simp: group_bits)
  with small_and [OF assms] show "(ucast v :: byte) AND 128 = 0" by simp
  have "ucast ((ucast (v AND 127) :: byte) AND 127) = v AND 127"
    by (rule bit_word_eqI) (auto simp: group_bits)
  with small_and [OF assms] show "ucast ((ucast v :: byte) AND 127) = v" by simp
  have "(ucast (v AND 127) :: byte) AND 127 = ucast (v AND 127)"
    by (rule bit_word_eqI) (auto simp: group_bits)
  with small_and [OF assms] show "(ucast v :: byte) AND 127 = ucast v" by simp
  have "ucast (ucast (v AND 127) :: byte) = v AND 127"
    by (rule bit_word_eqI) (auto simp: group_bits)
  with small_and [OF assms] show "ucast (ucast v :: byte) = v" by simp
qed
lemma word_eq_of_unat: "unat (v :: 'a::len word) = n \<Longrightarrow> v = of_nat n"
  by auto
lemma split7: "(v :: 64 word) = (v AND 127) + 128 * drop_bit 7 v"
proof -
  have "unat v = unat v mod 128 + 128 * (unat v div 128)" by simp
  then have "v = of_nat (unat v mod 128 + 128 * (unat v div 128))" by (rule word_eq_of_unat)
  also have "\<dots> = of_nat (unat (v AND 127)) + 128 * of_nat (unat (drop_bit 7 v))"
    by (simp only: unat_and_127 unat_drop_bit_word of_nat_add of_nat_mult of_nat_numeral) simp
  finally show ?thesis by simp
qed

lemma serialize_step:
  "serializeVarintCommonImpl v =
     (if unat v < 128 then [ucast v]
      else ucast ((v AND 127) OR 128) # serializeVarintCommonImpl (drop_bit 7 v))"
proof (cases "unat v < 128")
  case True
  then have d: "drop_bit 7 v = 0" by (simp add: word_unat_eq_iff unat_drop_bit_word)
  show ?thesis
  proof (cases "v = 0")
    case True then show ?thesis by (simp add: serializeVarintCommonImpl_def)
  next
    case False
    with d True have "varint_groups v = [ucast ((v AND 127) OR 128)]"
      by (simp add: varint_groups.simps [of v] varint_groups.simps [of 0])
    with False True small_and [OF True] group_last [of v] show ?thesis
      by (simp add: serializeVarintCommonImpl_def)
  qed
next
  case False
  then have v: "v \<noteq> 0" and d: "drop_bit 7 v \<noteq> 0"
    by (auto simp: word_unat_eq_iff unat_drop_bit_word)
  then have "varint_groups (drop_bit 7 v) \<noteq> []"
    by (simp add: varint_groups.simps [of "drop_bit 7 v"])
  with v d False show ?thesis
    by (simp add: serializeVarintCommonImpl_def varint_groups.simps [of v] Let_def)
qed

lemma varint_loop_serialized:
  "unat v * 2 ^ k < 2 ^ 64 \<Longrightarrow> k < 64 \<Longrightarrow>
   varint_loop p (at_bytes pre (serializeVarintCommonImpl v) post) acc k =
     Got (acc + push_bit k v) (at_bytes (pre @ serializeVarintCommonImpl v) [] post)"
proof (induction v arbitrary: pre acc k rule: varint_groups.induct)
  case (1 v)
  show ?case
  proof (cases "unat v < 128")
    case True
    with \<open>k < 64\<close> show ?thesis
      by (simp add: serialize_step [of v] varint_loop.simps small_group Let_def it_inc_at_bytes)
  next
    case False
    then have v: "v \<noteq> 0" by auto
    let ?d = "drop_bit 7 v"
    have "128 * 2 ^ k \<le> unat v * 2 ^ k" using False by simp
    then have "2 ^ (k + 7) \<le> unat v * 2 ^ k" by (simp add: power_add)
    with 1(2) have "2 ^ (k + 7) < (2::nat) ^ 64" by (rule le_less_trans [rotated])
    then have k: "k + 7 < 64" by (rule power_less_imp_less_exp [rotated]) simp
    have "unat ?d * 2 ^ (k + 7) = (unat v div 128 * 128) * 2 ^ k"
      by (simp add: unat_drop_bit_word power_add)
    also have "\<dots> \<le> unat v * 2 ^ k" by simp
    finally have d: "unat ?d * 2 ^ (k + 7) < 2 ^ 64" using 1(2) by (rule le_less_trans)
    have acc: "acc + push_bit k (v AND 127) + push_bit (k + 7) ?d = acc + push_bit k v"
    proof -
      have "push_bit k v = push_bit k ((v AND 127) + 128 * ?d)" using split7 [of v] by simp
      then show ?thesis by (simp add: push_bit_eq_mult power_add algebra_simps)
    qed
    show ?thesis
      using False 1(3) 1(1) [OF v d k, of "pre @ [ucast ((v AND 127) OR 128)]" "acc + push_bit k (v AND 127)"] acc
      by (simp add: serialize_step [of v] varint_loop.simps [of _ "at_bytes pre (_ # _) post"]
          group_continues group_payload it_inc_at_bytes)
  qed
qed

lemma deserializeVarint_serialized:
  "deserializeVarintCommon p (at_bytes pre (serializeVarintCommonImpl v) post) =
     Got (ucast v :: 'a::len word) (at_bytes (pre @ serializeVarintCommonImpl v) [] post)"
proof -
  have "unat v < 2 ^ LENGTH(64)" by (rule unsigned_less)
  then show ?thesis using varint_loop_serialized [of v 0 p pre post 0]
    by (simp add: deserializeVarintCommon_def)
qed

lemma serializeVarint_nonempty: "serializeVarintCommonImpl v \<noteq> []"
  by (simp add: serialize_step)

lemma length_sum_nonzero:
  assumes "xs \<noteq> []"
  shows "int (length xs) + int m \<noteq> 0" and "int (length xs) + int m + int k \<noteq> 0"
proof -
  have "0 < int (length xs)" using assms by simp
  then show "int (length xs) + int m \<noteq> 0" and "int (length xs) + int m + int k \<noteq> 0" by linarith+
qed

lemma serializeVarint_length: "0 < length (serializeVarintCommonImpl v)"
  using serializeVarint_nonempty by simp

lemma varint_common_roundtrip:
  assumes "LENGTH('a::len) \<le> 64"
  shows "deserializeVarintCommon p (at_bytes pre (serializeVarintCommon (v :: 'a word)) post) =
     Got v (at_bytes (pre @ serializeVarintCommon v) [] post)"
proof -
  have "ucast (ucast v :: 64 word) = v"
    by (rule bit_word_eqI) (use assms in \<open>auto simp: bit_unsigned_iff possible_bit_def\<close>)
  then show ?thesis by (simp add: serializeVarintCommon_def deserializeVarint_serialized)
qed

text \<open>Little-endian bytes.\<close>

lemma le_bytes_Suc: "le_bytes (Suc n) v = ucast v # le_bytes n (drop_bit 8 v)"
  by (simp add: le_bytes_def map_upt_Suc algebra_simps del: upt_Suc)

lemma of_le_bytes_Cons: "of_le_bytes (b # bs) = ucast b OR push_bit 8 (of_le_bytes bs)"
  by (simp add: of_le_bytes_def)

lemma of_le_le_bytes:
  "of_le_bytes (le_bytes n (v :: 'a::len word)) = take_bit (8 * n) v"
proof (induction n arbitrary: v)
  case 0
  then show ?case by (simp add: le_bytes_def of_le_bytes_def)
next
  case (Suc n)
  show ?case
    unfolding le_bytes_Suc of_le_bytes_Cons Suc
    by (rule bit_word_eqI) (auto simp: bit_simps possible_bit_def)
qed

lemma length_le_bytes [simp]: "length (le_bytes n v) = n"
  by (simp add: le_bytes_def)

lemma fixed_roundtrip:
  assumes "8 * n = LENGTH('a::len)"
  shows "deserializeFixed p n (at_bytes pre (le_bytes n (v :: 'a word)) post) =
     Got v (at_bytes (pre @ le_bytes n v) [] post)"
  using it_read_at_bytes [of p pre "le_bytes n v" "[]" post]
    it_add_at_bytes [of pre "le_bytes n v" "[]" post] assms
  by (simp add: deserializeFixed_def of_le_le_bytes)

text \<open>ZigZag.\<close>

lemma signed_drop_bit_sign:
  assumes "n + 1 = LENGTH('a::len)"
  shows "signed_drop_bit n (v :: 'a word) = (if bit v n then -1 else 0)"
proof -
  have len: "LENGTH('a) = Suc n" using assms by simp
  show ?thesis
    by (rule bit_word_eqI)
       (auto simp: bit_signed_drop_bit_iff bit_minus_1_iff possible_bit_def len Suc_diff_le not_le)
qed

lemma zigzag_cancel:
  fixes v sh :: "'a::len word"
  assumes sh: "\<And>n. bit sh n = (n < LENGTH('a) \<and> 0 < n \<and> bit v (n - 1))"
    and len: "m + 1 = LENGTH('a)"
  shows "zigzag_decode (sh XOR (if bit v m then -1 else 0)) = v"
proof (cases "bit v m")
  case True
  have one: "NOT sh AND 1 = 1"
    by (rule bit_word_eqI) (auto simp: bit_and_iff bit_not_iff sh bit_1_iff possible_bit_def)
  have "drop_bit 1 (NOT sh) XOR - 1 = v"
  proof (rule bit_word_eqI)
    fix n assume n: "n < LENGTH('a)"
    show "bit (drop_bit 1 (NOT sh) XOR - 1) n = bit v n"
    proof (cases "Suc n < LENGTH('a)")
      case True
      with n show ?thesis
        by (simp add: bit_xor_iff bit_drop_bit_eq bit_not_iff sh bit_minus_1_iff possible_bit_def)
    next
      case False
      with n len have "n = m" by linarith
      with n len \<open>bit v m\<close> show ?thesis
        by (simp add: bit_xor_iff bit_drop_bit_eq bit_not_iff sh bit_minus_1_iff possible_bit_def)
    qed
  qed
  with True one show ?thesis by (simp add: zigzag_decode_def)
next
  case False
  have zero: "sh AND 1 = 0"
    by (rule bit_word_eqI) (auto simp: bit_and_iff sh bit_1_iff possible_bit_def)
  have "drop_bit 1 sh = v"
  proof (rule bit_word_eqI)
    fix n assume n: "n < LENGTH('a)"
    show "bit (drop_bit 1 sh) n = bit v n"
    proof (cases "Suc n < LENGTH('a)")
      case True then show ?thesis by (simp add: bit_drop_bit_eq sh)
    next
      case False
      with n len have "n = m" by linarith
      with n len \<open>\<not> bit v m\<close> show ?thesis by (simp add: bit_drop_bit_eq sh)
    qed
  qed
  with False zero show ?thesis by (simp add: zigzag_decode_def)
qed

lemma bit_push_bit_1:
  "bit (push_bit 1 (v :: 'a::len word)) n = (n < LENGTH('a) \<and> 0 < n \<and> bit v (n - 1))"
  unfolding bit_push_bit_iff by (auto simp: possible_bit_def)

lemma zigzag32: "zigzag_decode (push_bit 1 (v :: 32 word) XOR signed_drop_bit 31 v) = v"
  using zigzag_cancel [OF bit_push_bit_1, where m = 31 and v = v] signed_drop_bit_sign [of 31 v] by simp

lemma zigzag64: "zigzag_decode (push_bit 1 (v :: 64 word) XOR signed_drop_bit 63 v) = v"
  using zigzag_cancel [OF bit_push_bit_1, where m = 63 and v = v] signed_drop_bit_sign [of 63 v] by simp

lemma zigzag_roundtrip:
  "map_outcome_val zigzag_decode (deserializeVarintCommon p (at_bytes pre (serializeZigZag32 v) post)) =
     Got v (at_bytes (pre @ serializeZigZag32 v) [] post)"
  "map_outcome_val zigzag_decode (deserializeVarintCommon p (at_bytes pre (serializeZigZag64 w) post)) =
     Got w (at_bytes (pre @ serializeZigZag64 w) [] post)"
proof -
  show "map_outcome_val zigzag_decode (deserializeVarintCommon p (at_bytes pre (serializeZigZag32 v) post)) =
     Got v (at_bytes (pre @ serializeZigZag32 v) [] post)"
    unfolding serializeZigZag32_def
    by (subst varint_common_roundtrip, simp, simp only: map_outcome_val.simps zigzag32)
  show "map_outcome_val zigzag_decode (deserializeVarintCommon p (at_bytes pre (serializeZigZag64 w) post)) =
     Got w (at_bytes (pre @ serializeZigZag64 w) [] post)"
    unfolding serializeZigZag64_def
    by (subst varint_common_roundtrip, simp, simp only: map_outcome_val.simps zigzag64)
qed

text \<open>Length-delimited data.\<close>

lemma length_delimited_roundtrip:
  assumes "length data \<le> maxByteArray p" and "length data < 2 ^ 64"
  shows "deserializeLengthDelimited p (at_bytes pre (prependLengthDelimitedSize data) post) =
     Got data (at_bytes (pre @ prependLengthDelimitedSize data) [] post)"
proof -
  let ?n = "of_nat (length data) :: 64 word"
  let ?hdr = "serializeVarintCommonImpl ?n"
  have n: "unat ?n = length data"
    using assms(2) by (simp add: unsigned_of_nat take_bit_nat_eq_self)
  then have u: "uint ?n = int (length data)" by (metis uint_nat)
  have "at_bytes pre (?hdr @ data) post = at_bytes pre ?hdr (data @ post)"
    by (simp add: at_bytes_shift)
  then have "(deserializeVarintCommon p (at_bytes pre (?hdr @ data) post) :: 64 word outcome) =
      Got ?n (at_bytes (pre @ ?hdr) data post)"
    using deserializeVarint_serialized [of p pre ?n "data @ post", where ?'a = 64]
    by (simp add: at_bytes_shift [of _ "[]"])
  then show ?thesis
    using assms(1) it_read_at_bytes [of p "pre @ ?hdr" data "[]" post]
      it_add_at_bytes [of "pre @ ?hdr" data "[]" post] serializeVarint_length [of ?n]
    by (simp add: deserializeLengthDelimited_def prependLengthDelimitedSize_def n u length_sum_nonzero)
qed

text \<open>
  A scalar value that the wire can carry: its length fits and, for a string, the UTF-8 conversion
  of the platform loses nothing.
\<close>

fun scalar_ok :: "platform \<Rightarrow> scalar \<Rightarrow> bool" where
  "scalar_ok p (V_QString s) \<longleftrightarrow>
     fromUtf8 p (toUtf8 p s) = s \<and> length (toUtf8 p s) \<le> maxByteArray p \<and> length (toUtf8 p s) < 2 ^ 64"
| "scalar_ok p (V_QByteArray bs) \<longleftrightarrow> length bs \<le> maxByteArray p \<and> length bs < 2 ^ 64"
| "scalar_ok p _ \<longleftrightarrow> True"

lemma ucast_scast_32: "ucast (scast (v :: 32 word) :: 64 word) = v"
  by (rule bit_word_eqI) (auto simp: bit_unsigned_iff bit_signed_iff possible_bit_def)

lemma basic_roundtrip:
  "scalar_ok p v \<Longrightarrow>
   deserializeBasic p (scalar_type_of v) (at_bytes pre (serializeBasic p v) post) =
     Got v (at_bytes (pre @ serializeBasic p v) [] post)"
proof (cases v)
  case (V_sint32 w)
  then show ?thesis
    using zigzag_roundtrip(1) [of p pre w post]
    by (cases "deserializeVarintCommon p (at_bytes pre (serializeZigZag32 w) post) :: 32 word outcome") auto
next
  case (V_sint64 w)
  then show ?thesis
    using zigzag_roundtrip(2) [of p pre w post]
    by (cases "deserializeVarintCommon p (at_bytes pre (serializeZigZag64 w) post) :: 64 word outcome") auto
qed (simp_all add: fixed_roundtrip varint_common_roundtrip length_delimited_roundtrip ucast_scast_32)


text \<open>Packed lists.\<close>

lemma packed_loop_serialized:
  "\<forall>v \<in> set vs. scalar_type_of v = t \<and> scalar_ok p v \<Longrightarrow>
   it_pos l = int (length pre + length (concat (map (serializeBasic p) vs))) \<Longrightarrow>
   packed_loop p t (at_bytes pre (concat (map (serializeBasic p) vs)) post) l out =
     Got (out @ vs) (at_bytes (pre @ concat (map (serializeBasic p) vs)) [] post)"
proof (induction vs arbitrary: pre out)
  case Nil
  then show ?case by (simp add: packed_loop.simps it_eq_def at_bytes_def)
next
  case (Cons v vs)
  let ?b = "serializeBasic p v" and ?bs = "concat (map (serializeBasic p) vs)"
  have rt: "deserializeBasic p t (at_bytes pre (?b @ ?bs) post) = Got v (at_bytes (pre @ ?b) ?bs post)"
    using basic_roundtrip [of p v pre "?bs @ post"] Cons.prems(1)
    by (simp add: at_bytes_shift [of _ "[]"] at_bytes_shift)
  then have "bytesLeft (at_bytes (pre @ ?b) ?bs post) < bytesLeft (at_bytes pre (?b @ ?bs) post)"
    using deserializeBasic_advances [of "at_bytes pre (?b @ ?bs) post" p t] by (simp add: advances_def)
  then have "0 < length ?b" by (cases ?b) auto
  then have "\<not> it_eq (at_bytes pre (?b @ ?bs) post) l"
    using Cons.prems(2) by (simp add: it_eq_def at_bytes_def length_sum_nonzero)
  with rt Cons.IH [of "pre @ ?b" "out @ [v]"] Cons.prems show ?case
    by (simp add: packed_loop.simps [of p t "at_bytes pre (?b @ ?bs) post"] add.assoc)
qed

lemma list_roundtrip:
  assumes "vs \<noteq> []" and "\<forall>v \<in> set vs. scalar_type_of v = t \<and> scalar_ok p v"
    and len: "length (concat (map (serializeBasic p) vs)) < 2 ^ 63"
  shows "deserializeList p t (at_bytes pre (serializeListType p vs) post) =
     Got vs (at_bytes (pre @ serializeListType p vs) [] post)"
proof -
  let ?body = "concat (map (serializeBasic p) vs)"
  let ?n = "of_nat (length ?body) :: 64 word"
  let ?hdr = "serializeVarintCommonImpl ?n"
  have n: "unat ?n = length ?body"
    using len by (simp add: unsigned_of_nat take_bit_nat_eq_self)
  then have u: "uint ?n = int (length ?body)" by (metis uint_nat)
  have "(deserializeVarintCommon p (at_bytes pre (?hdr @ ?body) post) :: 64 word outcome) =
      Got ?n (at_bytes (pre @ ?hdr) ?body post)"
    using deserializeVarint_serialized [of p pre ?n "?body @ post", where ?'a = 64]
    by (simp add: at_bytes_shift [of _ "[]"] at_bytes_shift)
  moreover have "it_add (at_bytes (pre @ ?hdr) ?body post) (uint ?n) = at_bytes (pre @ ?hdr @ ?body) [] post"
    using it_add_at_bytes [of "pre @ ?hdr" ?body "[]" post] by (simp add: u)
  moreover have "packed_loop p t (at_bytes (pre @ ?hdr) ?body post)
      (at_bytes (pre @ ?hdr @ ?body) [] post) [] = Got vs (at_bytes (pre @ ?hdr @ ?body) [] post)"
    using packed_loop_serialized [OF assms(2), of "at_bytes (pre @ ?hdr @ ?body) [] post" "pre @ ?hdr" post "[]"]
    by (simp add: at_bytes_def)
  ultimately show ?thesis
    using assms(1) len
    by (simp add: deserializeList_def serializeListType_def prependLengthDelimitedSize_def Let_def u)
qed

subsection \<open>Length of a varint, and the inputs that are not defined\<close>

lemma serializeVarint_length_le:
  "0 < n \<Longrightarrow> length (serializeVarintCommonImpl v) \<le> n \<longleftrightarrow> unat v < 2 ^ (7 * n)"
proof (induction v arbitrary: n rule: varint_groups.induct)
  case (1 v)
  show ?case
  proof (cases "unat v < 128")
    case True
    have "2 ^ 7 \<le> (2::nat) ^ (7 * n)" using 1(2) by (intro power_increasing) simp_all
    with True 1(2) show ?thesis by (simp add: serialize_step [of v])
  next
    case False
    then have v: "v \<noteq> 0" by auto
    show ?thesis
    proof (cases "n = 1")
      case True
      with False show ?thesis
        using serializeVarint_nonempty [of "drop_bit 7 v"] by (simp add: serialize_step [of v])
    next
      case n: False
      with 1(2) obtain m where m: "n = Suc m" "0 < m" by (cases n) auto
      have "length (serializeVarintCommonImpl v) \<le> n \<longleftrightarrow> unat v div 128 < 2 ^ (7 * m)"
        using 1(1) [OF v m(2)] False m(1) by (simp add: serialize_step [of v] unat_drop_bit_word)
      also have "\<dots> \<longleftrightarrow> unat v < 2 ^ (7 * n)"
        by (simp add: m(1) power_add div_less_iff_less_mult mult.commute)
      finally show ?thesis .
    qed
  qed
qed

lemma varint_loop_undefined:
  "j \<le> 10 \<Longrightarrow>
   varint_loop p (at_bytes pre bs []) acc (7 * j) = Undefined \<longleftrightarrow>
     10 - j < length bs \<and> (\<forall>i < 10 - j. bs ! i AND 128 \<noteq> 0)"
proof (induction bs arbitrary: pre acc j)
  case Nil
  then show ?case by (simp add: varint_loop.simps)
next
  case (Cons b bs)
  show ?case
  proof (cases "j = 10")
    case True
    then show ?thesis
      using length_sum_nonzero(1) [of "b # bs" 0] by (simp add: varint_loop.simps)
  next
    case False
    with Cons.prems have j: "Suc j \<le> 10" "7 * j < 64" "10 - j = Suc (10 - Suc j)" by auto
    show ?thesis
    proof (cases "b AND 128 = 0")
      case True
      with j show ?thesis
        using length_sum_nonzero(1) [of "b # bs" 0]
        by (auto simp: varint_loop.simps [of p "at_bytes pre (b # bs) []"] Let_def)
    next
      case b: False
      have "varint_loop p (at_bytes pre (b # bs) []) acc (7 * j) =
          varint_loop p (at_bytes (pre @ [b]) bs []) (acc + push_bit (7 * j) (ucast (b AND 127))) (7 * Suc j)"
        using j b length_sum_nonzero(1) [of "b # bs" 0]
        by (simp add: varint_loop.simps [of p "at_bytes pre (b # bs) []"] Let_def it_inc_at_bytes add.commute)
      with Cons.IH [OF j(1)] b show ?thesis
        unfolding j(3) by (simp add: All_less_Suc2)
    qed
  qed
qed

subsection \<open>Properties\<close>

text \<open>C4: Every scalar value that the wire can carry is read back unchanged from its serialized
  bytes, whatever bytes follow, and the reader stops exactly behind them.\<close>

theorem scalar_wire_roundtrip:
  assumes "scalar_ok p v"
  shows "deserializeBasic p (scalar_type_of v) (fromView (serializeBasic p v @ rest)) =
    Got v \<lparr>it_view = serializeBasic p v @ rest, it_pos = int (length (serializeBasic p v))\<rparr>"
  unfolding fromView_at_bytes basic_roundtrip [OF assms] by (simp add: at_bytes_def)

theorem scalar_wire_roundtrip_witness:
  "deserializeBasic latin1_platform T_sint32 (fromView (serializeBasic latin1_platform (V_sint32 (- 3)) @ [7])) =
     Got (V_sint32 (- 3)) \<lparr>it_view = serializeBasic latin1_platform (V_sint32 (- 3)) @ [7],
        it_pos = int (length (serializeBasic latin1_platform (V_sint32 (- 3))))\<rparr>"
  using scalar_wire_roundtrip [of latin1_platform "V_sint32 (- 3)" "[7]"] by simp

text \<open>A non-empty list of scalars of one type, written packed, is read back as the same list
  by \<open>deserializeList\<close>, and the reader stops exactly behind the packed data.\<close>

theorem packed_list_roundtrip:
  assumes "vs \<noteq> []" and "\<forall>v \<in> set vs. scalar_type_of v = t \<and> scalar_ok p v"
    and "length (concat (map (serializeBasic p) vs)) < 2 ^ 63"
  shows "deserializeList p t (fromView (serializeListType p vs @ rest)) =
    Got vs \<lparr>it_view = serializeListType p vs @ rest, it_pos = int (length (serializeListType p vs))\<rparr>"
  unfolding fromView_at_bytes list_roundtrip [OF assms] by (simp add: at_bytes_def)

text \<open>C5: The varint reader reaches undefined behaviour (a shift of the 64-bit accumulator by 70
  bits) exactly on inputs of more than ten bytes whose first ten bytes all carry the continuation
  bit; nothing in the code rejects them before.\<close>

theorem varint_undefined_iff:
  "(deserializeVarintCommon p (fromView bs) :: 64 word outcome) = Undefined \<longleftrightarrow>
     10 < length bs \<and> (\<forall>i < 10. bs ! i AND 128 \<noteq> 0)"
proof -
  have "varint_loop p (fromView bs) 0 0 = Undefined \<longleftrightarrow>
      10 < length bs \<and> (\<forall>i < 10. bs ! i AND 128 \<noteq> 0)"
    using varint_loop_undefined [of 0 p "[]" bs 0] fromView_at_bytes [of bs "[]"] by simp
  then show ?thesis
    by (cases "varint_loop p (fromView bs) 0 0") (simp_all add: deserializeVarintCommon_def)
qed

theorem varint_undefined_iff_witness:
  "(deserializeVarintCommon latin1_platform (fromView (replicate 11 255)) :: 64 word outcome) = Undefined"
  unfolding varint_undefined_iff by simp

text \<open>A varint takes at most \<open>n\<close> bytes exactly when the value is below \<open>2 ^ (7 n)\<close>: the
  encoding is minimal, and ten bytes are always enough.\<close>

theorem varint_length_minimal:
  assumes "0 < n"
  shows "length (serializeVarintCommonImpl v) \<le> n \<longleftrightarrow> unat v < 2 ^ (7 * n)"
  using assms by (rule serializeVarint_length_le)

theorem varint_length_minimal_witness:
  "length (serializeVarintCommonImpl 300) \<le> 2 \<and> \<not> length (serializeVarintCommonImpl 300) \<le> 1"
  using varint_length_minimal [of 2 300] varint_length_minimal [of 1 300] by simp

end
