(* ===== verification/PropertyOrdering.thy ===== *)
theory PropertyOrdering
  imports ScalarRoundtrip
begin

text \<open>
  The generated description of a message class (src/src/protobuf/qprotobufpropertyordering.cpp and
  .h): a header of six unsigned integers, followed in memory by tables of unsigned integers and by
  a table of zero-terminated strings. The memory behind the header is a list of bytes, the integers
  little-endian; \<open>QProtobufPropertyOrderingBuilder\<close> writes it, the accessors read it.
\<close>

type_synonym uint32 = "32 word"

record ordering_data =
  od_version :: uint32
  numFields :: uint32
  fieldNumberOffset :: uint32
  propertyIndexOffset :: uint32
  flagsOffset :: uint32
  fullPackageNameSize :: uint32
  od_memory :: "byte list"

subsection \<open>Field flags\<close>

datatype field_flag =
  NoFlags | NonPacked | Oneof | Optional | ExplicitPresence | MessageFlag | EnumFlag | Repeated
| MapFlag | Required

fun flag_value :: "field_flag \<Rightarrow> uint32" where
  "flag_value NoFlags = 0" | "flag_value NonPacked = 0x1" | "flag_value Oneof = 0x2"
| "flag_value Optional = 0x4" | "flag_value ExplicitPresence = 0x8" | "flag_value MessageFlag = 0x10"
| "flag_value EnumFlag = 0x20" | "flag_value Repeated = 0x40" | "flag_value MapFlag = 0x80"
| "flag_value Required = 0x100"

definition flags_of :: "field_flag list \<Rightarrow> uint32" where
  "flags_of fs = foldr (\<lambda>f acc. flag_value f OR acc) fs 0"

text \<open>\<open>QFlags::testFlags\<close> and \<open>testAnyFlags\<close>: all of the given bits, or one of them.\<close>

definition testFlags :: "uint32 \<Rightarrow> field_flag list \<Rightarrow> bool" where
  "testFlags flags fs \<longleftrightarrow>
     (if flags_of fs = 0 then flags = 0 else flags AND flags_of fs = flags_of fs)"

definition testFlag :: "uint32 \<Rightarrow> field_flag \<Rightarrow> bool" where
  "testFlag flags f \<longleftrightarrow> testFlags flags [f]"

definition testAnyFlags :: "uint32 \<Rightarrow> field_flag list \<Rightarrow> bool" where
  "testAnyFlags flags fs \<longleftrightarrow> flags AND flags_of fs \<noteq> 0"

subsection \<open>Accessors\<close>

definition fieldCount :: "ordering_data \<Rightarrow> int" where
  "fieldCount d = sint (numFields d)"

text \<open>The \<open>i\<close>-th unsigned integer behind the header, and the characters behind the tables.\<close>

definition uint_data :: "ordering_data \<Rightarrow> nat \<Rightarrow> uint32" where
  "uint_data d i = of_le_bytes (take 4 (drop (4 * i) (od_memory d)))"

definition char_data :: "ordering_data \<Rightarrow> byte list" where
  "char_data d = drop (4 * unat (flagsOffset d + numFields d)) (od_memory d)"

definition uint_dataForIndex :: "ordering_data \<Rightarrow> int \<Rightarrow> uint32 \<Rightarrow> uint32" where
  "uint_dataForIndex d index offset = uint_data d (unat offset + nat index)"

definition messageFullName :: "ordering_data \<Rightarrow> byte list" where
  "messageFullName d = take (unat (fullPackageNameSize d)) (char_data d)"

definition jsonName :: "ordering_data \<Rightarrow> int \<Rightarrow> byte list" where
  "jsonName d index =
     (if index < 0 \<or> fieldCount d \<le> index then []
      else let stringOffset = uint_dataForIndex d index 0;
               nameLength = uint_dataForIndex d (index + 1) 0 - 1 - stringOffset
           in take (unat nameLength) (drop (unat stringOffset) (char_data d)))"

definition fieldNumber :: "ordering_data \<Rightarrow> int \<Rightarrow> int" where
  "fieldNumber d index =
     (if index < 0 \<or> fieldCount d \<le> index then -1
      else let fieldNumber = uint_dataForIndex d index (fieldNumberOffset d)
           in if 2 ^ 31 - 1 < uint fieldNumber then -1 else uint fieldNumber)"

definition propertyIndex :: "ordering_data \<Rightarrow> int \<Rightarrow> int" where
  "propertyIndex d index =
     (if index < 0 \<or> fieldCount d \<le> index then -1
      else let propertyIndex = uint_dataForIndex d index (propertyIndexOffset d)
           in if 2 ^ 31 - 1 < uint propertyIndex then -1 else uint propertyIndex)"

definition fieldFlags :: "ordering_data \<Rightarrow> int \<Rightarrow> uint32" where
  "fieldFlags d index =
     (if index < 0 \<or> fieldCount d \<le> index then 0
      else uint_dataForIndex d index (flagsOffset d))"

definition indexOfFieldNumber :: "ordering_data \<Rightarrow> int \<Rightarrow> int" where
  "indexOfFieldNumber d number =
     (if 0 < number then
        (case find (\<lambda>i. uint_dataForIndex d (int i) (fieldNumberOffset d) = word_of_int number)
                [0..<nat (fieldCount d)] of
           Some i \<Rightarrow> int i
         | None \<Rightarrow> -1)
      else -1)"

subsection \<open>Builder\<close>

record field_definition =
  fd_jsonName :: "byte list"
  fd_fieldNumber :: uint32
  fd_propertyIndex :: uint32
  fd_flags :: uint32

record ordering_builder =
  ob_fields :: "field_definition list"
  ob_packageName :: "byte list"

definition new_builder :: "byte list \<Rightarrow> ordering_builder" where
  "new_builder packageName = \<lparr>ob_fields = [], ob_packageName = packageName\<rparr>"

definition addV0Field ::
  "byte list \<Rightarrow> uint32 \<Rightarrow> uint32 \<Rightarrow> uint32 \<Rightarrow> ordering_builder \<Rightarrow> ordering_builder" where
  "addV0Field json number prop flags b =
     b\<lparr>ob_fields := ob_fields b @
        [\<lparr>fd_jsonName = json, fd_fieldNumber = number, fd_propertyIndex = prop, fd_flags = flags\<rparr>]\<rparr>"

definition ProtobufFieldNumMin :: nat where "ProtobufFieldNumMin = 1"
definition ProtobufFieldNumMax :: nat where "ProtobufFieldNumMax = 536870911"
definition ProtobufFieldMaxCount :: nat where
  "ProtobufFieldMaxCount = ProtobufFieldNumMax - ProtobufFieldNumMin + 1"

text \<open>
  The loop of \<open>build()\<close>: it writes the four table entries of field \<open>i\<close> and moves the running
  offset of the string table, and gives up at a field number out of range.
\<close>

fun build_loop ::
  "ordering_data \<Rightarrow> field_definition list \<Rightarrow> nat \<Rightarrow> uint32 \<Rightarrow> uint32 list \<Rightarrow> (uint32 list \<times> uint32) option"
  where
  "build_loop d [] i off u = Some (u, off)"
| "build_loop d (f # fs) i off u =
     (if ProtobufFieldNumMax < unat (fd_fieldNumber f) \<or> unat (fd_fieldNumber f) < ProtobufFieldNumMin
      then None
      else build_loop d fs (Suc i) (off + of_nat (length (fd_jsonName f) + 1))
             (u[i := off,
                i + unat (fieldNumberOffset d) := fd_fieldNumber f,
                i + unat (propertyIndexOffset d) := fd_propertyIndex f,
                i + unat (flagsOffset d) := fd_flags f]))"

definition build_header :: "ordering_builder \<Rightarrow> ordering_data" where
  "build_header b =
     (let n = length (ob_fields b)
      in \<lparr>od_version = 0, numFields = of_nat n,
          fieldNumberOffset = of_nat (n * 1 + 1), propertyIndexOffset = of_nat (n * 2 + 1),
          flagsOffset = of_nat (n * 3 + 1),
          fullPackageNameSize = of_nat (length (ob_packageName b)), od_memory = []\<rparr>)"

definition build_chars :: "ordering_builder \<Rightarrow> byte list" where
  "build_chars b =
     ob_packageName b @ [0] @ concat (map (\<lambda>f. fd_jsonName f @ [0]) (ob_fields b)) @ [0]"

definition build :: "ordering_builder \<Rightarrow> ordering_data option" where
  "build b =
     (if ProtobufFieldMaxCount < length (ob_fields b) then None
      else let d = build_header b;
               zeros = replicate (4 * length (ob_fields b) + 1) 0
           in (case build_loop d (ob_fields b) 0 (fullPackageNameSize d + 1) zeros of
                 None \<Rightarrow> None
               | Some (u, off) \<Rightarrow>
                   Some (d\<lparr>od_memory :=
                     concat (map (le_bytes 4) (u[length (ob_fields b) := off])) @ build_chars b\<rparr>)))"

subsection \<open>The ordering registry\<close>

text \<open>
  \<open>ProtobufOrderingRegistry\<close>: a hash from full message names to a meta type (its identifier) and an
  ordering. A lookup by type walks the hash, in an order that the hash chooses (the list of keys).
\<close>

type_synonym meta_type = nat
type_synonym ordering_registry = "qstring \<rightharpoonup> meta_type \<times> ordering_data"

definition registerOrdering ::
  "platform \<Rightarrow> meta_type \<Rightarrow> ordering_data \<Rightarrow> ordering_registry \<Rightarrow> ordering_registry" where
  "registerOrdering p type od reg =
     reg(fromUtf8 p (messageFullName od) \<mapsto> (type, od))"

fun getOrdering :: "meta_type \<Rightarrow> qstring list \<Rightarrow> ordering_registry \<Rightarrow> ordering_data option" where
  "getOrdering type [] reg = None"
| "getOrdering type (k # ks) reg =
     (case reg k of
        Some (t, od) \<Rightarrow> if type = t then Some od else getOrdering type ks reg
      | None \<Rightarrow> getOrdering type ks reg)"

definition findMessageByName ::
  "qstring \<Rightarrow> ordering_registry \<Rightarrow> (meta_type \<times> ordering_data) option" where
  "findMessageByName messageName reg = reg messageName"

definition constructMessageByName :: "qstring \<Rightarrow> ordering_registry \<Rightarrow> meta_type option" where
  "constructMessageByName messageType reg = map_option fst (findMessageByName messageType reg)"

subsection \<open>What the loop writes\<close>

text \<open>Offset of the \<open>j\<close>-th name in the string table, and the invariant of the loop.\<close>

fun name_offset :: "uint32 \<Rightarrow> field_definition list \<Rightarrow> nat \<Rightarrow> uint32" where
  "name_offset off fs 0 = off"
| "name_offset off [] (Suc j) = off"
| "name_offset off (f # fs) (Suc j) = name_offset (off + of_nat (length (fd_jsonName f) + 1)) fs j"

lemma build_loop_spec:
  assumes "build_loop d fs i off u = Some (u', off')"
    and "unat (fieldNumberOffset d) = n + 1" and "unat (propertyIndexOffset d) = 2 * n + 1"
    and "unat (flagsOffset d) = 3 * n + 1" and "i + length fs = n" and "length u = 4 * n + 1"
  shows "length u' = 4 * n + 1 \<and> off' = name_offset off fs (length fs) \<and>
    (\<forall>m < i. u' ! m = u ! m \<and> u' ! (m + (n + 1)) = u ! (m + (n + 1)) \<and>
       u' ! (m + (2 * n + 1)) = u ! (m + (2 * n + 1)) \<and> u' ! (m + (3 * n + 1)) = u ! (m + (3 * n + 1))) \<and>
    (\<forall>j < length fs. u' ! (i + j) = name_offset off fs j \<and>
       u' ! (i + j + (n + 1)) = fd_fieldNumber (fs ! j) \<and>
       u' ! (i + j + (2 * n + 1)) = fd_propertyIndex (fs ! j) \<and>
       u' ! (i + j + (3 * n + 1)) = fd_flags (fs ! j))"
  using assms
proof (induction fs arbitrary: i off u)
  case Nil
  then show ?case by simp
next
  case (Cons f fs)
  define u1 where "u1 = u[i := off, i + unat (fieldNumberOffset d) := fd_fieldNumber f,
      i + unat (propertyIndexOffset d) := fd_propertyIndex f, i + unat (flagsOffset d) := fd_flags f]"
  let ?off = "off + of_nat (length (fd_jsonName f) + 1)"
  have step: "build_loop d fs (Suc i) ?off u1 = Some (u', off')"
    using Cons.prems(1) by (simp add: u1_def split: if_splits)
  have len: "length u1 = 4 * n + 1" using Cons.prems by (simp add: u1_def)
  have i: "Suc i + length fs = n" using Cons.prems by simp
  note IH = Cons.IH [OF step Cons.prems(2-4) i len]
  have at_i: "u1 ! i = off" "u1 ! (i + (n + 1)) = fd_fieldNumber f"
    "u1 ! (i + (2 * n + 1)) = fd_propertyIndex f" "u1 ! (i + (3 * n + 1)) = fd_flags f"
    using Cons.prems i by (simp_all add: u1_def nth_list_update)
  have below: "u1 ! m = u ! m \<and> u1 ! (m + (n + 1)) = u ! (m + (n + 1)) \<and>
      u1 ! (m + (2 * n + 1)) = u ! (m + (2 * n + 1)) \<and> u1 ! (m + (3 * n + 1)) = u ! (m + (3 * n + 1))"
    if "m < i" for m
    using that Cons.prems i by (simp add: u1_def nth_list_update)
  have all: "u' ! (i + j) = name_offset off (f # fs) j \<and>
       u' ! (i + j + (n + 1)) = fd_fieldNumber ((f # fs) ! j) \<and>
       u' ! (i + j + (2 * n + 1)) = fd_propertyIndex ((f # fs) ! j) \<and>
       u' ! (i + j + (3 * n + 1)) = fd_flags ((f # fs) ! j)" if "j < length (f # fs)" for j
  proof (cases j)
    case 0
    with IH at_i show ?thesis by simp
  next
    case (Suc k)
    with that have "k < length fs" by simp
    with IH Suc show ?thesis by (simp add: numeral_eq_Suc)
  qed
  from IH below all show ?case by simp
qed

lemma name_offset_eq:
  "j \<le> length fs \<Longrightarrow>
   name_offset off fs j = off + of_nat (length (concat (map (\<lambda>f. fd_jsonName f @ [0]) (take j fs))))"
  by (induction off fs j rule: name_offset.induct) (simp_all add: algebra_simps)

lemma length_build_loop: "build_loop d fs i off u = Some (u', off') \<Longrightarrow> length u' = length u"
  by (induction fs arbitrary: i off u) (auto split: if_splits)

subsection \<open>Reading the memory behind the header\<close>

lemma take4_chunk:
  "i < length u \<Longrightarrow>
   take 4 (drop (4 * i) (concat (map (le_bytes 4) u) @ cs)) = le_bytes 4 (u ! i)"
proof (induction u arbitrary: i)
  case (Cons w u)
  then show ?case by (cases i) simp_all
qed simp

lemma uint_data_chunk:
  assumes "od_memory d = concat (map (le_bytes 4) u) @ cs" and "i < length u"
  shows "uint_data d i = u ! i"
  unfolding uint_data_def assms(1) take4_chunk [OF assms(2)] by (simp add: of_le_le_bytes take_bit_word_eq_self)

lemma length_chunks: "length (concat (map (le_bytes 4) u)) = 4 * length u"
  by (induction u) simp_all

lemma drop_chunks: "drop (4 * length u) (concat (map (le_bytes 4) u) @ cs) = cs"
  by (simp add: length_chunks)

lemma concat_take_drop:
  assumes "j < length fs"
  shows "take (length (g (fs ! j))) (drop (length (concat (map g (take j fs)))) (concat (map g fs))) = g (fs ! j)"
proof -
  have "fs = take j fs @ fs ! j # drop (Suc j) fs" using assms by (rule id_take_nth_drop)
  then have "concat (map g fs) =
      concat (map g (take j fs)) @ g (fs ! j) @ concat (map g (drop (Suc j) fs))"
    by (metis concat.simps(2) concat_append list.simps(9) map_append)
  then show ?thesis by simp
qed

lemma buildE:
  assumes "build b = Some d"
  obtains u where "length u = 4 * length (ob_fields b) + 1" and "length (ob_fields b) \<le> ProtobufFieldMaxCount"
    and "d = (build_header b)\<lparr>od_memory := concat (map (le_bytes 4) u) @ build_chars b\<rparr>"
    and "\<forall>j < length (ob_fields b).
       u ! (j + (length (ob_fields b) + 1)) = fd_fieldNumber (ob_fields b ! j) \<and>
       u ! (j + (2 * length (ob_fields b) + 1)) = fd_propertyIndex (ob_fields b ! j) \<and>
       u ! (j + (3 * length (ob_fields b) + 1)) = fd_flags (ob_fields b ! j)"
    and "\<forall>j \<le> length (ob_fields b).
       u ! j = name_offset (of_nat (length (ob_packageName b)) + 1) (ob_fields b) j"
proof -
  let ?fs = "ob_fields b" and ?h = "build_header b"
  let ?n = "length ?fs"
  from assms have max: "?n \<le> ProtobufFieldMaxCount" by (simp add: build_def split: if_splits)
  then have n: "?n < 2 ^ 29"
    by (simp add: ProtobufFieldMaxCount_def ProtobufFieldNumMax_def ProtobufFieldNumMin_def)
  from assms obtain u off where
    l: "build_loop ?h ?fs 0 (fullPackageNameSize ?h + 1) (replicate (4 * ?n + 1) 0) = Some (u, off)"
    and d: "d = ?h\<lparr>od_memory := concat (map (le_bytes 4) (u[?n := off])) @ build_chars b\<rparr>"
    by (auto simp: build_def Let_def split: if_splits option.splits)
  have "unat (fieldNumberOffset ?h) = ?n + 1" "unat (propertyIndexOffset ?h) = 2 * ?n + 1"
    "unat (flagsOffset ?h) = 3 * ?n + 1"
    using n by (simp_all only: build_header_def Let_def ordering_data.simps unsigned_of_nat)
      (simp_all add: take_bit_nat_eq_self)
  from build_loop_spec [OF l this] have s: "length u = 4 * ?n + 1"
    "off = name_offset (fullPackageNameSize ?h + 1) ?fs ?n"
    "\<forall>j < ?n. u ! j = name_offset (fullPackageNameSize ?h + 1) ?fs j \<and>
       u ! (j + (?n + 1)) = fd_fieldNumber (?fs ! j) \<and>
       u ! (j + (2 * ?n + 1)) = fd_propertyIndex (?fs ! j) \<and>
       u ! (j + (3 * ?n + 1)) = fd_flags (?fs ! j)" by simp_all
  show ?thesis
  proof (rule that [of "u[?n := off]"])
    show "d = ?h\<lparr>od_memory := concat (map (le_bytes 4) (u[?n := off])) @ build_chars b\<rparr>" by (rule d)
    show "\<forall>j \<le> ?n. u[?n := off] ! j = name_offset (of_nat (length (ob_packageName b)) + 1) ?fs j"
      using s by (auto simp: nth_list_update build_header_def Let_def)
  qed (use s max in auto)
qed


lemma build_count:
  assumes "build b = Some d"
  shows "fieldCount d = int (length (ob_fields b))" and "length (ob_fields b) < 2 ^ 29"
proof -
  from assms obtain m where n: "length (ob_fields b) \<le> ProtobufFieldMaxCount"
    and d: "d = (build_header b)\<lparr>od_memory := m\<rparr>" by (rule buildE)
  from n show less: "length (ob_fields b) < 2 ^ 29"
    by (simp add: ProtobufFieldMaxCount_def ProtobufFieldNumMax_def ProtobufFieldNumMin_def)
  from less show "fieldCount d = int (length (ob_fields b))"
    by (simp add: d fieldCount_def build_header_def Let_def signed_of_nat signed_take_bit_int_eq_self)
qed

lemma build_uint_data:
  assumes "build b = Some d" and "j < length (ob_fields b)"
  shows "uint_dataForIndex d (int j) (fieldNumberOffset d) = fd_fieldNumber (ob_fields b ! j)"
    and "uint_dataForIndex d (int j) (propertyIndexOffset d) = fd_propertyIndex (ob_fields b ! j)"
    and "uint_dataForIndex d (int j) (flagsOffset d) = fd_flags (ob_fields b ! j)"
proof -
  let ?n = "length (ob_fields b)"
  from assms(1) obtain u :: "uint32 list" where len: "length u = 4 * ?n + 1"
    and d: "d = (build_header b)\<lparr>od_memory := concat (map (le_bytes 4) u) @ build_chars b\<rparr>"
    and u: "\<forall>j < ?n.
       u ! (j + (?n + 1)) = fd_fieldNumber (ob_fields b ! j) \<and>
       u ! (j + (2 * ?n + 1)) = fd_propertyIndex (ob_fields b ! j) \<and>
       u ! (j + (3 * ?n + 1)) = fd_flags (ob_fields b ! j)" by (rule buildE)
  from build_count(2) [OF assms(1)] have n: "?n < 2 ^ 29" .
  have rd: "uint_data d k = u ! k" if "k < 4 * ?n + 1" for k
    using that len by (intro uint_data_chunk [of _ _ "build_chars b"]) (simp_all add: d)
  have off: "unat (fieldNumberOffset d) = ?n + 1" "unat (propertyIndexOffset d) = 2 * ?n + 1"
    "unat (flagsOffset d) = 3 * ?n + 1"
    using n by (simp_all only: d build_header_def Let_def ordering_data.simps unsigned_of_nat)
      (simp_all add: take_bit_nat_eq_self)
  from assms(2) u off show "uint_dataForIndex d (int j) (fieldNumberOffset d) = fd_fieldNumber (ob_fields b ! j)"
    "uint_dataForIndex d (int j) (propertyIndexOffset d) = fd_propertyIndex (ob_fields b ! j)"
    "uint_dataForIndex d (int j) (flagsOffset d) = fd_flags (ob_fields b ! j)"
    by (simp_all add: uint_dataForIndex_def rd add.commute)
qed

lemma build_chars_data:
  assumes "build b = Some d"
  shows "char_data d = build_chars b"
proof -
  let ?n = "length (ob_fields b)"
  from assms obtain u :: "uint32 list" where len: "length u = 4 * ?n + 1"
    and d: "d = (build_header b)\<lparr>od_memory := concat (map (le_bytes 4) u) @ build_chars b\<rparr>"
    by (rule buildE)
  from build_count(2) [OF assms] have n: "?n < 2 ^ 29" .
  have "flagsOffset d + numFields d = of_nat (4 * ?n + 1)"
    by (simp add: d build_header_def Let_def)
  then have "unat (flagsOffset d + numFields d) = 4 * ?n + 1"
    using n by (simp only: unsigned_of_nat) (simp add: take_bit_nat_eq_self)
  then show ?thesis
    using drop_chunks [of u "build_chars b"] by (simp add: char_data_def d len)
qed

definition char_size :: "ordering_builder \<Rightarrow> nat" where
  "char_size b = length (build_chars b)"

lemma build_names:
  assumes "build b = Some d" and "char_size b < 2 ^ 32" and "j < length (ob_fields b)"
  shows "jsonName d (int j) = fd_jsonName (ob_fields b ! j)"
proof -
  let ?fs = "ob_fields b" and ?g = "\<lambda>f. fd_jsonName f @ [0 :: byte]"
  let ?n = "length ?fs" and ?p = "length (ob_packageName b) + 1"
  let ?o = "\<lambda>k. ?p + length (concat (map ?g (take k ?fs)))"
  from assms(1) obtain u :: "uint32 list" where len: "length u = 4 * ?n + 1"
    and d: "d = (build_header b)\<lparr>od_memory := concat (map (le_bytes 4) u) @ build_chars b\<rparr>"
    and u: "\<forall>j \<le> ?n. u ! j = name_offset (of_nat (length (ob_packageName b)) + 1) ?fs j"
    by (rule buildE)
  have split: "concat (map ?g ?fs) = concat (map ?g (take k ?fs)) @ concat (map ?g (drop k ?fs))" for k
    by (metis append_take_drop_id concat_append map_append)
  have uo: "unat (u ! k) = ?o k" if "k \<le> ?n" for k
  proof -
    have "?o k < 2 ^ 32"
      using assms(2) split [of k] by (simp add: char_size_def build_chars_def)
    moreover have "u ! k = of_nat (?o k)" using u that by (simp add: name_offset_eq)
    ultimately show ?thesis
      by (simp only: unsigned_of_nat) (simp only: take_bit_nat_eq_self len_num1 len_bit0 len_num0 refl, simp add: take_bit_nat_eq_self)
  qed
  have step: "?o (Suc j) = ?o j + length (fd_jsonName (?fs ! j)) + 1"
    using assms(3) by (simp add: take_Suc_conv_app_nth)
  have small: "?o (Suc j) < 2 ^ 32"
    using assms(2) split [of "Suc j"] by (simp add: char_size_def build_chars_def)
  have rd: "uint_data d k = u ! k" if "k < 4 * ?n + 1" for k
    using that len by (intro uint_data_chunk [of _ _ "build_chars b"]) (simp_all add: d)
  have start: "uint_dataForIndex d (int j) 0 = u ! j"
    and stop: "uint_dataForIndex d (int j + 1) 0 = u ! Suc j"
    using assms(3) rd by (simp_all add: uint_dataForIndex_def nat_add_distrib)
  have eq: "u ! Suc j - 1 - u ! j = of_nat (length (fd_jsonName (?fs ! j)))"
    using u assms(3) by (simp add: name_offset_eq take_Suc_conv_app_nth)
  have "unat (u ! Suc j - 1 - u ! j) = length (fd_jsonName (?fs ! j))"
    unfolding eq using step small by (simp add: unsigned_of_nat take_bit_nat_eq_self)
  moreover have "drop (?o j) (build_chars b) = drop (length (concat (map ?g (take j ?fs)))) (concat (map ?g ?fs)) @ [0]"
    using split [of j] by (simp add: build_chars_def)
  moreover have "take (length (fd_jsonName (?fs ! j)))
      (drop (length (concat (map ?g (take j ?fs)))) (concat (map ?g ?fs)) @ [0]) = fd_jsonName (?fs ! j)"
  proof -
    have "drop (length (concat (map ?g (take j ?fs)))) (concat (map ?g ?fs)) = concat (map ?g (drop j ?fs))"
      using split [of j] by simp
    also have "drop j ?fs = ?fs ! j # drop (Suc j) ?fs" using assms(3) by (rule Cons_nth_drop_Suc [symmetric])
    finally show ?thesis by simp
  qed
  ultimately show ?thesis
    using assms(3) uo [of j] build_count(1) [OF assms(1)] build_chars_data [OF assms(1)]
    by (simp add: jsonName_def start stop)
qed

lemma build_full_name:
  assumes "build b = Some d" and "char_size b < 2 ^ 32"
  shows "messageFullName d = ob_packageName b"
proof -
  from assms(1) obtain m where d: "d = (build_header b)\<lparr>od_memory := m\<rparr>" by (rule buildE)
  have "length (ob_packageName b) < 2 ^ 32"
    using assms(2) by (simp add: char_size_def build_chars_def)
  then have "unat (fullPackageNameSize d) = length (ob_packageName b)"
    by (simp add: d build_header_def Let_def unsigned_of_nat take_bit_nat_eq_self)
  then show ?thesis
    by (simp add: messageFullName_def build_chars_data [OF assms(1)] build_chars_def)
qed

lemma build_loop_some:
  "(build_loop d fs i off u \<noteq> None) =
   (\<forall>f \<in> set fs. ProtobufFieldNumMin \<le> unat (fd_fieldNumber f) \<and> unat (fd_fieldNumber f) \<le> ProtobufFieldNumMax)"
  by (induction fs arbitrary: i off u) (auto simp: not_less)

lemma build_some:
  "(build b \<noteq> None) = (length (ob_fields b) \<le> ProtobufFieldMaxCount \<and>
     (\<forall>f \<in> set (ob_fields b).
        ProtobufFieldNumMin \<le> unat (fd_fieldNumber f) \<and> unat (fd_fieldNumber f) \<le> ProtobufFieldNumMax))"
proof (cases "length (ob_fields b) \<le> ProtobufFieldMaxCount")
  case True
  then have "(build b \<noteq> None) = (build_loop (build_header b) (ob_fields b) 0
      (fullPackageNameSize (build_header b) + 1) (replicate (4 * length (ob_fields b) + 1) 0) \<noteq> None)"
    by (simp only: build_def Let_def not_less [symmetric] if_False) (simp split: option.splits)
  with True show ?thesis by (simp only: build_loop_some simp_thms)
qed (simp add: build_def)


lemma getOrdering_Some:
  "getOrdering type ks reg = Some d \<Longrightarrow> \<exists>k \<in> set ks. reg k = Some (type, d)"
  by (induction ks) (auto split: option.splits if_splits)

lemma getOrdering_None:
  "getOrdering type ks reg = None \<Longrightarrow> k \<in> set ks \<Longrightarrow> reg k \<noteq> Some (type, d)"
  by (induction ks) (auto split: option.splits if_splits)

lemma find_upt:
  assumes "find P [0..<n] = Some i"
  shows "i < n \<and> P i \<and> (\<forall>j < i. \<not> P j)"
  using assms by (auto simp: find_Some_iff)

subsection \<open>Properties\<close>

text \<open>C6: The memory block that \<open>build\<close> writes is read back by the accessors: for every field the
  JSON name, the field number, the property index and the flags that were added, and the full
  name of the message.\<close>

theorem ordering_build_roundtrip:
  assumes "build b = Some d" and "char_size b < 2 ^ 32" and "j < length (ob_fields b)"
    and "unat (fd_propertyIndex (ob_fields b ! j)) < 2 ^ 31"
  shows "fieldCount d = int (length (ob_fields b)) \<and> messageFullName d = ob_packageName b \<and>
    jsonName d (int j) = fd_jsonName (ob_fields b ! j) \<and>
    fieldNumber d (int j) = uint (fd_fieldNumber (ob_fields b ! j)) \<and>
    propertyIndex d (int j) = uint (fd_propertyIndex (ob_fields b ! j)) \<and>
    fieldFlags d (int j) = fd_flags (ob_fields b ! j)"
proof -
  have "unat (fd_fieldNumber (ob_fields b ! j)) \<le> ProtobufFieldNumMax"
    using assms(1,3) build_some [of b] by (simp add: all_set_conv_all_nth)
  then have number: "uint (fd_fieldNumber (ob_fields b ! j)) \<le> 536870911"
    unfolding uint_nat ProtobufFieldNumMax_def by linarith
  from assms(4) have "unat (fd_propertyIndex (ob_fields b ! j)) < 2147483648" by simp
  then have prop_small: "uint (fd_propertyIndex (ob_fields b ! j)) \<le> 2147483647"
    unfolding uint_nat by linarith
  note rd = build_uint_data [OF assms(1,3)] build_count(1) [OF assms(1)]
  have "fieldNumber d (int j) = uint (fd_fieldNumber (ob_fields b ! j))"
    using assms(3) number by (simp add: fieldNumber_def rd)
  moreover have "propertyIndex d (int j) = uint (fd_propertyIndex (ob_fields b ! j))"
    using assms(3) prop_small by (simp add: propertyIndex_def rd)
  moreover have "fieldFlags d (int j) = fd_flags (ob_fields b ! j)"
    using assms(3) by (simp add: fieldFlags_def rd)
  ultimately show ?thesis
    using build_names [OF assms(1-3)] build_full_name [OF assms(1,2)] rd by simp
qed

definition demo_builder :: ordering_builder where
  "demo_builder = addV0Field [0x62, 0x63] 536870911 1 0x40 (addV0Field [0x61] 1 0 0 (new_builder [0x4D]))"

theorem ordering_build_roundtrip_witness:
  "\<exists>d. build demo_builder = Some d \<and> jsonName d 1 = [0x62, 0x63] \<and> fieldNumber d 1 = 536870911 \<and>
     fieldFlags d 1 = 0x40 \<and> messageFullName d = [0x4D]"
proof -
  have fs: "length (ob_fields demo_builder) = 2"
    "ob_fields demo_builder ! 1 = \<lparr>fd_jsonName = [0x62, 0x63], fd_fieldNumber = 536870911,
       fd_propertyIndex = 1, fd_flags = 0x40\<rparr>"
    "ob_packageName demo_builder = [0x4D]" "char_size demo_builder < 2 ^ 32"
    by (simp_all add: demo_builder_def addV0Field_def new_builder_def char_size_def build_chars_def)
  obtain d where "build demo_builder = Some d"
    using build_some [of demo_builder]
    by (auto simp: demo_builder_def addV0Field_def new_builder_def ProtobufFieldMaxCount_def
        ProtobufFieldNumMin_def ProtobufFieldNumMax_def)
  with ordering_build_roundtrip [of demo_builder d 1] fs show ?thesis by simp
qed

text \<open>\<open>build\<close> gives up exactly when there are more fields than field numbers, or a field number
  is not between 1 and 536870911.\<close>

theorem ordering_build_fails_iff:
  "build b = None \<longleftrightarrow> 536870911 < length (ob_fields b) \<or>
     (\<exists>f \<in> set (ob_fields b). fd_fieldNumber f = 0 \<or> 536870911 < unat (fd_fieldNumber f))"
  using build_some [of b]
  by (auto simp: ProtobufFieldMaxCount_def ProtobufFieldNumMin_def ProtobufFieldNumMax_def
      not_le not_less_eq_eq Suc_le_eq unat_gt_0)

text \<open>\<open>indexOfFieldNumber\<close> finds the first field of the built ordering that has the number, and
  answers \<open>-1\<close> exactly when no field has it.\<close>

theorem indexOfFieldNumber_first:
  assumes "build b = Some d" and "0 < number" and "number < 2 ^ 31"
  shows "(indexOfFieldNumber d number = -1 \<longrightarrow>
      (\<forall>f \<in> set (ob_fields b). uint (fd_fieldNumber f) \<noteq> number)) \<and>
    (indexOfFieldNumber d number \<noteq> -1 \<longrightarrow>
      (\<exists>j < length (ob_fields b). indexOfFieldNumber d number = int j \<and>
         uint (fd_fieldNumber (ob_fields b ! j)) = number \<and>
         (\<forall>i < j. uint (fd_fieldNumber (ob_fields b ! i)) \<noteq> number)))"
proof -
  let ?P = "\<lambda>i. uint_dataForIndex d (int i) (fieldNumberOffset d) = word_of_int number"
  let ?n = "length (ob_fields b)"
  have P: "?P i \<longleftrightarrow> uint (fd_fieldNumber (ob_fields b ! i)) = number" if "i < ?n" for i
    using that assms(2,3) build_uint_data(1) [OF assms(1) that]
    by (simp add: word_uint_eq_iff uint_word_of_int)
  have count: "nat (fieldCount d) = ?n" using build_count(1) [OF assms(1)] by simp
  show ?thesis
  proof (cases "find ?P [0..<?n]")
    case None
    then have "\<forall>i < ?n. \<not> ?P i" by (auto simp: find_None_iff)
    with P have "\<forall>i < ?n. uint (fd_fieldNumber (ob_fields b ! i)) \<noteq> number" by blast
    moreover have "indexOfFieldNumber d number = -1"
      using None assms(2) count by (simp add: indexOfFieldNumber_def)
    ultimately show ?thesis by (metis in_set_conv_nth)
  next
    case (Some i)
    from find_upt [OF this] P have "i < ?n" "uint (fd_fieldNumber (ob_fields b ! i)) = number"
      "\<forall>j < i. uint (fd_fieldNumber (ob_fields b ! j)) \<noteq> number" by auto
    with Some assms(2) count show ?thesis by (auto simp: indexOfFieldNumber_def)
  qed
qed

theorem indexOfFieldNumber_first_witness:
  "\<exists>d. build demo_builder = Some d \<and>
     (indexOfFieldNumber d 536870911 \<noteq> -1 \<longrightarrow>
      (\<exists>j < length (ob_fields demo_builder). indexOfFieldNumber d 536870911 = int j \<and>
         uint (fd_fieldNumber (ob_fields demo_builder ! j)) = 536870911 \<and>
         (\<forall>i < j. uint (fd_fieldNumber (ob_fields demo_builder ! i)) \<noteq> 536870911)))"
proof -
  obtain d where "build demo_builder = Some d"
    using build_some [of demo_builder]
    by (auto simp: demo_builder_def addV0Field_def new_builder_def ProtobufFieldMaxCount_def
        ProtobufFieldNumMin_def ProtobufFieldNumMax_def)
  with indexOfFieldNumber_first [of demo_builder d 536870911] show ?thesis by simp
qed

text \<open>After a message type is registered, its ordering is found by name and by type: in any order
  in which the hash is walked, provided that the type has no other name.\<close>

theorem registry_lookup:
  assumes "set ks = dom (registerOrdering p type od reg)"
    and "\<forall>k d. reg k = Some (type, d) \<longrightarrow> k = fromUtf8 p (messageFullName od)"
  shows "findMessageByName (fromUtf8 p (messageFullName od)) (registerOrdering p type od reg) =
      Some (type, od) \<and>
    getOrdering type ks (registerOrdering p type od reg) = Some od"
proof -
  let ?reg = "registerOrdering p type od reg"
  have "getOrdering type ks ?reg = Some od"
  proof (cases "getOrdering type ks ?reg")
    case None
    from getOrdering_None [OF None, of "fromUtf8 p (messageFullName od)" od] assms(1)
    show ?thesis by (simp add: registerOrdering_def)
  next
    case (Some d)
    from getOrdering_Some [OF Some] assms(2) Some show ?thesis
      by (auto simp: registerOrdering_def split: if_splits)
  qed
  then show ?thesis by (simp add: findMessageByName_def registerOrdering_def)
qed

definition demo_ordering :: ordering_data where
  "demo_ordering = \<lparr>od_version = 0, numFields = 0, fieldNumberOffset = 1, propertyIndexOffset = 1,
     flagsOffset = 1, fullPackageNameSize = 1, od_memory = [0, 0, 0, 0, 0x4D, 0, 0]\<rparr>"

theorem registry_lookup_witness:
  "getOrdering 5 [[0x4D]] (registerOrdering latin1_platform 5 demo_ordering Map.empty) = Some demo_ordering"
proof -
  have "messageFullName demo_ordering = [0x4D]"
    by (simp add: demo_ordering_def messageFullName_def char_data_def)
  then have "set [[0x4D]] = dom (registerOrdering latin1_platform 5 demo_ordering Map.empty)"
    by (simp add: registerOrdering_def latin1_platform_def)
  from registry_lookup [OF this] show ?thesis by simp
qed

end
