(* ===== verification/Messages.thy ===== *)
theory Messages
  imports PropertyOrdering
begin

text \<open>
  Message objects. A message class is what \<open>qtprotobufgen\<close> prints from the templates of
  src/src/tools/qtprotoccommon/commontemplates.cpp: members \<open>m_name\<close> (a value, a
  \<open>std::optional\<close>, a \<open>QProtobufLazyMessagePointer\<close> or a \<open>QProtobufOneof\<close>) and a property per
  field with a getter and a setter, which \<open>QMetaProperty::readOnGadget\<close> and \<open>writeOnGadget\<close> call.
  A schema describes the classes of a program; a message is a value of one of them with the
  unknown fields it was received with. Also here: the oneof object (qprotobufoneof.cpp), the
  presence checker, and the property helpers of the serializers.
\<close>

subsection \<open>Values and messages\<close>

text \<open>
  The contents of a \<open>QVariant\<close>: nothing, a null value of a type, a scalar, a list, an enumerator
  (its 32-bit value), a pointer to the message that a property holds, a message by value, a list of
  messages, or a hash. The hash of a map field is the list of its entries as messages of the map
  entry class, in the order in which the hash is walked.
\<close>

datatype meta =
  MT_unknown | MT_scalar scalar_type | MT_list scalar_type | MT_enum | MT_enums | MT_bool
| MT_ptr nat | MT_msg nat | MT_msgs nat | MT_map nat | MT_custom nat

datatype variant =
  Invalid | Null meta | Scalar scalar | Scalars scalar_type "scalar list"
| Enum "32 word" | Enums "32 word list" | Bool bool
| Ptr nat | Msg qmessage | Msgs nat "qmessage list" | MapOf nat "qmessage list" | Custom nat
and member =
  M_plain variant | M_optional "variant option" | M_message nat "qmessage option"
| M_oneof variant int
and qmessage =
  QMessage (msg_type: nat) (msg_members: "member list")
    (unknownEntries: "(int \<times> byte list list) list")

fun metaType :: "variant \<Rightarrow> meta" where
  "metaType Invalid = MT_unknown"
| "metaType (Null t) = t"
| "metaType (Scalar s) = MT_scalar (scalar_type_of s)"
| "metaType (Scalars t vs) = MT_list t"
| "metaType (Enum e) = MT_enum"
| "metaType (Enums es) = MT_enums"
| "metaType (Bool b) = MT_bool"
| "metaType (Ptr m) = MT_ptr m"
| "metaType (Msg m) = MT_msg (msg_type m)"
| "metaType (Msgs t ms) = MT_msgs t"
| "metaType (MapOf t es) = MT_map t"
| "metaType (Custom n) = MT_custom n"

fun isNull :: "variant \<Rightarrow> bool" where
  "isNull Invalid = True" | "isNull (Null t) = True" | "isNull _ = False"

fun is_pointer :: "meta \<Rightarrow> bool" where
  "is_pointer (MT_ptr m) = True" | "is_pointer _ = False"

text \<open>The default value of a type, as \<open>T()\<close> constructs it.\<close>

fun default_scalar :: "scalar_type \<Rightarrow> scalar" where
  "default_scalar T_float = V_float 0" | "default_scalar T_double = V_double 0"
| "default_scalar T_int32 = V_int32 0" | "default_scalar T_int64 = V_int64 0"
| "default_scalar T_uint32 = V_uint32 0" | "default_scalar T_uint64 = V_uint64 0"
| "default_scalar T_sint32 = V_sint32 0" | "default_scalar T_sint64 = V_sint64 0"
| "default_scalar T_fixed32 = V_fixed32 0" | "default_scalar T_fixed64 = V_fixed64 0"
| "default_scalar T_sfixed32 = V_sfixed32 0" | "default_scalar T_sfixed64 = V_sfixed64 0"
| "default_scalar T_boolean = V_boolean False" | "default_scalar T_QString = V_QString []"
| "default_scalar T_QByteArray = V_QByteArray []"

text \<open>Comparison with \<open>==\<close>: on floating point values the two zeros are equal and a NaN is not
  equal to itself. The arguments are IEEE-754 bit patterns.\<close>

definition float_eq :: "32 word \<Rightarrow> 32 word \<Rightarrow> bool" where
  "float_eq a b \<longleftrightarrow>
     (let ma = a AND 0x7FFFFFFF; mb = b AND 0x7FFFFFFF
      in \<not> 0x7F800000 < ma \<and> \<not> 0x7F800000 < mb \<and> (a = b \<or> ma = 0 \<and> mb = 0))"

definition double_eq :: "64 word \<Rightarrow> 64 word \<Rightarrow> bool" where
  "double_eq a b \<longleftrightarrow>
     (let ma = a AND 0x7FFFFFFFFFFFFFFF; mb = b AND 0x7FFFFFFFFFFFFFFF
      in \<not> 0x7FF0000000000000 < ma \<and> \<not> 0x7FF0000000000000 < mb \<and> (a = b \<or> ma = 0 \<and> mb = 0))"

definition scalar_eq :: "scalar \<Rightarrow> scalar \<Rightarrow> bool" where
  "scalar_eq a b =
     (case (a, b) of
        (V_float x, V_float y) \<Rightarrow> float_eq x y
      | (V_double x, V_double y) \<Rightarrow> double_eq x y
      | _ \<Rightarrow> a = b)"

fun signbit :: "scalar \<Rightarrow> bool" where
  "signbit (V_float a) = bit a 31" | "signbit (V_double a) = bit a 63" | "signbit _ = False"

text \<open>\<open>ProtobufFieldPresenceChecker::isPresent\<close>\<close>

fun isPresent_scalar :: "scalar \<Rightarrow> bool" where
  "isPresent_scalar (V_QString s) = (s \<noteq> [])"
| "isPresent_scalar (V_QByteArray bs) = (bs \<noteq> [])"
| "isPresent_scalar v = (\<not> scalar_eq v (default_scalar (scalar_type_of v)))"

fun isPresent :: "variant \<Rightarrow> bool" where
  "isPresent (Scalar v) = isPresent_scalar v"
| "isPresent (Scalars t vs) = (vs \<noteq> [])"
| "isPresent _ = False"

definition variant_eq :: "variant \<Rightarrow> variant \<Rightarrow> bool" where
  "variant_eq a b =
     (case (a, b) of
        (Scalar x, Scalar y) \<Rightarrow> scalar_eq x y
      | (Scalars t xs, Scalars u ys) \<Rightarrow> t = u \<and> list_all2 scalar_eq xs ys
      | _ \<Rightarrow> a = b)"

subsection \<open>The oneof object\<close>

definition InvalidFieldNumber :: int where [simp]: "InvalidFieldNumber = 0"

definition new_oneof :: member where
  "new_oneof = M_oneof Invalid InvalidFieldNumber"

fun oneof_setValue :: "variant \<Rightarrow> int \<Rightarrow> member \<Rightarrow> member" where
  "oneof_setValue value number (M_oneof v n) = M_oneof value number"
| "oneof_setValue value number m = m"

fun holdsField :: "int \<Rightarrow> member \<Rightarrow> bool" where
  "holdsField number (M_oneof v n) \<longleftrightarrow> n = number \<and> number \<noteq> InvalidFieldNumber \<and> \<not> isNull v"
| "holdsField number _ = False"

fun oneof_fieldNumber :: "member \<Rightarrow> int" where
  "oneof_fieldNumber (M_oneof v n) = n" | "oneof_fieldNumber _ = InvalidFieldNumber"

fun oneof_rawValue :: "member \<Rightarrow> variant" where
  "oneof_rawValue (M_oneof v n) = v" | "oneof_rawValue _ = Invalid"

text \<open>\<open>message<T>()\<close> on a mutable oneof: \<open>ensureRawValue\<close> replaces a value of another type by a
  default message, without touching the field number.\<close>

fun oneof_message :: "qmessage \<Rightarrow> member \<Rightarrow> member" where
  "oneof_message dflt (M_oneof v n) =
     (if metaType v \<noteq> MT_msg (msg_type dflt) then M_oneof (Msg dflt) n else M_oneof v n)"
| "oneof_message dflt m = m"

fun oneof_isEqual :: "variant \<Rightarrow> int \<Rightarrow> member \<Rightarrow> bool" where
  "oneof_isEqual other number (M_oneof v n) \<longleftrightarrow>
     n = number \<and> metaType other = metaType v \<and> variant_eq v other"
| "oneof_isEqual other number _ = False"

fun clear_oneof :: "member \<Rightarrow> member" where
  "clear_oneof (M_oneof v n) = (if n \<noteq> InvalidFieldNumber then new_oneof else M_oneof v n)"
| "clear_oneof m = m"

fun oneof_comparesEqual :: "member \<Rightarrow> member \<Rightarrow> bool" where
  "oneof_comparesEqual (M_oneof v n) (M_oneof w k) \<longleftrightarrow> n = k \<and> variant_eq v w"
| "oneof_comparesEqual _ _ = False"

subsection \<open>Classes, properties and their getters and setters\<close>

datatype prop_kind =
  PK_scalar scalar_type | PK_scalars scalar_type | PK_enum | PK_enums
| PK_optional scalar_type | PK_optional_enum
| PK_message nat | PK_messages nat | PK_map nat
| PK_oneof scalar_type int | PK_oneof_enum int | PK_oneof_message nat int
| PK_has_message | PK_has_optional | PK_has_oneof int | PK_custom nat

text \<open>The type of a property without its value.\<close>

fun prop_meta :: "prop_kind \<Rightarrow> meta" where
  "prop_meta (PK_scalar t) = MT_scalar t" | "prop_meta (PK_scalars t) = MT_list t"
| "prop_meta PK_enum = MT_enum" | "prop_meta PK_enums = MT_enums"
| "prop_meta (PK_optional t) = MT_scalar t" | "prop_meta PK_optional_enum = MT_enum"
| "prop_meta (PK_message t) = MT_ptr t" | "prop_meta (PK_messages t) = MT_msgs t"
| "prop_meta (PK_map t) = MT_map t" | "prop_meta (PK_oneof t n) = MT_scalar t"
| "prop_meta (PK_oneof_enum n) = MT_enum" | "prop_meta (PK_oneof_message t n) = MT_ptr t"
| "prop_meta PK_has_message = MT_bool" | "prop_meta PK_has_optional = MT_bool"
| "prop_meta (PK_has_oneof n) = MT_bool" | "prop_meta (PK_custom t) = MT_custom t"

record property =
  p_kind :: prop_kind
  p_slot :: nat

record message_class =
  mc_ordering :: ordering_data
  mc_props :: "property list"
  mc_defaults :: "member list"

type_synonym schema = "message_class list"

definition default_message :: "schema \<Rightarrow> nat \<Rightarrow> qmessage" where
  "default_message sc t = QMessage t (if t < length sc then mc_defaults (sc ! t) else []) []"

definition propertyOrdering :: "schema \<Rightarrow> qmessage \<Rightarrow> ordering_data" where
  "propertyOrdering sc m = mc_ordering (sc ! msg_type m)"

text \<open>\<open>metaProperty\<close>: the property that a field names, if there is one.\<close>

definition metaProperty :: "schema \<Rightarrow> qmessage \<Rightarrow> int \<Rightarrow> property option" where
  "metaProperty sc m pi =
     (if 0 \<le> pi \<and> msg_type m < length sc \<and> nat pi < length (mc_props (sc ! msg_type m))
      then Some (mc_props (sc ! msg_type m) ! nat pi) else None)"

definition get_slot :: "qmessage \<Rightarrow> nat \<Rightarrow> member" where
  "get_slot m s = (if s < length (msg_members m) then msg_members m ! s else M_plain Invalid)"

definition set_slot :: "nat \<Rightarrow> member \<Rightarrow> qmessage \<Rightarrow> qmessage" where
  "set_slot s x m = QMessage (msg_type m) ((msg_members m)[s := x]) (unknownEntries m)"

text \<open>The value of a plain member.\<close>

fun plain_value :: "member \<Rightarrow> variant" where
  "plain_value (M_plain v) = v" | "plain_value _ = Invalid"

text \<open>The getters, one definition per template. Those of message pointers create the message.\<close>

definition get_optional :: "variant \<Rightarrow> member \<Rightarrow> variant" where
  "get_optional dflt x = (case x of M_optional (Some v) \<Rightarrow> v | _ \<Rightarrow> dflt)"

definition has_optional :: "member \<Rightarrow> bool" where
  "has_optional x = (case x of M_optional (Some v) \<Rightarrow> True | _ \<Rightarrow> False)"

definition clear_optional :: "member \<Rightarrow> member" where
  "clear_optional x = (if has_optional x then M_optional None else x)"

definition get_message :: "schema \<Rightarrow> nat \<Rightarrow> member \<Rightarrow> variant \<times> member" where
  "get_message sc t x =
     (Ptr t, case x of M_message u None \<Rightarrow> M_message u (Some (default_message sc t)) | _ \<Rightarrow> x)"

definition has_message :: "member \<Rightarrow> bool" where
  "has_message x = (case x of M_message t (Some m) \<Rightarrow> True | _ \<Rightarrow> False)"

definition clear_message :: "member \<Rightarrow> member" where
  "clear_message x = (case x of M_message t (Some m) \<Rightarrow> M_message t None | _ \<Rightarrow> x)"

definition get_oneof :: "variant \<Rightarrow> int \<Rightarrow> member \<Rightarrow> variant" where
  "get_oneof dflt number x = (if holdsField number x then oneof_rawValue x else dflt)"

definition get_oneof_message :: "schema \<Rightarrow> nat \<Rightarrow> member \<Rightarrow> variant \<times> member" where
  "get_oneof_message sc t x = (Ptr t, oneof_message (default_message sc t) x)"

text \<open>\<open>readOnGadget\<close> calls the getter of the property.\<close>

definition read_member :: "schema \<Rightarrow> prop_kind \<Rightarrow> member \<Rightarrow> variant \<times> member" where
  "read_member sc k x =
     (case k of
        PK_optional t \<Rightarrow> (get_optional (Scalar (default_scalar t)) x, x)
      | PK_optional_enum \<Rightarrow> (get_optional (Enum 0) x, x)
      | PK_message t \<Rightarrow> get_message sc t x
      | PK_oneof t n \<Rightarrow> (get_oneof (Scalar (default_scalar t)) n x, x)
      | PK_oneof_enum n \<Rightarrow> (get_oneof (Enum 0) n x, x)
      | PK_oneof_message t n \<Rightarrow> get_oneof_message sc t x
      | PK_has_message \<Rightarrow> (Bool (has_message x), x)
      | PK_has_optional \<Rightarrow> (Bool (has_optional x), x)
      | PK_has_oneof n \<Rightarrow> (Bool (holdsField n x), x)
      | _ \<Rightarrow> (plain_value x, x))"

definition readOnGadget :: "schema \<Rightarrow> property \<Rightarrow> qmessage \<Rightarrow> variant \<times> qmessage" where
  "readOnGadget sc pr m =
     (let (v, x) = read_member sc (p_kind pr) (get_slot m (p_slot pr))
      in (v, set_slot (p_slot pr) x m))"

text \<open>The message behind the pointer that a message property returns, and a change of it in place.\<close>

fun pointee :: "member \<Rightarrow> qmessage option" where
  "pointee (M_message t m) = m"
| "pointee (M_oneof (Msg m) n) = Some m"
| "pointee _ = None"

fun update_pointee :: "qmessage \<Rightarrow> member \<Rightarrow> member" where
  "update_pointee m (M_message t _) = M_message t (Some m)"
| "update_pointee m (M_oneof (Msg _) n) = M_oneof (Msg m) n"
| "update_pointee m x = x"

text \<open>\<open>QVariant::convert\<close> as far as it is used: an \<open>int64\<close> becomes an enumerator (the low 32
  bits), and back.\<close>

fun to_enum :: "variant \<Rightarrow> variant" where
  "to_enum (Scalar (V_int64 w)) = Enum (ucast w)" | "to_enum v = v"

text \<open>The setters, one definition per template.\<close>

definition set_plain :: "variant \<Rightarrow> member \<Rightarrow> member" where
  "set_plain v x = (if \<not> variant_eq (plain_value x) v then M_plain v else x)"

definition set_floating :: "scalar \<Rightarrow> member \<Rightarrow> member" where
  "set_floating s x =
     (case plain_value x of
        Scalar old \<Rightarrow>
          if \<not> scalar_eq old s \<or> signbit old \<noteq> signbit s then M_plain (Scalar s) else x
      | _ \<Rightarrow> M_plain (Scalar s))"

definition set_optional :: "variant \<Rightarrow> member \<Rightarrow> member" where
  "set_optional v x =
     (if \<not> has_optional x \<or> \<not> variant_eq (get_optional Invalid x) v then M_optional (Some v) else x)"

definition set_oneof :: "variant \<Rightarrow> int \<Rightarrow> member \<Rightarrow> member" where
  "set_oneof v number x = (if \<not> oneof_isEqual v number x then oneof_setValue v number x else x)"

text \<open>
  \<open>setName_p(T *)\<close> of a message member: the pointer comes from the getter, so it is the one that is
  stored already. Of a oneof message: the pointee is the raw value of the oneof.
\<close>

definition set_message_ptr :: "member \<Rightarrow> member" where
  "set_message_ptr x = x"

definition set_oneof_message_ptr :: "int \<Rightarrow> member \<Rightarrow> member" where
  "set_oneof_message_ptr number x = set_oneof (oneof_rawValue x) number x"

text \<open>\<open>writeOnGadget\<close> calls the setter when the value has the type of the property.\<close>

definition write_member :: "prop_kind \<Rightarrow> variant \<Rightarrow> member \<Rightarrow> member option" where
  "write_member k v x =
     (if metaType v \<noteq> prop_meta k then None
      else (case k of
              PK_scalar t \<Rightarrow>
                (case v of
                   Scalar s \<Rightarrow> Some (if t = T_float \<or> t = T_double then set_floating s x else set_plain v x)
                 | _ \<Rightarrow> None)
            | PK_optional t \<Rightarrow> Some (set_optional v x)
            | PK_optional_enum \<Rightarrow> Some (set_optional v x)
            | PK_message t \<Rightarrow> Some (set_message_ptr x)
            | PK_oneof t n \<Rightarrow> Some (set_oneof v n x)
            | PK_oneof_enum n \<Rightarrow> Some (set_oneof v n x)
            | PK_oneof_message t n \<Rightarrow> Some (set_oneof_message_ptr n x)
            | PK_has_message \<Rightarrow> None
            | PK_has_optional \<Rightarrow> None
            | PK_has_oneof n \<Rightarrow> None
            | _ \<Rightarrow> Some (set_plain v x)))"

definition convert_for :: "prop_kind \<Rightarrow> variant \<Rightarrow> variant" where
  "convert_for k v = (if prop_meta k = MT_enum then to_enum v else v)"

definition writeOnGadget :: "property \<Rightarrow> variant \<Rightarrow> qmessage \<Rightarrow> bool \<times> qmessage" where
  "writeOnGadget pr v m =
     (case write_member (p_kind pr) (convert_for (p_kind pr) v) (get_slot m (p_slot pr)) of
        Some x \<Rightarrow> (True, set_slot (p_slot pr) x m)
      | None \<Rightarrow> (False, m))"

subsection \<open>Property helpers of the serializers\<close>

record field_info =
  fi_ordering :: ordering_data
  fi_index :: int

definition mk_field_info :: "schema \<Rightarrow> qmessage \<Rightarrow> int \<Rightarrow> field_info" where
  "mk_field_info sc m index = \<lparr>fi_ordering = propertyOrdering sc m, fi_index = index\<rparr>"

definition fi_number :: "field_info \<Rightarrow> int" where
  "fi_number fi = fieldNumber (fi_ordering fi) (fi_index fi)"

definition fi_propertyIndex :: "field_info \<Rightarrow> int" where
  "fi_propertyIndex fi = propertyIndex (fi_ordering fi) (fi_index fi)"

definition fi_flags :: "field_info \<Rightarrow> uint32" where
  "fi_flags fi = fieldFlags (fi_ordering fi) (fi_index fi)"

definition fi_jsonName :: "field_info \<Rightarrow> byte list" where
  "fi_jsonName fi = jsonName (fi_ordering fi) (fi_index fi)"

definition messageProperty ::
  "schema \<Rightarrow> qmessage \<Rightarrow> field_info \<Rightarrow> bool \<Rightarrow> variant \<times> qmessage" where
  "messageProperty sc m fi allowInitialize =
     (case metaProperty sc m (fi_propertyIndex fi) of
        None \<Rightarrow> (Invalid, m)
      | Some pr \<Rightarrow>
          if testFlag (fi_flags fi) ExplicitPresence \<and> \<not> allowInitialize \<and>
             (case metaProperty sc m (fi_propertyIndex fi + 1) of
                Some has \<Rightarrow> fst (readOnGadget sc has m) \<noteq> Bool True
              | None \<Rightarrow> True)
          then (Null (prop_meta (p_kind pr)), m)
          else readOnGadget sc pr m)"

definition setMessageProperty ::
  "schema \<Rightarrow> qmessage \<Rightarrow> field_info \<Rightarrow> variant \<Rightarrow> bool \<times> qmessage" where
  "setMessageProperty sc m fi v =
     (case metaProperty sc m (fi_propertyIndex fi) of
        None \<Rightarrow> (False, m)
      | Some pr \<Rightarrow> writeOnGadget pr v m)"

text \<open>The message behind the pointer property of a field, and its change in place.\<close>

definition field_pointee :: "schema \<Rightarrow> qmessage \<Rightarrow> field_info \<Rightarrow> qmessage option" where
  "field_pointee sc m fi =
     (case metaProperty sc m (fi_propertyIndex fi) of
        None \<Rightarrow> None
      | Some pr \<Rightarrow> pointee (get_slot m (p_slot pr)))"

definition set_field_pointee :: "schema \<Rightarrow> field_info \<Rightarrow> qmessage \<Rightarrow> qmessage \<Rightarrow> qmessage" where
  "set_field_pointee sc fi child m =
     (case metaProperty sc m (fi_propertyIndex fi) of
        None \<Rightarrow> m
      | Some pr \<Rightarrow> set_slot (p_slot pr) (update_pointee child (get_slot m (p_slot pr))) m)"

subsection \<open>Unknown fields\<close>

fun append_entry :: "int \<Rightarrow> byte list \<Rightarrow> (int \<times> byte list list) list \<Rightarrow> (int \<times> byte list list) list" where
  "append_entry n bs [] = [(n, [bs])]"
| "append_entry n bs ((k, ls) # es) =
     (if k = n then (k, ls @ [bs]) # es else (k, ls) # append_entry n bs es)"

definition storeUnknownEntry :: "qmessage \<Rightarrow> byte list \<Rightarrow> int \<Rightarrow> qmessage" where
  "storeUnknownEntry m entry number =
     QMessage (msg_type m) (msg_members m) (append_entry number entry (unknownEntries m))"

definition unknownFieldNumbers :: "qmessage \<Rightarrow> int list" where
  "unknownFieldNumbers m = map fst (unknownEntries m)"

definition unknownFieldData :: "qmessage \<Rightarrow> int \<Rightarrow> byte list list" where
  "unknownFieldData m field = (case map_of (unknownEntries m) field of Some ls \<Rightarrow> ls | None \<Rightarrow> [])"

subsection \<open>Repeated and map fields\<close>

text \<open>
  \<open>QProtobufRepeatedIterator\<close> on the list or the hash that a value holds: the messages that
  \<open>next\<close> returns one by one, and the two steps of \<open>addNext\<close> and \<open>push\<close> for one more element. The
  entry object of a map is reset before it is filled; its key decides where it goes.
\<close>

fun repeated_messages :: "variant \<Rightarrow> qmessage list option" where
  "repeated_messages (Msgs t ms) = Some ms"
| "repeated_messages (MapOf t es) = Some es"
| "repeated_messages _ = None"

definition entry_key :: "qmessage \<Rightarrow> variant" where
  "entry_key e = plain_value (get_slot e 0)"

text \<open>\<open>value()\<close> of an entry creates the message that is not there.\<close>

definition entry_ensure_value :: "schema \<Rightarrow> qmessage \<Rightarrow> qmessage" where
  "entry_ensure_value sc e =
     (case get_slot e 1 of
        M_message t None \<Rightarrow> QMessage (msg_type e) [get_slot e 0, M_message t (Some (default_message sc t))] []
      | _ \<Rightarrow> QMessage (msg_type e) [get_slot e 0, get_slot e 1] [])"

fun emplace_entry :: "qmessage \<Rightarrow> qmessage list \<Rightarrow> qmessage list" where
  "emplace_entry e [] = [e]"
| "emplace_entry e (x # xs) = (if entry_key x = entry_key e then e # xs else x # emplace_entry e xs)"

fun addNext :: "schema \<Rightarrow> variant \<Rightarrow> qmessage \<times> variant" where
  "addNext sc (Msgs t ms) = (default_message sc t, Msgs t (ms @ [default_message sc t]))"
| "addNext sc (MapOf t es) = (default_message sc t, MapOf t es)"
| "addNext sc v = (default_message sc 0, v)"

text \<open>The element is filled through the pointer that \<open>addNext\<close> returned.\<close>

fun fill_element :: "qmessage \<Rightarrow> variant \<Rightarrow> variant" where
  "fill_element m (Msgs t ms) = Msgs t (butlast ms @ [m])"
| "fill_element m v = v"

fun push_element :: "schema \<Rightarrow> qmessage \<Rightarrow> variant \<Rightarrow> variant" where
  "push_element sc m (MapOf t es) = MapOf t (emplace_entry (entry_ensure_value sc m) es)"
| "push_element sc m v = v"

end
