(* ===== verification/WireSerializer.thy ===== *)
theory WireSerializer
  imports Messages
begin

text \<open>
  The binary serializer (src/src/protobuf/qprotobufserializerbase.cpp and the first half of
  qprotobufserializer.cpp): the walk over the fields of a message, the handlers of the scalar
  types, headers, enumerations, nested messages by a stack of partial results, unknown fields, and
  the size limits. The walk takes fuel, one unit per level of nested messages.
\<close>

subsection \<open>Running with fuel\<close>

fun fold_option :: "('a \<Rightarrow> 's \<Rightarrow> 's option) \<Rightarrow> 'a list \<Rightarrow> 's \<Rightarrow> 's option" where
  "fold_option f [] s = Some s"
| "fold_option f (x # xs) s = (case f x s of None \<Rightarrow> None | Some s' \<Rightarrow> fold_option f xs s')"

subsection \<open>Wire types and handlers\<close>

datatype wire_type = WT_Varint | WT_Fixed64 | WT_LengthDelimited | WT_StartGroup | WT_EndGroup | WT_Fixed32

fun wire_value :: "wire_type \<Rightarrow> uint32" where
  "wire_value WT_Varint = 0" | "wire_value WT_Fixed64 = 1" | "wire_value WT_LengthDelimited = 2"
| "wire_value WT_StartGroup = 3" | "wire_value WT_EndGroup = 4" | "wire_value WT_Fixed32 = 5"

datatype list_format = Single | Packed_list | NonPacked_list

record handler =
  h_metaType :: meta
  h_scalar :: scalar_type
  h_format :: list_format
  h_wireType :: wire_type

definition scalar_handler :: "scalar_type \<Rightarrow> wire_type \<Rightarrow> handler" where
  "scalar_handler t w = \<lparr>h_metaType = MT_scalar t, h_scalar = t, h_format = Single, h_wireType = w\<rparr>"

definition list_handler :: "scalar_type \<Rightarrow> handler" where
  "list_handler t =
     \<lparr>h_metaType = MT_list t, h_scalar = t, h_format = Packed_list, h_wireType = WT_LengthDelimited\<rparr>"

definition non_packed_list_handler :: "scalar_type \<Rightarrow> wire_type \<Rightarrow> handler" where
  "non_packed_list_handler t w =
     \<lparr>h_metaType = MT_list t, h_scalar = t, h_format = NonPacked_list, h_wireType = w\<rparr>"

definition IntegratedTypesSerializers :: "handler list" where
  "IntegratedTypesSerializers =
     [scalar_handler T_float WT_Fixed32, scalar_handler T_double WT_Fixed64,
      scalar_handler T_int32 WT_Varint, scalar_handler T_int64 WT_Varint,
      scalar_handler T_uint32 WT_Varint, scalar_handler T_uint64 WT_Varint,
      scalar_handler T_sint32 WT_Varint, scalar_handler T_sint64 WT_Varint,
      scalar_handler T_fixed32 WT_Fixed32, scalar_handler T_fixed64 WT_Fixed64,
      scalar_handler T_sfixed32 WT_Fixed32, scalar_handler T_sfixed64 WT_Fixed64,
      scalar_handler T_boolean WT_Varint, scalar_handler T_QString WT_LengthDelimited,
      scalar_handler T_QByteArray WT_LengthDelimited,
      list_handler T_float, list_handler T_double, list_handler T_int32, list_handler T_int64,
      list_handler T_uint32, list_handler T_uint64, list_handler T_sint32, list_handler T_sint64,
      list_handler T_fixed32, list_handler T_fixed64, list_handler T_sfixed32,
      list_handler T_sfixed64, list_handler T_boolean,
      non_packed_list_handler T_QString WT_LengthDelimited,
      non_packed_list_handler T_QByteArray WT_LengthDelimited]"

definition IntegratedNonPackedSerializers :: "handler list" where
  "IntegratedNonPackedSerializers =
     [non_packed_list_handler T_float WT_Fixed32, non_packed_list_handler T_double WT_Fixed64,
      non_packed_list_handler T_int32 WT_Varint, non_packed_list_handler T_int64 WT_Varint,
      non_packed_list_handler T_uint32 WT_Varint, non_packed_list_handler T_uint64 WT_Varint,
      non_packed_list_handler T_sint32 WT_Varint, non_packed_list_handler T_sint64 WT_Varint,
      non_packed_list_handler T_fixed32 WT_Fixed32, non_packed_list_handler T_fixed64 WT_Fixed64,
      non_packed_list_handler T_sfixed32 WT_Fixed32, non_packed_list_handler T_sfixed64 WT_Fixed64,
      non_packed_list_handler T_boolean WT_Varint]"

definition findIntegratedTypeHandlerImpl :: "meta \<Rightarrow> handler list \<Rightarrow> handler option" where
  "findIntegratedTypeHandlerImpl mt registry = find (\<lambda>h. h_metaType h = mt) registry"

definition findIntegratedTypeHandler :: "meta \<Rightarrow> bool \<Rightarrow> handler option" where
  "findIntegratedTypeHandler mt nonPacked =
     (if nonPacked then findIntegratedTypeHandlerImpl mt IntegratedNonPackedSerializers
      else findIntegratedTypeHandlerImpl mt IntegratedTypesSerializers)"

text \<open>\<open>serializeWrapper\<close> and \<open>serializeNonPackedWrapper\<close>\<close>

definition handler_serializer :: "platform \<Rightarrow> handler \<Rightarrow> variant \<Rightarrow> byte list \<Rightarrow> byte list" where
  "handler_serializer p h value header =
     (case (h_format h, value) of
        (Single, Scalar v) \<Rightarrow> header @ serializeBasic p v
      | (Packed_list, Scalars t vs) \<Rightarrow> header @ serializeListType p vs
      | (NonPacked_list, Scalars t vs) \<Rightarrow> serializeNonPackedList p vs header
      | _ \<Rightarrow> [])"

subsection \<open>Size limits\<close>

definition MaxSerializeMessageSizeLimit :: nat where
  "MaxSerializeMessageSizeLimit = 2 * 1024 * 1024 * 1024 - 1"

definition MaxDeserializeMessageSizeLimit :: nat where
  "MaxDeserializeMessageSizeLimit = MaxSerializeMessageSizeLimit"

definition clampMaximumInputSize :: "64 word \<Rightarrow> 32 word" where
  "clampMaximumInputSize configured =
     (if MaxDeserializeMessageSizeLimit < unat configured
      then of_nat MaxDeserializeMessageSizeLimit else ucast configured)"

text \<open>The environment variable: not set, set to something that is no integer, or an integer.\<close>

datatype env_value = Env_unset | Env_not_integer | Env_integer int

definition readEnvMaximumInputSize :: "env_value \<Rightarrow> 32 word option" where
  "readEnvMaximumInputSize env =
     (case env of
        Env_unset \<Rightarrow> None
      | Env_not_integer \<Rightarrow> None
      | Env_integer n \<Rightarrow> if n < 0 then None else Some (clampMaximumInputSize (word_of_int n)))"

subsection \<open>State\<close>

datatype ser_error =
  NoError | InvalidHeader | UnknownType | UnexpectedEndOfStream | InvalidFormat | MessageTooLarge

record serializer_impl =
  m_result :: "byte list"
  m_state :: "byte list list"

record serializer_private =
  lastError :: ser_error
  preserveUnknownFields :: bool
  maximumInputSize :: "32 word option"
  sp_serializer :: serializer_impl

definition effectiveMaximumInputSize :: "env_value \<Rightarrow> serializer_private \<Rightarrow> 32 word" where
  "effectiveMaximumInputSize env d =
     (case maximumInputSize d of
        Some n \<Rightarrow> n
      | None \<Rightarrow> (case readEnvMaximumInputSize env of
                   Some n \<Rightarrow> n
                 | None \<Rightarrow> of_nat MaxDeserializeMessageSizeLimit))"

definition setMaximumInputSize :: "64 word \<Rightarrow> serializer_private \<Rightarrow> serializer_private" where
  "setMaximumInputSize n d = d\<lparr>maximumInputSize := Some (clampMaximumInputSize n)\<rparr>"

definition shouldPreserveUnknownFields :: "bool \<Rightarrow> serializer_private \<Rightarrow> serializer_private" where
  "shouldPreserveUnknownFields b d = d\<lparr>preserveUnknownFields := b\<rparr>"

definition new_serializer :: serializer_private where
  "new_serializer =
     \<lparr>lastError = UnknownType, preserveUnknownFields = True, maximumInputSize = None,
      sp_serializer = \<lparr>m_result = [], m_state = []\<rparr>\<rparr>"

definition ser_reset :: "serializer_impl \<Rightarrow> serializer_impl" where
  "ser_reset st = st\<lparr>m_state := [], m_result := []\<rparr>"

subsection \<open>Fields\<close>

definition ser_append :: "byte list \<Rightarrow> serializer_impl \<Rightarrow> serializer_impl" where
  "ser_append bs st = st\<lparr>m_result := m_result st @ bs\<rparr>"

definition serializeUnknownFields :: "bool \<Rightarrow> qmessage \<Rightarrow> serializer_impl \<Rightarrow> serializer_impl" where
  "serializeUnknownFields preserve m st =
     (if preserve then ser_append (concat (map (\<lambda>(n, fields). concat fields) (unknownEntries m))) st
      else st)"

definition encodeHeader :: "int \<Rightarrow> wire_type \<Rightarrow> byte list" where
  "encodeHeader number w =
     serializeVarintCommon (push_bit 3 (word_of_int number) OR wire_value w :: 32 word)"

definition mustSerializeDefaultValue :: "uint32 \<Rightarrow> bool" where
  "mustSerializeDefaultValue flags = testAnyFlags flags [Oneof, Optional, Required]"

text \<open>An enumerator as \<open>int64\<close>.\<close>

definition enum_int64 :: "32 word \<Rightarrow> scalar" where
  "enum_int64 e = V_int64 (scast e)"

text \<open>Result \<open>None\<close>: the value is no enumeration (\<open>false\<close>).\<close>

definition serializeEnum ::
  "platform \<Rightarrow> variant \<Rightarrow> field_info \<Rightarrow> serializer_impl \<Rightarrow> serializer_impl option" where
  "serializeEnum p value fi st =
     (if testFlag (fi_flags fi) Repeated then
        (case value of
           Enums es \<Rightarrow>
             if es = [] then Some st
             else if testFlag (fi_flags fi) NonPacked then
               Some (ser_append (serializeNonPackedList p (map enum_int64 es)
                       (encodeHeader (fi_number fi) WT_Varint)) st)
             else
               Some (ser_append (serializeListType p (map enum_int64 es))
                       (ser_append (encodeHeader (fi_number fi) WT_LengthDelimited) st))
         | _ \<Rightarrow> None)
      else
        (case value of
           Enum e \<Rightarrow>
             if \<not> isPresent_scalar (enum_int64 e) \<and> \<not> mustSerializeDefaultValue (fi_flags fi) then Some st
             else Some (ser_append (serializeBasic p (enum_int64 e))
                          (ser_append (encodeHeader (fi_number fi) WT_Varint) st))
         | _ \<Rightarrow> None))"

definition serializeScalarField ::
  "platform \<Rightarrow> variant \<Rightarrow> field_info \<Rightarrow> serializer_impl \<Rightarrow> serializer_impl option" where
  "serializeScalarField p value fi st =
     (case findIntegratedTypeHandler (metaType value) (testFlag (fi_flags fi) NonPacked) of
        None \<Rightarrow> None
      | Some h \<Rightarrow>
          if \<not> isPresent value \<and> \<not> mustSerializeDefaultValue (fi_flags fi) then Some st
          else Some (ser_append (handler_serializer p h value
                       (encodeHeader (fi_number fi) (h_wireType h))) st))"

definition serializeMessageFieldBegin :: "serializer_impl \<Rightarrow> serializer_impl" where
  "serializeMessageFieldBegin st = st\<lparr>m_state := m_state st @ [m_result st], m_result := []\<rparr>"

definition serializeMessageFieldEnd ::
  "bool \<Rightarrow> qmessage \<Rightarrow> field_info \<Rightarrow> serializer_impl \<Rightarrow> serializer_impl" where
  "serializeMessageFieldEnd preserve m fi st =
     (let st' = serializeUnknownFields preserve m st
      in st'\<lparr>m_state := butlast (m_state st'),
             m_result := last (m_state st') @ encodeHeader (fi_number fi) WT_LengthDelimited @
               serializeVarintCommon (of_nat (length (m_result st')) :: 32 word) @ m_result st'\<rparr>)"

subsection \<open>Messages\<close>

text \<open>
  The walk over the fields, open in the recursive call: \<open>ser\<close> serializes a message with a list of
  the default message types that are under construction (\<open>m_defaultMessageTypes\<close>).
\<close>

type_synonym message_walk = "nat list \<Rightarrow> qmessage \<Rightarrow> serializer_impl \<Rightarrow> serializer_impl option"

definition serializeMessageField ::
  "bool \<Rightarrow> message_walk \<Rightarrow> nat list \<Rightarrow> qmessage \<Rightarrow> field_info \<Rightarrow> serializer_impl \<Rightarrow> serializer_impl option"
  where
  "serializeMessageField preserve ser defaults m fi st =
     map_option (serializeMessageFieldEnd preserve m fi)
       (ser defaults m (serializeMessageFieldBegin st))"

definition serializeDefaultMessageField ::
  "schema \<Rightarrow> bool \<Rightarrow> message_walk \<Rightarrow> nat list \<Rightarrow> nat \<Rightarrow> field_info \<Rightarrow> serializer_impl \<Rightarrow> serializer_impl option"
  where
  "serializeDefaultMessageField sc preserve ser defaults t fi st =
     (if t \<in> set defaults then Some st
      else serializeMessageField preserve ser (defaults @ [t]) (default_message sc t) fi st)"

definition serialize_field ::
  "schema \<Rightarrow> platform \<Rightarrow> bool \<Rightarrow> message_walk \<Rightarrow> nat list \<Rightarrow> qmessage \<Rightarrow> nat \<Rightarrow> serializer_impl \<Rightarrow>
   serializer_impl option" where
  "serialize_field sc p preserve ser defaults m index st =
     (let fi = mk_field_info sc m (int index);
          (value, m') = messageProperty sc m fi False
      in if metaType value = MT_unknown \<or> isNull value then
           (case metaType value of
              MT_ptr t \<Rightarrow>
                if testFlag (fi_flags fi) Required
                then serializeDefaultMessageField sc preserve ser defaults t fi st else Some st
            | _ \<Rightarrow> Some st)
         else
           (case value of
              Ptr t \<Rightarrow>
                (case field_pointee sc m' fi of
                   Some child \<Rightarrow> serializeMessageField preserve ser defaults child fi st
                 | None \<Rightarrow> Some st)
            | _ \<Rightarrow>
              (case repeated_messages value of
                 Some ms \<Rightarrow> fold_option (\<lambda>child. serializeMessageField preserve ser defaults child fi) ms st
               | None \<Rightarrow>
                 if testFlag (fi_flags fi) EnumFlag then
                   (case serializeEnum p value fi st of Some st' \<Rightarrow> Some st' | None \<Rightarrow> Some st)
                 else
                   (case serializeScalarField p value fi st of Some st' \<Rightarrow> Some st' | None \<Rightarrow> Some st))))"

primrec serializeMessage ::
  "nat \<Rightarrow> schema \<Rightarrow> platform \<Rightarrow> bool \<Rightarrow> nat list \<Rightarrow> qmessage \<Rightarrow> serializer_impl \<Rightarrow> serializer_impl option"
  where
  "serializeMessage 0 sc p preserve defaults m st = None"
| "serializeMessage (Suc n) sc p preserve defaults m st =
     fold_option (serialize_field sc p preserve (serializeMessage n sc p preserve) defaults m)
       [0..<nat (fieldCount (propertyOrdering sc m))] st"

text \<open>\<open>QProtobufSerializer::serializeMessage\<close>: the bytes and the serializer with its last error.\<close>

definition serialize ::
  "nat \<Rightarrow> schema \<Rightarrow> platform \<Rightarrow> qmessage \<Rightarrow> serializer_private \<Rightarrow> (byte list \<times> serializer_private) option"
  where
  "serialize fuel sc p m d =
     (let d0 = d\<lparr>lastError := NoError, sp_serializer := ser_reset (sp_serializer d)\<rparr>
      in case serializeMessage fuel sc p (preserveUnknownFields d0) [] m (sp_serializer d0) of
           None \<Rightarrow> None
         | Some st \<Rightarrow>
             let result = m_result (serializeUnknownFields (preserveUnknownFields d0) m st);
                 d1 = d0\<lparr>sp_serializer := ser_reset st\<rparr>
             in if MaxSerializeMessageSizeLimit < length result
                then Some ([], d1\<lparr>lastError := MessageTooLarge\<rparr>) else Some (result, d1))"

end
