(* ===== verification/WireDeserializer.thy ===== *)
theory WireDeserializer
  imports WireSerializer
begin

text \<open>
  The binary deserializer (src/src/protobuf/qprotobufdeserializerbase.cpp and the second half of
  qprotobufserializer.cpp). It walks the bytes of a view once, keeps a stack of the ends of the
  messages under construction, caches the value of the field it is filling, and records the last
  error. A computation returns, reaches undefined behaviour, or is stuck: it does not return within
  the fuel, or is in a loop that never ends. One unit of fuel is spent per field and per level.
\<close>

datatype 'a run = Ret 'a | Undef | Stuck

fun run_bind :: "'a run \<Rightarrow> ('a \<Rightarrow> 'b run) \<Rightarrow> 'b run" where
  "run_bind (Ret x) f = f x"
| "run_bind Undef f = Undef"
| "run_bind Stuck f = Stuck"

subsection \<open>State\<close>

text \<open>\<open>d_wireType\<close> is the number of the wire type in the last header.\<close>

record deserializer =
  d_it :: selfcheck_it
  d_state :: "int list"
  d_wireType :: uint32
  d_cachedValue :: variant
  d_cachedIndex :: int
  d_lastError :: ser_error
  d_preserve :: bool
  d_enforceRequired :: bool

definition clearCachedValue :: "deserializer \<Rightarrow> deserializer" where
  "clearCachedValue d = d\<lparr>d_cachedValue := Invalid, d_cachedIndex := -1\<rparr>"

definition setError :: "ser_error \<Rightarrow> deserializer \<Rightarrow> deserializer" where
  "setError e d = d\<lparr>d_lastError := e\<rparr>"

definition hasError :: "deserializer \<Rightarrow> bool" where
  "hasError d \<longleftrightarrow> d_lastError d \<noteq> NoError"

definition setUnexpectedEndOfStreamError :: "deserializer \<Rightarrow> deserializer" where
  "setUnexpectedEndOfStreamError d = setError UnexpectedEndOfStream d"

definition deser_reset :: "byte list \<Rightarrow> deserializer \<Rightarrow> deserializer" where
  "deser_reset bs d =
     clearCachedValue (d\<lparr>d_it := fromView bs, d_state := [int (length bs)]\<rparr>)"

subsection \<open>Headers and unknown fields\<close>

text \<open>\<open>decodeHeader\<close>: success, the moved iterator, the field number and the wire type.\<close>

definition decodeHeader ::
  "platform \<Rightarrow> selfcheck_it \<Rightarrow> uint32 \<Rightarrow> (bool \<times> selfcheck_it \<times> int \<times> uint32) run" where
  "decodeHeader p it wt =
     (if bytesLeft it = 0 then Ret (False, it, InvalidFieldNumber, wt)
      else (case (deserializeVarintCommon p it :: 32 word outcome) of
              Nullopt it' \<Rightarrow> Ret (False, it', InvalidFieldNumber, wt)
            | Undefined \<Rightarrow> Undef
            | Got header it' \<Rightarrow>
                let wt' = header AND 7;
                    fieldIndex = uint (drop_bit 3 header)
                in Ret (fieldIndex \<le> 2 ^ 29 - 1 \<and> 0 < fieldIndex \<and>
                          (wt' = wire_value WT_Varint \<or> wt' = wire_value WT_Fixed64 \<or>
                           wt' = wire_value WT_Fixed32 \<or> wt' = wire_value WT_LengthDelimited),
                        it', fieldIndex, wt')))"

text \<open>
  \<open>skipVarint\<close> looks at the byte under the iterator before it checks anything, so it reads past the
  end of a view that is not terminated, and never ends when such a byte has the continuation bit
  and the iterator is past the end.
\<close>

function skipVarint :: "platform \<Rightarrow> selfcheck_it \<Rightarrow> selfcheck_it run" where
  "skipVarint p it =
     (if it_deref p it AND 0x80 = 0 then Ret (it_inc it)
      else if \<not> isValid it then Stuck else skipVarint p (it_inc it))"
  by pat_completeness auto
termination
  by (relation "measure (\<lambda>(p, it). nat (container_end it + 1 - it_pos it))")
     (auto simp: it_inc_def isValid_def container_end_def)

declare skipVarint.simps [simp del]

definition skipLengthDelimited :: "platform \<Rightarrow> selfcheck_it \<Rightarrow> selfcheck_it run" where
  "skipLengthDelimited p it =
     (case (deserializeVarintCommon p it :: 64 word outcome) of
        Nullopt it' \<Rightarrow> Ret (it_add it' (bytesLeft it' + 1))
      | Undefined \<Rightarrow> Undef
      | Got len it' \<Rightarrow> Ret (it_add it' (sint len)))"

definition skip_bytes :: "platform \<Rightarrow> uint32 \<Rightarrow> selfcheck_it \<Rightarrow> selfcheck_it run" where
  "skip_bytes p wt it =
     (if wt = wire_value WT_Varint then skipVarint p it
      else if wt = wire_value WT_Fixed32 then Ret (it_add it 4)
      else if wt = wire_value WT_Fixed64 then Ret (it_add it 8)
      else if wt = wire_value WT_LengthDelimited then skipLengthDelimited p it
      else Undef)"

definition skipField :: "platform \<Rightarrow> selfcheck_it \<Rightarrow> deserializer \<Rightarrow> (int \<times> deserializer) run" where
  "skipField p fieldBegin d =
     run_bind (skip_bytes p (d_wireType d) (d_it d)) (\<lambda>it.
       let d' = d\<lparr>d_it := it\<rparr>
       in if \<not> isValid it then Ret (-1, setUnexpectedEndOfStreamError d')
          else Ret (it_diff it fieldBegin, d'))"

text \<open>
  A message or map field opens a nested message: its length is read and its end pushed on the stack.
  Returns whether the field can be read.
\<close>

definition enter_field ::
  "platform \<Rightarrow> uint32 \<Rightarrow> deserializer \<Rightarrow> (bool \<times> deserializer) run" where
  "enter_field p flags d =
     (if testAnyFlags flags [MessageFlag, MapFlag] then
        (case (deserializeVarintCommon p (d_it d) :: 64 word outcome) of
           Nullopt it' \<Rightarrow> Ret (False, setUnexpectedEndOfStreamError (d\<lparr>d_it := it'\<rparr>))
         | Undefined \<Rightarrow> Undef
         | Got len it' \<Rightarrow>
             let d' = d\<lparr>d_it := it'\<rparr>
             in if \<not> isValid it' \<or> bytesLeft it' < uint len \<or> maxByteArray p < unat len
                then Ret (False, setUnexpectedEndOfStreamError d')
                else Ret (True, d'\<lparr>d_state := d_state d' @ [it_pos it' + uint len]\<rparr>))
      else Ret (True, d))"

text \<open>\<open>nextFieldIndex\<close>: the index of the next known field, or \<open>-1\<close>, and the message with the
  unknown fields met before.\<close>

primrec nextFieldIndex ::
  "nat \<Rightarrow> schema \<Rightarrow> platform \<Rightarrow> qmessage \<Rightarrow> deserializer \<Rightarrow> (int \<times> qmessage \<times> deserializer) run" where
  "nextFieldIndex 0 sc p m d = Stuck"
| "nextFieldIndex (Suc n) sc p m d =
     (if isValid (d_it d) \<and> \<not> it_eq_ptr (d_it d) (last (d_state d)) then
        run_bind (decodeHeader p (d_it d) (d_wireType d)) (\<lambda>(ok, it, number, wt).
          let d1 = d\<lparr>d_it := it, d_wireType := wt\<rparr>
          in if \<not> ok then Ret (-1, m, setError InvalidHeader d1)
             else
               let index = indexOfFieldNumber (propertyOrdering sc m) number
               in if index = -1 then
                    run_bind (skipField p (d_it d) d1) (\<lambda>(len, d2).
                      if len < 0 then Ret (-1, m, d2)
                      else if 0 < len \<and> d_preserve d2
                      then nextFieldIndex n sc p (storeUnknownEntry m (it_read p (d_it d) (nat len)) number) d2
                      else nextFieldIndex n sc p m d2)
                  else
                    run_bind (enter_field p (fieldFlags (propertyOrdering sc m) index) d1) (\<lambda>(ok', d2).
                      Ret (if ok' then index else -1, m, d2)))
      else
        let d1 = (if \<not> isValid (d_it d) then setUnexpectedEndOfStreamError d else d)
        in Ret (-1, m, d1\<lparr>d_state := butlast (d_state d1)\<rparr>))"

subsection \<open>Scalars and enumerations\<close>

definition handler_deserializer :: "platform \<Rightarrow> handler \<Rightarrow> selfcheck_it \<Rightarrow> variant \<Rightarrow> variant outcome" where
  "handler_deserializer p h it value =
     (case h_format h of
        Single \<Rightarrow> map_outcome_val Scalar (deserializeBasic p (h_scalar h) it)
      | Packed_list \<Rightarrow> map_outcome_val (Scalars (h_scalar h)) (deserializeList p (h_scalar h) it)
      | NonPacked_list \<Rightarrow>
          map_outcome_val (Scalars (h_scalar h))
            (deserializeNonPackedList p (h_scalar h) it
               (case value of Scalars t vs \<Rightarrow> vs | _ \<Rightarrow> [])))"

text \<open>Returns \<open>false\<close> when the cached value is of no scalar type.\<close>

definition deserializeScalarField ::
  "platform \<Rightarrow> field_info \<Rightarrow> deserializer \<Rightarrow> (bool \<times> deserializer) run" where
  "deserializeScalarField p fi d =
     (let isNonPacked = (d_wireType d \<noteq> wire_value WT_LengthDelimited \<and> testFlags (fi_flags fi) [Repeated])
      in case findIntegratedTypeHandler (metaType (d_cachedValue d)) isNonPacked of
           None \<Rightarrow> Ret (False, d)
         | Some h \<Rightarrow>
             if wire_value (h_wireType h) \<noteq> d_wireType d
             then Ret (True, (setError InvalidHeader d)\<lparr>d_cachedValue := Invalid\<rparr>)
             else (case handler_deserializer p h (d_it d) (d_cachedValue d) of
                     Got v it \<Rightarrow> Ret (True, d\<lparr>d_it := it, d_cachedValue := v\<rparr>)
                   | Nullopt it \<Rightarrow>
                       Ret (True, setUnexpectedEndOfStreamError (d\<lparr>d_it := it, d_cachedValue := Invalid\<rparr>))
                   | Undefined \<Rightarrow> Undef))"

fun enum_of_int64 :: "scalar \<Rightarrow> 32 word" where
  "enum_of_int64 (V_int64 w) = ucast w" | "enum_of_int64 _ = 0"

definition deserializeEnum ::
  "platform \<Rightarrow> field_info \<Rightarrow> deserializer \<Rightarrow> (bool \<times> deserializer) run" where
  "deserializeEnum p fi d =
     (if testFlag (fi_flags fi) Repeated then
        let prev = (case d_cachedValue d of Enums es \<Rightarrow> map enum_int64 es | _ \<Rightarrow> []);
            result = (if d_wireType d = wire_value WT_Varint
                      then deserializeNonPackedList p T_int64 (d_it d) prev
                      else if d_wireType d = wire_value WT_LengthDelimited
                      then deserializeList p T_int64 (d_it d)
                      else Nullopt (d_it d))
        in case result of
             Got vs it \<Rightarrow> Ret (True, d\<lparr>d_it := it, d_cachedValue := Enums (map enum_of_int64 vs)\<rparr>)
           | Nullopt it \<Rightarrow> Ret (False, d\<lparr>d_it := it\<rparr>)
           | Undefined \<Rightarrow> Undef
      else
        (case deserializeBasic p T_int64 (d_it d) of
           Got v it \<Rightarrow> Ret (True, d\<lparr>d_it := it, d_cachedValue := Scalar v\<rparr>)
         | Nullopt it \<Rightarrow> Ret (False, d\<lparr>d_it := it\<rparr>)
         | Undefined \<Rightarrow> Undef))"

subsection \<open>Required fields\<close>

definition new_seen :: "int \<Rightarrow> 64 word list" where
  "new_seen count = replicate (nat ((count + 63) div 64)) 0"

definition mark_seen :: "nat \<Rightarrow> 64 word list \<Rightarrow> 64 word list" where
  "mark_seen i seen = seen[i div 64 := (seen ! (i div 64)) OR push_bit (i mod 64) 1]"

definition is_seen :: "nat \<Rightarrow> 64 word list \<Rightarrow> bool" where
  "is_seen i seen \<longleftrightarrow> (seen ! (i div 64)) AND push_bit (i mod 64) 1 \<noteq> 0"

definition missingFields :: "ordering_data \<Rightarrow> 64 word list \<Rightarrow> nat list" where
  "missingFields od seen =
     filter (\<lambda>i. testFlag (fieldFlags od (int i)) Required \<and> \<not> is_seen i seen)
       [0..<nat (fieldCount od)]"

definition checkRequiredFields ::
  "ordering_data \<Rightarrow> 64 word list \<Rightarrow> deserializer \<Rightarrow> bool \<times> deserializer" where
  "checkRequiredFields od seen d =
     (if \<not> d_enforceRequired d \<or> hasError d then (True, d)
      else if missingFields od seen = [] then (True, d)
      else (False, setError InvalidFormat d))"

subsection \<open>Messages\<close>

definition storeCachedValue ::
  "schema \<Rightarrow> qmessage \<Rightarrow> deserializer \<Rightarrow> bool \<times> qmessage \<times> deserializer" where
  "storeCachedValue sc m d =
     (if 0 \<le> d_cachedIndex d \<and> \<not> isNull (d_cachedValue d) then
        let (ok, m') = setMessageProperty sc m (mk_field_info sc m (d_cachedIndex d)) (d_cachedValue d)
        in (ok, m', clearCachedValue d)
      else (True, m, d))"

type_synonym message_reader = "qmessage \<Rightarrow> deserializer \<Rightarrow> (bool \<times> qmessage \<times> deserializer) run"

definition deserializeMessageField :: "message_reader \<Rightarrow> message_reader" where
  "deserializeMessageField deser m d =
     run_bind (deser m (clearCachedValue d)) (\<lambda>(ok, m', d').
       Ret (ok, m', d'\<lparr>d_cachedValue := d_cachedValue d, d_cachedIndex := d_cachedIndex d\<rparr>))"

text \<open>One field of a message: go on with the message, or return from \<open>deserializeMessage\<close>.\<close>

datatype step = Continue qmessage deserializer | Finish bool qmessage deserializer

text \<open>The cached value of another field is stored first, and the value of this one is cached.\<close>

definition cache_field ::
  "schema \<Rightarrow> int \<Rightarrow> qmessage \<Rightarrow> deserializer \<Rightarrow> bool \<times> qmessage \<times> deserializer" where
  "cache_field sc index m d =
     (if d_cachedIndex d \<noteq> index then
        (case storeCachedValue sc m d of
           (ok, m1, d1) \<Rightarrow>
             if \<not> ok then (False, m1, setError InvalidFormat d1)
             else let (v, m2) = messageProperty sc m1 (mk_field_info sc m1 index) True
                  in (True, m2, d1\<lparr>d_cachedValue := v, d_cachedIndex := index\<rparr>))
      else (True, m, d))"

definition is_repeated_message :: "uint32 \<Rightarrow> bool" where
  "is_repeated_message flags \<longleftrightarrow> testFlags flags [MessageFlag, Repeated] \<or> testFlags flags [MapFlag]"

definition deserialize_field ::
  "message_reader \<Rightarrow> schema \<Rightarrow> platform \<Rightarrow> int \<Rightarrow> qmessage \<Rightarrow> deserializer \<Rightarrow> step run" where
  "deserialize_field deser sc p index m d =
     (let fi = mk_field_info sc m index
      in case d_cachedValue d of
           Ptr t \<Rightarrow>
             (case field_pointee sc m fi of
                None \<Rightarrow> Undef
              | Some child \<Rightarrow>
                  run_bind (deserializeMessageField deser child d) (\<lambda>(ok, child', d').
                    let m' = set_field_pointee sc fi child' m
                    in Ret (if ok then Continue m' d' else Finish False m' d')))
         | value \<Rightarrow>
             if is_repeated_message (fi_flags fi) \<and> repeated_messages value \<noteq> None then
               (case addNext sc value of
                  (element, value1) \<Rightarrow>
                    run_bind (deserializeMessageField deser element (d\<lparr>d_cachedValue := value1\<rparr>))
                      (\<lambda>(ok, element', d').
                         let d1 = d'\<lparr>d_cachedValue := fill_element element' (d_cachedValue d')\<rparr>
                         in if \<not> ok then Ret (Finish False m d1)
                            else Ret (Continue m
                              (d1\<lparr>d_cachedValue := push_element sc element' (d_cachedValue d1)\<rparr>))))
             else if testFlag (fi_flags fi) EnumFlag then
               run_bind (deserializeEnum p fi d) (\<lambda>(ok, d').
                 Ret (if ok then Continue m d' else Finish False m (setError UnknownType d')))
             else
               run_bind (deserializeScalarField p fi d) (\<lambda>(ok, d').
                 if ok then Ret (if d_cachedValue d' = Invalid then Finish False m d' else Continue m d')
                 else Ret (Finish False m (setError UnknownType d'))))"

definition finish_message ::
  "schema \<Rightarrow> 64 word list \<Rightarrow> qmessage \<Rightarrow> deserializer \<Rightarrow> bool \<times> qmessage \<times> deserializer" where
  "finish_message sc seen m d =
     (case storeCachedValue sc m d of
        (ok, m', d') \<Rightarrow>
          if \<not> ok then (False, m', setError InvalidFormat d')
          else let (r, d'') = checkRequiredFields (propertyOrdering sc m') seen d' in (r, m', d''))"

primrec message_loop ::
  "nat \<Rightarrow> schema \<Rightarrow> platform \<Rightarrow> 64 word list \<Rightarrow> message_reader" where
  "message_loop 0 sc p seen m d = Stuck"
| "message_loop (Suc n) sc p seen m d =
     run_bind (nextFieldIndex n sc p m d) (\<lambda>(index, m1, d1).
       if index < 0 then Ret (finish_message sc seen m1 d1)
       else
         let seen1 = (if d_enforceRequired d1 then mark_seen (nat index) seen else seen)
         in (case cache_field sc index m1 d1 of
               (ok, m2, d2) \<Rightarrow>
                 if \<not> ok then Ret (False, m2, d2)
                 else run_bind
                   (deserialize_field
                      (\<lambda>c. message_loop n sc p (new_seen (fieldCount (propertyOrdering sc c))) c)
                      sc p index m2 d2)
                   (\<lambda>s. case s of
                          Continue m3 d3 \<Rightarrow> message_loop n sc p seen1 m3 d3
                        | Finish r m3 d3 \<Rightarrow> Ret (r, m3, d3))))"

definition deserializeMessage :: "nat \<Rightarrow> schema \<Rightarrow> platform \<Rightarrow> message_reader" where
  "deserializeMessage fuel sc p m d =
     message_loop fuel sc p (new_seen (fieldCount (propertyOrdering sc m))) m d"

text \<open>
  \<open>QProtobufSerializer::deserializeMessage\<close>, and \<open>QAbstractProtobufSerializer::deserialize\<close>, which
  first constructs the message anew.
\<close>

definition new_deserializer :: "serializer_private \<Rightarrow> deserializer" where
  "new_deserializer s =
     \<lparr>d_it = fromView [], d_state = [], d_wireType = -1, d_cachedValue = Invalid, d_cachedIndex = -1,
      d_lastError = NoError, d_preserve = preserveUnknownFields s, d_enforceRequired = True\<rparr>"

definition qprotobuf_deserializeMessage ::
  "nat \<Rightarrow> env_value \<Rightarrow> schema \<Rightarrow> platform \<Rightarrow> qmessage \<Rightarrow> byte list \<Rightarrow> serializer_private \<Rightarrow>
   (bool \<times> qmessage \<times> serializer_private) run" where
  "qprotobuf_deserializeMessage fuel env sc p m bs s =
     (let s0 = s\<lparr>lastError := NoError\<rparr>
      in if unat (effectiveMaximumInputSize env s0) < length bs
         then Ret (False, m, s0\<lparr>lastError := MessageTooLarge\<rparr>)
         else run_bind (deserializeMessage fuel sc p m (deser_reset bs (new_deserializer s0)))
                (\<lambda>(_, m', d). Ret (d_lastError d = NoError, m', s0\<lparr>lastError := d_lastError d\<rparr>)))"

definition deserialize ::
  "nat \<Rightarrow> env_value \<Rightarrow> schema \<Rightarrow> platform \<Rightarrow> qmessage \<Rightarrow> byte list \<Rightarrow> serializer_private \<Rightarrow>
   (bool \<times> qmessage \<times> serializer_private) run" where
  "deserialize fuel env sc p m bs s =
     qprotobuf_deserializeMessage fuel env sc p (default_message sc (msg_type m)) bs s"

end
