(* ===== verification/GrpcOperation.thy ===== *)
theory GrpcOperation
  imports Interceptors WireDeserializer
begin

text \<open>
  The object of a call that a client holds (src/src/grpc/qgrpcoperation.cpp, with qgrpccallreply.cpp
  and qgrpcstream.cpp) and its context, through which it talks with the channel
  (qgrpcoperationcontext.cpp). Both are one record. What the client sees is \<open>op_client\<close>, what
  the channel is asked for is \<open>op_requests\<close>, both in order. Slots of the user that delete the operation
  or call it back from a signal are not modelled. Message types are a parameter \<open>'m\<close>.
\<close>

subsection \<open>What an operation uses\<close>

text \<open>
  A serializer: its result with \<open>lastError\<close> and \<open>lastErrorString\<close>, and \<open>deserialize\<close>, which replaces
  the message.
\<close>

record 'm message_serializer =
  ser_serialize :: "'m \<Rightarrow> byte list \<times> ser_error \<times> string"
  ser_deserialize :: "'m \<Rightarrow> byte list \<Rightarrow> (bool \<times> 'm) run"

text \<open>The methods of the interceptors, which may change their arguments and the world of the user.\<close>

record ('i, 'm, 'w) interceptor_methods =
  start_method :: "'i \<Rightarrow> 'm \<times> common_options \<times> 'w \<Rightarrow> continuation \<times> 'm \<times> common_options \<times> 'w"
  initialMetadata_method :: "'i \<Rightarrow> metadata \<times> 'w \<Rightarrow> metadata \<times> 'w"
  messageReceived_method :: "'i \<Rightarrow> byte list \<times> 'w \<Rightarrow> byte list \<times> 'w"
  writeMessage_method :: "'i \<Rightarrow> 'm \<times> 'w \<Rightarrow> 'm \<times> 'w"
  writesDone_method :: "'i \<Rightarrow> 'w \<Rightarrow> 'w"
  trailingMetadata_method :: "'i \<Rightarrow> metadata \<times> 'w \<Rightarrow> metadata \<times> 'w"
  finished_method :: "'i \<Rightarrow> grpc_status \<times> 'w \<Rightarrow> grpc_status \<times> 'w"
  cancel_method :: "'i \<Rightarrow> 'w \<Rightarrow> 'w"

text \<open>The channel, as far as an operation looks at it.\<close>

record ('i, 'm, 'w) grpc_channel =
  gc_serializer :: "'m message_serializer option"
  gc_engine :: "'i interceptor_engine"
  gc_methods :: "('i, 'm, 'w) interceptor_methods"
  gc_sameThread :: bool

subsection \<open>State\<close>

datatype operation_state = InvalidOperation | ValidOperation | FinishedOperation

datatype client_signal =
  OperationFinished grpc_status | OperationInitialMetadata metadata
| OperationMessageReceived | OperationMessageWritten

datatype context_request =
  RequestCancel | RequestWrite "byte list" | RequestWritesDone | NullSerializer

text \<open>
  \<open>op_channel\<close> says whether the weak pointer to the channel can be locked, \<open>op_posted\<close> are the
  statuses that were posted to the event loop.
\<close>

record ('m, 'w) operation =
  op_rpc :: rpc_descriptor
  op_state :: operation_state
  op_data :: "byte list"
  op_channel :: bool
  op_serializer :: "'m message_serializer option"
  op_options :: common_options
  op_operationId :: "64 word"
  op_serverInitialMetadata :: metadata
  op_deprServerInitialMetadata :: metadata
  op_serverTrailingMetadata :: metadata
  op_bytesToWrite :: "64 word"
  op_posted :: "grpc_status list"
  op_world :: 'w
  op_client :: "client_signal list"
  op_requests :: "context_request list"

definition tell_client :: "client_signal \<Rightarrow> ('m, 'w) operation \<Rightarrow> ('m, 'w) operation" where
  "tell_client sg op = op\<lparr>op_client := op_client op @ [sg]\<rparr>"

definition send_request :: "context_request \<Rightarrow> ('m, 'w) operation \<Rightarrow> ('m, 'w) operation" where
  "send_request r op = op\<lparr>op_requests := op_requests op @ [r]\<rparr>"

definition isFinished :: "('m, 'w) operation \<Rightarrow> bool" where
  "isFinished op \<longleftrightarrow> op_state op = FinishedOperation"

text \<open>The invocation of the interceptors where it is guarded by \<open>hasHandlerFor\<close>.\<close>

definition intercept ::
  "('i, 'm, 'w) grpc_channel \<Rightarrow> capability \<Rightarrow> (('i, 'm, 'w) interceptor_methods \<Rightarrow> 'i \<Rightarrow> 'a \<Rightarrow> 'a) \<Rightarrow> 'a \<Rightarrow> 'a" where
  "intercept gc c meth a =
     (if hasHandlerFor (gc_engine gc) c then invoke c (meth (gc_methods gc)) (gc_engine gc) a else a)"

subsection \<open>Slots of the signals of the context\<close>

definition context_finished ::
  "('i, 'm, 'w) grpc_channel \<Rightarrow> grpc_status \<Rightarrow> ('m, 'w) operation \<Rightarrow> ('m, 'w) operation" where
  "context_finished gc st op =
     (if isFinished op then op
      else let op = op\<lparr>op_state := FinishedOperation\<rparr>
           in if op_channel op
              then (case intercept gc FinishedCap finished_method (st, op_world op) of
                      (interceptedStatus, w) \<Rightarrow> tell_client (OperationFinished interceptedStatus) (op\<lparr>op_world := w\<rparr>))
              else tell_client (OperationFinished st) op)"

text \<open>The streams that receive several messages forward the signal; so do those that write them.\<close>

definition forwards_received :: "rpc_type \<Rightarrow> bool" where
  "forwards_received t \<longleftrightarrow> t = ServerStreaming \<or> t = BidiStreaming"

definition forwards_written :: "rpc_type \<Rightarrow> bool" where
  "forwards_written t \<longleftrightarrow> t = ClientStreaming \<or> t = BidiStreaming"

definition context_messageReceived ::
  "('i, 'm, 'w) grpc_channel \<Rightarrow> byte list \<Rightarrow> ('m, 'w) operation \<Rightarrow> ('m, 'w) operation" where
  "context_messageReceived gc bs op =
     (let op = op\<lparr>op_data := bs\<rparr>;
          op = (if op_channel op
                then (case intercept gc MessageReceivedCap messageReceived_method (op_data op, op_world op) of
                        (bs', w) \<Rightarrow> op\<lparr>op_data := bs', op_world := w\<rparr>)
                else op)
      in if forwards_received (rpc_kind (op_rpc op)) then tell_client OperationMessageReceived op else op)"

definition context_messageWritten :: "('m, 'w) operation \<Rightarrow> ('m, 'w) operation" where
  "context_messageWritten op =
     (if forwards_written (rpc_kind (op_rpc op)) then tell_client OperationMessageWritten op else op)"

subsection \<open>The context\<close>

definition setServerInitialMetadata ::
  "('i, 'm, 'w) grpc_channel \<Rightarrow> metadata \<Rightarrow> ('m, 'w) operation \<Rightarrow> ('m, 'w) operation" where
  "setServerInitialMetadata gc md op =
     (case (if op_channel op then intercept gc InitialMetadataCap initialMetadata_method (md, op_world op)
            else (md, op_world op)) of
        (md, w) \<Rightarrow>
          tell_client (OperationInitialMetadata md)
            (op\<lparr>op_world := w, op_serverInitialMetadata := md, op_deprServerInitialMetadata := toHash md\<rparr>))"

definition setServerTrailingMetadata ::
  "('i, 'm, 'w) grpc_channel \<Rightarrow> metadata \<Rightarrow> ('m, 'w) operation \<Rightarrow> ('m, 'w) operation" where
  "setServerTrailingMetadata gc md op =
     (case (if op_channel op then intercept gc TrailingMetadataCap trailingMetadata_method (md, op_world op)
            else (md, op_world op)) of
        (md, w) \<Rightarrow>
          let op = op\<lparr>op_world := w\<rparr>
          in if multi_equal (op_serverTrailingMetadata op) md then op
             else op\<lparr>op_serverTrailingMetadata := md\<rparr>)"

definition setServerMetadata :: "metadata \<Rightarrow> ('m, 'w) operation \<Rightarrow> ('m, 'w) operation" where
  "setServerMetadata md op =
     (if hash_equal (op_deprServerInitialMetadata op) md then op
      else op\<lparr>op_deprServerInitialMetadata := md, op_serverInitialMetadata := md\<rparr>)"

definition setBytesToWrite :: "64 word \<Rightarrow> ('m, 'w) operation \<Rightarrow> ('m, 'w) operation" where
  "setBytesToWrite n op = op\<lparr>op_bytesToWrite := n\<rparr>"

subsection \<open>Starting\<close>

definition asyncFinishInvalid :: "grpc_status \<Rightarrow> ('m, 'w) operation \<Rightarrow> ('m, 'w) operation" where
  "asyncFinishInvalid st op = op\<lparr>op_state := InvalidOperation, op_posted := op_posted op @ [st]\<rparr>"

text \<open>The posted lambda.\<close>

definition deliver_posted :: "('i, 'm, 'w) grpc_channel \<Rightarrow> ('m, 'w) operation \<Rightarrow> ('m, 'w) operation" where
  "deliver_posted gc op =
     (case op_posted op of
        [] \<Rightarrow> op
      | st # sts \<Rightarrow> context_finished gc st (op\<lparr>op_posted := sts\<rparr>))"

text \<open>\<open>nextOperationId\<close>: the result and the counter after it.\<close>

definition nextOperationId :: "64 word \<Rightarrow> 64 word \<times> 64 word" where
  "nextOperationId counter = (counter, counter + 1)"

text \<open>The constructor; \<open>lockedChannel\<close> says whether the weak pointer that is passed can be locked.\<close>

definition new_operation ::
  "('i, 'm, 'w) grpc_channel \<Rightarrow> bool \<Rightarrow> rpc_descriptor \<Rightarrow> common_options \<Rightarrow> 64 word \<Rightarrow> 'w \<Rightarrow> ('m, 'w) operation" where
  "new_operation gc lockedChannel rpc opts oid w =
     (let op = \<lparr>op_rpc = rpc, op_state = InvalidOperation, op_data = [], op_channel = False,
                op_serializer = (if lockedChannel then gc_serializer gc else None), op_options = opts,
                op_operationId = oid, op_serverInitialMetadata = [], op_deprServerInitialMetadata = [],
                op_serverTrailingMetadata = [], op_bytesToWrite = 0, op_posted = [], op_world = w,
                op_client = [], op_requests = []\<rparr>
      in if \<not> lockedChannel
         then asyncFinishInvalid \<lparr>code = Aborted, message = ''Channel is not available''\<rparr> op
         else let op = op\<lparr>op_channel := True\<rparr>
              in if op_serializer op = None
                 then asyncFinishInvalid \<lparr>code = Aborted, message = ''Serializer is not available''\<rparr> op
                 else if \<not> gc_sameThread gc
                 then asyncFinishInvalid \<lparr>code = Aborted, message = ''RPC started from wrong thread''\<rparr> op
                 else op\<lparr>op_state := ValidOperation\<rparr>)"

definition serializationFailure :: "ser_error \<Rightarrow> string \<Rightarrow> grpc_status option" where
  "serializationFailure err errString =
     (if err = NoError then None
      else Some \<lparr>code = (if err = MessageTooLarge then ResourceExhausted else Internal),
                 message = ''Failed to serialize the message: '' @ errString\<rparr>)"

text \<open>The serializer is there: the operation is valid.\<close>

definition serializeInitialMessage ::
  "('i, 'm, 'w) grpc_channel \<Rightarrow> 'm message_serializer \<Rightarrow> 'm \<Rightarrow> ('m, 'w) operation \<Rightarrow>
   byte list option \<times> ('m, 'w) operation" where
  "serializeInitialMessage gc ser msg op =
     (case (if hasHandlerFor (gc_engine gc) StartCap
            then onStart (start_method (gc_methods gc)) (gc_engine gc) (msg, op_options op, op_world op)
            else (Proceed, msg, op_options op, op_world op)) of
        (cont, msg', opts, w) \<Rightarrow>
          let op = op\<lparr>op_options := opts, op_world := w\<rparr>
          in if cont = Drop
             then (None, op\<lparr>op_posted := op_posted op @
                     [\<lparr>code = Aborted, message = ''Interceptors dropped the call''\<rparr>]\<rparr>)
             else case ser_serialize ser msg' of
                    (bs, err, errString) \<Rightarrow>
                      (case serializationFailure err errString of
                         Some st \<Rightarrow> (None, asyncFinishInvalid st op)
                       | None \<Rightarrow> (Some bs, op)))"

text \<open>The part of \<open>initOperation\<close> that does not start the call on the channel.\<close>

definition initOperation ::
  "('i, 'm, 'w) grpc_channel \<Rightarrow> bool \<Rightarrow> rpc_descriptor \<Rightarrow> 'm \<Rightarrow> common_options \<Rightarrow> 64 word \<Rightarrow> 'w \<Rightarrow>
   byte list option \<times> ('m, 'w) operation" where
  "initOperation gc lockedChannel rpc arg opts oid w =
     (let op = new_operation gc lockedChannel rpc opts oid w
      in if op_state op \<noteq> ValidOperation then (None, op)
         else case op_serializer op of
                None \<Rightarrow> (None, op)
              | Some ser \<Rightarrow> serializeInitialMessage gc ser arg op)"

subsection \<open>What the client does\<close>

definition read_message :: "'m \<Rightarrow> ('m, 'w) operation \<Rightarrow> (bool \<times> 'm) run" where
  "read_message msg op =
     (case op_serializer op of
        None \<Rightarrow> Ret (False, msg)
      | Some ser \<Rightarrow> ser_deserialize ser msg (op_data op))"

definition op_cancel :: "('i, 'm, 'w) grpc_channel \<Rightarrow> ('m, 'w) operation \<Rightarrow> ('m, 'w) operation" where
  "op_cancel gc op =
     (if isFinished op then op
      else if \<not> op_channel op then op
      else send_request RequestCancel (op\<lparr>op_world := intercept gc CancelCap cancel_method (op_world op)\<rparr>))"

definition op_writeMessage ::
  "('i, 'm, 'w) grpc_channel \<Rightarrow> 'm \<Rightarrow> ('m, 'w) operation \<Rightarrow> ('m, 'w) operation" where
  "op_writeMessage gc msg op =
     (if \<not> op_channel op then op
      else case intercept gc WriteMessageCap writeMessage_method (msg, op_world op) of
             (msg', w) \<Rightarrow>
               let op = op\<lparr>op_world := w\<rparr>
               in case op_serializer op of
                    None \<Rightarrow> send_request NullSerializer op
                  | Some ser \<Rightarrow>
                      (case ser_serialize ser msg' of
                         (bs, err, errString) \<Rightarrow>
                           (case serializationFailure err errString of
                              Some st \<Rightarrow> send_request RequestCancel (context_finished gc st op)
                            | None \<Rightarrow> send_request (RequestWrite bs) op)))"

definition op_writesDone :: "('i, 'm, 'w) grpc_channel \<Rightarrow> ('m, 'w) operation \<Rightarrow> ('m, 'w) operation" where
  "op_writesDone gc op =
     (if \<not> op_channel op then op
      else send_request RequestWritesDone (op\<lparr>op_world := intercept gc WritesDoneCap writesDone_method (op_world op)\<rparr>))"

end
