(* ===== verification/StreamCodec.thy ===== *)
theory StreamCodec
  imports ScalarRoundtrip
begin

text \<open>
  The contract of a codec of self-delimiting items in a byte stream, shared by the varints of the
  protobuf wire format and the length-prefixed messages of gRPC: what is encoded is decoded again
  whatever follows, more input does not change what was decoded, and decoding consumes input. From
  the contract alone follows that a stream of items is decoded item by item, and that it does not
  matter into which chunks the transport cuts the stream.
\<close>

subsection \<open>Decoding a stream\<close>

fun decode_fuel :: "('b list \<Rightarrow> ('a \<times> 'b list) option) \<Rightarrow> nat \<Rightarrow> 'b list \<Rightarrow> 'a list \<times> 'b list" where
  "decode_fuel dec 0 bs = ([], bs)"
| "decode_fuel dec (Suc n) bs =
     (case dec bs of
        None \<Rightarrow> ([], bs)
      | Some (x, rest) \<Rightarrow> let (xs, r) = decode_fuel dec n rest in (x # xs, r))"

definition decode_all :: "('b list \<Rightarrow> ('a \<times> 'b list) option) \<Rightarrow> 'b list \<Rightarrow> 'a list \<times> 'b list" where
  "decode_all dec bs = decode_fuel dec (length bs) bs"

text \<open>A decoder that keeps what it could not decode yet, and gets its input in chunks.\<close>

fun decode_chunks ::
  "('b list \<Rightarrow> ('a \<times> 'b list) option) \<Rightarrow> 'b list \<Rightarrow> 'b list list \<Rightarrow> 'a list \<times> 'b list" where
  "decode_chunks dec buffer [] = ([], buffer)"
| "decode_chunks dec buffer (c # cs) =
     (let (xs, r) = decode_all dec (buffer @ c); (ys, r') = decode_chunks dec r cs in (xs @ ys, r'))"

locale stream_codec =
  fixes enc :: "'a \<Rightarrow> 'b list" and dec :: "'b list \<Rightarrow> ('a \<times> 'b list) option" and ok :: "'a \<Rightarrow> bool"
  assumes dec_enc: "ok x \<Longrightarrow> dec (enc x @ rest) = Some (x, rest)"
    and dec_more: "dec bs = Some (x, rest) \<Longrightarrow> dec (bs @ ext) = Some (x, rest @ ext)"
    and dec_consumes: "dec bs = Some (x, rest) \<Longrightarrow> length rest < length bs"
begin

lemma enc_nonempty: "ok x \<Longrightarrow> enc x \<noteq> []"
  using dec_enc [of x "[]"] dec_consumes [of "enc x" x "[]"] by auto

lemma decode_fuel_enough:
  "length bs \<le> n \<Longrightarrow> decode_fuel dec n bs = decode_all dec bs"
proof (induction n arbitrary: bs rule: less_induct)
  case (less n)
  show ?case
  proof (cases "dec bs")
    case None
    then show ?thesis
      by (cases n; cases "length bs") (simp_all add: decode_all_def)
  next
    case (Some y)
    then obtain x rest where y: "dec bs = Some (x, rest)" by (cases y) auto
    from dec_consumes [OF this] obtain k where k: "length bs = Suc k" "length rest \<le> k"
      by (cases "length bs") auto
    with less.prems obtain n' where n': "n = Suc n'" by (cases n) auto
    from n' k less have "decode_fuel dec n' rest = decode_all dec rest" by simp
    moreover from n' k less have "decode_fuel dec k rest = decode_all dec rest" by simp
    ultimately show ?thesis by (simp add: n' decode_all_def [of dec bs] k(1) y)
  qed
qed

lemma decode_all_None: "dec bs = None \<Longrightarrow> decode_all dec bs = ([], bs)"
  by (cases "length bs") (simp_all add: decode_all_def)

lemma decode_all_Some:
  assumes "dec bs = Some (x, rest)"
  shows "decode_all dec bs = (x # fst (decode_all dec rest), snd (decode_all dec rest))"
proof -
  from dec_consumes [OF assms] obtain k where k: "length bs = Suc k" "length rest \<le> k"
    by (cases "length bs") auto
  from decode_fuel_enough [OF k(2)] show ?thesis
    by (simp add: decode_all_def [of dec bs] k(1) assms split_beta)
qed

lemma decode_all_encoded:
  "\<forall>x \<in> set xs. ok x \<Longrightarrow>
   decode_all dec (concat (map enc xs) @ rest) =
     (xs @ fst (decode_all dec rest), snd (decode_all dec rest))"
proof (induction xs)
  case (Cons x xs)
  then have "dec (concat (map enc (x # xs)) @ rest) = Some (x, concat (map enc xs) @ rest)"
    by (simp add: dec_enc)
  from decode_all_Some [OF this] Cons show ?case by simp
qed simp

lemma decode_all_append:
  "decode_all dec (a @ b) =
     (fst (decode_all dec a) @ fst (decode_all dec (snd (decode_all dec a) @ b)),
      snd (decode_all dec (snd (decode_all dec a) @ b)))"
proof (induction a rule: length_induct)
  case (1 a)
  show ?case
  proof (cases "dec a")
    case None
    then show ?thesis by (simp add: decode_all_None)
  next
    case (Some y)
    then obtain x rest where y: "dec a = Some (x, rest)" by (cases y) auto
    from 1 dec_consumes [OF y] have IH: "decode_all dec (rest @ b) =
        (fst (decode_all dec rest) @ fst (decode_all dec (snd (decode_all dec rest) @ b)),
         snd (decode_all dec (snd (decode_all dec rest) @ b)))" by blast
    from decode_all_Some [OF y] decode_all_Some [OF dec_more [OF y, of b]] IH show ?thesis by simp
  qed
qed

lemma decode_all_idle: "dec (snd (decode_all dec bs)) = None"
proof (induction bs rule: length_induct)
  case (1 bs)
  show ?case
  proof (cases "dec bs")
    case None
    then show ?thesis by (simp add: decode_all_None)
  next
    case (Some y)
    then obtain x rest where y: "dec bs = Some (x, rest)" by (cases y) auto
    with 1 dec_consumes [OF y] show ?thesis by (simp add: decode_all_Some [OF y])
  qed
qed

text \<open>The cut of the stream into chunks does not matter.\<close>

lemma decode_chunks_concat:
  "dec buffer = None \<Longrightarrow> decode_chunks dec buffer cs = decode_all dec (buffer @ concat cs)"
proof (induction cs arbitrary: buffer)
  case Nil
  then show ?case by (simp add: decode_all_None)
next
  case (Cons c cs)
  let ?r = "snd (decode_all dec (buffer @ c))"
  have "decode_chunks dec ?r cs = decode_all dec (?r @ concat cs)"
    using decode_all_idle by (rule Cons.IH)
  then show ?case
    using decode_all_append [of "buffer @ c" "concat cs"]
    by (simp add: Let_def split_beta)
qed

end

subsection \<open>Varints\<close>

text \<open>The varint reader on a list of bytes: the value and the bytes that it leaves.\<close>

definition varint_dec :: "platform \<Rightarrow> byte list \<Rightarrow> (64 word \<times> byte list) option" where
  "varint_dec p bs =
     (case (deserializeVarintCommon p (fromView bs) :: 64 word outcome) of
        Got v it \<Rightarrow> Some (v, remaining it)
      | _ \<Rightarrow> None)"

lemma remaining_step:
  "bytesLeft it \<noteq> 0 \<Longrightarrow> remaining it = it_deref p it # remaining (it_inc it)"
  by (auto simp: bytesLeft_def isValid_def remaining_def it_deref_def it_inc_def container_end_def
      nat_add_distrib Cons_nth_drop_Suc split: if_splits)

lemma varint_loop_more:
  "varint_loop p it v k = Got r it' \<Longrightarrow>
   varint_loop p (it\<lparr>it_view := it_view it @ ext\<rparr>) v k = Got r (it'\<lparr>it_view := it_view it' @ ext\<rparr>)"
proof (induction p it v k rule: varint_loop.induct)
  case (1 p it v k)
  let ?it = "it\<lparr>it_view := it_view it @ ext\<rparr>"
  from 1(2) have left: "bytesLeft it \<noteq> 0" and k: "\<not> 64 \<le> k"
    by (subst (asm) varint_loop.simps; simp split: if_splits)+
  from left have left': "bytesLeft ?it \<noteq> 0" and deref: "it_deref p ?it = it_deref p it"
    and inc: "it_inc ?it = (it_inc it)\<lparr>it_view := it_view (it_inc it) @ ext\<rparr>"
    by (auto simp: bytesLeft_def isValid_def container_end_def it_deref_def it_inc_def nth_append
        split: if_splits)
  show ?case
  proof (cases "it_deref p it AND 128 = 0")
    case True
    with 1(2) left k have "Got r it' = Got (v + push_bit k (ucast (it_deref p it AND 127))) (it_inc it)"
      by (subst (asm) varint_loop.simps) (simp add: Let_def)
    with True left' k show ?thesis
      by (subst varint_loop.simps) (simp add: Let_def deref inc)
  next
    case False
    with 1(2) left k have
      "varint_loop p (it_inc it) (v + push_bit k (ucast (it_deref p it AND 127))) (k + 7) = Got r it'"
      by (subst (asm) varint_loop.simps) (simp add: Let_def)
    from 1(1) [OF left k refl refl refl False this] False left' k show ?thesis
      by (subst varint_loop.simps) (simp add: Let_def deref inc)
  qed
qed

lemma varint_dec_Some:
  assumes "varint_dec p bs = Some (v, rest)"
  obtains it where "varint_loop p (fromView bs) 0 0 = Got v it" and "rest = remaining it"
    and "isValid it" and "it_view it = bs" and "bytesLeft it < int (length bs)"
proof -
  from assms obtain it where it: "(deserializeVarintCommon p (fromView bs) :: 64 word outcome) = Got v it"
    and rest: "rest = remaining it"
    by (auto simp: varint_dec_def split: outcome.splits)
  from it have "varint_loop p (fromView bs) 0 0 = Got v it"
    by (cases "varint_loop p (fromView bs) 0 0") (simp_all add: deserializeVarintCommon_def)
  moreover have left: "bytesLeft (fromView bs) = int (length bs)" by (simp add: bytesLeft_remaining)
  moreover from it deserializeVarintCommon_advances [of "fromView bs" p, where ?'a = 64]
  have "isValid it \<and> it_view it = bs \<and> bytesLeft it < bytesLeft (fromView bs)"
    by (auto simp: advances_def fromView_def)
  ultimately show ?thesis using rest that by simp
qed

interpretation varint: stream_codec serializeVarintCommonImpl "varint_dec p" "\<lambda>v. True" for p
proof
  fix v :: "64 word" and rest :: "byte list"
  have "deserializeVarintCommon p (fromView (serializeVarintCommonImpl v @ rest)) =
      Got v (at_bytes (serializeVarintCommonImpl v) [] rest)"
    unfolding fromView_at_bytes by (simp add: deserializeVarint_serialized)
  then show "varint_dec p (serializeVarintCommonImpl v @ rest) = Some (v, rest)"
    by (simp add: varint_dec_def remaining_def at_bytes_def)
next
  fix bs rest ext :: "byte list" and v
  assume "varint_dec p bs = Some (v, rest)"
  then obtain it where l: "varint_loop p (fromView bs) 0 0 = Got v it" and it: "rest = remaining it"
    "isValid it" "it_view it = bs" by (rule varint_dec_Some)
  from varint_loop_more [OF l, of ext] have
    "varint_loop p (fromView (bs @ ext)) 0 0 = Got v (it\<lparr>it_view := bs @ ext\<rparr>)"
    by (simp add: fromView_def it(3))
  then have "varint_dec p (bs @ ext) = Some (v, remaining (it\<lparr>it_view := bs @ ext\<rparr>))"
    by (simp add: varint_dec_def deserializeVarintCommon_def)
  moreover have "remaining (it\<lparr>it_view := bs @ ext\<rparr>) = rest @ ext"
    using it by (auto simp: remaining_def isValid_def container_end_def nat_le_iff)
  ultimately show "varint_dec p (bs @ ext) = Some (v, rest @ ext)" by simp
next
  fix bs rest :: "byte list" and v
  assume "varint_dec p bs = Some (v, rest)"
  then obtain it where "rest = remaining it" "isValid it" "bytesLeft it < int (length bs)"
    by (rule varint_dec_Some)
  then show "length rest < length bs" by (simp add: bytesLeft_remaining)
qed

end
