(* ===== verification/GrpcFraming.thy ===== *)
theory GrpcFraming
  imports StreamCodec GrpcOptions
begin

text \<open>
  The length-prefixed messages of gRPC (src/src/grpc/qgrpchttp2channel.cpp, the classes
  \<open>GrpcDataParser\<close> and \<open>GrpcCompressionHelper\<close>, and the part of \<open>Http2Handler::writeMessage\<close> that
  builds a message): a flag byte, the size in four bytes, the highest first, and the payload. The
  compression itself is zlib, a parameter.
\<close>

subsection \<open>Constants\<close>

definition GrpcMessageSizeHeaderSize :: nat where "GrpcMessageSizeHeaderSize = 5"
definition GrpcCompressedFlag :: byte where "GrpcCompressedFlag = 1"

text \<open>The minimum of the largest \<open>quint32\<close> and the largest \<open>qsizetype\<close> without the header.\<close>

definition GrpcMaxPayloadSize :: "32 word" where
  "GrpcMaxPayloadSize =
     of_int (min (2 ^ 32 - 1) (2 ^ 63 - 1 - int GrpcMessageSizeHeaderSize))"

definition CompressionMinPayloadBytes :: nat where "CompressionMinPayloadBytes = 30"

subsection \<open>The parser\<close>

record data_parser =
  maxReceiveSize :: "32 word"
  container :: "byte list"

datatype parse_result = Frame "byte list" bool | NeedMoreData | Oversize "32 word"

definition from_big_endian :: "byte list \<Rightarrow> 'a::len word" where
  "from_big_endian bs = of_le_bytes (rev bs)"

definition to_big_endian :: "nat \<Rightarrow> 'a::len word \<Rightarrow> byte list" where
  "to_big_endian n w = rev (le_bytes n w)"

definition new_parser :: "32 word \<Rightarrow> data_parser" where
  "new_parser maxSize = \<lparr>maxReceiveSize = maxSize, container = []\<rparr>"

definition parseNextFrame :: "data_parser \<Rightarrow> parse_result \<times> data_parser" where
  "parseNextFrame ps =
     (if length (container ps) < GrpcMessageSizeHeaderSize then (NeedMoreData, ps)
      else let messageLength = from_big_endian (take 4 (drop 1 (container ps)))
           in if maxReceiveSize ps < messageLength
              then (Oversize messageLength, ps\<lparr>container := []\<rparr>)
              else let frameSize = GrpcMessageSizeHeaderSize + unat messageLength
                   in if length (container ps) < frameSize then (NeedMoreData, ps)
                      else (Frame (take (unat messageLength) (drop GrpcMessageSizeHeaderSize (container ps)))
                              (hd (container ps) \<noteq> 0),
                            ps\<lparr>container := drop frameSize (container ps)\<rparr>))"

definition feed :: "byte list \<Rightarrow> data_parser \<Rightarrow> data_parser" where
  "feed bs ps = ps\<lparr>container := container ps @ bs\<rparr>"

definition bytesAvailable :: "data_parser \<Rightarrow> nat" where
  "bytesAvailable ps = length (container ps)"

subsection \<open>Compression\<close>

text \<open>
  What the helper uses of zlib: whether \<open>deflateInit2\<close> and \<open>deflateReset\<close> succeed, and the outcome of
  \<open>deflate(Z_FINISH)\<close> on an input and an output buffer of a given size.
\<close>

datatype deflate_outcome = Z_stream_end "byte list" | Z_ok_or_buf_error | Z_other

record zlib =
  deflateInit_ok :: "compression_algorithm \<Rightarrow> bool"
  deflateReset_ok :: "compression_algorithm \<Rightarrow> bool"
  deflate_finish :: "compression_algorithm \<Rightarrow> byte list \<Rightarrow> nat \<Rightarrow> deflate_outcome"

record compression_helper =
  ch_algo :: compression_algorithm
  ch_needsReset :: bool

datatype compress_result = Compressed "byte list" | Skipped | Broken

definition create_helper :: "zlib \<Rightarrow> compression_algorithm \<Rightarrow> compression_helper option" where
  "create_helper z algo =
     (if deflateInit_ok z algo then Some \<lparr>ch_algo = algo, ch_needsReset = False\<rparr> else None)"

definition tryCompressMessage ::
  "zlib \<Rightarrow> byte list \<Rightarrow> compression_helper \<Rightarrow> compress_result \<times> compression_helper" where
  "tryCompressMessage z data h =
     (if ch_needsReset h \<and> \<not> deflateReset_ok z (ch_algo h) then (Broken, h)
      else let h' = h\<lparr>ch_needsReset := True\<rparr>
           in case deflate_finish z (ch_algo h) data (length data) of
                Z_stream_end bs \<Rightarrow> (Compressed bs, h')
              | Z_ok_or_buf_error \<Rightarrow> (Skipped, h')
              | Z_other \<Rightarrow> (Broken, h'))"

subsection \<open>Building a message\<close>

definition frame_message :: "byte \<Rightarrow> byte list \<Rightarrow> byte list" where
  "frame_message compressedFlag payload =
     compressedFlag # to_big_endian 4 (of_nat (length payload) :: 32 word) @ payload"

text \<open>The compression attempt of \<open>writeMessage\<close>: flag, payload, and the helper for the next message.\<close>

definition compress_payload ::
  "zlib \<Rightarrow> compression_algorithm \<Rightarrow> byte list \<Rightarrow> compression_helper option \<Rightarrow>
   byte \<times> byte list \<times> compression_helper option" where
  "compress_payload z encoding data compressor =
     (if encoding \<noteq> Identity \<and> CompressionMinPayloadBytes \<le> length data then
        (case (case compressor of Some h \<Rightarrow> Some h | None \<Rightarrow> create_helper z encoding) of
           None \<Rightarrow> (0, data, None)
         | Some h \<Rightarrow>
             (case tryCompressMessage z data h of
                (Compressed bs, h') \<Rightarrow> (GrpcCompressedFlag, bs, Some h')
              | (Skipped, h') \<Rightarrow> (0, data, Some h')
              | (Broken, h') \<Rightarrow> (0, data, None)))
      else (0, data, compressor))"

definition build_message ::
  "zlib \<Rightarrow> compression_algorithm \<Rightarrow> byte list \<Rightarrow> compression_helper option \<Rightarrow>
   byte list \<times> compression_helper option" where
  "build_message z encoding data compressor =
     (case compress_payload z encoding data compressor of
        (flag, payload, compressor') \<Rightarrow> (frame_message flag payload, compressor'))"

subsection \<open>Framing is a stream codec\<close>

text \<open>A frame as the parser sees it, and the parser on a list of bytes.\<close>

definition frame_dec :: "32 word \<Rightarrow> byte list \<Rightarrow> ((byte list \<times> bool) \<times> byte list) option" where
  "frame_dec maxSize bs =
     (case parseNextFrame \<lparr>maxReceiveSize = maxSize, container = bs\<rparr> of
        (Frame payload compressed, ps) \<Rightarrow> Some ((payload, compressed), container ps)
      | _ \<Rightarrow> None)"

definition frame_enc :: "byte list \<times> bool \<Rightarrow> byte list" where
  "frame_enc f = frame_message (if snd f then GrpcCompressedFlag else 0) (fst f)"

definition frame_ok :: "32 word \<Rightarrow> byte list \<times> bool \<Rightarrow> bool" where
  "frame_ok maxSize f \<longleftrightarrow> length (fst f) \<le> unat maxSize"

lemma length_to_big_endian [simp]: "length (to_big_endian n w) = n"
  by (simp add: to_big_endian_def)

lemma from_to_big_endian [simp]: "from_big_endian (to_big_endian 4 (w :: 32 word)) = w"
  by (simp add: from_big_endian_def to_big_endian_def of_le_le_bytes take_bit_word_eq_self)

lemma frame_dec_frame:
  assumes "length payload \<le> unat maxSize"
  shows "frame_dec maxSize (frame_message flag payload @ rest) = Some ((payload, flag \<noteq> 0), rest)"
proof -
  have "unat maxSize < 2 ^ LENGTH(32)" by (rule unsigned_less)
  with assms have "length payload < 2 ^ 32" by simp
  then have len: "unat (of_nat (length payload) :: 32 word) = length payload"
    by (simp add: unsigned_of_nat take_bit_nat_eq_self)
  then have "\<not> maxSize < of_nat (length payload)"
    using assms by (simp add: word_less_nat_alt)
  then show ?thesis
    by (simp add: frame_dec_def parseNextFrame_def frame_message_def GrpcMessageSizeHeaderSize_def len Let_def
        drop_Cons')
qed

lemma frame_dec_unfold:
  "frame_dec maxSize bs = Some ((payload, compressed), rest) \<longleftrightarrow>
     5 \<le> length bs \<and>
     (let n = from_big_endian (take 4 (drop 1 bs)) :: 32 word
      in n \<le> maxSize \<and> 5 + unat n \<le> length bs \<and> payload = take (unat n) (drop 5 bs) \<and>
         compressed = (hd bs \<noteq> 0) \<and> rest = drop (5 + unat n) bs)"
  by (auto simp: frame_dec_def parseNextFrame_def GrpcMessageSizeHeaderSize_def Let_def not_less
      split: if_splits)

lemma parseNextFrame_Frame:
  "frame_dec maxSize bs = Some ((payload, compressed), rest) \<Longrightarrow>
   parseNextFrame \<lparr>maxReceiveSize = maxSize, container = bs\<rparr> =
     (Frame payload compressed, \<lparr>maxReceiveSize = maxSize, container = rest\<rparr>)"
  by (auto simp: frame_dec_def parseNextFrame_def Let_def split: if_splits)

interpretation grpc_frame: stream_codec frame_enc "frame_dec maxSize" "frame_ok maxSize" for maxSize
proof
  fix f :: "byte list \<times> bool" and rest :: "byte list"
  assume "frame_ok maxSize f"
  then show "frame_dec maxSize (frame_enc f @ rest) = Some (f, rest)"
    by (cases f) (simp add: frame_ok_def frame_enc_def frame_dec_frame GrpcCompressedFlag_def)
next
  fix bs rest ext :: "byte list" and f
  assume "frame_dec maxSize bs = Some (f, rest)"
  then show "frame_dec maxSize (bs @ ext) = Some (f, rest @ ext)"
    by (cases f; cases bs) (auto simp: frame_dec_unfold Let_def drop_Cons' eval_nat_numeral)
next
  fix bs rest :: "byte list" and f
  assume "frame_dec maxSize bs = Some (f, rest)"
  then show "length rest < length bs"
    by (cases f) (auto simp: frame_dec_unfold Let_def)
qed

lemma decode_all_frames:
  "\<forall>f \<in> set fs. length (fst f) \<le> unat maxSize \<Longrightarrow>
   decode_all (frame_dec maxSize) (concat (map frame_enc fs)) = (fs, [])"
  using grpc_frame.decode_all_encoded [of fs maxSize "[]"]
  by (simp add: frame_ok_def decode_all_def)

subsection \<open>Building and parsing\<close>

text \<open>zlib as documented: what \<open>deflate\<close> returns fits the output buffer and inflates to its input.\<close>

definition zlib_inverse :: "zlib \<Rightarrow> (compression_algorithm \<Rightarrow> byte list \<Rightarrow> byte list) \<Rightarrow> bool" where
  "zlib_inverse z inflate \<longleftrightarrow>
     (\<forall>a d n bs. deflate_finish z a d n = Z_stream_end bs \<longrightarrow> length bs \<le> n \<and> inflate a bs = d)"

definition helper_for :: "compression_algorithm \<Rightarrow> compression_helper option \<Rightarrow> bool" where
  "helper_for encoding c \<longleftrightarrow> (\<forall>h. c = Some h \<longrightarrow> ch_algo h = encoding)"

lemma helper_for_build:
  "helper_for encoding c \<Longrightarrow> helper_for encoding (snd (build_message z encoding bs c))"
  by (auto simp: helper_for_def build_message_def compress_payload_def tryCompressMessage_def
      create_helper_def Let_def split: option.splits prod.splits if_splits deflate_outcome.splits)

lemma compress_payload_cases:
  assumes "zlib_inverse z inflate" and "helper_for encoding c"
  shows "case compress_payload z encoding bs c of (flag, payload, c') \<Rightarrow>
           length payload \<le> length bs \<and> (if flag \<noteq> 0 then inflate encoding payload else payload) = bs \<and>
           (flag \<noteq> 0 \<longrightarrow> encoding \<noteq> Identity)"
  using assms
  by (auto simp: compress_payload_def tryCompressMessage_def create_helper_def Let_def helper_for_def
      zlib_inverse_def GrpcCompressedFlag_def
      split: option.splits prod.splits if_splits deflate_outcome.splits)

text \<open>C31: what \<open>writeMessage\<close> puts on the stream for a message, compressed or not, is read back by
  the parser of the receiver as one frame, whatever bytes follow it, when the message is not longer
  than the receive limit: the payload is not longer than the message, and it is the message itself,
  or inflates to it when the frame says that it is compressed.\<close>

theorem message_frame_roundtrip:
  assumes "zlib_inverse z inflate" and "helper_for encoding c"
    and "length bs \<le> unat (maxReceiveSize ps)" and "container ps = []"
  shows "\<exists>payload compressed.
    parseNextFrame (feed (fst (build_message z encoding bs c) @ rest) ps) =
      (Frame payload compressed, ps\<lparr>container := rest\<rparr>) \<and>
    length payload \<le> length bs \<and>
    (if compressed then inflate encoding payload else payload) = bs"
proof -
  obtain flag payload c' where p: "compress_payload z encoding bs c = (flag, payload, c')"
    by (cases "compress_payload z encoding bs c") auto
  with compress_payload_cases [OF assms(1,2), of bs]
  have len: "length payload \<le> length bs"
    and eq: "(if flag \<noteq> 0 then inflate encoding payload else payload) = bs" by auto
  have "frame_dec (maxReceiveSize ps) (frame_message flag payload @ rest) = Some ((payload, flag \<noteq> 0), rest)"
    using len assms(3) by (intro frame_dec_frame) simp
  from parseNextFrame_Frame [OF this]
  have "parseNextFrame \<lparr>maxReceiveSize = maxReceiveSize ps, container = frame_message flag payload @ rest\<rparr> =
      (Frame payload (flag \<noteq> 0), \<lparr>maxReceiveSize = maxReceiveSize ps, container = rest\<rparr>)" .
  moreover have "feed (fst (build_message z encoding bs c) @ rest) ps =
      \<lparr>maxReceiveSize = maxReceiveSize ps, container = frame_message flag payload @ rest\<rparr>"
    using assms(4) by (cases ps) (simp add: feed_def build_message_def p)
  ultimately show ?thesis using len eq by (cases ps) auto
qed

text \<open>A stand-in for zlib that drops a run of zeros at the end.\<close>

definition demo_deflate :: "byte list \<Rightarrow> byte list" where
  "demo_deflate bs = of_nat (length bs) # rev (dropWhile (\<lambda>b. b = 0) (rev bs))"

definition demo_inflate :: "byte list \<Rightarrow> byte list" where
  "demo_inflate bs =
     (case bs of [] \<Rightarrow> [] | n # xs \<Rightarrow> xs @ replicate (unat n - length xs) 0)"

definition demo_zlib :: zlib where
  "demo_zlib =
     \<lparr>deflateInit_ok = (\<lambda>_. True), deflateReset_ok = (\<lambda>_. True),
      deflate_finish = (\<lambda>_ bs n. if length bs < 256 \<and> length (demo_deflate bs) \<le> n
                                then Z_stream_end (demo_deflate bs) else Z_ok_or_buf_error)\<rparr>"

lemma demo_inflate_deflate: "length bs < 256 \<Longrightarrow> demo_inflate (demo_deflate bs) = bs"
proof -
  assume "length bs < 256"
  then have len: "unat (of_nat (length bs) :: byte) = length bs"
    by (simp add: unsigned_of_nat take_bit_nat_eq_self)
  define z where "z = takeWhile (\<lambda>b. b = 0) (rev bs)"
  define r where "r = dropWhile (\<lambda>b. b = 0) (rev bs)"
  have "rev bs = z @ r" by (simp add: z_def r_def)
  then have bs: "bs = rev r @ rev z" by (metis rev_append rev_rev_ident)
  have z: "rev z = replicate (length z) 0"
    by (rule replicate_eqI) (auto simp: z_def dest: set_takeWhileD)
  have "length bs - length (rev r) = length z" by (simp add: bs)
  with z have "rev r @ replicate (length bs - length (rev r)) 0 = bs" by (simp add: bs)
  then show ?thesis by (simp add: demo_inflate_def demo_deflate_def len r_def)
qed

lemma demo_zlib_inverse: "zlib_inverse demo_zlib (\<lambda>_. demo_inflate)"
  by (auto simp: zlib_inverse_def demo_zlib_def demo_inflate_deflate split: if_splits)

theorem message_frame_roundtrip_witness:
  "zlib_inverse demo_zlib (\<lambda>_. demo_inflate) \<and>
   (\<exists>payload compressed.
      parseNextFrame (feed (fst (build_message demo_zlib Gzip (replicate 40 0) None) @ [7]) (new_parser 100)) =
        (Frame payload compressed, (new_parser 100)\<lparr>container := [7]\<rparr>) \<and>
      length payload \<le> length (replicate 40 (0 :: byte)) \<and>
      (if compressed then demo_inflate payload else payload) = replicate 40 0)"
  using message_frame_roundtrip [of demo_zlib "\<lambda>_. demo_inflate" Gzip None "replicate 40 0" "new_parser 100" "[7]",
      OF demo_zlib_inverse]
  by (simp add: demo_zlib_inverse helper_for_def new_parser_def)

text \<open>the receive limit: the parser never delivers a payload longer than the limit, and it
  rejects a frame exactly when its header is complete and declares more than the limit, before
  any of the payload has arrived; it then forgets what it had buffered.\<close>

theorem parser_enforces_limit:
  "case parseNextFrame ps of
     (Frame payload compressed, ps') \<Rightarrow>
       length payload \<le> unat (maxReceiveSize ps) \<and>
       container ps = take 5 (container ps) @ payload @ container ps'
   | (NeedMoreData, ps') \<Rightarrow>
       ps' = ps \<and>
       (length (container ps) < 5 \<or>
        unat (from_big_endian (take 4 (drop 1 (container ps))) :: 32 word) \<le> unat (maxReceiveSize ps))
   | (Oversize n, ps') \<Rightarrow>
       5 \<le> length (container ps) \<and> n = from_big_endian (take 4 (drop 1 (container ps))) \<and>
       unat (maxReceiveSize ps) < unat n \<and> container ps' = []"
proof -
  have pieces: "take (k :: nat) xs @ take m (drop k xs) @ drop (k + m) xs = xs" for k m and xs :: "byte list"
    by (metis append_take_drop_id drop_drop add.commute)
  show ?thesis
    by (auto simp: parseNextFrame_def GrpcMessageSizeHeaderSize_def Let_def not_less word_less_nat_alt
        word_le_nat_alt pieces)
qed

end
