(* ===== verification/Http2Handler.thy ===== *)
theory Http2Handler
  imports GrpcFraming
begin

text \<open>
  One call on an HTTP/2 stream: the class \<open>Http2Handler\<close> of src/src/grpc/qgrpchttp2channel.cpp. The
  handler is a record of its members; every slot and every method is a function on it. What a
  handler does to the outside (signals of the operation context, calls of the stream, posted
  events) is appended to \<open>h_effects\<close>, in order. The stream of QtNetwork, zlib, the decompressor and
  the conversions of QtCore are the parameter \<open>net\<close>. Signals are delivered one after the other: a
  slot of the user that calls back into the handler while it runs is not modelled, but the signals
  that \<open>sendDATA\<close> emits before it returns are.
\<close>

subsection \<open>Parameters\<close>

type_synonym header = "string \<times> string"

datatype stream_state =
  StreamIdle | ReservedRemote | Open | HalfClosedLocal | HalfClosedRemote | StreamClosed

datatype stream_signal = BytesWritten nat | UploadFinished

text \<open>
  \<open>inflate_reads enc payload\<close> are the results of the calls of \<open>read\<close> on the decompressor while it has
  data, \<open>None\<close> for an error.
\<close>

record 's net =
  stream_state :: "'s \<Rightarrow> stream_state"
  isUploadingDATA :: "'s \<Rightarrow> bool"
  sendHEADERS :: "'s \<Rightarrow> header list \<Rightarrow> bool \<Rightarrow> bool \<times> 's"
  sendDATA :: "'s \<Rightarrow> byte list \<Rightarrow> bool \<Rightarrow> bool \<times> stream_signal list \<times> 's"
  sendRST_STREAM :: "'s \<Rightarrow> bool \<times> 's"
  net_zlib :: zlib
  setEncoding :: "string \<Rightarrow> bool"
  inflate_reads :: "string \<Rightarrow> byte list \<Rightarrow> byte list option list"
  inflate_errorString :: string
  toInt :: "string \<Rightarrow> int"
  toShort :: "string \<Rightarrow> int option"
  utf8_text :: "string \<Rightarrow> string"

subsection \<open>Constants and small functions\<close>

definition HttpStatusHeader :: string where "HttpStatusHeader = '':status''"
definition ContentTypeHeader :: string where "ContentTypeHeader = ''content-type''"
definition GrpcStatusHeader :: string where "GrpcStatusHeader = ''grpc-status''"
definition GrpcStatusMessageHeader :: string where "GrpcStatusMessageHeader = ''grpc-message''"
definition GrpcStatusDetailsHeader :: string where "GrpcStatusDetailsHeader = ''grpc-status-details-bin''"
definition GrpcAcceptEncodingHeader :: string where "GrpcAcceptEncodingHeader = ''grpc-accept-encoding''"
definition GrpcEncodingHeader :: string where "GrpcEncodingHeader = ''grpc-encoding''"
definition DefaultContentType :: string where "DefaultContentType = ''application/grpc''"
definition QueuedBytesWarningThreshold :: "64 word" where
  "QueuedBytesWarningThreshold = 16 * 1024 * 1024"
definition DefaultMaximumReceiveMessageSize :: "32 word" where
  "DefaultMaximumReceiveMessageSize = 4 * 1024 * 1024"

text \<open>ASCII lower case, prefixes and decimal numbers.\<close>

definition ascii_lower_char :: "char \<Rightarrow> char" where
  "ascii_lower_char c =
     (let n = (of_char c :: nat) in if 65 \<le> n \<and> n \<le> 90 then char_of (n + 32) else c)"

definition ascii_lower :: "string \<Rightarrow> string" where "ascii_lower = map ascii_lower_char"

definition startsWith :: "string \<Rightarrow> string \<Rightarrow> bool" where
  "startsWith s pre \<longleftrightarrow> take (length pre) s = pre"

fun decimal :: "nat \<Rightarrow> string" where
  "decimal n = (if n < 10 then [char_of (48 + n)] else decimal (n div 10) @ [char_of (48 + n mod 10)])"

declare decimal.simps [simp del]

text \<open>The error codes of RFC 9113, section 7.\<close>

definition http2ErrorToStatusCode :: "32 word \<Rightarrow> status_code" where
  "http2ErrorToStatusCode err =
     (if err = 0 \<or> err = 1 \<or> err = 2 \<or> err = 3 \<or> err = 4 \<or> err = 5 \<or> err = 6 then Internal
      else if err = 7 then Unavailable
      else if err = 8 then CancelledCode
      else if err = 9 \<or> err = 10 then Internal
      else if err = 11 then ResourceExhausted
      else if err = 12 then PermissionDenied
      else if err = 13 then Unknown
      else Internal)"

definition http2StatusToStatusCode :: "int \<Rightarrow> status_code" where
  "http2StatusToStatusCode s =
     (if s = 200 then Ok else if s = 400 then Internal else if s = 401 then Unauthenticated
      else if s = 403 then PermissionDenied else if s = 404 then Unimplemented
      else if s = 429 \<or> s = 502 \<or> s = 503 \<or> s = 504 then Unavailable else Unknown)"

definition isAcceptedEncoding :: "string \<Rightarrow> 32 word \<Rightarrow> bool" where
  "isAcceptedEncoding v accepted \<longleftrightarrow>
     v = ''identity'' \<or> v = ''gzip'' \<and> has_algorithm accepted Gzip \<or>
     v = ''deflate'' \<and> has_algorithm accepted Deflate"

definition requestEncodingName :: "compression_algorithm \<Rightarrow> string" where
  "requestEncodingName algo = (if algo = Gzip then ''gzip'' else ''deflate'')"

definition clampToRange :: "64 word \<Rightarrow> 32 word \<Rightarrow> 32 word \<Rightarrow> 32 word" where
  "clampToRange configured floor cap =
     (if ucast cap < configured then cap else if configured < ucast floor then floor
      else ucast configured)"

subsection \<open>The state of a handler\<close>

datatype handler_state = Idle | RequestHeadersSent | Active | Cancelled | Finished

datatype header_phase = InvalidPhase | Initial | Trailers | TrailersOnly

text \<open>The states are ordered as the enumerators are.\<close>

primrec state_rank :: "handler_state \<Rightarrow> nat" where
  "state_rank Idle = 0"
| "state_rank RequestHeadersSent = 1"
| "state_rank Active = 2"
| "state_rank Cancelled = 3"
| "state_rank Finished = 4"

instantiation handler_state :: linorder
begin

definition less_eq_handler_state :: "handler_state \<Rightarrow> handler_state \<Rightarrow> bool" where
  "less_eq_handler_state a b \<longleftrightarrow> state_rank a \<le> state_rank b"

definition less_handler_state :: "handler_state \<Rightarrow> handler_state \<Rightarrow> bool" where
  "less_handler_state a b \<longleftrightarrow> state_rank a < state_rank b"

instance
proof
  fix a b c :: handler_state
  show "a < b \<longleftrightarrow> a \<le> b \<and> \<not> b \<le> a"
    by (auto simp: less_eq_handler_state_def less_handler_state_def)
  show "a \<le> a" by (simp add: less_eq_handler_state_def)
  show "a \<le> b \<Longrightarrow> b \<le> c \<Longrightarrow> a \<le> c" by (simp add: less_eq_handler_state_def)
  show "a \<le> b \<Longrightarrow> b \<le> a \<Longrightarrow> a = b"
    by (cases a; cases b) (simp_all add: less_eq_handler_state_def)
  show "a \<le> b \<or> b \<le> a" by (auto simp: less_eq_handler_state_def)
qed

end

datatype effect =
  EmitFinished grpc_status | EmitMessageReceived "byte list" | EmitMessageWritten
| SetBytesToWrite "64 word" | SetServerInitialMetadata metadata | SetServerTrailingMetadata metadata
| CallHEADERS "header list" bool | CallDATA "byte list" bool bool | CallRST bool
| DeleteLater | NullDereference

text \<open>
  \<open>h_context\<close> says whether the operation context still exists, \<open>h_pendingWritten\<close> and
  \<open>h_pendingFinish\<close> hold the posted events, \<open>h_errorConnected\<close> the single shot connection. The part
  of the options that is read later is constant: the deadline and the accepted encodings.
\<close>

record 's http2_handler =
  h_context :: bool
  h_initialHeaders :: "header list"
  h_queue :: "byte list list"
  h_stream :: "'s option"
  h_parser :: data_parser
  h_negotiatedEncoding :: string
  h_decompressor :: "string option"
  h_compressor :: "compression_helper option"
  h_state :: handler_state
  h_endStreamAtFirstData :: bool
  h_writesDoneSent :: bool
  h_drainingQueue :: bool
  h_inFlightUserWrite :: bool
  h_queuedBytes :: "64 word"
  h_nextQueueWarnBytes :: "64 word"
  h_bytesToWrite :: "64 word"
  h_filterServerMetadata :: bool
  h_deadlineTimer :: bool
  h_requestEncoding :: compression_algorithm
  h_deadline :: "int option"
  h_accepted :: "32 word"
  h_errorConnected :: bool
  h_pendingWritten :: nat
  h_pendingFinish :: "grpc_status list"
  h_effects :: "effect list"

definition perform :: "effect \<Rightarrow> 's http2_handler \<Rightarrow> 's http2_handler" where
  "perform e h = h\<lparr>h_effects := h_effects h @ [e]\<rparr>"

definition isStreamClosedForSending :: "'s net \<Rightarrow> 's http2_handler \<Rightarrow> bool" where
  "isStreamClosedForSending net h \<longleftrightarrow>
     (case h_stream h of
        None \<Rightarrow> False
      | Some s \<Rightarrow> stream_state net s = HalfClosedLocal \<or> stream_state net s = StreamClosed)"

subsection \<open>Ending the call\<close>

definition handleContextExpired :: "'s http2_handler \<Rightarrow> bool \<times> 's http2_handler" where
  "handleContextExpired h =
     (if h_context h then (False, h) else (True, perform DeleteLater (h\<lparr>h_state := Cancelled\<rparr>)))"

definition finish :: "grpc_status \<Rightarrow> 's http2_handler \<Rightarrow> 's http2_handler" where
  "finish st h =
     (case handleContextExpired h of
        (True, h') \<Rightarrow> h'
      | (False, h') \<Rightarrow>
          if h_state h' = Finished then h'
          else let h' = (if h_state h' \<noteq> Cancelled then h'\<lparr>h_state := Finished\<rparr> else h')
               in perform DeleteLater (perform (EmitFinished st) (h'\<lparr>h_deadlineTimer := False\<rparr>)))"

definition asyncFinish :: "grpc_status \<Rightarrow> 's http2_handler \<Rightarrow> 's http2_handler" where
  "asyncFinish st h =
     (case handleContextExpired h of
        (True, h') \<Rightarrow> h'
      | (False, h') \<Rightarrow> h'\<lparr>h_pendingFinish := h_pendingFinish h' @ [st]\<rparr>)"

definition cancelWithStatus :: "'s net \<Rightarrow> grpc_status \<Rightarrow> 's http2_handler \<Rightarrow> 's http2_handler" where
  "cancelWithStatus net st h =
     (if Cancelled \<le> h_state h then h
      else let h = h\<lparr>h_state := Cancelled\<rparr>;
               h = (case h_stream h of
                      None \<Rightarrow> h
                    | Some s \<Rightarrow>
                        if stream_state net s \<noteq> StreamIdle
                        then (case sendRST_STREAM net s of
                                (ok, s') \<Rightarrow> perform (CallRST ok) (h\<lparr>h_stream := Some s'\<rparr>))
                        else h)
           in finish st h)"

definition cancel :: "'s net \<Rightarrow> 's http2_handler \<Rightarrow> 's http2_handler" where
  "cancel net = cancelWithStatus net \<lparr>code = CancelledCode, message = ''Cancelled by client''\<rparr>"

definition deadlineTimeout :: "'s net \<Rightarrow> 's http2_handler \<Rightarrow> 's http2_handler" where
  "deadlineTimeout net = cancelWithStatus net \<lparr>code = DeadlineExceeded, message = ''Deadline exceeded''\<rparr>"

subsection \<open>Sending\<close>

definition scheduleMessageWritten :: "'s http2_handler \<Rightarrow> 's http2_handler" where
  "scheduleMessageWritten h = h\<lparr>h_pendingWritten := h_pendingWritten h + 1\<rparr>"

text \<open>The lambda that \<open>scheduleMessageWritten\<close> posts.\<close>

definition deliverMessageWritten :: "'s http2_handler \<Rightarrow> 's http2_handler" where
  "deliverMessageWritten h =
     (let h = h\<lparr>h_pendingWritten := h_pendingWritten h - 1\<rparr>
      in if h_context h \<and> h_state h \<le> Active then perform EmitMessageWritten h else h)"

definition onBytesWritten :: "nat \<Rightarrow> 's http2_handler \<Rightarrow> 's http2_handler" where
  "onBytesWritten n h =
     (let h = h\<lparr>h_bytesToWrite := h_bytesToWrite h - of_nat n\<rparr>
      in if h_context h then perform (SetBytesToWrite (h_bytesToWrite h)) h else h)"

text \<open>The first statement of the slot of \<open>uploadFinished\<close>.\<close>

definition uploadFinished_head :: "'s http2_handler \<Rightarrow> 's http2_handler" where
  "uploadFinished_head h =
     (if h_inFlightUserWrite h then scheduleMessageWritten (h\<lparr>h_inFlightUserWrite := False\<rparr>) else h)"

text \<open>A signal that arrives while the queue is drained: the slot of \<open>uploadFinished\<close> returns early.\<close>

primrec drain_signal :: "stream_signal \<Rightarrow> 's http2_handler \<Rightarrow> 's http2_handler" where
  "drain_signal (BytesWritten n) h = onBytesWritten n h"
| "drain_signal UploadFinished h = uploadFinished_head h"

text \<open>The body of the loop of \<open>processQueue\<close>; the result says whether \<open>sendDATA\<close> accepted.\<close>

definition drain_step :: "'s net \<Rightarrow> 's \<Rightarrow> byte list \<Rightarrow> 's http2_handler \<Rightarrow> bool \<times> 's http2_handler" where
  "drain_step net s nextMessage h =
     (let h = h\<lparr>h_queue := tl (h_queue h),
                h_queuedBytes := h_queuedBytes h - of_nat (length nextMessage)\<rparr>;
          closeStream = (nextMessage = [] \<or> h_endStreamAtFirstData h);
          h = h\<lparr>h_inFlightUserWrite := \<not> closeStream\<rparr>
      in case sendDATA net s nextMessage closeStream of
           (ok, signals, s') \<Rightarrow>
             let h = fold drain_signal signals
                       (perform (CallDATA nextMessage closeStream ok) (h\<lparr>h_stream := Some s'\<rparr>))
             in if ok then (True, h) else (False, h\<lparr>h_inFlightUserWrite := False\<rparr>))"

lemma drain_signals_frame:
  "h_queue (fold drain_signal sigs h) = h_queue h \<and> h_stream (fold drain_signal sigs h) = h_stream h"
proof (induction sigs arbitrary: h)
  case (Cons sg sigs)
  have "h_queue (drain_signal sg h) = h_queue h \<and> h_stream (drain_signal sg h) = h_stream h"
    by (cases sg)
      (simp_all add: onBytesWritten_def uploadFinished_head_def scheduleMessageWritten_def perform_def Let_def)
  with Cons show ?case by simp
qed simp

lemma drain_step_queue: "h_queue (snd (drain_step net s m h)) = tl (h_queue h)"
  by (simp add: drain_step_def Let_def drain_signals_frame perform_def split: prod.split)

function drain :: "'s net \<Rightarrow> 's http2_handler \<Rightarrow> 's http2_handler" where
  "drain net h =
     (case (h_stream h, h_queue h) of
        (Some s, nextMessage # rest) \<Rightarrow>
          (case drain_step net s nextMessage h of
             (accepted, h') \<Rightarrow>
               if accepted \<and> (case h_stream h' of Some s' \<Rightarrow> \<not> isUploadingDATA net s' | None \<Rightarrow> False) \<and>
                  h_queue h' \<noteq> []
               then drain net h' else h')
      | _ \<Rightarrow> h)"
  by pat_completeness auto
termination
proof (relation "measure (\<lambda>(net, h). length (h_queue h))", goal_cases)
  case 1
  show ?case by simp
next
  case prems: 2
  then show ?case
    by (metis (no_types, lifting) case_prod_conv drain_step_queue in_measure length_Cons lessI
        list.sel(3) prod.inject snd_conv)
qed

declare drain.simps [simp del]

definition processQueue :: "'s net \<Rightarrow> 's http2_handler \<Rightarrow> 's http2_handler" where
  "processQueue net h =
     (case h_stream h of
        None \<Rightarrow> h
      | Some s \<Rightarrow>
          if h_state h = Idle then h
          else if isUploadingDATA net s then h
          else if h_queue h = [] then h
          else (drain net (h\<lparr>h_drainingQueue := True\<rparr>))\<lparr>h_drainingQueue := h_drainingQueue h\<rparr>)"

definition onUploadFinished :: "'s net \<Rightarrow> 's http2_handler \<Rightarrow> 's http2_handler" where
  "onUploadFinished net h =
     (let h = uploadFinished_head h in if h_drainingQueue h then h else processQueue net h)"

text \<open>The loop that doubles the threshold of the warning, at most as often as a 64-bit value allows.\<close>

primrec raise_threshold :: "nat \<Rightarrow> 64 word \<Rightarrow> 64 word \<Rightarrow> 64 word" where
  "raise_threshold 0 queued next_warn = next_warn"
| "raise_threshold (Suc n) queued next_warn =
     (if next_warn < queued then raise_threshold n queued (next_warn * 2) else next_warn)"

text \<open>The parts of \<open>writeMessage\<close> before and after \<open>processQueue\<close>.\<close>

definition enqueue_message :: "byte list \<Rightarrow> 's http2_handler \<Rightarrow> 's http2_handler" where
  "enqueue_message msg h =
     (let h = h\<lparr>h_queuedBytes := h_queuedBytes h + of_nat (length msg),
                h_bytesToWrite := h_bytesToWrite h + of_nat (length msg)\<rparr>;
          h = (if h_context h then perform (SetBytesToWrite (h_bytesToWrite h)) h else h)
      in h\<lparr>h_queue := h_queue h @ [msg]\<rparr>)"

definition warn_queue :: "'s http2_handler \<Rightarrow> 's http2_handler" where
  "warn_queue h =
     (if h_nextQueueWarnBytes h < h_queuedBytes h
      then h\<lparr>h_nextQueueWarnBytes := raise_threshold 64 (h_queuedBytes h) (h_nextQueueWarnBytes h)\<rparr>
      else h)"

definition writeMessage :: "'s net \<Rightarrow> byte list \<Rightarrow> 's http2_handler \<Rightarrow> 's http2_handler" where
  "writeMessage net data h =
     (if h_writesDoneSent h \<or> Active < h_state h \<or> isStreamClosedForSending net h then h
      else if uint GrpcMaxPayloadSize < int (length data)
      then finish \<lparr>code = ResourceExhausted,
                   message = ''Outgoing message size ('' @ decimal (length data) @
                     '' bytes) exceeds configured limit ('' @ decimal (unat GrpcMaxPayloadSize) @ '' bytes)''\<rparr> h
      else case build_message (net_zlib net) (h_requestEncoding h) data (h_compressor h) of
             (msg, compressor) \<Rightarrow>
               warn_queue (processQueue net (enqueue_message msg (h\<lparr>h_compressor := compressor\<rparr>))))"

definition writesDone :: "'s net \<Rightarrow> 's http2_handler \<Rightarrow> 's http2_handler" where
  "writesDone net h =
     (if h_writesDoneSent h \<or> Active < h_state h then h
      else let h = h\<lparr>h_writesDoneSent := True\<rparr>
           in if isStreamClosedForSending net h then h
              else processQueue net (h\<lparr>h_queue := h_queue h @ [[]]\<rparr>))"

definition sendInitialRequest :: "'s net \<Rightarrow> 's http2_handler \<Rightarrow> 's http2_handler" where
  "sendInitialRequest net h =
     (if Cancelled \<le> h_state h then h
      else case h_stream h of
             None \<Rightarrow> perform NullDereference h
           | Some s \<Rightarrow>
               (case sendHEADERS net s (h_initialHeaders h) False of
                  (ok, s') \<Rightarrow>
                    let h = perform (CallHEADERS (h_initialHeaders h) ok) (h\<lparr>h_stream := Some s'\<rparr>)
                    in if \<not> ok
                       then asyncFinish \<lparr>code = Unavailable,
                              message = ''Unable to send initial headers to an HTTP/2 stream''\<rparr> h
                       else let h = processQueue net
                                      (h\<lparr>h_state := RequestHeadersSent, h_initialHeaders := []\<rparr>)
                            in if h_deadline h \<noteq> None then h\<lparr>h_deadlineTimer := True\<rparr> else h))"

subsection \<open>Receiving headers\<close>

record header_scan =
  hasHttpStatus :: bool
  hasContentType :: bool
  hasGrpcStatus :: bool
  hs_metadata :: metadata
  hs_statusCode :: "status_code option"
  hs_statusMessage :: string

definition new_scan :: header_scan where
  "new_scan = \<lparr>hasHttpStatus = False, hasContentType = False, hasGrpcStatus = False,
               hs_metadata = [], hs_statusCode = None, hs_statusMessage = []\<rparr>"

definition requireHttpStatus :: "header_phase \<Rightarrow> bool" where
  "requireHttpStatus phase \<longleftrightarrow> phase \<noteq> Trailers"

definition requireGrpcStatus :: "header_phase \<Rightarrow> bool" where
  "requireGrpcStatus phase \<longleftrightarrow> phase \<noteq> Initial"

text \<open>
  One header: \<open>Inl\<close> the handler where the code finishes the call and returns, else the state of the
  scan. \<open>keep\<close> is the end of the loop body, which records the header unless metadata is filtered.
\<close>

definition keep :: "header \<Rightarrow> header_scan \<Rightarrow> 's http2_handler \<Rightarrow> 's http2_handler + header_scan \<times> 's http2_handler" where
  "keep kv sc h =
     Inr (if h_filterServerMetadata h then sc else sc\<lparr>hs_metadata := kv # hs_metadata sc\<rparr>, h)"

definition scan_status ::
  "'s net \<Rightarrow> header \<Rightarrow> header_scan \<Rightarrow> 's http2_handler \<Rightarrow> 's http2_handler + header_scan \<times> 's http2_handler" where
  "scan_status net kv sc h =
     (let v = snd kv
      in if toInt net v \<noteq> 200
         then Inl (finish \<lparr>code = http2StatusToStatusCode (toInt net v),
                           message = ''Received HTTP/2 status: '' @ v\<rparr> h)
         else keep kv (sc\<lparr>hasHttpStatus := True\<rparr>) h)"

definition scan_content_type ::
  "header \<Rightarrow> header_scan \<Rightarrow> 's http2_handler \<Rightarrow> 's http2_handler + header_scan \<times> 's http2_handler" where
  "scan_content_type kv sc h =
     (let v = snd kv
      in if \<not> startsWith (ascii_lower v) DefaultContentType
         then Inl (finish \<lparr>code = Internal, message = ''Unexpected content-type: '' @ v\<rparr> h)
         else keep kv (sc\<lparr>hasContentType := True\<rparr>) h)"

definition scan_grpc_status ::
  "'s net \<Rightarrow> header \<Rightarrow> header_scan \<Rightarrow> 's http2_handler \<Rightarrow> 's http2_handler + header_scan \<times> 's http2_handler" where
  "scan_grpc_status net kv sc h =
     (let v = snd kv;
          invalid = Inl (finish \<lparr>code = Unknown, message = ''Received invalid gRPC-status: '' @ v\<rparr> h)
      in case toShort net v of
           None \<Rightarrow> invalid
         | Some parsed \<Rightarrow>
             if parsed < 0 \<or> StatusCodeCount < parsed then invalid
             else keep kv (sc\<lparr>hs_statusCode := Some (status_codes ! nat parsed),
                              hasGrpcStatus := True\<rparr>) h)"

definition scan_encoding ::
  "'s net \<Rightarrow> header \<Rightarrow> header_scan \<Rightarrow> 's http2_handler \<Rightarrow> 's http2_handler + header_scan \<times> 's http2_handler" where
  "scan_encoding net kv sc h =
     (let v = snd kv
      in if \<not> isAcceptedEncoding v (h_accepted h)
         then Inl (finish \<lparr>code = Internal,
                     message = ''Server responded with an encoding not advertised by client: '' @ v\<rparr> h)
         else if v = ''identity'' then keep kv sc (h\<lparr>h_negotiatedEncoding := []\<rparr>)
         else let h = h\<lparr>h_decompressor := Some v\<rparr>
              in if \<not> setEncoding net v
                 then Inl (finish \<lparr>code = Internal,
                             message = ''Failed to initialize decompressor for algorithm: '' @ v\<rparr> h)
                 else keep kv sc (h\<lparr>h_negotiatedEncoding := v\<rparr>))"

definition scan_header ::
  "'s net \<Rightarrow> header_phase \<Rightarrow> header \<Rightarrow> header_scan \<Rightarrow> 's http2_handler \<Rightarrow>
   's http2_handler + header_scan \<times> 's http2_handler" where
  "scan_header net phase kv sc h =
     (let k = fst kv; v = snd kv
      in if requireHttpStatus phase \<and> k = HttpStatusHeader then scan_status net kv sc h
         else if requireHttpStatus phase \<and> k = ContentTypeHeader then scan_content_type kv sc h
         else if requireGrpcStatus phase \<and> k = GrpcStatusHeader then scan_grpc_status net kv sc h
         else if requireGrpcStatus phase \<and> k = GrpcStatusMessageHeader
         then keep kv (sc\<lparr>hs_statusMessage := utf8_text net v\<rparr>) h
         else if requireGrpcStatus phase \<and> k = GrpcStatusDetailsHeader then keep kv sc h
         else if phase = Initial \<and> k = GrpcEncodingHeader then scan_encoding net kv sc h
         else if phase = Initial \<and> k = GrpcAcceptEncodingHeader then keep kv sc h
         else if startsWith k '':'' then keep kv sc h
         else if startsWith k ''grpc-'' then keep kv sc h
         else Inr (sc\<lparr>hs_metadata := kv # hs_metadata sc\<rparr>, h))"

fun scan_headers ::
  "'s net \<Rightarrow> header_phase \<Rightarrow> header list \<Rightarrow> header_scan \<Rightarrow> 's http2_handler \<Rightarrow>
   's http2_handler + header_scan \<times> 's http2_handler" where
  "scan_headers net phase [] sc h = Inr (sc, h)"
| "scan_headers net phase (kv # kvs) sc h =
     (case scan_header net phase kv sc h of
        Inl h' \<Rightarrow> Inl h'
      | Inr (sc', h') \<Rightarrow> scan_headers net phase kvs sc' h')"

definition missing_header :: "string \<Rightarrow> grpc_status" where
  "missing_header name =
     \<lparr>code = Internal, message = ''Missing valid '' @ [CHR 0x27] @ name @ [CHR 0x27] @ '' header''\<rparr>"

definition conclude_headers :: "header_phase \<Rightarrow> header_scan \<Rightarrow> 's http2_handler \<Rightarrow> 's http2_handler" where
  "conclude_headers phase sc h =
     (if requireHttpStatus phase \<and> \<not> hasHttpStatus sc then finish (missing_header HttpStatusHeader) h
      else if requireHttpStatus phase \<and> \<not> hasContentType sc
      then finish (missing_header ContentTypeHeader) h
      else if requireGrpcStatus phase \<and> \<not> hasGrpcStatus sc
      then finish \<lparr>code = Internal, message = ''Missing status code in trailers''\<rparr> h
      else if phase = Initial then perform (SetServerInitialMetadata (hs_metadata sc)) h
      else finish \<lparr>code = the (hs_statusCode sc), message = hs_statusMessage sc\<rparr>
             (perform (SetServerTrailingMetadata (hs_metadata sc)) h))"

definition handleHeaders :: "'s net \<Rightarrow> header list \<Rightarrow> header_phase \<Rightarrow> 's http2_handler \<Rightarrow> 's http2_handler" where
  "handleHeaders net headers phase h =
     (case handleContextExpired h of
        (True, h') \<Rightarrow> h'
      | (False, h') \<Rightarrow>
          (case scan_headers net phase headers new_scan h' of
             Inl h'' \<Rightarrow> h''
           | Inr (sc, h'') \<Rightarrow> conclude_headers phase sc h''))"

definition header_phase_of :: "handler_state \<Rightarrow> bool \<Rightarrow> header_phase" where
  "header_phase_of st endStream =
     (if st = RequestHeadersSent \<and> endStream then TrailersOnly
      else if st = RequestHeadersSent \<and> \<not> endStream then Initial
      else if st = Active \<and> endStream then Trailers
      else InvalidPhase)"

definition onHeadersReceived :: "'s net \<Rightarrow> header list \<Rightarrow> bool \<Rightarrow> 's http2_handler \<Rightarrow> 's http2_handler" where
  "onHeadersReceived net headers endStream h =
     (if Cancelled \<le> h_state h then perform DeleteLater h
      else let phase = header_phase_of (h_state h) endStream
           in if phase = InvalidPhase then h
              else handleHeaders net headers phase (h\<lparr>h_state := Active\<rparr>))"

subsection \<open>Receiving data\<close>

text \<open>The loop that reads from the decompressor: \<open>Inl\<close> the status it finishes with.\<close>

fun read_decompressed ::
  "'s net \<Rightarrow> 32 word \<Rightarrow> byte list option list \<Rightarrow> byte list \<Rightarrow> grpc_status + byte list" where
  "read_decompressed net maxSize [] finalPayload = Inr finalPayload"
| "read_decompressed net maxSize (None # reads) finalPayload =
     Inl \<lparr>code = Internal, message = ''Decompression failed: '' @ inflate_errorString net\<rparr>"
| "read_decompressed net maxSize (Some buffer # reads) finalPayload =
     (let newPayloadSize = length finalPayload + length buffer
      in if unat maxSize < newPayloadSize
         then Inl \<lparr>code = ResourceExhausted,
                   message = ''Decompressed message size ('' @ decimal newPayloadSize @
                     '' bytes) exceeded configured limit ('' @ decimal (unat maxSize) @ '' bytes)''\<rparr>
         else read_decompressed net maxSize reads (finalPayload @ buffer))"

definition frame_payload :: "'s net \<Rightarrow> byte list \<Rightarrow> bool \<Rightarrow> 's http2_handler \<Rightarrow> grpc_status + byte list" where
  "frame_payload net payload isCompressed h =
     (if isCompressed
      then (case h_decompressor h of
              Some _ \<Rightarrow>
                if h_negotiatedEncoding h = []
                then Inl \<lparr>code = Internal, message = ''Protocol error: received compressed message but no encoding was negotiated.''\<rparr>
                else read_decompressed net (maxReceiveSize (h_parser h))
                       (inflate_reads net (the (h_decompressor h)) payload) []
            | None \<Rightarrow> Inl \<lparr>code = Internal, message = ''Protocol error: received compressed message but no encoding was negotiated.''\<rparr>)
      else Inr payload)"

definition oversize_status :: "32 word \<Rightarrow> 's http2_handler \<Rightarrow> grpc_status" where
  "oversize_status n h =
     \<lparr>code = ResourceExhausted,
      message = ''Received message size ('' @ decimal (unat n) @ '' bytes) exceeds configured limit ('' @
        decimal (unat (maxReceiveSize (h_parser h))) @ '' bytes)''\<rparr>"

lemma parseNextFrame_shrinks:
  "parseNextFrame ps = (Frame payload compressed, ps') \<Longrightarrow> length (container ps') < length (container ps)"
  by (auto simp: parseNextFrame_def GrpcMessageSizeHeaderSize_def Let_def split: if_splits)

text \<open>The loop over the frames; the result says whether the slot goes on after it.\<close>

function receive_frames :: "'s net \<Rightarrow> 's http2_handler \<Rightarrow> bool \<times> 's http2_handler" where
  "receive_frames net h =
     (case parseNextFrame (h_parser h) of
        (NeedMoreData, ps) \<Rightarrow> (True, h\<lparr>h_parser := ps\<rparr>)
      | (Oversize n, ps) \<Rightarrow> (False, finish (oversize_status n h) (h\<lparr>h_parser := ps\<rparr>))
      | (Frame payload isCompressed, ps) \<Rightarrow>
          let h' = h\<lparr>h_parser := ps\<rparr>
          in case frame_payload net payload isCompressed h' of
               Inl st \<Rightarrow> (False, finish st h')
             | Inr finalPayload \<Rightarrow> receive_frames net (perform (EmitMessageReceived finalPayload)
                 (if isCompressed then h'\<lparr>h_decompressor := Some (h_negotiatedEncoding h')\<rparr> else h')))"
  by pat_completeness auto

termination
  by (relation "measure (\<lambda>(net, h). length (container (h_parser h)))")
    (auto simp: perform_def dest: parseNextFrame_shrinks [OF sym])

declare receive_frames.simps [simp del]

definition onDataReceived :: "'s net \<Rightarrow> byte list \<Rightarrow> bool \<Rightarrow> 's http2_handler \<Rightarrow> 's http2_handler" where
  "onDataReceived net bs endStream h =
     (if h_state h = Cancelled then h
      else case receive_frames net (h\<lparr>h_parser := feed bs (h_parser h)\<rparr>) of
             (False, h') \<Rightarrow> h'
           | (True, h') \<Rightarrow>
               if endStream
               then if bytesAvailable (h_parser h') \<noteq> 0
                    then finish \<lparr>code = DataLoss,
                           message = ''Unexpected end of stream with '' @
                             decimal (bytesAvailable (h_parser h')) @ '' bytes remaining''\<rparr> h'
                    else finish \<lparr>code = Ok, message = []\<rparr> h'
               else h')"

subsection \<open>Construction\<close>

definition attachStream :: "'s \<Rightarrow> 's http2_handler \<Rightarrow> 's http2_handler" where
  "attachStream s h = h\<lparr>h_stream := Some s, h_errorConnected := True\<rparr>"

text \<open>What the constructor of a handler computes from the options of the call and of the channel.\<close>

definition constructMaximumReceiveSize ::
  "common_options \<Rightarrow> channel_options \<Rightarrow> 64 word option \<Rightarrow> 32 word" where
  "constructMaximumReceiveSize callOpts chOpts envMaximum =
     (case m_maximumReceiveMessageSize callOpts of
        Some v \<Rightarrow> clampToRange v 0 GrpcMaxPayloadSize
      | None \<Rightarrow>
          (case m_maximumReceiveMessageSize chOpts of
             Some v \<Rightarrow> clampToRange v 0 GrpcMaxPayloadSize
           | None \<Rightarrow>
               (case envMaximum of
                  Some v \<Rightarrow> clampToRange v 0 GrpcMaxPayloadSize
                | None \<Rightarrow> DefaultMaximumReceiveMessageSize)))"

definition constructFilterServerMetadata :: "common_options \<Rightarrow> channel_options \<Rightarrow> bool" where
  "constructFilterServerMetadata callOpts chOpts =
     option_or (m_filterServerMetadata callOpts) (option_or (m_filterServerMetadata chOpts) True)"

definition constructRequestEncoding :: "common_options \<Rightarrow> channel_options \<Rightarrow> compression_algorithm" where
  "constructRequestEncoding callOpts chOpts =
     option_or (m_requestCompression callOpts) (option_or (m_requestCompression chOpts) Identity)"

text \<open>The headers that the channel has computed once, and the user agent.\<close>

record channel_headers =
  authorityHeader :: string
  schemeHeader :: string
  contentType :: string
  acceptEncodingHeader :: string
  userAgent :: string

definition reserved_key :: "string \<Rightarrow> bool" where
  "reserved_key lowerKey \<longleftrightarrow>
     startsWith lowerKey '':'' \<or> startsWith lowerKey ''grpc-'' \<or> startsWith lowerKey ''qtgrpc-'' \<or>
     lowerKey = ContentTypeHeader \<or> lowerKey = ''te'' \<or> lowerKey = ''user-agent''"

definition iterateMetadata :: "metadata \<Rightarrow> header list" where
  "iterateMetadata md =
     filter (\<lambda>kv. \<not> reserved_key (fst kv)) (map (\<lambda>kv. (ascii_lower (fst kv), snd kv)) md)"

definition constructInitialHeaders ::
  "channel_headers \<Rightarrow> rpc_descriptor \<Rightarrow> common_options \<Rightarrow> channel_options \<Rightarrow> header list" where
  "constructInitialHeaders ch rpc callOpts chOpts =
     (let encoding = constructRequestEncoding callOpts chOpts
      in [('':authority'', authorityHeader ch), ('':method'', ''POST''),
          ('':path'', ''/'' @ service rpc @ ''/'' @ rpc_method rpc), ('':scheme'', schemeHeader ch),
          (ContentTypeHeader, contentType ch), (''service-name'', service rpc),
          (GrpcAcceptEncodingHeader, acceptEncodingHeader ch), (''user-agent'', userAgent ch),
          (''te'', ''trailers'')] @
         (if encoding \<noteq> Identity then [(GrpcEncodingHeader, requestEncodingName encoding)] else []) @
         iterateMetadata (m_metadata chOpts) @ iterateMetadata (m_metadata callOpts))"

definition call_deadline :: "common_options \<Rightarrow> channel_options \<Rightarrow> int option" where
  "call_deadline callOpts chOpts =
     (case m_timeout callOpts of Some t \<Rightarrow> Some t | None \<Rightarrow> m_timeout chOpts)"

definition new_handler ::
  "'s net \<Rightarrow> channel_headers \<Rightarrow> rpc_descriptor \<Rightarrow> common_options \<Rightarrow> channel_options \<Rightarrow>
   64 word option \<Rightarrow> byte list \<Rightarrow> bool \<Rightarrow> 's http2_handler" where
  "new_handler net ch rpc callOpts chOpts envMaximum messageData endStream =
     writeMessage net messageData
       \<lparr>h_context = True, h_initialHeaders = constructInitialHeaders ch rpc callOpts chOpts,
        h_queue = [], h_stream = None,
        h_parser = new_parser (constructMaximumReceiveSize callOpts chOpts envMaximum),
        h_negotiatedEncoding = [], h_decompressor = None, h_compressor = None, h_state = Idle,
        h_endStreamAtFirstData = endStream, h_writesDoneSent = False, h_drainingQueue = False,
        h_inFlightUserWrite = False, h_queuedBytes = 0,
        h_nextQueueWarnBytes = QueuedBytesWarningThreshold, h_bytesToWrite = 0,
        h_filterServerMetadata = constructFilterServerMetadata callOpts chOpts,
        h_deadlineTimer = False, h_requestEncoding = constructRequestEncoding callOpts chOpts,
        h_deadline = call_deadline callOpts chOpts,
        h_accepted = co_acceptedCompressionAlgorithms chOpts, h_errorConnected = False,
        h_pendingWritten = 0, h_pendingFinish = [], h_effects = []\<rparr>"

subsection \<open>Events\<close>

datatype 's event =
  AttachStream 's | StreamChanged 's | StreamDestroyed
| SendInitialRequest | HeadersReceived "header list" bool | StreamError "32 word" string
| DataReceived "byte list" bool | StreamBytesWritten nat | StreamUploadFinished
| CancelRequested | WritesDoneRequested | WriteMessageRequested "byte list" | DeadlineExpired
| FinishCalled grpc_status | AsyncFinishCalled grpc_status
| PostedMessageWritten | PostedFinish | ContextDestroyed

fun accepted_DATA :: "effect \<Rightarrow> bool" where
  "accepted_DATA (CallDATA m c ok) = ok"
| "accepted_DATA _ = False"

text \<open>
  Which events can reach the handler: the connections that exist and the pending timers. The stream
  tells the end of an upload only when it has accepted one.
\<close>

fun enabled :: "'s event \<Rightarrow> 's http2_handler \<Rightarrow> bool" where
  "enabled (AttachStream s) h \<longleftrightarrow> h_stream h = None \<and> h_context h"
| "enabled (StreamChanged s) h \<longleftrightarrow> h_stream h \<noteq> None"
| "enabled StreamDestroyed h \<longleftrightarrow> h_stream h \<noteq> None"
| "enabled SendInitialRequest h \<longleftrightarrow> h_context h"
| "enabled (HeadersReceived hs e) h \<longleftrightarrow> h_stream h \<noteq> None"
| "enabled (StreamError err txt) h \<longleftrightarrow> h_stream h \<noteq> None \<and> h_errorConnected h"
| "enabled (DataReceived bs e) h \<longleftrightarrow> h_stream h \<noteq> None \<and> h_context h"
| "enabled (StreamBytesWritten n) h \<longleftrightarrow> h_stream h \<noteq> None"
| "enabled StreamUploadFinished h \<longleftrightarrow>
     h_stream h \<noteq> None \<and> list_ex accepted_DATA (h_effects h)"
| "enabled CancelRequested h \<longleftrightarrow> h_context h"
| "enabled WritesDoneRequested h \<longleftrightarrow> h_context h"
| "enabled (WriteMessageRequested bs) h \<longleftrightarrow> h_context h \<and> \<not> h_endStreamAtFirstData h"
| "enabled DeadlineExpired h \<longleftrightarrow> h_deadlineTimer h"
| "enabled (FinishCalled st) h \<longleftrightarrow> h_context h"
| "enabled (AsyncFinishCalled st) h \<longleftrightarrow> h_context h"
| "enabled PostedMessageWritten h \<longleftrightarrow> 0 < h_pendingWritten h"
| "enabled PostedFinish h \<longleftrightarrow> h_pendingFinish h \<noteq> [] \<and> h_context h"
| "enabled ContextDestroyed h \<longleftrightarrow> h_context h"

fun handle :: "'s net \<Rightarrow> 's event \<Rightarrow> 's http2_handler \<Rightarrow> 's http2_handler" where
  "handle net (AttachStream s) h = attachStream s h"
| "handle net (StreamChanged s) h = h\<lparr>h_stream := Some s\<rparr>"
| "handle net StreamDestroyed h = h\<lparr>h_stream := None\<rparr>"
| "handle net SendInitialRequest h = sendInitialRequest net h"
| "handle net (HeadersReceived hs e) h = onHeadersReceived net hs e h"
| "handle net (StreamError err txt) h =
     finish \<lparr>code = http2ErrorToStatusCode err, message = txt\<rparr> (h\<lparr>h_errorConnected := False\<rparr>)"
| "handle net (DataReceived bs e) h = onDataReceived net bs e h"
| "handle net (StreamBytesWritten n) h = onBytesWritten n h"
| "handle net StreamUploadFinished h = onUploadFinished net h"
| "handle net CancelRequested h = cancel net h"
| "handle net WritesDoneRequested h = writesDone net h"
| "handle net (WriteMessageRequested bs) h = writeMessage net bs h"
| "handle net DeadlineExpired h = deadlineTimeout net (h\<lparr>h_deadlineTimer := False\<rparr>)"
| "handle net (FinishCalled st) h = finish st h"
| "handle net (AsyncFinishCalled st) h = asyncFinish st h"
| "handle net PostedMessageWritten h = deliverMessageWritten h"
| "handle net PostedFinish h =
     finish (hd (h_pendingFinish h)) (h\<lparr>h_pendingFinish := tl (h_pendingFinish h)\<rparr>)"
| "handle net ContextDestroyed h = perform DeleteLater (h\<lparr>h_context := False\<rparr>)"

inductive handler_step :: "'s net \<Rightarrow> 's http2_handler \<Rightarrow> 's event \<Rightarrow> 's http2_handler \<Rightarrow> bool" for net where
  deliver: "enabled e h \<Longrightarrow> handler_step net h e (handle net e h)"

inductive handler_run :: "'s net \<Rightarrow> 's http2_handler \<Rightarrow> 's event list \<Rightarrow> 's http2_handler \<Rightarrow> bool" for net where
  run_nil: "handler_run net h [] h"
| run_snoc: "handler_run net h es h' \<Longrightarrow> handler_step net h' e h'' \<Longrightarrow> handler_run net h (es @ [e]) h''"

inductive_simps handler_step_iff: "handler_step net h e h'"
inductive_cases handler_run_snocE: "handler_run net h (es @ [e]) h'"

end
