(* ===== verification/HandlerInvariants.thy ===== *)
theory HandlerInvariants
  imports Http2Handler
begin

text \<open>
  What holds of a handler after any sequence of events: the life cycle of the call (one
  \<open>finished\<close>, nothing written back after it), HEADERS before DATA, the queue in order and the
  accounting of its bytes. Each is an invariant of the events, proved from one lemma on what the
  sending and receiving operations leave alone.
\<close>

subsection \<open>What an operation leaves alone\<close>

definition framed :: "(effect \<Rightarrow> bool) \<Rightarrow> 's http2_handler \<Rightarrow> 's http2_handler \<Rightarrow> bool" where
  "framed A h h' \<longleftrightarrow>
     h_state h' = h_state h \<and> h_context h' = h_context h \<and>
     (\<exists>es. h_effects h' = h_effects h @ es \<and> (\<forall>e \<in> set es. A e))"

lemma framed_refl [intro, simp]: "framed A h h"
  by (auto simp: framed_def)

lemma framed_trans [trans]: "framed A h h' \<Longrightarrow> framed A h' h'' \<Longrightarrow> framed A h h''"
  unfolding framed_def by (metis (no_types, lifting) Un_iff append_assoc set_append)

lemma framed_perform: "A e \<Longrightarrow> framed A h (perform e h)"
  by (auto simp: framed_def perform_def)

lemma framed_silent:
  "h_state h' = h_state h \<Longrightarrow> h_context h' = h_context h \<Longrightarrow> h_effects h' = h_effects h \<Longrightarrow> framed A h h'"
  by (auto simp: framed_def)

lemma framed_weaken: "framed A h h' \<Longrightarrow> (\<And>e. A e \<Longrightarrow> B e) \<Longrightarrow> framed B h h'"
  by (auto simp: framed_def)

fun is_send :: "effect \<Rightarrow> bool" where
  "is_send (SetBytesToWrite n) = True"
| "is_send (CallDATA m c ok) = True"
| "is_send _ = False"

fun is_receive :: "effect \<Rightarrow> bool" where
  "is_receive (EmitMessageReceived m) = True"
| "is_receive _ = False"

fun is_finished :: "effect \<Rightarrow> bool" where
  "is_finished (EmitFinished st) = True"
| "is_finished _ = False"

lemma framed_onBytesWritten: "framed is_send h (onBytesWritten n h)"
  by (auto simp: framed_def onBytesWritten_def perform_def Let_def)

lemma framed_uploadFinished_head: "framed A h (uploadFinished_head h)"
  by (auto simp: framed_def uploadFinished_head_def scheduleMessageWritten_def)

lemma framed_drain_signal: "framed is_send h (drain_signal sg h)"
  by (cases sg) (simp_all add: framed_onBytesWritten framed_uploadFinished_head)

lemma framed_drain_signals: "framed is_send h (fold drain_signal sigs h)"
proof (induction sigs arbitrary: h)
  case (Cons sg sigs)
  from framed_trans [OF framed_drain_signal Cons] show ?case by simp
qed simp

lemma framed_drain_step:
  assumes "drain_step net s m h = (ok, h')"
  shows "framed is_send h h'"
proof -
  define h1 where "h1 = h\<lparr>h_queue := tl (h_queue h), h_queuedBytes := h_queuedBytes h - of_nat (length m),
    h_inFlightUserWrite := \<not> (m = [] \<or> h_endStreamAtFirstData h)\<rparr>"
  obtain ok' sigs s' where d: "sendDATA net s m (m = [] \<or> h_endStreamAtFirstData h) = (ok', sigs, s')"
    by (cases "sendDATA net s m (m = [] \<or> h_endStreamAtFirstData h)") auto
  define h2 where "h2 = fold drain_signal sigs
    (perform (CallDATA m (m = [] \<or> h_endStreamAtFirstData h) ok') (h1\<lparr>h_stream := Some s'\<rparr>))"
  have "framed is_send h h1" by (simp add: h1_def framed_silent)
  also have "framed is_send h1 (h1\<lparr>h_stream := Some s'\<rparr>)" by (simp add: framed_silent)
  also have "framed is_send (h1\<lparr>h_stream := Some s'\<rparr>)
      (perform (CallDATA m (m = [] \<or> h_endStreamAtFirstData h) ok') (h1\<lparr>h_stream := Some s'\<rparr>))"
    by (simp add: framed_perform)
  also have "framed is_send \<dots> h2" unfolding h2_def by (rule framed_drain_signals)
  finally have "framed is_send h h2" .
  moreover have "framed is_send h2 (h2\<lparr>h_inFlightUserWrite := False\<rparr>)" by (simp add: framed_silent)
  moreover have "h' = (if ok' then h2 else h2\<lparr>h_inFlightUserWrite := False\<rparr>)"
    using assms by (simp add: drain_step_def d Let_def h1_def h2_def split: if_splits)
  ultimately show ?thesis by (metis framed_trans)
qed

text \<open>The loop of \<open>processQueue\<close>: what every round preserves and composes, the loop preserves.\<close>

lemma drain_rel:
  assumes refl: "\<And>h. P h h" and trans: "\<And>a b c. P a b \<Longrightarrow> P b c \<Longrightarrow> P a c"
    and round: "\<And>h s m rest ok h'. h_stream h = Some s \<Longrightarrow> h_queue h = m # rest \<Longrightarrow>
      drain_step net s m h = (ok, h') \<Longrightarrow> P h h'"
  shows "P h (drain net h)"
proof (induction "length (h_queue h)" arbitrary: h rule: less_induct)
  case less
  show ?case
  proof (cases "\<exists>s m rest. h_stream h = Some s \<and> h_queue h = m # rest")
    case True
    then obtain s m rest where sm: "h_stream h = Some s" "h_queue h = m # rest" by blast
    obtain ok h' where st: "drain_step net s m h = (ok, h')" by (cases "drain_step net s m h") auto
    have p: "P h h'" by (rule round [OF sm st])
    have "length (h_queue h') < length (h_queue h)"
      using drain_step_queue [of net s m h] by (simp add: st sm)
    from trans [OF p less [OF this]] have "P h (drain net h')" .
    moreover have "drain net h = drain net h' \<or> drain net h = h'"
      by (subst drain.simps, subst (3) drain.simps) (simp add: sm st)
    ultimately show ?thesis using p by metis
  next
    case False
    then have "drain net h = h" by (subst drain.simps) (auto split: option.splits list.splits)
    then show ?thesis by (simp add: refl)
  qed
qed

lemma framed_drain: "framed is_send h (drain net h)"
  by (rule drain_rel) (auto intro: framed_trans framed_drain_step)

text \<open>What is sent in a state: DATA only once the handler is not idle any more.\<close>

fun is_DATA :: "effect \<Rightarrow> bool" where
  "is_DATA (CallDATA m c ok) = True"
| "is_DATA _ = False"

definition sends_in :: "handler_state \<Rightarrow> effect \<Rightarrow> bool" where
  "sends_in s e \<longleftrightarrow> is_send e \<and> (is_DATA e \<longrightarrow> s \<noteq> Idle)"

lemma sends_in_bytes [simp]: "sends_in s (SetBytesToWrite n)"
  by (simp add: sends_in_def)

lemma framed_processQueue: "framed (sends_in (h_state h)) h (processQueue net h)"
proof (cases "h_state h = Idle")
  case True
  then show ?thesis by (simp add: processQueue_def split: option.split)
next
  case False
  let ?h = "h\<lparr>h_drainingQueue := True\<rparr>"
  have "framed is_send h ?h" by (simp add: framed_silent)
  also have "framed is_send ?h (drain net ?h)" by (rule framed_drain)
  also have "framed is_send \<dots> ((drain net ?h)\<lparr>h_drainingQueue := h_drainingQueue h\<rparr>)"
    by (simp add: framed_silent)
  finally have "framed (sends_in (h_state h)) h ((drain net ?h)\<lparr>h_drainingQueue := h_drainingQueue h\<rparr>)"
    by (rule framed_weaken) (simp add: sends_in_def False)
  then show ?thesis by (simp add: processQueue_def split: option.split)
qed

lemma framed_enqueue_message: "framed (sends_in s) h (enqueue_message msg h)"
  by (auto simp: framed_def enqueue_message_def perform_def Let_def)

lemma framed_warn_queue: "framed A h (warn_queue h)"
  by (auto simp: framed_def warn_queue_def)

lemma h_state_enqueue_message [simp]: "h_state (enqueue_message msg h) = h_state h"
  by (simp add: enqueue_message_def perform_def Let_def)

text \<open>\<open>writeMessage\<close> sends, finishes the call, or does nothing.\<close>

lemma writeMessage_cases:
  obtains (quiet) "framed (sends_in (h_state h)) h (writeMessage net bs h)"
  | (too_long) st where "writeMessage net bs h = finish st h"
proof (cases "h_writesDoneSent h \<or> Active < h_state h \<or> isStreamClosedForSending net h")
  case True
  with quiet show thesis by (simp add: writeMessage_def)
next
  case open_for_writing: False
  show thesis
  proof (cases "uint GrpcMaxPayloadSize < int (length bs)")
    case True
    with open_for_writing too_long show thesis by (simp add: writeMessage_def)
  next
    case False
    obtain msg c where b: "build_message (net_zlib net) (h_requestEncoding h) bs (h_compressor h) = (msg, c)"
      by (cases "build_message (net_zlib net) (h_requestEncoding h) bs (h_compressor h)") auto
    let ?h = "enqueue_message msg (h\<lparr>h_compressor := c\<rparr>)"
    have "framed (sends_in (h_state h)) h (h\<lparr>h_compressor := c\<rparr>)" by (simp add: framed_silent)
    also have "framed (sends_in (h_state h)) \<dots> ?h" by (rule framed_enqueue_message)
    also have "framed (sends_in (h_state h)) \<dots> (processQueue net ?h)"
      using framed_processQueue [of ?h net] by simp
    also have "framed (sends_in (h_state h)) \<dots> (writeMessage net bs h)"
      using open_for_writing False by (simp add: writeMessage_def b framed_warn_queue)
    finally show thesis by (rule quiet)
  qed
qed

lemma framed_writesDone: "framed (sends_in (h_state h)) h (writesDone net h)"
proof -
  let ?h = "h\<lparr>h_writesDoneSent := True\<rparr>"
  let ?g = "?h\<lparr>h_queue := h_queue ?h @ [[]]\<rparr>"
  have "framed (sends_in (h_state h)) h ?g" by (simp add: framed_silent)
  also have "framed (sends_in (h_state h)) ?g (processQueue net ?g)"
    using framed_processQueue [of ?g net] by simp
  finally show ?thesis by (simp add: writesDone_def Let_def framed_silent)
qed

lemma h_state_uploadFinished_head [simp]: "h_state (uploadFinished_head h) = h_state h"
  by (simp add: uploadFinished_head_def scheduleMessageWritten_def)

lemma framed_onUploadFinished: "framed (sends_in (h_state h)) h (onUploadFinished net h)"
proof -
  let ?h = "uploadFinished_head h"
  have "framed (sends_in (h_state h)) ?h (processQueue net ?h)"
    using framed_processQueue [of ?h net] by simp
  with framed_trans [OF framed_uploadFinished_head this] framed_uploadFinished_head [of _ h]
  show ?thesis by (auto simp: onUploadFinished_def Let_def)
qed

subsection \<open>Receiving\<close>

text \<open>The receiving operations do not touch the queue; they may end the call at their end.\<close>

definition receiving :: "(effect \<Rightarrow> bool) \<Rightarrow> 's http2_handler \<Rightarrow> 's http2_handler \<Rightarrow> bool" where
  "receiving A h h' \<longleftrightarrow>
     framed A h h' \<and> h_queue h' = h_queue h \<and> h_queuedBytes h' = h_queuedBytes h"

definition ends :: "(effect \<Rightarrow> bool) \<Rightarrow> 's http2_handler \<Rightarrow> 's http2_handler \<Rightarrow> bool" where
  "ends A h h' \<longleftrightarrow> (\<exists>st h1. receiving A h h1 \<and> h' = finish st h1)"

lemma receiving_refl [simp]: "receiving A h h"
  by (simp add: receiving_def)

lemma receiving_trans [trans]: "receiving A h h' \<Longrightarrow> receiving A h' h'' \<Longrightarrow> receiving A h h''"
  by (auto simp: receiving_def intro: framed_trans)

lemma receiving_silent:
  "h_state h' = h_state h \<Longrightarrow> h_context h' = h_context h \<Longrightarrow> h_effects h' = h_effects h \<Longrightarrow>
   h_queue h' = h_queue h \<Longrightarrow> h_queuedBytes h' = h_queuedBytes h \<Longrightarrow> receiving A h h'"
  by (simp add: receiving_def framed_silent)

lemma receiving_perform: "A e \<Longrightarrow> receiving A h (perform e h)"
  by (simp add: receiving_def framed_perform) (simp add: perform_def)

lemma ends_finish: "receiving A h h1 \<Longrightarrow> ends A h (finish st h1)"
  by (auto simp: ends_def)

lemma ends_trans: "receiving A h h1 \<Longrightarrow> ends A h1 h' \<Longrightarrow> ends A h h'"
  by (auto simp: ends_def intro: receiving_trans)

lemma receive_frames_cases:
  "receive_frames net h = (go_on, h') \<Longrightarrow>
   if go_on then receiving is_receive h h' else ends is_receive h h'"
proof (induction net h arbitrary: go_on h' rule: receive_frames.induct)
  case (1 net h)
  obtain r ps where r: "parseNextFrame (h_parser h) = (r, ps)" by (cases "parseNextFrame (h_parser h)") auto
  let ?h = "h\<lparr>h_parser := ps\<rparr>"
  have f: "receiving is_receive h ?h" by (simp add: receiving_silent)
  show ?case
  proof (cases r)
    case NeedMoreData
    then have "receive_frames net h = (True, ?h)" by (subst receive_frames.simps) (simp add: r)
    with 1(2) f show ?thesis by auto
  next
    case (Oversize n)
    then have "receive_frames net h = (False, finish (oversize_status n h) ?h)"
      by (subst receive_frames.simps) (simp add: r)
    with 1(2) ends_finish [OF f] show ?thesis by auto
  next
    case (Frame payload compressed)
    show ?thesis
    proof (cases "frame_payload net payload compressed ?h")
      case (Inl st)
      then have "receive_frames net h = (False, finish st ?h)"
        by (subst receive_frames.simps) (simp add: r Frame Let_def)
      with 1(2) ends_finish [OF f] show ?thesis by auto
    next
      case (Inr m)
      let ?g = "perform (EmitMessageReceived m)
        (if compressed then ?h\<lparr>h_decompressor := Some (h_negotiatedEncoding ?h)\<rparr> else ?h)"
      have "receive_frames net h = receive_frames net ?g"
        by (subst receive_frames.simps) (simp add: r Frame Inr Let_def)
      with 1(2) have run: "receive_frames net ?g = (go_on, h')" by simp
      have "receiving is_receive h (if compressed then ?h\<lparr>h_decompressor := Some (h_negotiatedEncoding ?h)\<rparr> else ?h)"
        by (simp add: receiving_silent)
      also have "receiving is_receive \<dots> ?g" by (rule receiving_perform) simp
      finally have g: "receiving is_receive h ?g" .
      from 1(1) [OF r [symmetric] Frame refl Inr run] g show ?thesis
        by (auto split: if_splits intro: receiving_trans ends_trans)
    qed
  qed
qed

lemma onDataReceived_cases:
  "receiving is_receive h (onDataReceived net bs e h) \<or> ends is_receive h (onDataReceived net bs e h)"
proof (cases "h_state h = Cancelled")
  case True
  then show ?thesis by (simp add: onDataReceived_def)
next
  case False
  let ?h = "h\<lparr>h_parser := feed bs (h_parser h)\<rparr>"
  obtain go_on h' where run: "receive_frames net ?h = (go_on, h')" by (cases "receive_frames net ?h") auto
  have f: "receiving is_receive h ?h" by (simp add: receiving_silent)
  show ?thesis
  proof (cases go_on)
    case True
    with receive_frames_cases [OF run] f have "receiving is_receive h h'" by (auto intro: receiving_trans)
    then show ?thesis using False True
      by (auto simp: onDataReceived_def run intro: ends_finish)
  next
    case go_off: False
    with receive_frames_cases [OF run] f have "ends is_receive h h'" by (auto intro: ends_trans)
    with False go_off show ?thesis by (simp add: onDataReceived_def run)
  qed
qed

text \<open>The scan of the headers: nothing happens outside until it finishes the call.\<close>

definition scanned :: "'s http2_handler \<Rightarrow> 's http2_handler + header_scan \<times> 's http2_handler \<Rightarrow> bool" where
  "scanned h r \<longleftrightarrow>
     (case r of Inl h' \<Rightarrow> ends (\<lambda>_. False) h h' | Inr (sc, h') \<Rightarrow> receiving (\<lambda>_. False) h h')"

lemma scanned_stop: "receiving (\<lambda>_. False) h h1 \<Longrightarrow> scanned h (Inl (finish st h1))"
  by (simp add: scanned_def ends_finish)

lemma scanned_keep: "receiving (\<lambda>_. False) h h1 \<Longrightarrow> scanned h (keep kv sc h1)"
  by (simp add: scanned_def keep_def)

lemma scanned_encoding: "scanned h (scan_encoding net kv sc h)"
  by (simp add: scan_encoding_def Let_def scanned_stop scanned_keep receiving_silent)

lemma scanned_grpc_status: "scanned h (scan_grpc_status net kv sc h)"
  by (simp add: scan_grpc_status_def Let_def scanned_stop scanned_keep split: option.split)

lemma scanned_header: "scanned h (scan_header net phase kv sc h)"
proof -
  have "scanned h (scan_status net kv sc h)" "scanned h (scan_content_type kv sc h)"
      "scanned h (keep kv sc1 h)" for sc1
    by (simp_all add: scan_status_def scan_content_type_def Let_def scanned_stop scanned_keep)
  moreover have "scanned h (Inr (sc1, h))" for sc1 by (simp add: scanned_def)
  ultimately show ?thesis by (simp add: scan_header_def Let_def scanned_encoding scanned_grpc_status)
qed

lemma scanned_headers: "scanned h (scan_headers net phase kvs sc h)"
proof (induction kvs arbitrary: sc h)
  case (Cons kv kvs)
  have *: "scanned h (scan_header net phase kv sc h)" by (rule scanned_header)
  show ?case
  proof (cases "scan_header net phase kv sc h")
    case (Inr r)
    then obtain sc' h' where r: "scan_header net phase kv sc h = Inr (sc', h')" by (cases r) auto
    with * have p: "receiving (\<lambda>_. False) h h'" by (simp add: scanned_def)
    from Cons [of h' sc'] p show ?thesis
      by (auto simp: r scanned_def split: sum.splits intro: receiving_trans ends_trans)
  qed (use * in \<open>simp add: scanned_def\<close>)
qed (simp add: scanned_def)

subsection \<open>The life cycle of a call\<close>

text \<open>What a call must not do once it has finished.\<close>

fun is_live :: "effect \<Rightarrow> bool" where
  "is_live EmitMessageWritten = True"
| "is_live (SetServerInitialMetadata md) = True"
| "is_live (SetServerTrailingMetadata md) = True"
| "is_live _ = False"

definition quiet_after_finished :: "effect list \<Rightarrow> effect \<Rightarrow> bool" where
  "quiet_after_finished prev e \<longleftrightarrow> (is_live e \<longrightarrow> \<not> list_ex is_finished prev)"

lemma ordered_two [simp]:
  "ordered R (es @ [a, b]) \<longleftrightarrow> ordered R es \<and> R es a \<and> R (es @ [a]) b"
  using ordered_snoc [of R "es @ [a]" b] by simp

definition finished_count :: "'s http2_handler \<Rightarrow> nat" where
  "finished_count h = length (filter is_finished (h_effects h))"

definition life_cycle :: "'s http2_handler \<Rightarrow> bool" where
  "life_cycle h \<longleftrightarrow>
     (h_state h \<le> Active \<longrightarrow> finished_count h = 0) \<and>
     (h_state h = Finished \<longrightarrow> finished_count h = 1) \<and>
     (h_state h = Cancelled \<and> h_context h \<longrightarrow> 1 \<le> finished_count h) \<and>
     ordered quiet_after_finished (h_effects h)"

lemma state_order_simps [simp]:
  "Idle \<le> s" "Cancelled \<le> s \<longleftrightarrow> s = Cancelled \<or> s = Finished" "Active < s \<longleftrightarrow> s = Cancelled \<or> s = Finished"
  "s \<le> Active \<longleftrightarrow> s = Idle \<or> s = RequestHeadersSent \<or> s = Active"
  by (cases s; simp add: less_eq_handler_state_def less_handler_state_def)+

lemma no_finished: "finished_count h = 0 \<longleftrightarrow> \<not> list_ex is_finished (h_effects h)"
  by (simp add: finished_count_def filter_empty_conv list_ex_iff)

lemma life_cycle_framed:
  assumes "life_cycle h" and "framed A h h'" and A: "\<And>e. A e \<Longrightarrow> \<not> is_finished e \<and> \<not> is_live e"
  shows "life_cycle h'"
proof -
  from assms(2) obtain es where es: "h_effects h' = h_effects h @ es" "\<forall>e \<in> set es. A e"
      "h_state h' = h_state h" "h_context h' = h_context h"
    by (auto simp: framed_def)
  have "finished_count h' = finished_count h"
    using es A by (simp add: finished_count_def filter_empty_conv)
  moreover have "ordered quiet_after_finished (h_effects h')"
    unfolding es(1) using assms(1) es(2) A
    by (intro ordered_append) (auto simp: life_cycle_def quiet_after_finished_def)
  ultimately show ?thesis using assms(1) es by (simp add: life_cycle_def)
qed

lemma life_cycle_silent:
  "life_cycle h \<Longrightarrow> h_state h' = h_state h \<Longrightarrow> h_context h' = h_context h \<Longrightarrow>
   h_effects h' = h_effects h \<Longrightarrow> life_cycle h'"
  by (simp add: life_cycle_def finished_count_def)

lemma life_cycle_deadline [simp]: "life_cycle (h\<lparr>h_deadlineTimer := b\<rparr>) = life_cycle h"
  by (simp add: life_cycle_def finished_count_def)

lemma life_cycle_live:
  "life_cycle h \<Longrightarrow> h_state h \<le> Active \<Longrightarrow> is_live e \<Longrightarrow> life_cycle (perform e h)"
  by (cases e)
    (auto simp: life_cycle_def perform_def quiet_after_finished_def finished_count_def
      filter_empty_conv list_ex_iff)

lemma life_cycle_context_gone:
  "life_cycle h \<Longrightarrow> \<not> h_context h \<Longrightarrow> life_cycle (perform DeleteLater (h\<lparr>h_state := Cancelled\<rparr>))"
  by (auto simp: life_cycle_def perform_def quiet_after_finished_def)

lemma life_cycle_finish: "life_cycle h \<Longrightarrow> life_cycle (finish st h)"
proof (cases "h_context h")
  case True
  assume "life_cycle h"
  with True show ?thesis
    by (cases "h_state h")
      (auto simp: finish_def handleContextExpired_def life_cycle_def perform_def
        quiet_after_finished_def finished_count_def Let_def)
next
  case False
  assume "life_cycle h"
  with False show ?thesis
    by (simp add: finish_def handleContextExpired_def life_cycle_context_gone)
qed

text \<open>After \<open>finish\<close> the call has ended.\<close>

lemma finish_ended: "h_state (finish st h) = Cancelled \<or> h_state (finish st h) = Finished"
  by (auto simp: finish_def handleContextExpired_def perform_def Let_def)

lemma life_cycle_ends:
  "life_cycle h \<Longrightarrow> ends A h h' \<Longrightarrow> (\<And>e. A e \<Longrightarrow> \<not> is_finished e \<and> \<not> is_live e) \<Longrightarrow> life_cycle h'"
  by (auto simp: ends_def receiving_def intro!: life_cycle_finish intro: life_cycle_framed)

lemma is_send_quiet: "is_send e \<Longrightarrow> \<not> is_finished e \<and> \<not> is_live e"
  by (cases e) auto

lemma sends_in_quiet: "sends_in s e \<Longrightarrow> \<not> is_finished e \<and> \<not> is_live e"
  by (simp add: sends_in_def is_send_quiet)

lemma is_receive_quiet: "is_receive e \<Longrightarrow> \<not> is_finished e \<and> \<not> is_live e"
  by (cases e) auto

lemma life_cycle_handleHeaders:
  assumes "life_cycle h" and "h_state h = Active"
  shows "life_cycle (handleHeaders net hs phase h)"
proof (cases "h_context h")
  case False
  with assms show ?thesis
    by (simp add: handleHeaders_def handleContextExpired_def life_cycle_context_gone)
next
  case True
  have sc: "scanned h (scan_headers net phase hs new_scan h)" by (rule scanned_headers)
  show ?thesis
  proof (cases "scan_headers net phase hs new_scan h")
    case (Inl h')
    with sc assms show ?thesis
      using True by (auto simp: scanned_def handleHeaders_def handleContextExpired_def intro: life_cycle_ends)
  next
    case (Inr r)
    then obtain s h' where r: "scan_headers net phase hs new_scan h = Inr (s, h')" by (cases r) auto
    with sc have p: "framed (\<lambda>_. False) h h'" by (simp add: scanned_def receiving_def)
    then have "life_cycle h'" "h_state h' = Active"
      using assms by (auto simp: framed_def intro: life_cycle_framed)
    then have "life_cycle (conclude_headers phase s h')"
      by (auto simp: conclude_headers_def intro!: life_cycle_finish life_cycle_live)
    with True r show ?thesis by (simp add: handleHeaders_def handleContextExpired_def)
  qed
qed

text \<open>Two small steps: a change of the state that is not an end, and of fields that do not matter.\<close>

lemma life_cycle_progress:
  "life_cycle h \<Longrightarrow> h_state h \<le> Active \<Longrightarrow> s \<le> Active \<Longrightarrow> life_cycle (h\<lparr>h_state := s\<rparr>)"
  by (auto simp: life_cycle_def finished_count_def)

lemma life_cycle_cancel:
  assumes "life_cycle h"
  shows "life_cycle (cancelWithStatus net st h)"
proof (cases "Cancelled \<le> h_state h")
  case True
  with assms show ?thesis by (simp add: cancelWithStatus_def)
next
  case False
  then have a: "h_state h \<le> Active" by (cases "h_state h") auto
  have q: "quiet_after_finished es (CallRST ok)" for es ok
    by (simp add: quiet_after_finished_def)
  have "\<exists>h1. cancelWithStatus net st h = finish st h1 \<and> h_state h1 = Cancelled \<and>
      h_context h1 = h_context h \<and> finished_count h1 = 0 \<and> ordered quiet_after_finished (h_effects h1)"
    using assms a False
    by (auto simp: cancelWithStatus_def Let_def perform_def finished_count_def life_cycle_def q
        split: option.split prod.split)
  then show ?thesis
    by (auto simp: finish_def handleContextExpired_def life_cycle_def perform_def Let_def
        quiet_after_finished_def finished_count_def)
qed

lemma life_cycle_sendInitialRequest:
  assumes "life_cycle h"
  shows "life_cycle (sendInitialRequest net h)"
proof (cases "Cancelled \<le> h_state h")
  case True
  with assms show ?thesis by (simp add: sendInitialRequest_def)
next
  case False
  then have a: "h_state h \<le> Active" by (cases "h_state h") auto
  show ?thesis
  proof (cases "h_stream h")
    case None
    have "life_cycle (perform NullDereference h)"
      by (rule life_cycle_framed [OF assms framed_perform [of "\<lambda>e. e = NullDereference"]]) auto
    with False None show ?thesis by (simp add: sendInitialRequest_def)
  next
    case (Some s)
    obtain ok s' where hd: "sendHEADERS net s (h_initialHeaders h) False = (ok, s')"
      by (cases "sendHEADERS net s (h_initialHeaders h) False") auto
    define h1 where "h1 = perform (CallHEADERS (h_initialHeaders h) ok) (h\<lparr>h_stream := Some s'\<rparr>)"
    have "framed (\<lambda>e. \<not> is_finished e \<and> \<not> is_live e) h h1"
      by (rule framed_trans [OF framed_silent [of "h\<lparr>h_stream := Some s'\<rparr>"]])
        (auto simp: h1_def intro: framed_perform)
    then have h1: "life_cycle h1" "h_state h1 \<le> Active"
      using assms a by (auto simp: framed_def intro: life_cycle_framed)
    let ?h2 = "h1\<lparr>h_state := RequestHeadersSent, h_initialHeaders := []\<rparr>"
    have "life_cycle ?h2" using h1 by (auto simp: life_cycle_def finished_count_def)
    then have "life_cycle (processQueue net ?h2)"
      by (rule life_cycle_framed [OF _ framed_processQueue sends_in_quiet])
    moreover have "life_cycle (asyncFinish st h1)" for st
      using h1 by (auto simp: asyncFinish_def handleContextExpired_def life_cycle_context_gone
          intro: life_cycle_silent)
    ultimately show ?thesis using False Some
      by (cases ok) (auto simp: sendInitialRequest_def hd h1_def Let_def life_cycle_deadline)
  qed
qed

lemma life_cycle_handle:
  assumes "life_cycle h" and "enabled e h"
  shows "life_cycle (handle net e h)"
proof (cases e)
  case (HeadersReceived hs endStream)
  show ?thesis
  proof (cases "Cancelled \<le> h_state h \<or> header_phase_of (h_state h) endStream = InvalidPhase")
    case True
    have "life_cycle (perform DeleteLater h)"
      by (rule life_cycle_framed [OF assms(1) framed_perform [of "\<lambda>e. e = DeleteLater"]]) auto
    with True assms show ?thesis by (auto simp: HeadersReceived onHeadersReceived_def Let_def)
  next
    case False
    then have "h_state h \<le> Active" by (cases "h_state h") auto
    then have "life_cycle (h\<lparr>h_state := Active\<rparr>)" using assms(1) by (simp add: life_cycle_progress)
    from life_cycle_handleHeaders [OF this] False show ?thesis
      by (simp add: HeadersReceived onHeadersReceived_def Let_def)
  qed
next
  case (DataReceived bs endStream)
  from onDataReceived_cases [of h net bs endStream] show ?thesis
    using assms(1) is_receive_quiet
    by (auto simp: DataReceived receiving_def intro: life_cycle_framed life_cycle_ends)
next
  case (WriteMessageRequested bs)
  show ?thesis
  proof (cases rule: writeMessage_cases [of h net bs])
    case quiet
    then show ?thesis using assms(1) sends_in_quiet
      by (auto simp: WriteMessageRequested intro: life_cycle_framed)
  next
    case (too_long st)
    then show ?thesis using assms(1) by (simp add: WriteMessageRequested life_cycle_finish)
  qed
next
  case (StreamError err msg)
  have "life_cycle (h\<lparr>h_errorConnected := False\<rparr>)" by (rule life_cycle_silent [OF assms(1)]) simp_all
  then show ?thesis by (simp add: StreamError life_cycle_finish)
next
  case DeadlineExpired
  have "life_cycle (h\<lparr>h_deadlineTimer := False\<rparr>)" by (rule life_cycle_silent [OF assms(1)]) simp_all
  then show ?thesis by (simp add: DeadlineExpired deadlineTimeout_def life_cycle_cancel)
next
  case PostedFinish
  have "life_cycle (h\<lparr>h_pendingFinish := tl (h_pendingFinish h)\<rparr>)"
    by (rule life_cycle_silent [OF assms(1)]) simp_all
  then show ?thesis by (simp add: PostedFinish life_cycle_finish)
next
  case PostedMessageWritten
  have "life_cycle (h\<lparr>h_pendingWritten := h_pendingWritten h - 1\<rparr>)"
    by (rule life_cycle_silent [OF assms(1)]) simp_all
  then show ?thesis
    by (auto simp: PostedMessageWritten deliverMessageWritten_def Let_def intro: life_cycle_live)
next
  case ContextDestroyed
  then show ?thesis
    using assms(1) by (auto simp: life_cycle_def perform_def quiet_after_finished_def finished_count_def)
next
  case StreamUploadFinished
  then show ?thesis
    using assms(1) by (auto intro: life_cycle_framed [OF _ framed_onUploadFinished sends_in_quiet])
next
  case WritesDoneRequested
  then show ?thesis
    using assms(1) by (auto intro: life_cycle_framed [OF _ framed_writesDone sends_in_quiet])
next
  case (StreamBytesWritten n)
  then show ?thesis
    using assms(1) by (auto intro: life_cycle_framed [OF _ framed_onBytesWritten is_send_quiet])
next
  case (AsyncFinishCalled st)
  then show ?thesis
    using assms by (auto simp: asyncFinish_def handleContextExpired_def intro: life_cycle_silent)
qed (use assms(1) in \<open>auto simp: attachStream_def cancel_def life_cycle_sendInitialRequest
       life_cycle_cancel life_cycle_finish intro: life_cycle_silent\<close>)

lemma life_cycle_blank:
  "h_effects h = [] \<Longrightarrow> h_state h = Idle \<Longrightarrow> life_cycle h"
  by (simp add: life_cycle_def finished_count_def)

lemma life_cycle_new: "life_cycle (new_handler net ch rpc co cho env bs e)"
proof -
  have *: "life_cycle (writeMessage net bs h)" if "h_effects h = []" "h_state h = Idle" for h :: "'a http2_handler"
  proof (cases rule: writeMessage_cases [of h net bs])
    case quiet
    show ?thesis
      by (rule life_cycle_framed [OF life_cycle_blank [OF that] quiet sends_in_quiet])
  next
    case (too_long st)
    then show ?thesis using life_cycle_blank [OF that] by (simp add: life_cycle_finish)
  qed
  show ?thesis unfolding new_handler_def by (rule *) simp_all
qed

lemma handler_run_induct:
  assumes run: "handler_run net h es h'" and start: "P h"
    and step: "\<And>e h. P h \<Longrightarrow> enabled e h \<Longrightarrow> P (handle net e h)"
  shows "P h'"
  using run start by (induction rule: handler_run.induct) (auto simp: handler_step_iff step)

subsection \<open>HEADERS before DATA\<close>

fun is_HEADERS :: "effect \<Rightarrow> bool" where
  "is_HEADERS (CallHEADERS hs ok) = ok"
| "is_HEADERS _ = False"

definition headers_before_data :: "effect list \<Rightarrow> effect \<Rightarrow> bool" where
  "headers_before_data prev e \<longleftrightarrow> (is_DATA e \<longrightarrow> list_ex is_HEADERS prev)"

definition headers_first :: "'s http2_handler \<Rightarrow> bool" where
  "headers_first h \<longleftrightarrow>
     (h_state h = RequestHeadersSent \<or> h_state h = Active \<or> list_ex accepted_DATA (h_effects h) \<longrightarrow>
        list_ex is_HEADERS (h_effects h)) \<and>
     ordered headers_before_data (h_effects h)"

lemma accepted_is_DATA: "accepted_DATA e \<Longrightarrow> is_DATA e"
  by (cases e) auto

lemma headers_first_framed:
  assumes "headers_first h" and "framed A h h'"
    and A: "\<And>e. A e \<Longrightarrow> is_DATA e \<Longrightarrow> list_ex is_HEADERS (h_effects h)"
  shows "headers_first h'"
proof -
  from assms(2) obtain es where es: "h_effects h' = h_effects h @ es" "\<forall>e \<in> set es. A e" "h_state h' = h_state h"
    by (auto simp: framed_def)
  have "list_ex accepted_DATA es \<Longrightarrow> list_ex is_HEADERS (h_effects h)"
    using A es(2) accepted_is_DATA by (auto simp: list_ex_iff)
  moreover have "ordered headers_before_data (h_effects h')"
    unfolding es(1) using assms(1) es(2) A
    by (intro ordered_append) (auto simp: headers_first_def headers_before_data_def)
  ultimately show ?thesis using assms(1) by (auto simp: headers_first_def es(1,3))
qed

lemma headers_first_sends:
  assumes "headers_first h" and "framed (sends_in (h_state h)) h h'"
    and "h_state h = Cancelled \<or> h_state h = Finished \<Longrightarrow> list_ex is_HEADERS (h_effects h)"
  shows "headers_first h'"
  using assms(1,2)
proof (rule headers_first_framed)
  fix e assume "sends_in (h_state h) e" "is_DATA e"
  with assms(1,3) show "list_ex is_HEADERS (h_effects h)"
    by (cases "h_state h") (auto simp: sends_in_def headers_first_def)
qed

lemma headers_first_finish: "headers_first h \<Longrightarrow> headers_first (finish st h)"
  by (auto simp: finish_def handleContextExpired_def headers_first_def perform_def
      headers_before_data_def Let_def)

lemma headers_first_silent:
  "headers_first h \<Longrightarrow> h_state h' = h_state h \<Longrightarrow> h_effects h' = h_effects h \<Longrightarrow> headers_first h'"
  by (simp add: headers_first_def)

lemma headers_first_ends:
  "headers_first h \<Longrightarrow> ends A h h' \<Longrightarrow> (\<And>e. A e \<Longrightarrow> \<not> is_DATA e) \<Longrightarrow> headers_first h'"
  by (auto simp: ends_def receiving_def intro!: headers_first_finish intro: headers_first_framed)

lemma headers_first_perform: "headers_first h \<Longrightarrow> \<not> is_DATA e \<Longrightarrow> headers_first (perform e h)"
  by (rule headers_first_framed [OF _ framed_perform [of "\<lambda>e. \<not> is_DATA e"]]) auto

lemma headers_first_handleHeaders:
  assumes "headers_first h"
  shows "headers_first (handleHeaders net hs phase h)"
proof (cases "h_context h")
  case False
  then show ?thesis using assms
    by (auto simp: handleHeaders_def handleContextExpired_def headers_first_def perform_def
        headers_before_data_def)
next
  case True
  have sc: "scanned h (scan_headers net phase hs new_scan h)" by (rule scanned_headers)
  show ?thesis
  proof (cases "scan_headers net phase hs new_scan h")
    case (Inl h')
    with sc assms show ?thesis
      using True by (auto simp: scanned_def handleHeaders_def handleContextExpired_def intro: headers_first_ends)
  next
    case (Inr r)
    then obtain s h' where r: "scan_headers net phase hs new_scan h = Inr (s, h')" by (cases r) auto
    with sc have "framed (\<lambda>_. False) h h'" by (simp add: scanned_def receiving_def)
    with assms have "headers_first h'" by (auto intro: headers_first_framed)
    then have "headers_first (conclude_headers phase s h')"
      by (auto simp: conclude_headers_def intro!: headers_first_finish headers_first_perform)
    with True r show ?thesis by (simp add: handleHeaders_def handleContextExpired_def)
  qed
qed

lemma headers_first_cancel:
  assumes "headers_first h"
  shows "headers_first (cancelWithStatus net st h)"
proof (cases "Cancelled \<le> h_state h")
  case True
  with assms show ?thesis by (simp add: cancelWithStatus_def)
next
  case False
  let ?h = "h\<lparr>h_state := Cancelled\<rparr>"
  have h: "headers_first ?h" using assms by (simp add: headers_first_def)
  have "headers_first (perform (CallRST ok) (?h\<lparr>h_stream := s\<rparr>))" for ok s
    using h by (intro headers_first_perform headers_first_silent [OF h]) simp_all
  with h False show ?thesis
    by (auto simp: cancelWithStatus_def Let_def split: option.split prod.split
        intro!: headers_first_finish)
qed

lemma headers_first_sendInitialRequest:
  assumes "headers_first h"
  shows "headers_first (sendInitialRequest net h)"
proof (cases "Cancelled \<le> h_state h \<or> h_stream h = None")
  case True
  with assms show ?thesis by (auto simp: sendInitialRequest_def intro!: headers_first_perform)
next
  case False
  then obtain s where s: "h_stream h = Some s" by auto
  obtain ok s' where hd: "sendHEADERS net s (h_initialHeaders h) False = (ok, s')"
    by (cases "sendHEADERS net s (h_initialHeaders h) False") auto
  let ?h1 = "perform (CallHEADERS (h_initialHeaders h) ok) (h\<lparr>h_stream := Some s'\<rparr>)"
  have h1: "headers_first ?h1"
    by (intro headers_first_perform headers_first_silent [OF assms]) simp_all
  show ?thesis
  proof (cases ok)
    case False
    have "headers_first (asyncFinish st ?h1)" for st
      using h1 by (auto simp: asyncFinish_def handleContextExpired_def headers_first_def perform_def
          headers_before_data_def)
    then show ?thesis using False \<open>\<not> (Cancelled \<le> h_state h \<or> h_stream h = None)\<close>
      by (auto simp: sendInitialRequest_def s hd Let_def)
  next
    case True
    let ?h2 = "?h1\<lparr>h_state := RequestHeadersSent, h_initialHeaders := []\<rparr>"
    have "headers_first ?h2"
      using h1 True by (simp add: headers_first_def perform_def)
    from headers_first_sends [OF this framed_processQueue]
    have "headers_first (processQueue net ?h2)" by simp
    then show ?thesis using True \<open>\<not> (Cancelled \<le> h_state h \<or> h_stream h = None)\<close>
      by (auto simp: sendInitialRequest_def s hd Let_def intro: headers_first_silent)
  qed
qed

lemma headers_first_handle:
  assumes "headers_first h" and "enabled e h"
  shows "headers_first (handle net e h)"
proof (cases e)
  case (HeadersReceived hs endStream)
  have "headers_first (h\<lparr>h_state := Active\<rparr>)"
    if "header_phase_of (h_state h) endStream \<noteq> InvalidPhase"
    using that assms(1) by (auto simp: headers_first_def header_phase_of_def split: if_splits)
  then show ?thesis using assms(1)
    by (auto simp: HeadersReceived onHeadersReceived_def Let_def
        intro!: headers_first_perform headers_first_handleHeaders)
next
  case (DataReceived bs endStream)
  have "\<And>e. is_receive e \<Longrightarrow> \<not> is_DATA e" by (case_tac e) auto
  with onDataReceived_cases [of h net bs endStream] show ?thesis
    using assms(1) by (auto simp: DataReceived receiving_def intro: headers_first_framed headers_first_ends)
next
  case (WriteMessageRequested bs)
  show ?thesis
  proof (cases "h_state h \<le> Active")
    case True
    show ?thesis
    proof (cases rule: writeMessage_cases [of h net bs])
      case quiet
      from headers_first_sends [OF assms(1) quiet] True show ?thesis
        by (auto simp: WriteMessageRequested)
    next
      case (too_long st)
      then show ?thesis using assms(1) by (simp add: WriteMessageRequested headers_first_finish)
    qed
  next
    case False
    then have "writeMessage net bs h = h" by (cases "h_state h") (auto simp: writeMessage_def)
    with assms show ?thesis by (simp add: WriteMessageRequested)
  qed
next
  case WritesDoneRequested
  show ?thesis
  proof (cases "h_state h \<le> Active")
    case True
    with headers_first_sends [OF assms(1) framed_writesDone] show ?thesis
      by (auto simp: WritesDoneRequested)
  next
    case False
    then have "writesDone net h = h" by (cases "h_state h") (auto simp: writesDone_def)
    with assms show ?thesis by (simp add: WritesDoneRequested)
  qed
next
  case StreamUploadFinished
  with assms have "list_ex is_HEADERS (h_effects h)" by (simp add: headers_first_def)
  with headers_first_sends [OF assms(1) framed_onUploadFinished] show ?thesis
    by (simp add: StreamUploadFinished)
next
  case (StreamBytesWritten n)
  then show ?thesis using assms(1)
    by (auto simp: onBytesWritten_def Let_def intro!: headers_first_perform intro: headers_first_silent)
next
  case PostedMessageWritten
  then show ?thesis using assms(1)
    by (auto simp: deliverMessageWritten_def Let_def intro!: headers_first_perform intro: headers_first_silent)
next
  case ContextDestroyed
  then show ?thesis using assms(1)
    by (auto intro!: headers_first_perform intro: headers_first_silent)
next
  case (AsyncFinishCalled st)
  then show ?thesis
    using assms by (auto simp: asyncFinish_def handleContextExpired_def intro: headers_first_silent)
qed (use assms(1) in \<open>auto simp: attachStream_def cancel_def deadlineTimeout_def
       headers_first_sendInitialRequest intro!: headers_first_finish headers_first_cancel
       intro: headers_first_silent\<close>)

lemma headers_first_new: "headers_first (new_handler net ch rpc co cho env bs e)"
proof -
  have *: "headers_first (writeMessage net bs h)" if "h_effects h = []" "h_state h = Idle" for h :: "'a http2_handler"
  proof -
    have h: "headers_first h" using that by (simp add: headers_first_def)
    show ?thesis
    proof (cases rule: writeMessage_cases [of h net bs])
      case quiet
      from headers_first_sends [OF h quiet] that show ?thesis by simp
    next
      case (too_long st)
      then show ?thesis using h by (simp add: headers_first_finish)
    qed
  qed
  show ?thesis unfolding new_handler_def by (rule *) simp_all
qed

subsection \<open>The queue\<close>

fun data_calls :: "effect list \<Rightarrow> byte list list" where
  "data_calls [] = []"
| "data_calls (CallDATA m c ok # es) = m # data_calls es"
| "data_calls (e # es) = data_calls es"

text \<open>What was handed to the stream, and what still waits.\<close>

definition outgoing :: "'s http2_handler \<Rightarrow> byte list list" where
  "outgoing h = data_calls (h_effects h) @ h_queue h"

definition bytes_accounted :: "'s http2_handler \<Rightarrow> bool" where
  "bytes_accounted h \<longleftrightarrow> h_queuedBytes h = of_nat (sum_list (map length (h_queue h)))"

definition keeps_queue :: "'s http2_handler \<Rightarrow> 's http2_handler \<Rightarrow> bool" where
  "keeps_queue h h' \<longleftrightarrow> outgoing h' = outgoing h \<and> (bytes_accounted h \<longrightarrow> bytes_accounted h')"

lemma data_calls_append [simp]: "data_calls (es @ ds) = data_calls es @ data_calls ds"
  by (induction es rule: data_calls.induct) auto

lemma data_calls_none: "\<forall>e \<in> set es. \<not> is_DATA e \<Longrightarrow> data_calls es = []"
  by (induction es rule: data_calls.induct) auto

lemma keeps_queue_refl [simp]: "keeps_queue h h"
  by (simp add: keeps_queue_def)

lemma keeps_queue_trans [trans]: "keeps_queue a b \<Longrightarrow> keeps_queue b c \<Longrightarrow> keeps_queue a c"
  by (simp add: keeps_queue_def)

lemma keeps_queue_silent:
  "h_queue h' = h_queue h \<Longrightarrow> h_queuedBytes h' = h_queuedBytes h \<Longrightarrow> h_effects h' = h_effects h \<Longrightarrow>
   keeps_queue h h'"
  by (simp add: keeps_queue_def outgoing_def bytes_accounted_def)

lemma keeps_queue_perform: "\<not> is_DATA e \<Longrightarrow> keeps_queue h (perform e h)"
  by (simp add: keeps_queue_def outgoing_def bytes_accounted_def perform_def data_calls_none)

lemma keeps_queue_finish: "keeps_queue h (finish st h)"
  by (auto simp: keeps_queue_def outgoing_def bytes_accounted_def finish_def handleContextExpired_def
      perform_def Let_def)

lemma keeps_queue_receiving:
  "receiving A h h' \<Longrightarrow> (\<And>e. A e \<Longrightarrow> \<not> is_DATA e) \<Longrightarrow> keeps_queue h h'"
  by (auto simp: receiving_def framed_def keeps_queue_def outgoing_def bytes_accounted_def data_calls_none)

lemma keeps_queue_ends: "ends A h h' \<Longrightarrow> (\<And>e. A e \<Longrightarrow> \<not> is_DATA e) \<Longrightarrow> keeps_queue h h'"
  unfolding ends_def by (metis keeps_queue_finish keeps_queue_receiving keeps_queue_trans)

text \<open>One round of the loop moves the first message to the stream.\<close>

lemma drain_signals_queue:
  "h_queue (fold drain_signal sigs h) = h_queue h \<and>
   h_queuedBytes (fold drain_signal sigs h) = h_queuedBytes h \<and>
   data_calls (h_effects (fold drain_signal sigs h)) = data_calls (h_effects h)"
proof (induction sigs arbitrary: h)
  case (Cons sg sigs)
  have "h_queue (drain_signal sg h) = h_queue h \<and> h_queuedBytes (drain_signal sg h) = h_queuedBytes h \<and>
      data_calls (h_effects (drain_signal sg h)) = data_calls (h_effects h)"
    by (cases sg)
      (simp_all add: onBytesWritten_def uploadFinished_head_def scheduleMessageWritten_def perform_def Let_def)
  with Cons show ?case by simp
qed simp

lemma keeps_queue_drain_step:
  assumes "h_queue h = m # rest" and "drain_step net s m h = (ok, h')"
  shows "keeps_queue h h'"
proof -
  have "h_queue h' = rest \<and> h_queuedBytes h' = h_queuedBytes h - of_nat (length m) \<and>
      data_calls (h_effects h') = data_calls (h_effects h) @ [m]"
    using assms
    by (auto simp: drain_step_def Let_def drain_signals_queue perform_def split: prod.splits if_splits)
  then show ?thesis
    by (simp add: keeps_queue_def outgoing_def bytes_accounted_def assms(1))
qed

lemma keeps_queue_processQueue: "keeps_queue h (processQueue net h)"
proof -
  let ?h = "h\<lparr>h_drainingQueue := True\<rparr>"
  have "keeps_queue ?h (drain net ?h)"
    by (rule drain_rel) (auto intro: keeps_queue_trans keeps_queue_drain_step)
  then have "keeps_queue h ((drain net ?h)\<lparr>h_drainingQueue := h_drainingQueue h\<rparr>)"
    by (simp add: keeps_queue_def outgoing_def bytes_accounted_def)
  then show ?thesis by (simp add: processQueue_def split: option.split)
qed

text \<open>What an event adds to the queue.\<close>

definition write_refused :: "'s net \<Rightarrow> byte list \<Rightarrow> 's http2_handler \<Rightarrow> bool" where
  "write_refused net bs h \<longleftrightarrow>
     h_writesDoneSent h \<or> Active < h_state h \<or> isStreamClosedForSending net h \<or>
     uint GrpcMaxPayloadSize < int (length bs)"

definition framed_message :: "'s net \<Rightarrow> byte list \<Rightarrow> 's http2_handler \<Rightarrow> byte list" where
  "framed_message net bs h = fst (build_message (net_zlib net) (h_requestEncoding h) bs (h_compressor h))"

fun enqueued :: "'s net \<Rightarrow> 's event \<Rightarrow> 's http2_handler \<Rightarrow> byte list list" where
  "enqueued net (WriteMessageRequested bs) h =
     (if write_refused net bs h then [] else [framed_message net bs h])"
| "enqueued net WritesDoneRequested h =
     (if h_writesDoneSent h \<or> Active < h_state h \<or> isStreamClosedForSending net h then [] else [[]])"
| "enqueued net e h = []"

definition extends_queue :: "byte list list \<Rightarrow> 's http2_handler \<Rightarrow> 's http2_handler \<Rightarrow> bool" where
  "extends_queue ms h h' \<longleftrightarrow>
     outgoing h' = outgoing h @ ms \<and> (bytes_accounted h \<longrightarrow> bytes_accounted h')"

lemma keeps_queue_extends: "extends_queue [] h h' \<longleftrightarrow> keeps_queue h h'"
  by (simp add: extends_queue_def keeps_queue_def)

lemma extends_keeps: "extends_queue ms a b \<Longrightarrow> keeps_queue b c \<Longrightarrow> extends_queue ms a c"
  by (simp add: extends_queue_def keeps_queue_def)

lemma extends_queue_enqueue: "extends_queue [msg] h (enqueue_message msg h)"
  by (simp add: extends_queue_def outgoing_def bytes_accounted_def enqueue_message_def perform_def Let_def)

lemma extends_queue_writeMessage:
  "extends_queue (if write_refused net bs h then [] else [framed_message net bs h]) h (writeMessage net bs h)"
proof (cases "write_refused net bs h")
  case True
  then show ?thesis
    by (auto simp: write_refused_def writeMessage_def keeps_queue_extends keeps_queue_finish)
next
  case False
  obtain msg c where b: "build_message (net_zlib net) (h_requestEncoding h) bs (h_compressor h) = (msg, c)"
    by (cases "build_message (net_zlib net) (h_requestEncoding h) bs (h_compressor h)") auto
  have "extends_queue [msg] h (enqueue_message msg (h\<lparr>h_compressor := c\<rparr>))"
    using extends_queue_enqueue [of msg "h\<lparr>h_compressor := c\<rparr>"]
    by (simp add: extends_queue_def outgoing_def bytes_accounted_def)
  from extends_keeps [OF this keeps_queue_processQueue]
  have "extends_queue [msg] h (processQueue net (enqueue_message msg (h\<lparr>h_compressor := c\<rparr>)))" .
  from extends_keeps [OF this keeps_queue_silent]
  have "extends_queue [msg] h (warn_queue (processQueue net (enqueue_message msg (h\<lparr>h_compressor := c\<rparr>))))"
    by (simp add: warn_queue_def)
  with False show ?thesis by (simp add: write_refused_def writeMessage_def b framed_message_def)
qed

lemma keeps_queue_handleHeaders: "keeps_queue h (handleHeaders net hs phase h)"
proof (cases "h_context h")
  case False
  then show ?thesis
    by (simp add: handleHeaders_def handleContextExpired_def keeps_queue_def outgoing_def
        bytes_accounted_def perform_def)
next
  case True
  have sc: "scanned h (scan_headers net phase hs new_scan h)" by (rule scanned_headers)
  show ?thesis
  proof (cases "scan_headers net phase hs new_scan h")
    case (Inl h')
    with sc True show ?thesis
      by (auto simp: scanned_def handleHeaders_def handleContextExpired_def intro: keeps_queue_ends)
  next
    case (Inr r)
    then obtain s h' where r: "scan_headers net phase hs new_scan h = Inr (s, h')" by (cases r) auto
    with sc have k: "keeps_queue h h'" by (auto simp: scanned_def intro: keeps_queue_receiving)
    have "keeps_queue h' (conclude_headers phase s h')"
      by (auto simp: conclude_headers_def intro: keeps_queue_finish keeps_queue_perform
          keeps_queue_trans [OF keeps_queue_perform keeps_queue_finish])
    with True r k show ?thesis
      by (simp add: handleHeaders_def handleContextExpired_def keeps_queue_trans)
  qed
qed

lemma keeps_queue_cancel: "keeps_queue h (cancelWithStatus net st h)"
proof (cases "Cancelled \<le> h_state h")
  case False
  have "keeps_queue h (h\<lparr>h_state := Cancelled\<rparr>)"
      "keeps_queue h (perform (CallRST ok) (h\<lparr>h_state := Cancelled, h_stream := s\<rparr>))" for ok s
    by (simp_all add: keeps_queue_def outgoing_def bytes_accounted_def perform_def)
  then have "keeps_queue h (finish st (h\<lparr>h_state := Cancelled\<rparr>))"
      "keeps_queue h (finish st (perform (CallRST ok) (h\<lparr>h_state := Cancelled, h_stream := s\<rparr>)))" for ok s
    by (blast intro: keeps_queue_trans [OF _ keeps_queue_finish])+
  then show ?thesis using False
    by (auto simp: cancelWithStatus_def Let_def split: option.split prod.split)
qed (simp add: cancelWithStatus_def)

lemma keeps_queue_sendInitialRequest: "keeps_queue h (sendInitialRequest net h)"
proof (cases "Cancelled \<le> h_state h \<or> h_stream h = None")
  case True
  then show ?thesis by (auto simp: sendInitialRequest_def intro!: keeps_queue_perform)
next
  case False
  then obtain s where s: "h_stream h = Some s" by auto
  obtain ok s' where hd: "sendHEADERS net s (h_initialHeaders h) False = (ok, s')"
    by (cases "sendHEADERS net s (h_initialHeaders h) False") auto
  let ?h1 = "perform (CallHEADERS (h_initialHeaders h) ok) (h\<lparr>h_stream := Some s'\<rparr>)"
  let ?h2 = "?h1\<lparr>h_state := RequestHeadersSent, h_initialHeaders := []\<rparr>"
  have h1: "keeps_queue h ?h1" by (simp add: keeps_queue_def outgoing_def bytes_accounted_def perform_def)
  have "keeps_queue ?h1 (asyncFinish st ?h1)" for st
    by (auto simp: asyncFinish_def handleContextExpired_def keeps_queue_def outgoing_def
        bytes_accounted_def perform_def)
  then have refused: "keeps_queue h (asyncFinish st ?h1)" for st by (rule keeps_queue_trans [OF h1])
  have "keeps_queue ?h1 ?h2" by (rule keeps_queue_silent) simp_all
  then have "keeps_queue h (processQueue net ?h2)"
    by (rule keeps_queue_trans [OF keeps_queue_trans [OF h1] keeps_queue_processQueue])
  then have sent: "keeps_queue h (processQueue net ?h2)"
      "keeps_queue h ((processQueue net ?h2)\<lparr>h_deadlineTimer := True\<rparr>)"
    by (simp_all add: keeps_queue_def outgoing_def bytes_accounted_def)
  from False refused sent show ?thesis
    by (cases ok) (auto simp: sendInitialRequest_def s hd Let_def)
qed

lemma extends_queue_handle: "extends_queue (enqueued net e h) h (handle net e h)"
proof (cases e)
  case (WriteMessageRequested bs)
  then show ?thesis using extends_queue_writeMessage [of net bs h] by simp
next
  case WritesDoneRequested
  let ?h = "h\<lparr>h_writesDoneSent := True\<rparr>"
  let ?g = "?h\<lparr>h_queue := h_queue ?h @ [[]]\<rparr>"
  have "extends_queue [[]] h ?g" by (simp add: extends_queue_def outgoing_def bytes_accounted_def)
  from extends_keeps [OF this keeps_queue_processQueue]
  have "extends_queue [[]] h (processQueue net ?g)" by simp
  moreover have "keeps_queue h ?h" by (rule keeps_queue_silent) simp_all
  ultimately show ?thesis
    by (auto simp: WritesDoneRequested writesDone_def Let_def keeps_queue_extends isStreamClosedForSending_def)
next
  case (HeadersReceived hs endStream)
  have "keeps_queue h (h\<lparr>h_state := Active\<rparr>)" by (rule keeps_queue_silent) simp_all
  then show ?thesis
    by (auto simp: HeadersReceived keeps_queue_extends onHeadersReceived_def Let_def
        intro!: keeps_queue_perform intro: keeps_queue_trans keeps_queue_handleHeaders)
next
  case (DataReceived bs endStream)
  have "\<And>e. is_receive e \<Longrightarrow> \<not> is_DATA e" by (case_tac e) auto
  with onDataReceived_cases [of h net bs endStream] show ?thesis
    by (auto simp: DataReceived keeps_queue_extends intro: keeps_queue_receiving keeps_queue_ends)
next
  case StreamUploadFinished
  have "keeps_queue h (uploadFinished_head h)"
    by (rule keeps_queue_silent) (simp_all add: uploadFinished_head_def scheduleMessageWritten_def)
  then show ?thesis
    by (auto simp: StreamUploadFinished keeps_queue_extends onUploadFinished_def Let_def
        intro: keeps_queue_trans keeps_queue_processQueue)
next
  case (StreamBytesWritten n)
  show ?thesis
    by (simp add: StreamBytesWritten keeps_queue_extends onBytesWritten_def Let_def keeps_queue_def
        outgoing_def bytes_accounted_def perform_def)
next
  case PostedMessageWritten
  show ?thesis
    by (simp add: PostedMessageWritten keeps_queue_extends deliverMessageWritten_def Let_def keeps_queue_def
        outgoing_def bytes_accounted_def perform_def)
next
  case ContextDestroyed
  show ?thesis
    by (simp add: ContextDestroyed keeps_queue_extends keeps_queue_def outgoing_def
        bytes_accounted_def perform_def)
next
  case (AsyncFinishCalled st)
  show ?thesis
    by (auto simp: AsyncFinishCalled keeps_queue_extends asyncFinish_def handleContextExpired_def
        keeps_queue_def outgoing_def bytes_accounted_def perform_def)
next
  case (FinishCalled st)
  show ?thesis by (simp add: FinishCalled keeps_queue_extends keeps_queue_finish)
next
  case SendInitialRequest
  show ?thesis by (simp add: SendInitialRequest keeps_queue_extends keeps_queue_sendInitialRequest)
next
  case CancelRequested
  show ?thesis by (simp add: CancelRequested keeps_queue_extends cancel_def keeps_queue_cancel)
next
  case DeadlineExpired
  have "keeps_queue h (h\<lparr>h_deadlineTimer := False\<rparr>)" by (rule keeps_queue_silent) simp_all
  then show ?thesis
    by (auto simp: DeadlineExpired keeps_queue_extends deadlineTimeout_def intro: keeps_queue_trans keeps_queue_cancel)
next
  case (StreamError err msg)
  have "keeps_queue h (h\<lparr>h_errorConnected := False\<rparr>)" by (rule keeps_queue_silent) simp_all
  then show ?thesis
    by (auto simp: StreamError keeps_queue_extends intro: keeps_queue_trans keeps_queue_finish)
next
  case PostedFinish
  have "keeps_queue h (h\<lparr>h_pendingFinish := tl (h_pendingFinish h)\<rparr>)" by (rule keeps_queue_silent) simp_all
  then show ?thesis
    by (auto simp: PostedFinish keeps_queue_extends intro: keeps_queue_trans keeps_queue_finish)
qed (simp_all add: keeps_queue_extends attachStream_def keeps_queue_silent)

end
