(* ===== verification/HandlerCorrectness.thy ===== *)
theory HandlerCorrectness
  imports HandlerInvariants
begin

text \<open>
  The guarantees of a call as the user sees them, for every sequence of events that can reach a
  handler, and the two places where the code does not keep to one \<open>finished\<close> as the last signal.
\<close>

subsection \<open>A concrete network\<close>

text \<open>
  For closed examples: a stream that accepts everything and sends it at once, encodings that do
  not change anything, and decimal numbers.
\<close>

definition plain_number :: "string \<Rightarrow> int option" where
  "plain_number s =
     (if s \<noteq> [] \<and> list_all (\<lambda>c. 48 \<le> (of_char c :: nat) \<and> (of_char c :: nat) \<le> 57) s
      then Some (fold (\<lambda>c n. n * 10 + (of_char c - 48)) s 0) else None)"

definition demo_net :: "stream_state net" where
  "demo_net =
     \<lparr>stream_state = (\<lambda>s. s), isUploadingDATA = (\<lambda>s. False),
      sendHEADERS = (\<lambda>s hs e. (True, Open)),
      sendDATA = (\<lambda>s m e. (True, [BytesWritten (length m), UploadFinished],
                           if e then HalfClosedLocal else s)),
      sendRST_STREAM = (\<lambda>s. (True, StreamClosed)),
      net_zlib = demo_zlib, setEncoding = (\<lambda>e. True),
      inflate_reads = (\<lambda>e bs. [Some bs]), inflate_errorString = [],
      toInt = (\<lambda>s. option_or (plain_number s) 0), toShort = plain_number, utf8_text = (\<lambda>s. s)\<rparr>"

definition demo_channel_headers :: channel_headers where
  "demo_channel_headers =
     \<lparr>authorityHeader = ''localhost'', schemeHeader = ''http'', contentType = DefaultContentType,
      acceptEncodingHeader = ''identity'', userAgent = ''grpc-c++-qtgrpc''\<rparr>"

definition demo_call :: "byte list \<Rightarrow> bool \<Rightarrow> stream_state http2_handler" where
  "demo_call bs endStream =
     new_handler demo_net demo_channel_headers
       \<lparr>service = ''S'', rpc_method = ''M'', rpc_kind = BidiStreaming\<rparr> new_common_options
       (new_channel_options (\<lambda>_. True) 0) None bs endStream"

fun run_events :: "'s net \<Rightarrow> 's event list \<Rightarrow> 's http2_handler \<Rightarrow> 's http2_handler option" where
  "run_events net [] h = Some h"
| "run_events net (e # es) h = (if enabled e h then run_events net es (handle net e h) else None)"

lemma handler_run_append:
  "handler_run net h' es h'' \<Longrightarrow> handler_run net h [e] h' \<Longrightarrow> handler_run net h (e # es) h''"
proof (induction rule: handler_run.induct)
  case (run_snoc h' es h1 e' h2)
  then have "handler_run net h ((e # es) @ [e']) h2" by (blast intro: handler_run.run_snoc)
  then show ?case by simp
qed simp

lemma run_events_run: "run_events net es h = Some h' \<Longrightarrow> handler_run net h es h'"
proof (induction es arbitrary: h)
  case (Cons e es)
  then have "handler_run net h ([] @ [e]) (handle net e h)"
    by (intro run_snoc [OF run_nil]) (auto simp: handler_step_iff split: if_splits)
  with Cons show ?case by (auto split: if_splits intro: handler_run_append)
qed (simp add: run_nil)

definition demo_events :: "stream_state event list" where
  "demo_events =
     [AttachStream StreamIdle, SendInitialRequest, WriteMessageRequested [1, 2], WritesDoneRequested,
      HeadersReceived [('':status'', ''200''), (''content-type'', ''application/grpc'')] False,
      DataReceived [0, 0, 0, 0, 1, 42] False, PostedMessageWritten,
      HeadersReceived [(''grpc-status'', ''0'')] True]"

definition demo_result :: "stream_state http2_handler" where
  "demo_result = the (run_events demo_net demo_events (demo_call [7] False))"

lemma demo_run: "handler_run demo_net (demo_call [7] False) demo_events demo_result"
proof -
  have "run_events demo_net demo_events (demo_call [7] False) \<noteq> None" by code_simp
  then show ?thesis by (intro run_events_run) (simp add: demo_result_def)
qed

lemma demo_state: "h_state demo_result = Finished" by code_simp

subsection \<open>One end\<close>

text \<open>C18: the life cycle of a call: whatever happens to it and in whatever order, no \<open>finished\<close> is
  signalled before it has ended, exactly one when it ended in the state \<open>Finished\<close>, at least one
  when it was cancelled, and after \<open>finished\<close> neither \<open>messageWritten\<close> nor metadata is signalled.\<close>

theorem call_life_cycle:
  assumes "handler_run net (new_handler net ch rpc co cho env bs endStream) es h"
  shows "(h_state h \<le> Active \<longrightarrow> finished_count h = 0) \<and>
         (h_state h = Finished \<longrightarrow> finished_count h = 1) \<and>
         (h_state h = Cancelled \<and> h_context h \<longrightarrow> 1 \<le> finished_count h) \<and>
         (\<forall>before e after. h_effects h = before @ e # after \<longrightarrow> is_live e \<longrightarrow>
            \<not> list_ex is_finished before)"
proof -
  have "life_cycle h"
    using assms life_cycle_new life_cycle_handle by (rule handler_run_induct)
  then show ?thesis
    unfolding life_cycle_def ordered_def quiet_after_finished_def by blast
qed

theorem call_life_cycle_witness:
  "h_state demo_result = Finished \<and> finished_count demo_result = 1"
  using call_life_cycle [OF demo_run [unfolded demo_call_def]] demo_state by simp

text \<open>a cancelled call can finish again: every \<open>finish\<close> that reaches a call in the state
  \<open>Cancelled\<close> before it is deleted (an error of the socket, the destruction of the channel) makes
  the context signal \<open>finished\<close> once more, so that it is signalled at least twice.\<close>

theorem cancelled_call_finishes_again:
  assumes "handler_run net (new_handler net ch rpc co cho env bs endStream) es h"
    and "h_state h = Cancelled" and "h_context h"
  shows "finished_count (handle net (FinishCalled st) h) = finished_count h + 1 \<and>
         2 \<le> finished_count (handle net (FinishCalled st) h)"
proof -
  have "life_cycle h"
    using assms(1) life_cycle_new life_cycle_handle by (rule handler_run_induct)
  then have "1 \<le> finished_count h" using assms(2,3) by (simp add: life_cycle_def)
  moreover have "finished_count (finish st h) = finished_count h + 1"
    using assms(2,3)
    by (simp add: finish_def handleContextExpired_def perform_def finished_count_def Let_def)
  ultimately show ?thesis by simp
qed

definition cancelled_call :: "stream_state http2_handler" where
  "cancelled_call = the (run_events demo_net
     [AttachStream StreamIdle, SendInitialRequest, CancelRequested] (demo_call [7] False))"

lemma cancelled_call_run:
  "handler_run demo_net (demo_call [7] False)
     [AttachStream StreamIdle, SendInitialRequest, CancelRequested] cancelled_call"
proof -
  have "run_events demo_net [AttachStream StreamIdle, SendInitialRequest, CancelRequested]
      (demo_call [7] False) \<noteq> None" by code_simp
  then show ?thesis by (intro run_events_run) (simp add: cancelled_call_def)
qed

lemma cancelled_call_state: "h_state cancelled_call = Cancelled \<and> h_context cancelled_call"
  by code_simp

text \<open>The events that end a call.\<close>

fun ending :: "'s event \<Rightarrow> 's http2_handler \<Rightarrow> bool" where
  "ending CancelRequested h = True"
| "ending DeadlineExpired h = True"
| "ending (FinishCalled st) h = True"
| "ending PostedFinish h = True"
| "ending (StreamError err msg) h = True"
| "ending (HeadersReceived hs endStream) h \<longleftrightarrow> endStream \<and> h_state h \<noteq> Idle"
| "ending (DataReceived bs endStream) h = endStream"
| "ending e h = False"

lemma finish_Finished: "h_context h \<Longrightarrow> h_state h \<noteq> Cancelled \<Longrightarrow> h_state (finish st h) = Finished"
  by (auto simp: finish_def handleContextExpired_def perform_def Let_def)

lemma ends_Finished:
  "ends A h h' \<Longrightarrow> h_context h \<Longrightarrow> h_state h \<noteq> Cancelled \<Longrightarrow> h_state h' = Finished"
  by (auto simp: ends_def receiving_def framed_def intro: finish_Finished)

lemma handleHeaders_ends:
  assumes "h_context h" and "h_state h = Active" and "phase \<noteq> Initial"
  shows "h_state (handleHeaders net hs phase h) = Finished"
proof -
  have sc: "scanned h (scan_headers net phase hs new_scan h)" by (rule scanned_headers)
  show ?thesis
  proof (cases "scan_headers net phase hs new_scan h")
    case (Inl h')
    with sc assms have "h_state h' = Finished" by (auto simp: scanned_def intro: ends_Finished)
    with Inl assms show ?thesis by (simp add: handleHeaders_def handleContextExpired_def)
  next
    case (Inr r)
    then obtain s h' where r: "scan_headers net phase hs new_scan h = Inr (s, h')" by (cases r) auto
    with sc assms have "h_context h'" "h_state h' = Active"
      by (auto simp: scanned_def receiving_def framed_def)
    then have "h_state (conclude_headers phase s h') = Finished"
      using assms(3) by (simp add: conclude_headers_def finish_Finished) (simp add: perform_def finish_Finished)
    with r assms show ?thesis by (simp add: handleHeaders_def handleContextExpired_def)
  qed
qed

lemma onDataReceived_end:
  assumes "h_context h" and "h_state h \<noteq> Cancelled"
  shows "h_state (onDataReceived net bs True h) = Finished"
proof -
  let ?h = "h\<lparr>h_parser := feed bs (h_parser h)\<rparr>"
  obtain go_on h' where run: "receive_frames net ?h = (go_on, h')" by (cases "receive_frames net ?h") auto
  show ?thesis
  proof (cases go_on)
    case True
    with receive_frames_cases [OF run] assms have "h_context h'" "h_state h' \<noteq> Cancelled"
      by (auto simp: receiving_def framed_def)
    with True assms show ?thesis by (simp add: onDataReceived_def run finish_Finished)
  next
    case False
    with receive_frames_cases [OF run] assms have "h_state h' = Finished"
      by (auto intro: ends_Finished)
    with False assms show ?thesis by (simp add: onDataReceived_def run)
  qed
qed

lemma cancelWithStatus_count:
  assumes "life_cycle h" and "h_state h \<le> Active" and "h_context h"
  shows "h_state (cancelWithStatus net st h) = Cancelled \<and> finished_count (cancelWithStatus net st h) = 1"
  using assms
  by (auto simp: cancelWithStatus_def finish_def handleContextExpired_def perform_def Let_def
      life_cycle_def finished_count_def split: option.split prod.split)

text \<open>C21: a call ends: in a call that has not ended, cancelling, an expired deadline, an error of the
  stream or of the socket, trailers or the end of the data stream make the context signal
  \<open>finished\<close> exactly once, and the call is then in one of its two final states.\<close>

theorem ending_event_finishes_call:
  assumes "handler_run net (new_handler net ch rpc co cho env bs endStream) es h"
    and "h_state h \<le> Active" and "h_context h" and "enabled e h" and "ending e h"
  shows "finished_count (handle net e h) = 1 \<and>
         (h_state (handle net e h) = Finished \<or> h_state (handle net e h) = Cancelled)"
proof -
  have lc: "life_cycle h"
    using assms(1) life_cycle_new life_cycle_handle by (rule handler_run_induct)
  have fin: "h_state (handle net e h) = Finished \<Longrightarrow> ?thesis"
    using life_cycle_handle [OF lc assms(4)] by (simp add: life_cycle_def)
  have ncan: "h_state h \<noteq> Cancelled" using assms(2) by auto
  show ?thesis
  proof (cases e)
    case CancelRequested
    then show ?thesis using cancelWithStatus_count [OF lc assms(2,3)] by (simp add: cancel_def)
  next
    case DeadlineExpired
    have "life_cycle (h\<lparr>h_deadlineTimer := False\<rparr>)" using lc by simp
    with cancelWithStatus_count [of "h\<lparr>h_deadlineTimer := False\<rparr>"] assms(2,3)
    show ?thesis by (simp add: DeadlineExpired deadlineTimeout_def)
  next
    case (HeadersReceived hs endS)
    with assms(2,5) have "endS" "h_state h = RequestHeadersSent \<or> h_state h = Active" by auto
    then have "h_state (handle net e h) = Finished"
      using assms(3) by (auto simp: HeadersReceived onHeadersReceived_def header_phase_of_def Let_def
          intro!: handleHeaders_ends)
    then show ?thesis by (rule fin)
  next
    case (DataReceived d endS)
    with assms(3,5) ncan have "h_state (handle net e h) = Finished"
      by (simp add: onDataReceived_end)
    then show ?thesis by (rule fin)
  qed (rule fin; use assms(3,5) ncan in \<open>auto simp: finish_Finished\<close>)+
qed

theorem ending_event_finishes_call_witness:
  "finished_count (handle demo_net CancelRequested (demo_call [7] False)) = 1"
proof -
  have "h_state (demo_call [7] False) \<le> Active \<and> h_context (demo_call [7] False)" by code_simp
  then show ?thesis
    using ending_event_finishes_call [OF run_nil, of demo_net demo_channel_headers _ _ _ _ "[7]" False CancelRequested]
    by (auto simp: demo_call_def)
qed

text \<open>after a call has finished by itself the data that still arrives is parsed and delivered:
  a complete message that is not compressed makes the context signal \<open>messageReceived\<close> although
  \<open>finished\<close> has been signalled before. Only a cancelled call drops its data.\<close>

theorem data_after_finished_is_delivered:
  assumes "handler_run net (new_handler net ch rpc co cho env bs endStream) es h"
    and "h_state h = Finished" and "container (h_parser h) = []"
    and "length payload \<le> unat (maxReceiveSize (h_parser h))"
  shows "\<exists>before. h_effects (onDataReceived net (frame_message 0 payload) False h) =
           before @ [EmitMessageReceived payload] \<and> list_ex is_finished before"
proof -
  have "life_cycle h"
    using assms(1) life_cycle_new life_cycle_handle by (rule handler_run_induct)
  then have fin: "list_ex is_finished (h_effects h)"
    using assms(2) no_finished [of h] by (simp add: life_cycle_def)
  let ?max = "maxReceiveSize (h_parser h)"
  have "frame_dec ?max (frame_message 0 payload @ []) = Some ((payload, False), [])"
    using frame_dec_frame [OF assms(4), of 0 "[]"] by simp
  then have p: "parseNextFrame \<lparr>maxReceiveSize = ?max, container = frame_message 0 payload\<rparr> =
      (Frame payload False, \<lparr>maxReceiveSize = ?max, container = []\<rparr>)"
    by (intro parseNextFrame_Frame) simp
  have f: "feed (frame_message 0 payload) (h_parser h) =
      \<lparr>maxReceiveSize = ?max, container = frame_message 0 payload\<rparr>"
    using assms(3) by (cases "h_parser h") (simp add: feed_def)
  have idle: "parseNextFrame \<lparr>maxReceiveSize = ?max, container = []\<rparr> =
      (NeedMoreData, \<lparr>maxReceiveSize = ?max, container = []\<rparr>)"
    by (simp add: parseNextFrame_def GrpcMessageSizeHeaderSize_def)
  let ?h = "h\<lparr>h_parser := \<lparr>maxReceiveSize = ?max, container = frame_message 0 payload\<rparr>\<rparr>"
  let ?g = "perform (EmitMessageReceived payload) (h\<lparr>h_parser := \<lparr>maxReceiveSize = ?max, container = []\<rparr>\<rparr>)"
  have "receive_frames net ?h = receive_frames net ?g"
    by (subst receive_frames.simps) (simp add: p frame_payload_def Let_def)
  also have "receive_frames net ?g = (True, ?g)"
    by (subst receive_frames.simps) (simp add: perform_def idle)
  finally have "h_effects (onDataReceived net (frame_message 0 payload) False h) =
      h_effects h @ [EmitMessageReceived payload]"
    using assms(2) by (simp add: onDataReceived_def f) (simp add: perform_def)
  with fin show ?thesis by blast
qed

subsection \<open>Sending in order\<close>

fun accepted :: "'s net \<Rightarrow> 's event list \<Rightarrow> 's http2_handler \<Rightarrow> byte list list" where
  "accepted net [] h = []"
| "accepted net (e # es) h = enqueued net e h @ accepted net es (handle net e h)"

lemma accepted_snoc:
  "accepted net (es @ [e]) h = accepted net es h @ enqueued net e (fold (handle net) es h)"
  by (induction es arbitrary: h) simp_all

lemma handler_run_fold: "handler_run net h es h' \<Longrightarrow> h' = fold (handle net) es h"
  by (induction rule: handler_run.induct) (auto simp: handler_step_iff)

lemma run_extends_queue: "handler_run net h es h' \<Longrightarrow> extends_queue (accepted net es h) h h'"
proof (induction rule: handler_run.induct)
  case (run_nil h)
  then show ?case by (simp add: extends_queue_def)
next
  case (run_snoc h es h1 e h2)
  from run_snoc(2) have h2: "h2 = handle net e h1" by (simp add: handler_step_iff)
  from handler_run_fold [OF run_snoc(1)] have h1: "fold (handle net) es h = h1" ..
  from run_snoc.IH extends_queue_handle [of net e h1] show ?case
    by (auto simp: extends_queue_def accepted_snoc h1 h2)
qed

lemma new_handler_queue:
  "bytes_accounted (new_handler net ch rpc co cho env bs endStream) \<and>
   outgoing (new_handler net ch rpc co cho env bs endStream) =
     (if uint GrpcMaxPayloadSize < int (length bs) then []
      else [fst (build_message (net_zlib net) (constructRequestEncoding co cho) bs None)])"
proof -
  have "extends_queue (if write_refused net bs h then [] else [framed_message net bs h]) h (writeMessage net bs h)"
    for h
    by (rule extends_queue_writeMessage)
  from this [of "\<lparr>h_context = True, h_initialHeaders = constructInitialHeaders ch rpc co cho,
        h_queue = [], h_stream = None,
        h_parser = new_parser (constructMaximumReceiveSize co cho env),
        h_negotiatedEncoding = [], h_decompressor = None, h_compressor = None, h_state = Idle,
        h_endStreamAtFirstData = endStream, h_writesDoneSent = False, h_drainingQueue = False,
        h_inFlightUserWrite = False, h_queuedBytes = 0,
        h_nextQueueWarnBytes = QueuedBytesWarningThreshold, h_bytesToWrite = 0,
        h_filterServerMetadata = constructFilterServerMetadata co cho,
        h_deadlineTimer = False, h_requestEncoding = constructRequestEncoding co cho,
        h_deadline = call_deadline co cho,
        h_accepted = co_acceptedCompressionAlgorithms cho, h_errorConnected = False,
        h_pendingWritten = 0, h_pendingFinish = [], h_effects = []\<rparr>"]
  show ?thesis
    by (auto simp: new_handler_def extends_queue_def outgoing_def bytes_accounted_def
        write_refused_def framed_message_def isStreamClosedForSending_def)
qed

text \<open>C19: messages leave in order and none is lost or doubled: at any time the buffers that were
  handed to \<open>sendDATA\<close>, followed by the queue, are the framed initial message followed by what the
  accepted writes and \<open>writesDone\<close> added, and the counter of queued bytes is the size of the queue
  modulo 2^64.\<close>

theorem messages_sent_in_order:
  assumes "h\<^sub>0 = new_handler net ch rpc co cho env bs endStream" and "handler_run net h\<^sub>0 es h"
  shows "data_calls (h_effects h) @ h_queue h =
           (if uint GrpcMaxPayloadSize < int (length bs) then []
            else [fst (build_message (net_zlib net) (constructRequestEncoding co cho) bs None)]) @
           accepted net es h\<^sub>0 \<and>
         h_queuedBytes h = of_nat (sum_list (map length (h_queue h)))"
  using run_extends_queue [OF assms(2)] new_handler_queue [of net ch rpc co cho env bs endStream]
  by (auto simp: extends_queue_def outgoing_def bytes_accounted_def assms(1))

theorem messages_sent_in_order_witness:
  "data_calls (h_effects demo_result) @ h_queue demo_result =
     [[0, 0, 0, 0, 1, 7], [0, 0, 0, 0, 2, 1, 2], []]"
proof -
  have "fst (build_message demo_zlib Identity [7] None) = [0, 0, 0, 0, 1, 7]"
      "\<not> uint GrpcMaxPayloadSize < int (length [7 :: byte])"
      "constructRequestEncoding new_common_options (new_channel_options (\<lambda>_. True) 0) = Identity"
      "accepted demo_net demo_events (demo_call [7] False) = [[0, 0, 0, 0, 2, 1, 2], []]"
    by code_simp+
  moreover have "net_zlib demo_net = demo_zlib" by (simp add: demo_net_def)
  moreover note messages_sent_in_order [OF refl demo_run [unfolded demo_call_def]]
  ultimately show ?thesis by (simp add: demo_call_def)
qed

text \<open>C20: HTTP/2 order: no DATA frame is ever requested from the stream before it has accepted the
  HEADERS of the request.\<close>

theorem headers_precede_data:
  assumes "handler_run net (new_handler net ch rpc co cho env bs endStream) es h"
    and "h_effects h = before @ CallDATA m closeStream ok # after"
  shows "\<exists>hs. CallHEADERS hs True \<in> set before"
proof -
  have "headers_first h"
    using assms(1) headers_first_new headers_first_handle by (rule handler_run_induct)
  with assms(2) have "list_ex is_HEADERS before"
    by (auto simp: headers_first_def ordered_def headers_before_data_def)
  then obtain e where e: "e \<in> set before" "is_HEADERS e" by (auto simp: list_ex_iff)
  from e(2) obtain hs where "e = CallHEADERS hs True" by (cases e) auto
  with e(1) show ?thesis by blast
qed

theorem headers_precede_data_witness:
  "\<exists>hs. CallHEADERS hs True \<in> set (take 2 (h_effects demo_result))"
proof -
  have "h_effects demo_result ! 2 = CallDATA [0, 0, 0, 0, 1, 7] False True" "2 < length (h_effects demo_result)"
    by code_simp+
  then have "h_effects demo_result =
      take 2 (h_effects demo_result) @ CallDATA [0, 0, 0, 0, 1, 7] False True # drop 3 (h_effects demo_result)"
    using id_take_nth_drop [of 2 "h_effects demo_result"] by (simp add: eval_nat_numeral)
  from headers_precede_data [OF demo_run [unfolded demo_call_def] this] show ?thesis .
qed

subsection \<open>Receiving in order\<close>

text \<open>The loop of \<open>dataReceived\<close> on plain frames is the decoder of the stream codec.\<close>

definition deliver :: "(byte list \<times> bool) list \<Rightarrow> byte list \<Rightarrow> 's http2_handler \<Rightarrow> 's http2_handler" where
  "deliver fs rest h =
     h\<lparr>h_parser := (h_parser h)\<lparr>container := rest\<rparr>,
       h_effects := h_effects h @ map (\<lambda>f. EmitMessageReceived (fst f)) fs\<rparr>"

lemma receive_one:
  assumes "frame_dec (maxReceiveSize (h_parser h)) (container (h_parser h)) = Some ((payload, False), rest)"
  shows "receive_frames net h = receive_frames net (deliver [(payload, False)] rest h)"
proof -
  have "parseNextFrame (h_parser h) = (Frame payload False, (h_parser h)\<lparr>container := rest\<rparr>)"
    using parseNextFrame_Frame [OF assms] by (cases "h_parser h") simp
  then show ?thesis
    by (subst receive_frames.simps) (simp add: frame_payload_def deliver_def perform_def Let_def)
qed

lemma not_oversize:
  assumes "frame_dec m bs = None" and "decode_all (frame_dec m) (bs @ ext) = (fs, [])"
  shows "parseNextFrame \<lparr>maxReceiveSize = m, container = bs\<rparr> =
           (NeedMoreData, \<lparr>maxReceiveSize = m, container = bs\<rparr>)"
proof (cases "parseNextFrame \<lparr>maxReceiveSize = m, container = bs\<rparr>")
  case (Pair r ps)
  show ?thesis
  proof (cases r)
    case NeedMoreData
    with Pair show ?thesis by (auto simp: parseNextFrame_def Let_def split: if_splits)
  next
    case (Frame payload c)
    with Pair assms(1) show ?thesis by (simp add: frame_dec_def)
  next
    case (Oversize n)
    with Pair have big: "5 \<le> length bs" "m < from_big_endian (take 4 (drop 1 bs))"
      by (auto simp: parseNextFrame_def Let_def GrpcMessageSizeHeaderSize_def split: if_splits)
    then have "frame_dec m (bs @ ext) = None"
      by (auto simp: frame_dec_def parseNextFrame_def Let_def GrpcMessageSizeHeaderSize_def)
    then have "decode_all (frame_dec m) (bs @ ext) = ([], bs @ ext)"
      by (rule grpc_frame.decode_all_None)
    with assms(2) big(1) show ?thesis by simp
  qed
qed

lemma receive_plain:
  assumes "decode_all (frame_dec (maxReceiveSize (h_parser h))) (container (h_parser h)) = (fs, rest)"
    and "\<forall>f \<in> set fs. \<not> snd f"
    and "decode_all (frame_dec (maxReceiveSize (h_parser h))) (container (h_parser h) @ ext) = (gs, [])"
  shows "receive_frames net h = (True, deliver fs rest h)"
  using assms
proof (induction "length (container (h_parser h))" arbitrary: h fs gs rule: less_induct)
  case less
  let ?m = "maxReceiveSize (h_parser h)"
  show ?case
  proof (cases "frame_dec ?m (container (h_parser h))")
    case None
    with less.prems(1) have fs: "fs = []" "rest = container (h_parser h)"
      by (auto simp: grpc_frame.decode_all_None)
    have "parseNextFrame (h_parser h) = (NeedMoreData, h_parser h)"
      using not_oversize [OF None less.prems(3)] by (cases "h_parser h") simp
    then show ?thesis
      by (subst receive_frames.simps) (simp add: fs deliver_def)
  next
    case (Some y)
    then obtain payload c r where d: "frame_dec ?m (container (h_parser h)) = Some ((payload, c), r)"
      by (metis surj_pair)
    let ?g = "deliver [(payload, False)] r h"
    from grpc_frame.decode_all_Some [OF d] less.prems(1)
    have fs: "fs = (payload, c) # fst (decode_all (frame_dec ?m) r)" "rest = snd (decode_all (frame_dec ?m) r)"
      by auto
    with less.prems(2) have c: "\<not> c" by simp
    have dm: "frame_dec ?m (container (h_parser h) @ ext) = Some ((payload, c), r @ ext)"
      by (rule grpc_frame.dec_more [OF d])
    from grpc_frame.decode_all_Some [OF dm] less.prems(3)
    have gs: "decode_all (frame_dec ?m) (r @ ext) = (fst (decode_all (frame_dec ?m) (r @ ext)), [])"
      by (metis prod.collapse snd_conv)
    have g: "h_parser ?g = (h_parser h)\<lparr>container := r\<rparr>" by (simp add: deliver_def)
    have "receive_frames net ?g = (True, deliver (fst (decode_all (frame_dec ?m) r)) rest ?g)"
      using grpc_frame.dec_consumes [OF d] less.prems(2) fs gs
      by (intro less.hyps) (simp_all add: g)
    then show ?thesis
      using receive_one [of h payload r net] d c by (simp add: fs(1) deliver_def)
  qed
qed

lemma receive_chunks:
  assumes "decode_all (frame_dec m) (container (h_parser g) @ concat cs) = (fs, [])"
    and "frame_dec m (container (h_parser g)) = None" and "\<forall>f \<in> set fs. \<not> snd f"
    and "maxReceiveSize (h_parser g) = m" and "h_state g \<noteq> Cancelled"
  shows "fold (\<lambda>bs. onDataReceived net bs False) cs g = deliver fs [] g"
  using assms
proof (induction cs arbitrary: g fs)
  case Nil
  then show ?case by (simp add: grpc_frame.decode_all_None deliver_def)
next
  case (Cons c cs)
  let ?g = "g\<lparr>h_parser := feed c (h_parser g)\<rparr>"
  have cont: "container (h_parser ?g) = container (h_parser g) @ c" "maxReceiveSize (h_parser ?g) = m"
    using Cons.prems(4) by (simp_all add: feed_def)
  obtain xs r where d: "decode_all (frame_dec m) (container (h_parser g) @ c) = (xs, r)"
    by (cases "decode_all (frame_dec m) (container (h_parser g) @ c)") auto
  have fs: "fs = xs @ fst (decode_all (frame_dec m) (r @ concat cs))"
      "snd (decode_all (frame_dec m) (r @ concat cs)) = []"
    using Cons.prems(1) grpc_frame.decode_all_append [of m "container (h_parser g) @ c" "concat cs"]
    by (simp_all add: d)
  have "receive_frames net ?g = (True, deliver xs r ?g)"
    by (rule receive_plain [where ext = "concat cs" and gs = fs])
      (use Cons.prems d fs in \<open>auto simp: cont feed_def\<close>)
  then have one: "onDataReceived net c False g = deliver xs r g"
    using Cons.prems(5) by (simp add: onDataReceived_def) (simp add: deliver_def feed_def)
  have "frame_dec m r = None" using grpc_frame.decode_all_idle [of m "container (h_parser g) @ c"] d by simp
  with Cons.IH [of "deliver xs r g" "fst (decode_all (frame_dec m) (r @ concat cs))"] Cons.prems fs
  have "fold (\<lambda>bs. onDataReceived net bs False) cs (deliver xs r g) =
      deliver (fst (decode_all (frame_dec m) (r @ concat cs))) [] (deliver xs r g)"
    by (simp add: deliver_def prod_eq_iff)
  then show ?case by (simp add: one fs(1)) (simp add: deliver_def)
qed

text \<open>C22: how the transport cuts the stream does not matter: when the bytes that arrive are the
  frames of uncompressed messages within the receive limit, then whatever the chunks of
  \<open>dataReceived\<close> are, the context signals exactly these messages, in order, and no byte is left.\<close>

theorem chunked_messages_received:
  assumes "concat chunks = concat (map (frame_message 0) payloads)"
    and "\<forall>m \<in> set payloads. length m \<le> unat (maxReceiveSize (h_parser h))"
    and "container (h_parser h) = []" and "h_state h \<noteq> Cancelled"
  shows "fold (\<lambda>bs. onDataReceived net bs False) chunks h =
           h\<lparr>h_effects := h_effects h @ map EmitMessageReceived payloads\<rparr>"
proof -
  let ?m = "maxReceiveSize (h_parser h)" and ?fs = "map (\<lambda>p. (p, False)) payloads"
  have "concat chunks = concat (map frame_enc ?fs)"
    by (simp add: assms(1) frame_enc_def comp_def)
  then have "decode_all (frame_dec ?m) (container (h_parser h) @ concat chunks) = (?fs, [])"
    using assms(2,3) decode_all_frames [of ?fs ?m] by simp
  moreover have "frame_dec ?m (container (h_parser h)) = None"
    by (simp add: assms(3) frame_dec_def parseNextFrame_def GrpcMessageSizeHeaderSize_def)
  ultimately have "fold (\<lambda>bs. onDataReceived net bs False) chunks h = deliver ?fs [] h"
    by (rule receive_chunks) (use assms(4) in simp_all)
  then show ?thesis using assms(3) by (cases "h_parser h") (simp add: deliver_def comp_def)
qed

theorem chunked_messages_received_witness:
  "fold (\<lambda>bs. onDataReceived demo_net bs False) [[0, 0, 0], [0, 1, 9, 0, 0], [0, 0], [0]] cancelled_call =
     cancelled_call \<and>
   fold (\<lambda>bs. onDataReceived demo_net bs False) [[0, 0, 0], [0, 1, 9, 0, 0], [0, 0], [0]] (demo_call [7] False) =
     (demo_call [7] False)\<lparr>h_effects := h_effects (demo_call [7] False) @
        map EmitMessageReceived [[9], []]\<rparr>"
proof -
  have "container (h_parser (demo_call [7] False)) = []" "h_state (demo_call [7] False) \<noteq> Cancelled"
      "maxReceiveSize (h_parser (demo_call [7] False)) = 4194304"
      "concat [[0, 0, 0], [0, 1, 9, 0, 0], [0, 0], [0]] = concat (map (frame_message 0) [[9], []])"
    by code_simp+
  then have "fold (\<lambda>bs. onDataReceived demo_net bs False) [[0, 0, 0], [0, 1, 9, 0, 0], [0, 0], [0]] (demo_call [7] False) =
     (demo_call [7] False)\<lparr>h_effects := h_effects (demo_call [7] False) @
        map EmitMessageReceived [[9], []]\<rparr>"
    by (intro chunked_messages_received) simp_all
  then show ?thesis using cancelled_call_state by (simp add: onDataReceived_def)
qed

subsection \<open>Trailers\<close>

definition header_values :: "string \<Rightarrow> header list \<Rightarrow> string list" where
  "header_values key hs = map snd (filter (\<lambda>kv. fst kv = key) hs)"

definition valid_status :: "'s net \<Rightarrow> string \<Rightarrow> bool" where
  "valid_status net v \<longleftrightarrow> (case toShort net v of Some n \<Rightarrow> 0 \<le> n \<and> n \<le> 16 | None \<Rightarrow> False)"

text \<open>The status that trailers mean: the first unreadable \<open>grpc-status\<close> counts, else the last one.\<close>

definition trailers_status :: "'s net \<Rightarrow> header list \<Rightarrow> grpc_status" where
  "trailers_status net hs =
     (case find (\<lambda>v. \<not> valid_status net v) (header_values GrpcStatusHeader hs) of
        Some v \<Rightarrow> \<lparr>code = Unknown, message = ''Received invalid gRPC-status: '' @ v\<rparr>
      | None \<Rightarrow>
          if header_values GrpcStatusHeader hs = []
          then \<lparr>code = Internal, message = ''Missing status code in trailers''\<rparr>
          else \<lparr>code = status_codes ! nat (the (toShort net (last (header_values GrpcStatusHeader hs)))),
                message = (if header_values GrpcStatusMessageHeader hs = [] then []
                           else utf8_text net (last (header_values GrpcStatusMessageHeader hs)))\<rparr>)"

lemma header_names_apart:
  "GrpcStatusMessageHeader \<noteq> GrpcStatusHeader" "GrpcStatusDetailsHeader \<noteq> GrpcStatusHeader"
  "GrpcStatusDetailsHeader \<noteq> GrpcStatusMessageHeader"
  by (simp_all add: GrpcStatusMessageHeader_def GrpcStatusHeader_def GrpcStatusDetailsHeader_def)

lemma keep_cases:
  "\<exists>md. keep kv sc h = Inr (sc\<lparr>hs_metadata := md\<rparr>, h)"
proof (cases "h_filterServerMetadata h")
  case True
  then have "keep kv sc h = Inr (sc\<lparr>hs_metadata := hs_metadata sc\<rparr>, h)" by (simp add: keep_def)
  then show ?thesis by blast
qed (auto simp: keep_def)

lemma scan_trailer_other:
  assumes "fst kv \<noteq> GrpcStatusHeader" and "fst kv \<noteq> GrpcStatusMessageHeader"
  shows "\<exists>md. scan_header net Trailers kv sc h = Inr (sc\<lparr>hs_metadata := md\<rparr>, h)"
proof -
  have "scan_header net Trailers kv sc h = keep kv sc h \<or>
      scan_header net Trailers kv sc h = Inr (sc\<lparr>hs_metadata := kv # hs_metadata sc\<rparr>, h)"
    using assms by (simp add: scan_header_def Let_def requireHttpStatus_def requireGrpcStatus_def)
  then show ?thesis using keep_cases by metis
qed

lemma scan_trailer_message:
  assumes "fst kv = GrpcStatusMessageHeader"
  shows "\<exists>md. scan_header net Trailers kv sc h =
           Inr (sc\<lparr>hs_statusMessage := utf8_text net (snd kv), hs_metadata := md\<rparr>, h)"
proof -
  have "scan_header net Trailers kv sc h = keep kv (sc\<lparr>hs_statusMessage := utf8_text net (snd kv)\<rparr>) h"
    using assms header_names_apart
    by (simp add: scan_header_def Let_def requireHttpStatus_def requireGrpcStatus_def)
  then show ?thesis using keep_cases by metis
qed

lemma scan_trailer_status:
  assumes "fst kv = GrpcStatusHeader"
  shows "if valid_status net (snd kv)
         then \<exists>md. scan_header net Trailers kv sc h =
                Inr (sc\<lparr>hs_statusCode := Some (status_codes ! nat (the (toShort net (snd kv)))),
                        hasGrpcStatus := True, hs_metadata := md\<rparr>, h)
         else scan_header net Trailers kv sc h =
                Inl (finish \<lparr>code = Unknown, message = ''Received invalid gRPC-status: '' @ snd kv\<rparr> h)"
proof -
  have "scan_header net Trailers kv sc h = scan_grpc_status net kv sc h"
    using assms by (simp add: scan_header_def requireHttpStatus_def requireGrpcStatus_def)
  then show ?thesis
    using keep_cases [of kv "sc\<lparr>hs_statusCode := Some (status_codes ! nat (the (toShort net (snd kv)))),
        hasGrpcStatus := True\<rparr>" h]
    by (auto simp: scan_grpc_status_def Let_def valid_status_def StatusCodeCount_def split: option.splits)
qed

lemma scan_trailers:
  "case find (\<lambda>v. \<not> valid_status net v) (header_values GrpcStatusHeader hs) of
     Some v \<Rightarrow> scan_headers net Trailers hs sc h =
       Inl (finish \<lparr>code = Unknown, message = ''Received invalid gRPC-status: '' @ v\<rparr> h)
   | None \<Rightarrow> \<exists>sc'. scan_headers net Trailers hs sc h = Inr (sc', h) \<and>
       (hasGrpcStatus sc' \<longleftrightarrow> hasGrpcStatus sc \<or> header_values GrpcStatusHeader hs \<noteq> []) \<and>
       hs_statusCode sc' = (if header_values GrpcStatusHeader hs = [] then hs_statusCode sc
          else Some (status_codes ! nat (the (toShort net (last (header_values GrpcStatusHeader hs)))))) \<and>
       hs_statusMessage sc' = (if header_values GrpcStatusMessageHeader hs = [] then hs_statusMessage sc
          else utf8_text net (last (header_values GrpcStatusMessageHeader hs)))"
proof (induction hs arbitrary: sc)
  case (Cons kv hs)
  consider (status) "fst kv = GrpcStatusHeader" | (msg) "fst kv = GrpcStatusMessageHeader"
    | (other) "fst kv \<noteq> GrpcStatusHeader" "fst kv \<noteq> GrpcStatusMessageHeader" by blast
  then show ?case
  proof cases
    case status
    show ?thesis
    proof (cases "valid_status net (snd kv)")
      case True
      with scan_trailer_status [OF status, of net sc h] obtain md where
        "scan_header net Trailers kv sc h =
           Inr (sc\<lparr>hs_statusCode := Some (status_codes ! nat (the (toShort net (snd kv)))),
                   hasGrpcStatus := True, hs_metadata := md\<rparr>, h)" by auto
      with True status Cons [of "sc\<lparr>hs_statusCode := Some (status_codes ! nat (the (toShort net (snd kv)))),
                   hasGrpcStatus := True, hs_metadata := md\<rparr>"] show ?thesis
        using header_names_apart(1) by (auto simp: header_values_def split: option.split_asm if_split_asm)
    next
      case False
      with scan_trailer_status [OF status, of net sc h] status show ?thesis
        by (simp add: header_values_def)
    qed
  next
    case msg
    from scan_trailer_message [OF this, of net sc h] obtain md where
      "scan_header net Trailers kv sc h =
         Inr (sc\<lparr>hs_statusMessage := utf8_text net (snd kv), hs_metadata := md\<rparr>, h)" by auto
    with msg Cons [of "sc\<lparr>hs_statusMessage := utf8_text net (snd kv), hs_metadata := md\<rparr>"] show ?thesis
      using header_names_apart(1) by (auto simp: header_values_def split: option.split_asm if_split_asm)
  next
    case other
    from scan_trailer_other [OF this, of net sc h] obtain md where
      "scan_header net Trailers kv sc h = Inr (sc\<lparr>hs_metadata := md\<rparr>, h)" by auto
    with other Cons [of "sc\<lparr>hs_metadata := md\<rparr>"] show ?thesis
      by (auto simp: header_values_def split: option.split_asm if_split_asm)
  qed
qed (simp add: header_values_def)

lemma finish_effects:
  "h_context h \<Longrightarrow> h_state h \<le> Active \<Longrightarrow>
   h_effects (finish st h) = h_effects h @ [EmitFinished st, DeleteLater]"
  by (auto simp: finish_def handleContextExpired_def perform_def Let_def)

text \<open>C23: trailers end the call with the status they carry: in an active call, HEADERS with the end
  of the stream make the context signal exactly one \<open>finished\<close>, with the code of the last
  \<open>grpc-status\<close> and the last \<open>grpc-message\<close> when all the codes are numbers from 0 to 16, with
  \<open>Unknown\<close> and the first bad value when one is not, and with \<open>Internal\<close> when there is none; the
  trailing metadata is set before, and only in the first case.\<close>

theorem trailers_finish_call:
  assumes "h_context h" and "h_state h = Active"
  shows "\<exists>md. h_effects (onHeadersReceived net hs True h) =
           h_effects h @
           (if header_values GrpcStatusHeader hs \<noteq> [] \<and>
               list_all (valid_status net) (header_values GrpcStatusHeader hs)
            then [SetServerTrailingMetadata md] else []) @
           [EmitFinished (trailers_status net hs), DeleteLater]"
proof -
  have eq: "onHeadersReceived net hs True h = handleHeaders net hs Trailers h"
    using assms by (simp add: onHeadersReceived_def header_phase_of_def) (cases h; simp)
  have valid: "find (\<lambda>v. \<not> valid_status net v) vs = None \<longleftrightarrow> list_all (valid_status net) vs" for vs
    by (auto simp: find_None_iff list_all_iff)
  have fresh: "\<not> hasGrpcStatus new_scan" "hs_statusMessage new_scan = []" by (simp_all add: new_scan_def)
  let ?vs = "header_values GrpcStatusHeader hs"
  show ?thesis
  proof (cases "find (\<lambda>v. \<not> valid_status net v) ?vs")
    case (Some v)
    with scan_trailers [of net hs new_scan h] valid [of ?vs] show ?thesis
      unfolding eq using assms
      by (auto simp: handleHeaders_def handleContextExpired_def trailers_status_def finish_effects)
  next
    case None
    with scan_trailers [of net hs new_scan h] obtain sc where sc:
      "scan_headers net Trailers hs new_scan h = Inr (sc, h)" "hasGrpcStatus sc \<longleftrightarrow> ?vs \<noteq> []"
      "?vs \<noteq> [] \<Longrightarrow> hs_statusCode sc = Some (status_codes ! nat (the (toShort net (last ?vs))))"
      "hs_statusMessage sc = (if header_values GrpcStatusMessageHeader hs = [] then []
          else utf8_text net (last (header_values GrpcStatusMessageHeader hs)))"
      by (auto simp: fresh cong: if_cong)
    have "h_effects (conclude_headers Trailers sc h) = h_effects h @
        (if ?vs \<noteq> [] then [SetServerTrailingMetadata (hs_metadata sc)] else []) @
        [EmitFinished (trailers_status net hs), DeleteLater]"
      using assms sc None
      by (auto simp: conclude_headers_def requireHttpStatus_def requireGrpcStatus_def trailers_status_def
          finish_effects perform_def)
    with sc(1) None valid [of ?vs] show ?thesis
      unfolding eq using assms by (auto simp: handleHeaders_def handleContextExpired_def)
  qed
qed

theorem trailers_finish_call_witness:
  "\<exists>md. h_effects (onHeadersReceived demo_net [(''grpc-status'', ''5'')] True
        ((demo_call [7] False)\<lparr>h_state := Active\<rparr>)) =
     h_effects (demo_call [7] False) @ [SetServerTrailingMetadata md] @
       [EmitFinished \<lparr>code = NotFound, message = []\<rparr>, DeleteLater]"
proof -
  have "header_values GrpcStatusHeader [(''grpc-status'', ''5'')] = [''5'']"
      "valid_status demo_net ''5''"
      "trailers_status demo_net [(''grpc-status'', ''5'')] = \<lparr>code = NotFound, message = []\<rparr>"
      "h_context (demo_call [7] False)"
    by code_simp+
  then show ?thesis
    using trailers_finish_call [of "(demo_call [7] False)\<lparr>h_state := Active\<rparr>" demo_net "[(''grpc-status'', ''5'')]"]
    by simp
qed

end
