(* ===== verification/ReconnectBackoff.thy ===== *)
theory ReconnectBackoff
  imports GrpcOptions "HOL-Library.Log_Nat"
begin

text \<open>
  The delays between attempts to connect (src/src/grpc/qgrpchttp2channel.cpp,
  \<open>ReconnectBackoff\<close>). The code calculates them with \<open>double\<close>s: these are rational numbers here, and
  every operation of the code is followed by the rounding of IEEE 754, to the nearest number with 53
  digits and to the even one of two.
\<close>

subsection \<open>Doubles\<close>

definition round_half_even :: "rat \<Rightarrow> int" where
  "round_half_even x =
     (let f = \<lfloor>x\<rfloor>; r = x - of_int f
      in if r < 1 / 2 \<or> r = 1 / 2 \<and> even f then f else f + 1)"

text \<open>
  The least positive double is \<open>2 powi -1074\<close>; \<open>double_exponent x\<close> is the \<open>e\<close> with
  \<open>2 powi e \<le> x < 2 powi (e + 1)\<close>.
\<close>

definition min_exponent :: nat where "min_exponent = 1074"

definition double_exponent :: "rat \<Rightarrow> int" where
  "double_exponent x = int (floorlog 2 (nat \<lfloor>x * 2 ^ min_exponent\<rfloor>)) - 1 - int min_exponent"

definition double_round :: "rat \<Rightarrow> rat" where
  "double_round x =
     (let u = max (double_exponent x - 52) (- int min_exponent)
      in of_int (round_half_even (x / 2 powi u)) * 2 powi u)"

definition int_to_double :: "int \<Rightarrow> rat" where
  "int_to_double n = double_round (of_int n)"

lemma round_half_even_error: "\<bar>of_int (round_half_even x) - x\<bar> \<le> 1 / 2"
proof -
  have "of_int \<lfloor>x\<rfloor> \<le> x" "x < of_int \<lfloor>x\<rfloor> + 1" using floor_correct [of x] by simp_all
  then show ?thesis unfolding round_half_even_def Let_def by (simp add: abs_if) linarith
qed

lemma round_half_even_int [simp]: "round_half_even (of_int n) = n"
  by (simp add: round_half_even_def)

lemma double_exponent_bounds:
  assumes "1 / 2 ^ min_exponent \<le> x"
  shows "2 powi double_exponent x \<le> x" and "x < 2 powi (double_exponent x + 1)"
proof -
  define n where "n = nat \<lfloor>x * 2 ^ min_exponent\<rfloor>"
  define l where "l = floorlog 2 n"
  have ge: "1 \<le> x * 2 ^ min_exponent" using assms by (simp add: field_simps)
  then have n: "0 < n" by (simp add: n_def)
  have l0: "0 < l" using n by (simp add: l_def floorlog_def)
  have b: "2 ^ (l - 1) \<le> n" "n < 2 ^ l"
    using floorlog_bounds [of n 2] n by (simp_all add: l_def)
  have "rat_of_nat n = of_int \<lfloor>x * 2 ^ min_exponent\<rfloor>" using ge by (simp add: n_def)
  then have "rat_of_nat n \<le> x * 2 ^ min_exponent" "x * 2 ^ min_exponent < rat_of_nat n + 1"
    using floor_correct [of "x * 2 ^ min_exponent"] by simp_all
  moreover have "(2 :: rat) ^ (l - 1) \<le> rat_of_nat n"
    using b(1) of_nat_mono [of "2 ^ (l - 1)" n, where 'a = rat] by simp
  moreover have "rat_of_nat n + 1 \<le> 2 ^ l"
    using b(2) of_nat_mono [of "n + 1" "2 ^ l", where 'a = rat] by simp
  ultimately have x: "(2 :: rat) ^ (l - 1) \<le> x * 2 ^ min_exponent" "x * 2 ^ min_exponent < 2 ^ l"
    by linarith+
  have e: "double_exponent x = int l - 1 - int min_exponent" by (simp add: double_exponent_def n_def l_def)
  have p: "2 powi (int k - int min_exponent) = (2 :: rat) ^ k / 2 ^ min_exponent" for k
    by (simp add: power_int_diff)
  have "int (l - 1) - int min_exponent = double_exponent x" using e l0 by simp
  with p [of "l - 1"] have "2 powi double_exponent x = (2 :: rat) ^ (l - 1) / 2 ^ min_exponent" by simp
  with x(1) show "2 powi double_exponent x \<le> x" by (simp only:) (simp add: pos_divide_le_eq)
  have "double_exponent x + 1 = int l - int min_exponent" using e by simp
  with p [of l] have "2 powi (double_exponent x + 1) = (2 :: rat) ^ l / 2 ^ min_exponent" by simp
  with x(2) show "x < 2 powi (double_exponent x + 1)" by (simp only:) (simp add: pos_less_divide_eq)
qed

lemma double_round_near:
  assumes "0 \<le> x"
  shows "\<bar>double_round x - x\<bar> \<le> (x + 1) / 2 ^ 53"
proof -
  define u where "u = max (double_exponent x - 52) (- int min_exponent)"
  define p :: rat where "p = 2 powi u"
  have pos: "0 < p" by (simp add: p_def)
  have "double_round x = of_int (round_half_even (x / p)) * p"
    by (simp add: double_round_def Let_def flip: u_def p_def)
  moreover have "\<dots> - x = (of_int (round_half_even (x / p)) - x / p) * p" using pos by (simp add: field_simps)
  ultimately have "\<bar>double_round x - x\<bar> = \<bar>of_int (round_half_even (x / p)) - x / p\<bar> * p"
    using pos by (simp add: abs_mult)
  also have "\<dots> \<le> 1 / 2 * p"
    using round_half_even_error pos by (intro mult_right_mono) simp_all
  also have "\<dots> \<le> (x + 1) / 2 ^ 53"
  proof (cases "u = - int min_exponent")
    case True
    then have "p = 1 / 2 ^ min_exponent" by (simp add: p_def power_int_minus divide_inverse)
    moreover have "(1 :: rat) / 2 ^ min_exponent \<le> 1 / 2 ^ 53"
      unfolding min_exponent_def by (intro divide_left_mono power_increasing) simp_all
    ultimately have "p \<le> 1 / 2 ^ 53" by simp
    moreover have "(x + 1) / 2 ^ 53 = x / 2 ^ 53 + 1 / 2 ^ 53" by (simp add: add_divide_distrib)
    moreover have "0 \<le> x / 2 ^ 53" using assms by simp
    moreover have "1 / 2 * p \<le> p" using pos by simp
    ultimately show ?thesis by linarith
  next
    case False
    then have u: "u = double_exponent x - 52" "- int min_exponent < u" by (auto simp: u_def)
    have "1 / 2 ^ min_exponent \<le> x"
    proof (rule ccontr)
      assume "\<not> 1 / 2 ^ min_exponent \<le> x"
      then have "\<lfloor>x * 2 ^ min_exponent\<rfloor> = 0" using assms by (simp add: floor_eq_iff field_simps)
      then have "double_exponent x = - 1 - int min_exponent" by (simp add: double_exponent_def floorlog_def)
      with u show False by simp
    qed
    from double_exponent_bounds(1) [OF this] have "2 powi (u + 52) \<le> x" using u by simp
    moreover have "(2 :: rat) powi (u + 52) = p * 2 ^ 52"
      unfolding p_def by (subst power_int_add) simp_all
    ultimately show ?thesis using assms by (simp add: field_simps)
  qed
  finally show ?thesis .
qed

lemma double_round_multiple:
  assumes "x = of_int k * 2 powi max (double_exponent x - 52) (- int min_exponent)"
  shows "double_round x = x"
proof -
  define u where "u = max (double_exponent x - 52) (- int min_exponent)"
  have k: "x = of_int k * 2 powi u" using assms by (simp add: u_def)
  then have "x / 2 powi u = of_int k" by simp
  then have "round_half_even (x / 2 powi u) = k" by simp
  moreover have "double_round x = of_int (round_half_even (x / 2 powi u)) * 2 powi u"
    by (simp add: double_round_def Let_def flip: u_def)
  ultimately show ?thesis using k by simp
qed

lemma small_multiple:
  assumes "u \<le> 0"
  shows "(of_int n :: rat) = of_int (n * 2 ^ nat (- u)) * 2 powi u"
proof -
  have "(2 :: rat) powi u = 2 powi (- int (nat (- u)))" using assms by simp
  also have "\<dots> = inverse (2 ^ nat (- u))" by (simp only: power_int_minus power_int_of_nat)
  finally show ?thesis by (simp del: of_nat_nat)
qed

lemma exponent_of_int:
  assumes "1 \<le> n" and "n \<le> 2 ^ 53"
  shows "double_exponent (of_int n) \<le> 52 \<or> double_exponent (of_int n) = 53 \<and> n = 2 ^ 53"
proof -
  let ?e = "double_exponent (of_int n)"
  have "(1 :: rat) / 2 ^ min_exponent \<le> 1" by simp
  also have "(1 :: rat) \<le> of_int n" using assms(1) by simp
  finally have le: "2 powi ?e \<le> (of_int n :: rat)" by (rule double_exponent_bounds(1))
  also have "\<dots> \<le> of_int (2 ^ 53)" using assms(2) by (simp only: of_int_le_iff)
  finally have up: "2 powi ?e \<le> (2 powi 53 :: rat)" by simp
  have "?e \<le> 53"
  proof (rule ccontr)
    assume "\<not> ?e \<le> 53"
    then have "53 < ?e" by simp
    then have "(2 :: rat) powi 53 < 2 powi ?e" by (rule power_int_strict_increasing) simp
    with up show False by linarith
  qed
  moreover have "n = 2 ^ 53" if "?e = 53"
  proof -
    have "of_int (2 ^ 53) \<le> (of_int n :: rat)" using le that by simp
    then have "2 ^ 53 \<le> n" by (simp only: of_int_le_iff)
    with assms(2) show ?thesis by linarith
  qed
  ultimately show ?thesis by linarith
qed

lemma int_to_double:
  assumes "0 \<le> n" and "n \<le> 2 ^ 53"
  shows "int_to_double n = of_int n"
proof (cases "n = 0")
  case True
  then show ?thesis by (simp add: int_to_double_def double_round_def round_half_even_def)
next
  case False
  define u where "u = max (double_exponent (of_int n) - 52) (- int min_exponent)"
  have "\<exists>k. (of_int n :: rat) = of_int k * 2 powi u"
  proof (cases "u \<le> 0")
    case True
    then show ?thesis using small_multiple by blast
  next
    case f: False
    have "double_exponent (of_int n) = 53 \<and> n = 2 ^ 53"
      using exponent_of_int [of n] f assms False by (auto simp: u_def)
    then have n: "n = 2 ^ 53" and e: "double_exponent (of_int n) = 53" by blast+
    have u1: "u = 1" unfolding u_def e by simp
    have "(of_int n :: rat) = of_int (2 ^ 52) * 2 powi u" unfolding n u1 by simp
    then show ?thesis by (rule exI)
  qed
  then show ?thesis unfolding int_to_double_def u_def by (elim exE double_round_multiple)
qed

lemma double_round_nonneg: "0 \<le> x \<Longrightarrow> 0 \<le> double_round x"
proof -
  assume x: "0 \<le> x"
  have "0 \<le> round_half_even y" if "0 \<le> y" for y
    using that by (auto simp: round_half_even_def Let_def)
  then show ?thesis using x by (simp add: double_round_def Let_def)
qed

subsection \<open>The backoff\<close>

record reconnect_backoff =
  m_current :: int
  m_initial :: int
  m_maximum :: int

definition new_backoff :: "int \<Rightarrow> int \<Rightarrow> reconnect_backoff" where
  "new_backoff init mx = \<lparr>m_current = init, m_initial = init, m_maximum = mx\<rparr>"

definition reset_backoff :: "reconnect_backoff \<Rightarrow> reconnect_backoff" where
  "reset_backoff b = b\<lparr>m_current := m_initial b\<rparr>"

definition milliseconds_max :: int where "milliseconds_max = 2 ^ 63 - 1"

definition BackoffMultiplier :: rat where "BackoffMultiplier = double_round (8 / 5)"
definition BackoffJitter :: rat where "BackoffJitter = double_round (1 / 5)"

text \<open>The parameter is what \<open>generateDouble\<close> of the global random generator returned.\<close>

definition nextDelay :: "rat \<Rightarrow> reconnect_backoff \<Rightarrow> int \<times> reconnect_backoff" where
  "nextDelay random b =
     (let delay = m_current b;
          multiplied = of_int \<lceil>double_round (int_to_double (m_current b) * BackoffMultiplier)\<rceil> :: rat;
          current = (if int_to_double (m_maximum b) \<le> multiplied then m_maximum b else \<lfloor>multiplied\<rfloor>);
          jitterFactor = double_round (double_round (1 - BackoffJitter) +
            double_round (double_round (2 * BackoffJitter) * random));
          jittered = double_round (int_to_double delay * jitterFactor)
      in (if int_to_double milliseconds_max \<le> jittered then milliseconds_max else \<lfloor>jittered\<rfloor>,
          b\<lparr>m_current := current\<rparr>))"

text \<open>\<open>resolveMs\<close>: the option, the environment, the default.\<close>

definition resolveMs :: "int option \<Rightarrow> 64 word option \<Rightarrow> int \<Rightarrow> int" where
  "resolveMs val envVal dflt =
     (case val of Some v \<Rightarrow> v | None \<Rightarrow> (case envVal of Some e \<Rightarrow> sint e | None \<Rightarrow> dflt))"

definition constructReconnectBackoff ::
  "channel_options \<Rightarrow> 64 word option \<Rightarrow> 64 word option \<Rightarrow> reconnect_backoff" where
  "constructReconnectBackoff chOpts envInitial envMaximum =
     (let effectiveInitial = resolveMs (co_initialReconnectBackoff chOpts) envInitial DefaultInitialReconnectBackoff;
          effectiveMaximum = resolveMs (co_maximumReconnectBackoff chOpts) envMaximum DefaultMaximumReconnectBackoff
      in new_backoff (if effectiveMaximum < effectiveInitial then effectiveMaximum else effectiveInitial)
           effectiveMaximum)"

text \<open>Every use of a backoff.\<close>

datatype backoff_op = NextDelay rat | ResetBackoff

primrec backoff_step :: "backoff_op \<Rightarrow> reconnect_backoff \<Rightarrow> reconnect_backoff" where
  "backoff_step (NextDelay r) b = snd (nextDelay r b)"
| "backoff_step ResetBackoff b = reset_backoff b"

subsection \<open>Bounds\<close>

definition backoff_ok :: "reconnect_backoff \<Rightarrow> bool" where
  "backoff_ok b \<longleftrightarrow> 0 \<le> m_initial b \<and> m_initial b \<le> m_current b \<and> m_current b \<le> m_maximum b"

lemma multiplier_near: "\<bar>BackoffMultiplier - 8 / 5\<bar> \<le> 3 / 2 ^ 53" "\<bar>BackoffJitter - 1 / 5\<bar> \<le> 2 / 2 ^ 53"
  using double_round_near [of "8 / 5"] double_round_near [of "1 / 5"]
  by (simp_all add: BackoffMultiplier_def BackoffJitter_def)

text \<open>The value that grows, for delays that are represented exactly.\<close>

lemma multiplied_ge:
  assumes "0 \<le> m" and "m \<le> 2 ^ 53"
  shows "3 / 2 * of_int m \<le> double_round (int_to_double m * BackoffMultiplier)"
proof (cases "m = 0")
  case True
  then show ?thesis using double_round_nonneg [of 0] by (simp add: int_to_double)
next
  case False
  define y where "y = of_int m * BackoffMultiplier"
  have m: "(1 :: rat) \<le> of_int m" using assms(1) False by simp
  have b: "31 / 20 \<le> BackoffMultiplier" using multiplier_near(1) [unfolded abs_le_iff] by simp
  have "of_int m * (31 / 20) \<le> y" unfolding y_def by (rule mult_left_mono [OF b]) (use m in linarith)
  then have y: "31 / 20 * of_int m \<le> y" by simp
  with m have y0: "1 \<le> y" by linarith
  then have "0 \<le> y" by linarith
  from double_round_near [OF this, unfolded abs_le_iff] have "y - (y + 1) / 2 ^ 53 \<le> double_round y"
    by linarith
  moreover have "(y + 1) / 2 ^ 53 \<le> 1 / 100 * y" using y0 by (simp add: field_simps)
  ultimately have "3 / 2 * of_int m \<le> double_round y" using y m by linarith
  then show ?thesis by (simp only: y_def int_to_double [OF assms])
qed

lemma nextDelay_current:
  assumes "0 \<le> m_current b" and "m_current b \<le> m_maximum b" and "m_maximum b \<le> 2 ^ 53"
  shows "m_current (snd (nextDelay r b)) \<le> m_maximum b"
    and "m_current b \<le> m_current (snd (nextDelay r b))"
    and "m_current (snd (nextDelay r b)) = m_maximum b \<or>
      3 * m_current b \<le> 2 * m_current (snd (nextDelay r b))"
    and "m_initial (snd (nextDelay r b)) = m_initial b" and "m_maximum (snd (nextDelay r b)) = m_maximum b"
proof -
  define x where "x = double_round (int_to_double (m_current b) * BackoffMultiplier)"
  have cur: "m_current (snd (nextDelay r b)) =
      (if m_maximum b \<le> \<lceil>x\<rceil> then m_maximum b else \<lceil>x\<rceil>)"
    using assms by (simp add: nextDelay_def Let_def int_to_double x_def)
  have m: "m_current b \<le> 2 ^ 53" using assms by linarith
  have grow: "3 / 2 * of_int (m_current b) \<le> x"
    using multiplied_ge [OF assms(1) m] by (simp only: x_def)
  have "x \<le> of_int \<lceil>x\<rceil>" by (rule le_of_int_ceiling)
  with grow have "3 / 2 * (of_int (m_current b) :: rat) \<le> of_int \<lceil>x\<rceil>" by linarith
  then have "(of_int (3 * m_current b) :: rat) \<le> of_int (2 * \<lceil>x\<rceil>)" by simp
  then have c: "3 * m_current b \<le> 2 * \<lceil>x\<rceil>" by (simp only: of_int_le_iff)
  then show "m_current b \<le> m_current (snd (nextDelay r b))" using assms(1,2) by (simp add: cur)
  show "m_current (snd (nextDelay r b)) = m_maximum b \<or>
      3 * m_current b \<le> 2 * m_current (snd (nextDelay r b))" using c by (simp add: cur)
  show "m_current (snd (nextDelay r b)) \<le> m_maximum b" by (simp add: cur)
  show "m_initial (snd (nextDelay r b)) = m_initial b" "m_maximum (snd (nextDelay r b)) = m_maximum b"
    by (simp_all add: nextDelay_def Let_def)
qed

lemma backoff_ok_step:
  assumes "backoff_ok b" and "m_maximum b \<le> 2 ^ 53"
  shows "backoff_ok (backoff_step e b) \<and> m_maximum (backoff_step e b) = m_maximum b"
proof (cases e)
  case (NextDelay r)
  have "0 \<le> m_current b" "m_current b \<le> m_maximum b" using assms(1) by (auto simp: backoff_ok_def)
  note d = nextDelay_current [OF this assms(2), of r]
  then show ?thesis using assms(1) unfolding NextDelay backoff_step.simps backoff_ok_def by linarith
next
  case ResetBackoff
  then show ?thesis using assms(1) by (auto simp: backoff_ok_def reset_backoff_def)
qed

lemma backoff_ok_steps:
  "backoff_ok b \<Longrightarrow> m_maximum b \<le> 2 ^ 53 \<Longrightarrow>
   backoff_ok (fold backoff_step es b) \<and> m_maximum (fold backoff_step es b) = m_maximum b"
proof (induction es arbitrary: b)
  case (Cons e es)
  from backoff_ok_step [OF Cons.prems, of e] Cons.prems(2) Cons.IH [of "backoff_step e b"] show ?case by simp
qed simp

lemma initial_step: "m_initial (backoff_step e b) = m_initial b"
  by (cases e) (simp_all add: reset_backoff_def nextDelay_def Let_def)

text \<open>The jitter factor and the delay.\<close>

lemma jitter_near:
  assumes "0 \<le> r" and "r < 1"
  defines "j \<equiv> double_round (double_round (1 - BackoffJitter) + double_round (double_round (2 * BackoffJitter) * r))"
  shows "4 / 5 - 20 / 2 ^ 53 \<le> j" and "j \<le> 6 / 5 + 20 / 2 ^ 53"
proof -
  note bj = multiplier_near(2) [unfolded abs_le_iff]
  define a where "a = double_round (1 - BackoffJitter)"
  define c where "c = double_round (2 * BackoffJitter)"
  define e where "e = double_round (c * r)"
  have "0 \<le> 1 - BackoffJitter" "0 \<le> 2 * BackoffJitter" using bj by simp_all
  note near = this [THEN double_round_near, unfolded abs_le_iff]
  have a: "a \<le> 4 / 5 + 4 / 2 ^ 53" "4 / 5 - 4 / 2 ^ 53 \<le> a"
    using near(1) bj by (simp_all add: a_def field_simps)
  have c: "c \<le> 2 / 5 + 6 / 2 ^ 53" "0 \<le> c"
    using near(2) bj double_round_nonneg [of "2 * BackoffJitter"] by (simp_all add: c_def field_simps)
  have cr: "0 \<le> c * r" "c * r \<le> c" using c(2) assms(1,2) mult_left_le [of r c] by simp_all
  have e: "0 \<le> e" "e \<le> 2 / 5 + 8 / 2 ^ 53"
    using double_round_near [OF cr(1), unfolded abs_le_iff] cr c double_round_nonneg [OF cr(1)]
    by (simp_all add: e_def field_simps)
  have j: "j = double_round (a + e)" by (simp add: j_def a_def c_def e_def)
  have "0 \<le> a + e" using a e by simp
  from double_round_near [OF this, unfolded abs_le_iff]
  show "4 / 5 - 20 / 2 ^ 53 \<le> j" "j \<le> 6 / 5 + 20 / 2 ^ 53"
    using a e by (simp_all add: j field_simps)
qed

lemma nextDelay_delay:
  assumes "0 \<le> m_current b" and "m_current b \<le> 2 ^ 44" and "0 \<le> r" and "r < 1"
  shows "4 * m_current b \<le> 5 * fst (nextDelay r b) + 5" and "5 * fst (nextDelay r b) \<le> 6 * m_current b"
proof -
  define j where "j = double_round (double_round (1 - BackoffJitter) + double_round (double_round (2 * BackoffJitter) * r))"
  define m where "m = (of_int (m_current b) :: rat)"
  define y where "y = double_round (m * j)"
  have m: "0 \<le> m" "m \<le> 2 ^ 44"
    using assms(1) assms(2) [folded of_int_le_iff [where 'a = rat]] by (simp_all add: m_def)
  note jb = jitter_near [OF assms(3,4), folded j_def]
  have "m * j \<le> m * (6 / 5 + 20 / 2 ^ 53)" "m * (4 / 5 - 20 / 2 ^ 53) \<le> m * j"
    using jb m(1) by (simp_all only: mult_left_mono)
  then have mj: "m * j \<le> 6 / 5 * m + 20 / 2 ^ 53 * m" "4 / 5 * m - 20 / 2 ^ 53 * m \<le> m * j"
    by (simp_all add: field_simps)
  have small: "20 / 2 ^ 53 * m \<le> 1 / 20" using m(2) by simp
  have "0 \<le> j" using jb(1) by simp
  with m(1) have mj0: "0 \<le> m * j" by simp
  have "(m * j + 1) / 2 ^ 53 \<le> 1 / 20" using mj(1) small m by (simp add: field_simps)
  with double_round_near [OF mj0, unfolded abs_le_iff] mj small
  have y: "y \<le> 6 / 5 * m + 1 / 10" "4 / 5 * m - 1 / 10 \<le> y" unfolding y_def by linarith+
  have "y < 2 ^ 62" using y(1) m(2) by simp
  moreover have "2 ^ 62 \<le> int_to_double milliseconds_max"
  proof -
    have "(2 :: rat) ^ 63 - 1 - 2 ^ 10 \<le> double_round (2 ^ 63 - 1)"
      using double_round_near [of "2 ^ 63 - 1", unfolded abs_le_iff] by simp
    then show ?thesis by (simp add: int_to_double_def milliseconds_max_def)
  qed
  ultimately have no_cap: "\<not> int_to_double milliseconds_max \<le> y" by linarith
  have "int_to_double (m_current b) = m"
    unfolding m_def by (rule int_to_double) (use assms in simp_all)
  then have d: "fst (nextDelay r b) = \<lfloor>y\<rfloor>"
    using no_cap by (simp add: nextDelay_def Let_def y_def flip: j_def)
  have f: "(of_int \<lfloor>y\<rfloor> :: rat) \<le> y" "y < of_int \<lfloor>y\<rfloor> + 1" using floor_correct [of y] by simp_all
  have "(of_int (4 * m_current b) :: rat) < of_int (5 * \<lfloor>y\<rfloor> + 6)" using f y by (simp add: m_def)
  then show "4 * m_current b \<le> 5 * fst (nextDelay r b) + 5" by (simp only: of_int_less_iff d)
  have "5 * of_int \<lfloor>y\<rfloor> < 6 * m + 1" using f y by linarith
  then have "(of_int (5 * \<lfloor>y\<rfloor>) :: rat) < of_int (6 * m_current b + 1)" by (simp add: m_def)
  then show "5 * fst (nextDelay r b) \<le> 6 * m_current b" by (simp only: of_int_less_iff d)
qed

text \<open>C35: The delays of reconnection attempts: as long as the maximum is not more than \<open>2 ^ 44\<close> milliseconds,
  after any calls of \<open>nextDelay\<close> and \<open>reset\<close> the undithered delay is between the initial and the
  maximal one, the next delay is at most a fifth longer and at most a fifth and one millisecond shorter
  (the double is truncated to whole milliseconds), and the undithered delay grows by half at least or
  reaches the maximum. The rounding errors of the doubles do not exceed these bounds.\<close>

theorem reconnect_delay_bounds:
  assumes "0 \<le> m_initial b" and "m_current b = m_initial b" and "m_initial b \<le> m_maximum b"
    and "m_maximum b \<le> 2 ^ 44" and "0 \<le> r" and "r < 1"
    and "c = fold backoff_step es b"
  shows "m_initial b \<le> m_current c \<and> m_current c \<le> m_maximum b \<and>
    4 * m_current c - 5 \<le> 5 * fst (nextDelay r c) \<and> 5 * fst (nextDelay r c) \<le> 6 * m_current c \<and>
    (m_current (snd (nextDelay r c)) = m_maximum b \<or>
     3 * m_current c \<le> 2 * m_current (snd (nextDelay r c)))"
proof -
  have "backoff_ok b" using assms(1-3) by (simp add: backoff_ok_def)
  moreover have big: "m_maximum b \<le> 2 ^ 53" using assms(4) by simp
  ultimately have "backoff_ok c \<and> m_maximum c = m_maximum b" unfolding assms(7) by (rule backoff_ok_steps)
  then have ok: "backoff_ok c" and mx: "m_maximum c = m_maximum b" by simp_all
  have ini: "m_initial (fold backoff_step es b) = m_initial b" for es b
    by (induction es arbitrary: b) (simp_all add: initial_step)
  have c: "0 \<le> m_current c" "m_current c \<le> m_maximum b" "m_initial b \<le> m_current c"
    using ok mx ini [of es b] by (simp_all add: backoff_ok_def assms(7))
  have "m_current c \<le> 2 ^ 44" using c(2) assms(4) by linarith
  from nextDelay_delay [OF c(1) this assms(5,6)] nextDelay_current(3) [OF c(1)] c mx big
  show ?thesis by auto
qed

theorem reconnect_delay_bounds_witness:
  "m_current (fold backoff_step [NextDelay 0, NextDelay (1 / 2)] (new_backoff 1000 120000)) \<le> 120000"
  using reconnect_delay_bounds [of "new_backoff 1000 120000" "1 / 4" _ "[NextDelay 0, NextDelay (1 / 2)]"]
  by (simp add: new_backoff_def)

end
