(* ===== verification/ChannelSetup.thy ===== *)
theory ChannelSetup
  imports HandlerCorrectness ReconnectBackoff
begin

text \<open>
  What \<open>QGrpcHttp2ChannelPrivate\<close> computes when it is constructed
  (src/src/grpc/qgrpchttp2channel.cpp): the URI and the kind of socket, the content type, the
  headers that all calls share, and the HTTP/2 configuration. A URL is the record of the answers of
  the \<open>QUrl\<close> accessors that the code asks. Logging is left out.
\<close>

subsection \<open>URI, socket and headers\<close>

record qurl =
  url_scheme :: string
  url_port :: int
  url_authority :: string
  url_host :: string
  url_path :: string

datatype socket_type = Tcp | Tls | Local | LocalAbstract

definition UnixScheme :: string where "UnixScheme = ''unix''"
definition UnixAbstractScheme :: string where "UnixAbstractScheme = ''unix-abstract''"
definition HttpScheme :: string where "HttpScheme = ''http''"
definition HttpsScheme :: string where "HttpsScheme = ''https''"

lemmas scheme_defs = UnixScheme_def UnixAbstractScheme_def HttpScheme_def HttpsScheme_def

definition hasSslConfiguration :: "channel_options \<Rightarrow> bool" where
  "hasSslConfiguration opts \<longleftrightarrow> co_sslConfiguration opts \<noteq> None"

definition sanitizeHostUri :: "qurl \<Rightarrow> channel_options \<Rightarrow> qurl" where
  "sanitizeHostUri rawUri chOpts =
     (let check = (\<lambda>expected u. if url_scheme rawUri \<noteq> expected then u\<lparr>url_scheme := expected\<rparr> else u);
          scheme = url_scheme rawUri
      in if scheme = UnixScheme \<or> scheme = UnixAbstractScheme then rawUri
         else if scheme = HttpsScheme \<or> hasSslConfiguration chOpts
         then let u = check HttpsScheme rawUri in if url_port rawUri < 0 then u\<lparr>url_port := 443\<rparr> else u
         else let u = check HttpScheme rawUri in if url_port rawUri < 0 then u\<lparr>url_port := 80\<rparr> else u)"

definition constructSocketType :: "qurl \<Rightarrow> channel_options \<Rightarrow> socket_type" where
  "constructSocketType rawUri chOpts =
     (let scheme = url_scheme rawUri
      in if scheme = UnixScheme then Local
         else if scheme = UnixAbstractScheme then LocalAbstract
         else if scheme = HttpsScheme \<or> hasSslConfiguration chOpts then Tls
         else Tcp)"

text \<open>\<open>QByteArray::number\<close>.\<close>

definition number_text :: "int \<Rightarrow> string" where
  "number_text n = (if n < 0 then ''-'' @ decimal (nat (- n)) else decimal (nat n))"

text \<open>\<open>url_authority\<close> is the encoded authority without user info and port.\<close>

definition constructAuthorityHeader :: "qurl \<Rightarrow> socket_type \<Rightarrow> string" where
  "constructAuthorityHeader hostUri sock =
     (let port = url_port hostUri
      in if sock = Tcp \<and> port \<noteq> 80 \<or> sock = Tls \<and> port \<noteq> 443
         then url_authority hostUri @ '':'' @ number_text port
         else url_authority hostUri)"

definition constructSchemeHeader :: "socket_type \<Rightarrow> string" where
  "constructSchemeHeader sock = (if sock = Tls then ''https'' else ''http'')"

definition constructAcceptEncoding :: "32 word \<Rightarrow> string" where
  "constructAcceptEncoding flags =
     (let result = ''identity'';
          result = (if has_algorithm flags Deflate then result @ '',deflate'' else result)
      in if has_algorithm flags Gzip then result @ '',gzip'' else result)"

text \<open>The cache \<open>m_acceptEncoding\<close>, null at first, with the flags it was made for.\<close>

type_synonym accept_cache = "string option \<times> 32 word"

definition acceptEncoding :: "channel_options \<Rightarrow> accept_cache \<Rightarrow> string \<times> accept_cache" where
  "acceptEncoding chOpts cache =
     (let flags = co_acceptedCompressionAlgorithms chOpts
      in case cache of
           (Some text, cachedFlags) \<Rightarrow>
             if flags \<noteq> cachedFlags
             then (constructAcceptEncoding flags, (Some (constructAcceptEncoding flags), flags))
             else (text, cache)
         | (None, cachedFlags) \<Rightarrow>
             (constructAcceptEncoding flags, (Some (constructAcceptEncoding flags), flags)))"

subsection \<open>The content type\<close>

text \<open>\<open>constFind\<close> of a multi hash: the newest value of the key.\<close>

definition format_content_type :: "string \<Rightarrow> string" where
  "format_content_type suffix =
     (if suffix \<noteq> [] then DefaultContentType @ ''+'' @ suffix else DefaultContentType)"

definition setupContentTypeNegotiation :: "nat \<Rightarrow> channel_options \<Rightarrow> string \<times> channel_options" where
  "setupContentTypeNegotiation fresh channelOptions =
     (let formatSuffix = format_suffix (co_serializationFormat channelOptions);
          contentTypeFromOptions = format_content_type formatSuffix;
          updated =
            (case map_of (m_metadata channelOptions) ContentTypeHeader of
               Some v \<Rightarrow>
                 if formatSuffix = [] \<and> v \<noteq> DefaultContentType
                 then if v = ''application/grpc+json''
                      then setSerializationFormat (make_format Json fresh) channelOptions
                      else if v = ''application/grpc+proto'' \<or> v = DefaultContentType
                      then setSerializationFormat (make_format Protobuf fresh) channelOptions
                      else setSerializationFormat (make_format Default fresh) channelOptions
                 else channelOptions
             | None \<Rightarrow> channelOptions);
          newSuffix = format_suffix (co_serializationFormat updated)
      in (if formatSuffix \<noteq> newSuffix then format_content_type newSuffix else contentTypeFromOptions, updated))"

subsection \<open>HTTP/2 configuration\<close>

definition readEnvUnsignedInt :: "int option \<Rightarrow> 64 word option" where
  "readEnvUnsignedInt v =
     (case v of None \<Rightarrow> None | Some n \<Rightarrow> if n < 0 then None else Some (word_of_int n))"

definition DefaultHttp2StreamReceiveWindowSize :: "64 word" where
  "DefaultHttp2StreamReceiveWindowSize = 4 * 1024 * 1024"
definition MinimumHttp2StreamReceiveWindowSize :: "32 word" where
  "MinimumHttp2StreamReceiveWindowSize = 1024"

text \<open>Two constants of QtNetwork, with the values that the documentation of the class gives.\<close>

definition maxSessionReceiveWindowSize :: "32 word" where "maxSessionReceiveWindowSize = 2147483647"
definition defaultSessionWindowSize :: "32 word" where "defaultSessionWindowSize = 65535"

definition resolveWindow :: "int option \<Rightarrow> 64 word \<Rightarrow> 32 word \<Rightarrow> 32 word" where
  "resolveWindow env dflt lo =
     clampToRange (option_or (readEnvUnsignedInt env) dflt) lo maxSessionReceiveWindowSize"

text \<open>The windows of a stream and of the connection, from the two environment variables.\<close>

definition constructReceiveWindowSizes :: "int option \<Rightarrow> int option \<Rightarrow> 32 word \<times> 32 word" where
  "constructReceiveWindowSizes envStream envConn =
     (let streamWindow = resolveWindow envStream DefaultHttp2StreamReceiveWindowSize
            MinimumHttp2StreamReceiveWindowSize;
          connectionDefault = max (ucast defaultSessionWindowSize)
            (min (ucast streamWindow * 4) (ucast maxSessionReceiveWindowSize));
          connectionWindow = resolveWindow envConn connectionDefault defaultSessionWindowSize
      in (if connectionWindow < streamWindow then connectionWindow else streamWindow, connectionWindow))"

text \<open>
  The configuration of QtNetwork, \<open>None\<close> for a value that is left at its default; the two
  predicates say which window sizes its setters accept.
\<close>

record http2_configuration =
  streamReceiveWindowSize :: "32 word option"
  sessionReceiveWindowSize :: "32 word option"
  maxHeaderListSize :: "32 word"

definition createHttp2Configuration ::
  "(32 word \<Rightarrow> bool) \<Rightarrow> (32 word \<Rightarrow> bool) \<Rightarrow> channel_options \<Rightarrow> int option \<Rightarrow> int option \<Rightarrow> 64 word option \<Rightarrow>
   http2_configuration" where
  "createHttp2Configuration acceptsStream acceptsSession chOpts envStream envConn envMaximumMetadataSize =
     (let windows = constructReceiveWindowSizes envStream envConn;
          requested =
            (case co_maximumMetadataSize chOpts of
               Some v \<Rightarrow> v
             | None \<Rightarrow> (case envMaximumMetadataSize of Some v \<Rightarrow> v | None \<Rightarrow> DefaultMaximumMetadataSize))
      in \<lparr>streamReceiveWindowSize = (if acceptsStream (fst windows) then Some (fst windows) else None),
          sessionReceiveWindowSize = (if acceptsSession (snd windows) then Some (snd windows) else None),
          maxHeaderListSize = clampToRange requested MinimumMetadataSize (- 1)\<rparr>)"

subsection \<open>What the channel keeps\<close>

definition channel_headers_of :: "qurl \<Rightarrow> channel_options \<Rightarrow> string \<Rightarrow> string \<Rightarrow> string \<Rightarrow> channel_headers" where
  "channel_headers_of uri chOpts cType acceptEnc agent =
     (let sock = constructSocketType uri chOpts; hostUri = sanitizeHostUri uri chOpts
      in \<lparr>authorityHeader = constructAuthorityHeader hostUri sock, schemeHeader = constructSchemeHeader sock,
          contentType = cType, acceptEncodingHeader = acceptEnc, userAgent = agent\<rparr>)"

subsection \<open>Lemmas\<close>

lemma sanitized_scheme:
  "url_scheme (sanitizeHostUri u o1) =
     (case constructSocketType u o1 of
        Tcp \<Rightarrow> HttpScheme | Tls \<Rightarrow> HttpsScheme | Local \<Rightarrow> UnixScheme | LocalAbstract \<Rightarrow> UnixAbstractScheme)"
  by (auto simp: sanitizeHostUri_def constructSocketType_def Let_def)

lemma sanitized_port:
  "url_port (sanitizeHostUri u o1) =
     (if constructSocketType u o1 \<in> {Tcp, Tls} \<and> url_port u < 0
      then if constructSocketType u o1 = Tls then 443 else 80 else url_port u)"
  by (auto simp: sanitizeHostUri_def constructSocketType_def Let_def)

lemma unat_ucast_64 [simp]: "unat (ucast (w :: 32 word) :: 64 word) = unat w"
proof -
  have "unat w < 2 ^ 64" using unsigned_less [of w, where 'a = nat] by simp
  then show ?thesis by (simp add: unsigned_ucast_eq take_bit_nat_eq_self)
qed

lemma unat_clampToRange:
  assumes "lo \<le> cap"
  shows "unat (clampToRange v lo cap) = max (unat lo) (min (unat v) (unat cap))"
proof -
  have le: "unat lo \<le> unat cap" using assms by (simp add: word_le_nat_alt)
  have "unat (ucast v :: 32 word) = unat v" if "unat v \<le> unat cap"
    using that unsigned_less [of cap, where 'a = nat] by (simp add: unsigned_ucast_eq take_bit_nat_eq_self)
  with le show ?thesis by (auto simp: clampToRange_def word_less_nat_alt not_less)
qed

definition env_size :: "int option \<Rightarrow> 64 word \<Rightarrow> nat" where
  "env_size env dflt = unat (option_or (readEnvUnsignedInt env) dflt)"

lemma window_limits:
  "unat maxSessionReceiveWindowSize = 2147483647" "unat defaultSessionWindowSize = 65535"
  "unat MinimumHttp2StreamReceiveWindowSize = 1024"
  by (simp_all add: maxSessionReceiveWindowSize_def defaultSessionWindowSize_def MinimumHttp2StreamReceiveWindowSize_def)

lemma unat_resolveWindow:
  "unat lo \<le> 2147483647 \<Longrightarrow> unat (resolveWindow env dflt lo) = max (unat lo) (min (env_size env dflt) 2147483647)"
  by (simp add: resolveWindow_def unat_clampToRange word_le_nat_alt window_limits env_size_def)

lemma receive_windows:
  assumes "s = max 1024 (min (env_size es DefaultHttp2StreamReceiveWindowSize) 2147483647)"
  shows "unat (snd (constructReceiveWindowSizes es ec)) =
      max 65535 (min (env_size ec (of_nat (max 65535 (min (s * 4) 2147483647)))) 2147483647)"
    and "unat (fst (constructReceiveWindowSizes es ec)) =
      min s (unat (snd (constructReceiveWindowSizes es ec)))"
proof -
  define sw where "sw = resolveWindow es DefaultHttp2StreamReceiveWindowSize MinimumHttp2StreamReceiveWindowSize"
  have sw: "unat sw = s" by (simp add: sw_def assms unat_resolveWindow window_limits)
  have le: "s \<le> 2147483647" by (simp add: assms)
  have "unat (ucast sw * 4 :: 64 word) = s * 4" using le by (simp add: unat_word_ariths sw)
  then have "unat (max (ucast defaultSessionWindowSize) (min (ucast sw * 4) (ucast maxSessionReceiveWindowSize)) :: 64 word) =
      max 65535 (min (s * 4) 2147483647)"
    by (simp add: max_def min_def word_le_nat_alt window_limits)
  then have cd: "max (ucast defaultSessionWindowSize) (min (ucast sw * 4) (ucast maxSessionReceiveWindowSize)) =
      (of_nat (max 65535 (min (s * 4) 2147483647)) :: 64 word)"
    by (metis of_nat_unat ucast_id)
  show "unat (snd (constructReceiveWindowSizes es ec)) =
      max 65535 (min (env_size ec (of_nat (max 65535 (min (s * 4) 2147483647)))) 2147483647)"
    unfolding constructReceiveWindowSizes_def Let_def snd_conv sw_def [symmetric] cd
    by (subst unat_resolveWindow) (simp_all add: window_limits)
  show "unat (fst (constructReceiveWindowSizes es ec)) = min s (unat (snd (constructReceiveWindowSizes es ec)))"
    by (simp add: constructReceiveWindowSizes_def Let_def sw_def [symmetric] sw word_less_nat_alt)
qed

lemma suffix_make_format:
  "format_suffix (make_format Json n) = ''json''" "format_suffix (make_format Protobuf n) = ''proto''"
  "format_suffix (make_format Default n) = ''''"
  by (simp_all add: make_format_def)

text \<open>The URI of a channel is normalized: the scheme names the kind of socket that is used, a network
  socket has a port, and making a channel from the normalized URI, with the same options or without
  an SSL configuration, gives the same kind of socket, authority and scheme header, and the same URI.\<close>

theorem host_uri_is_normal:
  assumes "hasSslConfiguration opts' \<longrightarrow> hasSslConfiguration opts"
  shows "constructSocketType (sanitizeHostUri u opts) opts' = constructSocketType u opts \<and>
    sanitizeHostUri (sanitizeHostUri u opts) opts' = sanitizeHostUri u opts \<and>
    (constructSocketType u opts \<in> {Tcp, Tls} \<longrightarrow> 0 \<le> url_port (sanitizeHostUri u opts)) \<and>
    (url_scheme (sanitizeHostUri u opts) = HttpsScheme \<longleftrightarrow> constructSchemeHeader (constructSocketType u opts) = ''https'')"
  using assms
  by (auto simp: sanitizeHostUri_def constructSocketType_def constructSchemeHeader_def scheme_defs Let_def)

text \<open>The content type that a channel announces belongs to the serialization format it uses after the
  negotiation; a content type in the metadata of the channel decides the format only when the
  format of the options has no suffix; and a call sends this content type and no other, whatever
  metadata is set on the channel and on the call.\<close>

theorem content_type_matches_format:
  assumes "setupContentTypeNegotiation fresh opts = (ct, opts')" and "contentType ch = ct"
  shows "ct = format_content_type (format_suffix (co_serializationFormat opts')) \<and>
    (format_suffix (co_serializationFormat opts) \<noteq> [] \<longrightarrow> opts' = opts) \<and>
    (format_suffix (co_serializationFormat opts) = [] \<and>
       map_of (m_metadata opts) ContentTypeHeader = Some ''application/grpc+json'' \<longrightarrow>
       format_suffix (co_serializationFormat opts') = ''json'') \<and>
    filter (\<lambda>kv. fst kv = ContentTypeHeader) (constructInitialHeaders ch rpc callOpts chOpts) =
      [(ContentTypeHeader, ct)]"
proof -
  have nomd: "filter (\<lambda>kv. fst kv = ContentTypeHeader) (iterateMetadata md) = []" for md
    by (auto simp: iterateMetadata_def reserved_key_def filter_empty_conv)
  have "filter (\<lambda>kv. fst kv = ContentTypeHeader) (constructInitialHeaders ch rpc callOpts chOpts) =
      [(ContentTypeHeader, ct)]"
    using assms(2) unfolding constructInitialHeaders_def Let_def filter_append nomd
    by (simp add: ContentTypeHeader_def GrpcAcceptEncodingHeader_def GrpcEncodingHeader_def)
  moreover have "ct = format_content_type (format_suffix (co_serializationFormat opts'))"
    using assms(1) by (auto simp: setupContentTypeNegotiation_def Let_def)
  moreover have "opts' = opts" if "format_suffix (co_serializationFormat opts) \<noteq> []"
    using that assms(1) by (auto simp: setupContentTypeNegotiation_def Let_def split: option.splits)
  moreover have "format_suffix (co_serializationFormat opts') = ''json''"
    if "format_suffix (co_serializationFormat opts) = []"
      "map_of (m_metadata opts) ContentTypeHeader = Some ''application/grpc+json''"
    using that assms(1)
    by (auto simp: setupContentTypeNegotiation_def Let_def setSerializationFormat_def format_comparesEqual_def
        suffix_make_format DefaultContentType_def)
  ultimately show ?thesis by blast
qed

definition json_options :: channel_options where
  "json_options = (new_channel_options (\<lambda>_. True) 0)\<lparr>m_metadata := [(''content-type'', ''application/grpc+json'')]\<rparr>"

lemma json_options_facts:
  "m_metadata json_options = [(ContentTypeHeader, ''application/grpc+json'')]"
  "format_suffix (co_serializationFormat json_options) = []"
  by (simp_all add: json_options_def new_channel_options_def common_options.defs channel_options.defs
      ContentTypeHeader_def make_format_def)

lemma default_windows: "constructReceiveWindowSizes None None = (4194304, 16777216)"
  by (simp add: constructReceiveWindowSizes_def resolveWindow_def readEnvUnsignedInt_def option_or_def
      clampToRange_def DefaultHttp2StreamReceiveWindowSize_def MinimumHttp2StreamReceiveWindowSize_def
      maxSessionReceiveWindowSize_def defaultSessionWindowSize_def)

text \<open>The HTTP/2 windows: whatever the environment says, the window of a stream is between 1 KiB and
  2 GiB and not larger than the window of the connection, which is between 64 KiB and 2 GiB; without
  environment variables they are 4 MiB and 16 MiB, and only the variable of the stream scales both.\<close>

theorem receive_windows_bounds:
  "1024 \<le> unat (fst (constructReceiveWindowSizes es ec)) \<and>
   fst (constructReceiveWindowSizes es ec) \<le> snd (constructReceiveWindowSizes es ec) \<and>
   65535 \<le> unat (snd (constructReceiveWindowSizes es ec)) \<and>
   unat (snd (constructReceiveWindowSizes es ec)) \<le> 2147483647 \<and>
   constructReceiveWindowSizes None None = (4194304, 16777216) \<and>
   constructReceiveWindowSizes (Some 100000) None = (100000, 400000)"
proof -
  obtain x y where w: "unat (snd (constructReceiveWindowSizes es ec)) = max 65535 (min x 2147483647)"
    "unat (fst (constructReceiveWindowSizes es ec)) =
      min (max 1024 (min y 2147483647)) (unat (snd (constructReceiveWindowSizes es ec)))"
    using receive_windows [OF refl, of es ec] by blast
  have "1024 \<le> unat (fst (constructReceiveWindowSizes es ec)) \<and>
   unat (fst (constructReceiveWindowSizes es ec)) \<le> unat (snd (constructReceiveWindowSizes es ec)) \<and>
   65535 \<le> unat (snd (constructReceiveWindowSizes es ec)) \<and>
   unat (snd (constructReceiveWindowSizes es ec)) \<le> 2147483647"
    unfolding w by simp
  moreover have "constructReceiveWindowSizes None None = (4194304, 16777216)"
    "constructReceiveWindowSizes (Some 100000) None = (100000, 400000)"
    by (simp_all add: constructReceiveWindowSizes_def resolveWindow_def readEnvUnsignedInt_def option_or_def
        clampToRange_def DefaultHttp2StreamReceiveWindowSize_def MinimumHttp2StreamReceiveWindowSize_def
        maxSessionReceiveWindowSize_def defaultSessionWindowSize_def)
  ultimately show ?thesis by (simp add: word_le_nat_alt)
qed

text \<open>The cached header value is the one of the current flags.\<close>

definition cache_ok :: "accept_cache \<Rightarrow> bool" where
  "cache_ok cache \<longleftrightarrow> (case fst cache of None \<Rightarrow> True | Some text \<Rightarrow> text = constructAcceptEncoding (snd cache))"

lemma acceptEncoding_cached:
  assumes "cache_ok cache"
  shows "fst (acceptEncoding opts cache) = constructAcceptEncoding (co_acceptedCompressionAlgorithms opts)"
    and "cache_ok (snd (acceptEncoding opts cache))"
  using assms by (auto simp: acceptEncoding_def cache_ok_def Let_def split: option.splits prod.splits)

end
