(* ===== verification/Http2Channel.thy ===== *)
theory Http2Channel
  imports ChannelSetup
begin

text \<open>
  The HTTP/2 channel around its handlers (src/src/grpc/qgrpchttp2channel.cpp,
  \<open>QGrpcHttp2ChannelPrivate\<close>): the states of the connection, its timers and the calls that wait for
  it. The socket and \<open>QHttp2Connection\<close> belong to QtNetwork. Slots of the user that call back into
  the channel from a signal are not modelled.
\<close>

subsection \<open>State\<close>

datatype connection_state = Connecting | Connected | SettingsReceived | Error

datatype socket_state = Unconnected | SocketConnecting | SocketConnected

text \<open>
  What QtNetwork offers: the streams, and the connection with the streams it makes. A refused stream
  has an error text.
\<close>

record ('s, 'c) transport =
  t_net :: "'s net"
  createDirectConnection :: "http2_configuration \<Rightarrow> 'c"
  createStream :: "'c \<Rightarrow> (string + 's) \<times> 'c"

datatype connect_call =
  ConnectToHost string int | ConnectToHostEncrypted string int | ConnectToServer string bool

datatype channel_effect =
  ConnectSocket connect_call | AbortSocket | StartReconnectTimer int | EmitContextFinished grpc_status | UseAfterDelete

text \<open>
  \<open>ch_handlers\<close> are the children in the order of their creation, each with an identity.
  \<open>ch_posted\<close> are the statuses posted to contexts that never got a handler, and \<open>ch_dangling\<close> counts
  the calls of \<open>finish\<close> that were posted to a living context for a handler that is deleted.
\<close>

record ('s, 'c) channel =
  ch_options :: channel_options
  ch_hostUri :: qurl
  ch_socketType :: socket_type
  ch_offeredProtocols :: "string list option"
  ch_headers :: channel_headers
  ch_envMaximumReceiveSize :: "64 word option"
  ch_configuration :: http2_configuration
  ch_acceptEncoding :: accept_cache
  ch_socket :: socket_state
  ch_connection :: "'c option"
  ch_insideSocketError :: bool
  ch_state :: connection_state
  ch_reconnectBackoff :: reconnect_backoff
  ch_reconnectTimer :: bool
  ch_connectTimeout :: int
  ch_connectTimeoutTimer :: bool
  ch_handlers :: "(nat \<times> 's http2_handler) list"
  ch_nextId :: nat
  ch_posted :: "grpc_status list"
  ch_dangling :: nat
  ch_effects :: "channel_effect list"

definition ch_perform :: "channel_effect \<Rightarrow> ('s, 'c) channel \<Rightarrow> ('s, 'c) channel" where
  "ch_perform e ch = ch\<lparr>ch_effects := ch_effects ch @ [e]\<rparr>"

text \<open>
  \<open>m_reconnectFunction\<close> by the kind of the socket; a local socket has the option of the abstract
  namespace.
\<close>

definition reconnect_call :: "socket_type \<Rightarrow> qurl \<Rightarrow> connect_call" where
  "reconnect_call sock uri =
     (case sock of
        Tcp \<Rightarrow> ConnectToHost (url_host uri) (url_port uri)
      | Tls \<Rightarrow> ConnectToHostEncrypted (url_host uri) (url_port uri)
      | Local \<Rightarrow> ConnectToServer (url_host uri @ url_path uri) False
      | LocalAbstract \<Rightarrow> ConnectToServer (url_host uri @ url_path uri) True)"

text \<open>
  The protocols that a TLS socket offers when no SSL configuration is set: those of the default
  configuration, with HTTP/2 among them. \<open>None\<close>: a configuration is set, or the socket is no TLS socket.
\<close>

definition offered_protocols :: "socket_type \<Rightarrow> channel_options \<Rightarrow> string list \<Rightarrow> string list option" where
  "offered_protocols sock opts defaults =
     (if sock \<noteq> Tls \<or> co_sslConfiguration opts \<noteq> None then None
      else Some (if ''h2'' \<in> set defaults then defaults else defaults @ [''h2'']))"

subsection \<open>Operations\<close>

text \<open>\<open>for_each_non_expired_handler\<close>: the expired ones are deleted after the loop.\<close>

fun visit_handlers ::
  "('s http2_handler \<Rightarrow> 'a \<Rightarrow> 's http2_handler \<times> 'a) \<Rightarrow> (nat \<times> 's http2_handler) list \<Rightarrow> 'a \<Rightarrow>
   (nat \<times> 's http2_handler) list \<times> 'a" where
  "visit_handlers proj [] a = ([], a)"
| "visit_handlers proj ((i, h) # hs) a =
     (if h_context h
      then case proj h a of
             (h', a') \<Rightarrow> (case visit_handlers proj hs a' of (hs', a'') \<Rightarrow> ((i, h') # hs', a''))
      else visit_handlers proj hs a)"

text \<open>The part of the channel that the projections change is the connection.\<close>

definition for_each_non_expired_handler ::
  "('s http2_handler \<Rightarrow> 'c option \<Rightarrow> 's http2_handler \<times> 'c option) \<Rightarrow> ('s, 'c) channel \<Rightarrow> ('s, 'c) channel" where
  "for_each_non_expired_handler proj ch =
     (case visit_handlers proj (ch_handlers ch) (ch_connection ch) of
        (hs, c) \<Rightarrow> ch\<lparr>ch_handlers := hs, ch_connection := c\<rparr>)"

definition createHttp2Stream ::
  "('s, 'c) transport \<Rightarrow> 's http2_handler \<Rightarrow> 'c \<Rightarrow> bool \<times> 's http2_handler \<times> 'c" where
  "createHttp2Stream tr h c =
     (case createStream tr c of
        (Inl err, c') \<Rightarrow>
          (False, asyncFinish \<lparr>code = Unavailable,
                               message = ''Unable to create an HTTP/2 stream ('' @ err @ '')''\<rparr> h, c')
      | (Inr s, c') \<Rightarrow> (True, attachStream s h, c'))"

definition attemptConnect :: "('s, 'c) channel \<Rightarrow> ('s, 'c) channel" where
  "attemptConnect ch =
     (let ch = (if 0 < ch_connectTimeout ch then ch\<lparr>ch_connectTimeoutTimer := True\<rparr> else ch);
          ch = ch_perform (ConnectSocket (reconnect_call (ch_socketType ch) (ch_hostUri ch))) ch
      in if ch_socket ch = Unconnected then ch\<lparr>ch_socket := SocketConnecting\<rparr> else ch)"

definition schedule_reconnect :: "rat \<Rightarrow> ('s, 'c) channel \<Rightarrow> ('s, 'c) channel" where
  "schedule_reconnect random ch =
     (let ch = (if \<not> ch_reconnectTimer ch
                then case nextDelay random (ch_reconnectBackoff ch) of
                       (delay, b) \<Rightarrow> ch_perform (StartReconnectTimer delay)
                         (ch\<lparr>ch_reconnectBackoff := b, ch_reconnectTimer := True\<rparr>)
                else ch)
      in ch\<lparr>ch_state := Connecting\<rparr>)"

text \<open>
  A call: \<open>writable\<close> and \<open>errorString\<close> are what the socket answers, \<open>random\<close> is the random number that
  a backoff would use. The new handler is added once it is complete.
\<close>

definition processOperation ::
  "('s, 'c) transport \<Rightarrow> rpc_descriptor \<Rightarrow> common_options \<Rightarrow> byte list \<Rightarrow> bool \<Rightarrow> bool \<Rightarrow> string \<Rightarrow> rat \<Rightarrow>
   ('s, 'c) channel \<Rightarrow> ('s, 'c) channel" where
  "processOperation tr rpc callOpts messageData endStream writable errorString random ch =
     (if \<not> writable \<and> ch_state ch = Connected
      then ch\<lparr>ch_posted := ch_posted ch @ [\<lparr>code = Unavailable, message = errorString\<rparr>]\<rparr>
      else case acceptEncoding (ch_options ch) (ch_acceptEncoding ch) of
        (accept, cache) \<Rightarrow>
          let h = new_handler (t_net tr) ((ch_headers ch)\<lparr>acceptEncodingHeader := accept\<rparr>) rpc callOpts
                    (ch_options ch) (ch_envMaximumReceiveSize ch) messageData endStream;
              add = (\<lambda>h ch. ch\<lparr>ch_handlers := ch_handlers ch @ [(ch_nextId ch, h)], ch_nextId := Suc (ch_nextId ch)\<rparr>);
              ch = ch\<lparr>ch_acceptEncoding := cache\<rparr>;
              (ok, h, ch) =
                (case ch_connection ch of
                   Some c \<Rightarrow> (case createHttp2Stream tr h c of (ok, h', c') \<Rightarrow> (ok, h', ch\<lparr>ch_connection := Some c'\<rparr>))
                 | None \<Rightarrow> (True, h, ch))
          in if \<not> ok then add h ch
             else let h = (if ch_state ch = SettingsReceived then sendInitialRequest (t_net tr) h else h);
                      ch = (if ch_state ch = Error then schedule_reconnect random ch else ch)
                  in add h ch)"

definition createHttp2Connection :: "('s, 'c) transport \<Rightarrow> ('s, 'c) channel \<Rightarrow> ('s, 'c) channel" where
  "createHttp2Connection tr ch =
     for_each_non_expired_handler
       (\<lambda>h c. case c of
                Some c \<Rightarrow> (case createHttp2Stream tr h c of (ok, h', c') \<Rightarrow> (h', Some c'))
              | None \<Rightarrow> (h, None))
       (ch\<lparr>ch_connection := Some (createDirectConnection tr (ch_configuration ch)), ch_state := Connected\<rparr>)"

definition settingsFrameReceived :: "('s, 'c) transport \<Rightarrow> ('s, 'c) channel \<Rightarrow> ('s, 'c) channel" where
  "settingsFrameReceived tr ch =
     (if ch_state ch = SettingsReceived then ch
      else for_each_non_expired_handler (\<lambda>h c. (sendInitialRequest (t_net tr) h, c))
             (ch\<lparr>ch_connectTimeoutTimer := False, ch_reconnectBackoff := reset_backoff (ch_reconnectBackoff ch),
                 ch_state := SettingsReceived\<rparr>))"

text \<open>Deleting the connection deletes its streams, and the guarded pointers to them become null.\<close>

definition delete_connection :: "('s, 'c) channel \<Rightarrow> ('s, 'c) channel" where
  "delete_connection ch =
     ch\<lparr>ch_connection := None,
        ch_handlers := (if ch_connection ch = None then ch_handlers ch
                        else map (\<lambda>(i, h). (i, h\<lparr>h_stream := None\<rparr>)) (ch_handlers ch))\<rparr>"

definition handleSocketError :: "string \<Rightarrow> ('s, 'c) channel \<Rightarrow> ('s, 'c) channel" where
  "handleSocketError errorCode ch =
     (let inside = ch_insideSocketError ch;
          ch = for_each_non_expired_handler
            (\<lambda>h c. if inside then (h, c)
                   else (finish \<lparr>code = Unavailable, message = ''Network error occurred: '' @ errorCode\<rparr> h, c)) ch
      in (delete_connection (ch\<lparr>ch_connectTimeoutTimer := False\<rparr>))\<lparr>ch_state := Error\<rparr>)"

text \<open>The slot of the connect timer.\<close>

definition connectTimedOut :: "('s, 'c) channel \<Rightarrow> ('s, 'c) channel" where
  "connectTimedOut ch =
     handleSocketError ''ConnectTimeout''
       (ch_perform AbortSocket (ch\<lparr>ch_connectTimeoutTimer := False, ch_socket := Unconnected\<rparr>))"

text \<open>The number of posted calls of \<open>finish\<close> that outlive a handler.\<close>

definition outliving_finishes :: "'s http2_handler \<Rightarrow> nat" where
  "outliving_finishes h = (if h_context h then length (h_pendingFinish h) else 0)"

definition delete_handler :: "nat \<Rightarrow> ('s, 'c) channel \<Rightarrow> ('s, 'c) channel" where
  "delete_handler i ch =
     ch\<lparr>ch_handlers := filter (\<lambda>(j, h). j \<noteq> i) (ch_handlers ch),
        ch_dangling := ch_dangling ch +
          (case map_of (ch_handlers ch) i of Some h \<Rightarrow> outliving_finishes h | None \<Rightarrow> 0)\<rparr>"

definition destroyChannel :: "('s, 'c) channel \<Rightarrow> ('s, 'c) channel" where
  "destroyChannel ch =
     (let ch = delete_connection (for_each_non_expired_handler
            (\<lambda>h c. (finish \<lparr>code = Unavailable, message = ''Channel destroyed''\<rparr> h, c)) ch)
      in ch\<lparr>ch_handlers := [],
            ch_dangling := ch_dangling ch + sum_list (map (\<lambda>(i, h). outliving_finishes h) (ch_handlers ch))\<rparr>)"

text \<open>The environment variables that are read once.\<close>

record channel_env =
  env_maximumReceiveSize :: "int option"
  env_initialReconnectBackoff :: "int option"
  env_maximumReconnectBackoff :: "int option"
  env_connectTimeout :: "int option"
  env_maximumMetadataSize :: "int option"
  env_streamWindow :: "int option"
  env_connectionWindow :: "int option"

definition new_channel ::
  "channel_env \<Rightarrow> (32 word \<Rightarrow> bool) \<Rightarrow> (32 word \<Rightarrow> bool) \<Rightarrow> string list \<Rightarrow> string \<Rightarrow> nat \<Rightarrow> qurl \<Rightarrow> channel_options \<Rightarrow>
   ('s, 'c) channel" where
  "new_channel env acceptsStream acceptsSession protocols agent fresh uri chOpts =
     (case setupContentTypeNegotiation fresh chOpts of
        (cType, opts) \<Rightarrow>
          attemptConnect
            \<lparr>ch_options = opts, ch_hostUri = sanitizeHostUri uri chOpts,
             ch_socketType = constructSocketType uri chOpts,
             ch_offeredProtocols = offered_protocols (constructSocketType uri chOpts) opts protocols,
             ch_headers = channel_headers_of uri chOpts cType [] agent,
             ch_envMaximumReceiveSize = readEnvUnsignedInt (env_maximumReceiveSize env),
             ch_configuration = createHttp2Configuration acceptsStream acceptsSession opts
               (env_streamWindow env) (env_connectionWindow env) (readEnvUnsignedInt (env_maximumMetadataSize env)),
             ch_acceptEncoding = (None, 0), ch_socket = Unconnected, ch_connection = None,
             ch_insideSocketError = False, ch_state = Connecting,
             ch_reconnectBackoff = constructReconnectBackoff opts
               (readEnvUnsignedInt (env_initialReconnectBackoff env))
               (readEnvUnsignedInt (env_maximumReconnectBackoff env)),
             ch_reconnectTimer = False,
             ch_connectTimeout = resolveMs (co_connectTimeout opts)
               (readEnvUnsignedInt (env_connectTimeout env)) DefaultConnectTimeout,
             ch_connectTimeoutTimer = False, ch_handlers = [], ch_nextId = 0, ch_posted = [],
             ch_dangling = 0, ch_effects = []\<rparr>)"

subsection \<open>Events\<close>

datatype 's channel_event =
  OperationStarted rpc_descriptor common_options "byte list" bool bool string rat
| SocketConnectedSignal | SettingsFrame | SocketErrorSignal string bool
| ConnectTimerExpired | ReconnectTimerExpired
| HandlerEvent nat "'s event" | HandlerDeleted nat | PostedContextFinish | DanglingFinish

text \<open>The events of a handler that do not come from the channel.\<close>

fun outside_event :: "'s event \<Rightarrow> bool" where
  "outside_event (AttachStream s) = False"
| "outside_event StreamDestroyed = False"
| "outside_event SendInitialRequest = False"
| "outside_event (FinishCalled st) = False"
| "outside_event (AsyncFinishCalled st) = False"
| "outside_event e = True"

text \<open>A socket signals an error only while it connects or is connected; it may stay in its state.\<close>

fun channel_enabled :: "'s channel_event \<Rightarrow> ('s, 'c) channel \<Rightarrow> bool" where
  "channel_enabled (OperationStarted rpc co bs e w err r) ch \<longleftrightarrow> True"
| "channel_enabled SocketConnectedSignal ch \<longleftrightarrow> ch_socket ch = SocketConnecting"
| "channel_enabled SettingsFrame ch \<longleftrightarrow> ch_connection ch \<noteq> None"
| "channel_enabled (SocketErrorSignal err closes) ch \<longleftrightarrow> ch_socket ch \<noteq> Unconnected"
| "channel_enabled ConnectTimerExpired ch \<longleftrightarrow> ch_connectTimeoutTimer ch"
| "channel_enabled ReconnectTimerExpired ch \<longleftrightarrow> ch_reconnectTimer ch"
| "channel_enabled (HandlerEvent i e) ch \<longleftrightarrow>
     (case map_of (ch_handlers ch) i of Some h \<Rightarrow> outside_event e \<and> enabled e h | None \<Rightarrow> False)"
| "channel_enabled (HandlerDeleted i) ch \<longleftrightarrow>
     (case map_of (ch_handlers ch) i of Some h \<Rightarrow> DeleteLater \<in> set (h_effects h) | None \<Rightarrow> False)"
| "channel_enabled PostedContextFinish ch \<longleftrightarrow> ch_posted ch \<noteq> []"
| "channel_enabled DanglingFinish ch \<longleftrightarrow> 0 < ch_dangling ch"

fun channel_handle :: "('s, 'c) transport \<Rightarrow> 's channel_event \<Rightarrow> ('s, 'c) channel \<Rightarrow> ('s, 'c) channel" where
  "channel_handle tr (OperationStarted rpc co bs e w err r) ch = processOperation tr rpc co bs e w err r ch"
| "channel_handle tr SocketConnectedSignal ch = createHttp2Connection tr (ch\<lparr>ch_socket := SocketConnected\<rparr>)"
| "channel_handle tr SettingsFrame ch = settingsFrameReceived tr ch"
| "channel_handle tr (SocketErrorSignal err closes) ch =
     handleSocketError err (if closes then ch\<lparr>ch_socket := Unconnected\<rparr> else ch)"
| "channel_handle tr ConnectTimerExpired ch = connectTimedOut ch"
| "channel_handle tr ReconnectTimerExpired ch = attemptConnect (ch\<lparr>ch_reconnectTimer := False\<rparr>)"
| "channel_handle tr (HandlerEvent i e) ch =
     ch\<lparr>ch_handlers := map (\<lambda>(j, h). (j, if j = i then handle (t_net tr) e h else h)) (ch_handlers ch)\<rparr>"
| "channel_handle tr (HandlerDeleted i) ch = delete_handler i ch"
| "channel_handle tr PostedContextFinish ch =
     ch_perform (EmitContextFinished (hd (ch_posted ch))) (ch\<lparr>ch_posted := tl (ch_posted ch)\<rparr>)"
| "channel_handle tr DanglingFinish ch = ch_perform UseAfterDelete (ch\<lparr>ch_dangling := ch_dangling ch - 1\<rparr>)"

inductive channel_run ::
  "('s, 'c) transport \<Rightarrow> ('s, 'c) channel \<Rightarrow> 's channel_event list \<Rightarrow> ('s, 'c) channel \<Rightarrow> bool" for tr where
  channel_run_nil: "channel_run tr ch [] ch"
| channel_run_snoc: "channel_run tr ch es ch' \<Longrightarrow> channel_enabled e ch' \<Longrightarrow>
    channel_run tr ch (es @ [e]) (channel_handle tr e ch')"

inductive_cases channel_run_snocE: "channel_run tr ch (es @ [e]) ch'"

end
