(* ===== verification/ClientCalls.thy ===== *)
theory ClientCalls
  imports GrpcOperation Http2Channel
begin

text \<open>
  A call as the client sees it: the operation (src/src/grpc/qgrpcoperation.cpp) and the handler of its
  HTTP/2 stream (qgrpchttp2channel.cpp), connected by the signals of the operation context; and the
  client with its set of active streams (qgrpcclientbase.cpp).
\<close>

subsection \<open>The signals of the context\<close>

text \<open>What the operation does when the handler signals.\<close>

fun context_signal ::
  "('i, 'm, 'w) grpc_channel \<Rightarrow> effect \<Rightarrow> ('m, 'w) operation \<Rightarrow> ('m, 'w) operation" where
  "context_signal gc (EmitFinished st) op = context_finished gc st op"
| "context_signal gc (EmitMessageReceived bs) op = context_messageReceived gc bs op"
| "context_signal gc EmitMessageWritten op = context_messageWritten op"
| "context_signal gc (SetBytesToWrite n) op = setBytesToWrite n op"
| "context_signal gc (SetServerInitialMetadata md) op = setServerInitialMetadata gc md op"
| "context_signal gc (SetServerTrailingMetadata md) op = setServerTrailingMetadata gc md op"
| "context_signal gc _ op = op"

text \<open>The slots of the handler that the requests of the operation reach.\<close>

fun request_event :: "context_request \<Rightarrow> 's event option" where
  "request_event RequestCancel = Some CancelRequested"
| "request_event (RequestWrite bs) = Some (WriteMessageRequested bs)"
| "request_event RequestWritesDone = Some WritesDoneRequested"
| "request_event NullSerializer = None"

record ('m, 'w, 's) client_call =
  cc_operation :: "('m, 'w) operation"
  cc_handler :: "'s http2_handler option"

definition new_effects :: "'s http2_handler \<Rightarrow> 's http2_handler \<Rightarrow> effect list" where
  "new_effects h h' = drop (length (h_effects h)) (h_effects h')"

definition handler_event ::
  "('i, 'm, 'w) grpc_channel \<Rightarrow> 's net \<Rightarrow> 's event \<Rightarrow> ('m, 'w, 's) client_call \<Rightarrow> ('m, 'w, 's) client_call" where
  "handler_event gc net e c =
     (case cc_handler c of
        None \<Rightarrow> c
      | Some h \<Rightarrow>
          let h' = handle net e h
          in c\<lparr>cc_handler := Some h',
               cc_operation := fold (context_signal gc) (new_effects h h') (cc_operation c)\<rparr>)"

definition deliver_request ::
  "('i, 'm, 'w) grpc_channel \<Rightarrow> 's net \<Rightarrow> context_request \<Rightarrow> ('m, 'w, 's) client_call \<Rightarrow> ('m, 'w, 's) client_call" where
  "deliver_request gc net r c =
     (case (cc_handler c, request_event r) of
        (Some h, Some e) \<Rightarrow> if enabled e h then handler_event gc net e c else c
      | _ \<Rightarrow> c)"

text \<open>A method of the operation, with the requests that it makes.\<close>

definition client_action ::
  "('i, 'm, 'w) grpc_channel \<Rightarrow> 's net \<Rightarrow> (('m, 'w) operation \<Rightarrow> ('m, 'w) operation) \<Rightarrow>
   ('m, 'w, 's) client_call \<Rightarrow> ('m, 'w, 's) client_call" where
  "client_action gc net f c =
     (let op = f (cc_operation c)
      in fold (deliver_request gc net) (drop (length (op_requests (cc_operation c))) (op_requests op))
           (c\<lparr>cc_operation := op\<rparr>))"

subsection \<open>Starting a call\<close>

text \<open>
  \<open>call\<close>, \<open>serverStream\<close>, \<open>clientStream\<close> and \<open>bidiStream\<close> of \<open>QGrpcHttp2Channel\<close> differ in the flag
  \<open>endStream\<close> that they pass to \<open>processOperation\<close>.
\<close>

primrec startRpcFunction ::
  "rpc_type \<Rightarrow> (bool \<Rightarrow> ('s, 'c) channel \<Rightarrow> ('s, 'c) channel) \<Rightarrow> ('s, 'c) channel \<Rightarrow> ('s, 'c) channel" where
  "startRpcFunction UnaryCall process ch = process True ch"
| "startRpcFunction ServerStreaming process ch = process True ch"
| "startRpcFunction ClientStreaming process ch = process False ch"
| "startRpcFunction BidiStreaming process ch = process False ch"

definition rpc_endStream :: "rpc_type \<Rightarrow> bool" where
  "rpc_endStream t \<longleftrightarrow> t = UnaryCall \<or> t = ServerStreaming"

lemma startRpcFunction_endStream:
  "startRpcFunction t process ch = process (rpc_endStream t) ch"
  by (cases t) (simp_all add: rpc_endStream_def)

text \<open>
  The start of a call on a channel: with the operation and, when the argument could be serialized, the
  handler that \<open>processOperation\<close> creates. The signals of its constructor reach the operation.
  \<open>unwritable\<close> is the text of the error of a socket that is not writable while the channel is in the state
  \<open>Connected\<close>: then no handler is created, and a timer posts \<open>finished\<close> to the context.
\<close>

definition start_call ::
  "('i, 'm, 'w) grpc_channel \<Rightarrow> 's net \<Rightarrow> channel_headers \<Rightarrow> channel_options \<Rightarrow> 64 word option \<Rightarrow> bool \<Rightarrow>
   string option \<Rightarrow> rpc_descriptor \<Rightarrow> 'm \<Rightarrow> common_options \<Rightarrow> 64 word \<Rightarrow> 'w \<Rightarrow> ('m, 'w, 's) client_call" where
  "start_call gc net hds cho env lockedChannel unwritable rpc arg opts oid w =
     (case initOperation gc lockedChannel rpc arg opts oid w of
        (None, op) \<Rightarrow> \<lparr>cc_operation = op, cc_handler = None\<rparr>
      | (Some bs, op) \<Rightarrow>
          (case unwritable of
             Some errorString \<Rightarrow>
               \<lparr>cc_operation = op\<lparr>op_posted := op_posted op @ [\<lparr>code = Unavailable, message = errorString\<rparr>]\<rparr>,
                cc_handler = None\<rparr>
           | None \<Rightarrow>
               let h = new_handler net hds rpc (op_options op) cho env bs (rpc_endStream (rpc_kind rpc))
               in \<lparr>cc_operation = fold (context_signal gc) (h_effects h) op, cc_handler = Some h\<rparr>))"

subsection \<open>Events\<close>

datatype ('m, 's) call_event =
  ClientCancel | ClientWriteMessage 'm | ClientWritesDone
| HandlerSlot "'s event" | PostedStatus | ChannelDestroyed | HandlerRemoved

text \<open>The events of a handler that do not come from the context.\<close>

fun channel_side :: "'s event \<Rightarrow> bool" where
  "channel_side CancelRequested = False"
| "channel_side WritesDoneRequested = False"
| "channel_side (WriteMessageRequested bs) = False"
| "channel_side ContextDestroyed = False"
| "channel_side e = True"

definition channel_destroyed_status :: grpc_status where
  "channel_destroyed_status = \<lparr>code = Unavailable, message = ''Channel destroyed''\<rparr>"

text \<open>Only the streams that write have the methods \<open>writeMessage\<close> and \<open>writesDone\<close>.\<close>

fun call_enabled :: "('m, 's) call_event \<Rightarrow> ('m, 'w, 's) client_call \<Rightarrow> bool" where
  "call_enabled ClientCancel c \<longleftrightarrow> True"
| "call_enabled (ClientWriteMessage msg) c \<longleftrightarrow> forwards_written (rpc_kind (op_rpc (cc_operation c)))"
| "call_enabled ClientWritesDone c \<longleftrightarrow> forwards_written (rpc_kind (op_rpc (cc_operation c)))"
| "call_enabled (HandlerSlot e) c \<longleftrightarrow>
     (case cc_handler c of Some h \<Rightarrow> channel_side e \<and> enabled e h | None \<Rightarrow> False)"
| "call_enabled PostedStatus c \<longleftrightarrow> op_posted (cc_operation c) \<noteq> []"
| "call_enabled ChannelDestroyed c \<longleftrightarrow> op_channel (cc_operation c)"
| "call_enabled HandlerRemoved c \<longleftrightarrow>
     (case cc_handler c of Some h \<Rightarrow> DeleteLater \<in> set (h_effects h) | None \<Rightarrow> False)"

text \<open>
  When the channel is destroyed the weak pointer to it has expired before its handlers are finished
  and deleted.
\<close>

fun call_handle ::
  "('i, 'm, 'w) grpc_channel \<Rightarrow> 's net \<Rightarrow> ('m, 's) call_event \<Rightarrow> ('m, 'w, 's) client_call \<Rightarrow> ('m, 'w, 's) client_call" where
  "call_handle gc net ClientCancel c = client_action gc net (op_cancel gc) c"
| "call_handle gc net (ClientWriteMessage msg) c = client_action gc net (op_writeMessage gc msg) c"
| "call_handle gc net ClientWritesDone c = client_action gc net (op_writesDone gc) c"
| "call_handle gc net (HandlerSlot e) c = handler_event gc net e c"
| "call_handle gc net PostedStatus c = c\<lparr>cc_operation := deliver_posted gc (cc_operation c)\<rparr>"
| "call_handle gc net ChannelDestroyed c =
     (handler_event gc net (FinishCalled channel_destroyed_status)
        (c\<lparr>cc_operation := (cc_operation c)\<lparr>op_channel := False\<rparr>\<rparr>))\<lparr>cc_handler := None\<rparr>"
| "call_handle gc net HandlerRemoved c = c\<lparr>cc_handler := None\<rparr>"

inductive call_run ::
  "('i, 'm, 'w) grpc_channel \<Rightarrow> 's net \<Rightarrow> ('m, 'w, 's) client_call \<Rightarrow> ('m, 's) call_event list \<Rightarrow>
   ('m, 'w, 's) client_call \<Rightarrow> bool" for gc net where
  call_run_nil: "call_run gc net c [] c"
| call_run_snoc: "call_run gc net c es c' \<Longrightarrow> call_enabled e c' \<Longrightarrow>
    call_run gc net c (es @ [e]) (call_handle gc net e c')"

inductive_cases call_run_snocE: "call_run gc net c (es @ [e]) c'"

subsection \<open>The client\<close>

text \<open>
  \<open>cl_active\<close> is the flat set of the streams that are not over, \<open>cl_calls\<close> has the operations by their
  address. A slot runs when an operation signals \<open>finished\<close> or is destroyed.
\<close>

record ('m, 'w, 's) client =
  cl_channel :: "nat option"
  cl_active :: "nat list"
  cl_calls :: "nat \<Rightarrow> ('m, 'w, 's) client_call option"

definition flat_insert :: "nat \<Rightarrow> nat list \<Rightarrow> bool \<times> nat list" where
  "flat_insert i s = (if i \<in> set s then (False, s) else (True, insort i s))"

definition addStream :: "nat \<Rightarrow> ('m, 'w, 's) client_call \<Rightarrow> ('m, 'w, 's) client \<Rightarrow> ('m, 'w, 's) client" where
  "addStream i c cl = cl\<lparr>cl_active := snd (flat_insert i (cl_active cl)), cl_calls := (cl_calls cl)(i \<mapsto> c)\<rparr>"

text \<open>The slot of \<open>finished\<close>; it is connected to run once.\<close>

definition stream_finished :: "nat \<Rightarrow> ('m, 'w, 's) client \<Rightarrow> ('m, 'w, 's) client" where
  "stream_finished i cl = cl\<lparr>cl_active := removeAll i (cl_active cl)\<rparr>"

text \<open>An event of one of the calls; the slot runs when the call finishes by it.\<close>

definition client_event ::
  "('i, 'm, 'w) grpc_channel \<Rightarrow> 's net \<Rightarrow> nat \<Rightarrow> ('m, 's) call_event \<Rightarrow> ('m, 'w, 's) client \<Rightarrow> ('m, 'w, 's) client" where
  "client_event gc net i e cl =
     (case cl_calls cl i of
        None \<Rightarrow> cl
      | Some c \<Rightarrow>
          let c' = call_handle gc net e c;
              cl = cl\<lparr>cl_calls := (cl_calls cl)(i \<mapsto> c')\<rparr>
          in if \<not> isFinished (cc_operation c) \<and> isFinished (cc_operation c') then stream_finished i cl else cl)"

definition operation_destroyed :: "nat \<Rightarrow> ('m, 'w, 's) client \<Rightarrow> ('m, 'w, 's) client" where
  "operation_destroyed i cl =
     stream_finished i (cl\<lparr>cl_calls := (cl_calls cl)(i := None)\<rparr>)"

text \<open>
  The loop of \<open>attachChannel\<close> walks over the flat set with iterators. They are invalid once a slot has
  removed an element: \<open>Undef\<close>.
\<close>

fun cancel_streams ::
  "('i, 'm, 'w) grpc_channel \<Rightarrow> 's net \<Rightarrow> nat list \<Rightarrow> ('m, 'w, 's) client \<Rightarrow> ('m, 'w, 's) client run" where
  "cancel_streams gc net [] cl = Ret cl"
| "cancel_streams gc net (i # is) cl =
     (let cl' = client_event gc net i ClientCancel cl
      in if cl_active cl' \<noteq> cl_active cl then Undef else cancel_streams gc net is cl')"

definition attachChannel ::
  "('i, 'm, 'w) grpc_channel \<Rightarrow> 's net \<Rightarrow> nat \<Rightarrow> bool \<Rightarrow> ('m, 'w, 's) client \<Rightarrow> (bool \<times> ('m, 'w, 's) client) run" where
  "attachChannel gc net chan sameThread cl =
     (if cl_channel cl = Some chan then Ret (False, cl)
      else if \<not> sameThread then Ret (False, cl)
      else run_bind (cancel_streams gc net (cl_active cl) cl)
             (\<lambda>cl. Ret (True, cl\<lparr>cl_channel := Some chan\<rparr>)))"

end
