(* ===== verification/ChannelInvariants.thy ===== *)
theory ChannelInvariants
  imports Http2Channel
begin

text \<open>
  The channel keeps its connection, its timers and its handlers consistent, and every handler of a
  channel runs as the theories of the handler describe it.
\<close>

subsection \<open>Handlers of a channel\<close>

definition handler_path :: "'s net \<Rightarrow> 's http2_handler \<Rightarrow> 's http2_handler \<Rightarrow> bool" where
  "handler_path net h h' \<longleftrightarrow> (\<exists>es. handler_run net h es h')"

lemma handler_run_trans:
  "handler_run net h' es' h'' \<Longrightarrow> handler_run net h es h' \<Longrightarrow> handler_run net h (es @ es') h''"
proof (induction rule: handler_run.induct)
  case (run_snoc h es' h' e h'')
  then show ?case using handler_run.run_snoc [of net _ "es @ es'"] by simp
qed simp

lemma handler_path_refl [simp]: "handler_path net h h"
  unfolding handler_path_def by (blast intro: run_nil)

lemma handler_path_trans [trans]:
  "handler_path net h h' \<Longrightarrow> handler_path net h' h'' \<Longrightarrow> handler_path net h h''"
  unfolding handler_path_def by (blast intro: handler_run_trans)

lemma handler_path_step: "enabled e h \<Longrightarrow> handler_path net h (handle net e h)"
  unfolding handler_path_def by (blast intro: run_snoc [OF run_nil] deliver)

definition call_of_channel :: "'s net \<Rightarrow> 's http2_handler \<Rightarrow> bool" where
  "call_of_channel net h \<longleftrightarrow>
     (\<exists>ch rpc co cho env bs endStream es. handler_run net (new_handler net ch rpc co cho env bs endStream) es h)"

lemma call_of_channel_new: "call_of_channel net (new_handler net ch rpc co cho env bs endStream)"
  unfolding call_of_channel_def by (blast intro: run_nil)

lemma call_of_channel_path: "call_of_channel net h \<Longrightarrow> handler_path net h h' \<Longrightarrow> call_of_channel net h'"
  unfolding call_of_channel_def handler_path_def by (blast intro: handler_run_trans)

lemma writeMessage_new:
  assumes "h_stream h = None"
  shows "h_stream (writeMessage net bs h) = None" and "h_context (writeMessage net bs h) = h_context h"
  using assms
  by (simp_all add: writeMessage_def finish_def handleContextExpired_def processQueue_def enqueue_message_def
      warn_queue_def perform_def Let_def split: prod.split)

lemma new_handler_facts:
  "h_stream (new_handler net ch rpc co cho env bs e) = None"
  "h_context (new_handler net ch rpc co cho env bs e)"
  by (simp_all add: new_handler_def writeMessage_new)

lemma new_stream_path:
  assumes "createHttp2Stream tr h c = (ok, h', c')" and "h_context h" and "h_stream h = None"
  shows "handler_path net h h'" and "h_context h'" and "h_state h' = h_state h"
    and "ok \<Longrightarrow> h_stream h' \<noteq> None"
proof -
  consider (refused) err where "h' = asyncFinish \<lparr>code = Unavailable,
      message = ''Unable to create an HTTP/2 stream ('' @ err @ '')''\<rparr> h" "\<not> ok"
    | (made) s where "h' = attachStream s h" "ok"
    using assms(1) by (auto simp: createHttp2Stream_def split: prod.splits sum.splits)
  then have "handler_path net h h' \<and> h_context h' \<and> h_state h' = h_state h \<and> (ok \<longrightarrow> h_stream h' \<noteq> None)"
  proof cases
    case (refused err)
    let ?st = "\<lparr>code = Unavailable, message = ''Unable to create an HTTP/2 stream ('' @ err @ '')''\<rparr>"
    have "handler_path net h (handle net (AsyncFinishCalled ?st) h)"
      by (rule handler_path_step) (simp add: assms(2))
    then show ?thesis using assms(2) by (simp add: refused asyncFinish_def handleContextExpired_def)
  next
    case (made s)
    have "handler_path net h (handle net (AttachStream s) h)"
      by (rule handler_path_step) (simp add: assms(2,3))
    then show ?thesis using assms(2) by (simp add: made attachStream_def)
  qed
  then show "handler_path net h h'" "h_context h'" "h_state h' = h_state h" "ok \<Longrightarrow> h_stream h' \<noteq> None"
    by simp_all
qed

text \<open>A call that has not been started, or is over.\<close>

definition rests :: "'s http2_handler \<Rightarrow> bool" where
  "rests h \<longleftrightarrow> h_state h = Idle \<or> h_state h = Cancelled \<or> h_state h = Finished"

lemma rests_finish [simp]: "rests (finish st h)"
  using finish_ended [of st h] by (auto simp: rests_def)

lemma rests_framed: "rests h \<Longrightarrow> framed A h h' \<Longrightarrow> rests h'"
  by (simp add: rests_def framed_def)

lemma rests_ends: "ends A h h' \<Longrightarrow> rests h'"
  by (auto simp: ends_def)

lemma rests_new [simp]: "rests (new_handler net ch rpc co cho env bs e)"
proof -
  have "rests (writeMessage net bs h)" if "rests h" for h :: "'a http2_handler"
    by (cases rule: writeMessage_cases [of h net bs]) (use that in \<open>auto intro: rests_framed\<close>)
  then show ?thesis by (simp add: new_handler_def rests_def)
qed

lemma rests_cancelWithStatus: "rests (cancelWithStatus net st h)"
  by (auto simp: cancelWithStatus_def Let_def rests_def finish_ended)

lemma rests_handle:
  assumes "rests h" and "outside_event e"
  shows "rests (handle net e h)"
proof (cases e)
  case (HeadersReceived hs endStream)
  have "Cancelled \<le> h_state h \<or> header_phase_of (h_state h) endStream = InvalidPhase"
    using assms(1) by (auto simp: rests_def header_phase_of_def)
  then show ?thesis
    using assms(1) by (auto simp: HeadersReceived onHeadersReceived_def Let_def rests_def perform_def)
next
  case (DataReceived bs endStream)
  from onDataReceived_cases [of h net bs endStream] show ?thesis
    using assms(1) by (auto simp: DataReceived receiving_def intro: rests_framed rests_ends)
next
  case (WriteMessageRequested bs)
  show ?thesis
    by (cases rule: writeMessage_cases [of h net bs])
      (use assms(1) in \<open>auto simp: WriteMessageRequested intro: rests_framed\<close>)
next
  case StreamUploadFinished
  then show ?thesis using rests_framed [OF assms(1) framed_onUploadFinished] by simp
next
  case WritesDoneRequested
  then show ?thesis using rests_framed [OF assms(1) framed_writesDone] by simp
next
  case (StreamBytesWritten n)
  then show ?thesis using rests_framed [OF assms(1) framed_onBytesWritten] by simp
next
  case CancelRequested
  then show ?thesis by (simp add: cancel_def rests_cancelWithStatus)
next
  case DeadlineExpired
  then show ?thesis by (simp add: deadlineTimeout_def rests_cancelWithStatus)
qed (use assms in \<open>auto simp: rests_def deliverMessageWritten_def perform_def Let_def finish_ended\<close>)

subsection \<open>Visiting the handlers\<close>

lemma visit_Cons [simp]:
  "visit_handlers proj (ih # hs) a =
     (if h_context (snd ih)
      then ((fst ih, fst (proj (snd ih) a)) # fst (visit_handlers proj hs (snd (proj (snd ih) a))),
            snd (visit_handlers proj hs (snd (proj (snd ih) a))))
      else visit_handlers proj hs a)"
  by (cases ih) (simp split: prod.split)

lemma visit_mem:
  "(i, h') \<in> set (fst (visit_handlers proj hs a)) \<Longrightarrow>
   \<exists>h b. (i, h) \<in> set hs \<and> h_context h \<and> h' = fst (proj h b)"
proof (induction hs arbitrary: a)
  case (Cons ih hs)
  then show ?case by (cases ih) (force split: if_splits)
qed simp

lemma visit_mem_conv:
  "(i, h) \<in> set hs \<Longrightarrow> h_context h \<Longrightarrow> \<exists>b. (i, fst (proj h b)) \<in> set (fst (visit_handlers proj hs a))"
proof (induction hs arbitrary: a)
  case (Cons ih hs)
  show ?case
  proof (cases "ih = (i, h)")
    case True
    then show ?thesis using Cons.prems(2) by auto
  next
    case False
    then have "(i, h) \<in> set hs" using Cons.prems(1) by auto
    from Cons.IH [OF this Cons.prems(2)] show ?thesis by fastforce
  qed
qed simp

lemma visit_ids:
  "fst ` set (fst (visit_handlers proj hs a)) \<subseteq> fst ` set hs"
  by (auto dest!: visit_mem intro: rev_image_eqI)

lemma visit_distinct:
  "distinct (map fst hs) \<Longrightarrow> distinct (map fst (fst (visit_handlers proj hs a)))"
proof (induction hs arbitrary: a)
  case (Cons ih hs)
  then show ?case using visit_ids [of proj hs] by auto
qed simp

lemma visit_state:
  assumes "\<And>h b. R b \<Longrightarrow> R (snd (proj h b))"
  shows "R a \<Longrightarrow> R (snd (visit_handlers proj hs a))"
  by (induction hs arbitrary: a) (simp_all add: assms)

lemma for_each_simps [simp]:
  "ch_state (for_each_non_expired_handler proj ch) = ch_state ch"
  "ch_socket (for_each_non_expired_handler proj ch) = ch_socket ch"
  "ch_reconnectTimer (for_each_non_expired_handler proj ch) = ch_reconnectTimer ch"
  "ch_connectTimeoutTimer (for_each_non_expired_handler proj ch) = ch_connectTimeoutTimer ch"
  "ch_insideSocketError (for_each_non_expired_handler proj ch) = ch_insideSocketError ch"
  "ch_nextId (for_each_non_expired_handler proj ch) = ch_nextId ch"
  "ch_reconnectBackoff (for_each_non_expired_handler proj ch) = ch_reconnectBackoff ch"
  "ch_handlers (for_each_non_expired_handler proj ch) =
     fst (visit_handlers proj (ch_handlers ch) (ch_connection ch))"
  "ch_connection (for_each_non_expired_handler proj ch) =
     snd (visit_handlers proj (ch_handlers ch) (ch_connection ch))"
  by (simp_all add: for_each_non_expired_handler_def split: prod.split)

subsection \<open>The invariant\<close>

definition channel_ok :: "'s net \<Rightarrow> ('s, 'c) channel \<Rightarrow> bool" where
  "channel_ok net ch \<longleftrightarrow>
     (ch_connection ch \<noteq> None \<longleftrightarrow> ch_state ch = Connected \<or> ch_state ch = SettingsReceived) \<and>
     (ch_connection ch \<noteq> None \<longrightarrow> ch_socket ch = SocketConnected) \<and>
     (ch_state ch = Connecting \<longrightarrow> ch_reconnectTimer ch \<or> ch_socket ch \<noteq> Unconnected) \<and>
     \<not> ch_insideSocketError ch \<and> distinct (map fst (ch_handlers ch)) \<and>
     (\<forall>(i, h) \<in> set (ch_handlers ch).
        i < ch_nextId ch \<and> call_of_channel net h \<and>
        (ch_connection ch = None \<longrightarrow> h_stream h = None) \<and>
        (ch_state ch \<noteq> SettingsReceived \<longrightarrow> rests h))"

lemma channel_ok_handler:
  "channel_ok net ch \<Longrightarrow> (i, h) \<in> set (ch_handlers ch) \<Longrightarrow>
   i < ch_nextId ch \<and> call_of_channel net h \<and>
   (ch_connection ch = None \<longrightarrow> h_stream h = None) \<and> (ch_state ch \<noteq> SettingsReceived \<longrightarrow> rests h)"
  unfolding channel_ok_def by blast

definition connection_ok :: "('s, 'c) channel \<Rightarrow> bool" where
  "connection_ok ch \<longleftrightarrow>
     (ch_connection ch \<noteq> None \<longleftrightarrow> ch_state ch = Connected \<or> ch_state ch = SettingsReceived) \<and>
     (ch_connection ch \<noteq> None \<longrightarrow> ch_socket ch = SocketConnected) \<and>
     (ch_state ch = Connecting \<longrightarrow> ch_reconnectTimer ch \<or> ch_socket ch \<noteq> Unconnected) \<and>
     \<not> ch_insideSocketError ch"

lemma channel_okI:
  assumes "connection_ok ch" and "distinct (map fst (ch_handlers ch))"
    and "\<And>i h. (i, h) \<in> set (ch_handlers ch) \<Longrightarrow>
      i < ch_nextId ch \<and> call_of_channel net h \<and>
      (ch_connection ch = None \<longrightarrow> h_stream h = None) \<and> (ch_state ch \<noteq> SettingsReceived \<longrightarrow> rests h)"
  shows "channel_ok net ch"
  using assms unfolding channel_ok_def connection_ok_def by blast

lemma channel_ok_connection: "channel_ok net ch \<Longrightarrow> connection_ok ch \<and> distinct (map fst (ch_handlers ch))"
  unfolding channel_ok_def connection_ok_def by blast

lemma channel_ok_add:
  assumes c: "channel_ok net ch" and h: "call_of_channel net h"
    "ch_connection ch = None \<longrightarrow> h_stream h = None" "ch_state ch \<noteq> SettingsReceived \<longrightarrow> rests h"
  shows "channel_ok net (ch\<lparr>ch_handlers := ch_handlers ch @ [(ch_nextId ch, h)], ch_nextId := Suc (ch_nextId ch)\<rparr>)"
    (is "channel_ok net ?ch")
proof (rule channel_okI)
  show "connection_ok ?ch" using channel_ok_connection [OF c] by (simp add: connection_ok_def)
  have "ch_nextId ch \<notin> fst ` set (ch_handlers ch)" using channel_ok_handler [OF c] by fastforce
  then show "distinct (map fst (ch_handlers ?ch))" using channel_ok_connection [OF c] by simp
  fix i h' assume "(i, h') \<in> set (ch_handlers ?ch)"
  then consider "(i, h') \<in> set (ch_handlers ch)" | "i = ch_nextId ch" "h' = h" by auto
  then show "i < ch_nextId ?ch \<and> call_of_channel net h' \<and>
      (ch_connection ?ch = None \<longrightarrow> h_stream h' = None) \<and> (ch_state ?ch \<noteq> SettingsReceived \<longrightarrow> rests h')"
  proof cases
    case 1
    from channel_ok_handler [OF c this] show ?thesis by simp
  next
    case 2
    with h show ?thesis by simp
  qed
qed

text \<open>The part about the handlers carries over where each one has gone on from one before.\<close>

lemma handlers_ok_visit:
  assumes ok: "channel_ok net ch" and ih: "(i, h') \<in> set (fst (visit_handlers proj (ch_handlers ch) a))"
    and step: "\<And>h b. (i, h) \<in> set (ch_handlers ch) \<Longrightarrow> h_context h \<Longrightarrow> handler_path net h (fst (proj h b))"
  shows "i < ch_nextId ch \<and> call_of_channel net h'"
proof -
  from visit_mem [OF ih] obtain h b where h: "(i, h) \<in> set (ch_handlers ch)" "h_context h" "h' = fst (proj h b)"
    by blast
  with step [OF h(1,2), of b] channel_ok_handler [OF ok h(1)] call_of_channel_path show ?thesis by blast
qed

lemma channel_ok_attempt:
  "channel_ok net ch \<Longrightarrow> ch_socket ch \<noteq> Unconnected \<or> ch_socket (attemptConnect ch) \<noteq> Unconnected \<Longrightarrow>
   channel_ok net (attemptConnect ch)"
  by (auto simp: channel_ok_def attemptConnect_def ch_perform_def Let_def)

lemma attempt_socket: "ch_socket (attemptConnect ch) \<noteq> Unconnected"
  by (simp add: attemptConnect_def ch_perform_def Let_def)

lemma channel_ok_reconnect_timer:
  assumes "channel_ok net ch"
  shows "channel_ok net (attemptConnect (ch\<lparr>ch_reconnectTimer := False\<rparr>))"
  using assms by (auto simp: channel_ok_def attemptConnect_def ch_perform_def Let_def)

lemma channel_ok_new: "channel_ok net (new_channel env a1 a2 protocols agent fresh uri opts)"
  by (auto simp: new_channel_def channel_ok_def attemptConnect_def ch_perform_def Let_def split: prod.split)

lemma finish_path: "h_context h \<Longrightarrow> handler_path net h (finish st h)"
  using handler_path_step [of "FinishCalled st" h net] by simp

lemma request_path: "h_context h \<Longrightarrow> handler_path net h (sendInitialRequest net h)"
  using handler_path_step [of SendInitialRequest h net] by simp

lemma no_stream_path: "handler_path net h (h\<lparr>h_stream := None\<rparr>)"
proof (cases "h_stream h")
  case None
  then have "h\<lparr>h_stream := None\<rparr> = h" by simp
  then show ?thesis by simp
next
  case (Some s)
  with handler_path_step [of StreamDestroyed h net] show ?thesis by simp
qed

subsection \<open>Every event keeps the invariant\<close>

lemma channel_ok_connect:
  assumes ok: "channel_ok (t_net tr) ch" and sock: "ch_socket ch = SocketConnecting"
  shows "channel_ok (t_net tr) (createHttp2Connection tr (ch\<lparr>ch_socket := SocketConnected\<rparr>))"
proof -
  define proj where "proj = (\<lambda>h (c :: 'b option). case c of
      Some c \<Rightarrow> (case createHttp2Stream tr h c of (ok, h', c') \<Rightarrow> (h', Some c')) | None \<Rightarrow> (h, None))"
  let ?c0 = "Some (createDirectConnection tr (ch_configuration ch))"
  let ?ch = "createHttp2Connection tr (ch\<lparr>ch_socket := SocketConnected\<rparr>)"
  have none: "ch_connection ch = None" using ok sock by (auto simp: channel_ok_def)
  have st: "ch_state ch \<noteq> SettingsReceived" using ok none by (auto simp: channel_ok_def)
  have eq: "?ch = for_each_non_expired_handler proj (ch\<lparr>ch_socket := SocketConnected, ch_connection := ?c0, ch_state := Connected\<rparr>)"
    by (simp add: createHttp2Connection_def proj_def)
  have conn: "ch_connection ?ch \<noteq> None"
    unfolding eq for_each_simps by (rule visit_state) (auto simp: proj_def split: prod.split)
  have path: "handler_path (t_net tr) h (fst (proj h b))" and rest: "rests (fst (proj h b))"
    if ih: "(i, h) \<in> set (ch_handlers ch)" and c: "h_context h" for i h b
  proof -
    have h: "h_stream h = None" "rests h" using channel_ok_handler [OF ok ih] none st by simp_all
    show "handler_path (t_net tr) h (fst (proj h b))"
      using new_stream_path(1) [OF _ c h(1)] by (auto simp: proj_def split: option.split prod.split)
    show "rests (fst (proj h b))"
    proof (cases b)
      case None
      then show ?thesis using h(2) by (simp add: proj_def)
    next
      case (Some k)
      obtain ok h' k' where e: "createHttp2Stream tr h k = (ok, h', k')" by (cases "createHttp2Stream tr h k")
      with new_stream_path(3) [OF e c h(1)] h(2) show ?thesis by (simp add: Some proj_def rests_def)
    qed
  qed
  have "i < ch_nextId ch \<and> call_of_channel (t_net tr) h' \<and> rests h'"
    if "(i, h') \<in> set (fst (visit_handlers proj (ch_handlers ch) ?c0))" for i h'
  proof -
    have "i < ch_nextId ch \<and> call_of_channel (t_net tr) h'"
      by (rule handlers_ok_visit [OF ok that]) (rule path)
    moreover have "rests h'" using visit_mem [OF that] rest by blast
    ultimately show ?thesis by simp
  qed
  moreover have "distinct (map fst (fst (visit_handlers proj (ch_handlers ch) ?c0)))"
    using ok by (intro visit_distinct) (simp add: channel_ok_def)
  ultimately show ?thesis using ok conn unfolding channel_ok_def eq by auto
qed

lemma channel_ok_settings:
  assumes ok: "channel_ok (t_net tr) ch" and conn: "ch_connection ch \<noteq> None"
  shows "channel_ok (t_net tr) (settingsFrameReceived tr ch)"
proof (cases "ch_state ch = SettingsReceived")
  case True
  then show ?thesis using ok by (simp add: settingsFrameReceived_def)
next
  case False
  define proj where "proj = (\<lambda>h (c :: 'b option). (sendInitialRequest (t_net tr) h, c))"
  have eq: "settingsFrameReceived tr ch = for_each_non_expired_handler proj
      (ch\<lparr>ch_connectTimeoutTimer := False, ch_reconnectBackoff := reset_backoff (ch_reconnectBackoff ch),
          ch_state := SettingsReceived\<rparr>)"
    using False by (simp add: settingsFrameReceived_def proj_def)
  have same: "snd (visit_handlers proj hs c) = c" for hs c
    by (rule visit_state [where R = "\<lambda>x. x = c"]) (simp_all add: proj_def)
  have "i < ch_nextId ch \<and> call_of_channel (t_net tr) h'"
    if "(i, h') \<in> set (fst (visit_handlers proj (ch_handlers ch) (ch_connection ch)))" for i h'
    by (rule handlers_ok_visit [OF ok that]) (simp add: proj_def request_path)
  moreover have "distinct (map fst (fst (visit_handlers proj (ch_handlers ch) (ch_connection ch))))"
    using ok by (intro visit_distinct) (simp add: channel_ok_def)
  ultimately show ?thesis using ok conn unfolding channel_ok_def eq by (auto simp: same)
qed

text \<open>What is left after an error: no connection, no streams, and every call is over.\<close>

lemma socket_error_handlers:
  assumes ok: "channel_ok net ch"
  shows "(i, h') \<in> set (ch_handlers (handleSocketError err ch)) \<Longrightarrow>
      \<exists>h st. (i, h) \<in> set (ch_handlers ch) \<and> h_context h \<and> code st = Unavailable \<and> h' = (finish st h)\<lparr>h_stream := None\<rparr>"
    and "(i, h) \<in> set (ch_handlers ch) \<Longrightarrow> h_context h \<Longrightarrow>
      (i, (finish \<lparr>code = Unavailable, message = ''Network error occurred: '' @ err\<rparr> h)\<lparr>h_stream := None\<rparr>)
        \<in> set (ch_handlers (handleSocketError err ch))"
    and "ch_connection (handleSocketError err ch) = None" "ch_state (handleSocketError err ch) = Error"
    and "ch_socket (handleSocketError err ch) = ch_socket ch" "\<not> ch_insideSocketError (handleSocketError err ch)"
    and "ch_nextId (handleSocketError err ch) = ch_nextId ch"
    and "ch_reconnectTimer (handleSocketError err ch) = ch_reconnectTimer ch"
    and "\<not> ch_connectTimeoutTimer (handleSocketError err ch)"
    and "distinct (map fst (ch_handlers (handleSocketError err ch)))"
proof -
  let ?st = "\<lparr>code = Unavailable, message = ''Network error occurred: '' @ err\<rparr>"
  define proj where "proj = (\<lambda>h (c :: 'b option). (finish ?st h :: 'a http2_handler, c))"
  have inside: "\<not> ch_insideSocketError ch" using ok by (simp add: channel_ok_def)
  define hs where "hs = fst (visit_handlers proj (ch_handlers ch) (ch_connection ch))"
  have same: "snd (visit_handlers proj hs c) = c" for hs c
    by (rule visit_state [where R = "\<lambda>x. x = c"]) (simp_all add: proj_def)
  have eq: "handleSocketError err ch = (delete_connection ((for_each_non_expired_handler proj ch)
      \<lparr>ch_connectTimeoutTimer := False\<rparr>))\<lparr>ch_state := Error\<rparr>"
    using inside by (simp add: handleSocketError_def proj_def Let_def)
  have nostream: "h' = h'\<lparr>h_stream := None\<rparr>" if ih: "(i, h') \<in> set hs" and none: "ch_connection ch = None" for i h'
  proof -
    obtain h where "(i, h) \<in> set (ch_handlers ch)" "h' = finish ?st h"
      using visit_mem [OF ih [unfolded hs_def]] by (auto simp: proj_def)
    then have "h_stream h' = None" using channel_ok_handler [OF ok] none
      by (auto simp: finish_def handleContextExpired_def perform_def Let_def)
    then show ?thesis by simp
  qed
  have hs: "ch_handlers (handleSocketError err ch) = map (\<lambda>(i, h). (i, h\<lparr>h_stream := None\<rparr>)) hs"
  proof (cases "ch_connection ch = None")
    case True
    have "map (\<lambda>(i, h). (i, h\<lparr>h_stream := None\<rparr>)) hs = map (\<lambda>x. x) hs"
      using nostream [OF _ True] by (intro map_cong) auto
    moreover have "ch_handlers (handleSocketError err ch) = hs"
      by (simp add: eq delete_connection_def same True hs_def)
    ultimately show ?thesis by simp
  next
    case False
    then obtain c where "ch_connection ch = Some c" by auto
    then show ?thesis by (simp add: eq delete_connection_def same hs_def)
  qed
  show "(i, h') \<in> set (ch_handlers (handleSocketError err ch)) \<Longrightarrow>
      \<exists>h st. (i, h) \<in> set (ch_handlers ch) \<and> h_context h \<and> code st = Unavailable \<and> h' = (finish st h)\<lparr>h_stream := None\<rparr>"
  proof -
    assume "(i, h') \<in> set (ch_handlers (handleSocketError err ch))"
    then obtain h0 where h0: "(i, h0) \<in> set hs" "h' = h0\<lparr>h_stream := None\<rparr>" unfolding hs by auto
    obtain h where "(i, h) \<in> set (ch_handlers ch)" "h_context h" "h0 = finish ?st h"
      using visit_mem [OF h0(1) [unfolded hs_def]] by (auto simp: proj_def)
    with h0(2) show ?thesis by (intro exI [of _ h] exI [of _ ?st]) simp
  qed
  show "(i, h) \<in> set (ch_handlers ch) \<Longrightarrow> h_context h \<Longrightarrow>
      (i, (finish ?st h)\<lparr>h_stream := None\<rparr>) \<in> set (ch_handlers (handleSocketError err ch))"
  proof -
    assume "(i, h) \<in> set (ch_handlers ch)" "h_context h"
    from visit_mem_conv [OF this, of proj] have "(i, finish ?st h) \<in> set hs"
      unfolding hs_def by (simp add: proj_def)
    then have "(\<lambda>(i, h). (i, h\<lparr>h_stream := None\<rparr>)) (i, finish ?st h) \<in> set (map (\<lambda>(i, h). (i, h\<lparr>h_stream := None\<rparr>)) hs)"
      unfolding set_map by (rule imageI)
    then show ?thesis unfolding hs by simp
  qed
  have "distinct (map fst hs)"
    unfolding hs_def using ok by (intro visit_distinct) (simp add: channel_ok_def)
  then show "distinct (map fst (ch_handlers (handleSocketError err ch)))"
    unfolding hs by (simp add: comp_def case_prod_beta')
qed (use ok in \<open>simp_all add: handleSocketError_def delete_connection_def Let_def channel_ok_def\<close>)

lemma channel_ok_error:
  assumes ok: "channel_ok net ch"
  shows "channel_ok net (handleSocketError err ch)"
proof -
  have "i < ch_nextId ch \<and> call_of_channel net h' \<and> h_stream h' = None \<and> rests h'"
    if ih: "(i, h') \<in> set (ch_handlers (handleSocketError err ch))" for i h'
  proof -
    obtain h st where h: "(i, h) \<in> set (ch_handlers ch)" "h_context h" "h' = (finish st h)\<lparr>h_stream := None\<rparr>"
      using socket_error_handlers(1) [OF ok ih] by blast
    have "handler_path net h h'"
      unfolding h(3) using finish_path [OF h(2)] no_stream_path by (rule handler_path_trans)
    then have "call_of_channel net h'" using channel_ok_handler [OF ok h(1)] call_of_channel_path by blast
    moreover have "rests h'" using rests_finish [of st h] by (simp add: h(3) rests_def)
    ultimately show ?thesis using channel_ok_handler [OF ok h(1)] by (simp add: h(3))
  qed
  with socket_error_handlers(3-) [OF ok] show ?thesis unfolding channel_ok_def by auto
qed

lemma channel_ok_operation:
  assumes ok: "channel_ok (t_net tr) ch"
  shows "channel_ok (t_net tr) (processOperation tr rpc co bs e writable err r ch)"
proof (cases "\<not> writable \<and> ch_state ch = Connected")
  case True
  then show ?thesis using ok by (simp add: processOperation_def channel_ok_def)
next
  case run: False
  obtain accept cache where cache: "acceptEncoding (ch_options ch) (ch_acceptEncoding ch) = (accept, cache)"
    by (cases "acceptEncoding (ch_options ch) (ch_acceptEncoding ch)")
  define h where "h = new_handler (t_net tr) ((ch_headers ch)\<lparr>acceptEncodingHeader := accept\<rparr>) rpc co
    (ch_options ch) (ch_envMaximumReceiveSize ch) bs e"
  have h: "h_stream h = None" "h_context h" "call_of_channel (t_net tr) h" "rests h"
    by (simp_all add: h_def new_handler_facts call_of_channel_new)
  show ?thesis
  proof (cases "ch_connection ch")
    case None
    then have st: "ch_state ch = Connecting \<or> ch_state ch = Error"
      using ok by (cases "ch_state ch") (auto simp: channel_ok_def)
    have ok': "channel_ok (t_net tr) (ch\<lparr>ch_acceptEncoding := cache\<rparr>)" using ok by (simp add: channel_ok_def)
    define ch' where "ch' = (if ch_state ch = Error then schedule_reconnect r (ch\<lparr>ch_acceptEncoding := cache\<rparr>)
      else ch\<lparr>ch_acceptEncoding := cache\<rparr>)"
    have "channel_ok (t_net tr) (schedule_reconnect r (ch\<lparr>ch_acceptEncoding := cache\<rparr>))" if "ch_state ch = Error"
      using ok None that by (auto simp: channel_ok_def schedule_reconnect_def ch_perform_def Let_def split: prod.split)
    with ok' have ch': "channel_ok (t_net tr) ch'" by (simp add: ch'_def)
    have eq: "processOperation tr rpc co bs e writable err r ch =
        ch'\<lparr>ch_handlers := ch_handlers ch' @ [(ch_nextId ch', h)], ch_nextId := Suc (ch_nextId ch')\<rparr>"
      using st unfolding processOperation_def if_not_P [OF run] cache prod.case Let_def None option.case
        channel.simps h_def [symmetric] ch'_def by (elim disjE) (simp_all add: None)
    show ?thesis unfolding eq by (rule channel_ok_add) (use ch' h in auto)
  next
    case (Some c)
    then have st: "ch_state ch = Connected \<or> ch_state ch = SettingsReceived"
      using ok by (auto simp: channel_ok_def)
    obtain made h' c' where s: "createHttp2Stream tr h c = (made, h', c')" by (cases "createHttp2Stream tr h c")
    note path = new_stream_path [OF s h(2,1)]
    have h': "call_of_channel (t_net tr) h'" "rests h'"
      using call_of_channel_path [OF h(3) path(1)] path(3) h(4) by (simp_all add: rests_def)
    have req: "call_of_channel (t_net tr) (sendInitialRequest (t_net tr) h')"
      by (rule call_of_channel_path [OF h'(1) request_path [OF path(2)]])
    let ?ch = "ch\<lparr>ch_acceptEncoding := cache, ch_connection := Some c'\<rparr>"
    have ok': "channel_ok (t_net tr) ?ch" using ok Some by (simp add: channel_ok_def)
    have eq: "processOperation tr rpc co bs e writable err r ch =
        (let g = (if made \<and> ch_state ch = SettingsReceived then sendInitialRequest (t_net tr) h' else h')
         in ?ch\<lparr>ch_handlers := ch_handlers ?ch @ [(ch_nextId ?ch, g)], ch_nextId := Suc (ch_nextId ?ch)\<rparr>)"
      using st unfolding processOperation_def if_not_P [OF run] cache prod.case Let_def Some option.case
        channel.simps h_def [symmetric] s by (elim disjE) (simp_all add: Some s)
    show ?thesis unfolding eq Let_def by (rule channel_ok_add) (use ok' h' req in auto)
  qed
qed

lemma channel_ok_handler_event:
  assumes ok: "channel_ok net ch" and en: "map_of (ch_handlers ch) i = Some h" "outside_event e" "enabled e h"
    and streams: "h_stream h = None \<longrightarrow> h_stream (handle net e h) = None"
  shows "channel_ok net (ch\<lparr>ch_handlers := map (\<lambda>(j, h). (j, if j = i then handle net e h else h)) (ch_handlers ch)\<rparr>)"
proof -
  let ?hs = "map (\<lambda>(j, h). (j, if j = i then handle net e h else h)) (ch_handlers ch)"
  have ih: "(i, h) \<in> set (ch_handlers ch)" using en(1) by (rule map_of_SomeD)
  have dist: "distinct (map fst (ch_handlers ch))" using ok by (simp add: channel_ok_def)
  have ids: "map fst ?hs = map fst (ch_handlers ch)" by (simp add: comp_def case_prod_beta')
  have "(j, g') \<in> set ?hs \<Longrightarrow> j < ch_nextId ch \<and> call_of_channel net g' \<and>
      (ch_connection ch = None \<longrightarrow> h_stream g' = None) \<and> (ch_state ch \<noteq> SettingsReceived \<longrightarrow> rests g')" for j g'
  proof -
    assume "(j, g') \<in> set ?hs"
    then obtain g where g: "(j, g) \<in> set (ch_handlers ch)" "g' = (if j = i then handle net e g else g)" by auto
    have same: "j = i \<Longrightarrow> g = h" using g(1) ih dist by (metis map_of_is_SomeI option.inject)
    note gs = channel_ok_handler [OF ok g(1)]
    show ?thesis
    proof (cases "j = i")
      case True
      then have "g = h" "g' = handle net e h" using same g(2) by simp_all
      moreover from this gs have "call_of_channel net g'"
        using call_of_channel_path [OF _ handler_path_step [OF en(3)]] by blast
      ultimately show ?thesis using gs streams rests_handle [OF _ en(2)] by simp
    next
      case False
      then show ?thesis using g(2) gs by simp
    qed
  qed
  then show ?thesis using channel_ok_connection [OF ok] ids
    by (intro channel_okI) (simp_all add: connection_ok_def del: map_map)
qed

text \<open>No event from outside makes a stream where there is none.\<close>

lemma no_stream_finish [simp]: "h_stream (finish st h) = h_stream h"
  by (simp add: finish_def handleContextExpired_def perform_def Let_def)

lemma no_stream_handle:
  assumes "h_stream h = None" and "enabled e h" and "outside_event e"
  shows "h_stream (handle net e h) = None"
  using assms
  by (cases e)
    (simp_all add: writeMessage_new writesDone_def processQueue_def isStreamClosedForSending_def cancel_def
      deadlineTimeout_def cancelWithStatus_def deliverMessageWritten_def perform_def Let_def)

lemma channel_ok_handle:
  assumes ok: "channel_ok (t_net tr) ch" and en: "channel_enabled e ch"
  shows "channel_ok (t_net tr) (channel_handle tr e ch)"
proof (cases e)
  case (HandlerEvent i ev)
  then obtain h where h: "map_of (ch_handlers ch) i = Some h" "outside_event ev" "enabled ev h"
    using en by (auto split: option.splits)
  then show ?thesis
    using channel_ok_handler_event [OF ok h] no_stream_handle [OF _ h(3,2)] by (simp add: HandlerEvent)
next
  case (HandlerDeleted i)
  have "channel_ok (t_net tr) (delete_handler i ch)"
  proof (rule channel_okI)
    show "connection_ok (delete_handler i ch)"
      using channel_ok_connection [OF ok] by (simp add: delete_handler_def connection_ok_def)
    show "distinct (map fst (ch_handlers (delete_handler i ch)))"
      using channel_ok_connection [OF ok] by (simp add: delete_handler_def distinct_map_filter)
    fix j h assume "(j, h) \<in> set (ch_handlers (delete_handler i ch))"
    then have "(j, h) \<in> set (ch_handlers ch)" by (simp add: delete_handler_def)
    from channel_ok_handler [OF ok this]
    show "j < ch_nextId (delete_handler i ch) \<and> call_of_channel (t_net tr) h \<and>
        (ch_connection (delete_handler i ch) = None \<longrightarrow> h_stream h = None) \<and>
        (ch_state (delete_handler i ch) \<noteq> SettingsReceived \<longrightarrow> rests h)"
      by (simp add: delete_handler_def)
  qed
  then show ?thesis by (simp add: HandlerDeleted)
next
  case (SocketErrorSignal err closes)
  have "channel_ok (t_net tr) (handleSocketError err ch)" using ok by (rule channel_ok_error)
  moreover have "handleSocketError err (ch\<lparr>ch_socket := Unconnected\<rparr>) = (handleSocketError err ch)\<lparr>ch_socket := Unconnected\<rparr>"
    by (simp add: handleSocketError_def for_each_non_expired_handler_def delete_connection_def Let_def split: prod.split)
  ultimately show ?thesis
    using socket_error_handlers(3,4) [OF ok, of err] by (auto simp: SocketErrorSignal channel_ok_def)
next
  case ConnectTimerExpired
  have "channel_ok (t_net tr) (handleSocketError ''ConnectTimeout'' ch)" using ok by (rule channel_ok_error)
  moreover have "connectTimedOut ch =
      (ch_perform AbortSocket (handleSocketError ''ConnectTimeout'' ch))\<lparr>ch_socket := Unconnected\<rparr>"
    by (simp add: connectTimedOut_def handleSocketError_def for_each_non_expired_handler_def delete_connection_def
        ch_perform_def Let_def split: prod.split)
  ultimately show ?thesis
    using socket_error_handlers(3,4) [OF ok, of "''ConnectTimeout''"]
    by (auto simp: ConnectTimerExpired channel_ok_def ch_perform_def)
qed (use ok en in \<open>simp_all add: channel_ok_operation channel_ok_connect channel_ok_settings
  channel_ok_reconnect_timer\<close>, simp_all add: channel_ok_def ch_perform_def)

lemma channel_ok_run:
  "channel_run tr ch es ch' \<Longrightarrow> channel_ok (t_net tr) ch \<Longrightarrow> channel_ok (t_net tr) ch'"
  by (induction rule: channel_run.induct) (simp_all add: channel_ok_handle)

end
