(* ===== verification/ChannelCorrectness.thy ===== *)
theory ChannelCorrectness
  imports ChannelInvariants
begin

text \<open>
  The guarantees of a channel for every sequence of events, and two orders of events in which the
  code uses a stream or a handler that is not there.
\<close>

subsection \<open>A concrete channel\<close>

text \<open>A connection that has room for a number of streams.\<close>

definition demo_transport :: "nat \<Rightarrow> (stream_state, nat) transport" where
  "demo_transport room =
     \<lparr>t_net = demo_net, createDirectConnection = (\<lambda>cfg. room),
      createStream = (\<lambda>c. if c = 0 then (Inl ''limit'', 0) else (Inr StreamIdle, c - 1))\<rparr>"

definition demo_env :: channel_env where
  "demo_env = \<lparr>env_maximumReceiveSize = None, env_initialReconnectBackoff = None, env_maximumReconnectBackoff = None,
     env_connectTimeout = None, env_maximumMetadataSize = None, env_streamWindow = None, env_connectionWindow = None\<rparr>"

definition demo_channel :: "(stream_state, nat) channel" where
  "demo_channel = new_channel demo_env (\<lambda>_. True) (\<lambda>_. True) [] ''agent'' 1
     \<lparr>url_scheme = ''http'', url_port = 80, url_authority = ''localhost'', url_host = ''localhost'', url_path = ''''\<rparr>
     (new_channel_options (\<lambda>_. True) 0)"

text \<open>The same, evaluated.\<close>

definition demo_idle :: "(stream_state, nat) channel" where
  "demo_idle =
     \<lparr>ch_options = new_channel_options (\<lambda>_. True) 0,
      ch_hostUri = \<lparr>url_scheme = ''http'', url_port = 80, url_authority = ''localhost'', url_host = ''localhost'', url_path = ''''\<rparr>,
      ch_socketType = Tcp, ch_offeredProtocols = None,
      ch_headers = \<lparr>authorityHeader = ''localhost'', schemeHeader = ''http'', contentType = DefaultContentType,
        acceptEncodingHeader = [], userAgent = ''agent''\<rparr>,
      ch_envMaximumReceiveSize = None,
      ch_configuration = \<lparr>streamReceiveWindowSize = Some 4194304, sessionReceiveWindowSize = Some 16777216,
        maxHeaderListSize = 16384\<rparr>,
      ch_acceptEncoding = (None, 0), ch_socket = SocketConnecting, ch_connection = None,
      ch_insideSocketError = False, ch_state = Connecting, ch_reconnectBackoff = new_backoff 1000 120000,
      ch_reconnectTimer = False, ch_connectTimeout = 20000, ch_connectTimeoutTimer = True,
      ch_handlers = [], ch_nextId = 0, ch_posted = [], ch_dangling = 0, ch_effects = [ConnectSocket (ConnectToHost ''localhost'' 80)]\<rparr>"

lemma metadata_clamp: "clampToRange DefaultMaximumMetadataSize MinimumMetadataSize (- 1) = 16384"
  by code_simp

lemma demo_channel: "demo_channel = demo_idle"
proof -
  let ?u = "\<lparr>url_scheme = ''http'', url_port = 80, url_authority = ''localhost'', url_host = ''localhost'', url_path = ''''\<rparr>"
  let ?o = "new_channel_options (\<lambda>_. True) 0"
  have "setupContentTypeNegotiation 1 ?o = (DefaultContentType, ?o)"
    by (simp add: setupContentTypeNegotiation_def new_channel_options_def common_options.defs channel_options.defs
        new_common_options_def make_format_def format_content_type_def)
  moreover have "channel_headers_of ?u ?o DefaultContentType [] ''agent'' =
      \<lparr>authorityHeader = ''localhost'', schemeHeader = ''http'', contentType = DefaultContentType,
        acceptEncodingHeader = [], userAgent = ''agent''\<rparr>"
    by (simp add: channel_headers_of_def constructSocketType_def sanitizeHostUri_def constructAuthorityHeader_def
        constructSchemeHeader_def scheme_defs hasSslConfiguration_def new_channel_options_def common_options.defs
        channel_options.defs Let_def)
  moreover have "constructSocketType ?u ?o = Tcp" "sanitizeHostUri ?u ?o = ?u"
    by (simp_all add: constructSocketType_def sanitizeHostUri_def scheme_defs hasSslConfiguration_def
        new_channel_options_def common_options.defs channel_options.defs Let_def)
  moreover have "createHttp2Configuration (\<lambda>_. True) (\<lambda>_. True) ?o None None None =
      \<lparr>streamReceiveWindowSize = Some 4194304, sessionReceiveWindowSize = Some 16777216, maxHeaderListSize = 16384\<rparr>"
    by (simp add: createHttp2Configuration_def default_windows Let_def new_channel_options_def common_options.defs
        channel_options.defs metadata_clamp)
  moreover have "constructReconnectBackoff ?o None None = new_backoff 1000 120000"
    by (simp add: constructReconnectBackoff_def resolveMs_def new_channel_options_def common_options.defs
        channel_options.defs DefaultInitialReconnectBackoff_def DefaultMaximumReconnectBackoff_def Let_def)
  moreover have "resolveMs (co_connectTimeout ?o) None DefaultConnectTimeout = 20000"
    by (simp add: resolveMs_def new_channel_options_def common_options.defs channel_options.defs DefaultConnectTimeout_def)
  ultimately show ?thesis
    by (simp add: demo_channel_def new_channel_def demo_idle_def demo_env_def readEnvUnsignedInt_def
        attemptConnect_def ch_perform_def Let_def offered_protocols_def reconnect_call_def)
qed

definition demo_operation :: "stream_state channel_event" where
  "demo_operation = OperationStarted \<lparr>service = ''S'', rpc_method = ''M'', rpc_kind = UnaryCall\<rparr> new_common_options
     [7] True True '''' 0"

fun run_channel_events ::
  "('s, 'c) transport \<Rightarrow> 's channel_event list \<Rightarrow> ('s, 'c) channel \<Rightarrow> ('s, 'c) channel option" where
  "run_channel_events tr [] ch = Some ch"
| "run_channel_events tr (e # es) ch =
     (if channel_enabled e ch then run_channel_events tr es (channel_handle tr e ch) else None)"

lemma channel_run_trans:
  "channel_run tr ch' es' ch'' \<Longrightarrow> channel_run tr ch es ch' \<Longrightarrow> channel_run tr ch (es @ es') ch''"
proof (induction rule: channel_run.induct)
  case (channel_run_snoc ch es' ch' e)
  then show ?case using channel_run.channel_run_snoc [of tr _ "es @ es'" ch' e] by simp
qed simp

lemma channel_run_one: "channel_enabled e ch \<Longrightarrow> channel_run tr ch [e] (channel_handle tr e ch)"
  using channel_run_snoc [OF channel_run_nil, of e ch tr] by simp

lemma run_channel_events_run: "run_channel_events tr es ch = Some ch' \<Longrightarrow> channel_run tr ch es ch'"
proof (induction es arbitrary: ch)
  case (Cons e es)
  then have "channel_run tr ch ([e] @ es) ch'"
    by (intro channel_run_trans [OF Cons.IH channel_run_one]) (auto split: if_splits)
  then show ?case by simp
qed (simp add: channel_run_nil)

definition demo_started :: "(stream_state, nat) channel" where
  "demo_started = the (run_channel_events (demo_transport 1) [demo_operation, SocketConnectedSignal, SettingsFrame] demo_idle)"

lemma demo_started:
  "channel_run (demo_transport 1) demo_channel [demo_operation, SocketConnectedSignal, SettingsFrame] demo_started"
  "map (\<lambda>(i, h). (i, h_state h, h_context h)) (ch_handlers demo_started) = [(0, RequestHeadersSent, True)]"
  "ch_state demo_started = SettingsReceived" "ch_socket demo_started = SocketConnected"
proof -
  have "run_channel_events (demo_transport 1) [demo_operation, SocketConnectedSignal, SettingsFrame] demo_idle \<noteq> None"
    by code_simp
  then show "channel_run (demo_transport 1) demo_channel [demo_operation, SocketConnectedSignal, SettingsFrame] demo_started"
    by (intro run_channel_events_run) (auto simp: demo_started_def demo_channel)
  show "map (\<lambda>(i, h). (i, h_state h, h_context h)) (ch_handlers demo_started) = [(0, RequestHeadersSent, True)]"
    by code_simp
  show "ch_state demo_started = SettingsReceived" "ch_socket demo_started = SocketConnected"
    by code_simp+
qed

text \<open>The same with a connection that refuses the stream, before the SETTINGS frame.\<close>

definition demo_refused :: "(stream_state, nat) channel" where
  "demo_refused = the (run_channel_events (demo_transport 0) [demo_operation, SocketConnectedSignal] demo_idle)"

lemma demo_refused:
  "channel_run (demo_transport 0) demo_channel [demo_operation, SocketConnectedSignal] demo_refused"
  "map (\<lambda>(i, h). (i, h_state h, h_context h, h_stream h, h_pendingFinish h \<noteq> [])) (ch_handlers demo_refused) =
     [(0, Idle, True, None, True)]"
  "ch_state demo_refused = Connected"
proof -
  have "run_channel_events (demo_transport 0) [demo_operation, SocketConnectedSignal] demo_idle \<noteq> None"
    by code_simp
  then show "channel_run (demo_transport 0) demo_channel [demo_operation, SocketConnectedSignal] demo_refused"
    by (intro run_channel_events_run) (auto simp: demo_refused_def demo_channel)
  show "map (\<lambda>(i, h). (i, h_state h, h_context h, h_stream h, h_pendingFinish h \<noteq> [])) (ch_handlers demo_refused) =
     [(0, Idle, True, None, True)]"
    by code_simp
  show "ch_state demo_refused = Connected" by code_simp
qed

lemma demo_handler:
  "\<exists>h. ch_handlers demo_started = [(0, h)] \<and> h_state h = RequestHeadersSent \<and> h_context h"
  "\<exists>h. ch_handlers demo_refused = [(0, h)] \<and> h_state h = Idle \<and> h_context h \<and> h_stream h = None \<and> h_pendingFinish h \<noteq> []"
  using demo_started(2) demo_refused(2) by (auto simp: map_eq_Cons_conv)

subsection \<open>Properties\<close>

text \<open>C32: The invariant of a channel, for any sequence of calls, events of the socket and of the connection,
  timers and events of the calls: there is a connection exactly in the states \<open>Connected\<close> and
  \<open>SettingsReceived\<close>, on a connected socket; a channel that is connecting has a timer that will start an
  attempt, or its socket is not in the unconnected state; no call has a stream without a connection; and before the SETTINGS of the
  server every call is idle or over, so that no request is sent.\<close>

theorem channel_invariant:
  assumes "channel_run tr (new_channel env acceptsStream acceptsSession protocols agent fresh uri opts) es ch"
  shows "(ch_connection ch \<noteq> None \<longleftrightarrow> ch_state ch = Connected \<or> ch_state ch = SettingsReceived) \<and>
    (ch_connection ch \<noteq> None \<longrightarrow> ch_socket ch = SocketConnected) \<and>
    (ch_state ch = Connecting \<longrightarrow> ch_reconnectTimer ch \<or> ch_socket ch \<noteq> Unconnected) \<and>
    distinct (map fst (ch_handlers ch)) \<and>
    (\<forall>(i, h) \<in> set (ch_handlers ch).
       (ch_connection ch = None \<longrightarrow> h_stream h = None) \<and>
       (ch_state ch \<noteq> SettingsReceived \<longrightarrow> h_state h = Idle \<or> h_state h = Cancelled \<or> h_state h = Finished))"
proof -
  have "channel_ok (t_net tr) ch" using assms channel_ok_new by (rule channel_ok_run)
  then show ?thesis unfolding channel_ok_def rests_def by blast
qed

theorem channel_invariant_witness: "ch_connection demo_started \<noteq> None"
  using channel_invariant [OF demo_started(1) [unfolded demo_channel_def]] demo_started(3) by simp

text \<open>C33: A channel refines its calls: whatever happens on the channel, each of its handlers has gone through a
  run of the handler from its construction, so that all that holds of the runs of a handler holds of
  the calls of a channel, in particular the life cycle with its signals \<open>finished\<close>.\<close>

theorem channel_calls_are_handler_runs:
  assumes "channel_run tr (new_channel env acceptsStream acceptsSession protocols agent fresh uri opts) es ch"
    and "(i, h) \<in> set (ch_handlers ch)"
  shows "\<exists>hd rpc co cho envMax bs endStream es'.
    handler_run (t_net tr) (new_handler (t_net tr) hd rpc co cho envMax bs endStream) es' h \<and> life_cycle h"
proof -
  have "channel_ok (t_net tr) ch" using assms(1) channel_ok_new by (rule channel_ok_run)
  then have "call_of_channel (t_net tr) h" using channel_ok_handler assms(2) by blast
  then obtain hd rpc co cho envMax bs endStream es'
    where run: "handler_run (t_net tr) (new_handler (t_net tr) hd rpc co cho envMax bs endStream) es' h"
    unfolding call_of_channel_def by blast
  then have "life_cycle h" using life_cycle_new life_cycle_handle by (rule handler_run_induct)
  with run show ?thesis by blast
qed

theorem channel_calls_are_handler_runs_witness:
  "\<exists>h. ch_handlers demo_started = [(0, h)] \<and> life_cycle h"
proof -
  obtain h where h: "ch_handlers demo_started = [(0, h)]" using demo_handler(1) by blast
  with channel_calls_are_handler_runs [OF demo_started(1) [unfolded demo_channel_def], of 0 h] show ?thesis by auto
qed

text \<open>C34: An error of the socket ends all calls of a channel: those that were not over signal \<open>finished\<close> with
  \<open>Unavailable\<close> and the error, once; the connection is gone and no call has a stream any more. The next call makes the
  channel connect again, after a delay.\<close>

theorem socket_error_finishes_calls:
  assumes "channel_run tr (new_channel env acceptsStream acceptsSession protocols agent fresh uri opts) es ch"
    and "ch' = channel_handle tr (SocketErrorSignal err closes) ch"
  shows "ch_state ch' = Error \<and> ch_connection ch' = None \<and>
    (\<forall>(i, h') \<in> set (ch_handlers ch'). h_stream h' = None) \<and>
    (\<forall>(i, h) \<in> set (ch_handlers ch). h_context h \<longrightarrow>
       (\<exists>h'. (i, h') \<in> set (ch_handlers ch') \<and> (h_state h' = Cancelled \<or> h_state h' = Finished) \<and>
          (h_state h \<le> Active \<longrightarrow> h_effects h' = h_effects h @
             [EmitFinished \<lparr>code = Unavailable, message = ''Network error occurred: '' @ err\<rparr>, DeleteLater]))) \<and>
    ch_state (channel_handle tr (OperationStarted rpc co bs e w s r) ch') = Connecting \<and>
    ch_reconnectTimer (channel_handle tr (OperationStarted rpc co bs e w s r) ch')"
proof -
  let ?st = "\<lparr>code = Unavailable, message = ''Network error occurred: '' @ err\<rparr>"
  have ok0: "channel_ok (t_net tr) ch" using assms(1) channel_ok_new by (rule channel_ok_run)
  define ch0 where "ch0 = (if closes then ch\<lparr>ch_socket := Unconnected\<rparr> else ch)"
  have ch': "ch' = handleSocketError err ch0" by (simp add: assms(2) ch0_def)
  have hs0: "ch_handlers ch0 = ch_handlers ch" "ch_insideSocketError ch0 = ch_insideSocketError ch" by (simp_all add: ch0_def)
  have eq: "handleSocketError err (ch\<lparr>ch_socket := Unconnected\<rparr>) = (handleSocketError err ch)\<lparr>ch_socket := Unconnected\<rparr>"
    by (simp add: handleSocketError_def for_each_non_expired_handler_def delete_connection_def Let_def split: prod.split)
  have same: "ch_state ch' = Error" "ch_connection ch' = None" "ch_handlers ch' = ch_handlers (handleSocketError err ch)"
    using socket_error_handlers(3,4) [OF ok0, of err] by (simp_all add: ch' ch0_def eq)
  have "\<exists>h'. (i, h') \<in> set (ch_handlers ch') \<and> (h_state h' = Cancelled \<or> h_state h' = Finished) \<and>
      (h_state h \<le> Active \<longrightarrow> h_effects h' = h_effects h @ [EmitFinished ?st, DeleteLater])"
    if "(i, h) \<in> set (ch_handlers ch)" "h_context h" for i h
    using socket_error_handlers(2) [OF ok0 that, of err] that(2) finish_ended [of ?st h]
    unfolding same by (intro exI conjI) (assumption, auto simp: finish_def handleContextExpired_def perform_def Let_def)
  moreover have "ch_state (processOperation tr rpc co bs e w s r c) = Connecting \<and>
      ch_reconnectTimer (processOperation tr rpc co bs e w s r c)"
    if "ch_state c = Error" "ch_connection c = None" for c :: "('a, 'b) channel"
    using that by (simp add: processOperation_def schedule_reconnect_def ch_perform_def Let_def split: prod.split)
  moreover have "\<forall>(i, h') \<in> set (ch_handlers ch'). h_stream h' = None"
    using socket_error_handlers(1) [OF ok0, of _ _ err] unfolding same(3) by fastforce
  ultimately show ?thesis using same(1,2) unfolding channel_handle.simps(1) by blast
qed

theorem socket_error_finishes_calls_witness:
  "ch_state (channel_handle (demo_transport 1) (SocketErrorSignal ''e'' True) demo_started) = Error \<and>
   ch_state (channel_handle (demo_transport 1) demo_operation
     (channel_handle (demo_transport 1) (SocketErrorSignal ''e'' True) demo_started)) = Connecting"
  using socket_error_finishes_calls [OF demo_started(1) [unfolded demo_channel_def] refl, of "''e''" True]
  unfolding demo_operation_def by blast

text \<open>A call whose stream was refused when the connection was made finishes by a posted event. When the
  SETTINGS of the server arrive before that event, the initial request is sent through the stream
  that is not there: a null pointer is dereferenced.\<close>

theorem settings_before_posted_finish:
  assumes "channel_run tr (new_channel env acceptsStream acceptsSession protocols agent fresh uri opts) es ch"
    and "ch_state ch = Connected" and "(i, h) \<in> set (ch_handlers ch)"
    and "h_context h" and "h_state h = Idle" and "h_stream h = None"
  shows "channel_enabled SettingsFrame ch \<and>
    (\<exists>h'. (i, h') \<in> set (ch_handlers (channel_handle tr SettingsFrame ch)) \<and> NullDereference \<in> set (h_effects h'))"
proof -
  have ok: "channel_ok (t_net tr) ch" using assms(1) channel_ok_new by (rule channel_ok_run)
  have "channel_enabled SettingsFrame ch" using ok assms(2) by (auto simp: channel_ok_def)
  moreover have "NullDereference \<in> set (h_effects (sendInitialRequest (t_net tr) h))"
    using assms(5,6) by (simp add: sendInitialRequest_def perform_def)
  ultimately show ?thesis
    using visit_mem_conv [OF assms(3,4), of "\<lambda>h c. (sendInitialRequest (t_net tr) h, c)" "ch_connection ch"] assms(2)
    by (auto simp: settingsFrameReceived_def)
qed

text \<open>The posted \<open>finish\<close> of \<open>asyncFinish\<close> is bound to the context and not to the handler: when the user cancels
  the call first, the handler is deleted and the posted call still runs, on the deleted handler.\<close>

theorem posted_finish_outlives_handler:
  assumes "channel_run tr (new_channel env acceptsStream acceptsSession protocols agent fresh uri opts) es ch"
    and "(i, h) \<in> set (ch_handlers ch)" and "h_context h" and "h_state h \<le> Active" and "h_pendingFinish h \<noteq> []"
  shows "\<exists>ch'. channel_run tr ch [HandlerEvent i CancelRequested, HandlerDeleted i, DanglingFinish] ch' \<and>
    UseAfterDelete \<in> set (ch_effects ch')"
proof -
  have ok: "channel_ok (t_net tr) ch" using assms(1) channel_ok_new by (rule channel_ok_run)
  then have mo: "map_of (ch_handlers ch) i = Some h"
    using assms(2) by (simp add: channel_ok_def)
  define h1 where "h1 = cancel (t_net tr) h"
  have h1: "DeleteLater \<in> set (h_effects h1)" "h_context h1" "h_pendingFinish h1 = h_pendingFinish h"
    using assms(3,4)
    by (auto simp: h1_def cancel_def cancelWithStatus_def finish_def handleContextExpired_def perform_def Let_def
        split: option.split prod.split)
  define ch1 where "ch1 = channel_handle tr (HandlerEvent i CancelRequested) ch"
  have "map_of (map (\<lambda>(j, h). (j, if j = i then f h else h)) hs) i = map_option f (map_of hs i)"
    for f and hs :: "(nat \<times> 'a http2_handler) list"
    by (induction hs) auto
  then have mo1: "map_of (ch_handlers ch1) i = Some h1" by (simp add: ch1_def mo h1_def)
  define ch2 where "ch2 = channel_handle tr (HandlerDeleted i) ch1"
  have d: "0 < ch_dangling ch2"
    using h1 assms(5) by (simp add: ch2_def delete_handler_def mo1 outliving_finishes_def)
  have "channel_run tr ch ([HandlerEvent i CancelRequested] @ [HandlerDeleted i]) ch2"
    unfolding ch2_def ch1_def
    by (rule channel_run_snoc [OF channel_run_one]) (use mo mo1 h1 assms(3) in \<open>simp_all add: ch1_def\<close>)
  then have "channel_run tr ch (([HandlerEvent i CancelRequested] @ [HandlerDeleted i]) @ [DanglingFinish])
      (channel_handle tr DanglingFinish ch2)"
    by (rule channel_run_snoc) (simp add: d)
  moreover have "UseAfterDelete \<in> set (ch_effects (channel_handle tr DanglingFinish ch2))"
    by (simp add: ch_perform_def)
  ultimately show ?thesis by (intro exI conjI) simp_all
qed

end
