(* ===== verification/ClientInvariants.thy ===== *)
theory ClientInvariants
  imports ClientCalls ChannelCorrectness
begin

text \<open>
  The client's view of a call is in step with its handler: it is told once that the call is over,
  exactly when the handler ends.
\<close>

subsection \<open>Handlers only go on\<close>

definition ended :: "'s http2_handler \<Rightarrow> bool" where
  "ended h \<longleftrightarrow> Cancelled \<le> h_state h"

text \<open>Effects are added, a handler is deleted only when it has ended, and then it stays so.\<close>

definition goes_on :: "'s http2_handler \<Rightarrow> 's http2_handler \<Rightarrow> bool" where
  "goes_on h h' \<longleftrightarrow>
     (\<exists>es. h_effects h' = h_effects h @ es \<and> (DeleteLater \<in> set es \<longrightarrow> ended h')) \<and>
     (ended h \<longrightarrow> ended h') \<and> h_context h' = h_context h"

lemma goes_on_refl [intro, simp]: "goes_on h h"
  by (simp add: goes_on_def)

lemma goes_on_trans [trans]: "goes_on h h' \<Longrightarrow> goes_on h' h'' \<Longrightarrow> goes_on h h''"
  unfolding goes_on_def by (metis (no_types, lifting) Un_iff append_assoc set_append)

lemma goes_on_framed:
  assumes "framed A h h'" and "\<And>e. A e \<Longrightarrow> e \<noteq> DeleteLater"
  shows "goes_on h h'"
  using assms by (auto simp: goes_on_def framed_def ended_def)

lemma goes_on_perform: "e \<noteq> DeleteLater \<or> ended h \<Longrightarrow> goes_on h (perform e h)"
  by (auto simp: goes_on_def perform_def ended_def)

lemma goes_on_silent:
  "h_effects h' = h_effects h \<Longrightarrow> h_context h' = h_context h \<Longrightarrow> (ended h \<longrightarrow> ended h') \<Longrightarrow> goes_on h h'"
  by (simp add: goes_on_def)

lemma goes_on_finish: "goes_on h (finish st h)"
  by (auto simp: goes_on_def ended_def finish_def handleContextExpired_def perform_def Let_def)

lemma goes_on_ends:
  assumes "ends A h h'" and A: "\<And>e. A e \<Longrightarrow> e \<noteq> DeleteLater"
  shows "goes_on h h'"
proof -
  obtain h1 st where "framed A h h1" "h' = finish st h1"
    using assms(1) by (auto simp: ends_def receiving_def)
  with goes_on_framed [OF _ A] goes_on_finish goes_on_trans show ?thesis by metis
qed

lemma is_send_not_delete: "is_send e \<Longrightarrow> e \<noteq> DeleteLater"
  by (cases e) auto

lemma sends_in_not_delete: "sends_in s e \<Longrightarrow> e \<noteq> DeleteLater"
  by (auto simp: sends_in_def)

lemma is_receive_not_delete: "is_receive e \<Longrightarrow> e \<noteq> DeleteLater"
  by (cases e) auto

lemma goes_on_handleHeaders: "goes_on h (handleHeaders net hs phase h)"
proof (cases "h_context h")
  case False
  then show ?thesis
    by (auto simp: handleHeaders_def handleContextExpired_def goes_on_def ended_def perform_def)
next
  case True
  have sc: "scanned h (scan_headers net phase hs new_scan h)" by (rule scanned_headers)
  show ?thesis
  proof (cases "scan_headers net phase hs new_scan h")
    case (Inl h')
    with sc True show ?thesis
      by (auto simp: scanned_def handleHeaders_def handleContextExpired_def intro: goes_on_ends)
  next
    case (Inr r)
    then obtain s h' where r: "scan_headers net phase hs new_scan h = Inr (s, h')" by (cases r) auto
    with sc have "framed (\<lambda>_. False) h h'" by (simp add: scanned_def receiving_def)
    then have "goes_on h h'" by (rule goes_on_framed) simp
    also have "goes_on h' (conclude_headers phase s h')"
      by (auto simp: conclude_headers_def intro: goes_on_finish goes_on_perform
          goes_on_trans [OF goes_on_perform goes_on_finish])
    finally show ?thesis using True r by (simp add: handleHeaders_def handleContextExpired_def)
  qed
qed

lemma goes_on_cancel: "goes_on h (cancelWithStatus net st h)"
proof (cases "Cancelled \<le> h_state h")
  case False
  have "\<exists>h1. cancelWithStatus net st h = finish st h1 \<and> goes_on h h1"
    using False
    by (auto simp: cancelWithStatus_def Let_def perform_def goes_on_def ended_def split: option.split prod.split)
  then show ?thesis using goes_on_finish goes_on_trans by metis
qed (simp add: cancelWithStatus_def)

lemma goes_on_sendInitialRequest: "goes_on h (sendInitialRequest net h)"
proof (cases "Cancelled \<le> h_state h \<or> h_stream h = None")
  case True
  then show ?thesis by (auto simp: sendInitialRequest_def intro: goes_on_perform)
next
  case False
  then obtain s where s: "h_stream h = Some s" by auto
  obtain ok s' where hd: "sendHEADERS net s (h_initialHeaders h) False = (ok, s')"
    by (cases "sendHEADERS net s (h_initialHeaders h) False") auto
  define h1 where "h1 = perform (CallHEADERS (h_initialHeaders h) ok) (h\<lparr>h_stream := Some s'\<rparr>)"
  have h1: "goes_on h h1" "\<not> ended h1"
    using False by (auto simp: h1_def goes_on_def ended_def perform_def)
  have "goes_on h1 (asyncFinish st h1)" for st
    by (auto simp: asyncFinish_def handleContextExpired_def goes_on_def ended_def perform_def)
  moreover have "goes_on h1 (processQueue net (h1\<lparr>h_state := RequestHeadersSent, h_initialHeaders := []\<rparr>))"
    using h1(2) by (intro goes_on_trans [OF goes_on_silent goes_on_framed [OF framed_processQueue sends_in_not_delete]]) auto
  moreover have "goes_on g (g\<lparr>h_deadlineTimer := b\<rparr>)" for g :: "'a http2_handler" and b
    by (rule goes_on_silent) (auto simp: ended_def)
  moreover have "\<exists>st g. sendInitialRequest net h = asyncFinish st h1 \<or>
      sendInitialRequest net h = g \<and> g = processQueue net (h1\<lparr>h_state := RequestHeadersSent, h_initialHeaders := []\<rparr>) \<or>
      sendInitialRequest net h = g\<lparr>h_deadlineTimer := True\<rparr> \<and>
        g = processQueue net (h1\<lparr>h_state := RequestHeadersSent, h_initialHeaders := []\<rparr>)"
    using False s by (cases ok) (auto simp: sendInitialRequest_def hd h1_def Let_def)
  ultimately show ?thesis using h1(1) goes_on_trans by metis
qed

lemma goes_on_handle:
  assumes "e \<noteq> ContextDestroyed"
  shows "goes_on h (handle net e h)"
proof (cases e)
  case (HeadersReceived hs endStream)
  have "goes_on h (handleHeaders net hs phase (h\<lparr>h_state := Active\<rparr>))" if "\<not> Cancelled \<le> h_state h" for phase
    using that by (intro goes_on_trans [OF goes_on_silent goes_on_handleHeaders]) (auto simp: ended_def)
  then show ?thesis
    by (auto simp: HeadersReceived onHeadersReceived_def Let_def ended_def intro: goes_on_perform)
next
  case (DataReceived bs endStream)
  from onDataReceived_cases [of h net bs endStream] show ?thesis
    by (auto simp: DataReceived receiving_def intro: goes_on_framed [OF _ is_receive_not_delete]
        goes_on_ends [OF _ is_receive_not_delete])
next
  case (WriteMessageRequested bs)
  show ?thesis
    by (cases rule: writeMessage_cases [of h net bs])
      (auto simp: WriteMessageRequested intro: goes_on_framed [OF _ sends_in_not_delete] goes_on_finish)
next
  case StreamUploadFinished
  then show ?thesis by (auto intro: goes_on_framed [OF framed_onUploadFinished sends_in_not_delete])
next
  case WritesDoneRequested
  then show ?thesis by (auto intro: goes_on_framed [OF framed_writesDone sends_in_not_delete])
next
  case (StreamBytesWritten n)
  then show ?thesis by (auto intro: goes_on_framed [OF framed_onBytesWritten is_send_not_delete])
next
  case DeadlineExpired
  then show ?thesis
    by (auto simp: deadlineTimeout_def ended_def intro!: goes_on_trans [OF goes_on_silent goes_on_cancel])
next
  case (StreamError err msg)
  then show ?thesis by (auto simp: ended_def intro!: goes_on_trans [OF goes_on_silent goes_on_finish])
next
  case PostedFinish
  then show ?thesis by (auto simp: ended_def intro!: goes_on_trans [OF goes_on_silent goes_on_finish])
next
  case PostedMessageWritten
  then show ?thesis
    by (auto simp: deliverMessageWritten_def Let_def ended_def goes_on_def perform_def)
next
  case (AsyncFinishCalled st)
  then show ?thesis by (auto simp: asyncFinish_def handleContextExpired_def goes_on_def ended_def perform_def)
qed (use assms in \<open>auto simp: cancel_def goes_on_finish goes_on_cancel goes_on_sendInitialRequest
       attachStream_def ended_def intro: goes_on_silent\<close>)

lemma ended_iff:
  assumes "life_cycle h" and "h_context h"
  shows "ended h \<longleftrightarrow> list_ex is_finished (h_effects h)"
proof -
  have "ended h \<longleftrightarrow> finished_count h \<noteq> 0"
    using assms by (cases "h_state h") (auto simp: ended_def life_cycle_def)
  then show ?thesis by (simp add: no_finished)
qed


subsection \<open>The operation behind a transport\<close>

text \<open>What the client has been told: the end of the call at most once, and nothing written after it.\<close>

fun is_operation_finished :: "client_signal \<Rightarrow> bool" where
  "is_operation_finished (OperationFinished st) = True"
| "is_operation_finished _ = False"

fun is_progress :: "client_signal \<Rightarrow> bool" where
  "is_progress OperationMessageWritten = True"
| "is_progress (OperationInitialMetadata md) = True"
| "is_progress _ = False"

definition no_progress_after :: "client_signal list \<Rightarrow> client_signal \<Rightarrow> bool" where
  "no_progress_after prev sg \<longleftrightarrow> (is_progress sg \<longrightarrow> \<not> list_ex is_operation_finished prev)"

definition told_once :: "('m, 'w) operation \<Rightarrow> bool" where
  "told_once op \<longleftrightarrow>
     length (filter is_operation_finished (op_client op)) = (if isFinished op then 1 else 0) \<and>
     ordered no_progress_after (op_client op)"

lemma told_once_finished: "told_once op \<Longrightarrow> list_ex is_operation_finished (op_client op) \<longleftrightarrow> isFinished op"
  using filter_empty_conv [of is_operation_finished "op_client op"]
  by (auto simp: told_once_def list_ex_iff simp flip: length_0_conv split: if_splits)

lemma isFinished_signal [simp]:
  "isFinished (context_signal gc e op) \<longleftrightarrow> isFinished op \<or> is_finished e"
  by (cases e)
    (auto simp: context_finished_def isFinished_def context_messageReceived_def context_messageWritten_def
      tell_client_def setBytesToWrite_def setServerInitialMetadata_def setServerTrailingMetadata_def Let_def
      split: prod.split)

lemma isFinished_signals [simp]:
  "isFinished (fold (context_signal gc) es op) \<longleftrightarrow> isFinished op \<or> list_ex is_finished es"
  by (induction es arbitrary: op) auto

lemma told_once_tell:
  assumes "told_once op" and "is_progress sg \<longrightarrow> \<not> isFinished op" and "\<not> is_operation_finished sg"
    and "op_client op' = op_client op @ [sg]" and "op_state op' = op_state op"
  shows "told_once op'"
  using assms told_once_finished [OF assms(1)]
  by (auto simp: told_once_def no_progress_after_def isFinished_def)

lemma told_once_same:
  "told_once op \<Longrightarrow> op_client op' = op_client op \<Longrightarrow> op_state op' = op_state op \<Longrightarrow> told_once op'"
  by (simp add: told_once_def isFinished_def)

lemma told_once_context_finished: "told_once op \<Longrightarrow> told_once (context_finished gc st op)"
  by (auto simp: context_finished_def told_once_def isFinished_def tell_client_def no_progress_after_def Let_def
      split: prod.split)

lemma told_once_signal:
  assumes "told_once op" and "is_live e \<longrightarrow> \<not> isFinished op"
  shows "told_once (context_signal gc e op)"
proof (cases e)
  case (EmitFinished st)
  then show ?thesis using assms(1) by (simp add: told_once_context_finished)
next
  case (EmitMessageReceived bs)
  show ?thesis
  proof (cases "forwards_received (rpc_kind (op_rpc op))")
    case True
    then show ?thesis
      using EmitMessageReceived
      by (intro told_once_tell [OF assms(1), of OperationMessageReceived])
        (auto simp: context_messageReceived_def tell_client_def Let_def split: prod.split)
  next
    case False
    then show ?thesis
      using EmitMessageReceived
      by (intro told_once_same [OF assms(1)])
        (auto simp: context_messageReceived_def tell_client_def Let_def split: prod.split)
  qed
next
  case EmitMessageWritten
  then show ?thesis
    using assms told_once_tell [OF assms(1), of OperationMessageWritten "context_messageWritten op"]
    by (auto simp: context_messageWritten_def tell_client_def)
next
  case (SetServerInitialMetadata md)
  let ?p = "if op_channel op then intercept gc InitialMetadataCap initialMetadata_method (md, op_world op)
            else (md, op_world op)"
  show ?thesis
    using SetServerInitialMetadata assms(2)
    by (intro told_once_tell [OF assms(1), of "OperationInitialMetadata (fst ?p)"])
      (auto simp: setServerInitialMetadata_def tell_client_def split: prod.split)
next
  case (SetServerTrailingMetadata md)
  then show ?thesis
    by (intro told_once_same [OF assms(1)])
      (auto simp: setServerTrailingMetadata_def Let_def split: prod.split)
qed (use assms(1) in \<open>auto simp: setBytesToWrite_def intro: told_once_same\<close>)

lemma told_once_signals:
  assumes "told_once op" and "isFinished op \<Longrightarrow> \<not> list_ex is_live es" and "ordered quiet_after_finished es"
  shows "told_once (fold (context_signal gc) es op)"
  using assms(3) assms(1,2)
proof (induction es rule: rev_induct)
  case (snoc e es)
  have "told_once (fold (context_signal gc) es op)" using snoc by (auto simp: list_ex_iff)
  moreover have "is_live e \<longrightarrow> \<not> isFinished (fold (context_signal gc) es op)"
    using snoc.prems by (auto simp: quiet_after_finished_def)
  ultimately show ?case by (simp add: told_once_signal)
qed simp


text \<open>
  The contract of a channel with an operation: the transport of a call logs what it does, among it the
  signals of the context. It is over when it has signalled \<open>finished\<close>, it can be cancelled at any time,
  and it does not report progress after \<open>finished\<close>.
\<close>

locale rpc_transport =
  fixes react :: "'e \<Rightarrow> 'h \<Rightarrow> 'h" and possible :: "'e \<Rightarrow> 'h \<Rightarrow> bool"
    and good :: "'h \<Rightarrow> bool" and over :: "'h \<Rightarrow> bool" and log :: "'h \<Rightarrow> effect list" and cancelling :: 'e
  assumes good_react: "good h \<Longrightarrow> possible e h \<Longrightarrow> good (react e h)"
    and log_grows: "good h \<Longrightarrow> possible e h \<Longrightarrow> \<exists>es. log (react e h) = log h @ es"
    and over_iff: "good h \<Longrightarrow> over h \<longleftrightarrow> list_ex is_finished (log h)"
    and log_quiet: "good h \<Longrightarrow> ordered quiet_after_finished (log h)"
    and cancel_possible: "good h \<Longrightarrow> possible cancelling h"
    and cancel_over: "good h \<Longrightarrow> over (react cancelling h)"
    and cancel_quiet: "good h \<Longrightarrow> \<exists>es. log (react cancelling h) = log h @ es \<and> \<not> list_ex is_live es"
begin

definition signalled :: "'e \<Rightarrow> 'h \<Rightarrow> effect list" where
  "signalled e h = drop (length (log h)) (log (react e h))"

definition in_step :: "('m, 'w) operation \<Rightarrow> 'h \<Rightarrow> bool" where
  "in_step op h \<longleftrightarrow> good h \<and> told_once op \<and> (isFinished op \<longleftrightarrow> over h)"

lemma log_react: "good h \<Longrightarrow> possible e h \<Longrightarrow> log (react e h) = log h @ signalled e h"
  using log_grows by (fastforce simp: signalled_def)

lemma over_react:
  "good h \<Longrightarrow> possible e h \<Longrightarrow> over (react e h) \<longleftrightarrow> over h \<or> list_ex is_finished (signalled e h)"
  using over_iff [OF good_react] over_iff by (simp add: log_react)

lemma signalled_quiet:
  assumes "good h" and "possible e h"
  shows "ordered quiet_after_finished (signalled e h)" "over h \<Longrightarrow> \<not> list_ex is_live (signalled e h)"
proof -
  have o: "ordered quiet_after_finished (log h @ signalled e h)"
    using log_quiet [OF good_react [OF assms]] log_react [OF assms] by simp
  have "quiet_after_finished (log h @ xs) x" if "signalled e h = xs @ x # ys" for xs x ys
    using o that unfolding ordered_def by (metis append_assoc)
  then show "ordered quiet_after_finished (signalled e h)"
    unfolding ordered_def quiet_after_finished_def by auto
  show "\<not> list_ex is_live (signalled e h)" if "over h"
    using o that over_iff [OF assms(1)]
    unfolding ordered_def quiet_after_finished_def list_ex_iff
    by (metis Un_iff append_assoc in_set_conv_decomp set_append)
qed

lemma in_step_react:
  assumes "in_step op h" and "possible e h"
  shows "in_step (fold (context_signal gc) (signalled e h) op) (react e h)"
  using assms good_react over_react signalled_quiet
  by (auto simp: in_step_def intro!: told_once_signals)

text \<open>An operation that has failed on its own is told nothing more, and the transport is cancelled.\<close>

lemma in_step_cancel:
  assumes "good h" and "told_once op" and "over h \<Longrightarrow> isFinished op"
  shows "in_step (fold (context_signal gc) (signalled cancelling h) op) (react cancelling h)"
proof -
  note p = cancel_possible [OF assms(1)]
  have "\<not> list_ex is_live (signalled cancelling h)"
    using cancel_quiet [OF assms(1)] by (auto simp: signalled_def)
  then have "told_once (fold (context_signal gc) (signalled cancelling h) op)"
    using assms(2) signalled_quiet(1) [OF assms(1) p] by (simp add: told_once_signals)
  moreover have "isFinished op \<or> list_ex is_finished (signalled cancelling h)"
    using over_react [OF assms(1) p] cancel_over [OF assms(1)] assms(3) by blast
  ultimately show ?thesis
    using good_react [OF assms(1) p] cancel_over [OF assms(1)] by (simp add: in_step_def)
qed

end

text \<open>The handler of an HTTP/2 stream keeps the contract as long as its context lives.\<close>

definition wired :: "'s http2_handler \<Rightarrow> bool" where
  "wired h \<longleftrightarrow> life_cycle h \<and> h_context h \<and> (DeleteLater \<in> set (h_effects h) \<longrightarrow> ended h)"

definition slot_possible :: "'s event \<Rightarrow> 's http2_handler \<Rightarrow> bool" where
  "slot_possible e h \<longleftrightarrow> enabled e h \<and> e \<noteq> ContextDestroyed"

lemma wired_handle: "wired h \<Longrightarrow> slot_possible e h \<Longrightarrow> wired (handle net e h)"
  using goes_on_handle [of e h net] life_cycle_handle [of h e net]
  by (auto simp: wired_def slot_possible_def goes_on_def)

lemma cancel_effects:
  "\<exists>es. h_effects (cancelWithStatus net st h) = h_effects h @ es \<and> \<not> list_ex is_live es"
  by (auto simp: cancelWithStatus_def finish_def handleContextExpired_def perform_def Let_def
      split: option.split prod.split)

interpretation http2: rpc_transport "handle net" slot_possible wired ended h_effects CancelRequested
  for net :: "'s net"
proof
  fix h :: "'s http2_handler" and e
  assume h: "wired h"
  then show "ended h \<longleftrightarrow> list_ex is_finished (h_effects h)" by (simp add: wired_def ended_iff)
  show "ordered quiet_after_finished (h_effects h)" using h by (simp add: wired_def life_cycle_def)
  show "slot_possible CancelRequested h" using h by (simp add: wired_def slot_possible_def)
  show "ended (handle net CancelRequested h)"
    using finish_ended by (auto simp: cancel_def cancelWithStatus_def Let_def ended_def split: option.split)
  show "\<exists>es. h_effects (handle net CancelRequested h) = h_effects h @ es \<and> \<not> list_ex is_live es"
    by (simp add: cancel_def cancel_effects)
  assume "slot_possible e h"
  with h show "wired (handle net e h)" "\<exists>es. h_effects (handle net e h) = h_effects h @ es"
    using wired_handle goes_on_handle [of e h net] by (auto simp: slot_possible_def goes_on_def)
qed


subsection \<open>Calls\<close>

lemma context_signal_keeps [simp]:
  "op_posted (context_signal gc e op) = op_posted op" "op_requests (context_signal gc e op) = op_requests op"
  "op_channel (context_signal gc e op) = op_channel op" "op_serializer (context_signal gc e op) = op_serializer op"
  "op_rpc (context_signal gc e op) = op_rpc op"
  by (cases e;
      simp add: context_finished_def context_messageReceived_def context_messageWritten_def tell_client_def
        setBytesToWrite_def setServerInitialMetadata_def setServerTrailingMetadata_def Let_def split: prod.split)+

lemma context_signals_keep [simp]:
  "op_posted (fold (context_signal gc) es op) = op_posted op"
  "op_requests (fold (context_signal gc) es op) = op_requests op"
  "op_channel (fold (context_signal gc) es op) = op_channel op"
  "op_serializer (fold (context_signal gc) es op) = op_serializer op"
  by (induction es arbitrary: op) simp_all

definition call_ok :: "('m, 'w, 's) client_call \<Rightarrow> bool" where
  "call_ok c \<longleftrightarrow>
     (case cc_handler c of
        Some h \<Rightarrow> http2.in_step (cc_operation c) h \<and> op_posted (cc_operation c) = [] \<and>
          op_channel (cc_operation c)
      | None \<Rightarrow> told_once (cc_operation c) \<and> (isFinished (cc_operation c) \<or> op_posted (cc_operation c) \<noteq> []))"

lemma handler_event_Some:
  "cc_handler c = Some h \<Longrightarrow> handler_event gc net e c =
     \<lparr>cc_operation = fold (context_signal gc) (http2.signalled net e h) (cc_operation c),
      cc_handler = Some (handle net e h)\<rparr>"
  by (simp add: handler_event_def http2.signalled_def new_effects_def Let_def)

lemma call_ok_event:
  assumes "call_ok c" and "cc_handler c = Some h" and "slot_possible e h"
  shows "call_ok (handler_event gc net e c)"
  using assms http2.in_step_react [of "cc_operation c" h e gc net]
  by (simp add: call_ok_def handler_event_Some)

text \<open>What a method of the operation does.\<close>

definition client_method :: "(('m, 'w) operation \<Rightarrow> ('m, 'w) operation) \<Rightarrow> bool" where
  "client_method f \<longleftrightarrow>
     (\<forall>op. told_once op \<longrightarrow> told_once (f op) \<and> op_posted (f op) = op_posted op \<and>
        op_channel (f op) = op_channel op \<and> (isFinished op \<longrightarrow> isFinished (f op)) \<and>
        (op_requests (f op) = op_requests op \<and> isFinished (f op) = isFinished op \<or>
         (\<exists>r. op_requests (f op) = op_requests op @ [r] \<and> (r = RequestCancel \<or> isFinished (f op) = isFinished op))))"

lemma send_request_simps [simp]:
  "op_requests (send_request r op) = op_requests op @ [r]" "op_posted (send_request r op) = op_posted op"
  "op_channel (send_request r op) = op_channel op"
  "isFinished (send_request r op) = isFinished op" "told_once (send_request r op) = told_once op"
  by (simp_all add: send_request_def isFinished_def told_once_def)

lemma world_simps [simp]:
  "isFinished (op\<lparr>op_world := w\<rparr>) = isFinished op" "told_once (op\<lparr>op_world := w\<rparr>) = told_once op"
  by (simp_all add: isFinished_def told_once_def)

lemma context_finished_simps [simp]:
  "op_requests (context_finished gc st op) = op_requests op" "op_posted (context_finished gc st op) = op_posted op"
  "op_channel (context_finished gc st op) = op_channel op"
  "isFinished (context_finished gc st op)"
  using context_signal_keeps [of gc "EmitFinished st" op] isFinished_signal [of gc "EmitFinished st" op] by simp_all

lemma client_methods [simp]:
  "client_method (op_cancel gc)" "client_method (op_writeMessage gc msg)" "client_method (op_writesDone gc)"
  by (auto simp: client_method_def op_cancel_def op_writeMessage_def op_writesDone_def Let_def
      intro: told_once_context_finished split: prod.split option.split)

lemma call_ok_action:
  assumes "call_ok c" and "client_method f"
  shows "call_ok (client_action gc net f c)"
proof (cases "cc_handler c")
  case None
  have "fold (deliver_request gc net) rs c' = c'" if "cc_handler c' = None" for rs and c' :: "('a, 'b, 'c) client_call"
    using that by (induction rs) (simp_all add: deliver_request_def)
  then show ?thesis
    using assms None by (auto simp: client_action_def Let_def call_ok_def client_method_def)
next
  case (Some h)
  let ?op = "f (cc_operation c)"
  have st: "http2.in_step (cc_operation c) h" "op_posted (cc_operation c) = []" "op_channel (cc_operation c)"
    using assms(1) Some by (simp_all add: call_ok_def)
  then have op: "told_once ?op" "op_posted ?op = []" "op_channel ?op" "isFinished (cc_operation c) \<Longrightarrow> isFinished ?op"
    using assms(2) by (simp_all add: http2.in_step_def client_method_def)
  consider (silent) "op_requests ?op = op_requests (cc_operation c)" "isFinished ?op = isFinished (cc_operation c)"
    | (cancel) "op_requests ?op = op_requests (cc_operation c) @ [RequestCancel]"
    | (request) r where "op_requests ?op = op_requests (cc_operation c) @ [r]" "isFinished ?op = isFinished (cc_operation c)"
    using assms(2) st(1) unfolding client_method_def http2.in_step_def by metis
  then show ?thesis
  proof cases
    case silent
    then show ?thesis using st op Some by (simp add: client_action_def Let_def call_ok_def http2.in_step_def)
  next
    case cancel
    have "http2.in_step (fold (context_signal gc) (http2.signalled net CancelRequested h) ?op) (handle net CancelRequested h)"
      using st(1) op by (intro http2.in_step_cancel) (simp_all add: http2.in_step_def)
    moreover have "h_context h" using st(1) by (simp add: http2.in_step_def wired_def)
    ultimately show ?thesis
      using cancel Some op by (simp add: client_action_def Let_def deliver_request_def call_ok_def handler_event_Some)
  next
    case (request r)
    then have ok: "call_ok (c\<lparr>cc_operation := ?op\<rparr>)"
      using st op Some by (simp add: call_ok_def http2.in_step_def)
    have "slot_possible e h" if "request_event r = Some e" "enabled e h" for e
      using that by (cases r) (auto simp: slot_possible_def)
    then show ?thesis
      using request(1) Some ok
      by (auto simp: client_action_def Let_def deliver_request_def intro: call_ok_event [OF ok] split: option.split)
  qed
qed

lemma call_ok_handle:
  assumes "call_ok c" and "call_enabled e c"
  shows "call_ok (call_handle gc net e c)"
proof (cases e)
  case (HandlerSlot ev)
  then obtain h where h: "cc_handler c = Some h" "channel_side ev" "enabled ev h"
    using assms(2) by (auto split: option.splits)
  then have "slot_possible ev h" by (cases ev) (simp_all add: slot_possible_def)
  with assms(1) h(1) HandlerSlot show ?thesis by (simp add: call_ok_event)
next
  case PostedStatus
  then obtain st sts where p: "op_posted (cc_operation c) = st # sts"
    using assms(2) by (cases "op_posted (cc_operation c)") auto
  then have n: "cc_handler c = None" "told_once (cc_operation c)"
    using assms(1) by (auto simp: call_ok_def split: option.splits)
  have "told_once ((cc_operation c)\<lparr>op_posted := sts\<rparr>)"
    using n(2) by (rule told_once_same) simp_all
  then show ?thesis
    using PostedStatus p n by (simp add: call_ok_def deliver_posted_def told_once_context_finished)
next
  case ChannelDestroyed
  let ?c = "c\<lparr>cc_operation := (cc_operation c)\<lparr>op_channel := False\<rparr>\<rparr>"
  have t: "told_once ((cc_operation c)\<lparr>op_channel := False\<rparr>) = told_once (cc_operation c)"
      "isFinished ((cc_operation c)\<lparr>op_channel := False\<rparr>) = isFinished (cc_operation c)"
    by (simp_all add: told_once_def isFinished_def)
  show ?thesis
  proof (cases "cc_handler c")
    case None
    then show ?thesis using assms(1) t ChannelDestroyed by (simp add: handler_event_def call_ok_def)
  next
    case (Some h)
    let ?e = "FinishCalled channel_destroyed_status"
    have h: "http2.in_step (cc_operation c) h" "slot_possible ?e h" using assms(1) Some
      by (simp_all add: call_ok_def http2.in_step_def wired_def slot_possible_def)
    then have "http2.in_step ((cc_operation c)\<lparr>op_channel := False\<rparr>) h"
      using t by (simp add: http2.in_step_def)
    from http2.in_step_react [OF this h(2), of gc net] show ?thesis
      using Some ChannelDestroyed finish_ended
      by (auto simp: call_ok_def handler_event_Some http2.in_step_def ended_def)
  qed
next
  case HandlerRemoved
  then obtain h where "cc_handler c = Some h" "DeleteLater \<in> set (h_effects h)"
    using assms(2) by (auto split: option.splits)
  then show ?thesis
    using assms(1) HandlerRemoved by (auto simp: call_ok_def http2.in_step_def wired_def)
qed (use assms(1) in \<open>simp_all add: call_ok_action\<close>)


lemma initOperation_result:
  assumes "initOperation gc locked rpc arg opts oid w = (r, op)"
  shows "op_client op = [] \<and> \<not> isFinished op \<and> op_rpc op = rpc \<and> op_requests op = [] \<and>
    (case r of Some bs \<Rightarrow> op_posted op = [] \<and> op_channel op \<and> op_state op = ValidOperation \<and>
                 op_serializer op = gc_serializer gc
     | None \<Rightarrow> op_posted op \<noteq> [])"
  using assms
  by (auto simp: initOperation_def new_operation_def asyncFinishInvalid_def serializeInitialMessage_def
      isFinished_def Let_def split: if_splits option.splits prod.splits)

lemma wired_new: "wired (new_handler net hds rpc co cho env bs e)"
proof -
  have g: "goes_on h (writeMessage net bs h)" for h :: "'a http2_handler"
    by (cases rule: writeMessage_cases [of h net bs])
      (auto intro: goes_on_framed [OF _ sends_in_not_delete] goes_on_finish)
  have *: "(DeleteLater \<in> set (h_effects (writeMessage net bs h)) \<longrightarrow> ended (writeMessage net bs h)) \<and>
      h_context (writeMessage net bs h)" if "h_effects h = []" "h_context h" for h :: "'a http2_handler"
    using that g [of h] by (fastforce simp: goes_on_def)
  have "(DeleteLater \<in> set (h_effects (new_handler net hds rpc co cho env bs e)) \<longrightarrow>
      ended (new_handler net hds rpc co cho env bs e)) \<and>
    h_context (new_handler net hds rpc co cho env bs e)"
    unfolding new_handler_def by (rule *) simp_all
  then show ?thesis by (simp add: wired_def life_cycle_new)
qed

lemma call_ok_start: "call_ok (start_call gc net hds cho env locked unwritable rpc arg opts oid w)"
proof -
  obtain r op where io: "initOperation gc locked rpc arg opts oid w = (r, op)"
    by (cases "initOperation gc locked rpc arg opts oid w") auto
  note res = initOperation_result [OF io]
  then have t: "told_once op" by (simp add: told_once_def)
  show ?thesis
  proof (cases "r = None \<or> unwritable \<noteq> None")
    case True
    have "told_once (op\<lparr>op_posted := p\<rparr>)" for p using t by (rule told_once_same) simp_all
    then show ?thesis
      using True io res t by (cases r; cases unwritable) (simp_all add: start_call_def call_ok_def)
  next
    case False
    then obtain bs where Some: "r = Some bs" "unwritable = None" by (cases r) auto
    let ?h = "new_handler net hds rpc (op_options op) cho env bs (rpc_endStream (rpc_kind rpc))"
    have w: "wired ?h" by (rule wired_new)
    then have "told_once (fold (context_signal gc) (h_effects ?h) op)"
      using t res by (intro told_once_signals) (auto simp: wired_def life_cycle_def)
    moreover have "list_ex is_finished (h_effects ?h) \<longleftrightarrow> ended ?h"
      using w by (simp add: wired_def ended_iff)
    ultimately show ?thesis using w io res Some
      by (simp add: start_call_def Let_def call_ok_def http2.in_step_def)
  qed
qed

lemma call_ok_run:
  "call_run gc net c es c' \<Longrightarrow> call_ok c \<Longrightarrow> call_ok c'"
  by (induction rule: call_run.induct) (simp_all add: call_ok_handle)


text \<open>The serializer and the method of a call do not change.\<close>

definition same_call :: "('m, 'w) operation \<Rightarrow> ('m, 'w) operation \<Rightarrow> bool" where
  "same_call op op' \<longleftrightarrow> op_serializer op' = op_serializer op \<and> op_rpc op' = op_rpc op"

lemma same_call_refl [simp]: "same_call op op"
  by (simp add: same_call_def)

lemma same_call_signals: "same_call op op' \<Longrightarrow> same_call op (fold (context_signal gc) es op')"
  by (induction es arbitrary: op') (simp_all add: same_call_def)

lemma same_call_handler_event:
  "same_call op (cc_operation c) \<Longrightarrow> same_call op (cc_operation (handler_event gc net e c))"
  by (simp add: handler_event_def Let_def same_call_signals split: option.split)

lemma same_call_action:
  assumes "\<And>op. same_call op (f op)" and "same_call op (cc_operation c)"
  shows "same_call op (cc_operation (client_action gc net f c))"
proof -
  have "same_call op (cc_operation (fold (deliver_request gc net) rs c'))" if "same_call op (cc_operation c')" for rs c'
    using that
    by (induction rs arbitrary: c') (auto simp: deliver_request_def intro: same_call_handler_event split: option.split)
  moreover have "same_call op (f (cc_operation c))" using assms by (simp add: same_call_def)
  ultimately show ?thesis by (simp add: client_action_def Let_def)
qed

lemma same_call_methods:
  "same_call op (op_cancel gc op)" "same_call op (op_writeMessage gc msg op)" "same_call op (op_writesDone gc op)"
  "same_call op (deliver_posted gc op)"
  by (auto simp: same_call_def op_cancel_def op_writeMessage_def op_writesDone_def send_request_def deliver_posted_def
      context_finished_def tell_client_def Let_def split: prod.split option.split list.split)

lemma same_call_handle:
  assumes "same_call op (cc_operation c)"
  shows "same_call op (cc_operation (call_handle gc net e c))"
proof (cases e)
  case PostedStatus
  then show ?thesis using assms same_call_methods(4) [of "cc_operation c" gc] by (simp add: same_call_def)
next
  case ChannelDestroyed
  have "same_call op ((cc_operation c)\<lparr>op_channel := False\<rparr>)" using assms by (simp add: same_call_def)
  then show ?thesis using ChannelDestroyed by (simp add: same_call_handler_event)
qed (use assms in \<open>simp_all add: same_call_action same_call_methods same_call_handler_event\<close>)

lemma same_call_run:
  "call_run gc net c es c' \<Longrightarrow> same_call (cc_operation c) (cc_operation c')"
  by (induction rule: call_run.induct) (simp_all add: same_call_handle)

lemma handler_event_handler: "cc_handler (handler_event gc net e c) = map_option (handle net e) (cc_handler c)"
  by (simp add: handler_event_def Let_def split: option.split)

lemma no_handler_stays: "call_run gc net c es c' \<Longrightarrow> cc_handler c = None \<Longrightarrow> cc_handler c' = None"
proof (induction rule: call_run.induct)
  case (call_run_snoc c es c' e)
  have "cc_handler (fold (deliver_request gc net) rs c0) = None" if "cc_handler c0 = None" for rs and c0 :: "('b, 'c, 'd) client_call"
    using that by (induction rs) (simp_all add: deliver_request_def)
  then have "cc_handler (client_action gc net f c') = None" for f
    using call_run_snoc by (simp add: client_action_def Let_def)
  then show ?case using call_run_snoc by (cases e) (simp_all add: handler_event_handler)
qed simp

text \<open>A call that has a handler was started with the serializer of the channel.\<close>

lemma start_serializer:
  assumes "call_run gc net (start_call gc net hds cho env locked unwritable rpc arg opts oid w) es c" and "cc_handler c \<noteq> None"
  obtains bs op where "initOperation gc locked rpc arg opts oid w = (Some bs, op)"
    and "op_serializer (cc_operation c) = gc_serializer gc" and "op_rpc (cc_operation c) = rpc"
proof -
  obtain r op where io: "initOperation gc locked rpc arg opts oid w = (r, op)"
    by (cases "initOperation gc locked rpc arg opts oid w") auto
  have "cc_handler (start_call gc net hds cho env locked unwritable rpc arg opts oid w) \<noteq> None"
    using no_handler_stays [OF assms(1)] assms(2) by blast
  then obtain bs where r: "r = Some bs" "unwritable = None"
    using io by (cases r; cases unwritable) (simp_all add: start_call_def)
  have "same_call op (cc_operation (start_call gc net hds cho env locked unwritable rpc arg opts oid w))"
    using io r by (simp add: start_call_def Let_def same_call_signals)
  with same_call_run [OF assms(1)] have "same_call op (cc_operation c)" by (simp add: same_call_def)
  with that io r(1) initOperation_result [OF io] show thesis by (simp add: same_call_def)
qed

end
