(* ===== verification/ClientCorrectness.thy ===== *)
theory ClientCorrectness
  imports ClientInvariants
begin

text \<open>
  The guarantees of a call for the client, and what reaches the server and comes back.
\<close>

subsection \<open>Examples\<close>

text \<open>Messages that are byte lists of at most three bytes, and no interceptors.\<close>

definition bytes_serializer :: "byte list message_serializer" where
  "bytes_serializer =
     \<lparr>ser_serialize = (\<lambda>m. if 3 < length m then ([], MessageTooLarge, ''too large'') else (m, NoError, [])),
      ser_deserialize = (\<lambda>m bs. Ret (True, bs))\<rparr>"

definition plain_methods :: "(nat, 'm, 'w) interceptor_methods" where
  "plain_methods =
     \<lparr>start_method = (\<lambda>i a. (Proceed, a)), initialMetadata_method = (\<lambda>i a. a), messageReceived_method = (\<lambda>i a. a),
      writeMessage_method = (\<lambda>i a. a), writesDone_method = (\<lambda>i a. a), trailingMetadata_method = (\<lambda>i a. a),
      finished_method = (\<lambda>i a. a), cancel_method = (\<lambda>i a. a)\<rparr>"

definition demo_gc :: "'m message_serializer \<Rightarrow> (nat, 'm, unit) grpc_channel" where
  "demo_gc ser =
     \<lparr>gc_serializer = Some ser, gc_engine = engine_of new_chain, gc_methods = plain_methods, gc_sameThread = True\<rparr>"

definition demo_start :: "rpc_type \<Rightarrow> (byte list, unit, stream_state) client_call" where
  "demo_start t =
     start_call (demo_gc bytes_serializer) demo_net demo_channel_headers (new_channel_options (\<lambda>_. True) 0) None True None
       \<lparr>service = ''S'', rpc_method = ''M'', rpc_kind = t\<rparr> [7] new_common_options 0 ()"

fun run_call_events ::
  "('i, 'm, 'w) grpc_channel \<Rightarrow> 's net \<Rightarrow> ('m, 's) call_event list \<Rightarrow> ('m, 'w, 's) client_call \<Rightarrow>
   ('m, 'w, 's) client_call option" where
  "run_call_events gc net [] c = Some c"
| "run_call_events gc net (e # es) c =
     (if call_enabled e c then run_call_events gc net es (call_handle gc net e c) else None)"

lemma call_run_trans:
  "call_run gc net c' es' c'' \<Longrightarrow> call_run gc net c es c' \<Longrightarrow> call_run gc net c (es @ es') c''"
proof (induction rule: call_run.induct)
  case (call_run_snoc c0 es0 c1 e)
  then have "call_run gc net c ((es @ es0) @ [e]) (call_handle gc net e c1)"
    by (blast intro: call_run.call_run_snoc)
  then show ?case by simp
qed simp

lemma call_run_one: "call_enabled e c \<Longrightarrow> call_run gc net c [e] (call_handle gc net e c)"
  using call_run_snoc [OF call_run_nil, of e c gc net] by simp

lemma run_call_events_run: "run_call_events gc net es c = Some c' \<Longrightarrow> call_run gc net c es c'"
proof (induction es arbitrary: c)
  case (Cons e es)
  then have "call_run gc net c [e] (call_handle gc net e c)"
    by (intro call_run_one) (auto split: if_splits)
  with Cons call_run_trans [of gc net "call_handle gc net e c" es c' c "[e]"] show ?case
    by (auto split: if_splits)
qed (simp add: call_run_nil)

definition demo_call_events :: "(byte list, stream_state) call_event list" where
  "demo_call_events =
     [HandlerSlot (AttachStream StreamIdle), HandlerSlot SendInitialRequest, ClientWriteMessage [1, 2],
      HandlerSlot (HeadersReceived [('':status'', ''200''), (''content-type'', ''application/grpc'')] False)]"

definition demo_running :: "(byte list, unit, stream_state) client_call" where
  "demo_running = the (run_call_events (demo_gc bytes_serializer) demo_net demo_call_events (demo_start BidiStreaming))"

lemma demo_running_facts:
  "call_run (demo_gc bytes_serializer) demo_net (demo_start BidiStreaming) demo_call_events demo_running"
  "\<not> isFinished (cc_operation demo_running)"
  "\<exists>h. cc_handler demo_running = Some h"
proof -
  have "run_call_events (demo_gc bytes_serializer) demo_net demo_call_events (demo_start BidiStreaming) \<noteq> None"
    by code_simp
  then show "call_run (demo_gc bytes_serializer) demo_net (demo_start BidiStreaming) demo_call_events demo_running"
    by (intro run_call_events_run) (simp add: demo_running_def)
  show "\<not> isFinished (cc_operation demo_running)" by code_simp
  have "cc_handler demo_running \<noteq> None" by code_simp
  then show "\<exists>h. cc_handler demo_running = Some h" by simp
qed


lemma demo_gc_none [simp]: "\<not> hasHandlerFor (gc_engine (demo_gc ser)) c"
  by (simp add: demo_gc_def hasHandlerFor_def chain_hasHandlerFor_def engine_of_def setInterceptorChain_def new_chain_def)

lemma demo_gc_serializer [simp]: "gc_serializer (demo_gc ser) = Some ser"
  by (simp add: demo_gc_def)

lemma intercept_none: "\<not> hasHandlerFor (gc_engine gc) c \<Longrightarrow> intercept gc c meth a = a"
  by (simp add: intercept_def)

subsection \<open>The end of a call\<close>

text \<open>C26: The client is told exactly once that a call is over, although its handler may signal
  \<open>finished\<close> several times: whether or not the call could be started (a channel that is gone, an
  argument that cannot be serialized, a socket that is not writable), and whatever the client and the
  channel do and in whatever order, the operation has emitted \<open>finished\<close> once when it is finished and
  never before, and no initial metadata and no \<open>messageWritten\<close> after it; it is finished exactly when its handler has ended; and without a handler a
  status has been delivered or is still in the event loop, so that no call is forgotten.\<close>

theorem client_told_once:
  assumes "call_run gc net (start_call gc net hds cho env locked unwritable rpc arg opts oid w) es c"
  shows "length (filter is_operation_finished (op_client (cc_operation c))) =
      (if isFinished (cc_operation c) then 1 else 0) \<and>
    ordered no_progress_after (op_client (cc_operation c)) \<and>
    (case cc_handler c of
       Some h \<Rightarrow> isFinished (cc_operation c) = (h_state h = Cancelled \<or> h_state h = Finished)
     | None \<Rightarrow> isFinished (cc_operation c) \<or> op_posted (cc_operation c) \<noteq> [])"
proof -
  have "call_ok c" using assms call_ok_start by (rule call_ok_run)
  then show ?thesis
    by (cases "cc_handler c") (auto simp: call_ok_def http2.in_step_def told_once_def ended_def)
qed

theorem client_told_once_witness:
  "filter is_operation_finished (op_client (cc_operation demo_running)) = []"
  using client_told_once [OF demo_running_facts(1) [unfolded demo_start_def]] demo_running_facts(2) by simp

lemma cancel_events:
  assumes "h_context h" and "\<not> ended h"
  shows "\<exists>pre. h_effects (cancel net h) = h_effects h @ pre @
      [EmitFinished \<lparr>code = CancelledCode, message = ''Cancelled by client''\<rparr>, DeleteLater] \<and>
    (pre = [] \<or> (\<exists>ok. pre = [CallRST ok]))"
  using assms
  by (auto simp: cancel_def cancelWithStatus_def finish_def handleContextExpired_def perform_def Let_def ended_def
      split: option.split prod.split)

lemma cancel_keeps_queue: "h_queue (cancel net h) = h_queue h"
  by (auto simp: cancel_def cancelWithStatus_def finish_def handleContextExpired_def perform_def Let_def
      split: option.split prod.split)

lemma context_finished_again: "isFinished op \<Longrightarrow> context_finished gc st op = op"
  by (simp add: context_finished_def)

lemma cancel_signals:
  assumes "h_context h" and "\<not> ended h"
  shows "fold (context_signal gc) (http2.signalled net CancelRequested h) op =
    context_finished gc \<lparr>code = CancelledCode, message = ''Cancelled by client''\<rparr> op"
  using cancel_events [OF assms, of net] by (auto simp: http2.signalled_def)

text \<open>The method of a client and the only request it makes, on a call with a handler.\<close>

lemma client_action_cancel:
  assumes "cc_handler c = Some h" and "h_context h"
    and "op_requests (f (cc_operation c)) = op_requests (cc_operation c) @ [RequestCancel]"
  shows "client_action gc net f c =
    \<lparr>cc_operation = fold (context_signal gc) (http2.signalled net CancelRequested h) (f (cc_operation c)),
     cc_handler = Some (cancel net h)\<rparr>"
  using assms by (simp add: client_action_def Let_def deliver_request_def handler_event_Some)

text \<open>C27: A client can end a running call at any time: after \<open>cancel\<close> the operation is finished, the client
  has been told the status \<open>Cancelled\<close> (as the interceptors of \<open>finished\<close> leave it), and the handler
  has ended.\<close>

theorem cancel_finishes_call:
  assumes "call_run gc net (start_call gc net hds cho env locked unwritable rpc arg opts oid w0) es c"
    and "cc_handler c = Some h" and "\<not> isFinished (cc_operation c)"
    and "w = intercept gc CancelCap cancel_method (op_world (cc_operation c))"
    and "c' = call_handle gc net ClientCancel c"
  shows "isFinished (cc_operation c') \<and> cc_handler c' = Some (cancel net h) \<and>
    h_state (cancel net h) = Cancelled \<and>
    op_client (cc_operation c') = op_client (cc_operation c) @
      [OperationFinished (fst (intercept gc FinishedCap finished_method
         (\<lparr>code = CancelledCode, message = ''Cancelled by client''\<rparr>, w)))]"
proof -
  have "call_ok c" using assms(1) call_ok_start by (rule call_ok_run)
  then have h: "h_context h" "\<not> ended h" "op_channel (cc_operation c)"
    using assms(2,3) by (simp_all add: call_ok_def http2.in_step_def wired_def)
  have req: "op_cancel gc (cc_operation c) = send_request RequestCancel ((cc_operation c)\<lparr>op_world := w\<rparr>)"
    using assms(3,4) h(3) by (simp add: op_cancel_def)
  have c': "c' = \<lparr>cc_operation = context_finished gc \<lparr>code = CancelledCode, message = ''Cancelled by client''\<rparr>
        (send_request RequestCancel ((cc_operation c)\<lparr>op_world := w\<rparr>)), cc_handler = Some (cancel net h)\<rparr>"
    using client_action_cancel [OF assms(2) h(1), of "op_cancel gc" gc net] cancel_signals [OF h(1,2)]
    by (simp add: assms(5) req)
  have "h_state (cancel net h) = Cancelled"
    using h by (auto simp: cancel_def cancelWithStatus_def finish_def handleContextExpired_def perform_def Let_def
        ended_def split: option.split prod.split)
  moreover have "op_client (context_finished gc st (send_request r op)) =
      op_client op @ [OperationFinished (fst (intercept gc FinishedCap finished_method (st, op_world op)))]"
    if "\<not> isFinished op" "op_channel op" for st r and op :: "('b, 'c) operation"
    using that by (auto simp: context_finished_def send_request_def tell_client_def isFinished_def Let_def split: prod.split)
  ultimately show ?thesis using c' h(3) assms(3) by simp
qed

theorem cancel_finishes_call_witness:
  "isFinished (cc_operation (call_handle (demo_gc bytes_serializer) demo_net ClientCancel demo_running)) \<and>
   op_client (cc_operation (call_handle (demo_gc bytes_serializer) demo_net ClientCancel demo_running)) =
     op_client (cc_operation demo_running) @
       [OperationFinished \<lparr>code = CancelledCode, message = ''Cancelled by client''\<rparr>]"
proof -
  obtain h where "cc_handler demo_running = Some h" using demo_running_facts(3) by blast
  from cancel_finishes_call [OF demo_running_facts(1) [unfolded demo_start_def] this demo_running_facts(2) refl refl]
  show ?thesis by (simp add: intercept_none)
qed

subsection \<open>Messages that cannot be serialized\<close>

text \<open>C28: A message that cannot be serialized ends the call with the error of the serializer and is not sent:
  the client is told \<open>ResourceExhausted\<close> for a message that is too large and \<open>Internal\<close> otherwise,
  not the \<open>Cancelled\<close> of the handler that is cancelled after it, and neither the queue nor the DATA
  of the stream change.\<close>

theorem failed_write_finishes_call:
  assumes "call_run gc net (start_call gc net hds cho env locked unwritable rpc arg opts oid w0) es c"
    and "cc_handler c = Some h" and "\<not> isFinished (cc_operation c)"
    and "gc_serializer gc = Some ser"
    and "intercept gc WriteMessageCap writeMessage_method (msg, op_world (cc_operation c)) = (msg', w)"
    and "ser_serialize ser msg' = (bs, err, errText)" and "err \<noteq> NoError"
    and "c' = call_handle gc net (ClientWriteMessage msg) c"
  shows "op_client (cc_operation c') = op_client (cc_operation c) @
      [OperationFinished (fst (intercept gc FinishedCap finished_method
         (\<lparr>code = (if err = MessageTooLarge then ResourceExhausted else Internal),
           message = ''Failed to serialize the message: '' @ errText\<rparr>, w)))] \<and>
    (\<exists>h'. cc_handler c' = Some h' \<and> h_state h' = Cancelled \<and> h_queue h' = h_queue h \<and>
       data_calls (h_effects h') = data_calls (h_effects h))"
proof -
  define st where "st = \<lparr>code = (if err = MessageTooLarge then ResourceExhausted else Internal),
           message = ''Failed to serialize the message: '' @ errText\<rparr>"
  let ?op = "context_finished gc st ((cc_operation c)\<lparr>op_world := w\<rparr>)"
  have "call_ok c" using assms(1) call_ok_start by (rule call_ok_run)
  then have h: "h_context h" "\<not> ended h" "op_channel (cc_operation c)"
    using assms(2,3) by (simp_all add: call_ok_def http2.in_step_def wired_def)
  have "op_serializer (cc_operation c) = Some ser"
    using start_serializer [OF assms(1)] assms(2,4) by (metis option.discI)
  moreover have "serializationFailure err errText = Some st"
    using assms(7) by (simp add: serializationFailure_def st_def)
  ultimately have req: "op_writeMessage gc msg (cc_operation c) = send_request RequestCancel ?op"
    using assms(5,6) h(3) by (simp add: op_writeMessage_def Let_def)
  have "c' = \<lparr>cc_operation = send_request RequestCancel ?op, cc_handler = Some (cancel net h)\<rparr>"
    using client_action_cancel [OF assms(2) h(1), of "op_writeMessage gc msg" gc net]
    by (simp add: assms(8) req cancel_signals [OF h(1,2)] context_finished_again)
  moreover have "op_client (send_request RequestCancel ?op) = op_client (cc_operation c) @
      [OperationFinished (fst (intercept gc FinishedCap finished_method (st, w)))]"
    using h(3) assms(3)
    by (auto simp: context_finished_def send_request_def tell_client_def isFinished_def Let_def split: prod.split)
  moreover have "h_state (cancel net h) = Cancelled"
    using h by (auto simp: cancel_def cancelWithStatus_def finish_def handleContextExpired_def perform_def Let_def
        ended_def split: option.split prod.split)
  moreover have "data_calls (h_effects (cancel net h)) = data_calls (h_effects h)"
    using cancel_events [OF h(1,2), of net] by (auto simp: data_calls_none data_calls_append)
  ultimately show ?thesis using cancel_keeps_queue [of net h] by (simp add: st_def)
qed

theorem failed_write_finishes_call_witness:
  "op_client (cc_operation (call_handle (demo_gc bytes_serializer) demo_net (ClientWriteMessage [1, 2, 3, 4]) demo_running)) =
     op_client (cc_operation demo_running) @
       [OperationFinished \<lparr>code = ResourceExhausted, message = ''Failed to serialize the message: too large''\<rparr>]"
proof -
  obtain h where h: "cc_handler demo_running = Some h" using demo_running_facts(3) by blast
  from failed_write_finishes_call [OF demo_running_facts(1) [unfolded demo_start_def] h demo_running_facts(2)
      demo_gc_serializer intercept_none, of "[1, 2, 3, 4]" "[]" MessageTooLarge "''too large''"]
  show ?thesis by (simp add: intercept_none bytes_serializer_def)
qed


subsection \<open>Changing the channel\<close>

definition reachable_call :: "('i, 'm, 'w) grpc_channel \<Rightarrow> 's net \<Rightarrow> ('m, 'w, 's) client_call \<Rightarrow> bool" where
  "reachable_call gc net c \<longleftrightarrow>
     (\<exists>hds cho env locked unwritable rpc arg opts oid w es.
        call_run gc net (start_call gc net hds cho env locked unwritable rpc arg opts oid w) es c)"

definition running_call :: "('m, 'w, 's) client_call \<Rightarrow> bool" where
  "running_call c \<longleftrightarrow> cc_handler c \<noteq> None \<and> \<not> isFinished (cc_operation c)"

lemma reachable_call_ok: "reachable_call gc net c \<Longrightarrow> call_ok c"
  by (auto simp: reachable_call_def intro: call_ok_run [OF _ call_ok_start])

lemma cancel_running:
  assumes "call_ok c" and "running_call c"
  shows "isFinished (cc_operation (call_handle gc net ClientCancel c))"
proof -
  obtain h where h: "cc_handler c = Some h" using assms(2) by (auto simp: running_call_def)
  then have c: "h_context h" "\<not> ended h" "op_channel (cc_operation c)"
    using assms by (simp_all add: call_ok_def http2.in_step_def wired_def running_call_def)
  have "op_requests (op_cancel gc (cc_operation c)) = op_requests (cc_operation c) @ [RequestCancel]"
    using assms(2) c(3) by (simp add: op_cancel_def running_call_def)
  from client_action_cancel [where f = "op_cancel gc", OF h c(1) this, of gc net] show ?thesis
    by (simp add: cancel_signals [OF c(1,2)])
qed

lemma cancel_not_running:
  assumes "\<not> running_call c"
  shows "isFinished (cc_operation (call_handle gc net ClientCancel c)) = isFinished (cc_operation c)"
proof (cases "isFinished (cc_operation c)")
  case True
  then show ?thesis by (simp add: client_action_def op_cancel_def)
next
  case False
  then have none: "cc_handler c = None" using assms by (auto simp: running_call_def)
  have "fold (deliver_request gc net) rs c0 = c0" if "cc_handler c0 = None" for rs c0
    using that by (induction rs) (simp_all add: deliver_request_def)
  then show ?thesis using none False by (simp add: client_action_def Let_def op_cancel_def)
qed

lemma not_running_stays:
  assumes "\<not> running_call c"
  shows "\<not> running_call (call_handle gc net ClientCancel c)"
proof (cases "cc_handler c")
  case None
  then show ?thesis
    using no_handler_stays [OF call_run_one [of ClientCancel c gc net]] by (simp add: running_call_def)
next
  case (Some h)
  then show ?thesis using assms cancel_not_running [OF assms, of gc net] by (auto simp: running_call_def)
qed

lemma cancel_streams_Undef:
  assumes "\<forall>i \<in> set is. \<exists>c. cl_calls cl i = Some c \<and> call_ok c" and "set is \<subseteq> set (cl_active cl)"
  shows "(cancel_streams gc net is cl = Undef \<longleftrightarrow> (\<exists>i \<in> set is. running_call (the (cl_calls cl i)))) \<and>
    (\<forall>cl'. cancel_streams gc net is cl = Ret cl' \<longrightarrow> cl_active cl' = cl_active cl) \<and>
    cancel_streams gc net is cl \<noteq> Stuck"
  using assms
proof (induction "is" arbitrary: cl)
  case (Cons i "is")
  then obtain c where c: "cl_calls cl i = Some c" "call_ok c" by auto
  let ?c = "call_handle gc net ClientCancel c" and ?cl = "client_event gc net i ClientCancel cl"
  show ?case
  proof (cases "running_call c")
    case True
    have "isFinished (cc_operation ?c)" "\<not> isFinished (cc_operation c)"
      using True cancel_running [OF c(2) True] by (simp_all add: running_call_def)
    then have "cl_active ?cl = removeAll i (cl_active cl)"
      using c by (simp add: client_event_def Let_def stream_finished_def)
    moreover have "removeAll i (cl_active cl) \<noteq> cl_active cl"
    proof
      assume "removeAll i (cl_active cl) = cl_active cl"
      moreover have "i \<in> set (cl_active cl)" using Cons.prems(2) by simp
      ultimately have "i \<in> set (removeAll i (cl_active cl))" by simp
      then show False by simp
    qed
    ultimately show ?thesis using True c by simp
  next
    case False
    have cl: "?cl = cl\<lparr>cl_calls := (cl_calls cl)(i \<mapsto> ?c)\<rparr>"
      using c cancel_not_running [OF False, of gc net] by (auto simp: client_event_def Let_def)
    have "call_ok ?c" using c(2) by (simp add: call_ok_action)
    then have "\<forall>j \<in> set is. \<exists>c. cl_calls ?cl j = Some c \<and> call_ok c"
      using Cons.prems(1) cl by auto
    from Cons.IH [OF this] Cons.prems(2) cl
    have IH: "(cancel_streams gc net is ?cl = Undef \<longleftrightarrow> (\<exists>j \<in> set is. running_call (the (cl_calls ?cl j)))) \<and>
        (\<forall>cl'. cancel_streams gc net is ?cl = Ret cl' \<longrightarrow> cl_active cl' = cl_active ?cl) \<and>
        cancel_streams gc net is ?cl \<noteq> Stuck"
      by simp
    have "running_call (the (cl_calls ?cl j)) = running_call (the (cl_calls cl j))" for j
      using cl c False not_running_stays [OF False, of gc net] by simp
    with IH show ?thesis using cl False c by (simp add: Let_def)
  qed
qed simp

text \<open>C29: \<open>attachChannel\<close> cancels the streams that are active while it walks over the set that holds them, and the
  slot of \<open>finished\<close> removes a stream from that set at once: the walk goes on with an invalid
  iterator exactly when one of the streams is still running. Otherwise the new channel is attached.\<close>

theorem attach_channel_undefined_iff:
  assumes "\<forall>i \<in> set (cl_active cl). \<exists>c. cl_calls cl i = Some c \<and> reachable_call gc net c"
    and "cl_channel cl \<noteq> Some chan"
  shows "(attachChannel gc net chan True cl = Undef \<longleftrightarrow>
      (\<exists>i \<in> set (cl_active cl). \<exists>c. cl_calls cl i = Some c \<and> cc_handler c \<noteq> None \<and> \<not> isFinished (cc_operation c))) \<and>
    (\<forall>ok cl'. attachChannel gc net chan True cl = Ret (ok, cl') \<longrightarrow> ok \<and> cl_channel cl' = Some chan)"
proof -
  have "\<forall>i \<in> set (cl_active cl). \<exists>c. cl_calls cl i = Some c \<and> call_ok c"
    using assms(1) reachable_call_ok by blast
  from cancel_streams_Undef [OF this subset_refl, of gc net]
  have u: "cancel_streams gc net (cl_active cl) cl = Undef \<longleftrightarrow> (\<exists>i \<in> set (cl_active cl). running_call (the (cl_calls cl i)))"
    "cancel_streams gc net (cl_active cl) cl \<noteq> Stuck" by simp_all
  have "(\<exists>i \<in> set (cl_active cl). running_call (the (cl_calls cl i))) \<longleftrightarrow>
      (\<exists>i \<in> set (cl_active cl). \<exists>c. cl_calls cl i = Some c \<and> cc_handler c \<noteq> None \<and> \<not> isFinished (cc_operation c))"
    using assms(1) by (force simp: running_call_def)
  with u show ?thesis using assms(2)
    by (cases "cancel_streams gc net (cl_active cl) cl") (auto simp: attachChannel_def)
qed

definition demo_client :: "(byte list, unit, stream_state) client" where
  "demo_client = addStream 5 demo_running \<lparr>cl_channel = Some 0, cl_active = [], cl_calls = Map.empty\<rparr>"

theorem attach_channel_undefined_iff_witness:
  "attachChannel (demo_gc bytes_serializer) demo_net 1 True demo_client = Undef"
proof -
  have r: "reachable_call (demo_gc bytes_serializer) demo_net demo_running"
    unfolding reachable_call_def using demo_running_facts(1) [unfolded demo_start_def] by blast
  have cl: "cl_active demo_client = [5]" "cl_calls demo_client 5 = Some demo_running" "cl_channel demo_client = Some 0"
    by (simp_all add: demo_client_def addStream_def flat_insert_def)
  have "(attachChannel (demo_gc bytes_serializer) demo_net 1 True demo_client = Undef \<longleftrightarrow>
      (\<exists>i \<in> set (cl_active demo_client). \<exists>c. cl_calls demo_client i = Some c \<and> cc_handler c \<noteq> None \<and>
         \<not> isFinished (cc_operation c)))"
    using attach_channel_undefined_iff [of demo_client "demo_gc bytes_serializer" demo_net 1] r cl by auto
  then show ?thesis using cl demo_running_facts(2,3) by auto
qed

end
