(* ===== verification/WireProgress.thy ===== *)
theory WireProgress
  imports WireDeserializer
begin

text \<open>
  Termination and errors of the binary deserializer. A view is well-behaved when no varint in it has
  a value of \<open>2 ^ 63\<close> or more, so that a length cannot move the iterator backwards, and the bytes
  behind it do not continue a varint, as for a terminated byte array. On such views every field
  consumes a byte, and a fuel beyond the size of the view is enough. On other views the loop over
  unknown fields may never end.
\<close>

subsection \<open>Running\<close>

lemma run_bind_eq_Ret: "run_bind r f = Ret y \<longleftrightarrow> (\<exists>x. r = Ret x \<and> f x = Ret y)"
  by (cases r) simp_all

lemma run_bind_eq_Stuck: "run_bind r f = Stuck \<longleftrightarrow> r = Stuck \<or> (\<exists>x. r = Ret x \<and> f x = Stuck)"
  by (cases r) simp_all

lemma run_bind_not_Stuck:
  "r \<noteq> Stuck \<Longrightarrow> (\<And>x. r = Ret x \<Longrightarrow> f x \<noteq> Stuck) \<Longrightarrow> run_bind r f \<noteq> Stuck"
  by (cases r) simp_all

subsection \<open>Progress\<close>

definition well_behaved :: "platform \<Rightarrow> byte list \<Rightarrow> bool" where
  "well_behaved p bs \<longleftrightarrow>
     (\<forall>i len it. (deserializeVarintCommon p \<lparr>it_view = bs, it_pos = i\<rparr> :: 64 word outcome) = Got len it \<longrightarrow>
        uint len < 2 ^ 63) \<and>
     (\<forall>i. int (length bs) \<le> i \<longrightarrow> oob_byte p i AND 0x80 = 0)"

text \<open>Forward: the same view, and no more bytes than before unless the iterator became invalid.\<close>

definition forward :: "selfcheck_it \<Rightarrow> selfcheck_it \<Rightarrow> bool" where
  "forward it it' \<longleftrightarrow> it_view it' = it_view it \<and> bytesLeft it' \<le> bytesLeft it"

lemma forward_refl [simp]: "forward it it"
  by (simp add: forward_def)

lemma forward_trans: "forward a b \<Longrightarrow> forward b c \<Longrightarrow> forward a c"
  by (auto simp: forward_def)

lemma forward_add: "0 \<le> n \<Longrightarrow> forward it (it_add it n)"
  by (auto simp: forward_def it_add_def bytesLeft_def isValid_def container_end_def)

lemma forward_inc: "forward it (it_inc it)"
  by (auto simp: forward_def it_inc_def bytesLeft_def isValid_def container_end_def)

lemma advances_forward: "advances it (Got v it') \<Longrightarrow> forward it it'"
  by (simp add: advances_def forward_def)

lemma varint_loop_Nullopt: "varint_loop p it v k = Nullopt it' \<Longrightarrow> forward it it'"
proof (induction p it v k rule: varint_loop.induct)
  case (1 p it v k)
  show ?case
  proof (cases "bytesLeft it = 0 \<or> 64 \<le> k \<or> it_deref p it AND 128 = 0")
    case True
    with 1(2) show ?thesis
      by (subst (asm) varint_loop.simps) (auto simp: Let_def split: if_splits)
  next
    case False
    with 1(2) have "varint_loop p (it_inc it) (v + push_bit k (ucast (it_deref p it AND 127))) (k + 7) =
        Nullopt it'"
      by (subst (asm) varint_loop.simps) (simp add: Let_def)
    with 1(1) False have "forward (it_inc it) it'" by simp
    with forward_inc show ?thesis by (rule forward_trans)
  qed
qed

lemma varint_Nullopt:
  "(deserializeVarintCommon p it :: 'a::len word outcome) = Nullopt it' \<Longrightarrow> forward it it'"
  by (cases "varint_loop p it 0 0") (auto simp: deserializeVarintCommon_def dest: varint_loop_Nullopt)

lemma varint_Got:
  "(deserializeVarintCommon p it :: 'a::len word outcome) = Got v it' \<Longrightarrow>
   it_view it' = it_view it \<and> isValid it' \<and> bytesLeft it' < bytesLeft it"
  using deserializeVarintCommon_advances [of it p, where ?'a = 'a] by (simp add: advances_def)

lemma skipVarint_forward: "skipVarint p it = Ret it' \<Longrightarrow> forward it it'"
proof (induction p it rule: skipVarint.induct)
  case (1 p it)
  show ?case
  proof (cases "it_deref p it AND 0x80 = 0")
    case True
    with 1(2) show ?thesis by (subst (asm) skipVarint.simps) (auto simp: forward_inc)
  next
    case False
    with 1(2) have v: "isValid it" and "skipVarint p (it_inc it) = Ret it'"
      by (subst (asm) skipVarint.simps; simp split: if_splits)+
    with 1(1) False have "forward (it_inc it) it'" by blast
    with forward_inc show ?thesis by (rule forward_trans)
  qed
qed

lemma skipVarint_not_Stuck:
  assumes "\<forall>i. int (length (it_view it)) \<le> i \<longrightarrow> oob_byte p i AND 0x80 = 0" and "isValid it"
  shows "skipVarint p it \<noteq> Stuck"
  using assms
proof (induction p it rule: skipVarint.induct)
  case (1 p it)
  show ?case
  proof (cases "it_deref p it AND 0x80 = 0")
    case True
    then show ?thesis by (subst skipVarint.simps) simp
  next
    case False
    have "it_pos it < container_end it"
    proof (rule ccontr)
      assume "\<not> it_pos it < container_end it"
      with 1(2,3) have "it_deref p it AND 0x80 = 0"
        by (auto simp: it_deref_def container_end_def isValid_def)
      with False show False by simp
    qed
    with 1(3) have "isValid (it_inc it)"
      by (auto simp: isValid_def it_inc_def container_end_def)
    with 1 False have "skipVarint p (it_inc it) \<noteq> Stuck" by simp
    with False 1(3) show ?thesis by (subst skipVarint.simps) simp
  qed
qed

lemma skip_bytes_forward:
  assumes "skip_bytes p wt it = Ret it'" and "well_behaved p (it_view it)"
  shows "forward it it'"
proof -
  have ld: "skipLengthDelimited p it = Ret it' \<Longrightarrow> forward it it'"
  proof (cases "deserializeVarintCommon p it :: 64 word outcome")
    case (Got len it1)
    assume "skipLengthDelimited p it = Ret it'"
    with Got have it': "it' = it_add it1 (sint len)" by (simp add: skipLengthDelimited_def)
    from Got assms(2) have "uint len < 2 ^ 63"
      unfolding well_behaved_def by (metis selfcheck_it.surjective old.unit.exhaust)
    then have "0 \<le> sint len" by (simp add: sint_uint signed_take_bit_eq_if_positive bit_uint_iff
        not_less bit_iff_odd div_eq_0_iff)
    with it' have "forward it1 it'" by (simp add: forward_add)
    moreover from varint_Got [OF Got] have "forward it it1" by (simp add: forward_def)
    ultimately show "forward it it'" by (blast intro: forward_trans)
  next
    case (Nullopt it1)
    assume "skipLengthDelimited p it = Ret it'"
    with Nullopt have "it' = it_add it1 (bytesLeft it1 + 1)" by (simp add: skipLengthDelimited_def)
    then have "forward it1 it'" by (simp add: forward_add)
    with varint_Nullopt [OF Nullopt] show "forward it it'" by (rule forward_trans)
  qed (simp add: skipLengthDelimited_def)
  from assms(1) show ?thesis
    by (auto simp: skip_bytes_def forward_add dest: skipVarint_forward ld split: if_splits)
qed

lemma skip_bytes_not_Stuck:
  assumes "well_behaved p (it_view it)" and "isValid it"
  shows "skip_bytes p wt it \<noteq> Stuck"
proof -
  have "skipVarint p it \<noteq> Stuck"
    using assms by (intro skipVarint_not_Stuck) (auto simp: well_behaved_def)
  then show ?thesis
    by (auto simp: skip_bytes_def skipLengthDelimited_def split: outcome.splits)
qed


text \<open>The parts of the deserializer state that progress talks about.\<close>

definition d_forward :: "deserializer \<Rightarrow> deserializer \<Rightarrow> bool" where
  "d_forward d d' \<longleftrightarrow> forward (d_it d) (d_it d')"

lemma d_forward_trans: "d_forward a b \<Longrightarrow> d_forward b c \<Longrightarrow> d_forward a c"
  by (auto simp: d_forward_def intro: forward_trans)

lemma d_forward_same [simp]: "d_it d' = d_it d \<Longrightarrow> d_forward d d'"
  by (simp add: d_forward_def)

lemma decodeHeader_progress:
  "decodeHeader p it wt = Ret (ok, it', number, wt') \<Longrightarrow>
   forward it it' \<and> (ok \<longrightarrow> bytesLeft it' < bytesLeft it \<and> isValid it')"
  by (auto simp: decodeHeader_def Let_def forward_def split: outcome.splits if_splits
      dest: varint_Got varint_Nullopt [unfolded forward_def])

lemma decodeHeader_not_Stuck: "decodeHeader p it wt \<noteq> Stuck"
  by (auto simp: decodeHeader_def Let_def split: outcome.splits)

lemma skipField_progress:
  assumes "skipField p fb d = Ret (len, d')" and "well_behaved p (it_view (d_it d))"
  shows "d_forward d d'"
  using assms(1) skip_bytes_forward [OF _ assms(2)]
  by (auto simp: skipField_def run_bind_eq_Ret Let_def d_forward_def setUnexpectedEndOfStreamError_def
      setError_def split: if_splits)

lemma skipField_not_Stuck:
  assumes "well_behaved p (it_view (d_it d))" and "isValid (d_it d)"
  shows "skipField p fb d \<noteq> Stuck"
  using skip_bytes_not_Stuck [OF assms]
  by (auto simp: skipField_def Let_def run_bind_eq_Stuck)

lemma enter_field_progress:
  "enter_field p flags d = Ret (ok, d') \<Longrightarrow> d_forward d d'"
  by (auto simp: enter_field_def Let_def d_forward_def forward_def setUnexpectedEndOfStreamError_def
      setError_def split: if_splits outcome.splits
      dest: varint_Got varint_Nullopt [unfolded forward_def])

lemma enter_field_not_Stuck: "enter_field p flags d \<noteq> Stuck"
  by (auto simp: enter_field_def Let_def split: outcome.splits)

lemma nextFieldIndex_progress:
  assumes "nextFieldIndex n sc p m d = Ret (index, m', d')" and "well_behaved p (it_view (d_it d))"
  shows "d_forward d d' \<and> (0 \<le> index \<longrightarrow> bytesLeft (d_it d') < bytesLeft (d_it d))"
  using assms
proof (induction n arbitrary: m d)
  case (Suc n)
  show ?case
  proof (cases "isValid (d_it d) \<and> \<not> it_eq_ptr (d_it d) (last (d_state d))")
    case False
    with Suc.prems(1) show ?thesis
      by (auto simp: setUnexpectedEndOfStreamError_def setError_def Let_def d_forward_def)
  next
    case True
    with Suc.prems(1) obtain ok it number wt where
      h: "decodeHeader p (d_it d) (d_wireType d) = Ret (ok, it, number, wt)"
      by (auto simp: run_bind_eq_Ret)
    let ?d1 = "d\<lparr>d_it := it, d_wireType := wt\<rparr>"
    from decodeHeader_progress [OF h] have f1: "forward (d_it d) it"
      and less: "ok \<Longrightarrow> bytesLeft it < bytesLeft (d_it d)" by auto
    show ?thesis
    proof (cases ok)
      case False
      with True Suc.prems(1) h f1 show ?thesis
        by (auto simp: setError_def d_forward_def Let_def)
    next
      case ok: True
      let ?index = "indexOfFieldNumber (propertyOrdering sc m) number"
      from f1 Suc.prems(2) have wb: "well_behaved p (it_view it)" by (simp add: forward_def)
      show ?thesis
      proof (cases "?index = -1")
        case True
        with \<open>isValid _ \<and> _\<close> ok h Suc.prems(1) obtain len d2 where
          s: "skipField p (d_it d) ?d1 = Ret (len, d2)" and
          r: "(if len < 0 then Ret (-1, m, d2)
               else if 0 < len \<and> d_preserve d2
               then nextFieldIndex n sc p (storeUnknownEntry m (it_read p (d_it d) (nat len)) number) d2
               else nextFieldIndex n sc p m d2) = Ret (index, m', d')"
          by (auto simp: run_bind_eq_Ret Let_def)
        from skipField_progress [OF s] wb have f2: "forward it (d_it d2)" by (simp add: d_forward_def)
        with wb have wb2: "well_behaved p (it_view (d_it d2))" by (simp add: forward_def)
        have "d_forward d2 d' \<and> (0 \<le> index \<longrightarrow> bytesLeft (d_it d') < bytesLeft (d_it d2))"
          using r Suc.IH [OF _ wb2] by (auto split: if_splits simp: d_forward_def)
        with f1 f2 less [OF ok] show ?thesis
          unfolding d_forward_def forward_def by force
      next
        case False
        with \<open>isValid _ \<and> _\<close> ok h Suc.prems(1) obtain ok' where
          e: "enter_field p (fieldFlags (propertyOrdering sc m) ?index) ?d1 = Ret (ok', d')"
          by (auto simp: run_bind_eq_Ret Let_def)
        from enter_field_progress [OF e] f1 less [OF ok] show ?thesis
          unfolding d_forward_def forward_def by force
      qed
    qed
  qed
qed simp

lemma nextFieldIndex_not_Stuck:
  assumes "nat (bytesLeft (d_it d)) < n" and "well_behaved p (it_view (d_it d))"
  shows "nextFieldIndex n sc p m d \<noteq> Stuck"
  using assms
proof (induction n arbitrary: m d)
  case (Suc n)
  have "run_bind (decodeHeader p (d_it d) (d_wireType d)) (\<lambda>(ok, it, number, wt).
          let d1 = d\<lparr>d_it := it, d_wireType := wt\<rparr>
          in if \<not> ok then Ret (-1, m, setError InvalidHeader d1)
             else
               let index = indexOfFieldNumber (propertyOrdering sc m) number
               in if index = -1 then
                    run_bind (skipField p (d_it d) d1) (\<lambda>(len, d2).
                      if len < 0 then Ret (-1, m, d2)
                      else if 0 < len \<and> d_preserve d2
                      then nextFieldIndex n sc p (storeUnknownEntry m (it_read p (d_it d) (nat len)) number) d2
                      else nextFieldIndex n sc p m d2)
                  else
                    run_bind (enter_field p (fieldFlags (propertyOrdering sc m) index) d1) (\<lambda>(ok', d2).
                      Ret (if ok' then index else -1, m, d2))) \<noteq> Stuck" (is "run_bind ?h ?k \<noteq> Stuck")
  proof (rule run_bind_not_Stuck)
    fix x assume x: "?h = Ret x"
    obtain ok it number wt where x4: "x = (ok, it, number, wt)" by (cases x)
    let ?d1 = "d\<lparr>d_it := it, d_wireType := wt\<rparr>"
    from decodeHeader_progress [OF x [unfolded x4]] have f: "forward (d_it d) it"
      and ok: "ok \<longrightarrow> bytesLeft it < bytesLeft (d_it d) \<and> isValid it" by auto
    from f Suc.prems(2) have wb: "well_behaved p (it_view it)" by (simp add: forward_def)
    have "run_bind (skipField p (d_it d) ?d1) (\<lambda>(len, d2).
        if len < 0 then Ret (-1, m, d2)
        else if 0 < len \<and> d_preserve d2
        then nextFieldIndex n sc p (storeUnknownEntry m (it_read p (d_it d) (nat len)) number) d2
        else nextFieldIndex n sc p m d2) \<noteq> Stuck" if ok
    proof (rule run_bind_not_Stuck)
      show "skipField p (d_it d) ?d1 \<noteq> Stuck"
        using wb ok that by (intro skipField_not_Stuck) simp_all
      fix y assume y: "skipField p (d_it d) ?d1 = Ret y"
      obtain len d2 where y2: "y = (len, d2)" by (cases y)
      from skipField_progress [OF y [unfolded y2]] wb
      have f2: "forward it (d_it d2)" by (simp add: d_forward_def)
      with wb have wb2: "well_behaved p (it_view (d_it d2))" by (simp add: forward_def)
      have "nat (bytesLeft (d_it d2)) < n"
        using f2 ok that Suc.prems(1) bytesLeft_nonneg [of it] bytesLeft_nonneg [of "d_it d2"]
        unfolding forward_def by linarith
      with Suc.IH wb2 show "(case y of (len, d2) \<Rightarrow>
        if len < 0 then Ret (-1, m, d2)
        else if 0 < len \<and> d_preserve d2
        then nextFieldIndex n sc p (storeUnknownEntry m (it_read p (d_it d) (nat len)) number) d2
        else nextFieldIndex n sc p m d2) \<noteq> Stuck"
        by (simp add: y2)
    qed
    then show "?k x \<noteq> Stuck"
      by (auto simp: x4 Let_def run_bind_eq_Stuck [of "enter_field _ _ _"] enter_field_not_Stuck)
  qed (rule decodeHeader_not_Stuck)
  then show ?case by (simp add: Let_def)
qed simp


subsection \<open>Messages\<close>

definition reader_forward :: "platform \<Rightarrow> message_reader \<Rightarrow> bool" where
  "reader_forward p deser \<longleftrightarrow>
     (\<forall>c d c' d'. well_behaved p (it_view (d_it d)) \<longrightarrow> deser c d = Ret (True, c', d') \<longrightarrow> d_forward d d')"

lemma clearCachedValue_it [simp]: "d_it (clearCachedValue d) = d_it d"
  by (simp add: clearCachedValue_def)

lemma deserializeMessageField_forward:
  assumes "reader_forward p deser" and "well_behaved p (it_view (d_it d))"
    and "deserializeMessageField deser c d = Ret (True, c', d')"
  shows "d_forward d d'"
proof -
  from assms(3) obtain d1 where "deser c (clearCachedValue d) = Ret (True, c', d1)" and "d_it d' = d_it d1"
    by (auto simp: deserializeMessageField_def run_bind_eq_Ret)
  with assms(1,2) have "d_forward (clearCachedValue d) d1"
    unfolding reader_forward_def by (metis clearCachedValue_it)
  with \<open>d_it d' = d_it d1\<close> show ?thesis by (simp add: d_forward_def)
qed

lemma handler_deserializer_Got:
  "handler_deserializer p h it v = Got v' it' \<Longrightarrow> forward it it' \<and> v' \<noteq> Invalid"
  using deserializeBasic_advances [of it p "h_scalar h"] deserializeList_advances [of it p "h_scalar h"]
    deserializeNonPackedList_advances [of it p "h_scalar h" "case v of Scalars t vs \<Rightarrow> vs | _ \<Rightarrow> []"]
  by (cases "deserializeBasic p (h_scalar h) it"; cases "deserializeList p (h_scalar h) it";
      cases "deserializeNonPackedList p (h_scalar h) it (case v of Scalars t vs \<Rightarrow> vs | _ \<Rightarrow> [])")
     (auto simp: handler_deserializer_def advances_def forward_def split: list_format.splits)

lemma deserializeScalarField_forward:
  assumes "deserializeScalarField p fi d = Ret (True, d')" and "d_cachedValue d' \<noteq> Invalid"
  shows "d_forward d d'"
  using assms
  by (auto simp: deserializeScalarField_def Let_def setError_def setUnexpectedEndOfStreamError_def
      d_forward_def dest: handler_deserializer_Got split: option.splits if_splits outcome.splits)

lemma deserializeEnum_forward: "deserializeEnum p fi d = Ret (True, d') \<Longrightarrow> d_forward d d'"
  using deserializeBasic_advances [of "d_it d" p T_int64] deserializeList_advances [of "d_it d" p T_int64]
    deserializeNonPackedList_advances [of "d_it d" p T_int64
      "case d_cachedValue d of Enums es \<Rightarrow> map enum_int64 es | _ \<Rightarrow> []"]
  by (auto simp: deserializeEnum_def Let_def d_forward_def forward_def advances_def
      split: option.splits if_splits outcome.splits)

text \<open>A field that holds no message pointer is a repeated message, an enumeration or a scalar.\<close>

lemma deserialize_field_other:
  assumes "\<nexists>t. d_cachedValue d = Ptr t"
  shows "deserialize_field deser sc p i m d =
     (if is_repeated_message (fi_flags (mk_field_info sc m i)) \<and> repeated_messages (d_cachedValue d) \<noteq> None then
       (case addNext sc (d_cachedValue d) of
          (element, value1) \<Rightarrow>
            run_bind (deserializeMessageField deser element (d\<lparr>d_cachedValue := value1\<rparr>))
              (\<lambda>(ok, element', d').
                 let d1 = d'\<lparr>d_cachedValue := fill_element element' (d_cachedValue d')\<rparr>
                 in if \<not> ok then Ret (Finish False m d1)
                    else Ret (Continue m
                      (d1\<lparr>d_cachedValue := push_element sc element' (d_cachedValue d1)\<rparr>))))
     else if testFlag (fi_flags (mk_field_info sc m i)) EnumFlag then
       run_bind (deserializeEnum p (mk_field_info sc m i) d) (\<lambda>(ok, d').
         Ret (if ok then Continue m d' else Finish False m (setError UnknownType d')))
     else
       run_bind (deserializeScalarField p (mk_field_info sc m i) d) (\<lambda>(ok, d').
         if ok then Ret (if d_cachedValue d' = Invalid then Finish False m d' else Continue m d')
         else Ret (Finish False m (setError UnknownType d'))))"
  using assms by (cases "d_cachedValue d") (simp_all add: deserialize_field_def Let_def)

lemma deserialize_field_ptr:
  assumes "d_cachedValue d = Ptr t"
  shows "deserialize_field deser sc p i m d =
     (case field_pointee sc m (mk_field_info sc m i) of
        None \<Rightarrow> Undef
      | Some child \<Rightarrow>
          run_bind (deserializeMessageField deser child d) (\<lambda>(ok, child', d').
            let m' = set_field_pointee sc (mk_field_info sc m i) child' m
            in Ret (if ok then Continue m' d' else Finish False m' d')))"
  using assms by (simp add: deserialize_field_def Let_def)

lemma deserialize_field_Continue:
  assumes "reader_forward p deser" and "well_behaved p (it_view (d_it d))"
    and "deserialize_field deser sc p i m d = Ret (Continue m' d')"
  shows "d_forward d d'"
proof (cases "\<exists>t. d_cachedValue d = Ptr t")
  case True
  with assms(3) obtain child child' where "deserializeMessageField deser child d = Ret (True, child', d')"
    by (auto simp: deserialize_field_def Let_def run_bind_eq_Ret split: option.splits if_splits)
  with assms(1,2) show ?thesis by (rule deserializeMessageField_forward)
next
  case no_ptr: False
  let ?fi = "mk_field_info sc m i" and ?v = "d_cachedValue d"
  note eq = deserialize_field_other [OF no_ptr]
  show ?thesis
  proof (cases "is_repeated_message (fi_flags ?fi) \<and> repeated_messages ?v \<noteq> None")
    case True
    obtain el v1 where add: "addNext sc ?v = (el, v1)" by (cases "addNext sc ?v")
    with True assms(3) obtain el' d1 where
      "deserializeMessageField deser el (d\<lparr>d_cachedValue := v1\<rparr>) = Ret (True, el', d1)"
      and it: "d_it d' = d_it d1"
      unfolding eq by (auto simp: run_bind_eq_Ret Let_def split: if_splits)
    with deserializeMessageField_forward [OF assms(1), of "d\<lparr>d_cachedValue := v1\<rparr>"] assms(2)
    show ?thesis by (simp add: d_forward_def)
  next
    case False
    with assms(3) show ?thesis
      unfolding eq
      by (auto simp: run_bind_eq_Ret split: if_splits
          intro: deserializeEnum_forward deserializeScalarField_forward)
  qed
qed

lemma cache_field_it: "cache_field sc i m d = (ok, m', d') \<Longrightarrow> d_it d' = d_it d"
  by (auto simp: cache_field_def storeCachedValue_def clearCachedValue_def setError_def
      split: if_splits prod.splits)

lemma finish_message_it: "finish_message sc seen m d = (ok, m', d') \<Longrightarrow> d_it d' = d_it d"
  by (auto simp: finish_message_def storeCachedValue_def clearCachedValue_def setError_def
      checkRequiredFields_def split: if_splits prod.splits)

lemma message_loop_forward:
  "well_behaved p (it_view (d_it d)) \<Longrightarrow> message_loop n sc p seen m d = Ret (True, m', d') \<Longrightarrow>
   d_forward d d'"
proof (induction n arbitrary: seen m d m' d')
  case (Suc n)
  let ?deser = "\<lambda>c. message_loop n sc p (new_seen (fieldCount (propertyOrdering sc c))) c"
  have rf: "reader_forward p ?deser" using Suc.IH by (auto simp: reader_forward_def)
  from Suc.prems(2) obtain index m1 d1 where
    next1: "nextFieldIndex n sc p m d = Ret (index, m1, d1)" by (auto simp: run_bind_eq_Ret)
  from nextFieldIndex_progress [OF this Suc.prems(1)] have f1: "d_forward d d1" by simp
  with Suc.prems(1) have wb1: "well_behaved p (it_view (d_it d1))"
    by (simp add: d_forward_def forward_def)
  show ?case
  proof (cases "index < 0")
    case True
    with next1 Suc.prems(2) have "finish_message sc seen m1 d1 = (True, m', d')" by simp
    with f1 show ?thesis by (auto dest: finish_message_it simp: d_forward_def)
  next
    case False
    obtain ok m2 d2 where c: "cache_field sc index m1 d1 = (ok, m2, d2)"
      by (cases "cache_field sc index m1 d1")
    from cache_field_it [OF c] have it2: "d_it d2 = d_it d1" .
    from False next1 c Suc.prems(2) obtain s where
      ok: ok and s: "deserialize_field ?deser sc p index m2 d2 = Ret s"
      and k: "(case s of Continue m3 d3 \<Rightarrow> message_loop n sc p
                 (if d_enforceRequired d1 then mark_seen (nat index) seen else seen) m3 d3
               | Finish r m3 d3 \<Rightarrow> Ret (r, m3, d3)) = Ret (True, m', d')"
      by (auto simp: run_bind_eq_Ret Let_def split: if_splits)
    show ?thesis
    proof (cases s)
      case (Continue m3 d3)
      from deserialize_field_Continue [OF rf _ s [unfolded Continue]] wb1 it2
      have f3: "d_forward d2 d3" by simp
      with wb1 it2 have "well_behaved p (it_view (d_it d3))" by (simp add: d_forward_def forward_def)
      from Suc.IH [OF this] k Continue have "d_forward d3 d'" by simp
      with f3 f1 it2 show ?thesis unfolding d_forward_def forward_def by simp
    next
      case (Finish r m3 d3)
      with k have "s = Finish True m' d'" by simp
      with s obtain child where "deserialize_field ?deser sc p index m2 d2 = Ret (Finish True m' d')" by simp
      then have False
        by (auto simp: deserialize_field_def Let_def run_bind_eq_Ret split: variant.splits option.splits if_splits)
      then show ?thesis ..
    qed
  qed
qed simp


definition reader_runs :: "platform \<Rightarrow> int \<Rightarrow> message_reader \<Rightarrow> bool" where
  "reader_runs p b deser \<longleftrightarrow>
     (\<forall>c d. well_behaved p (it_view (d_it d)) \<longrightarrow> bytesLeft (d_it d) \<le> b \<longrightarrow> deser c d \<noteq> Stuck)"

lemma deserializeMessageField_runs:
  "reader_runs p b deser \<Longrightarrow> well_behaved p (it_view (d_it d)) \<Longrightarrow> bytesLeft (d_it d) \<le> b \<Longrightarrow>
   deserializeMessageField deser c d \<noteq> Stuck"
  unfolding deserializeMessageField_def reader_runs_def
  by (metis (mono_tags, lifting) clearCachedValue_it run.distinct(3) run_bind_eq_Stuck split_beta)

lemma deserializeEnum_not_Stuck: "deserializeEnum p fi d \<noteq> Stuck"
  by (auto simp: deserializeEnum_def Let_def split: outcome.splits)

lemma deserializeScalarField_not_Stuck: "deserializeScalarField p fi d \<noteq> Stuck"
  by (auto simp: deserializeScalarField_def Let_def split: outcome.splits option.splits)

lemma deserialize_field_runs:
  assumes "reader_runs p b deser" and "well_behaved p (it_view (d_it d))" and "bytesLeft (d_it d) \<le> b"
  shows "deserialize_field deser sc p i m d \<noteq> Stuck"
proof -
  have r: "deserializeMessageField deser c (d\<lparr>d_cachedValue := v\<rparr>) \<noteq> Stuck" for c v
    using assms(2,3) by (intro deserializeMessageField_runs [OF assms(1)]) simp_all
  from r [of _ "d_cachedValue d"] r show ?thesis
    by (auto simp: deserialize_field_def Let_def run_bind_eq_Stuck deserializeEnum_not_Stuck
        deserializeScalarField_not_Stuck split: variant.splits option.splits prod.splits)
qed

lemma message_loop_runs:
  "well_behaved p (it_view (d_it d)) \<Longrightarrow> nat (bytesLeft (d_it d)) + 1 < n \<Longrightarrow>
   message_loop n sc p seen m d \<noteq> Stuck"
proof (induction n arbitrary: seen m d)
  case (Suc n)
  let ?deser = "\<lambda>c. message_loop n sc p (new_seen (fieldCount (propertyOrdering sc c))) c"
  have rf: "reader_forward p ?deser" using message_loop_forward by (auto simp: reader_forward_def)
  have less: "nat (bytesLeft (d_it d)) < n" using Suc.prems(2) by simp
  show ?case
  proof (simp only: message_loop.simps, rule run_bind_not_Stuck)
    show "nextFieldIndex n sc p m d \<noteq> Stuck" by (rule nextFieldIndex_not_Stuck [OF less Suc.prems(1)])
    fix x assume x: "nextFieldIndex n sc p m d = Ret x"
    obtain index m1 d1 where x3: "x = (index, m1, d1)" by (cases x)
    from nextFieldIndex_progress [OF x [unfolded x3] Suc.prems(1)] have f1: "d_forward d d1"
      and dec: "0 \<le> index \<Longrightarrow> bytesLeft (d_it d1) < bytesLeft (d_it d)" by auto
    with Suc.prems(1) have wb1: "well_behaved p (it_view (d_it d1))"
      by (simp add: d_forward_def forward_def)
    obtain ok m2 d2 where c: "cache_field sc index m1 d1 = (ok, m2, d2)"
      by (cases "cache_field sc index m1 d1")
    from cache_field_it [OF c] have it2: "d_it d2 = d_it d1" .
    let ?seen = "if d_enforceRequired d1 then mark_seen (nat index) seen else seen"
    have "run_bind (deserialize_field ?deser sc p index m2 d2)
        (\<lambda>s. case s of
               Continue m3 d3 \<Rightarrow> message_loop n sc p ?seen m3 d3
             | Finish r m3 d3 \<Rightarrow> Ret (r, m3, d3)) \<noteq> Stuck" if pos: "\<not> index < 0"
    proof (rule run_bind_not_Stuck)
      let ?b = "bytesLeft (d_it d) - 1"
      have b: "bytesLeft (d_it d2) \<le> ?b" using dec pos it2 by simp
      have IH: "message_loop n sc p seen' c d' \<noteq> Stuck"
        if "well_behaved p (it_view (d_it d'))" and "bytesLeft (d_it d') \<le> ?b" for seen' c d'
      proof (rule Suc.IH [OF that(1)])
        show "nat (bytesLeft (d_it d')) + 1 < n"
          using that(2) Suc.prems(2) bytesLeft_nonneg [of "d_it d'"] by linarith
      qed
      then have "reader_runs p ?b ?deser" by (simp add: reader_runs_def)
      then show "deserialize_field ?deser sc p index m2 d2 \<noteq> Stuck"
        using wb1 it2 by (intro deserialize_field_runs [OF _ _ b]) simp_all
      fix s assume s: "deserialize_field ?deser sc p index m2 d2 = Ret s"
      show "(case s of
               Continue m3 d3 \<Rightarrow> message_loop n sc p ?seen m3 d3
             | Finish r m3 d3 \<Rightarrow> Ret (r, m3, d3)) \<noteq> Stuck"
      proof (cases s)
        case (Continue m3 d3)
        from deserialize_field_Continue [OF rf _ s [unfolded Continue]] wb1 it2
        have f3: "d_forward d2 d3" by simp
        with wb1 it2 have "well_behaved p (it_view (d_it d3))" by (simp add: d_forward_def forward_def)
        moreover from f3 b have "bytesLeft (d_it d3) \<le> ?b" by (simp add: d_forward_def forward_def)
        ultimately show ?thesis using IH Continue by simp
      qed simp
    qed
    then show "(case x of
        (index, m1, d1) \<Rightarrow>
          if index < 0 then Ret (finish_message sc seen m1 d1)
          else let seen1 = if d_enforceRequired d1 then mark_seen (nat index) seen else seen
            in case cache_field sc index m1 d1 of
              (ok, m2, d2) \<Rightarrow>
                if \<not> ok then Ret (False, m2, d2)
                else run_bind
                   (deserialize_field ?deser sc p index m2 d2)
                   (case_step (message_loop n sc p seen1) (\<lambda>r m3 d3. Ret (r, m3, d3)))) \<noteq> Stuck"
      by (simp add: x3 c Let_def)
  qed
qed simp

subsection \<open>The error is never cleared\<close>

lemma hasError_simps [simp]:
  "hasError (setError e d) \<longleftrightarrow> e \<noteq> NoError" "hasError (setUnexpectedEndOfStreamError d)"
  "hasError (clearCachedValue d) = hasError d"
  "hasError (d\<lparr>d_it := it\<rparr>) = hasError d" "hasError (d\<lparr>d_state := s\<rparr>) = hasError d"
  "hasError (d\<lparr>d_cachedValue := v\<rparr>) = hasError d" "hasError (d\<lparr>d_cachedIndex := i\<rparr>) = hasError d"
  "hasError (d\<lparr>d_wireType := w\<rparr>) = hasError d"
  by (simp_all add: hasError_def setError_def setUnexpectedEndOfStreamError_def clearCachedValue_def)

lemma skipField_error: "skipField p fb d = Ret (len, d') \<Longrightarrow> hasError d \<Longrightarrow> hasError d'"
  by (auto simp: skipField_def run_bind_eq_Ret Let_def split: if_splits)

lemma enter_field_error: "enter_field p flags d = Ret (ok, d') \<Longrightarrow> hasError d \<Longrightarrow> hasError d'"
  by (auto simp: enter_field_def Let_def split: if_splits outcome.splits)

lemma nextFieldIndex_SucE:
  assumes "nextFieldIndex (Suc n) sc p m d = Ret (index, m', d')"
  obtains
    (message_end) "\<not> (isValid (d_it d) \<and> \<not> it_eq_ptr (d_it d) (last (d_state d)))" and "index = -1" and "m' = m"
      and "d' = (if isValid (d_it d) then d else setUnexpectedEndOfStreamError d)\<lparr>d_state := butlast (d_state d)\<rparr>"
  | (bad_header) it number wt where "decodeHeader p (d_it d) (d_wireType d) = Ret (False, it, number, wt)"
      and "index = -1" and "m' = m" and "d' = setError InvalidHeader (d\<lparr>d_it := it, d_wireType := wt\<rparr>)"
  | (skipped) it number wt len m1 d2 where
      "decodeHeader p (d_it d) (d_wireType d) = Ret (True, it, number, wt)"
      and "indexOfFieldNumber (propertyOrdering sc m) number = -1"
      and "skipField p (d_it d) (d\<lparr>d_it := it, d_wireType := wt\<rparr>) = Ret (len, d2)"
      and "len < 0 \<and> index = -1 \<and> m' = m \<and> d' = d2 \<or> nextFieldIndex n sc p m1 d2 = Ret (index, m', d')"
  | (known) it number wt ok where
      "decodeHeader p (d_it d) (d_wireType d) = Ret (True, it, number, wt)"
      and "indexOfFieldNumber (propertyOrdering sc m) number \<noteq> -1" and "m' = m"
      and "enter_field p (fieldFlags (propertyOrdering sc m) (indexOfFieldNumber (propertyOrdering sc m) number))
             (d\<lparr>d_it := it, d_wireType := wt\<rparr>) = Ret (ok, d')"
      and "index = (if ok then indexOfFieldNumber (propertyOrdering sc m) number else -1)"
proof (cases "isValid (d_it d) \<and> \<not> it_eq_ptr (d_it d) (last (d_state d))")
  case False
  then show ?thesis
    using assms message_end by (auto simp: setUnexpectedEndOfStreamError_def setError_def Let_def)
next
  case inside: True
  with assms obtain ok it number wt where
    h: "decodeHeader p (d_it d) (d_wireType d) = Ret (ok, it, number, wt)"
    by (auto simp: run_bind_eq_Ret)
  show ?thesis
  proof (cases "ok \<and> indexOfFieldNumber (propertyOrdering sc m) number = -1")
    case True
    with inside h assms obtain len d2 where
      "skipField p (d_it d) (d\<lparr>d_it := it, d_wireType := wt\<rparr>) = Ret (len, d2)" and
      "(if len < 0 then Ret (-1, m, d2)
        else if 0 < len \<and> d_preserve d2
        then nextFieldIndex n sc p (storeUnknownEntry m (it_read p (d_it d) (nat len)) number) d2
        else nextFieldIndex n sc p m d2) = Ret (index, m', d')"
      by (auto simp: run_bind_eq_Ret Let_def)
    with True h skipped show ?thesis by (auto split: if_splits)
  next
    case no_skip: False
    show ?thesis
    proof (cases ok)
      case True
      with inside h assms no_skip obtain ok2 where
        "enter_field p (fieldFlags (propertyOrdering sc m) (indexOfFieldNumber (propertyOrdering sc m) number))
             (d\<lparr>d_it := it, d_wireType := wt\<rparr>) = Ret (ok2, d')"
        "m' = m" "index = (if ok2 then indexOfFieldNumber (propertyOrdering sc m) number else -1)"
        by (auto simp: run_bind_eq_Ret Let_def)
      with h True no_skip show ?thesis by (intro known [of it number wt ok2]) simp_all
    next
      case False
      with inside h assms show ?thesis by (intro bad_header [of it number wt]) simp_all
    qed
  qed
qed

lemma nextFieldIndex_error:
  "nextFieldIndex n sc p m d = Ret (index, m', d') \<Longrightarrow> hasError d \<Longrightarrow> hasError d'"
proof (induction n arbitrary: m d)
  case (Suc n)
  from Suc.prems(1) show ?case
  proof (cases rule: nextFieldIndex_SucE)
    case message_end
    with Suc.prems(2) show ?thesis by simp
  next
    case (skipped it number wt len m1 d2)
    with skipField_error [OF skipped(3)] Suc.prems(2) Suc.IH [of m1 d2] show ?thesis by auto
  next
    case (known it number wt ok)
    with enter_field_error [OF known(4)] Suc.prems(2) show ?thesis by simp
  qed simp
qed simp

definition reader_keeps_error :: "message_reader \<Rightarrow> bool" where
  "reader_keeps_error deser \<longleftrightarrow>
     (\<forall>c d ok c' d'. deser c d = Ret (ok, c', d') \<longrightarrow> hasError d \<longrightarrow> hasError d')"

lemma deserializeMessageField_error:
  "reader_keeps_error deser \<Longrightarrow> deserializeMessageField deser c d = Ret (ok, c', d') \<Longrightarrow>
   hasError d \<Longrightarrow> hasError d'"
  by (auto simp: deserializeMessageField_def run_bind_eq_Ret reader_keeps_error_def split: prod.splits)

lemma deserializeScalarField_error:
  "deserializeScalarField p fi d = Ret (ok, d') \<Longrightarrow> hasError d \<Longrightarrow> hasError d'"
  by (auto simp: deserializeScalarField_def Let_def split: option.splits if_splits outcome.splits)

lemma deserializeEnum_error:
  "deserializeEnum p fi d = Ret (ok, d') \<Longrightarrow> hasError d \<Longrightarrow> hasError d'"
  by (auto simp: deserializeEnum_def Let_def split: if_splits outcome.splits)

fun step_state :: "step \<Rightarrow> deserializer" where
  "step_state (Continue m d) = d" | "step_state (Finish r m d) = d"

lemma deserialize_field_error:
  assumes "reader_keeps_error deser" and "deserialize_field deser sc p i m d = Ret s" and "hasError d"
  shows "hasError (step_state s)"
proof (cases "\<exists>t. d_cachedValue d = Ptr t")
  case True
  then obtain t where "d_cachedValue d = Ptr t" ..
  from assms(2) [unfolded deserialize_field_ptr [OF this]] assms(1,3) show ?thesis
    by (auto simp: run_bind_eq_Ret Let_def split: option.splits if_splits prod.splits
        dest: deserializeMessageField_error)
next
  case False
  let ?fi = "mk_field_info sc m i" and ?v = "d_cachedValue d"
  show ?thesis
  proof (cases "is_repeated_message (fi_flags ?fi) \<and> repeated_messages ?v \<noteq> None")
    case True
    obtain el v1 where add: "addNext sc ?v = (el, v1)" by (cases "addNext sc ?v")
    with True assms(2) [unfolded deserialize_field_other [OF False]] obtain ok el' d1 where
      "deserializeMessageField deser el (d\<lparr>d_cachedValue := v1\<rparr>) = Ret (ok, el', d1)"
      and "hasError (step_state s) = hasError d1"
      by (auto simp: run_bind_eq_Ret Let_def split: if_splits)
    with assms(1,3) show ?thesis by (auto dest: deserializeMessageField_error)
  next
    case no: False
    with assms(2) [unfolded deserialize_field_other [OF False]] assms(3) show ?thesis
      by (auto simp: run_bind_eq_Ret split: if_splits
          dest: deserializeScalarField_error deserializeEnum_error)
  qed
qed

lemma storeCachedValue_error: "storeCachedValue sc m d = (ok, m', d') \<Longrightarrow> hasError d' = hasError d"
  by (auto simp: storeCachedValue_def split: if_splits prod.splits)

lemma cache_field_error:
  assumes "cache_field sc i m d = (ok, m', d')" and "hasError d"
  shows "hasError d'"
proof -
  obtain ok1 m1 d1 where st: "storeCachedValue sc m d = (ok1, m1, d1)" by (cases "storeCachedValue sc m d")
  from storeCachedValue_error [OF st] assms(2) have "hasError d1" by simp
  with assms show ?thesis by (auto simp: cache_field_def st Let_def split: if_splits prod.splits)
qed

lemma finish_message_error:
  assumes "finish_message sc seen m d = (ok, m', d')" and "hasError d"
  shows "hasError d'"
proof -
  obtain ok1 m1 d1 where st: "storeCachedValue sc m d = (ok1, m1, d1)" by (cases "storeCachedValue sc m d")
  from storeCachedValue_error [OF st] assms(2) have "hasError d1" by simp
  with assms(1) show ?thesis by (auto simp: finish_message_def st checkRequiredFields_def split: if_splits)
qed

lemma message_loop_error:
  "message_loop n sc p seen m d = Ret (ok, m', d') \<Longrightarrow> hasError d \<Longrightarrow> hasError d'"
proof (induction n arbitrary: seen m d ok m' d')
  case (Suc n)
  let ?deser = "\<lambda>c. message_loop n sc p (new_seen (fieldCount (propertyOrdering sc c))) c"
  have keeps: "reader_keeps_error ?deser" using Suc.IH by (auto simp: reader_keeps_error_def)
  from Suc.prems(1) obtain index m1 d1 where
    next1: "nextFieldIndex n sc p m d = Ret (index, m1, d1)" by (auto simp: run_bind_eq_Ret)
  from nextFieldIndex_error [OF this Suc.prems(2)] have e1: "hasError d1" .
  show ?case
  proof (cases "index < 0")
    case True
    with next1 Suc.prems(1) e1 show ?thesis by (auto dest: finish_message_error)
  next
    case False
    obtain ok2 m2 d2 where c: "cache_field sc index m1 d1 = (ok2, m2, d2)"
      by (cases "cache_field sc index m1 d1")
    from cache_field_error [OF c e1] have e2: "hasError d2" .
    show ?thesis
    proof (cases ok2)
      case True
      with False next1 c Suc.prems(1) obtain s where
        s: "deserialize_field ?deser sc p index m2 d2 = Ret s"
        and k: "(case s of Continue m3 d3 \<Rightarrow> message_loop n sc p
                   (if d_enforceRequired d1 then mark_seen (nat index) seen else seen) m3 d3
                 | Finish r m3 d3 \<Rightarrow> Ret (r, m3, d3)) = Ret (ok, m', d')"
        by (auto simp: run_bind_eq_Ret Let_def split: if_splits)
      from deserialize_field_error [OF keeps s e2] k Suc.IH show ?thesis
        by (cases s) auto
    next
      case ok2: False
      with False next1 c Suc.prems(1) e2 show ?thesis by (simp add: Let_def)
    qed
  qed
qed simp


subsection \<open>Short views are well-behaved\<close>

lemma group_value_less:
  assumes "k + 7 \<le> 63" and "unat v < 2 ^ k"
  shows "unat (v + push_bit k (ucast ((c :: byte) AND 127)) :: 64 word) < 2 ^ (k + 7)"
proof -
  let ?g = "unat (ucast (c AND 127) :: 64 word)"
  have "unat (c AND 127) < 128" by (simp add: unat_and_127)
  then have g: "?g < 128" by (simp add: unsigned_ucast_eq take_bit_nat_eq_self)
  have "?g * 2 ^ k + unat v < 128 * 2 ^ k"
  proof -
    have "?g * 2 ^ k \<le> 127 * 2 ^ k" using g by (intro mult_right_mono) simp_all
    with assms(2) show ?thesis by linarith
  qed
  then have less: "?g * 2 ^ k + unat v < 2 ^ (k + 7)" by (simp add: power_add mult.commute)
  have "(2::nat) ^ (k + 7) \<le> 2 ^ 63" using assms(1) by (intro power_increasing) simp_all
  with less have "?g * 2 ^ k + unat v < 2 ^ 64" by simp
  moreover have "v + push_bit k (ucast (c AND 127)) = of_nat (?g * 2 ^ k + unat v)"
    by (simp add: push_bit_eq_mult)
  ultimately have "unat (v + push_bit k (ucast (c AND 127)) :: 64 word) = ?g * 2 ^ k + unat v"
    by (simp only: unsigned_of_nat) (simp add: take_bit_nat_eq_self)
  with less show ?thesis by simp
qed


lemma varint_loop_value:
  "varint_loop p it v k = Got r it' \<Longrightarrow> unat v < 2 ^ k \<Longrightarrow> k + 7 * nat (bytesLeft it) \<le> 63 \<Longrightarrow>
   unat r < 2 ^ 63"
proof (induction p it v k rule: varint_loop.induct)
  case (1 p it v k)
  let ?v = "v + push_bit k (ucast (it_deref p it AND 127))"
  from 1(2) have left: "bytesLeft it \<noteq> 0" and k64: "\<not> 64 \<le> k"
    by (subst (asm) varint_loop.simps; simp split: if_splits)+
  have k: "k + 7 \<le> 63" using 1(4) left bytesLeft_nonneg [of it] by linarith
  from group_value_less [OF k 1(3)] have v: "unat ?v < 2 ^ (k + 7)" .
  show ?case
  proof (cases "it_deref p it AND 128 = 0")
    case True
    with 1(2) left k64 have "r = ?v" by (subst (asm) varint_loop.simps) (simp add: Let_def)
    also have "unat ?v < 2 ^ 63"
      using v k by (rule less_le_trans [OF _ power_increasing]) simp_all
    finally show ?thesis .
  next
    case False
    with 1(2) left k64 have "varint_loop p (it_inc it) ?v (k + 7) = Got r it'"
      by (subst (asm) varint_loop.simps) (simp add: Let_def)
    moreover have "k + 7 + 7 * nat (bytesLeft (it_inc it)) \<le> 63"
      unfolding bytesLeft_inc [OF left] using 1(4) left bytesLeft_nonneg [of it] by linarith
    ultimately show ?thesis using 1(1) [OF left k64 refl refl refl False] v by simp
  qed
qed

lemma short_well_behaved:
  assumes "length bs \<le> 9" and "\<forall>i. int (length bs) \<le> i \<longrightarrow> oob_byte p i AND 0x80 = 0"
  shows "well_behaved p bs"
  unfolding well_behaved_def
proof (intro conjI allI impI)
  fix i len it
  assume "(deserializeVarintCommon p \<lparr>it_view = bs, it_pos = i\<rparr> :: 64 word outcome) = Got len it"
  then have "varint_loop p \<lparr>it_view = bs, it_pos = i\<rparr> 0 0 = Got len it"
    by (cases "varint_loop p \<lparr>it_view = bs, it_pos = i\<rparr> 0 0") (simp_all add: deserializeVarintCommon_def)
  moreover have "nat (bytesLeft \<lparr>it_view = bs, it_pos = i\<rparr>) \<le> 9"
    using assms(1) by (auto simp: bytesLeft_def isValid_def container_end_def)
  ultimately have "unat len < 2 ^ 63" by (intro varint_loop_value [where v = 0 and k = 0]) simp_all
  then have "int (unat len) < int (2 ^ 63)" by (simp only: of_nat_less_iff)
  then show "uint len < 2 ^ 63" unfolding uint_nat by simp
qed (use assms(2) in blast)

subsection \<open>A length that moves backwards\<close>

definition backwards_bytes :: "byte list" where
  "backwards_bytes = [0x7A, 0xF5, 0xFF, 0xFF, 0xFF, 0xFF, 0xFF, 0xFF, 0xFF, 0xFF, 0x01]"

lemma nextFieldIndex_backwards:
  assumes "indexOfFieldNumber (propertyOrdering sc m) 15 = -1"
    and "d_it d = fromView backwards_bytes" and "last (d_state d) = 11"
  shows "nextFieldIndex n sc p m d = Stuck"
  using assms
proof (induction n arbitrary: d)
  case (Suc n)
  let ?it = "\<lambda>i. \<lparr>it_view = backwards_bytes, it_pos = i\<rparr>"
  have header: "decodeHeader p (d_it d) (d_wireType d) = Ret (True, ?it 1, 15, 2)"
    by (simp add: Suc.prems decodeHeader_def deserializeVarintCommon_def varint_loop.simps Let_def
        fromView_def backwards_bytes_def bytesLeft_def isValid_def container_end_def it_deref_def it_inc_def)
  have "(deserializeVarintCommon p (?it 1) :: 64 word outcome) = Got (- 11) (?it 11)"
    by (simp add: deserializeVarintCommon_def varint_loop.simps backwards_bytes_def bytesLeft_def
        isValid_def container_end_def it_deref_def it_inc_def)
  then have "skipLengthDelimited p (?it 1) = Ret (?it 0)"
    by (simp add: skipLengthDelimited_def it_add_def isValid_def container_end_def backwards_bytes_def)
  then have "skipField p (d_it d) (d\<lparr>d_it := ?it 1, d_wireType := 2\<rparr>) = Ret (0, d\<lparr>d_it := ?it 0, d_wireType := 2\<rparr>)"
    by (simp add: Suc.prems skipField_def skip_bytes_def isValid_def container_end_def backwards_bytes_def
        it_diff_def fromView_def)
  with Suc header show ?case
    by (simp add: it_eq_ptr_def fromView_def isValid_def container_end_def)
qed simp


subsection \<open>The bit set of seen fields\<close>

lemma length_mark_seen [simp]: "length (mark_seen i seen) = length seen"
  by (simp add: mark_seen_def)

lemma and_power_2: "(w :: 64 word) AND 2 ^ n \<noteq> 0 \<longleftrightarrow> n < 64 \<and> bit w n"
proof
  assume "w AND 2 ^ n \<noteq> 0"
  then obtain j where "bit (w AND 2 ^ n) j" by (auto simp: bit_eq_iff)
  then show "n < 64 \<and> bit w n" by (auto simp: bit_and_iff bit_exp_iff possible_bit_def)
next
  assume "n < 64 \<and> bit w n"
  then have "bit (w AND 2 ^ n) n" by (simp add: bit_and_iff bit_exp_iff possible_bit_def)
  then show "w AND 2 ^ n \<noteq> 0" by fastforce
qed

lemma is_seen_bit: "is_seen i seen \<longleftrightarrow> bit (seen ! (i div 64)) (i mod 64)"
  by (simp add: is_seen_def and_power_2)

lemma is_seen_mark:
  assumes "j div 64 < length seen"
  shows "is_seen i (mark_seen j seen) \<longleftrightarrow> i = j \<or> is_seen i seen"
proof -
  have "i = j \<longleftrightarrow> i div 64 = j div 64 \<and> i mod 64 = j mod 64"
    by (metis div_mult_mod_eq)
  with assms show ?thesis
    by (auto simp: is_seen_bit mark_seen_def nth_list_update bit_or_iff bit_exp_iff possible_bit_def)
qed

lemma new_seen_length: "i < nat count \<Longrightarrow> i div 64 < length (new_seen count)"
proof -
  assume "i < nat count"
  then have "int i < count" by simp
  then have "int i div 64 < (count + 63) div 64" by linarith
  then show ?thesis by (simp add: new_seen_def zdiv_int nat_less_iff flip: of_nat_less_iff)
qed

lemma is_seen_new: "i < nat count \<Longrightarrow> \<not> is_seen i (new_seen count)"
  using new_seen_length [of i count] by (simp add: is_seen_bit new_seen_def)

lemma is_seen_fold:
  "\<forall>j \<in> set js. j div 64 < length seen \<Longrightarrow>
   is_seen i (fold mark_seen js seen) \<longleftrightarrow> i \<in> set js \<or> is_seen i seen"
  by (induction js arbitrary: seen) (auto simp: is_seen_mark)


subsection \<open>Properties\<close>

definition demo_schema :: schema where
  "demo_schema = [\<lparr>mc_ordering = demo_ordering, mc_props = [], mc_defaults = []\<rparr>]"

lemma demo_schema_ordering:
  "propertyOrdering demo_schema (QMessage 0 [] u) = demo_ordering" "fieldCount demo_ordering = 0"
  "indexOfFieldNumber demo_ordering n = -1" "default_message demo_schema 0 = QMessage 0 [] []"
  by (simp_all add: propertyOrdering_def demo_schema_def fieldCount_def demo_ordering_def
      indexOfFieldNumber_def default_message_def)

text \<open>C9: On every well-behaved view the deserializer comes to an end: a fuel of the size of the view
  and two more units is enough, whatever the schema and the bytes.\<close>

theorem deserialize_terminates:
  assumes "well_behaved p bs" and "length bs + 1 < fuel"
  shows "deserialize fuel env sc p m bs s \<noteq> Stuck"
proof -
  have "deserializeMessage fuel sc p c (deser_reset bs d) \<noteq> Stuck" for c d
    unfolding deserializeMessage_def
    using assms by (intro message_loop_runs)
      (simp_all add: deser_reset_def fromView_def bytesLeft_def isValid_def container_end_def)
  then show ?thesis
    by (auto simp: deserialize_def qprotobuf_deserializeMessage_def Let_def run_bind_eq_Stuck)
qed

theorem deserialize_terminates_witness:
  "deserialize 13 Env_unset demo_schema latin1_platform (QMessage 0 [] []) [0x7A, 0x03, 1, 2, 3, 0x08, 0x96, 0x01] new_serializer \<noteq> Stuck"
  by (rule deserialize_terminates) (auto intro!: short_well_behaved simp: latin1_platform_def)

text \<open>C10: The eleven bytes \<open>7A F5 FF FF FF FF FF FF FF FF 01\<close>, an unknown field of which the length
  is \<open>2 ^ 64 - 11\<close>, move the iterator back to the begin of the field: the deserializer never
  returns, with any fuel, for every class that has no field 15.\<close>

theorem backwards_length_never_ends:
  assumes "indexOfFieldNumber (mc_ordering (sc ! t)) 15 = -1"
    and "11 \<le> unat (effectiveMaximumInputSize env (s\<lparr>lastError := NoError\<rparr>))"
  shows "deserialize fuel env sc p (QMessage t ms us) backwards_bytes s = Stuck"
proof -
  let ?d = "deser_reset backwards_bytes (new_deserializer (s\<lparr>lastError := NoError\<rparr>))"
  let ?c = "default_message sc t"
  have next1: "nextFieldIndex n sc p ?c ?d = Stuck" for n
    using assms(1) by (intro nextFieldIndex_backwards)
      (simp_all add: propertyOrdering_def default_message_def deser_reset_def backwards_bytes_def clearCachedValue_def)
  have "deserializeMessage fuel sc p ?c ?d = Stuck"
    by (cases fuel) (simp_all add: deserializeMessage_def next1)
  moreover have "\<not> unat (effectiveMaximumInputSize env (s\<lparr>lastError := NoError\<rparr>)) < length backwards_bytes"
    using assms(2) by (simp add: backwards_bytes_def)
  ultimately show ?thesis
    by (simp add: deserialize_def qprotobuf_deserializeMessage_def Let_def)
qed

theorem backwards_length_never_ends_witness:
  "\<forall>fuel. deserialize fuel Env_unset demo_schema latin1_platform (QMessage 0 [] []) backwards_bytes
     new_serializer = Stuck"
proof
  fix fuel
  have "mc_ordering (demo_schema ! 0) = demo_ordering" by (simp add: demo_schema_def)
  moreover have "11 \<le> unat (effectiveMaximumInputSize Env_unset (new_serializer\<lparr>lastError := NoError\<rparr>))"
    by (simp add: effectiveMaximumInputSize_def new_serializer_def readEnvMaximumInputSize_def
        MaxDeserializeMessageSizeLimit_def MaxSerializeMessageSizeLimit_def)
  ultimately show "deserialize fuel Env_unset demo_schema latin1_platform (QMessage 0 [] []) backwards_bytes
     new_serializer = Stuck"
    using backwards_length_never_ends [of demo_schema 0 Env_unset new_serializer fuel latin1_platform "[]" "[]"]
    by (simp add: demo_schema_ordering)
qed

text \<open>C11: An error, once recorded, is never cleared while a message is read, at any depth: whatever
  the remaining bytes are, the deserializer ends with an error.\<close>

theorem error_is_final:
  assumes "deserializeMessage fuel sc p m d = Ret (ok, m', d')" and "d_lastError d \<noteq> NoError"
  shows "d_lastError d' \<noteq> NoError"
  using assms message_loop_error [of fuel sc p _ m d ok m' d']
  by (simp add: deserializeMessage_def hasError_def)

theorem error_is_final_witness:
  "\<exists>ok m' d'. deserializeMessage 2 demo_schema latin1_platform (QMessage 0 [] [])
      (setError InvalidHeader (deser_reset [] (new_deserializer new_serializer))) = Ret (ok, m', d') \<and>
    d_lastError d' \<noteq> NoError"
proof -
  let ?d = "setError InvalidHeader (deser_reset [] (new_deserializer new_serializer))"
  have "deserializeMessage 2 demo_schema latin1_platform (QMessage 0 [] []) ?d \<noteq> Stuck"
    and "\<exists>ok m' d'. deserializeMessage 2 demo_schema latin1_platform (QMessage 0 [] []) ?d = Ret (ok, m', d')"
    by (simp_all add: deserializeMessage_def eval_nat_numeral deser_reset_def clearCachedValue_def setError_def
        new_deserializer_def it_eq_ptr_def fromView_def isValid_def container_end_def finish_message_def
        storeCachedValue_def split: prod.splits)
  then obtain ok m' d' where r: "deserializeMessage 2 demo_schema latin1_platform (QMessage 0 [] []) ?d = Ret (ok, m', d')"
    by blast
  have "d_lastError ?d \<noteq> NoError" by (simp add: setError_def)
  from error_is_final [OF r this] r show ?thesis by blast
qed

text \<open>The bit set of seen fields behaves as the set of the field indices that were met: without
  an earlier error, \<open>checkRequiredFields\<close> accepts exactly when each required field was among them, and
  reports \<open>InvalidFormat\<close> otherwise.\<close>

theorem required_fields_check:
  assumes "\<forall>j \<in> set js. j < nat (fieldCount od)"
    and "d_enforceRequired d" and "d_lastError d = NoError"
  shows "checkRequiredFields od (fold mark_seen js (new_seen (fieldCount od))) d =
    (if \<forall>i < nat (fieldCount od). testFlag (fieldFlags od (int i)) Required \<longrightarrow> i \<in> set js
     then (True, d) else (False, d\<lparr>d_lastError := InvalidFormat\<rparr>))"
proof -
  have "is_seen i (fold mark_seen js (new_seen (fieldCount od))) \<longleftrightarrow> i \<in> set js"
    if "i < nat (fieldCount od)" for i
    using that assms(1) is_seen_fold [of js "new_seen (fieldCount od)" i] is_seen_new [OF that]
      new_seen_length by blast
  then have "missingFields od (fold mark_seen js (new_seen (fieldCount od))) = [] \<longleftrightarrow>
      (\<forall>i < nat (fieldCount od). testFlag (fieldFlags od (int i)) Required \<longrightarrow> i \<in> set js)"
    by (auto simp: missingFields_def filter_empty_conv)
  with assms(2,3) show ?thesis
    by (simp add: checkRequiredFields_def hasError_def setError_def)
qed

text \<open>The configured limit is honoured and never exceeds 2 GiB - 1: input beyond it is rejected
  with \<open>MessageTooLarge\<close> before a byte is parsed, and a limit that was set is the clamped one.\<close>

theorem input_size_limit:
  assumes "min (unat n) 2147483647 < length bs"
  shows "unat (effectiveMaximumInputSize env (setMaximumInputSize n s)) = min (unat n) 2147483647 \<and>
    deserialize fuel env sc p m bs (setMaximumInputSize n s) =
      Ret (False, default_message sc (msg_type m), (setMaximumInputSize n s)\<lparr>lastError := MessageTooLarge\<rparr>)"
proof -
  have "unat (clampMaximumInputSize n) = min (unat n) 2147483647"
    by (auto simp: clampMaximumInputSize_def MaxDeserializeMessageSizeLimit_def
        MaxSerializeMessageSizeLimit_def unsigned_ucast_eq take_bit_nat_eq_self min_def)
  with assms show ?thesis
    by (simp add: effectiveMaximumInputSize_def setMaximumInputSize_def deserialize_def
        qprotobuf_deserializeMessage_def Let_def)
qed

theorem input_size_limit_witness:
  "deserialize 0 Env_unset demo_schema latin1_platform (QMessage 0 [] []) [1, 2, 3] (setMaximumInputSize 2 new_serializer) =
     Ret (False, QMessage 0 [] [], (setMaximumInputSize 2 new_serializer)\<lparr>lastError := MessageTooLarge\<rparr>)"
  using input_size_limit [of 2 "[1, 2, 3]" Env_unset new_serializer 0 demo_schema latin1_platform "QMessage 0 [] []"]
  by (simp add: demo_schema_ordering)

text \<open>\<open>serialize\<close> never returns more than 2 GiB - 1 bytes; a longer result is replaced by no bytes
  and the error \<open>MessageTooLarge\<close>.\<close>

theorem serialize_size_limit:
  assumes "serialize fuel sc p m d = Some (bs, d')"
  shows "length bs \<le> 2147483647 \<and>
    (lastError d' = NoError \<or> lastError d' = MessageTooLarge \<and> bs = [])"
  using assms
  by (auto simp: serialize_def Let_def MaxSerializeMessageSizeLimit_def split: option.splits if_splits)

theorem serialize_size_limit_witness:
  "\<exists>bs d'. serialize 1 demo_schema latin1_platform (QMessage 0 [] [(15, [[0x78, 0x01]])]) new_serializer = Some (bs, d') \<and>
     length bs \<le> 2147483647"
proof -
  have "\<exists>bs d'. serialize 1 demo_schema latin1_platform (QMessage 0 [] [(15, [[0x78, 0x01]])]) new_serializer = Some (bs, d')"
    by (simp add: serialize_def Let_def demo_schema_ordering)
  then obtain bs d' where "serialize 1 demo_schema latin1_platform (QMessage 0 [] [(15, [[0x78, 0x01]])]) new_serializer = Some (bs, d')"
    by blast
  with serialize_size_limit [OF this] show ?thesis by blast
qed

end
