(* ===== verification/WireFormat.thy ===== *)
theory WireFormat
  imports WireProgress
begin

text \<open>
  The wire format as a specification. \<open>class_ok\<close> says when the tables, the properties and the members
  of a message class fit together, as they do for the classes that \<open>qtprotobufgen\<close> prints.
  \<open>wire_message sc p u m bs\<close> says that \<open>bs\<close> is the encoding of the message \<open>m\<close>: the concatenation of the
  records of its fields, with no reference to the serializer. The theory after this one shows that
  the serializer writes these bytes, and the next that the deserializer reads them back.
\<close>

subsection \<open>The parts of a class\<close>

definition f_ordering :: "schema \<Rightarrow> nat \<Rightarrow> ordering_data" where
  "f_ordering sc t = mc_ordering (sc ! t)"

definition f_count :: "schema \<Rightarrow> nat \<Rightarrow> nat" where
  "f_count sc t = nat (fieldCount (f_ordering sc t))"

definition f_number :: "schema \<Rightarrow> nat \<Rightarrow> nat \<Rightarrow> int" where
  "f_number sc t i = fieldNumber (f_ordering sc t) (int i)"

definition f_flags :: "schema \<Rightarrow> nat \<Rightarrow> nat \<Rightarrow> uint32" where
  "f_flags sc t i = fieldFlags (f_ordering sc t) (int i)"

definition f_pindex :: "schema \<Rightarrow> nat \<Rightarrow> nat \<Rightarrow> int" where
  "f_pindex sc t i = propertyIndex (f_ordering sc t) (int i)"

definition f_prop :: "schema \<Rightarrow> nat \<Rightarrow> nat \<Rightarrow> property" where
  "f_prop sc t i = mc_props (sc ! t) ! nat (f_pindex sc t i)"

definition f_kind :: "schema \<Rightarrow> nat \<Rightarrow> nat \<Rightarrow> prop_kind" where
  "f_kind sc t i = p_kind (f_prop sc t i)"

definition f_slot :: "schema \<Rightarrow> nat \<Rightarrow> nat \<Rightarrow> nat" where
  "f_slot sc t i = p_slot (f_prop sc t i)"

definition f_required :: "schema \<Rightarrow> nat \<Rightarrow> nat \<Rightarrow> bool" where
  "f_required sc t i = testFlag (f_flags sc t i) Required"

definition f_nonpacked :: "schema \<Rightarrow> nat \<Rightarrow> nat \<Rightarrow> bool" where
  "f_nonpacked sc t i = testFlag (f_flags sc t i) NonPacked"

definition f_optional :: "schema \<Rightarrow> nat \<Rightarrow> nat \<Rightarrow> bool" where
  "f_optional sc t i = testFlag (f_flags sc t i) Optional"

text \<open>
  The flags of a field whose value property has a kind; \<open>np\<close> for a repeated field that is not packed,
  \<open>req\<close> for a required field, \<open>opt\<close> for an optional field and for the key and the value of a map
  entry. Custom types and the \<open>has\<close> properties stand for no field of the core.
\<close>

fun kind_flags :: "prop_kind \<Rightarrow> bool \<Rightarrow> bool \<Rightarrow> bool \<Rightarrow> field_flag list option" where
  "kind_flags (PK_scalar t) np req opt =
     (if np then None
      else Some ((if req then [Required] else []) @ (if opt then [Optional] else [])))"
| "kind_flags (PK_scalars t) np req opt =
     (if opt \<or> req \<or> np \<and> is_length_delimited t then None
      else Some (if np then [NonPacked, Repeated] else [Repeated]))"
| "kind_flags PK_enum np req opt =
     (if np then None
      else Some ((if req then [Required] else []) @ (if opt then [Optional] else []) @ [EnumFlag]))"
| "kind_flags PK_enums np req opt =
     (if opt \<or> req then None else Some (if np then [NonPacked, Repeated, EnumFlag] else [Repeated, EnumFlag]))"
| "kind_flags (PK_optional t) np req opt =
     (if np \<or> req \<or> \<not> opt then None else Some [Optional, ExplicitPresence])"
| "kind_flags PK_optional_enum np req opt =
     (if np \<or> req \<or> \<not> opt then None else Some [Optional, ExplicitPresence, EnumFlag])"
| "kind_flags (PK_message t) np req opt =
     (if np then None
      else Some ((if req then [Required] else []) @ (if opt then [Optional] else []) @
        [ExplicitPresence, MessageFlag]))"
| "kind_flags (PK_messages t) np req opt = (if np \<or> req \<or> opt then None else Some [Repeated, MessageFlag])"
| "kind_flags (PK_map t) np req opt = (if np \<or> req \<or> opt then None else Some [MapFlag, MessageFlag])"
| "kind_flags (PK_oneof t n) np req opt =
     (if np \<or> req \<or> opt then None else Some [Oneof, ExplicitPresence])"
| "kind_flags (PK_oneof_enum n) np req opt =
     (if np \<or> req \<or> opt then None else Some [Oneof, ExplicitPresence, EnumFlag])"
| "kind_flags (PK_oneof_message t n) np req opt =
     (if np \<or> req \<or> opt then None else Some [Oneof, ExplicitPresence, MessageFlag])"
| "kind_flags k np req opt = None"

text \<open>The member behind a property when the message is new.\<close>

fun default_member :: "prop_kind \<Rightarrow> member" where
  "default_member (PK_scalar t) = M_plain (Scalar (default_scalar t))"
| "default_member (PK_scalars t) = M_plain (Scalars t [])"
| "default_member PK_enum = M_plain (Enum 0)"
| "default_member PK_enums = M_plain (Enums [])"
| "default_member (PK_optional t) = M_optional None"
| "default_member PK_optional_enum = M_optional None"
| "default_member (PK_message t) = M_message t None"
| "default_member (PK_messages t) = M_plain (Msgs t [])"
| "default_member (PK_map t) = M_plain (MapOf t [])"
| "default_member (PK_oneof t n) = new_oneof"
| "default_member (PK_oneof_enum n) = new_oneof"
| "default_member (PK_oneof_message t n) = new_oneof"
| "default_member k = M_plain Invalid"

text \<open>The number of a oneof member, and the property that follows a value with explicit presence.\<close>

fun oneof_number :: "prop_kind \<Rightarrow> int option" where
  "oneof_number (PK_oneof t n) = Some n" | "oneof_number (PK_oneof_enum n) = Some n"
| "oneof_number (PK_oneof_message t n) = Some n" | "oneof_number k = None"

fun has_kind :: "prop_kind \<Rightarrow> prop_kind option" where
  "has_kind (PK_optional t) = Some PK_has_optional" | "has_kind PK_optional_enum = Some PK_has_optional"
| "has_kind (PK_message t) = Some PK_has_message" | "has_kind (PK_oneof t n) = Some (PK_has_oneof n)"
| "has_kind (PK_oneof_enum n) = Some (PK_has_oneof n)"
| "has_kind (PK_oneof_message t n) = Some (PK_has_oneof n)"
| "has_kind k = None"

definition field_ok :: "schema \<Rightarrow> nat \<Rightarrow> nat \<Rightarrow> bool" where
  "field_ok sc t i \<longleftrightarrow>
     0 < f_number sc t i \<and> f_number sc t i < 2 ^ 29 \<and>
     indexOfFieldNumber (f_ordering sc t) (f_number sc t i) = int i \<and>
     0 \<le> f_pindex sc t i \<and> nat (f_pindex sc t i) < length (mc_props (sc ! t)) \<and>
     f_slot sc t i < length (mc_defaults (sc ! t)) \<and>
     mc_defaults (sc ! t) ! f_slot sc t i = default_member (f_kind sc t i) \<and>
     (case kind_flags (f_kind sc t i) (f_nonpacked sc t i) (f_required sc t i) (f_optional sc t i) of
        Some fs \<Rightarrow> f_flags sc t i = flags_of fs | None \<Rightarrow> False) \<and>
     (case oneof_number (f_kind sc t i) of Some n \<Rightarrow> n = f_number sc t i | None \<Rightarrow> True) \<and>
     (case has_kind (f_kind sc t i) of
        Some h \<Rightarrow> Suc (nat (f_pindex sc t i)) < length (mc_props (sc ! t)) \<and>
          mc_props (sc ! t) ! Suc (nat (f_pindex sc t i)) = \<lparr>p_kind = h, p_slot = f_slot sc t i\<rparr>
      | None \<Rightarrow> True)"

definition class_ok :: "schema \<Rightarrow> nat \<Rightarrow> bool" where
  "class_ok sc t \<longleftrightarrow>
     t < length sc \<and> (\<forall>i < f_count sc t. field_ok sc t i) \<and>
     (\<forall>i < f_count sc t. \<forall>j < f_count sc t. i \<noteq> j \<longrightarrow> f_slot sc t i = f_slot sc t j \<longrightarrow>
        oneof_number (f_kind sc t i) \<noteq> None \<and> oneof_number (f_kind sc t j) \<noteq> None)"

subsection \<open>Records\<close>

text \<open>The wire type of a scalar, and the records of a scalar and of a delimited block.\<close>

fun wire_type_of :: "scalar_type \<Rightarrow> wire_type" where
  "wire_type_of T_float = WT_Fixed32" | "wire_type_of T_double = WT_Fixed64"
| "wire_type_of T_fixed32 = WT_Fixed32" | "wire_type_of T_fixed64 = WT_Fixed64"
| "wire_type_of T_sfixed32 = WT_Fixed32" | "wire_type_of T_sfixed64 = WT_Fixed64"
| "wire_type_of T_QString = WT_LengthDelimited" | "wire_type_of T_QByteArray = WT_LengthDelimited"
| "wire_type_of t = WT_Varint"

definition scalar_record :: "platform \<Rightarrow> int \<Rightarrow> scalar \<Rightarrow> byte list" where
  "scalar_record p n v = encodeHeader n (wire_type_of (scalar_type_of v)) @ serializeBasic p v"

definition packed_record :: "platform \<Rightarrow> int \<Rightarrow> scalar list \<Rightarrow> byte list" where
  "packed_record p n vs = encodeHeader n WT_LengthDelimited @ serializeListType p vs"

definition message_record :: "int \<Rightarrow> byte list \<Rightarrow> byte list" where
  "message_record n bs =
     encodeHeader n WT_LengthDelimited @ serializeVarintCommon (of_nat (length bs) :: 32 word) @ bs"

text \<open>
  The single scalar that a field puts on the wire: an enumerator goes as an \<open>int64\<close>. A default value
  goes when it is forced: the field is required, or is part of a map entry.
\<close>

definition f_forced :: "schema \<Rightarrow> nat \<Rightarrow> nat \<Rightarrow> bool" where
  "f_forced sc t i \<longleftrightarrow> f_required sc t i \<or> f_optional sc t i"

definition single_value :: "prop_kind \<Rightarrow> bool \<Rightarrow> member \<Rightarrow> scalar option" where
  "single_value k forced x =
     (case k of
        PK_scalar t \<Rightarrow>
          (case x of M_plain (Scalar v) \<Rightarrow>
             if scalar_type_of v = t \<and> (isPresent_scalar v \<or> forced) then Some v else None | _ \<Rightarrow> None)
      | PK_enum \<Rightarrow>
          (case x of M_plain (Enum e) \<Rightarrow> if e \<noteq> 0 \<or> forced then Some (enum_int64 e) else None | _ \<Rightarrow> None)
      | PK_optional t \<Rightarrow>
          (case x of M_optional (Some (Scalar v)) \<Rightarrow> if scalar_type_of v = t then Some v else None | _ \<Rightarrow> None)
      | PK_optional_enum \<Rightarrow> (case x of M_optional (Some (Enum e)) \<Rightarrow> Some (enum_int64 e) | _ \<Rightarrow> None)
      | PK_oneof t n \<Rightarrow>
          (case x of M_oneof (Scalar v) j \<Rightarrow> if scalar_type_of v = t \<and> j = n then Some v else None | _ \<Rightarrow> None)
      | PK_oneof_enum n \<Rightarrow>
          (case x of M_oneof (Enum e) j \<Rightarrow> if j = n then Some (enum_int64 e) else None | _ \<Rightarrow> None)
      | _ \<Rightarrow> None)"

text \<open>The elements of a repeated scalar or enumeration field.\<close>

definition list_value :: "prop_kind \<Rightarrow> member \<Rightarrow> scalar list option" where
  "list_value k x =
     (case k of
        PK_scalars t \<Rightarrow>
          (case x of M_plain (Scalars u vs) \<Rightarrow>
             if u = t \<and> (\<forall>v \<in> set vs. scalar_type_of v = t) then Some vs else None | _ \<Rightarrow> None)
      | PK_enums \<Rightarrow> (case x of M_plain (Enums es) \<Rightarrow> Some (map enum_int64 es) | _ \<Rightarrow> None)
      | _ \<Rightarrow> None)"

fun list_packed :: "prop_kind \<Rightarrow> bool \<Rightarrow> bool" where
  "list_packed (PK_scalars t) np \<longleftrightarrow> \<not> np \<and> \<not> is_length_delimited t"
| "list_packed k np \<longleftrightarrow> \<not> np"

text \<open>The message of a singular message field that is set, and the messages of a repeated or map field.\<close>

definition message_value :: "prop_kind \<Rightarrow> member \<Rightarrow> qmessage option" where
  "message_value k x =
     (case k of
        PK_message t \<Rightarrow>
          (case x of M_message u (Some c) \<Rightarrow> if u = t \<and> msg_type c = t then Some c else None | _ \<Rightarrow> None)
      | PK_oneof_message t n \<Rightarrow>
          (case x of M_oneof (Msg c) j \<Rightarrow> if msg_type c = t \<and> j = n then Some c else None | _ \<Rightarrow> None)
      | _ \<Rightarrow> None)"

definition entry_ok :: "qmessage \<Rightarrow> bool" where
  "entry_ok e \<longleftrightarrow> unknownEntries e = [] \<and> length (msg_members e) = 2 \<and> (\<forall>u. get_slot e 1 \<noteq> M_message u None)"

definition messages_value :: "prop_kind \<Rightarrow> member \<Rightarrow> qmessage list option" where
  "messages_value k x =
     (case k of
        PK_messages t \<Rightarrow>
          (case x of M_plain (Msgs u cs) \<Rightarrow>
             if u = t \<and> (\<forall>c \<in> set cs. msg_type c = t) then Some cs else None | _ \<Rightarrow> None)
      | PK_map t \<Rightarrow>
          (case x of M_plain (MapOf u es) \<Rightarrow>
             if u = t \<and> (\<forall>e \<in> set es. msg_type e = t \<and> entry_ok e) \<and> distinct (map entry_key es)
             then Some es else None | _ \<Rightarrow> None)
      | _ \<Rightarrow> None)"

text \<open>The field is not on the wire: its member is the default one, or its oneof holds another field.\<close>

definition field_absent :: "prop_kind \<Rightarrow> bool \<Rightarrow> bool \<Rightarrow> member \<Rightarrow> bool" where
  "field_absent k req forced x \<longleftrightarrow>
     \<not> req \<and> (has_kind k = None \<longrightarrow> \<not> forced) \<and>
     (case oneof_number k of None \<Rightarrow> x = default_member k | Some n \<Rightarrow> \<not> holdsField n x)"

subsection \<open>Unknown fields\<close>

text \<open>
  A record that is no field of the class: a header and bytes of the length that its wire type asks
  for, with a varint or a length in any form that is skipped without a check.
\<close>

fun raw_payload :: "wire_type \<Rightarrow> byte list \<Rightarrow> bool" where
  "raw_payload WT_Varint bs \<longleftrightarrow>
     bs \<noteq> [] \<and> last bs AND 0x80 = 0 \<and> (\<forall>b \<in> set (butlast bs). b AND 0x80 \<noteq> 0)"
| "raw_payload WT_Fixed32 bs \<longleftrightarrow> length bs = 4"
| "raw_payload WT_Fixed64 bs \<longleftrightarrow> length bs = 8"
| "raw_payload WT_LengthDelimited bs \<longleftrightarrow>
     (\<exists>cs. bs = serializeVarintCommonImpl (of_nat (length cs)) @ cs \<and> length cs < 2 ^ 63)"
| "raw_payload w bs \<longleftrightarrow> False"

definition raw_record :: "int \<Rightarrow> byte list \<Rightarrow> bool" where
  "raw_record n bs \<longleftrightarrow>
     0 < n \<and> n < 2 ^ 29 \<and> (\<exists>w pl. bs = encodeHeader n w @ pl \<and> raw_payload w pl)"

definition unknown_bytes :: "qmessage \<Rightarrow> byte list" where
  "unknown_bytes m = concat (map (\<lambda>(n, fields). concat fields) (unknownEntries m))"

text \<open>The unknown fields that a message may have; none when they are not preserved.\<close>

definition unknown_ok :: "schema \<Rightarrow> bool \<Rightarrow> qmessage \<Rightarrow> bool" where
  "unknown_ok sc preserve m \<longleftrightarrow>
     (preserve \<or> unknownEntries m = []) \<and> distinct (map fst (unknownEntries m)) \<and>
     (\<forall>(n, fields) \<in> set (unknownEntries m).
        fields \<noteq> [] \<and> indexOfFieldNumber (f_ordering sc (msg_type m)) n = -1 \<and>
        (\<forall>bs \<in> set fields. raw_record n bs))"

subsection \<open>Encodings\<close>

text \<open>
  A message is encoded by the records of its fields in the order of the class, and then by its
  unknown fields. The members that no field on the wire accounts for have their default value: a
  message with a \<open>-0.0\<close> in a field without explicit presence has no encoding in this sense.
\<close>

inductive wire_message :: "schema \<Rightarrow> platform \<Rightarrow> bool \<Rightarrow> qmessage \<Rightarrow> byte list \<Rightarrow> bool"
  and wire_field :: "schema \<Rightarrow> platform \<Rightarrow> bool \<Rightarrow> qmessage \<Rightarrow> nat \<Rightarrow> byte list \<Rightarrow> bool"
  for sc :: schema and p :: platform and u :: bool
  where
  wire_messageI:
    "class_ok sc (msg_type m) \<Longrightarrow> length (msg_members m) = length (mc_defaults (sc ! msg_type m)) \<Longrightarrow>
     unknown_ok sc u m \<Longrightarrow>
     \<forall>i < f_count sc (msg_type m). wire_field sc p u m i (bss i) \<Longrightarrow>
     \<forall>s < length (msg_members m).
       (\<forall>i < f_count sc (msg_type m). f_slot sc (msg_type m) i = s \<longrightarrow> bss i = []) \<longrightarrow>
       msg_members m ! s = mc_defaults (sc ! msg_type m) ! s \<Longrightarrow>
     wire_message sc p u m (concat (map bss [0..<f_count sc (msg_type m)]) @ unknown_bytes m)"
| wire_absent:
    "field_absent (f_kind sc (msg_type m) i) (f_required sc (msg_type m) i) (f_forced sc (msg_type m) i)
       (get_slot m (f_slot sc (msg_type m) i)) \<Longrightarrow>
     wire_field sc p u m i []"
| wire_single:
    "single_value (f_kind sc (msg_type m) i) (f_forced sc (msg_type m) i)
       (get_slot m (f_slot sc (msg_type m) i)) = Some v \<Longrightarrow> scalar_ok p v \<Longrightarrow>
     wire_field sc p u m i (scalar_record p (f_number sc (msg_type m) i) v)"
| wire_packed:
    "list_value (f_kind sc (msg_type m) i) (get_slot m (f_slot sc (msg_type m) i)) = Some vs \<Longrightarrow>
     list_packed (f_kind sc (msg_type m) i) (f_nonpacked sc (msg_type m) i) \<Longrightarrow>
     vs \<noteq> [] \<Longrightarrow> length (serializeListType p vs) < 2 ^ 31 \<Longrightarrow>
     wire_field sc p u m i (packed_record p (f_number sc (msg_type m) i) vs)"
| wire_list:
    "list_value (f_kind sc (msg_type m) i) (get_slot m (f_slot sc (msg_type m) i)) = Some vs \<Longrightarrow>
     \<not> list_packed (f_kind sc (msg_type m) i) (f_nonpacked sc (msg_type m) i) \<Longrightarrow>
     vs \<noteq> [] \<Longrightarrow> \<forall>v \<in> set vs. scalar_ok p v \<Longrightarrow>
     wire_field sc p u m i (concat (map (scalar_record p (f_number sc (msg_type m) i)) vs))"
| wire_submessage:
    "message_value (f_kind sc (msg_type m) i) (get_slot m (f_slot sc (msg_type m) i)) = Some c \<Longrightarrow>
     wire_message sc p u c bs \<Longrightarrow> length bs < 2 ^ 31 \<Longrightarrow>
     wire_field sc p u m i (message_record (f_number sc (msg_type m) i) bs)"
| wire_messages:
    "messages_value (f_kind sc (msg_type m) i) (get_slot m (f_slot sc (msg_type m) i)) = Some cs \<Longrightarrow>
     cs \<noteq> [] \<Longrightarrow> list_all2 (wire_message sc p u) cs cbs \<Longrightarrow> \<forall>bs \<in> set cbs. length bs < 2 ^ 31 \<Longrightarrow>
     wire_field sc p u m i (concat (map (message_record (f_number sc (msg_type m) i)) cbs))"


subsection \<open>Flags of the kinds\<close>

fun repeated_kind :: "prop_kind \<Rightarrow> bool" where
  "repeated_kind (PK_scalars t) = True" | "repeated_kind PK_enums = True"
| "repeated_kind (PK_messages t) = True" | "repeated_kind k = False"

fun enum_kind :: "prop_kind \<Rightarrow> bool" where
  "enum_kind PK_enum = True" | "enum_kind PK_enums = True" | "enum_kind PK_optional_enum = True"
| "enum_kind (PK_oneof_enum n) = True" | "enum_kind k = False"

fun messages_kind :: "prop_kind \<Rightarrow> bool" where
  "messages_kind (PK_messages t) = True" | "messages_kind (PK_map t) = True" | "messages_kind k = False"

fun message_kind :: "prop_kind \<Rightarrow> bool" where
  "message_kind (PK_message t) = True" | "message_kind (PK_oneof_message t n) = True"
| "message_kind k = False"

fun core_kind :: "prop_kind \<Rightarrow> bool" where
  "core_kind PK_has_message = False" | "core_kind PK_has_optional = False"
| "core_kind (PK_has_oneof n) = False" | "core_kind (PK_custom n) = False" | "core_kind k = True"

lemmas flag_eval = testFlag_def testFlags_def testAnyFlags_def flags_of_def

lemma kind_flags_test:
  assumes "kind_flags k np req opt = Some fs"
  shows "core_kind k"
    and "testFlag (flags_of fs) Repeated \<longleftrightarrow> repeated_kind k"
    and "testFlag (flags_of fs) EnumFlag \<longleftrightarrow> enum_kind k"
    and "testFlag (flags_of fs) NonPacked \<longleftrightarrow> np"
    and "testFlag (flags_of fs) Required \<longleftrightarrow> req"
    and "testFlag (flags_of fs) ExplicitPresence \<longleftrightarrow> has_kind k \<noteq> None"
    and "testAnyFlags (flags_of fs) [MessageFlag, MapFlag] \<longleftrightarrow> message_kind k \<or> messages_kind k"
    and "mustSerializeDefaultValue (flags_of fs) \<longleftrightarrow> req \<or> opt \<or> oneof_number k \<noteq> None"
    and "is_repeated_message (flags_of fs) \<longleftrightarrow> messages_kind k"
    and "np \<longrightarrow> list_packed k False"
    and "np \<longrightarrow> repeated_kind k"
    and "testFlag (flags_of fs) Optional \<longleftrightarrow> opt"
    and "k = PK_optional t \<or> k = PK_optional_enum \<longrightarrow> opt"
  using assms
  by (cases k; force simp: flag_eval mustSerializeDefaultValue_def is_repeated_message_def split: if_splits)+

lemma field_okD:
  assumes "field_ok sc t i"
  shows "0 < f_number sc t i" "f_number sc t i < 2 ^ 29"
    "indexOfFieldNumber (f_ordering sc t) (f_number sc t i) = int i"
    "f_slot sc t i < length (mc_defaults (sc ! t))"
    "mc_defaults (sc ! t) ! f_slot sc t i = default_member (f_kind sc t i)"
    "oneof_number (f_kind sc t i) = Some n \<Longrightarrow> n = f_number sc t i"
  using assms by (auto simp: field_ok_def)

lemma field_flags_test:
  assumes "field_ok sc t i"
  shows "core_kind (f_kind sc t i)"
    and "testFlag (f_flags sc t i) Repeated \<longleftrightarrow> repeated_kind (f_kind sc t i)"
    and "testFlag (f_flags sc t i) EnumFlag \<longleftrightarrow> enum_kind (f_kind sc t i)"
    and "testFlag (f_flags sc t i) ExplicitPresence \<longleftrightarrow> has_kind (f_kind sc t i) \<noteq> None"
    and "testAnyFlags (f_flags sc t i) [MessageFlag, MapFlag] \<longleftrightarrow>
      message_kind (f_kind sc t i) \<or> messages_kind (f_kind sc t i)"
    and "mustSerializeDefaultValue (f_flags sc t i) \<longleftrightarrow>
      f_forced sc t i \<or> oneof_number (f_kind sc t i) \<noteq> None"
    and "is_repeated_message (f_flags sc t i) \<longleftrightarrow> messages_kind (f_kind sc t i)"
    and "f_nonpacked sc t i \<longrightarrow> list_packed (f_kind sc t i) False"
    and "f_nonpacked sc t i \<longrightarrow> repeated_kind (f_kind sc t i)"
    and "f_kind sc t i = PK_optional t' \<or> f_kind sc t i = PK_optional_enum \<longrightarrow> f_forced sc t i"
proof -
  obtain fs where fs: "kind_flags (f_kind sc t i) (f_nonpacked sc t i) (f_required sc t i) (f_optional sc t i) = Some fs"
    "f_flags sc t i = flags_of fs"
    using assms by (auto simp: field_ok_def split: option.splits)
  note kind_flags_test [OF fs(1), folded fs(2)]
  then show "core_kind (f_kind sc t i)"
    and "testFlag (f_flags sc t i) Repeated \<longleftrightarrow> repeated_kind (f_kind sc t i)"
    and "testFlag (f_flags sc t i) EnumFlag \<longleftrightarrow> enum_kind (f_kind sc t i)"
    and "testFlag (f_flags sc t i) ExplicitPresence \<longleftrightarrow> has_kind (f_kind sc t i) \<noteq> None"
    and "testAnyFlags (f_flags sc t i) [MessageFlag, MapFlag] \<longleftrightarrow>
      message_kind (f_kind sc t i) \<or> messages_kind (f_kind sc t i)"
    and "mustSerializeDefaultValue (f_flags sc t i) \<longleftrightarrow>
      f_forced sc t i \<or> oneof_number (f_kind sc t i) \<noteq> None"
    and "is_repeated_message (f_flags sc t i) \<longleftrightarrow> messages_kind (f_kind sc t i)"
    and "f_nonpacked sc t i \<longrightarrow> list_packed (f_kind sc t i) False"
    and "f_nonpacked sc t i \<longrightarrow> repeated_kind (f_kind sc t i)"
    and "f_kind sc t i = PK_optional t' \<or> f_kind sc t i = PK_optional_enum \<longrightarrow> f_forced sc t i"
    by (simp_all add: f_forced_def)
qed

subsection \<open>Properties of a field\<close>

text \<open>What the generic property helpers do for field \<open>i\<close> of a message of class \<open>t\<close>.\<close>

definition f_info :: "schema \<Rightarrow> nat \<Rightarrow> nat \<Rightarrow> field_info" where
  "f_info sc t i = \<lparr>fi_ordering = f_ordering sc t, fi_index = int i\<rparr>"

lemma mk_field_info_eq: "msg_type m = t \<Longrightarrow> mk_field_info sc m (int i) = f_info sc t i"
  by (simp add: mk_field_info_def f_info_def propertyOrdering_def f_ordering_def)

lemma f_info_simps [simp]:
  "fi_number (f_info sc t i) = f_number sc t i" "fi_flags (f_info sc t i) = f_flags sc t i"
  "fi_propertyIndex (f_info sc t i) = f_pindex sc t i"
  by (simp_all add: f_info_def fi_number_def f_number_def fi_flags_def f_flags_def
      fi_propertyIndex_def f_pindex_def)

lemma field_metaProperty:
  assumes "field_ok sc t i" "t < length sc" "msg_type m = t"
  shows "metaProperty sc m (f_pindex sc t i) = Some (f_prop sc t i)"
    and "has_kind (f_kind sc t i) = Some h \<Longrightarrow>
      metaProperty sc m (f_pindex sc t i + 1) = Some \<lparr>p_kind = h, p_slot = f_slot sc t i\<rparr>"
  using assms
  by (auto simp: field_ok_def metaProperty_def f_prop_def nat_add_distrib)

lemma get_slot_cases:
  "s < length (msg_members m) \<Longrightarrow> get_slot m s = msg_members m ! s"
  by (simp add: get_slot_def)

lemma qmessage_eqI:
  "msg_type m = msg_type m' \<Longrightarrow> msg_members m = msg_members m' \<Longrightarrow>
   unknownEntries m = unknownEntries m' \<Longrightarrow> m = m'"
  by (cases m; cases m') simp

lemma set_slot_simps [simp]:
  "msg_type (set_slot s x m) = msg_type m" "unknownEntries (set_slot s x m) = unknownEntries m"
  "length (msg_members (set_slot s x m)) = length (msg_members m)"
  "set_slot s y (set_slot s x m) = set_slot s y m"
  by (simp_all add: set_slot_def)

lemma get_set_slot [simp]: "s < length (msg_members m) \<Longrightarrow> get_slot (set_slot s x m) s = x"
  by (simp add: get_slot_def set_slot_def)

lemma set_slot_same: "x = get_slot m s \<Longrightarrow> set_slot s x m = m"
  by (rule qmessage_eqI) (auto simp: set_slot_def get_slot_def not_less list_update_beyond)

end
