(* ===== verification/WireEncoding.thy ===== *)
theory WireEncoding
  imports WireFormat
begin

text \<open>
  The serializer refines the wire format: for every message that has an encoding it writes exactly
  that encoding, appended to what it has written before, at any depth of nested messages.
\<close>

lemma ser_append_append [simp]: "ser_append b (ser_append a st) = ser_append (a @ b) st"
  by (simp add: ser_append_def)

lemma ser_append_Nil [simp]: "ser_append [] st = st"
  by (simp add: ser_append_def)

lemma m_result_ser_append [simp]:
  "m_result (ser_append bs st) = m_result st @ bs" "m_state (ser_append bs st) = m_state st"
  by (simp_all add: ser_append_def)

lemma fold_option_append:
  "(\<And>x st. x \<in> set xs \<Longrightarrow> f x st = Some (ser_append (g x) st)) \<Longrightarrow>
   fold_option f xs st = Some (ser_append (concat (map g xs)) st)"
  by (induction xs arbitrary: st) simp_all

lemma fold_option_append2:
  "list_all2 (\<lambda>x b. \<forall>st. f x st = Some (ser_append (g b) st)) xs bs \<Longrightarrow>
   fold_option f xs st = Some (ser_append (concat (map g bs)) st)"
  by (induction xs bs arbitrary: st rule: list_all2_induct) simp_all

subsection \<open>Reading a property\<close>

text \<open>Whether the \<open>has\<close> property of a field lets the value be read.\<close>

definition has_value :: "prop_kind \<Rightarrow> member \<Rightarrow> bool" where
  "has_value k x \<longleftrightarrow>
     (case k of
        PK_optional t \<Rightarrow> has_optional x | PK_optional_enum \<Rightarrow> has_optional x
      | PK_message t \<Rightarrow> has_message x
      | PK_oneof t n \<Rightarrow> holdsField n x | PK_oneof_enum n \<Rightarrow> holdsField n x
      | PK_oneof_message t n \<Rightarrow> holdsField n x | _ \<Rightarrow> True)"

lemma messageProperty_read:
  assumes "field_ok sc t i" "t < length sc" "msg_type m = t" "f_slot sc t i < length (msg_members m)"
  shows "messageProperty sc m (f_info sc t i) False =
    (if has_value (f_kind sc t i) (get_slot m (f_slot sc t i))
     then (fst (read_member sc (f_kind sc t i) (get_slot m (f_slot sc t i))),
           set_slot (f_slot sc t i) (snd (read_member sc (f_kind sc t i) (get_slot m (f_slot sc t i)))) m)
     else (Null (prop_meta (f_kind sc t i)), m))"
proof -
  note meta = field_metaProperty [OF assms(1-3)]
  note simps = messageProperty_def meta(1) field_flags_test(4) [OF assms(1)] readOnGadget_def
    case_prod_unfold Let_def
  show ?thesis
  proof (cases "has_kind (f_kind sc t i)")
    case None
    then have "has_value (f_kind sc t i) (get_slot m (f_slot sc t i))"
      by (cases "f_kind sc t i") (simp_all add: has_value_def)
    with None show ?thesis by (simp add: simps f_kind_def f_slot_def)
  next
    case (Some h)
    have "fst (read_member sc h (get_slot m (f_slot sc t i))) =
        Bool (has_value (f_kind sc t i) (get_slot m (f_slot sc t i)))"
      using Some by (cases "f_kind sc t i") (auto simp: has_value_def read_member_def)
    with Some show ?thesis
      by (simp add: simps meta(2) [OF Some] f_kind_def [symmetric] f_slot_def [symmetric])
  qed
qed

subsection \<open>Handlers\<close>

lemma scalar_handler_found:
  "findIntegratedTypeHandler (MT_scalar t) False = Some (scalar_handler t (wire_type_of t))"
  by (cases t) (simp_all add: findIntegratedTypeHandler_def findIntegratedTypeHandlerImpl_def
      IntegratedTypesSerializers_def scalar_handler_def list_handler_def non_packed_list_handler_def)

lemma list_handler_found:
  "findIntegratedTypeHandler (MT_list t) False =
     Some (if is_length_delimited t then non_packed_list_handler t WT_LengthDelimited else list_handler t)"
  "\<not> is_length_delimited t \<Longrightarrow>
   findIntegratedTypeHandler (MT_list t) True = Some (non_packed_list_handler t (wire_type_of t))"
  by (cases t; simp add: findIntegratedTypeHandler_def findIntegratedTypeHandlerImpl_def
      IntegratedTypesSerializers_def IntegratedNonPackedSerializers_def
      scalar_handler_def list_handler_def non_packed_list_handler_def)+

lemma wire_type_of_delimited: "is_length_delimited t \<Longrightarrow> wire_type_of t = WT_LengthDelimited"
  by (cases t) simp_all

lemma non_packed_records:
  "\<forall>v \<in> set vs. scalar_type_of v = t \<Longrightarrow>
   serializeNonPackedList p vs (encodeHeader n (wire_type_of t)) = concat (map (scalar_record p n) vs)"
  unfolding serializeNonPackedList_def scalar_record_def
  by (intro arg_cong [where f = concat] map_cong) simp_all

lemma enum_int64_type [simp]: "scalar_type_of (enum_int64 e) = T_int64"
  by (simp add: enum_int64_def)

lemma enum_int64_present: "isPresent_scalar (enum_int64 e) \<longleftrightarrow> e \<noteq> 0"
proof -
  have "scast e = (0 :: 64 word) \<longleftrightarrow> e = 0"
    by (metis ucast_scast_32 scast_0 unsigned_0)
  then show ?thesis by (simp add: enum_int64_def scalar_eq_def)
qed

lemma default_not_present: "\<not> isPresent_scalar (default_scalar t)"
  by (cases t) (simp_all add: scalar_eq_def float_eq_def double_eq_def)

subsection \<open>One field\<close>

text \<open>A message of a class whose \<open>i\<close>-th field is in order; its kind, member and number.\<close>

definition fits :: "schema \<Rightarrow> qmessage \<Rightarrow> nat \<Rightarrow> bool" where
  "fits sc m i \<longleftrightarrow> field_ok sc (msg_type m) i \<and> msg_type m < length sc \<and>
     length (msg_members m) = length (mc_defaults (sc ! msg_type m))"

abbreviation "m_kind sc m i \<equiv> f_kind sc (msg_type m) i"
abbreviation "m_required sc m i \<equiv> f_required sc (msg_type m) i"
abbreviation "m_forced sc m i \<equiv> f_forced sc (msg_type m) i"
abbreviation "m_member sc m i \<equiv> get_slot m (f_slot sc (msg_type m) i)"
abbreviation "m_number sc m i \<equiv> f_number sc (msg_type m) i"

lemma fits_facts:
  assumes "fits sc m i"
  shows "mk_field_info sc m (int i) = f_info sc (msg_type m) i"
    and "messageProperty sc m (f_info sc (msg_type m) i) False =
      (if has_value (m_kind sc m i) (m_member sc m i)
       then (fst (read_member sc (m_kind sc m i) (m_member sc m i)),
             set_slot (f_slot sc (msg_type m) i) (snd (read_member sc (m_kind sc m i) (m_member sc m i))) m)
       else (Null (prop_meta (m_kind sc m i)), m))"
    and "f_slot sc (msg_type m) i < length (msg_members m)"
    and "\<not> repeated_kind (m_kind sc m i) \<Longrightarrow> \<not> f_nonpacked sc (msg_type m) i"
  using assms messageProperty_read [of sc "msg_type m" i m] field_okD(4) [of sc "msg_type m" i]
    mk_field_info_eq [of m "msg_type m" sc i] field_flags_test(9) [of sc "msg_type m" i]
  by (auto simp: fits_def)

lemma fits_ok: "fits sc m i \<Longrightarrow> field_ok sc (msg_type m) i"
  by (simp add: fits_def)

lemma serialize_absent:
  assumes "fits sc m i" and "field_absent (m_kind sc m i) (m_required sc m i) (m_forced sc m i) (m_member sc m i)"
  shows "serialize_field sc p preserve ser defaults m i st = Some st"
  using assms(2) field_flags_test(1,8) [OF fits_ok [OF assms(1)]] fits_facts(4) [OF assms(1)]
  by (cases "m_kind sc m i")
    (auto simp: serialize_field_def Let_def fits_facts(1,2) [OF assms(1)] field_flags_test [OF fits_ok [OF assms(1)]] field_absent_def has_value_def
      read_member_def has_optional_def has_message_def serializeEnum_def serializeScalarField_def
      enum_int64_present default_not_present f_required_def split: option.splits)

lemma single_valueE:
  assumes "single_value k req x = Some v"
  obtains (scalar) t where "k = PK_scalar t" "x = M_plain (Scalar v)" "scalar_type_of v = t"
      "isPresent_scalar v \<or> req"
  | (enum) e where "k = PK_enum" "x = M_plain (Enum e)" "v = enum_int64 e" "e \<noteq> 0 \<or> req"
  | (optional) t where "k = PK_optional t" "x = M_optional (Some (Scalar v))" "scalar_type_of v = t"
  | (optional_enum) e where "k = PK_optional_enum" "x = M_optional (Some (Enum e))" "v = enum_int64 e"
  | (oneof) t n where "k = PK_oneof t n" "x = M_oneof (Scalar v) n" "scalar_type_of v = t"
  | (oneof_enum) n e where "k = PK_oneof_enum n" "x = M_oneof (Enum e) n" "v = enum_int64 e"
  using assms unfolding single_value_def
  by (cases k; force split: member.splits variant.splits option.splits if_splits)

lemma list_valueE:
  assumes "list_value k x = Some vs"
  obtains (scalars) t where "k = PK_scalars t" "x = M_plain (Scalars t vs)" "\<forall>v \<in> set vs. scalar_type_of v = t"
  | (enums) es where "k = PK_enums" "x = M_plain (Enums es)" "vs = map enum_int64 es"
  using assms unfolding list_value_def
  by (cases k; force split: member.splits variant.splits if_splits)

lemma message_valueE:
  assumes "message_value k x = Some c"
  obtains (message) "k = PK_message (msg_type c)" "x = M_message (msg_type c) (Some c)"
  | (oneof) n where "k = PK_oneof_message (msg_type c) n" "x = M_oneof (Msg c) n"
  using assms unfolding message_value_def
  by (cases k; force split: member.splits variant.splits option.splits if_splits)

lemma messages_valueE:
  assumes "messages_value k x = Some cs"
  obtains (messages) t where "k = PK_messages t" "x = M_plain (Msgs t cs)" "\<forall>c \<in> set cs. msg_type c = t"
  | (map_field) t where "k = PK_map t" "x = M_plain (MapOf t cs)" "\<forall>c \<in> set cs. msg_type c = t \<and> entry_ok c"
      "distinct (map entry_key cs)"
  using assms unfolding messages_value_def
  by (cases k; force split: member.splits variant.splits if_splits)

lemma serialize_single:
  assumes fits: "fits sc m i"
    and v: "single_value (m_kind sc m i) (m_forced sc m i) (m_member sc m i) = Some v"
  shows "serialize_field sc p preserve ser defaults m i st =
    Some (ser_append (scalar_record p (m_number sc m i) v) st)"
proof -
  note ok = fits_ok [OF fits]
  note facts = fits_facts(4) [OF fits] field_okD(1,6) [OF ok] field_flags_test(10) [OF ok]
  note unfolds = serialize_field_def Let_def fits_facts(1,2) [OF fits] field_flags_test [OF ok]
    has_value_def read_member_def has_optional_def get_optional_def get_oneof_def f_nonpacked_def
    serializeEnum_def serializeScalarField_def scalar_handler_found handler_serializer_def
    scalar_handler_def scalar_record_def enum_int64_present
  from v show ?thesis
    by (cases rule: single_valueE) (use facts in \<open>auto simp: unfolds\<close>)
qed

lemma serialize_list:
  assumes fits: "fits sc m i" and vs: "list_value (m_kind sc m i) (m_member sc m i) = Some vs" "vs \<noteq> []"
  shows "list_packed (m_kind sc m i) (f_nonpacked sc (msg_type m) i) \<Longrightarrow>
      serialize_field sc p preserve ser defaults m i st =
        Some (ser_append (packed_record p (m_number sc m i) vs) st)" (is "?packed \<Longrightarrow> ?A")
    and "\<not> list_packed (m_kind sc m i) (f_nonpacked sc (msg_type m) i) \<Longrightarrow>
      serialize_field sc p preserve ser defaults m i st =
        Some (ser_append (concat (map (scalar_record p (m_number sc m i)) vs)) st)" (is "_ \<Longrightarrow> ?B")
proof -
  note ok = fits_ok [OF fits]
  note facts = vs(2) field_flags_test(8) [OF ok] non_packed_records wire_type_of_delimited
  note unfolds = serialize_field_def Let_def fits_facts(1,2) [OF fits] field_flags_test(1-7) [OF ok]
    has_value_def read_member_def f_nonpacked_def
    serializeEnum_def serializeScalarField_def list_handler_found handler_serializer_def
    list_handler_def non_packed_list_handler_def packed_record_def
  have np: "serializeNonPackedList p vs (encodeHeader (m_number sc m i) (wire_type_of t)) =
      concat (map (scalar_record p (m_number sc m i)) vs)" if "\<forall>v \<in> set vs. scalar_type_of v = t" for t
    using that by (rule non_packed_records)
  show ?A if ?packed
    using vs(1) that
    by (cases rule: list_valueE) (use vs(2) field_flags_test(8) [OF ok] in \<open>auto simp: unfolds\<close>)
  show ?B if "\<not> ?packed"
    using vs(1) that
  proof (cases rule: list_valueE)
    case (scalars t)
    with that vs(2) field_flags_test(8) [OF ok] np [OF scalars(3)] show ?thesis
      by (auto simp: unfolds wire_type_of_delimited)
  next
    case (enums es)
    with that vs(2) np [of T_int64] show ?thesis by (auto simp: unfolds)
  qed
qed

lemma serialize_submessage:
  assumes ser: "\<And>st. ser defaults c st = Some (ser_append fb st)" and "preserve \<or> unknownEntries c = []"
    and "fi_number fi = n" and "bs = fb @ unknown_bytes c"
  shows "serializeMessageField preserve ser defaults c fi st = Some (ser_append (message_record n bs) st)"
proof -
  have "serializeUnknownFields preserve c st = ser_append (unknown_bytes c) st" for st
    using assms(2) by (auto simp: serializeUnknownFields_def unknown_bytes_def)
  with assms show ?thesis
    by (simp add: serializeMessageField_def serializeMessageFieldBegin_def serializeMessageFieldEnd_def
        Let_def ser_append_def message_record_def)
qed

lemma serialize_message:
  assumes fits: "fits sc m i" and c: "message_value (m_kind sc m i) (m_member sc m i) = Some c"
    and ser: "\<And>st. ser defaults c st = Some (ser_append fb st)" and un: "preserve \<or> unknownEntries c = []"
    and bs: "bs = fb @ unknown_bytes c"
  shows "serialize_field sc p preserve ser defaults m i st =
    Some (ser_append (message_record (m_number sc m i) bs) st)"
proof -
  note ok = fits_ok [OF fits]
  have meta: "metaProperty sc m (f_pindex sc (msg_type m) i) = Some (f_prop sc (msg_type m) i)"
    using fits by (intro field_metaProperty) (simp_all add: fits_def)
  have pointee: "field_pointee sc m (f_info sc (msg_type m) i) = pointee (m_member sc m i)"
    by (simp add: field_pointee_def meta f_slot_def)
  note sub = serialize_submessage [of ser defaults c fb preserve "f_info sc (msg_type m) i", OF ser un f_info_simps(1) bs]
  note unfolds = serialize_field_def Let_def fits_facts(1,2) [OF fits] has_value_def read_member_def
    get_message_def get_oneof_message_def has_message_def default_message_def set_slot_same pointee sub
  from c show ?thesis
    by (cases rule: message_valueE) (use field_okD(1,6) [OF ok] in \<open>simp_all add: unfolds\<close>)
qed

lemma serialize_messages:
  assumes fits: "fits sc m i" and cs: "messages_value (m_kind sc m i) (m_member sc m i) = Some cs"
    and ser: "list_all2 (\<lambda>c bs. (preserve \<or> unknownEntries c = []) \<and>
      (\<exists>fb. bs = fb @ unknown_bytes c \<and> (\<forall>st. ser defaults c st = Some (ser_append fb st)))) cs cbs"
  shows "serialize_field sc p preserve ser defaults m i st =
    Some (ser_append (concat (map (message_record (m_number sc m i)) cbs)) st)"
proof -
  have "list_all2 (\<lambda>c bs. \<forall>st. serializeMessageField preserve ser defaults c (f_info sc (msg_type m) i) st =
      Some (ser_append (message_record (m_number sc m i) bs) st)) cs cbs"
    using ser by (rule list_all2_mono) (auto intro: serialize_submessage)
  note fold = fold_option_append2 [OF this]
  note unfolds = serialize_field_def Let_def fits_facts(1,2) [OF fits] has_value_def read_member_def fold
  from cs show ?thesis
    by (cases rule: messages_valueE) (simp_all add: unfolds)
qed


subsection \<open>Messages\<close>

lemma encodeHeader_nonempty [simp]: "0 < length (encodeHeader n w)"
  by (simp add: encodeHeader_def serializeVarintCommon_def serializeVarint_nonempty)

lemma message_record_length2: "length bs + 1 < length (message_record n bs)"
proof -
  have "0 < length (serializeVarintCommon (of_nat (length bs) :: 32 word))"
    by (simp add: serializeVarintCommon_def serializeVarint_nonempty)
  moreover note encodeHeader_nonempty [of n WT_LengthDelimited]
  ultimately show ?thesis unfolding message_record_def length_append by linarith
qed

lemma message_record_length: "length bs < length (message_record n bs)"
  using message_record_length2 [of bs n] by simp

lemma length_concat_records:
  "bs \<in> set cbs \<Longrightarrow> length bs < length (concat (map (message_record n) cbs))"
  using message_record_length [of bs n]
  by (induction cbs) (auto simp: trans_less_add1 trans_less_add2)

lemma length_concat_field:
  "i < k \<Longrightarrow> length (bss i) \<le> length (concat (map bss [0..<k]))"
  by (induction k) (auto simp: less_Suc_eq)

text \<open>What the walk over the fields writes: the encoding without the unknown fields.\<close>

definition writes :: "schema \<Rightarrow> platform \<Rightarrow> bool \<Rightarrow> qmessage \<Rightarrow> byte list \<Rightarrow> bool" where
  "writes sc p preserve m bs \<longleftrightarrow>
     (preserve \<or> unknownEntries m = []) \<and>
     (\<exists>fb. bs = fb @ unknown_bytes m \<and>
        (\<forall>fuel defaults st. length bs < fuel \<longrightarrow>
           serializeMessage fuel sc p preserve defaults m st = Some (ser_append fb st)))"

lemma wire_serialized:
  "wire_message sc p u m bs \<Longrightarrow> writes sc p u m bs"
  "wire_field sc p u m i bs \<Longrightarrow> fits sc m i \<Longrightarrow> length bs \<le> fuel \<Longrightarrow>
     serialize_field sc p u (serializeMessage fuel sc p u) defaults m i st = Some (ser_append bs st)"
proof (induction m bs and m i bs arbitrary: and fuel defaults st rule: wire_message_wire_field.inducts)
  case (wire_messageI m bss)
  let ?count = "f_count sc (msg_type m)" and ?bs = "concat (map bss [0..<f_count sc (msg_type m)])"
  have count: "nat (fieldCount (propertyOrdering sc m)) = ?count"
    by (simp add: f_count_def f_ordering_def propertyOrdering_def)
  have "serialize_field sc p u (serializeMessage fuel sc p u) defaults m i st =
      Some (ser_append (bss i) st)" if "length ?bs \<le> fuel" "i < ?count" for fuel defaults i st
  proof -
    have "fits sc m i" using wire_messageI that(2) by (simp add: fits_def class_ok_def)
    moreover have "length (bss i) \<le> fuel" using length_concat_field [OF that(2), of bss] that(1) by simp
    ultimately show ?thesis using wire_messageI that(2) by blast
  qed
  then have "serializeMessage (Suc fuel) sc p u defaults m st = Some (ser_append ?bs st)"
    if "length ?bs \<le> fuel" for fuel defaults st
    using that unfolding serializeMessage.simps count by (intro fold_option_append) simp
  then have "serializeMessage fuel sc p u defaults m st = Some (ser_append ?bs st)"
    if "length ?bs < fuel" for fuel defaults st
    using that by (cases fuel) (simp_all only: less_Suc_eq_le not_less_zero)
  moreover have "unknown_ok sc u m" by fact
  ultimately show ?case unfolding writes_def unknown_ok_def by auto
next
  case (wire_submessage m i c bs)
  then have "length bs < fuel" using message_record_length [of bs "m_number sc m i"] by simp
  with wire_submessage show ?case unfolding writes_def by (auto intro: serialize_message)
next
  case (wire_messages m i cs cbs)
  have "list_all2 (\<lambda>c bs. (u \<or> unknownEntries c = []) \<and> (\<exists>fb. bs = fb @ unknown_bytes c \<and>
      (\<forall>st. serializeMessage fuel sc p u defaults c st = Some (ser_append fb st)))) cs cbs"
  proof (rule list.rel_mono_strong [OF wire_messages.IH(2)])
    fix c bs assume "bs \<in> set cbs"
    then have "length bs < fuel"
      using length_concat_records [of bs cbs "m_number sc m i"] wire_messages.prems(2) by simp
    then show "wire_message sc p u c bs \<and> writes sc p u c bs \<Longrightarrow>
      (u \<or> unknownEntries c = []) \<and> (\<exists>fb. bs = fb @ unknown_bytes c \<and>
      (\<forall>st. serializeMessage fuel sc p u defaults c st = Some (ser_append fb st)))"
      unfolding writes_def by blast
  qed
  with wire_messages show ?case by (intro serialize_messages) auto
qed (auto simp: serialize_absent serialize_single serialize_list)

end
