(* ===== verification/WireRecords.thy ===== *)
theory WireRecords
  imports WireEncoding
begin

text \<open>
  The deserializer refines the wire format: it reads the encoding of a message back to that message.
  A record is read from the cached value of its field to the next one (\<open>reads_record\<close>), the records
  of a field follow one another (\<open>reads_records\<close>), and the fields of a message are committed one by
  one, so that after the records of the first \<open>j\<close> fields the message with the cached value stored is
  \<open>upto j\<close>.
\<close>

subsection \<open>Headers\<close>

text \<open>The deserializer stands before the bytes \<open>bs\<close> that are left of the current message.\<close>

definition ready :: "bool \<Rightarrow> deserializer \<Rightarrow> byte list \<Rightarrow> byte list \<Rightarrow> byte list \<Rightarrow> bool" where
  "ready q d pre bs post \<longleftrightarrow>
     d_it d = at_bytes pre bs post \<and> d_state d \<noteq> [] \<and> last (d_state d) = int (length pre + length bs) \<and>
     d_lastError d = NoError \<and> d_enforceRequired d \<and> d_preserve d = q"

lemma at_bytes_app: "at_bytes pre (xs @ bs) post = at_bytes pre xs (bs @ post)"
  by (simp add: at_bytes_def)

lemma at_bytes_done: "at_bytes (pre @ xs) [] (bs @ post) = at_bytes (pre @ xs) bs post"
  by (simp add: at_bytes_def)

lemma bit_wire_value: "bit (wire_value w) j \<Longrightarrow> j < 3"
proof -
  have "take_bit 3 (wire_value w) = wire_value w" by (cases w) simp_all
  then show "bit (wire_value w) j \<Longrightarrow> j < 3" by (metis bit_take_bit_iff)
qed

lemma bit_7: "bit (7 :: int) j \<longleftrightarrow> j < 3"
  using bit_mask_iff [of 3 j, where ?'a = int] by (simp add: mask_eq_exp_minus_1)

lemma header_word:
  assumes "0 < n" and "n < 2 ^ 29"
  shows "(push_bit 3 (word_of_int n) OR wire_value w :: 32 word) AND 7 = wire_value w"
    and "uint (drop_bit 3 (push_bit 3 (word_of_int n) OR wire_value w :: 32 word)) = n"
proof -
  show "(push_bit 3 (word_of_int n) OR wire_value w :: 32 word) AND 7 = wire_value w"
    by (rule bit_word_eqI) (auto simp: bit_and_iff bit_or_iff bit_push_bit_iff bit_7 dest: bit_wire_value)
  have "take_bit 29 n = n" using assms by (simp add: take_bit_int_eq_self_iff)
  then have n29: "bit n j \<Longrightarrow> j < 29" for j by (metis bit_take_bit_iff)
  have "drop_bit 3 (push_bit 3 (word_of_int n) OR wire_value w :: 32 word) = word_of_int n"
    by (rule bit_word_eqI)
       (auto simp: bit_or_iff bit_push_bit_iff bit_drop_bit_eq bit_word_of_int_iff dest: bit_wire_value n29)
  then show "uint (drop_bit 3 (push_bit 3 (word_of_int n) OR wire_value w :: 32 word)) = n"
    using assms by (simp add: uint_word_of_int)
qed

definition payload_type :: "wire_type \<Rightarrow> bool" where
  "payload_type w \<longleftrightarrow> w \<noteq> WT_StartGroup \<and> w \<noteq> WT_EndGroup"

lemma decodeHeader_encoded:
  assumes "0 < n" and "n < 2 ^ 29" and "payload_type w"
  shows "decodeHeader p (at_bytes pre (encodeHeader n w @ bs) post) wt =
    Ret (True, at_bytes (pre @ encodeHeader n w) bs post, n, wire_value w)"
proof -
  define h :: "32 word" where "h = push_bit 3 (word_of_int n) OR wire_value w"
  have "(deserializeVarintCommon p (at_bytes pre (encodeHeader n w @ bs) post) :: 32 word outcome) =
      Got h (at_bytes (pre @ encodeHeader n w) bs post)"
    using varint_common_roundtrip [of p pre h "bs @ post"]
    by (simp add: encodeHeader_def at_bytes_app at_bytes_done h_def)
  moreover have "h AND 7 = wire_value w" and "uint (drop_bit 3 h) = n"
    unfolding h_def by (rule header_word [OF assms(1,2)])+
  moreover have "wire_value w = 0 \<or> wire_value w = 1 \<or> wire_value w = 5 \<or> wire_value w = 2"
    using assms(3) by (cases w) (simp_all add: payload_type_def)
  moreover have "bytesLeft (at_bytes pre (encodeHeader n w @ bs) post) \<noteq> 0"
    unfolding bytesLeft_at_bytes length_append of_nat_add
    using encodeHeader_nonempty [of n w] by (intro length_sum_nonzero) simp
  ultimately show ?thesis
    using assms(1,2) by (simp add: decodeHeader_def)
qed

lemma not_at_end:
  "ready q d pre (xs @ bs) post \<Longrightarrow> xs \<noteq> [] \<Longrightarrow>
   isValid (d_it d) \<and> \<not> it_eq_ptr (d_it d) (last (d_state d))"
  by (auto simp: ready_def it_eq_ptr_def at_bytes_def simp flip: of_nat_add)
     (simp_all add: isValid_def container_end_def)

lemma next_plain:
  assumes "ready q d pre (encodeHeader (f_number sc t i) w @ bs) post" and "msg_type m = t"
    and "field_ok sc t i" and "\<not> message_kind (f_kind sc t i)" and "\<not> messages_kind (f_kind sc t i)"
    and "payload_type w"
  shows "nextFieldIndex (Suc k) sc p m d =
    Ret (int i, m, d\<lparr>d_it := at_bytes (pre @ encodeHeader (f_number sc t i) w) bs post,
      d_wireType := wire_value w\<rparr>)"
proof -
  have it: "d_it d = at_bytes pre (encodeHeader (f_number sc t i) w @ bs) post"
    using assms(1) by (simp add: ready_def)
  have "isValid (d_it d) \<and> \<not> it_eq_ptr (d_it d) (last (d_state d))"
    using not_at_end [OF assms(1)] encodeHeader_nonempty by blast
  moreover note decodeHeader_encoded [OF field_okD(1,2) [OF assms(3)] assms(6), of p pre bs post "d_wireType d"]
  moreover have "propertyOrdering sc m = f_ordering sc t"
    using assms(2) by (simp add: propertyOrdering_def f_ordering_def)
  ultimately show ?thesis
    using field_okD(3) [OF assms(3)] field_flags_test(5) [OF assms(3)] assms(4,5)
    by (simp add: it Let_def enter_field_def flip: f_flags_def)
qed

lemma next_message:
  assumes "ready q d pre (message_record (f_number sc t i) cb @ bs) post" and "msg_type m = t"
    and "field_ok sc t i" and "message_kind (f_kind sc t i) \<or> messages_kind (f_kind sc t i)"
    and "length cb < 2 ^ 31" and "length cb \<le> maxByteArray p"
  shows "\<exists>pre'. pre' @ cb = pre @ message_record (f_number sc t i) cb \<and>
    nextFieldIndex (Suc k) sc p m d =
      Ret (int i, m, d\<lparr>d_it := at_bytes pre' (cb @ bs) post, d_wireType := 2,
        d_state := d_state d @ [int (length pre' + length cb)]\<rparr>)"
proof -
  let ?h = "encodeHeader (f_number sc t i) WT_LengthDelimited"
  let ?l = "serializeVarintCommon (of_nat (length cb) :: 32 word)"
  have it: "d_it d = at_bytes pre (?h @ ?l @ cb @ bs) post"
    using assms(1) by (simp add: ready_def message_record_def)
  have "isValid (d_it d) \<and> \<not> it_eq_ptr (d_it d) (last (d_state d))"
    using not_at_end [of q d pre "message_record (f_number sc t i) cb" bs post] assms(1)
    by (auto simp: message_record_def simp flip: length_greater_0_conv)
  moreover note decodeHeader_encoded [OF field_okD(1,2) [OF assms(3)], of WT_LengthDelimited p pre "?l @ cb @ bs" post "d_wireType d"]
  moreover have "propertyOrdering sc m = f_ordering sc t"
    using assms(2) by (simp add: propertyOrdering_def f_ordering_def)
  moreover have n: "unat (of_nat (length cb) :: 32 word) = length cb"
    using assms(5) by (simp add: unsigned_of_nat take_bit_nat_eq_self)
  have len: "(deserializeVarintCommon p (at_bytes (pre @ ?h) (?l @ cb @ bs) post) :: 64 word outcome) =
      Got (of_nat (length cb)) (at_bytes (pre @ ?h @ ?l) (cb @ bs) post)"
  proof -
    have "(ucast (of_nat (length cb) :: 32 word) :: 64 word) = of_nat (length cb)"
      using n assms(5) by (intro word_eq_of_unat) (simp add: unsigned_ucast_eq take_bit_nat_eq_self)
    then show ?thesis
      using deserializeVarint_serialized [of p "pre @ ?h" "ucast (of_nat (length cb) :: 32 word)" "cb @ bs @ post", where ?'a = 64]
      by (simp add: serializeVarintCommon_def at_bytes_app at_bytes_done)
  qed
  moreover have "uint (of_nat (length cb) :: 64 word) = int (length cb)"
    and "unat (of_nat (length cb) :: 64 word) = length cb"
    using assms(5) by (simp_all add: unsigned_of_nat take_bit_nat_eq_self uint_nat)
  ultimately have "nextFieldIndex (Suc k) sc p m d =
      Ret (int i, m, d\<lparr>d_it := at_bytes (pre @ ?h @ ?l) (cb @ bs) post, d_wireType := 2,
        d_state := d_state d @ [int (length (pre @ ?h @ ?l) + length cb)]\<rparr>)"
    using field_okD(3) [OF assms(3)] field_flags_test(5) [OF assms(3)] assms(4,6)
    by (simp add: it Let_def enter_field_def payload_type_def flip: f_flags_def)
       (simp add: at_bytes_def)
  then show ?thesis by (intro exI [of _ "pre @ ?h @ ?l"]) (simp add: message_record_def)
qed


subsection \<open>Records\<close>

text \<open>
  The run of a message reader that succeeds: it ends behind the bytes \<open>bs\<close> of its message with the
  message \<open>M\<close>, one level lower on the stack and with an empty cache.
\<close>

definition finishes ::
  "(bool \<times> qmessage \<times> deserializer) run \<Rightarrow> deserializer \<Rightarrow> byte list \<Rightarrow> byte list \<Rightarrow> byte list \<Rightarrow> qmessage \<Rightarrow> bool"
  where
  "finishes r d pre bs post M \<longleftrightarrow>
     (\<exists>wt. r = Ret (True, M, d\<lparr>d_it := at_bytes (pre @ bs) [] post, d_state := butlast (d_state d),
        d_wireType := wt, d_cachedValue := Invalid, d_cachedIndex := -1\<rparr>))"

definition child_reads :: "schema \<Rightarrow> platform \<Rightarrow> bool \<Rightarrow> qmessage \<Rightarrow> byte list \<Rightarrow> bool" where
  "child_reads sc p q c bs \<longleftrightarrow>
     (\<forall>pre post d k. ready q d pre bs post \<longrightarrow> d_cachedIndex d = -1 \<longrightarrow> d_cachedValue d = Invalid \<longrightarrow>
        length bs + 1 < k \<longrightarrow>
        finishes (deserializeMessage k sc p (default_message sc (msg_type c)) d) d pre bs post c)"

text \<open>
  One record of field \<open>i\<close>: \<open>nextFieldIndex\<close> announces the field, and \<open>deserialize_field\<close> moves the
  message from \<open>m\<close> to \<open>m'\<close> and the cached value from \<open>v\<close> to \<open>v'\<close>.
\<close>

definition reads_record ::
  "schema \<Rightarrow> platform \<Rightarrow> bool \<Rightarrow> nat \<Rightarrow> nat \<Rightarrow> byte list \<Rightarrow> qmessage \<Rightarrow> variant \<Rightarrow> qmessage \<Rightarrow> variant \<Rightarrow> bool" where
  "reads_record sc p q t i rb m v m' v' \<longleftrightarrow>
     rb \<noteq> [] \<and> msg_type m' = msg_type m \<and>
     (\<forall>pre rest post d k. ready q d pre (rb @ rest) post \<longrightarrow> length rb \<le> k \<longrightarrow>
        (\<exists>d1 wt. (\<forall>m0. msg_type m0 = t \<longrightarrow> nextFieldIndex k sc p m0 d = Ret (int i, m0, d1)) \<and>
           d_cachedIndex d1 = d_cachedIndex d \<and> d_cachedValue d1 = d_cachedValue d \<and> d_enforceRequired d1 \<and>
           deserialize_field (\<lambda>c. deserializeMessage k sc p c) sc p (int i) m
             (d1\<lparr>d_cachedValue := v, d_cachedIndex := int i\<rparr>) =
           Ret (Continue m' (d\<lparr>d_it := at_bytes (pre @ rb) rest post, d_wireType := wt,
             d_cachedValue := v', d_cachedIndex := int i\<rparr>))))"

fun reads_records ::
  "schema \<Rightarrow> platform \<Rightarrow> bool \<Rightarrow> nat \<Rightarrow> nat \<Rightarrow> byte list list \<Rightarrow> qmessage \<Rightarrow> variant \<Rightarrow> qmessage \<Rightarrow> variant \<Rightarrow> bool" where
  "reads_records sc p q t i [] m v m' v' \<longleftrightarrow> m = m' \<and> v = v'"
| "reads_records sc p q t i (rb # rbs) m v m' v' \<longleftrightarrow>
     (\<exists>m1 v1. reads_record sc p q t i rb m v m1 v1 \<and> reads_records sc p q t i rbs m1 v1 m' v')"

lemma reads_records_snoc:
  "reads_records sc p q t i rbs m v m1 v1 \<Longrightarrow> reads_record sc p q t i rb m1 v1 m' v' \<Longrightarrow>
   reads_records sc p q t i (rbs @ [rb]) m v m' v'"
  by (induction rbs arbitrary: m v) auto

text \<open>What \<open>cache_field\<close> makes of a state depends on the cache only.\<close>

definition opens :: "schema \<Rightarrow> nat \<Rightarrow> qmessage \<Rightarrow> deserializer \<Rightarrow> qmessage \<Rightarrow> variant \<Rightarrow> bool" where
  "opens sc i m d m' v \<longleftrightarrow>
     (\<forall>d'. d_cachedIndex d' = d_cachedIndex d \<longrightarrow> d_cachedValue d' = d_cachedValue d \<longrightarrow>
        cache_field sc (int i) m d' = (True, m', d'\<lparr>d_cachedValue := v, d_cachedIndex := int i\<rparr>))"

lemma opens_same: "d_cachedIndex d = int i \<Longrightarrow> opens sc i m d m (d_cachedValue d)"
  by (simp add: opens_def cache_field_def)

text \<open>The rest of a message is read from any fuel that exceeds it.\<close>

definition completes ::
  "schema \<Rightarrow> platform \<Rightarrow> 64 word list \<Rightarrow> qmessage \<Rightarrow> deserializer \<Rightarrow> byte list \<Rightarrow> byte list \<Rightarrow> byte list \<Rightarrow> qmessage \<Rightarrow> bool"
  where
  "completes sc p seen m d pre bs post M \<longleftrightarrow>
     (\<forall>k. length bs + 1 < k \<longrightarrow> finishes (message_loop k sc p seen m d) d pre bs post M)"

definition after_record :: "deserializer \<Rightarrow> byte list \<Rightarrow> byte list \<Rightarrow> byte list \<Rightarrow> uint32 \<Rightarrow> variant \<Rightarrow> nat \<Rightarrow> deserializer" where
  "after_record d pre rest post wt v i =
     d\<lparr>d_it := at_bytes pre rest post, d_wireType := wt, d_cachedValue := v, d_cachedIndex := int i\<rparr>"

lemma ready_after:
  "ready q d pre (rb @ rest) post \<Longrightarrow> ready q (after_record d (pre @ rb) rest post wt v i) (pre @ rb) rest post"
  by (simp add: ready_def after_record_def)

lemma finishes_after:
  "finishes r (after_record d (pre @ rb) rest post wt v i) (pre @ rb) rest post M \<longleftrightarrow>
   finishes r d pre (rb @ rest) post M"
  by (simp add: finishes_def after_record_def)

lemma run_record:
  assumes r: "reads_record sc p q t i rb m2 v m3 v3" and d: "ready q d pre (rb @ rest) post"
    and o: "opens sc i m d m2 v" and "msg_type m = t"
    and cont: "\<And>wt. completes sc p (mark_seen i seen) m3 (after_record d (pre @ rb) rest post wt v3 i)
      (pre @ rb) rest post M"
  shows "completes sc p seen m d pre (rb @ rest) post M"
  unfolding completes_def
proof (intro allI impI)
  fix k assume k1: "length (rb @ rest) + 1 < k"
  then obtain n where k: "k = Suc n" by (cases k) simp_all
  have "0 < length rb" using r by (simp add: reads_record_def)
  with k1 k have n: "length rb \<le> n" "length rest + 1 < n" unfolding length_append by linarith+
  from r d n(1) obtain d1 wt where next1: "nextFieldIndex n sc p m d = Ret (int i, m, d1)"
    and d1: "d_cachedIndex d1 = d_cachedIndex d" "d_cachedValue d1 = d_cachedValue d" "d_enforceRequired d1"
    and field: "deserialize_field (\<lambda>c. deserializeMessage n sc p c) sc p (int i) m2
        (d1\<lparr>d_cachedValue := v, d_cachedIndex := int i\<rparr>) =
      Ret (Continue m3 (after_record d (pre @ rb) rest post wt v3 i))"
    using assms(4) unfolding reads_record_def after_record_def by metis
  have "cache_field sc (int i) m d1 = (True, m2, d1\<lparr>d_cachedValue := v, d_cachedIndex := int i\<rparr>)"
    using o d1 by (simp add: opens_def)
  with next1 d1(3) field have "message_loop k sc p seen m d =
      message_loop n sc p (mark_seen i seen) m3 (after_record d (pre @ rb) rest post wt v3 i)"
    by (simp add: k deserializeMessage_def [abs_def])
  with cont [of wt] n(2) show "finishes (message_loop k sc p seen m d) d pre (rb @ rest) post M"
    by (simp add: completes_def finishes_after)
qed

lemma mark_seen_idem [simp]: "mark_seen i (mark_seen i seen) = mark_seen i seen"
  by (cases "i div 64 < length seen") (simp_all add: mark_seen_def not_less list_update_beyond or.assoc)

lemma run_records:
  "reads_records sc p q t i (rb # rbs) m2 v m3 v3 \<Longrightarrow> ready q d pre (concat (rb # rbs) @ rest) post \<Longrightarrow>
   opens sc i m d m2 v \<Longrightarrow> msg_type m = t \<Longrightarrow> msg_type m2 = t \<Longrightarrow>
   (\<And>wt. completes sc p (mark_seen i seen) m3 (after_record d (pre @ concat (rb # rbs)) rest post wt v3 i)
      (pre @ concat (rb # rbs)) rest post M) \<Longrightarrow>
   completes sc p seen m d pre (concat (rb # rbs) @ rest) post M"
proof (induction rbs arbitrary: rb m m2 v d pre seen)
  case Nil
  then show ?case using run_record [of sc p q t i rb m2 v m3 v3 d pre rest post m seen M] by simp
next
  case (Cons rb' rbs)
  from Cons.prems(1) obtain m1 v1 where r: "reads_record sc p q t i rb m2 v m1 v1"
    and rs: "reads_records sc p q t i (rb' # rbs) m1 v1 m3 v3"
    unfolding reads_records.simps(2) [of _ _ _ _ _ rb] by blast
  let ?rest = "concat (rb' # rbs) @ rest"
  let ?d = "\<lambda>wt. after_record d (pre @ rb) ?rest post wt v1 i"
  have ready: "ready q d pre (rb @ ?rest) post" using Cons.prems(2) by simp
  have m1: "msg_type m1 = t" using r Cons.prems(5) by (simp add: reads_record_def)
  have "completes sc p (mark_seen i seen) m1 (?d wt) (pre @ rb) ?rest post M" for wt
  proof (rule Cons.IH [OF rs ready_after [OF ready] _ m1 m1])
    show "opens sc i m1 (?d wt) m1 v1"
      using opens_same [of "?d wt" i sc m1] by (simp add: after_record_def)
    show "completes sc p (mark_seen i (mark_seen i seen)) m3
        (after_record (?d wt) ((pre @ rb) @ concat (rb' # rbs)) rest post wt' v3 i)
        ((pre @ rb) @ concat (rb' # rbs)) rest post M" for wt'
      using Cons.prems(6) [of wt'] by (simp add: after_record_def)
  qed
  then have "completes sc p seen m d pre (rb @ ?rest) post M"
    using run_record [OF r ready Cons.prems(3,4)] by blast
  then show ?case by simp
qed

subsection \<open>Scalars, enumerations and lists\<close>

lemma reads_plain:
  assumes ok: "field_ok sc t i" "\<not> message_kind (f_kind sc t i)" "\<not> messages_kind (f_kind sc t i)"
    and w: "payload_type w"
    and deser: "\<And>reader pre rest post d. d_it d = at_bytes pre (pl @ rest) post \<Longrightarrow>
      d_wireType d = wire_value w \<Longrightarrow> d_cachedValue d = v \<Longrightarrow>
      deserialize_field reader sc p (int i) m d =
        Ret (Continue m (d\<lparr>d_it := at_bytes (pre @ pl) rest post, d_cachedValue := v'\<rparr>))"
  shows "reads_record sc p q t i (encodeHeader (f_number sc t i) w @ pl) m v m v'"
  unfolding reads_record_def
proof (intro conjI allI impI)
  let ?h = "encodeHeader (f_number sc t i) w"
  show "?h @ pl \<noteq> []" using encodeHeader_nonempty by simp
  fix pre rest post d k
  assume d: "ready q d pre ((?h @ pl) @ rest) post" and k: "length (?h @ pl) \<le> k"
  have "0 < length (?h @ pl)" using encodeHeader_nonempty [of "f_number sc t i" w] by simp
  with k obtain n where n: "k = Suc n" by (cases k) simp_all
  let ?d1 = "d\<lparr>d_it := at_bytes (pre @ ?h) (pl @ rest) post, d_wireType := wire_value w\<rparr>"
  have "\<forall>m0. msg_type m0 = t \<longrightarrow> nextFieldIndex k sc p m0 d = Ret (int i, m0, ?d1)"
    using next_plain [OF _ _ ok w, of q d pre "pl @ rest" post] d by (simp add: n)
  moreover have "deserialize_field (\<lambda>c. deserializeMessage k sc p c) sc p (int i) m
      (?d1\<lparr>d_cachedValue := v, d_cachedIndex := int i\<rparr>) =
    Ret (Continue m (d\<lparr>d_it := at_bytes (pre @ ?h @ pl) rest post, d_wireType := wire_value w,
      d_cachedValue := v', d_cachedIndex := int i\<rparr>))"
    by (subst deser [of _ "pre @ ?h" rest post]) simp_all
  ultimately show "\<exists>d1 wt. (\<forall>m0. msg_type m0 = t \<longrightarrow> nextFieldIndex k sc p m0 d = Ret (int i, m0, d1)) \<and>
      d_cachedIndex d1 = d_cachedIndex d \<and> d_cachedValue d1 = d_cachedValue d \<and> d_enforceRequired d1 \<and>
      deserialize_field (\<lambda>c. deserializeMessage k sc p c) sc p (int i) m
        (d1\<lparr>d_cachedValue := v, d_cachedIndex := int i\<rparr>) =
      Ret (Continue m (d\<lparr>d_it := at_bytes (pre @ ?h @ pl) rest post, d_wireType := wt,
        d_cachedValue := v', d_cachedIndex := int i\<rparr>))"
    using d by (intro exI [of _ ?d1] exI [of _ "wire_value w"]) (simp add: ready_def)
qed simp

lemma basic_read:
  "scalar_ok p v \<Longrightarrow>
   deserializeBasic p (scalar_type_of v) (at_bytes pre (serializeBasic p v @ rest) post) =
     Got v (at_bytes (pre @ serializeBasic p v) rest post)"
  by (simp add: at_bytes_app basic_roundtrip at_bytes_done)

lemma list_read:
  assumes "vs \<noteq> []" and "\<forall>v \<in> set vs. scalar_type_of v = t \<and> scalar_ok p v"
    and "length (serializeListType p vs) < 2 ^ 31"
  shows "deserializeList p t (at_bytes pre (serializeListType p vs @ rest) post) =
    Got vs (at_bytes (pre @ serializeListType p vs) rest post)"
proof -
  have "length (concat (map (serializeBasic p) vs)) < 2 ^ 63"
    using assms(1,3) by (simp add: serializeListType_def prependLengthDelimitedSize_def)
  from list_roundtrip [OF assms(1,2) this] show ?thesis by (simp add: at_bytes_app at_bytes_done)
qed

lemma wire_value_type_of [simp]: "wire_value (wire_type_of t) = 2 \<longleftrightarrow> is_length_delimited t"
  by (cases t) simp_all

lemma payload_type_of [simp]: "payload_type (wire_type_of t)" "payload_type WT_LengthDelimited" "payload_type WT_Varint"
  by (cases t; simp add: payload_type_def) (simp_all add: payload_type_def)

lemma enum_of_enum [simp]: "enum_of_int64 (enum_int64 e) = e"
  by (simp add: enum_int64_def ucast_scast_32)

lemma map_enum_of_enum [simp]: "map (\<lambda>e. enum_of_int64 (enum_int64 e)) es = es"
  by simp

lemma scalar_ok_enum [simp]: "scalar_ok p (enum_int64 e)"
  by (simp add: enum_int64_def)

lemma scalar_ok_packed: "\<not> is_length_delimited (scalar_type_of v) \<Longrightarrow> scalar_ok p v"
  by (cases v) simp_all

text \<open>A single scalar and a single enumerator.\<close>

lemma reads_scalar:
  assumes "field_ok sc t i" and "msg_type m = t" and "\<not> enum_kind (f_kind sc t i)" "\<not> messages_kind (f_kind sc t i)"
    "\<not> repeated_kind (f_kind sc t i)" "\<not> message_kind (f_kind sc t i)"
    and "scalar_type_of v0 = scalar_type_of v" and "scalar_ok p v"
  shows "reads_record sc p q t i (scalar_record p (f_number sc t i) v) m (Scalar v0) m (Scalar v)"
  unfolding scalar_record_def
proof (rule reads_plain)
  fix reader pre rest post and d :: deserializer
  assume d: "d_it d = at_bytes pre (serializeBasic p v @ rest) post"
    "d_wireType d = wire_value (wire_type_of (scalar_type_of v))" "d_cachedValue d = Scalar v0"
  note flags = field_flags_test [OF assms(1)]
  have "\<not> testFlags (f_flags sc t i) [Repeated]" using flags(2) assms(5) by (simp add: testFlag_def)
  then show "deserialize_field reader sc p (int i) m d =
      Ret (Continue m (d\<lparr>d_it := at_bytes (pre @ serializeBasic p v) rest post, d_cachedValue := Scalar v\<rparr>))"
    using assms flags(3,7) d basic_read [OF assms(8), of pre rest post]
    by (simp add: deserialize_field_def mk_field_info_eq deserializeScalarField_def scalar_handler_found
        scalar_handler_def handler_deserializer_def)
qed (use assms in simp_all)

lemma reads_enum:
  assumes "field_ok sc t i" and "msg_type m = t" and "enum_kind (f_kind sc t i)" "\<not> repeated_kind (f_kind sc t i)"
  shows "reads_record sc p q t i (scalar_record p (f_number sc t i) (enum_int64 e)) m (Enum e0) m (Scalar (enum_int64 e))"
  unfolding scalar_record_def
proof (rule reads_plain)
  fix reader pre rest post and d :: deserializer
  assume d: "d_it d = at_bytes pre (serializeBasic p (enum_int64 e) @ rest) post"
    "d_wireType d = wire_value (wire_type_of (scalar_type_of (enum_int64 e)))" "d_cachedValue d = Enum e0"
  show "deserialize_field reader sc p (int i) m d =
      Ret (Continue m (d\<lparr>d_it := at_bytes (pre @ serializeBasic p (enum_int64 e)) rest post,
        d_cachedValue := Scalar (enum_int64 e)\<rparr>))"
    using assms field_flags_test [OF assms(1)] d basic_read [OF scalar_ok_enum, of p e pre rest post]
    by (cases "f_kind sc t i") (simp_all add: deserialize_field_def mk_field_info_eq deserializeEnum_def)
qed (use assms in \<open>cases "f_kind sc t i"; simp\<close>)+

text \<open>A packed list, and one element of a list that is not packed.\<close>

lemma reads_packed:
  assumes "field_ok sc t i" and "msg_type m = t" and "vs \<noteq> []" and "length (serializeListType p vs) < 2 ^ 31"
  shows "f_kind sc t i = PK_scalars u \<Longrightarrow> \<not> is_length_delimited u \<Longrightarrow> \<forall>v \<in> set vs. scalar_type_of v = u \<Longrightarrow>
      reads_record sc p q t i (packed_record p (f_number sc t i) vs) m (Scalars u us) m (Scalars u vs)"
    and "f_kind sc t i = PK_enums \<Longrightarrow> vs = map enum_int64 es \<Longrightarrow>
      reads_record sc p q t i (packed_record p (f_number sc t i) vs) m (Enums fs) m (Enums es)"
proof -
  assume k: "f_kind sc t i = PK_scalars u" and u: "\<not> is_length_delimited u" and ty: "\<forall>v \<in> set vs. scalar_type_of v = u"
  show "reads_record sc p q t i (packed_record p (f_number sc t i) vs) m (Scalars u us) m (Scalars u vs)"
    unfolding packed_record_def
  proof (rule reads_plain)
    fix reader pre rest post and d :: deserializer
    assume d: "d_it d = at_bytes pre (serializeListType p vs @ rest) post"
      "d_wireType d = wire_value WT_LengthDelimited" "d_cachedValue d = Scalars u us"
    have "\<forall>v \<in> set vs. scalar_type_of v = u \<and> scalar_ok p v" using ty u by (auto intro: scalar_ok_packed)
    from list_read [OF assms(3) this assms(4), of pre rest post] d u k assms(2) field_flags_test [OF assms(1)]
    show "deserialize_field reader sc p (int i) m d =
        Ret (Continue m (d\<lparr>d_it := at_bytes (pre @ serializeListType p vs) rest post, d_cachedValue := Scalars u vs\<rparr>))"
      by (simp add: deserialize_field_def mk_field_info_eq deserializeScalarField_def list_handler_found
          list_handler_def handler_deserializer_def)
  qed (use assms k in simp_all)
next
  assume k: "f_kind sc t i = PK_enums" and vs: "vs = map enum_int64 es"
  show "reads_record sc p q t i (packed_record p (f_number sc t i) vs) m (Enums fs) m (Enums es)"
    unfolding packed_record_def
  proof (rule reads_plain)
    fix reader pre rest post and d :: deserializer
    assume d: "d_it d = at_bytes pre (serializeListType p vs @ rest) post"
      "d_wireType d = wire_value WT_LengthDelimited" "d_cachedValue d = Enums fs"
    have "\<forall>v \<in> set vs. scalar_type_of v = T_int64 \<and> scalar_ok p v" using vs by auto
    from list_read [OF assms(3) this assms(4), of pre rest post] d vs k assms(2) field_flags_test [OF assms(1)]
    show "deserialize_field reader sc p (int i) m d =
        Ret (Continue m (d\<lparr>d_it := at_bytes (pre @ serializeListType p vs) rest post, d_cachedValue := Enums es\<rparr>))"
      by (simp add: deserialize_field_def mk_field_info_eq deserializeEnum_def comp_def)
  qed (use assms k in simp_all)
qed

lemma reads_element:
  assumes "field_ok sc t i" and "msg_type m = t" and "scalar_ok p v"
  shows "f_kind sc t i = PK_scalars (scalar_type_of v) \<Longrightarrow>
      reads_record sc p q t i (scalar_record p (f_number sc t i) v) m
        (Scalars (scalar_type_of v) us) m (Scalars (scalar_type_of v) (us @ [v]))"
    and "f_kind sc t i = PK_enums \<Longrightarrow> v = enum_int64 e \<Longrightarrow>
      reads_record sc p q t i (scalar_record p (f_number sc t i) v) m (Enums es) m (Enums (es @ [e]))"
proof -
  let ?u = "scalar_type_of v"
  assume k: "f_kind sc t i = PK_scalars ?u"
  show "reads_record sc p q t i (scalar_record p (f_number sc t i) v) m (Scalars ?u us) m (Scalars ?u (us @ [v]))"
    unfolding scalar_record_def
  proof (rule reads_plain)
    fix reader pre rest post and d :: deserializer
    assume d: "d_it d = at_bytes pre (serializeBasic p v @ rest) post"
      "d_wireType d = wire_value (wire_type_of ?u)" "d_cachedValue d = Scalars ?u us"
    have "testFlags (f_flags sc t i) [Repeated]"
      using field_flags_test(2) [OF assms(1)] k by (simp add: testFlag_def)
    then show "deserialize_field reader sc p (int i) m d =
        Ret (Continue m (d\<lparr>d_it := at_bytes (pre @ serializeBasic p v) rest post,
          d_cachedValue := Scalars ?u (us @ [v])\<rparr>))"
      using basic_read [OF assms(3), of pre rest post] d k assms(2) field_flags_test [OF assms(1)]
      by (cases "is_length_delimited ?u")
        (simp_all add: deserialize_field_def mk_field_info_eq deserializeScalarField_def list_handler_found
          non_packed_list_handler_def handler_deserializer_def deserializeNonPackedList_def wire_type_of_delimited)
  qed (use assms k in simp_all)
next
  assume k: "f_kind sc t i = PK_enums" and v: "v = enum_int64 e"
  show "reads_record sc p q t i (scalar_record p (f_number sc t i) v) m (Enums es) m (Enums (es @ [e]))"
    unfolding scalar_record_def
  proof (rule reads_plain)
    fix reader pre rest post and d :: deserializer
    assume d: "d_it d = at_bytes pre (serializeBasic p v @ rest) post"
      "d_wireType d = wire_value (wire_type_of (scalar_type_of v))" "d_cachedValue d = Enums es"
    from basic_read [OF assms(3), of pre rest post] d v k assms(2) field_flags_test [OF assms(1)]
    show "deserialize_field reader sc p (int i) m d =
        Ret (Continue m (d\<lparr>d_it := at_bytes (pre @ serializeBasic p v) rest post, d_cachedValue := Enums (es @ [e])\<rparr>))"
      by (simp add: deserialize_field_def mk_field_info_eq deserializeEnum_def deserializeNonPackedList_def comp_def)
  qed (use assms k in simp_all)
qed

lemma reads_elements:
  assumes "field_ok sc t i" and "msg_type m = t" and "\<forall>v \<in> set vs. scalar_ok p v"
  shows "f_kind sc t i = PK_scalars u \<Longrightarrow> \<forall>v \<in> set vs. scalar_type_of v = u \<Longrightarrow>
      reads_records sc p q t i (map (scalar_record p (f_number sc t i)) vs) m (Scalars u us) m (Scalars u (us @ vs))"
    and "f_kind sc t i = PK_enums \<Longrightarrow> vs = map enum_int64 es \<Longrightarrow>
      reads_records sc p q t i (map (scalar_record p (f_number sc t i)) vs) m (Enums fs) m (Enums (fs @ es))"
proof -
  assume k: "f_kind sc t i = PK_scalars u" and ty: "\<forall>v \<in> set vs. scalar_type_of v = u"
  from ty assms(3)
  show "reads_records sc p q t i (map (scalar_record p (f_number sc t i)) vs) m (Scalars u us) m (Scalars u (us @ vs))"
  proof (induction vs arbitrary: us)
    case (Cons v vs)
    then have "scalar_type_of v = u" "scalar_ok p v" by simp_all
    with reads_element(1) [OF assms(1,2), of p v q us] k Cons.IH [of "us @ [v]"] Cons.prems show ?case by auto
  qed simp
next
  assume k: "f_kind sc t i = PK_enums" and "vs = map enum_int64 es"
  then show "reads_records sc p q t i (map (scalar_record p (f_number sc t i)) vs) m (Enums fs) m (Enums (fs @ es))"
  proof (induction es arbitrary: vs fs)
    case (Cons e es)
    from reads_element(2) [OF assms(1,2) scalar_ok_enum k refl, of p q e fs]
      Cons.IH [OF k refl, of "fs @ [e]"] Cons.prems show ?case by auto
  qed simp
qed


subsection \<open>Nested messages\<close>

lemma reads_nested:
  assumes ok: "field_ok sc t i" "message_kind (f_kind sc t i) \<or> messages_kind (f_kind sc t i)"
    and child: "child_reads sc p q c cb" "length cb < 2 ^ 31" "length cb \<le> maxByteArray p"
    and m': "msg_type m' = msg_type m"
    and deser: "\<And>reader d d'. d_cachedValue d = v \<Longrightarrow>
      deserializeMessageField reader (default_message sc (msg_type c)) (d\<lparr>d_cachedValue := w\<rparr>) =
        Ret (True, c, d'\<lparr>d_cachedValue := w\<rparr>) \<Longrightarrow>
      deserialize_field reader sc p (int i) m d = Ret (Continue m' (d'\<lparr>d_cachedValue := v'\<rparr>))"
  shows "reads_record sc p q t i (message_record (f_number sc t i) cb) m v m' v'"
  unfolding reads_record_def
proof (intro conjI allI impI)
  let ?rb = "message_record (f_number sc t i) cb"
  show "?rb \<noteq> []" using message_record_length [of cb "f_number sc t i"] by auto
  show "msg_type m' = msg_type m" by (rule m')
  fix pre rest post d k
  assume d: "ready q d pre (?rb @ rest) post" and k: "length ?rb \<le> k"
  have k': "length cb + 1 < k" using k message_record_length2 [of cb "f_number sc t i"] by simp
  then obtain n where n: "k = Suc n" by (cases k) simp_all
  obtain pre' where pre': "pre' @ cb = pre @ ?rb"
    and next1: "\<forall>m0. msg_type m0 = t \<longrightarrow> nextFieldIndex k sc p m0 d =
      Ret (int i, m0, d\<lparr>d_it := at_bytes pre' (cb @ rest) post, d_wireType := 2,
        d_state := d_state d @ [int (length pre' + length cb)]\<rparr>)"
    using next_message [OF d _ ok child(2,3), of _ n] by (auto simp: n message_record_def)
  let ?d1 = "d\<lparr>d_it := at_bytes pre' (cb @ rest) post, d_wireType := 2,
    d_state := d_state d @ [int (length pre' + length cb)]\<rparr>"
  let ?D = "?d1\<lparr>d_cachedValue := v, d_cachedIndex := int i\<rparr>"
  let ?reader = "\<lambda>c. deserializeMessage k sc p c"
  have "ready q (clearCachedValue ?D) pre' cb (rest @ post)"
    using d by (simp add: ready_def clearCachedValue_def at_bytes_app)
  then have "finishes (?reader (default_message sc (msg_type c)) (clearCachedValue ?D))
      (clearCachedValue ?D) pre' cb (rest @ post) c"
    using child(1) k' by (simp add: child_reads_def clearCachedValue_def)
  then obtain wt where "?reader (default_message sc (msg_type c)) (clearCachedValue ?D) =
      Ret (True, c, (clearCachedValue ?D)\<lparr>d_it := at_bytes (pre' @ cb) rest post, d_state := d_state d,
        d_wireType := wt, d_cachedValue := Invalid, d_cachedIndex := -1\<rparr>)"
    by (auto simp: finishes_def clearCachedValue_def at_bytes_done)
  then have "deserializeMessageField ?reader (default_message sc (msg_type c)) (?D\<lparr>d_cachedValue := w\<rparr>) =
      Ret (True, c, (d\<lparr>d_it := at_bytes (pre @ ?rb) rest post, d_wireType := wt,
        d_cachedIndex := int i\<rparr>)\<lparr>d_cachedValue := w\<rparr>)"
    by (simp add: deserializeMessageField_def clearCachedValue_def pre')
  from deser [OF _ this]
  have "deserialize_field ?reader sc p (int i) m ?D =
      Ret (Continue m' (d\<lparr>d_it := at_bytes (pre @ ?rb) rest post, d_wireType := wt,
        d_cachedValue := v', d_cachedIndex := int i\<rparr>))" by simp
  with next1 d
  show "\<exists>d1 wt. (\<forall>m0. msg_type m0 = t \<longrightarrow> nextFieldIndex k sc p m0 d = Ret (int i, m0, d1)) \<and>
      d_cachedIndex d1 = d_cachedIndex d \<and> d_cachedValue d1 = d_cachedValue d \<and> d_enforceRequired d1 \<and>
      deserialize_field ?reader sc p (int i) m (d1\<lparr>d_cachedValue := v, d_cachedIndex := int i\<rparr>) =
      Ret (Continue m' (d\<lparr>d_it := at_bytes (pre @ ?rb) rest post, d_wireType := wt,
        d_cachedValue := v', d_cachedIndex := int i\<rparr>))"
    by (intro exI [of _ ?d1] exI [of _ wt]) (simp add: ready_def)
qed

lemma default_message_type [simp]: "msg_type (default_message sc t) = t"
  by (simp add: default_message_def)

lemma field_pointee_slot:
  assumes "field_ok sc t i" "t < length sc" "msg_type m = t"
  shows "field_pointee sc m (f_info sc t i) = pointee (get_slot m (f_slot sc t i))"
    and "set_field_pointee sc (f_info sc t i) c m =
      set_slot (f_slot sc t i) (update_pointee c (get_slot m (f_slot sc t i))) m"
  using field_metaProperty(1) [OF assms] by (simp_all add: field_pointee_def set_field_pointee_def f_slot_def)

lemma reads_message:
  assumes ok: "field_ok sc t i" "t < length sc" "msg_type m = t" "message_kind (f_kind sc t i)"
    and child: "child_reads sc p q c cb" "length cb < 2 ^ 31" "length cb \<le> maxByteArray p"
    and dflt: "pointee (get_slot m (f_slot sc t i)) = Some (default_message sc (msg_type c))"
  shows "reads_record sc p q t i (message_record (f_number sc t i) cb) m (Ptr u)
    (set_slot (f_slot sc t i) (update_pointee c (get_slot m (f_slot sc t i))) m) (Ptr u)"
proof (rule reads_nested [OF ok(1) _ child, where w = "Ptr u"])
  fix reader :: message_reader and d d' :: deserializer
  assume v: "d_cachedValue d = Ptr u"
    and r: "deserializeMessageField reader (default_message sc (msg_type c)) (d\<lparr>d_cachedValue := Ptr u\<rparr>) =
      Ret (True, c, d'\<lparr>d_cachedValue := Ptr u\<rparr>)"
  from v have "d\<lparr>d_cachedValue := Ptr u\<rparr> = d" by (cases d) simp
  with r v show "deserialize_field reader sc p (int i) m d =
      Ret (Continue (set_slot (f_slot sc t i) (update_pointee c (get_slot m (f_slot sc t i))) m)
        (d'\<lparr>d_cachedValue := Ptr u\<rparr>))"
    by (simp add: deserialize_field_def mk_field_info_eq [OF ok(3)] field_pointee_slot [OF ok(1-3)] dflt)
qed (use ok in simp_all)

lemma reads_repeated:
  assumes ok: "field_ok sc t i" "msg_type m = t" "messages_kind (f_kind sc t i)"
    and child: "child_reads sc p q c cb" "length cb < 2 ^ 31" "length cb \<le> maxByteArray p"
  shows "msg_type c = u \<Longrightarrow> reads_record sc p q t i (message_record (f_number sc t i) cb) m (Msgs u cs) m (Msgs u (cs @ [c]))"
    and "msg_type c = u \<Longrightarrow> entry_ensure_value sc c = c \<Longrightarrow> reads_record sc p q t i (message_record (f_number sc t i) cb) m
      (MapOf u es) m (MapOf u (emplace_entry c es))"
proof -
  assume u: "msg_type c = u"
  show "reads_record sc p q t i (message_record (f_number sc t i) cb) m (Msgs u cs) m (Msgs u (cs @ [c]))"
  proof (rule reads_nested [OF ok(1) _ child, where w = "Msgs u (cs @ [default_message sc u])"])
    fix reader :: message_reader and d d' :: deserializer
    assume v: "d_cachedValue d = Msgs u cs"
      and r: "deserializeMessageField reader (default_message sc (msg_type c))
          (d\<lparr>d_cachedValue := Msgs u (cs @ [default_message sc u])\<rparr>) =
        Ret (True, c, d'\<lparr>d_cachedValue := Msgs u (cs @ [default_message sc u])\<rparr>)"
    from r v ok(3) u show "deserialize_field reader sc p (int i) m d =
        Ret (Continue m (d'\<lparr>d_cachedValue := Msgs u (cs @ [c])\<rparr>))"
      by (simp add: deserialize_field_def mk_field_info_eq [OF ok(2)] field_flags_test(7) [OF ok(1)])
  qed (use ok in simp_all)
next
  assume u: "msg_type c = u" and e: "entry_ensure_value sc c = c"
  show "reads_record sc p q t i (message_record (f_number sc t i) cb) m (MapOf u es) m (MapOf u (emplace_entry c es))"
  proof (rule reads_nested [OF ok(1) _ child, where w = "MapOf u es"])
    fix reader :: message_reader and d d' :: deserializer
    assume v: "d_cachedValue d = MapOf u es"
      and r: "deserializeMessageField reader (default_message sc (msg_type c))
          (d\<lparr>d_cachedValue := MapOf u es\<rparr>) = Ret (True, c, d'\<lparr>d_cachedValue := MapOf u es\<rparr>)"
    from r v ok(3) u e show "deserialize_field reader sc p (int i) m d =
        Ret (Continue m (d'\<lparr>d_cachedValue := MapOf u (emplace_entry c es)\<rparr>))"
      by (simp add: deserialize_field_def mk_field_info_eq [OF ok(2)] field_flags_test(7) [OF ok(1)])
  qed (use ok in simp_all)
qed

lemma entry_ok_ensure: "entry_ok e \<Longrightarrow> entry_ensure_value sc e = e"
proof -
  assume e: "entry_ok e"
  then obtain a b where ms: "msg_members e = [a, b]"
    by (auto simp: entry_ok_def length_Suc_conv eval_nat_numeral)
  with e show ?thesis
    by (auto simp: entry_ok_def entry_ensure_value_def get_slot_def eval_nat_numeral intro!: qmessage_eqI
        split: member.splits option.splits)
qed

lemma emplace_new: "entry_key e \<notin> entry_key ` set es \<Longrightarrow> emplace_entry e es = es @ [e]"
  by (induction es) auto

lemma reads_repeateds:
  assumes ok: "field_ok sc t i" "msg_type m = t" "messages_kind (f_kind sc t i)"
    and cs: "list_all2 (child_reads sc p q) cs cbs"
    and len: "\<forall>cb \<in> set cbs. length cb < 2 ^ 31" "\<forall>cb \<in> set cbs. length cb \<le> maxByteArray p"
  shows "\<forall>c \<in> set cs. msg_type c = u \<Longrightarrow>
      reads_records sc p q t i (map (message_record (f_number sc t i)) cbs) m (Msgs u ds) m (Msgs u (ds @ cs))"
    and "\<forall>c \<in> set cs. msg_type c = u \<and> entry_ok c \<Longrightarrow> distinct (map entry_key (es @ cs)) \<Longrightarrow>
      reads_records sc p q t i (map (message_record (f_number sc t i)) cbs) m (MapOf u es) m (MapOf u (es @ cs))"
proof -
  assume "\<forall>c \<in> set cs. msg_type c = u"
  with cs len show "reads_records sc p q t i (map (message_record (f_number sc t i)) cbs) m (Msgs u ds) m (Msgs u (ds @ cs))"
  proof (induction cs cbs arbitrary: ds rule: list_all2_induct)
    case (Cons c cs cb cbs)
    from Cons.hyps Cons.prems
    have "reads_record sc p q t i (message_record (f_number sc t i) cb) m (Msgs u ds) m (Msgs u (ds @ [c]))"
      by (intro reads_repeated(1) [OF ok]) simp_all
    with Cons.IH [of "ds @ [c]"] Cons.prems show ?case by auto
  qed simp
next
  assume "\<forall>c \<in> set cs. msg_type c = u \<and> entry_ok c" and "distinct (map entry_key (es @ cs))"
  with cs len show "reads_records sc p q t i (map (message_record (f_number sc t i)) cbs) m (MapOf u es) m (MapOf u (es @ cs))"
  proof (induction cs cbs arbitrary: es rule: list_all2_induct)
    case (Cons c cs cb cbs)
    have new: "emplace_entry c es = es @ [c]" using Cons.prems(4) by (intro emplace_new) auto
    from Cons.hyps Cons.prems
    have "reads_record sc p q t i (message_record (f_number sc t i) cb) m (MapOf u es) m (MapOf u (emplace_entry c es))"
      by (intro reads_repeated(2) [OF ok]) (simp_all add: entry_ok_ensure)
    with new Cons.IH [of "es @ [c]"] Cons.prems show ?case by auto
  qed simp
qed

end
