(* ===== verification/WireFields.thy ===== *)
theory WireFields
  imports WireRecords
begin

text \<open>
  The fields of a message: how a field is opened (its property is read into the cache) and committed
  (the cached value is stored), and what each kind of field makes of its records. The unknown fields
  are read back as well, record by record, into the entries that they came from.
\<close>

subsection \<open>Opening and committing a field\<close>

lemma open_field:
  assumes "fits sc M i"
  shows "messageProperty sc M (f_info sc (msg_type M) i) True =
    (fst (read_member sc (m_kind sc M i) (m_member sc M i)),
     set_slot (f_slot sc (msg_type M) i) (snd (read_member sc (m_kind sc M i) (m_member sc M i))) M)"
  using assms field_metaProperty(1) [of sc "msg_type M" i M]
  by (simp add: fits_def messageProperty_def readOnGadget_def case_prod_unfold Let_def f_kind_def f_slot_def)

lemma commit_field:
  assumes "fits sc M i"
  shows "setMessageProperty sc M (f_info sc (msg_type M) i) v =
    (case write_member (m_kind sc M i) (convert_for (m_kind sc M i) v) (m_member sc M i) of
       Some x \<Rightarrow> (True, set_slot (f_slot sc (msg_type M) i) x M) | None \<Rightarrow> (False, M))"
  using assms field_metaProperty(1) [of sc "msg_type M" i M]
  by (simp add: fits_def setMessageProperty_def writeOnGadget_def f_kind_def f_slot_def split: option.split)

lemma open_plain:
  assumes fits: "fits sc M i" and dflt: "m_member sc M i = default_member (m_kind sc M i)"
    and "\<not> message_kind (m_kind sc M i)"
  shows "messageProperty sc M (f_info sc (msg_type M) i) True =
    (fst (read_member sc (m_kind sc M i) (default_member (m_kind sc M i))), M)"
proof -
  have "snd (read_member sc (m_kind sc M i) (m_member sc M i)) = m_member sc M i"
    using assms(3) by (cases "m_kind sc M i") (simp_all add: read_member_def)
  then show ?thesis by (simp add: open_field [OF fits] set_slot_same dflt)
qed

lemma float_bits:
  "(a :: 32 word) AND 0x7FFFFFFF = 0 \<Longrightarrow> \<not> bit a 31 \<Longrightarrow> a = 0"
  "(b :: 64 word) AND 0x7FFFFFFFFFFFFFFF = 0 \<Longrightarrow> \<not> bit b 63 \<Longrightarrow> b = 0"
proof -
  have m: "(0x7FFFFFFF :: 32 word) = mask 31" "(0x7FFFFFFFFFFFFFFF :: 64 word) = mask 63"
    by (simp_all add: mask_eq_exp_minus_1)
  have z: "a = 0" if "a AND mask n = 0" "\<not> bit a n" "LENGTH('a) = Suc n" for a :: "'a::len word" and n
  proof (rule bit_word_eqI)
    fix j assume "j < LENGTH('a)"
    with that(3) have "j < n \<or> j = n" by auto
    moreover have "\<not> bit (a AND mask n) j" by (simp add: that(1))
    ultimately show "bit a j \<longleftrightarrow> bit 0 j"
      using that(2) \<open>j < LENGTH('a)\<close> by (auto simp: bit_and_iff bit_mask_iff)
  qed
  show "(a :: 32 word) AND 0x7FFFFFFF = 0 \<Longrightarrow> \<not> bit a 31 \<Longrightarrow> a = 0"
    unfolding m by (rule z) simp_all
  show "(b :: 64 word) AND 0x7FFFFFFFFFFFFFFF = 0 \<Longrightarrow> \<not> bit b 63 \<Longrightarrow> b = 0"
    unfolding m by (rule z) simp_all
qed

lemma set_plain_default:
  "set_plain (Scalar v) (M_plain (Scalar (default_scalar (scalar_type_of v)))) = M_plain (Scalar v)"
  if "scalar_type_of v \<noteq> T_float" "scalar_type_of v \<noteq> T_double"
  using that by (cases v) (auto simp: set_plain_def variant_eq_def scalar_eq_def)

lemma set_floating_default:
  "set_floating v (M_plain (Scalar (default_scalar (scalar_type_of v)))) = M_plain (Scalar v)"
  if "scalar_type_of v = T_float \<or> scalar_type_of v = T_double"
  using that by (cases v) (auto simp: set_floating_def scalar_eq_def float_eq_def double_eq_def Let_def float_bits)

lemma default_scalar_type [simp]: "scalar_type_of (default_scalar t) = t"
  by (cases t) simp_all

definition field_reads :: "schema \<Rightarrow> platform \<Rightarrow> bool \<Rightarrow> qmessage \<Rightarrow> nat \<Rightarrow> byte list list \<Rightarrow> member \<Rightarrow> bool" where
  "field_reads sc p q M i rbs x \<longleftrightarrow>
     (\<exists>v m2 v3 m3. messageProperty sc M (f_info sc (msg_type M) i) True = (v, m2) \<and> msg_type m2 = msg_type M \<and>
        reads_records sc p q (msg_type M) i rbs m2 v m3 v3 \<and> msg_type m3 = msg_type M \<and>
        setMessageProperty sc m3 (f_info sc (msg_type M) i) v3 =
          (True, set_slot (f_slot sc (msg_type M) i) x M) \<and> \<not> isNull v3)"

lemma field_readsI:
  assumes "reads_records sc p q (msg_type M) i rbs m2 v m3 v3"
    and "messageProperty sc M (f_info sc (msg_type M) i) True = (v, m2)" and "msg_type m2 = msg_type M"
    and "msg_type m3 = msg_type M" and "\<not> isNull v3"
    and "setMessageProperty sc m3 (f_info sc (msg_type M) i) v3 = (True, set_slot (f_slot sc (msg_type M) i) x M)"
  shows "field_reads sc p q M i rbs x"
  using assms unfolding field_reads_def by blast

lemma reads_one: "reads_record sc p q t i rb m v m' v' \<Longrightarrow> reads_records sc p q t i [rb] m v m' v'"
  by simp

lemma fits_set_slot: "fits sc M i \<Longrightarrow> fits sc (set_slot s x M) i"
  by (simp add: fits_def)

text \<open>A field with an empty slot takes the value of the message that was encoded.\<close>

lemma field_reads_single:
  assumes fits: "fits sc M i" and dflt: "m_member sc M i = default_member (m_kind sc M i)"
    and v: "single_value (m_kind sc M i) req x = Some v" "scalar_ok p v"
  shows "field_reads sc p q M i [scalar_record p (m_number sc M i) v] x"
proof -
  note ok = fits_ok [OF fits]
  note unfolds = open_plain [OF fits dflt] commit_field [OF fits] dflt read_member_def
    write_member_def convert_for_def get_optional_def get_oneof_def new_oneof_def
  have num: "oneof_number (m_kind sc M i) = Some n \<Longrightarrow> n \<noteq> 0" for n
    using field_okD(1) [OF ok] field_okD(6) [OF ok] by fastforce
  have scalar': "reads_record sc p q (msg_type M) i (scalar_record p (m_number sc M i) v) M
      (Scalar (default_scalar (scalar_type_of v))) M (Scalar v)"
    if "\<not> enum_kind (m_kind sc M i)" "\<not> messages_kind (m_kind sc M i)"
      "\<not> repeated_kind (m_kind sc M i)" "\<not> message_kind (m_kind sc M i)"
    using that v(2) by (intro reads_scalar [OF ok refl]) simp_all
  have enum': "reads_record sc p q (msg_type M) i (scalar_record p (m_number sc M i) (enum_int64 e)) M (Enum 0)
      M (Scalar (enum_int64 e))" if "enum_kind (m_kind sc M i)" "\<not> repeated_kind (m_kind sc M i)" for e
    using that by (intro reads_enum [OF ok refl])
  from v(1) show ?thesis
  proof (cases rule: single_valueE)
    case (scalar t)
    then show ?thesis
      by (intro field_readsI [OF reads_one [OF scalar']])
        (use set_floating_default [of v] in \<open>auto simp: unfolds set_plain_default\<close>)
  next
    case (enum e)
    then show ?thesis
      unfolding enum(3) by (intro field_readsI [OF reads_one [OF enum']])
        (auto simp: unfolds set_plain_def variant_eq_def enum_int64_def ucast_scast_32)
  next
    case (optional t)
    then show ?thesis
      by (intro field_readsI [OF reads_one [OF scalar']]) (auto simp: unfolds set_optional_def has_optional_def)
  next
    case (optional_enum e)
    then show ?thesis
      unfolding optional_enum(3) by (intro field_readsI [OF reads_one [OF enum']])
        (auto simp: unfolds set_optional_def has_optional_def enum_int64_def ucast_scast_32)
  next
    case (oneof t n)
    with num show ?thesis
      by (intro field_readsI [OF reads_one [OF scalar']]) (auto simp: unfolds set_oneof_def)
  next
    case (oneof_enum n e)
    with num show ?thesis
      unfolding oneof_enum(3) by (intro field_readsI [OF reads_one [OF enum']])
        (auto simp: unfolds set_oneof_def enum_int64_def ucast_scast_32)
  qed
qed

lemma field_reads_list:
  assumes fits: "fits sc M i" and dflt: "m_member sc M i = default_member (m_kind sc M i)"
    and vs: "list_value (m_kind sc M i) x = Some vs" "vs \<noteq> []"
  shows "list_packed (m_kind sc M i) np \<Longrightarrow> length (serializeListType p vs) < 2 ^ 31 \<Longrightarrow>
      field_reads sc p q M i [packed_record p (m_number sc M i) vs] x"
    and "\<forall>v \<in> set vs. scalar_ok p v \<Longrightarrow>
      field_reads sc p q M i (map (scalar_record p (m_number sc M i)) vs) x"
proof -
  note ok = fits_ok [OF fits]
  note unfolds = open_plain [OF fits dflt] commit_field [OF fits] dflt read_member_def
    write_member_def convert_for_def set_plain_def variant_eq_def
  show "field_reads sc p q M i [packed_record p (m_number sc M i) vs] x"
    if "list_packed (m_kind sc M i) np" "length (serializeListType p vs) < 2 ^ 31"
    using vs(1)
  proof (cases rule: list_valueE)
    case (scalars t)
    with that(1) vs(2) show ?thesis
      by (intro field_readsI [OF reads_one [OF reads_packed(1) [OF ok refl vs(2) that(2)]]]) (auto simp: unfolds)
  next
    case (enums es)
    with vs(2) show ?thesis
      by (intro field_readsI [OF reads_one [OF reads_packed(2) [OF ok refl vs(2) that(2)]]]) (auto simp: unfolds)
  qed
  show "field_reads sc p q M i (map (scalar_record p (m_number sc M i)) vs) x"
    if "\<forall>v \<in> set vs. scalar_ok p v"
    using vs(1)
  proof (cases rule: list_valueE)
    case (scalars t)
    with vs(2) show ?thesis
      by (intro field_readsI [OF reads_elements(1) [OF ok refl that]]) (auto simp: unfolds)
  next
    case (enums es)
    with vs(2) show ?thesis
      by (intro field_readsI [OF reads_elements(2) [OF ok refl that]]) (auto simp: unfolds)
  qed
qed

lemma field_reads_message:
  assumes fits: "fits sc M i" and dflt: "m_member sc M i = default_member (m_kind sc M i)"
    and c: "message_value (m_kind sc M i) x = Some c"
    and child: "child_reads sc p q c cb" "length cb < 2 ^ 31" "length cb \<le> maxByteArray p"
  shows "field_reads sc p q M i [message_record (m_number sc M i) cb] x"
proof -
  note ok = fits_ok [OF fits]
  have type: "msg_type M < length sc" using fits by (simp add: fits_def)
  let ?s = "f_slot sc (msg_type M) i"
  note slot = fits_facts(3) [OF fits]
  from c show ?thesis
  proof (cases rule: message_valueE)
    case message
    let ?m2 = "set_slot ?s (M_message (msg_type c) (Some (default_message sc (msg_type c)))) M"
    from reads_message [OF ok type, of ?m2 p q c cb "msg_type c"] message child slot
    have r: "reads_record sc p q (msg_type M) i (message_record (m_number sc M i) cb) ?m2 (Ptr (msg_type c))
        (set_slot ?s x M) (Ptr (msg_type c))"
      by simp
    have "setMessageProperty sc (set_slot ?s x M) (f_info sc (msg_type M) i) (Ptr (msg_type c)) =
        (True, set_slot ?s x M)"
      using message slot commit_field [OF fits_set_slot [OF fits], of ?s x "Ptr (msg_type c)"]
      by (simp add: write_member_def convert_for_def set_message_ptr_def)
    with message show ?thesis
      by (intro field_readsI [OF reads_one [OF r]])
        (auto simp: open_field [OF fits] dflt read_member_def get_message_def)
  next
    case (oneof n)
    have num: "n \<noteq> 0" using field_okD(1,6) [OF ok] oneof(1) by force
    let ?m2 = "set_slot ?s (M_oneof (Msg (default_message sc (msg_type c))) 0) M"
    let ?m3 = "set_slot ?s (M_oneof (Msg c) 0) M"
    from reads_message [OF ok type, of ?m2 p q c cb "msg_type c"] oneof child slot
    have r: "reads_record sc p q (msg_type M) i (message_record (m_number sc M i) cb) ?m2 (Ptr (msg_type c))
        ?m3 (Ptr (msg_type c))"
      by simp
    have "setMessageProperty sc ?m3 (f_info sc (msg_type M) i) (Ptr (msg_type c)) = (True, set_slot ?s x M)"
      using oneof slot num commit_field [OF fits_set_slot [OF fits], of ?s "M_oneof (Msg c) 0" "Ptr (msg_type c)"]
      by (simp add: write_member_def convert_for_def set_oneof_message_ptr_def set_oneof_def)
    with oneof show ?thesis
      by (intro field_readsI [OF reads_one [OF r]])
        (auto simp: open_field [OF fits] dflt read_member_def get_oneof_message_def new_oneof_def)
  qed
qed

lemma field_reads_messages:
  assumes fits: "fits sc M i" and dflt: "m_member sc M i = default_member (m_kind sc M i)"
    and cs: "messages_value (m_kind sc M i) x = Some cs" "cs \<noteq> []"
    and children: "list_all2 (child_reads sc p q) cs cbs"
    and len: "\<forall>cb \<in> set cbs. length cb < 2 ^ 31" "\<forall>cb \<in> set cbs. length cb \<le> maxByteArray p"
  shows "field_reads sc p q M i (map (message_record (m_number sc M i)) cbs) x"
proof -
  note ok = fits_ok [OF fits]
  note unfolds = open_plain [OF fits dflt] commit_field [OF fits] dflt read_member_def
    write_member_def convert_for_def set_plain_def variant_eq_def
  from cs(1) show ?thesis
  proof (cases rule: messages_valueE)
    case (messages t)
    with cs(2) show ?thesis
      by (intro field_readsI [OF reads_repeateds(1) [OF ok refl _ children len]]) (auto simp: unfolds)
  next
    case (map_field t)
    with cs(2) show ?thesis
      by (intro field_readsI [OF reads_repeateds(2) [OF ok refl _ children len]]) (auto simp: unfolds)
  qed
qed

subsection \<open>Unknown fields\<close>

lemma encodeHeader_not_Nil: "encodeHeader n w \<noteq> []"
  using encodeHeader_nonempty [of n w] by simp

lemma skipVarint_raw:
  "bs \<noteq> [] \<Longrightarrow> last bs AND 0x80 = 0 \<Longrightarrow> \<forall>b \<in> set (butlast bs). b AND 0x80 \<noteq> 0 \<Longrightarrow>
   skipVarint p (at_bytes pre (bs @ rest) post) = Ret (at_bytes (pre @ bs) rest post)"
proof (induction bs arbitrary: pre)
  case (Cons b bs)
  show ?case
  proof (cases "bs = []")
    case True
    with Cons.prems show ?thesis by (simp add: skipVarint.simps it_inc_at_bytes)
  next
    case False
    with Cons.prems Cons.IH [of "pre @ [b]"] show ?thesis
      by (simp add: skipVarint.simps [of p "at_bytes pre (b # bs @ rest) post"] it_inc_at_bytes)
  qed
qed simp

lemma skip_raw:
  assumes "raw_payload w pl"
  shows "skip_bytes p (wire_value w) (at_bytes pre (pl @ rest) post) = Ret (at_bytes (pre @ pl) rest post)"
proof (cases w)
  case WT_Varint
  with assms skipVarint_raw [of pl p pre rest post] show ?thesis by (simp add: skip_bytes_def)
next
  case WT_LengthDelimited
  with assms obtain cs where pl: "pl = serializeVarintCommonImpl (of_nat (length cs)) @ cs" "length cs < 2 ^ 63"
    by auto
  let ?h = "serializeVarintCommonImpl (of_nat (length cs))"
  have n: "sint (of_nat (length cs) :: 64 word) = int (length cs)"
    using pl(2) by (simp add: signed_of_nat signed_take_bit_int_eq_self)
  have "(deserializeVarintCommon p (at_bytes pre (?h @ cs @ rest) post) :: 64 word outcome) =
      Got (of_nat (length cs)) (at_bytes (pre @ ?h) (cs @ rest) post)"
    using deserializeVarint_serialized [of p pre "of_nat (length cs)" "cs @ rest @ post", where ?'a = 64]
    by (simp add: at_bytes_app at_bytes_done)
  then show ?thesis
    using it_add_at_bytes [of "pre @ ?h" cs rest post]
    by (simp add: WT_LengthDelimited skip_bytes_def skipLengthDelimited_def pl(1) n)
next
  case WT_Fixed32
  with assms it_add_at_bytes [of pre pl rest post] show ?thesis by (simp add: skip_bytes_def)
next
  case WT_Fixed64
  with assms it_add_at_bytes [of pre pl rest post] show ?thesis by (simp add: skip_bytes_def)
qed (use assms in simp_all)

lemma next_unknown:
  assumes d: "ready True d pre (l @ rest) post" and raw: "raw_record n l"
    and unknown: "indexOfFieldNumber (propertyOrdering sc m) n = -1"
  shows "\<exists>wt. nextFieldIndex (Suc k) sc p m d =
    nextFieldIndex k sc p (storeUnknownEntry m l n)
      (d\<lparr>d_it := at_bytes (pre @ l) rest post, d_wireType := wt\<rparr>)"
proof -
  obtain w pl where l: "l = encodeHeader n w @ pl" and w: "raw_payload w pl" and n: "0 < n" "n < 2 ^ 29"
    using raw by (auto simp: raw_record_def)
  have pw: "payload_type w" using w by (cases w) (simp_all add: payload_type_def)
  have it: "d_it d = at_bytes pre (encodeHeader n w @ pl @ rest) post" using d by (simp add: ready_def l)
  have "isValid (d_it d) \<and> \<not> it_eq_ptr (d_it d) (last (d_state d))"
    using not_at_end [OF d] encodeHeader_nonempty [of n w] by (auto simp: l)
  moreover note decodeHeader_encoded [OF n pw, of p pre "pl @ rest" post "d_wireType d"]
  moreover have "skip_bytes p (wire_value w) (at_bytes (pre @ encodeHeader n w) (pl @ rest) post) =
      Ret (at_bytes (pre @ l) rest post)"
    using skip_raw [OF w, of p "pre @ encodeHeader n w" rest post] by (simp add: l)
  moreover have "it_read p (d_it d) (length l) = l"
    using it_read_at_bytes [of p pre l rest post] by (simp add: it l)
  moreover have "it_diff (at_bytes (pre @ l) rest post) (d_it d) = int (length l)"
    by (simp add: it it_diff_def at_bytes_def)
  moreover have "d_preserve d" using d by (simp add: ready_def)
  moreover have "0 < length l" using encodeHeader_nonempty [of n w] by (simp add: l)
  ultimately show ?thesis
    using unknown by (intro exI [of _ "wire_value w"]) (simp add: it skipField_def Let_def, cases d, simp)
qed

text \<open>The records behind the unknown entries, one by one.\<close>

definition flat_entries :: "(int \<times> byte list list) list \<Rightarrow> (int \<times> byte list) list" where
  "flat_entries es = concat (map (\<lambda>(n, ls). map (Pair n) ls) es)"

lemma flat_entries_bytes: "concat (map snd (flat_entries (unknownEntries m))) = unknown_bytes m"
proof -
  have "concat (map snd (flat_entries es)) = concat (map (\<lambda>(n, ls). concat ls) es)" for es
    by (induction es) (auto simp: flat_entries_def comp_def)
  then show ?thesis by (simp add: unknown_bytes_def)
qed

definition with_unknown :: "(int \<times> byte list list) list \<Rightarrow> qmessage \<Rightarrow> qmessage" where
  "with_unknown es m = QMessage (msg_type m) (msg_members m) es"

lemma with_unknown_simps [simp]:
  "msg_type (with_unknown es m) = msg_type m" "msg_members (with_unknown es m) = msg_members m"
  "unknownEntries (with_unknown es m) = es" "with_unknown es (with_unknown fs m) = with_unknown es m"
  "with_unknown (unknownEntries m) m = m"
  by (simp_all add: with_unknown_def)

lemma storeUnknown_with: "storeUnknownEntry m l n = with_unknown (append_entry n l (unknownEntries m)) m"
  by (simp add: storeUnknownEntry_def with_unknown_def)

lemma append_entry_new: "n \<notin> fst ` set es \<Longrightarrow> append_entry n l es = es @ [(n, [l])]"
  by (induction es) auto

lemma append_entry_last: "n \<notin> fst ` set es \<Longrightarrow> append_entry n l (es @ [(n, ls)]) = es @ [(n, ls @ [l])]"
  by (induction es) auto

lemma fold_append_entry:
  "n \<notin> fst ` set es \<Longrightarrow>
   fold (\<lambda>(n, l). append_entry n l) (map (Pair n) ls) (es @ [(n, ks)]) = es @ [(n, ks @ ls)]"
  by (induction ls arbitrary: ks) (simp_all add: append_entry_last)

lemma fold_flat_entries:
  "distinct (map fst (es @ fs)) \<Longrightarrow> \<forall>(n, ls) \<in> set fs. ls \<noteq> [] \<Longrightarrow>
   fold (\<lambda>(n, l). append_entry n l) (flat_entries fs) es = es @ fs"
proof (induction fs arbitrary: es)
  case (Cons f fs)
  obtain n l ls where f: "f = (n, l # ls)" using Cons.prems(2) by (cases f; cases "snd f") auto
  have "n \<notin> fst ` set es" using Cons.prems(1) by (auto simp: f)
  then have "fold (\<lambda>(n, l). append_entry n l) (map (Pair n) (l # ls)) es = es @ [f]"
    using fold_append_entry [of n es ls "[l]"] by (simp add: append_entry_new f)
  with Cons.IH [of "es @ [f]"] Cons.prems show ?case by (simp add: flat_entries_def f)
qed (simp add: flat_entries_def)

lemma next_unknowns:
  "ready True d pre (concat (map snd rs)) post \<Longrightarrow>
   \<forall>(n, l) \<in> set rs. raw_record n l \<and> indexOfFieldNumber (propertyOrdering sc m) n = -1 \<Longrightarrow>
   length (concat (map snd rs)) < k \<Longrightarrow>
   \<exists>wt. nextFieldIndex k sc p m d =
     Ret (-1, with_unknown (fold (\<lambda>(n, l). append_entry n l) rs (unknownEntries m)) m,
       d\<lparr>d_it := at_bytes (pre @ concat (map snd rs)) [] post, d_state := butlast (d_state d), d_wireType := wt\<rparr>)"
proof (induction rs arbitrary: m d pre k)
  case Nil
  then obtain n where "k = Suc n" by (cases k) auto
  with Nil show ?case
    by (auto simp: ready_def it_eq_ptr_def intro!: exI [of _ "d_wireType d"]) (simp_all add: at_bytes_def)
next
  case (Cons r rs)
  obtain n l where r: "r = (n, l)" by (cases r)
  let ?rest = "concat (map snd rs)"
  have raw: "raw_record n l" "indexOfFieldNumber (propertyOrdering sc m) n = -1"
    using Cons.prems(2) by (auto simp: r)
  obtain j where k: "k = Suc j" using Cons.prems(3) by (cases k) auto
  have len: "0 < length l"
    using raw(1) by (auto simp: raw_record_def encodeHeader_not_Nil)
  let ?m = "storeUnknownEntry m l n"
  from next_unknown [OF _ raw, of d pre ?rest post j p] Cons.prems(1)
  obtain wt where 1: "nextFieldIndex k sc p m d =
      nextFieldIndex j sc p ?m (d\<lparr>d_it := at_bytes (pre @ l) ?rest post, d_wireType := wt\<rparr>)"
    by (auto simp: r k)
  let ?d = "d\<lparr>d_it := at_bytes (pre @ l) ?rest post, d_wireType := wt\<rparr>"
  have po: "propertyOrdering sc ?m = propertyOrdering sc m"
    by (simp add: propertyOrdering_def storeUnknownEntry_def)
  have "\<exists>wt. nextFieldIndex j sc p ?m ?d =
      Ret (-1, with_unknown (fold (\<lambda>(n, l). append_entry n l) rs (unknownEntries ?m)) ?m,
        ?d\<lparr>d_it := at_bytes ((pre @ l) @ ?rest) [] post, d_state := butlast (d_state ?d), d_wireType := wt\<rparr>)"
  proof (rule Cons.IH)
    have "length l + length ?rest < Suc j" using Cons.prems(3) by (simp add: r k)
    with len show "length ?rest < j" by linarith
  qed (use Cons.prems in \<open>auto simp: r k ready_def po\<close>)
  with 1 show ?case by (simp add: r storeUnknown_with)
qed

lemma setMessageProperty_unknown:
  "setMessageProperty sc (with_unknown es m) fi v =
     (fst (setMessageProperty sc m fi v), with_unknown es (snd (setMessageProperty sc m fi v)))"
  by (auto simp: setMessageProperty_def writeOnGadget_def metaProperty_def get_slot_def set_slot_def
      with_unknown_def split: option.splits)

lemma setMessageProperty_keeps: "unknownEntries (snd (setMessageProperty sc m fi v)) = unknownEntries m"
  by (auto simp: setMessageProperty_def writeOnGadget_def split: option.splits)

lemma storeCachedValue_unknown:
  "storeCachedValue sc m d = (ok, m', d') \<Longrightarrow>
   storeCachedValue sc (with_unknown es m) d = (ok, with_unknown es m', d') \<and>
   unknownEntries m' = unknownEntries m"
  using setMessageProperty_keeps [of sc m "mk_field_info sc m (d_cachedIndex d)" "d_cachedValue d"]
  by (auto simp: storeCachedValue_def mk_field_info_def propertyOrdering_def setMessageProperty_unknown
      split: if_splits prod.splits)

end
