(* ===== verification/GeneratedClasses.thy ===== *)
theory GeneratedClasses
  imports WireFormat
begin

text \<open>
  What \<open>qtprotobufgen\<close> prints for a message (src/src/tools): the flags of a field
  (generatorcommon.cpp), the table of the property ordering with its strings
  (messagedefinitionprinter.cpp), the properties (messagedeclarationprinter.cpp) and the members of
  the data class. The descriptors come from libprotoc; a record holds the answers of the accessors
  that the generator asks. The printed C++ text is modelled by the values it denotes.
\<close>

subsection \<open>Descriptors\<close>

datatype field_type = TYPE_SCALAR scalar_type | TYPE_ENUM | TYPE_MESSAGE nat | TYPE_GROUP

record field_descriptor =
  desc_type :: field_type
  desc_number :: nat
  desc_json_name :: "byte list"
  is_map :: bool
  is_repeated :: bool
  is_required :: bool
  is_packed :: bool
  has_presence :: bool
  real_containing_oneof :: "nat option"
  desc_message_name :: string
  desc_package :: string

record message_descriptor =
  desc_full_name :: "byte list"
  desc_fields :: "field_descriptor list"
  real_oneof_decl_count :: nat

fun is_message_type :: "field_type \<Rightarrow> bool" where
  "is_message_type (TYPE_MESSAGE t) = True" | "is_message_type _ = False"

fun is_string_type :: "field_type \<Rightarrow> bool" where
  "is_string_type (TYPE_SCALAR t) = is_length_delimited t" | "is_string_type _ = False"

definition isQtType :: "field_descriptor \<Rightarrow> bool" where
  "isQtType f \<longleftrightarrow>
     (take 7 (desc_message_name f) = ''QtCore.'' \<or> take 6 (desc_message_name f) = ''QtGui.'') \<and>
     desc_package f \<noteq> ''QtCore'' \<and> desc_package f \<noteq> ''QtGui''"

definition isOverridden :: "field_descriptor \<Rightarrow> bool" where
  "isOverridden f \<longleftrightarrow> is_message_type (desc_type f) \<and> desc_message_name f = ''google.protobuf.Any''"

definition isPureMessage :: "field_descriptor \<Rightarrow> bool" where
  "isPureMessage f \<longleftrightarrow>
     is_message_type (desc_type f) \<and> \<not> is_map f \<and> \<not> is_repeated f \<and> \<not> isQtType f \<and> \<not> isOverridden f"

definition isRepeatedMessage :: "field_descriptor \<Rightarrow> bool" where
  "isRepeatedMessage f \<longleftrightarrow> is_message_type (desc_type f) \<and> \<not> is_map f \<and> is_repeated f"

definition isGroupField :: "field_descriptor \<Rightarrow> bool" where
  "isGroupField f \<longleftrightarrow> desc_type f = TYPE_GROUP"

definition isOneofField :: "field_descriptor \<Rightarrow> bool" where
  "isOneofField f \<longleftrightarrow> real_containing_oneof f \<noteq> None"

definition isOptionalField :: "field_descriptor \<Rightarrow> bool" where
  "isOptionalField f \<longleftrightarrow>
     \<not> is_message_type (desc_type f) \<and> has_presence f \<and> real_containing_oneof f = None \<and> \<not> is_required f"

definition generatedFieldCount :: "message_descriptor \<Rightarrow> nat" where
  "generatedFieldCount d = length (filter (\<lambda>f. \<not> isGroupField f) (desc_fields d))"

definition iterateMessageFields :: "(field_descriptor \<Rightarrow> 'a list) \<Rightarrow> message_descriptor \<Rightarrow> 'a list" where
  "iterateMessageFields callback d =
     concat (map (\<lambda>f. if isGroupField f then [] else callback f) (desc_fields d))"

subsection \<open>Flags\<close>

definition collectFieldFlags :: "field_descriptor \<Rightarrow> field_flag list" where
  "collectFieldFlags f =
     (let flags =
        (if \<not> is_string_type (desc_type f) \<and> \<not> is_message_type (desc_type f) \<and> \<not> is_map f \<and>
            is_repeated f \<and> \<not> is_packed f then [NonPacked] else []) @
        (if isOneofField f then [Oneof] else []) @
        (if isOptionalField f then [Optional] else []) @
        (if is_required f then [Required] else []) @
        (if isOneofField f \<or> isOptionalField f \<or> isPureMessage f then [ExplicitPresence] else []) @
        (if is_map f then [MapFlag] else []) @
        (if is_repeated f \<and> \<not> is_map f then [Repeated] else []) @
        (if desc_type f = TYPE_ENUM then [EnumFlag] else []) @
        (if is_message_type (desc_type f) then [MessageFlag] else [])
      in if flags = [] then [NoFlags] else flags)"

subsection \<open>The ordering table\<close>

record uint_entry =
  ue_jsonOffset :: nat
  ue_number :: nat
  ue_propertyIndex :: nat
  ue_flags :: "field_flag list"

text \<open>\<open>printUintData\<close>: the variables of each field; one call of it prints one column.\<close>

fun printUintData :: "field_descriptor list \<Rightarrow> nat \<Rightarrow> nat \<Rightarrow> uint_entry list" where
  "printUintData [] jsonOffset pindex = []"
| "printUintData (f # fs) jsonOffset pindex =
     (if isGroupField f then printUintData fs jsonOffset pindex
      else let e = \<lparr>ue_jsonOffset = jsonOffset, ue_number = desc_number f,
                     ue_propertyIndex = pindex, ue_flags = collectFieldFlags f\<rparr>;
               pindex' = (if isOneofField f \<or> isOptionalField f \<or> isPureMessage f \<or> isRepeatedMessage f
                                 then pindex + 1 else pindex)
           in e # printUintData fs (jsonOffset + length (desc_json_name f) + 1) (pindex' + 1))"

definition metaCharDataSize :: "message_descriptor \<Rightarrow> nat" where
  "metaCharDataSize d = length (desc_full_name d)"

definition charDataSize :: "message_descriptor \<Rightarrow> nat" where
  "charDataSize d =
     sum_list (map (\<lambda>f. if isGroupField f then 0 else length (desc_json_name f) + 1) (desc_fields d)) + 1"

text \<open>The string literal with the terminator that the compiler adds.\<close>

definition printCharData :: "message_descriptor \<Rightarrow> byte list" where
  "printCharData d =
     desc_full_name d @ [0] @
     concat (map (\<lambda>f. if isGroupField f then [] else desc_json_name f @ [0]) (desc_fields d)) @ [0]"

definition printFieldsOrdering :: "message_descriptor \<Rightarrow> ordering_data" where
  "printFieldsOrdering d =
     (let fieldCount = generatedFieldCount d;
          char_dataSizeTotal = metaCharDataSize d + 1 + charDataSize d;
          es = printUintData (desc_fields d) (metaCharDataSize d + 1) 0;
          uint_data = map (\<lambda>e. of_nat (ue_jsonOffset e)) es @ [of_nat (char_dataSizeTotal - 1)] @
            map (\<lambda>e. of_nat (ue_number e)) es @ map (\<lambda>e. of_nat (ue_propertyIndex e)) es @
            map (\<lambda>e. flags_of (ue_flags e)) es
      in \<lparr>od_version = 0, numFields = of_nat fieldCount,
          fieldNumberOffset = of_nat (fieldCount * 1 + 1),
          propertyIndexOffset = of_nat (fieldCount * 2 + 1),
          flagsOffset = of_nat (fieldCount * 3 + 1),
          fullPackageNameSize = of_nat (metaCharDataSize d),
          od_memory = concat (map (le_bytes 4) uint_data) @ printCharData d\<rparr>)"

subsection \<open>Members and properties\<close>

text \<open>The type of the value property, by the template that is printed for the field.\<close>

definition value_kind :: "field_descriptor \<Rightarrow> prop_kind" where
  "value_kind f =
     (let n = int (desc_number f)
      in if isOneofField f then
           (case desc_type f of
              TYPE_SCALAR t \<Rightarrow> PK_oneof t n | TYPE_ENUM \<Rightarrow> PK_oneof_enum n
            | TYPE_MESSAGE t \<Rightarrow> if isPureMessage f then PK_oneof_message t n else PK_custom t
            | TYPE_GROUP \<Rightarrow> PK_custom 0)
         else if isOptionalField f then
           (case desc_type f of
              TYPE_SCALAR t \<Rightarrow> PK_optional t | TYPE_ENUM \<Rightarrow> PK_optional_enum | _ \<Rightarrow> PK_custom 0)
         else if is_map f then (case desc_type f of TYPE_MESSAGE t \<Rightarrow> PK_map t | _ \<Rightarrow> PK_custom 0)
         else (case desc_type f of
                 TYPE_SCALAR t \<Rightarrow> if is_repeated f then PK_scalars t else PK_scalar t
               | TYPE_ENUM \<Rightarrow> if is_repeated f then PK_enums else PK_enum
               | TYPE_MESSAGE t \<Rightarrow>
                   if is_repeated f then PK_messages t
                   else if isPureMessage f then PK_message t else PK_custom t
               | TYPE_GROUP \<Rightarrow> PK_custom 0))"

definition printClassMembers :: "message_descriptor \<Rightarrow> member list" where
  "printClassMembers d =
     iterateMessageFields (\<lambda>f. if isOneofField f then [] else [default_member (value_kind f)]) d @
     replicate (real_oneof_decl_count d) new_oneof"

text \<open>The number of members that stand before those of the oneofs.\<close>

definition plain_members :: "field_descriptor list \<Rightarrow> nat" where
  "plain_members fs = length (filter (\<lambda>f. \<not> isGroupField f \<and> \<not> isOneofField f) fs)"

definition field_properties :: "field_descriptor \<Rightarrow> nat \<Rightarrow> property list" where
  "field_properties f slot =
     (let p = (\<lambda>k. \<lparr>p_kind = k, p_slot = slot\<rparr>)
      in if isOneofField f then [p (value_kind f), p (PK_has_oneof (int (desc_number f)))]
         else if isOptionalField f then [p (value_kind f), p PK_has_optional]
         else if isPureMessage f then [p (value_kind f), p PK_has_message]
         else if isRepeatedMessage f then [p (value_kind f), p (value_kind f)]
         else [p (value_kind f)])"

fun properties_from :: "field_descriptor list \<Rightarrow> nat \<Rightarrow> nat \<Rightarrow> property list" where
  "properties_from [] plain oneofs = []"
| "properties_from (f # fs) plain oneofs =
     (if isGroupField f then properties_from fs plain oneofs
      else (case real_containing_oneof f of
              Some k \<Rightarrow> field_properties f (oneofs + k) @ properties_from fs plain oneofs
            | None \<Rightarrow> field_properties f plain @ properties_from fs (Suc plain) oneofs))"

definition printProperties :: "message_descriptor \<Rightarrow> property list" where
  "printProperties d = properties_from (desc_fields d) 0 (plain_members (desc_fields d))"

definition generated_class :: "message_descriptor \<Rightarrow> message_class" where
  "generated_class d =
     \<lparr>mc_ordering = printFieldsOrdering d, mc_props = printProperties d,
      mc_defaults = printClassMembers d\<rparr>"

text \<open>The builder that is fed with the same fields, as the runtime does it for map entries.\<close>

definition builder_of :: "message_descriptor \<Rightarrow> ordering_builder" where
  "builder_of d =
     \<lparr>ob_fields = map2 (\<lambda>f e. \<lparr>fd_jsonName = desc_json_name f, fd_fieldNumber = of_nat (ue_number e),
          fd_propertyIndex = of_nat (ue_propertyIndex e), fd_flags = flags_of (ue_flags e)\<rparr>)
        (filter (\<lambda>f. \<not> isGroupField f) (desc_fields d))
        (printUintData (desc_fields d) (metaCharDataSize d + 1) 0),
      ob_packageName = desc_full_name d\<rparr>"

subsection \<open>Descriptors of libprotoc\<close>

text \<open>
  What libprotoc promises about a descriptor, and the limits of the tables. \<open>core_field\<close> leaves out
  the fields of Qt types and of \<open>google.protobuf.Any\<close>, which custom handlers serialize.
\<close>

definition valid_field :: "message_descriptor \<Rightarrow> field_descriptor \<Rightarrow> bool" where
  "valid_field d f \<longleftrightarrow>
     0 < desc_number f \<and> desc_number f \<le> 536870911 \<and>
     (is_map f \<longrightarrow> is_repeated f \<and> is_message_type (desc_type f)) \<and>
     (is_repeated f \<longrightarrow> real_containing_oneof f = None \<and> \<not> is_required f \<and> \<not> has_presence f) \<and>
     (is_required f \<longrightarrow> real_containing_oneof f = None) \<and>
     (is_packed f \<longrightarrow> is_repeated f \<and> \<not> is_string_type (desc_type f) \<and> \<not> is_message_type (desc_type f)) \<and>
     (case real_containing_oneof f of Some k \<Rightarrow> k < real_oneof_decl_count d | None \<Rightarrow> True)"

definition core_field :: "field_descriptor \<Rightarrow> bool" where
  "core_field f \<longleftrightarrow> \<not> isQtType f \<and> \<not> isOverridden f"

abbreviation "generated_fields d \<equiv> filter (\<lambda>f. \<not> isGroupField f) (desc_fields d)"

definition valid_descriptor :: "message_descriptor \<Rightarrow> bool" where
  "valid_descriptor d \<longleftrightarrow>
     (\<forall>f \<in> set (generated_fields d). valid_field d f) \<and>
     distinct (map desc_number (generated_fields d)) \<and> length (desc_fields d) \<le> 536870911 \<and>
     metaCharDataSize d + 1 + charDataSize d < 2 ^ 32"

subsection \<open>The table\<close>

definition extra_property :: "field_descriptor \<Rightarrow> bool" where
  "extra_property f \<longleftrightarrow> isOneofField f \<or> isOptionalField f \<or> isPureMessage f \<or> isRepeatedMessage f"

definition property_count :: "field_descriptor list \<Rightarrow> nat" where
  "property_count fs = sum_list (map (\<lambda>f. if extra_property f then 2 else 1) fs)"

lemma property_count_simps [simp]:
  "property_count [] = 0"
  "property_count (f # fs) = (if extra_property f then 2 else 1) + property_count fs"
  by (simp_all add: property_count_def)

definition name_bytes :: "field_descriptor list \<Rightarrow> byte list" where
  "name_bytes fs = concat (map (\<lambda>f. desc_json_name f @ [0]) fs)"

lemma name_bytes_simps [simp]:
  "name_bytes [] = []" "name_bytes (f # fs) = desc_json_name f @ 0 # name_bytes fs"
  by (simp_all add: name_bytes_def)

lemma printUintData_nth:
  "length (printUintData fs off pi) = length (filter (\<lambda>f. \<not> isGroupField f) fs)"
  "i < length (filter (\<lambda>f. \<not> isGroupField f) fs) \<Longrightarrow>
   printUintData fs off pi ! i =
     (let gs = filter (\<lambda>f. \<not> isGroupField f) fs
      in \<lparr>ue_jsonOffset = off + length (name_bytes (take i gs)), ue_number = desc_number (gs ! i),
          ue_propertyIndex = pi + property_count (take i gs), ue_flags = collectFieldFlags (gs ! i)\<rparr>)"
proof (induction fs arbitrary: off pi i)
  case (Cons f fs)
  case 1
  show ?case using Cons.IH(1) by simp
  case 2
  show ?case
  proof (cases "isGroupField f")
    case True
    with 2 Cons.IH(2) show ?thesis by simp
  next
    case False
    show ?thesis
    proof (cases i)
      case 0
      with False show ?thesis by simp
    next
      case (Suc j)
      with False 2 Cons.IH(2) [of j] show ?thesis by (simp add: Let_def extra_property_def)
    qed
  qed
qed simp_all

lemma charData_eq:
  "printCharData d = desc_full_name d @ 0 # name_bytes (generated_fields d) @ [0]"
  "charDataSize d = length (name_bytes (generated_fields d)) + 1"
proof -
  have "concat (map (\<lambda>f. if isGroupField f then [] else desc_json_name f @ [0]) fs) =
      name_bytes (filter (\<lambda>f. \<not> isGroupField f) fs)" for fs
    by (induction fs) simp_all
  then show "printCharData d = desc_full_name d @ 0 # name_bytes (generated_fields d) @ [0]"
    by (simp add: printCharData_def)
  have "sum_list (map (\<lambda>f. if isGroupField f then 0 else length (desc_json_name f) + 1) fs) =
      length (name_bytes (filter (\<lambda>f. \<not> isGroupField f) fs))" for fs
    by (induction fs) simp_all
  then show "charDataSize d = length (name_bytes (generated_fields d)) + 1"
    by (simp add: charDataSize_def)
qed

lemma builder_fields:
  "ob_packageName (builder_of d) = desc_full_name d"
  "length (ob_fields (builder_of d)) = length (generated_fields d)"
  "i < length (generated_fields d) \<Longrightarrow> ob_fields (builder_of d) ! i =
    \<lparr>fd_jsonName = desc_json_name (generated_fields d ! i), fd_fieldNumber = of_nat (desc_number (generated_fields d ! i)),
     fd_propertyIndex = of_nat (property_count (take i (generated_fields d))),
     fd_flags = flags_of (collectFieldFlags (generated_fields d ! i))\<rparr>"
  by (simp_all add: builder_of_def printUintData_nth Let_def)

lemma builder_names:
  "i \<le> length (generated_fields d) \<Longrightarrow>
   concat (map (\<lambda>f. fd_jsonName f @ [0]) (take i (ob_fields (builder_of d)))) =
     name_bytes (take i (generated_fields d))"
proof -
  have "map fd_jsonName (ob_fields (builder_of d)) = map desc_json_name (generated_fields d)"
    by (rule nth_equalityI) (simp_all add: builder_fields)
  then have "map (\<lambda>n. n @ [0]) (map fd_jsonName (take i (ob_fields (builder_of d)))) =
      map (\<lambda>n. n @ [0]) (map desc_json_name (take i (generated_fields d)))"
    by (simp flip: take_map)
  then show ?thesis by (simp add: name_bytes_def comp_def)
qed


lemma nth_append5:
  assumes "length a = n" "length b = n" "length c = n" "length e = n"
  shows "i < n \<Longrightarrow> (a @ [x] @ b @ c @ e) ! i = a ! i"
    and "(a @ [x] @ b @ c @ e) ! n = x"
    and "i < n \<Longrightarrow> (a @ [x] @ b @ c @ e) ! (i + (n + 1)) = b ! i"
    and "i < n \<Longrightarrow> (a @ [x] @ b @ c @ e) ! (i + (2 * n + 1)) = c ! i"
    and "i < n \<Longrightarrow> (a @ [x] @ b @ c @ e) ! (i + (3 * n + 1)) = e ! i"
  using assms by (simp_all add: nth_append)

lemma table_index:
  assumes "i < 4 * n + (1 :: nat)"
  obtains "i < n" | "i = n" | j where "j < n" "i = j + (n + 1)" | j where "j < n" "i = j + (2 * n + 1)"
    | j where "j < n" "i = j + (3 * n + 1)"
proof -
  consider "i < n" | "i = n" | "n < i \<and> i < 2 * n + 1" | "2 * n + 1 \<le> i \<and> i < 3 * n + 1" | "3 * n + 1 \<le> i"
    by linarith
  then show thesis
  proof cases
    case 3
    then have "i - (n + 1) < n" "i = i - (n + 1) + (n + 1)" using assms by linarith+
    then show ?thesis by (rule that(3))
  next
    case 4
    then have "i - (2 * n + 1) < n" "i = i - (2 * n + 1) + (2 * n + 1)" using assms by linarith+
    then show ?thesis by (rule that(4))
  next
    case 5
    then have "i - (3 * n + 1) < n" "i = i - (3 * n + 1) + (3 * n + 1)" using assms by linarith+
    then show ?thesis by (rule that(5))
  qed (use that in auto)
qed

lemma builder_valid:
  assumes "valid_descriptor d"
  shows "build (builder_of d) \<noteq> None"
proof -
  let ?gs = "generated_fields d"
  have "length ?gs \<le> length (desc_fields d)" by simp
  then have n: "length ?gs \<le> ProtobufFieldMaxCount"
    using assms unfolding valid_descriptor_def ProtobufFieldMaxCount_def ProtobufFieldNumMax_def ProtobufFieldNumMin_def
    by linarith
  have "ProtobufFieldNumMin \<le> unat (fd_fieldNumber f) \<and> unat (fd_fieldNumber f) \<le> ProtobufFieldNumMax"
    if f: "f \<in> set (ob_fields (builder_of d))" for f
  proof -
    obtain i where i: "i < length ?gs" "f = ob_fields (builder_of d) ! i"
      using f unfolding in_set_conv_nth builder_fields(2) by blast
    have "?gs ! i \<in> set ?gs" using i(1) by (rule nth_mem)
    then have "valid_field d (?gs ! i)" using assms unfolding valid_descriptor_def by blast
    then have "0 < desc_number (?gs ! i)" "desc_number (?gs ! i) \<le> 536870911" by (simp_all add: valid_field_def)
    with i show ?thesis
      by (simp add: builder_fields ProtobufFieldNumMax_def ProtobufFieldNumMin_def unsigned_of_nat take_bit_nat_eq_self)
  qed
  with n show ?thesis unfolding build_some builder_fields by blast
qed

lemma generated_table:
  assumes "valid_descriptor d"
  shows "build (builder_of d) = Some (printFieldsOrdering d)"
proof -
  let ?gs = "generated_fields d" and ?b = "builder_of d"
  let ?n = "length ?gs"
  let ?es = "printUintData (desc_fields d) (metaCharDataSize d + 1) 0"
  let ?a = "map (\<lambda>e. of_nat (ue_jsonOffset e)) ?es :: uint32 list"
    and ?x = "of_nat (metaCharDataSize d + 1 + charDataSize d - 1) :: uint32"
    and ?k = "map (\<lambda>e. of_nat (ue_number e)) ?es :: uint32 list"
    and ?q = "map (\<lambda>e. of_nat (ue_propertyIndex e)) ?es :: uint32 list"
    and ?f = "map (\<lambda>e. flags_of (ue_flags e)) ?es"
  obtain od where od: "build ?b = Some od" using builder_valid [OF assms] by blast
  from buildE [OF this, unfolded builder_fields] obtain u where len: "length u = 4 * ?n + 1"
    and eq: "od = (build_header ?b)\<lparr>od_memory := concat (map (le_bytes 4) u) @ build_chars ?b\<rparr>"
    and cols: "\<forall>j < ?n. u ! (j + (?n + 1)) = fd_fieldNumber (ob_fields ?b ! j) \<and>
       u ! (j + (2 * ?n + 1)) = fd_propertyIndex (ob_fields ?b ! j) \<and>
       u ! (j + (3 * ?n + 1)) = fd_flags (ob_fields ?b ! j)"
    and names: "\<forall>j \<le> ?n. u ! j = name_offset (of_nat (length (desc_full_name d)) + 1) (ob_fields ?b) j"
    by metis
  have le: "length ?a = ?n" "length ?k = ?n" "length ?q = ?n" "length ?f = ?n" by (simp_all add: printUintData_nth)
  note nths = nth_append5 [OF le, where x = ?x]
  have name: "u ! j = of_nat (metaCharDataSize d + 1 + length (name_bytes (take j ?gs)))" if "j \<le> ?n" for j
  proof -
    have "name_offset (of_nat (length (desc_full_name d)) + 1) (ob_fields ?b) j =
        of_nat (length (desc_full_name d)) + 1 +
        of_nat (length (concat (map (\<lambda>f. fd_jsonName f @ [0]) (take j (ob_fields ?b)))))"
      using that by (intro name_offset_eq) (simp add: builder_fields)
    also have "length (concat (map (\<lambda>f. fd_jsonName f @ [0]) (take j (ob_fields ?b)))) =
        length (name_bytes (take j ?gs))" by (simp only: builder_names [OF that])
    finally show ?thesis using names that by (simp add: metaCharDataSize_def)
  qed
  have "u = ?a @ [?x] @ ?k @ ?q @ ?f"
  proof (rule nth_equalityI)
    show "length u = length (?a @ [?x] @ ?k @ ?q @ ?f)" using len le by simp
    fix i assume "i < length u"
    then have "i < 4 * ?n + 1" using len by simp
    then show "u ! i = (?a @ [?x] @ ?k @ ?q @ ?f) ! i"
    proof (cases rule: table_index)
      case 1
      then show ?thesis using name [of i] nths(1) [OF 1] by (simp add: printUintData_nth Let_def)
    next
      case 2
      then show ?thesis using name [of ?n] nths(2) by (simp add: charData_eq metaCharDataSize_def)
    next
      case (3 j)
      then show ?thesis using cols nths(3) [OF 3(1)] by (simp add: printUintData_nth builder_fields Let_def)
    next
      case (4 j)
      then show ?thesis using cols nths(4) [OF 4(1)] by (simp add: printUintData_nth builder_fields Let_def)
    next
      case (5 j)
      then show ?thesis using cols nths(5) [OF 5(1)] by (simp add: printUintData_nth builder_fields Let_def)
    qed
  qed
  moreover have "build_chars ?b = printCharData d"
    using builder_names [of ?n d] by (simp add: build_chars_def charData_eq builder_fields)
  ultimately have "od = printFieldsOrdering d"
    unfolding eq printFieldsOrdering_def Let_def build_header_def builder_fields generatedFieldCount_def metaCharDataSize_def
    by simp
  with od show ?thesis by simp
qed


subsection \<open>Properties and members\<close>

lemma plain_members_generated: "plain_members (filter (\<lambda>f. \<not> isGroupField f) fs) = plain_members fs"
  by (simp add: plain_members_def conj_commute)

lemma field_properties_simps [simp]:
  "length (field_properties f s) = (if extra_property f then 2 else 1)"
  "field_properties f s ! 0 = \<lparr>p_kind = value_kind f, p_slot = s\<rparr>"
  by (simp_all add: field_properties_def extra_property_def Let_def)

definition member_slot :: "field_descriptor list \<Rightarrow> nat \<Rightarrow> nat \<Rightarrow> nat \<Rightarrow> nat" where
  "member_slot gs i plain oneofs =
     (case real_containing_oneof (gs ! i) of Some k \<Rightarrow> oneofs + k | None \<Rightarrow> plain + plain_members (take i gs))"

lemma properties_from_drop:
  "i < length (filter (\<lambda>f. \<not> isGroupField f) fs) \<Longrightarrow>
   \<exists>rest. drop (property_count (take i (filter (\<lambda>f. \<not> isGroupField f) fs))) (properties_from fs plain oneofs) =
     field_properties (filter (\<lambda>f. \<not> isGroupField f) fs ! i)
       (member_slot (filter (\<lambda>f. \<not> isGroupField f) fs) i plain oneofs) @ rest"
proof (induction fs arbitrary: i plain)
  case (Cons f fs)
  show ?case
  proof (cases "isGroupField f")
    case True
    with Cons.IH [of i plain] Cons.prems show ?thesis by simp
  next
    case False
    let ?gs = "filter (\<lambda>f. \<not> isGroupField f) fs"
    show ?thesis
    proof (cases i)
      case 0
      with False show ?thesis by (auto simp: member_slot_def plain_members_def split: option.splits)
    next
      case (Suc j)
      define plain' where "plain' = (if real_containing_oneof f = None then Suc plain else plain)"
      have "\<exists>rest. drop (property_count (take j ?gs)) (properties_from fs plain' oneofs) =
          field_properties (?gs ! j) (member_slot ?gs j plain' oneofs) @ rest"
        using Suc Cons.prems False by (intro Cons.IH) simp
      moreover have "member_slot (f # ?gs) i plain oneofs = member_slot ?gs j plain' oneofs"
        using Suc False
        by (auto simp: member_slot_def plain'_def plain_members_def isOneofField_def split: option.splits)
      ultimately show ?thesis
        using False Suc by (cases "real_containing_oneof f") (simp_all add: plain'_def ac_simps)
    qed
  qed
qed simp

lemma nth_filter_take:
  "i < length xs \<Longrightarrow> P (xs ! i) \<Longrightarrow>
   filter P xs ! length (filter P (take i xs)) = xs ! i \<and> length (filter P (take i xs)) < length (filter P xs)"
proof (induction xs arbitrary: i)
  case (Cons x xs)
  then show ?case by (cases i) auto
qed simp

lemma plain_members_less:
  assumes "i < j" "j < length gs" "\<not> isGroupField (gs ! i)" "\<not> isOneofField (gs ! i)"
  shows "plain_members (take i gs) < plain_members (take j gs)"
proof -
  have "take (Suc i + (j - Suc i)) gs = take (Suc i) gs @ take (j - Suc i) (drop (Suc i) gs)" by (rule take_add)
  then have "take j gs = (take i gs @ [gs ! i]) @ take (j - Suc i) (drop (Suc i) gs)"
    using assms(1,2) by (simp add: take_Suc_conv_app_nth)
  with assms(3,4) show ?thesis by (simp add: plain_members_def)
qed

subsection \<open>Generated classes\<close>

text \<open>The flags that are printed for a field, by the kind of its value property.\<close>

lemma generated_flags:
  assumes "valid_field d f" "\<not> isGroupField f" "core_field f"
  shows "\<exists>np req opt fs. kind_flags (value_kind f) np req opt = Some fs \<and>
    flags_of (collectFieldFlags f) = flags_of fs"
proof -
  note defs = value_kind_def collectFieldFlags_def isOneofField_def isOptionalField_def isPureMessage_def
    isOverridden_def core_field_def valid_field_def isGroupField_def flags_of_def Let_def
  have ex: "kind_flags k np req opt \<noteq> None \<and> flags_of w = flags_of (the (kind_flags k np req opt)) \<Longrightarrow>
      \<exists>np req opt fs. kind_flags k np req opt = Some fs \<and> flags_of w = flags_of fs" for k np req opt w
    by (metis option.collapse)
  show ?thesis
  proof (cases "desc_type f")
    case (TYPE_SCALAR t)
    with assms show ?thesis
      by - (rule ex [of _ "is_repeated f \<and> \<not> is_packed f \<and> \<not> is_length_delimited t" "is_required f" "isOptionalField f"],
        cases "real_containing_oneof f"; cases "is_repeated f"; cases "is_required f"; cases "has_presence f"; cases "is_packed f"; simp add: defs)
  next
    case TYPE_ENUM
    with assms show ?thesis
      by - (rule ex [of _ "is_repeated f \<and> \<not> is_packed f" "is_required f" "isOptionalField f"],
        cases "real_containing_oneof f"; cases "is_repeated f"; cases "is_required f"; cases "has_presence f"; cases "is_packed f"; simp add: defs)
  next
    case (TYPE_MESSAGE t)
    with assms show ?thesis
      by - (rule ex [of _ "False" "is_required f" "False"],
        cases "real_containing_oneof f"; cases "is_repeated f"; cases "is_required f"; cases "is_map f"; simp add: defs)
  qed (use assms in \<open>simp add: isGroupField_def\<close>)
qed


lemma property_count_le: "property_count fs \<le> 2 * length fs"
  by (induction fs) auto

lemma generated_accessors:
  assumes valid: "valid_descriptor d" and i: "i < length (generated_fields d)" and od: "f_ordering sc t = printFieldsOrdering d"
  shows "f_count sc t = length (generated_fields d)"
    and "f_number sc t i = int (desc_number (generated_fields d ! i))"
    and "f_pindex sc t i = int (property_count (take i (generated_fields d)))"
    and "f_flags sc t i = flags_of (collectFieldFlags (generated_fields d ! i))"
    and "indexOfFieldNumber (f_ordering sc t) (f_number sc t i) = int i"
    and "valid_field d (generated_fields d ! i)"
proof -
  let ?gs = "generated_fields d"
  note b = generated_table [OF valid]
  have ib: "i < length (ob_fields (builder_of d))" using i by (simp add: builder_fields)
  note count = build_count [OF b, unfolded builder_fields]
  note rd = build_uint_data [OF b, unfolded builder_fields]
  show vf: "valid_field d (?gs ! i)"
    using valid nth_mem [OF i] unfolding valid_descriptor_def by blast
  then have num: "0 < desc_number (?gs ! i)" "desc_number (?gs ! i) \<le> 536870911" by (simp_all add: valid_field_def)
  show c: "f_count sc t = length ?gs" by (simp add: f_count_def od count)
  have un: "unat (of_nat (desc_number (?gs ! j)) :: uint32) = desc_number (?gs ! j)" if "j < length ?gs" for j
  proof -
    have "valid_field d (?gs ! j)" using valid nth_mem [OF that] unfolding valid_descriptor_def by blast
    then show ?thesis by (simp add: valid_field_def unsigned_of_nat take_bit_nat_eq_self)
  qed
  show n: "f_number sc t i = int (desc_number (?gs ! i))"
  proof -
    have "uint (of_nat (desc_number (?gs ! i)) :: uint32) = int (desc_number (?gs ! i))"
      using un [OF i] by (simp only: uint_nat)
    moreover have "uint_dataForIndex (printFieldsOrdering d) (int i) (fieldNumberOffset (printFieldsOrdering d)) =
        of_nat (desc_number (?gs ! i))"
      using i by (simp add: rd builder_fields)
    ultimately show ?thesis using i num by (simp add: f_number_def od fieldNumber_def count)
  qed
  have "property_count (take i ?gs) \<le> 2 * length (take i ?gs)" by (rule property_count_le)
  also have "\<dots> \<le> 2 * 536870911"
    using i count(2) by simp
  finally have pc: "property_count (take i ?gs) \<le> 1073741822" by simp
  define k where "k = property_count (take i ?gs)"
  have "unat (of_nat k :: uint32) = k"
    using pc unfolding k_def [symmetric] by (simp add: unsigned_of_nat take_bit_nat_eq_self)
  then have "uint (of_nat k :: uint32) = int k" by (simp only: uint_nat)
  moreover have "uint_dataForIndex (printFieldsOrdering d) (int i) (propertyIndexOffset (printFieldsOrdering d)) = of_nat k"
    using i by (simp add: rd builder_fields k_def)
  ultimately have "f_pindex sc t i = int k"
    using i pc unfolding k_def [symmetric] by (simp add: f_pindex_def od propertyIndex_def count)
  then show "f_pindex sc t i = int (property_count (take i ?gs))" by (simp only: k_def)
  show "f_flags sc t i = flags_of (collectFieldFlags (?gs ! i))"
    using i by (simp add: f_flags_def od fieldFlags_def count rd builder_fields)
  have eq: "uint_dataForIndex (printFieldsOrdering d) (int j) (fieldNumberOffset (printFieldsOrdering d)) =
      word_of_int (f_number sc t i) \<longleftrightarrow> j = i" if "j < length ?gs" for j
  proof -
    have "(of_nat (desc_number (?gs ! j)) :: uint32) = of_nat (desc_number (?gs ! i)) \<longleftrightarrow>
        desc_number (?gs ! j) = desc_number (?gs ! i)"
      using un [OF that] un [OF i] by metis
    also have "\<dots> \<longleftrightarrow> map desc_number ?gs ! j = map desc_number ?gs ! i" using that i by simp
    also have "\<dots> \<longleftrightarrow> j = i"
      using valid that i unfolding valid_descriptor_def by (intro nth_eq_iff_index_eq) simp_all
    finally show ?thesis using that by (simp add: rd n builder_fields)
  qed
  let ?P = "\<lambda>j. uint_dataForIndex (printFieldsOrdering d) (int j) (fieldNumberOffset (printFieldsOrdering d)) =
      word_of_int (f_number sc t i)"
  have "find ?P [0..<length ?gs] = Some i"
  proof (cases "find ?P [0..<length ?gs]")
    case None
    then have "\<not> ?P i" using i by (simp only: find_None_iff) auto
    with eq [OF i] show ?thesis by blast
  next
    case (Some j)
    with find_upt [OF this] eq show ?thesis by blast
  qed
  then show "indexOfFieldNumber (f_ordering sc t) (f_number sc t i) = int i"
    using num by (simp add: indexOfFieldNumber_def od count n)
qed

lemma member_slot_facts:
  assumes valid: "valid_descriptor d" and i: "i < length (generated_fields d)"
    and core: "core_field (generated_fields d ! i)"
  shows "member_slot (generated_fields d) i 0 (plain_members (desc_fields d)) < length (printClassMembers d)"
    and "printClassMembers d ! member_slot (generated_fields d) i 0 (plain_members (desc_fields d)) =
      default_member (value_kind (generated_fields d ! i))"
proof -
  let ?gs = "generated_fields d"
  let ?ps = "filter (\<lambda>f. \<not> isOneofField f) ?gs"
  have members: "printClassMembers d = map (\<lambda>f. default_member (value_kind f)) ?ps @
      replicate (real_oneof_decl_count d) new_oneof"
  proof -
    have "concat (map (\<lambda>f. if isGroupField f then [] else if isOneofField f then [] else [default_member (value_kind f)]) fs) =
        map (\<lambda>f. default_member (value_kind f)) (filter (\<lambda>f. \<not> isOneofField f) (filter (\<lambda>f. \<not> isGroupField f) fs))" for fs
      by (induction fs) simp_all
    then show ?thesis unfolding printClassMembers_def iterateMessageFields_def by simp
  qed
  have plain: "plain_members (desc_fields d) = length ?ps"
    by (simp add: plain_members_def conj_commute)
  have "?gs ! i \<in> set ?gs" using i by (rule nth_mem)
  then have vf: "valid_field d (?gs ! i)" and grp: "\<not> isGroupField (?gs ! i)"
    using valid unfolding valid_descriptor_def by (blast, simp)
  have taken: "plain_members (take i ?gs) = length (filter (\<lambda>f. \<not> isOneofField f) (take i ?gs))"
  proof -
    have "\<forall>f \<in> set (take i ?gs). \<not> isGroupField f" by (auto dest: in_set_takeD)
    then have "filter (\<lambda>f. \<not> isGroupField f) (take i ?gs) = take i ?gs" by (simp only: filter_id_conv)
    then have "filter (\<lambda>f. \<not> isOneofField f) (filter (\<lambda>f. \<not> isGroupField f) (take i ?gs)) =
        filter (\<lambda>f. \<not> isOneofField f) (take i ?gs)" by (rule arg_cong)
    then show ?thesis by (simp only: plain_members_def filter_filter)
  qed
  have "member_slot ?gs i 0 (plain_members (desc_fields d)) < length (printClassMembers d) \<and>
      printClassMembers d ! member_slot ?gs i 0 (plain_members (desc_fields d)) = default_member (value_kind (?gs ! i))"
  proof (cases "real_containing_oneof (?gs ! i)")
    case None
    with nth_filter_take [OF i, of "\<lambda>f. \<not> isOneofField f"] show ?thesis
      by (simp add: member_slot_def members taken isOneofField_def nth_append)
  next
    case (Some k)
    with vf have k: "k < real_oneof_decl_count d" and "\<not> is_repeated (?gs ! i)" by (auto simp: valid_field_def)
    moreover have "default_member (value_kind (?gs ! i)) = new_oneof"
      using Some grp vf core
      by (cases "desc_type (?gs ! i)")
        (auto simp: value_kind_def isOneofField_def isGroupField_def isPureMessage_def core_field_def valid_field_def
          new_oneof_def)
    ultimately show ?thesis using Some by (simp add: member_slot_def members plain nth_append)
  qed
  then show "member_slot ?gs i 0 (plain_members (desc_fields d)) < length (printClassMembers d)"
    and "printClassMembers d ! member_slot ?gs i 0 (plain_members (desc_fields d)) =
      default_member (value_kind (?gs ! i))" by blast+
qed


lemma value_kind_number: "oneof_number (value_kind f) = Some n \<Longrightarrow> n = int (desc_number f)"
  by (cases "desc_type f") (simp_all add: value_kind_def Let_def split: if_splits)

lemma value_kind_has:
  assumes "valid_field d f" "\<not> isGroupField f" "has_kind (value_kind f) = Some h"
  shows "extra_property f \<and> field_properties f s ! 1 = \<lparr>p_kind = h, p_slot = s\<rparr>"
proof (cases "desc_type f")
  case (TYPE_MESSAGE t)
  with assms show ?thesis
    by (cases "isOneofField f"; cases "isPureMessage f")
      (simp_all add: value_kind_def Let_def field_properties_def extra_property_def isOptionalField_def
        split: if_splits)
next
  case TYPE_GROUP
  with assms show ?thesis by (simp add: isGroupField_def)
qed (use assms in \<open>cases "isOneofField f"; cases "isOptionalField f";
  simp add: value_kind_def Let_def field_properties_def extra_property_def split: if_splits\<close>)+

lemma generated_field:
  assumes valid: "valid_descriptor d" and i: "i < length (generated_fields d)"
    and t: "sc ! t = generated_class d"
  shows "f_count sc t = length (generated_fields d)"
    and "f_prop sc t i = \<lparr>p_kind = value_kind (generated_fields d ! i),
      p_slot = member_slot (generated_fields d) i 0 (plain_members (desc_fields d))\<rparr>"
    and "property_count (take i (generated_fields d)) < length (mc_props (sc ! t))"
    and "extra_property (generated_fields d ! i) \<Longrightarrow>
      Suc (property_count (take i (generated_fields d))) < length (mc_props (sc ! t)) \<and>
      mc_props (sc ! t) ! Suc (property_count (take i (generated_fields d))) =
        field_properties (generated_fields d ! i) (member_slot (generated_fields d) i 0 (plain_members (desc_fields d))) ! 1"
proof -
  let ?gs = "generated_fields d"
  let ?slot = "member_slot ?gs i 0 (plain_members (desc_fields d))"
  have od: "f_ordering sc t = printFieldsOrdering d" by (simp add: f_ordering_def t generated_class_def)
  show "f_count sc t = length ?gs"
    using build_count(1) [OF generated_table [OF valid]] by (simp add: f_count_def od builder_fields)
  obtain rest where dr: "drop (property_count (take i ?gs)) (mc_props (sc ! t)) = field_properties (?gs ! i) ?slot @ rest"
    using properties_from_drop [OF i] by (auto simp: t generated_class_def printProperties_def)
  have len: "0 < length (field_properties (?gs ! i) ?slot)" by simp
  have n: "length (mc_props (sc ! t)) - property_count (take i ?gs) =
      length (field_properties (?gs ! i) ?slot) + length rest"
    using dr by (metis length_append length_drop)
  then show pl: "property_count (take i ?gs) < length (mc_props (sc ! t))" using len by linarith
  have nth: "mc_props (sc ! t) ! (property_count (take i ?gs) + j) = (field_properties (?gs ! i) ?slot @ rest) ! j" for j
    unfolding dr [symmetric] using pl by simp
  show "f_prop sc t i = \<lparr>p_kind = value_kind (?gs ! i), p_slot = ?slot\<rparr>"
    using nth [of 0] len by (simp add: f_prop_def generated_accessors(3) [OF valid i od] nth_append)
  show "Suc (property_count (take i ?gs)) < length (mc_props (sc ! t)) \<and>
    mc_props (sc ! t) ! Suc (property_count (take i ?gs)) = field_properties (?gs ! i) ?slot ! 1"
    if "extra_property (?gs ! i)"
  proof -
    have l: "length (field_properties (?gs ! i) ?slot) = 2" using that by simp
    then have "Suc (property_count (take i ?gs)) < length (mc_props (sc ! t))" using n by linarith
    with nth [of 1] l show ?thesis by (simp add: nth_append)
  qed
qed

lemma generated_class_ok:
  assumes valid: "valid_descriptor d" and core: "\<forall>f \<in> set (generated_fields d). core_field f"
    and t: "t < length sc" "sc ! t = generated_class d"
  shows "class_ok sc t"
proof -
  let ?gs = "generated_fields d"
  let ?slot = "\<lambda>i. member_slot ?gs i 0 (plain_members (desc_fields d))"
  have od: "f_ordering sc t = printFieldsOrdering d" by (simp add: f_ordering_def t generated_class_def)
  have count: "f_count sc t = length ?gs"
    using build_count(1) [OF generated_table [OF valid]] by (simp add: f_count_def od builder_fields)
  note acc = generated_accessors [OF valid _ od]
  note fprop = generated_field(2) [OF valid _ t(2)] and plen = generated_field(3) [OF valid _ t(2)]
    and has = generated_field(4) [OF valid _ t(2)]
  have kind: "f_kind sc t i = value_kind (?gs ! i)" and slot: "f_slot sc t i = ?slot i" if "i < length ?gs" for i
    using fprop [OF that] by (simp_all add: f_kind_def f_slot_def)
  have facts: "valid_field d (?gs ! i)" "\<not> isGroupField (?gs ! i)" "core_field (?gs ! i)" if "i < length ?gs" for i
    using acc(6) [OF that] nth_mem [OF that] core by simp_all
  have "field_ok sc t i" if i: "i < length ?gs" for i
  proof -
    note ki = kind [OF i] and si = slot [OF i] and ac = acc [OF i] and fa = facts [OF i]
    obtain np req opt fs where fl: "kind_flags (value_kind (?gs ! i)) np req opt = Some fs"
      "flags_of (collectFieldFlags (?gs ! i)) = flags_of fs"
      using generated_flags [OF fa] by blast
    note te = kind_flags_test [OF fl(1), folded fl(2)]
    have "kind_flags (f_kind sc t i) (f_nonpacked sc t i) (f_required sc t i) (f_optional sc t i) = Some fs"
      using fl(1) te by (simp add: ki f_nonpacked_def f_required_def f_optional_def ac)
    moreover note value_kind_number [of "?gs ! i"]
    moreover note value_kind_has [OF fa(1,2), of _ "?slot i"]
    moreover have "?slot i < length (mc_defaults (sc ! t))"
      and "mc_defaults (sc ! t) ! ?slot i = default_member (value_kind (?gs ! i))"
      using member_slot_facts [OF valid i fa(3)] by (simp_all add: t generated_class_def)
    ultimately show ?thesis
      using fa(1) has [OF i] plen [OF i] unfolding field_ok_def si ki ac(2-4)
      by (auto simp: valid_field_def fl(2) ac(5) [unfolded ac(2)] split: option.split)
  qed
  moreover have "oneof_number (f_kind sc t i) \<noteq> None \<and> oneof_number (f_kind sc t j) \<noteq> None"
    if ij: "i < length ?gs" "j < length ?gs" "i \<noteq> j" "f_slot sc t i = f_slot sc t j" for i j
  proof -
    have slots: "?slot i = ?slot j" using ij slot by simp
    have below: "?slot k < plain_members (desc_fields d)" if "k < length ?gs" "real_containing_oneof (?gs ! k) = None" for k
    proof -
      have "plain_members (take k ?gs) < plain_members (take (Suc k) ?gs)"
        using that facts(2) [OF that(1)]
        by (simp add: take_Suc_conv_app_nth plain_members_def isOneofField_def)
      also have "\<dots> \<le> plain_members ?gs"
        using append_take_drop_id [of "Suc k" ?gs] unfolding plain_members_def
        by (metis filter_append le_add1 length_append)
      also have "\<dots> = plain_members (desc_fields d)" by (rule plain_members_generated)
      finally show ?thesis using that(2) by (simp add: member_slot_def)
    qed
    have above: "plain_members (desc_fields d) \<le> ?slot k" if "real_containing_oneof (?gs ! k) \<noteq> None" for k
      using that by (auto simp: member_slot_def)
    have less: "?slot a < ?slot b" if "a < b" "b < length ?gs"
      "real_containing_oneof (?gs ! a) = None" "real_containing_oneof (?gs ! b) = None" for a b
      using plain_members_less [OF that(1,2)] facts(2) [of a] that by (simp add: member_slot_def isOneofField_def)
    have oneofs: "real_containing_oneof (?gs ! i) \<noteq> None \<and> real_containing_oneof (?gs ! j) \<noteq> None"
    proof (rule ccontr)
      assume "\<not> (real_containing_oneof (?gs ! i) \<noteq> None \<and> real_containing_oneof (?gs ! j) \<noteq> None)"
      moreover have "i < j \<or> j < i" using ij(3) by linarith
      ultimately show False
        using slots ij(1,2) below [of i] below [of j] above [of i] above [of j] less [of i j] less [of j i] by linarith
    qed
    have num: "oneof_number (value_kind (?gs ! k)) \<noteq> None"
      if "k < length ?gs" "real_containing_oneof (?gs ! k) \<noteq> None" for k
      using that(2) facts [OF that(1)]
      by (cases "desc_type (?gs ! k)")
        (auto simp: value_kind_def Let_def isOneofField_def isGroupField_def isPureMessage_def core_field_def valid_field_def)
    then show ?thesis using oneofs ij kind by simp
  qed
  ultimately show ?thesis unfolding class_ok_def count using t(1) by blast
qed

subsection \<open>Map entries\<close>

text \<open>
  The class of the entries of a map is built at run time (src/src/protobuf/qprotobufmessage.cpp):
  its flags from the types of the key and the value, its table by the ordering builder, and its
  properties by \<open>buildMetaObject\<close>.
\<close>

definition getFlagForType :: "prop_kind \<Rightarrow> field_flag list" where
  "getFlagForType k =
     (case k of PK_message t \<Rightarrow> [MessageFlag, ExplicitPresence] | _ \<Rightarrow> []) @
     (case k of PK_enum \<Rightarrow> [EnumFlag] | _ \<Rightarrow> []) @
     (case k of PK_scalars t \<Rightarrow> [Repeated] | PK_enums \<Rightarrow> [Repeated] | PK_messages t \<Rightarrow> [Repeated] | _ \<Rightarrow> []) @
     (case k of PK_map t \<Rightarrow> [MapFlag] | _ \<Rightarrow> []) @ [Optional]"

definition map_entry_builder :: "prop_kind \<Rightarrow> prop_kind \<Rightarrow> ordering_builder" where
  "map_entry_builder key val =
     (let keyFlags = flags_of (getFlagForType key);
          valueIndex = (if testFlag keyFlags ExplicitPresence then 2 else 1)
      in addV0Field [0x76, 0x61, 0x6C, 0x75, 0x65] 2 valueIndex (flags_of (getFlagForType val))
           (addV0Field [0x6B, 0x65, 0x79] 1 0 keyFlags
             (new_builder [0x4D, 0x61, 0x70, 0x45, 0x6E, 0x74, 0x72, 0x79])))"

definition buildMapEntryOrdering :: "prop_kind \<Rightarrow> prop_kind \<Rightarrow> ordering_data option" where
  "buildMapEntryOrdering key val = build (map_entry_builder key val)"

definition buildMetaObject :: "prop_kind \<Rightarrow> prop_kind \<Rightarrow> property list" where
  "buildMetaObject key val =
     [\<lparr>p_kind = key, p_slot = 0\<rparr>] @ (if message_kind key then [\<lparr>p_kind = PK_has_message, p_slot = 0\<rparr>] else []) @
     [\<lparr>p_kind = val, p_slot = 1\<rparr>] @ (if message_kind val then [\<lparr>p_kind = PK_has_message, p_slot = 1\<rparr>] else [])"

text \<open>The object of an entry: the ordering and the properties, and two members.\<close>

definition map_entry_class :: "prop_kind \<Rightarrow> prop_kind \<Rightarrow> message_class" where
  "map_entry_class key val =
     \<lparr>mc_ordering = the (buildMapEntryOrdering key val), mc_props = buildMetaObject key val,
      mc_defaults = [default_member key, default_member val]\<rparr>"

text \<open>Keys are scalars, values are scalars, enumerators or messages.\<close>

fun entry_value_kind :: "prop_kind \<Rightarrow> bool" where
  "entry_value_kind (PK_scalar t) = True" | "entry_value_kind PK_enum = True"
| "entry_value_kind (PK_message t) = True" | "entry_value_kind k = False"

lemma less_2_cases_all: "(\<forall>i < 2. P i) \<longleftrightarrow> P 0 \<and> P (Suc 0)"
  by (auto simp: less_2_cases_iff)

lemma map_entry_facts:
  assumes t: "sc ! t = map_entry_class (PK_scalar k) val"
  shows "f_count sc t = 2" "f_number sc t 0 = 1" "f_number sc t 1 = 2" "f_pindex sc t 0 = 0" "f_pindex sc t 1 = 1"
    and "f_flags sc t 0 = flags_of [Optional]" "f_flags sc t 1 = flags_of (getFlagForType val)"
    and "indexOfFieldNumber (f_ordering sc t) 1 = 0" "indexOfFieldNumber (f_ordering sc t) 2 = 1"
    and "f_prop sc t 0 = \<lparr>p_kind = PK_scalar k, p_slot = 0\<rparr>" "f_prop sc t 1 = \<lparr>p_kind = val, p_slot = 1\<rparr>"
    and "mc_props (sc ! t) = buildMetaObject (PK_scalar k) val"
    and "mc_defaults (sc ! t) = [default_member (PK_scalar k), default_member val]"
proof -
  let ?b = "map_entry_builder (PK_scalar k) val"
  have fields: "ob_fields ?b =
      [\<lparr>fd_jsonName = [0x6B, 0x65, 0x79], fd_fieldNumber = 1, fd_propertyIndex = 0, fd_flags = flags_of [Optional]\<rparr>,
       \<lparr>fd_jsonName = [0x76, 0x61, 0x6C, 0x75, 0x65], fd_fieldNumber = 2, fd_propertyIndex = 1,
        fd_flags = flags_of (getFlagForType val)\<rparr>]"
    by (simp add: map_entry_builder_def getFlagForType_def addV0Field_def new_builder_def Let_def flag_eval)
  have "build ?b \<noteq> None"
    by (simp only: build_some fields) (simp add: ProtobufFieldMaxCount_def ProtobufFieldNumMin_def ProtobufFieldNumMax_def)
  then obtain od where b: "build ?b = Some od" by blast
  have od: "f_ordering sc t = od" by (simp add: f_ordering_def t map_entry_class_def buildMapEntryOrdering_def b)
  have count: "fieldCount od = 2" using build_count(1) [OF b] by (simp add: fields)
  have rd: "uint_dataForIndex od 0 (fieldNumberOffset od) = 1" "uint_dataForIndex od 1 (fieldNumberOffset od) = 2"
    "uint_dataForIndex od 0 (propertyIndexOffset od) = 0" "uint_dataForIndex od 1 (propertyIndexOffset od) = 1"
    "uint_dataForIndex od 0 (flagsOffset od) = flags_of [Optional]"
    "uint_dataForIndex od 1 (flagsOffset od) = flags_of (getFlagForType val)"
    using build_uint_data [OF b, of 0] build_uint_data [OF b, of 1] by (simp_all add: fields)
  have two: "[0..<nat (fieldCount od)] = [0, 1]" by (simp add: count upt_rec)
  show "f_number sc t 0 = 1" "f_number sc t 1 = 2"
    by (simp_all add: f_number_def od fieldNumber_def count rd)
  show indices: "f_pindex sc t 0 = 0" "f_pindex sc t 1 = 1"
    by (simp_all add: f_pindex_def od propertyIndex_def count rd)
  show "f_flags sc t 0 = flags_of [Optional]" "f_flags sc t 1 = flags_of (getFlagForType val)"
    by (simp_all add: f_flags_def od fieldFlags_def count rd)
  show "indexOfFieldNumber (f_ordering sc t) 1 = 0" "indexOfFieldNumber (f_ordering sc t) 2 = 1"
    by (simp_all add: indexOfFieldNumber_def two rd od)
  show "f_prop sc t 0 = \<lparr>p_kind = PK_scalar k, p_slot = 0\<rparr>" "f_prop sc t 1 = \<lparr>p_kind = val, p_slot = 1\<rparr>"
    and "mc_props (sc ! t) = buildMetaObject (PK_scalar k) val"
    and "mc_defaults (sc ! t) = [default_member (PK_scalar k), default_member val]"
    using indices by (simp_all add: f_prop_def t map_entry_class_def buildMetaObject_def)
  show "f_count sc t = 2" by (simp add: f_count_def od count)
qed

lemma map_entry_class_ok:
  assumes val: "entry_value_kind val" and t: "t < length sc" "sc ! t = map_entry_class (PK_scalar k) val"
  shows "class_ok sc t"
proof -
  note facts = map_entry_facts [OF t(2)]
  have "field_ok sc t 0"
    using facts by (simp add: field_ok_def f_kind_def f_slot_def f_nonpacked_def f_required_def
        f_optional_def flag_eval buildMetaObject_def)
  moreover have "field_ok sc t 1"
    using val facts(3,5,7,9,11-13)
    by (cases val) (simp_all add: field_ok_def f_kind_def f_slot_def f_nonpacked_def f_required_def
        f_optional_def flag_eval buildMetaObject_def getFlagForType_def)
  moreover have "f_slot sc t 0 = 0" "f_slot sc t 1 = 1" using facts(10,11) by (simp_all add: f_slot_def)
  ultimately show ?thesis using t(1) facts(1) by (simp add: class_ok_def less_2_cases_all)
qed

end
