(* ===== verification/WireRoundtrip.thy ===== *)
theory WireRoundtrip
  imports WireFields GeneratedClasses
begin

text \<open>
  Reading a whole message back: after its first fields the deserializer holds the members that were
  on the wire so far (\<open>upto_field\<close>); the induction over the encoding gives \<open>wire_deserialized\<close>.
\<close>

subsection \<open>Messages\<close>

text \<open>The message after its first \<open>j\<close> fields: the members of the fields that were on the wire.\<close>

definition upto_field :: "schema \<Rightarrow> qmessage \<Rightarrow> (nat \<Rightarrow> byte list) \<Rightarrow> nat \<Rightarrow> qmessage" where
  "upto_field sc m bss j =
     QMessage (msg_type m)
       (map (\<lambda>s. if \<exists>i < j. f_slot sc (msg_type m) i = s \<and> bss i \<noteq> [] then msg_members m ! s
                  else mc_defaults (sc ! msg_type m) ! s) [0..<length (msg_members m)]) []"

lemma upto_field_simps [simp]:
  "msg_type (upto_field sc m bss j) = msg_type m" "unknownEntries (upto_field sc m bss j) = []"
  "length (msg_members (upto_field sc m bss j)) = length (msg_members m)"
  by (simp_all add: upto_field_def)

lemma emitted_oneof:
  "wire_field sc p q m i bs \<Longrightarrow> bs \<noteq> [] \<Longrightarrow> oneof_number (m_kind sc m i) = Some n \<Longrightarrow>
   \<exists>v. m_member sc m i = M_oneof v n"
  by (erule wire_field.cases)
    (auto elim!: single_valueE list_valueE message_valueE messages_valueE)

lemma upto_field_0:
  "msg_type m < length sc \<Longrightarrow> length (msg_members m) = length (mc_defaults (sc ! msg_type m)) \<Longrightarrow>
   upto_field sc m bss 0 = default_message sc (msg_type m)"
  by (rule qmessage_eqI) (simp_all add: upto_field_def default_message_def map_nth)

lemma upto_field_count:
  assumes "\<forall>s < length (msg_members m). (\<forall>i < n. f_slot sc (msg_type m) i = s \<longrightarrow> bss i = []) \<longrightarrow>
      msg_members m ! s = mc_defaults (sc ! msg_type m) ! s"
  shows "upto_field sc m bss n = with_unknown [] m"
  by (rule qmessage_eqI) (use assms in \<open>auto simp: upto_field_def intro!: nth_equalityI\<close>)

lemma upto_field_Suc:
  assumes cls: "class_ok sc (msg_type m)" and size: "length (msg_members m) = length (mc_defaults (sc ! msg_type m))"
    and held: "\<forall>i n. i < f_count sc (msg_type m) \<longrightarrow> bss i \<noteq> [] \<longrightarrow> oneof_number (m_kind sc m i) = Some n \<longrightarrow>
      (\<exists>v. m_member sc m i = M_oneof v n)"
    and j: "j < f_count sc (msg_type m)"
  shows "bss j = [] \<Longrightarrow> upto_field sc m bss (Suc j) = upto_field sc m bss j"
    and "bss j \<noteq> [] \<Longrightarrow> upto_field sc m bss (Suc j) =
      set_slot (f_slot sc (msg_type m) j) (m_member sc m j) (upto_field sc m bss j)"
    and "bss j \<noteq> [] \<Longrightarrow> m_member sc (upto_field sc m bss j) j = default_member (m_kind sc m j)"
proof -
  let ?t = "msg_type m"
  have ok: "field_ok sc ?t i" if "i < f_count sc ?t" for i using cls that by (simp add: class_ok_def)
  note slot = field_okD(4) [OF ok [OF j]]
  show "bss j = [] \<Longrightarrow> upto_field sc m bss (Suc j) = upto_field sc m bss j"
    by (rule qmessage_eqI) (auto simp: upto_field_def less_Suc_eq)
  assume emitted: "bss j \<noteq> []"
  show "upto_field sc m bss (Suc j) = set_slot (f_slot sc ?t j) (m_member sc m j) (upto_field sc m bss j)"
  proof (rule qmessage_eqI)
    show "msg_members (upto_field sc m bss (Suc j)) =
        msg_members (set_slot (f_slot sc ?t j) (m_member sc m j) (upto_field sc m bss j))"
    proof (rule nth_equalityI)
      fix s assume "s < length (msg_members (upto_field sc m bss (Suc j)))"
      then have s: "s < length (msg_members m)" by simp
      show "msg_members (upto_field sc m bss (Suc j)) ! s =
          msg_members (set_slot (f_slot sc ?t j) (m_member sc m j) (upto_field sc m bss j)) ! s"
      proof (cases "s = f_slot sc ?t j")
        case True
        have "\<exists>i < Suc j. f_slot sc ?t i = s \<and> bss i \<noteq> []" using True emitted by auto
        with True s show ?thesis by (simp add: upto_field_def set_slot_def get_slot_def)
      next
        case False
        then have "(\<exists>i < Suc j. f_slot sc ?t i = s \<and> bss i \<noteq> []) \<longleftrightarrow> (\<exists>i < j. f_slot sc ?t i = s \<and> bss i \<noteq> [])"
          by (auto simp: less_Suc_eq)
        with False s show ?thesis by (simp add: upto_field_def set_slot_def)
      qed
    qed simp
  qed simp_all
  have "bss i = []" if i1: "i < j" and i2: "f_slot sc ?t i = f_slot sc ?t j" for i
  proof (rule ccontr)
    assume i: "bss i \<noteq> []"
    have "i < f_count sc ?t" "i \<noteq> j" using i1 j by auto
    then obtain n n' where n: "oneof_number (m_kind sc m i) = Some n" "oneof_number (m_kind sc m j) = Some n'"
      using cls i2 j unfolding class_ok_def by blast
    obtain v v' where "m_member sc m i = M_oneof v n" "m_member sc m j = M_oneof v' n'"
      using held i n emitted j \<open>i < f_count sc ?t\<close> by blast
    then have "n = n'" using i2 by simp
    then have "m_number sc m i = m_number sc m j"
      using field_okD(6) [OF ok [OF j]] field_okD(6) [OF ok [OF \<open>i < f_count sc ?t\<close>]] n by simp
    then have "int i = int j"
      using field_okD(3) [OF ok [OF j]] field_okD(3) [OF ok [OF \<open>i < f_count sc ?t\<close>]] by simp
    with \<open>i \<noteq> j\<close> show False by simp
  qed
  then have "\<not> (\<exists>i < j. f_slot sc ?t i = f_slot sc ?t j \<and> bss i \<noteq> [])" by blast
  then show "m_member sc (upto_field sc m bss j) j = default_member (m_kind sc m j)"
    using slot size field_okD(5) [OF ok [OF j]] by (simp add: get_slot_def upto_field_def) blast
qed

text \<open>What the induction carries for a field.\<close>

definition field_transfers :: "schema \<Rightarrow> platform \<Rightarrow> bool \<Rightarrow> qmessage \<Rightarrow> nat \<Rightarrow> byte list \<Rightarrow> bool" where
  "field_transfers sc p q m i bs \<longleftrightarrow>
     bs = [] \<and> \<not> m_required sc m i \<or>
     (\<exists>rb rbs. rb \<noteq> [] \<and> bs = concat (rb # rbs) \<and>
        (\<forall>M. fits sc M i \<longrightarrow> msg_type M = msg_type m \<longrightarrow> m_member sc M i = default_member (m_kind sc m i) \<longrightarrow>
           field_reads sc p q M i (rb # rbs) (m_member sc m i)))"

lemma field_transfersI:
  assumes "rbs \<noteq> []" and "hd rbs \<noteq> []" and "bs = concat rbs"
    and "\<And>M. fits sc M i \<Longrightarrow> msg_type M = msg_type m \<Longrightarrow> m_member sc M i = default_member (m_kind sc m i) \<Longrightarrow>
      field_reads sc p q M i rbs (m_member sc m i)"
  shows "field_transfers sc p q m i bs"
proof -
  obtain rb rbs' where "rbs = rb # rbs'" using assms(1) by (cases rbs) auto
  with assms(2-4) show ?thesis unfolding field_transfers_def by (metis list.sel(1))
qed

definition commits :: "schema \<Rightarrow> qmessage \<Rightarrow> deserializer \<Rightarrow> qmessage \<Rightarrow> bool" where
  "commits sc m d M \<longleftrightarrow>
     (\<forall>d'. d_cachedIndex d' = d_cachedIndex d \<longrightarrow> d_cachedValue d' = d_cachedValue d \<longrightarrow>
        storeCachedValue sc m d' = (True, M, clearCachedValue d'))"

lemma required_fold:
  assumes "\<forall>j \<in> set js. j < nat (fieldCount od)" and "d_lastError d = NoError"
    and "\<forall>i < nat (fieldCount od). testFlag (fieldFlags od (int i)) Required \<longrightarrow> i \<in> set js"
  shows "checkRequiredFields od (fold mark_seen js (new_seen (fieldCount od))) d = (True, d)"
proof -
  have "is_seen i (fold mark_seen js (new_seen (fieldCount od))) \<longleftrightarrow> i \<in> set js"
    if "i < nat (fieldCount od)" for i
    using that assms(1) is_seen_fold [of js "new_seen (fieldCount od)" i] is_seen_new [OF that]
      new_seen_length by blast
  then have "missingFields od (fold mark_seen js (new_seen (fieldCount od))) = []"
    using assms(3) by (auto simp: missingFields_def filter_empty_conv)
  with assms(2) show ?thesis by (simp add: checkRequiredFields_def hasError_def)
qed

lemma completes_end:
  assumes d: "ready q d pre (unknown_bytes m) post" and c: "commits sc mc d (with_unknown [] m)"
    and type: "msg_type mc = msg_type m" and unknown: "unknown_ok sc q m"
    and seen: "seen = fold mark_seen js (new_seen (fieldCount (f_ordering sc (msg_type m))))"
    and js: "\<forall>j \<in> set js. j < f_count sc (msg_type m)"
    and req: "\<forall>i < f_count sc (msg_type m). f_required sc (msg_type m) i \<longrightarrow> i \<in> set js"
  shows "completes sc p seen mc d pre (unknown_bytes m) post m"
  unfolding completes_def
proof (intro allI impI)
  fix k assume len: "length (unknown_bytes m) + 1 < k"
  then obtain n where k: "k = Suc n" and n: "length (unknown_bytes m) < n" by (cases k) auto
  let ?e = "\<lambda>wt. d\<lparr>d_it := at_bytes (pre @ unknown_bytes m) [] post, d_state := butlast (d_state d), d_wireType := wt\<rparr>"
  have store: "storeCachedValue sc mc d = (True, with_unknown [] m, clearCachedValue d)"
    using c by (simp add: commits_def)
  then have mc: "unknownEntries mc = []"
    using storeCachedValue_unknown [OF store] by simp
  have "\<exists>wt. nextFieldIndex n sc p mc d = Ret (-1, with_unknown (unknownEntries m) mc, ?e wt)"
  proof (cases q)
    case True
    have po: "propertyOrdering sc mc = f_ordering sc (msg_type m)"
      by (simp add: propertyOrdering_def f_ordering_def type)
    have "fold (\<lambda>(n, l). append_entry n l) (flat_entries (unknownEntries m)) [] = unknownEntries m"
      using unknown fold_flat_entries [of "[]" "unknownEntries m"] by (auto simp: unknown_ok_def)
    moreover have "\<forall>(n, l) \<in> set (flat_entries (unknownEntries m)).
        raw_record n l \<and> indexOfFieldNumber (propertyOrdering sc mc) n = -1"
      using unknown by (fastforce simp: unknown_ok_def flat_entries_def po)
    ultimately show ?thesis
      using next_unknowns [of d pre "flat_entries (unknownEntries m)" post sc mc n p] d n True mc
      by (simp add: flat_entries_bytes)
  next
    case False
    then have "unknownEntries m = []" using unknown by (simp add: unknown_ok_def)
    moreover obtain j where "n = Suc j" using n by (cases n) auto
    ultimately show ?thesis using d mc with_unknown_simps(5) [of mc]
      by (auto simp: ready_def unknown_bytes_def it_eq_ptr_def intro!: exI [of _ "d_wireType d"]) (simp_all add: at_bytes_def)
  qed
  then obtain wt where next1: "nextFieldIndex n sc p mc d = Ret (-1, with_unknown (unknownEntries m) mc, ?e wt)"
    by blast
  have "storeCachedValue sc mc (?e wt) = (True, with_unknown [] m, clearCachedValue (?e wt))"
    using c by (simp add: commits_def)
  from storeCachedValue_unknown [OF this, of "unknownEntries m"]
  have "storeCachedValue sc (with_unknown (unknownEntries m) mc) (?e wt) = (True, m, clearCachedValue (?e wt))"
    by simp
  moreover have "checkRequiredFields (propertyOrdering sc m) seen (clearCachedValue (?e wt)) = (True, clearCachedValue (?e wt))"
    unfolding seen propertyOrdering_def f_ordering_def
    using d js req
    by (intro required_fold)
      (auto simp: clearCachedValue_def ready_def f_count_def f_ordering_def f_required_def f_flags_def)
  ultimately have "message_loop k sc p seen mc d = Ret (True, m, clearCachedValue (?e wt))"
    using next1 by (simp add: k finish_message_def)
  then show "finishes (message_loop k sc p seen mc d) d pre (unknown_bytes m) post m"
    by (auto simp: finishes_def clearCachedValue_def intro!: exI [of _ wt])
qed


text \<open>The fields from the \<open>j\<close>-th on, after the first \<open>j\<close> have been read.\<close>

lemma fields_complete:
  assumes cls: "class_ok sc (msg_type m)" and size: "length (msg_members m) = length (mc_defaults (sc ! msg_type m))"
    and unknown: "unknown_ok sc q m"
    and fields: "\<forall>i < f_count sc (msg_type m). wire_field sc p q m i (bss i) \<and> field_transfers sc p q m i (bss i)"
    and dflts: "\<forall>s < length (msg_members m).
      (\<forall>i < f_count sc (msg_type m). f_slot sc (msg_type m) i = s \<longrightarrow> bss i = []) \<longrightarrow>
      msg_members m ! s = mc_defaults (sc ! msg_type m) ! s"
  shows "j \<le> f_count sc (msg_type m) \<Longrightarrow>
    ready q d pre (concat (map bss [j..<f_count sc (msg_type m)]) @ unknown_bytes m) post \<Longrightarrow>
    commits sc mc d (upto_field sc m bss j) \<Longrightarrow> msg_type mc = msg_type m \<Longrightarrow> d_cachedIndex d < int j \<Longrightarrow>
    \<forall>i \<in> set js. i < f_count sc (msg_type m) \<Longrightarrow>
    \<forall>i < j. f_required sc (msg_type m) i \<longrightarrow> i \<in> set js \<Longrightarrow>
    completes sc p (fold mark_seen js (new_seen (fieldCount (f_ordering sc (msg_type m))))) mc d pre
      (concat (map bss [j..<f_count sc (msg_type m)]) @ unknown_bytes m) post m"
proof (induction "f_count sc (msg_type m) - j" arbitrary: j d pre mc js)
  case 0
  then have j: "j = f_count sc (msg_type m)" by simp
  have "upto_field sc m bss j = with_unknown [] m"
    unfolding j by (rule upto_field_count) (use dflts in simp)
  with 0 j unknown show ?case by (auto intro: completes_end)
next
  case (Suc n)
  let ?t = "msg_type m" and ?c = "f_count sc (msg_type m)"
  let ?M = "upto_field sc m bss j" and ?rest = "concat (map bss [Suc j..<f_count sc (msg_type m)]) @ unknown_bytes m"
  have j: "j < ?c" using Suc.hyps(2) by simp
  have held: "\<forall>i n. i < ?c \<longrightarrow> bss i \<noteq> [] \<longrightarrow> oneof_number (m_kind sc m i) = Some n \<longrightarrow>
      (\<exists>v. m_member sc m i = M_oneof v n)"
    using fields by (metis emitted_oneof)
  note up = upto_field_Suc [OF cls size held j]
  have split: "concat (map bss [j..<?c]) @ unknown_bytes m = bss j @ ?rest" using j by (simp add: upt_conv_Cons)
  have step: "n = ?c - Suc j" "Suc j \<le> ?c" using Suc.hyps(2) by simp_all
  from fields j have "field_transfers sc p q m j (bss j)" by blast
  then show ?case unfolding field_transfers_def
  proof (elim disjE)
    assume none: "bss j = [] \<and> \<not> m_required sc m j"
    then have "commits sc mc d (upto_field sc m bss (Suc j))" using Suc.prems(3) up(1) by simp
    with none Suc.prems have "completes sc p (fold mark_seen js (new_seen (fieldCount (f_ordering sc ?t)))) mc d pre
        ?rest post m"
      by (intro Suc.hyps(1) [OF step]) (auto simp: split less_Suc_eq)
    with none show ?thesis by (simp add: split)
  next
    assume "\<exists>rb rbs. rb \<noteq> [] \<and> bss j = concat (rb # rbs) \<and>
      (\<forall>M. fits sc M j \<longrightarrow> msg_type M = ?t \<longrightarrow> m_member sc M j = default_member (m_kind sc m j) \<longrightarrow>
        field_reads sc p q M j (rb # rbs) (m_member sc m j))"
    then obtain rb rbs where rb: "rb \<noteq> []" and bss: "bss j = concat (rb # rbs)"
      and reads: "\<And>M. fits sc M j \<Longrightarrow> msg_type M = ?t \<Longrightarrow> m_member sc M j = default_member (m_kind sc m j) \<Longrightarrow>
        field_reads sc p q M j (rb # rbs) (m_member sc m j)" by blast
    have emitted: "bss j \<noteq> []" using rb bss by simp
    have "fits sc ?M j" using cls size j by (simp add: fits_def class_ok_def)
    from reads [OF this _ up(3) [OF emitted]] obtain v m2 v3 m3
      where opened: "messageProperty sc ?M (f_info sc ?t j) True = (v, m2)" "msg_type m2 = ?t"
        and rs: "reads_records sc p q ?t j (rb # rbs) m2 v m3 v3" "msg_type m3 = ?t"
        and commit: "setMessageProperty sc m3 (f_info sc ?t j) v3 =
          (True, set_slot (f_slot sc ?t j) (m_member sc m j) ?M)" "\<not> isNull v3"
      by (auto simp: field_reads_def simp del: reads_records.simps)
    have opens: "opens sc j mc d m2 v"
      using Suc.prems(3,5) opened mk_field_info_eq [of ?M ?t sc j]
      by (auto simp: opens_def cache_field_def commits_def clearCachedValue_def)
    have "completes sc p (mark_seen j (fold mark_seen js (new_seen (fieldCount (f_ordering sc ?t))))) m3
        (after_record d (pre @ concat (rb # rbs)) ?rest post wt v3 j) (pre @ concat (rb # rbs)) ?rest post m" for wt
    proof -
      let ?d = "after_record d (pre @ concat (rb # rbs)) ?rest post wt v3 j"
      have "commits sc m3 ?d (upto_field sc m bss (Suc j))"
        unfolding up(2) [OF emitted] commits_def
        using commit mk_field_info_eq [OF rs(2), of sc j]
        by (auto simp: storeCachedValue_def after_record_def)
      moreover have "ready q ?d (pre @ concat (rb # rbs)) ?rest post"
        using Suc.prems(2) by (intro ready_after) (simp add: split bss)
      ultimately have "completes sc p (fold mark_seen (js @ [j]) (new_seen (fieldCount (f_ordering sc ?t)))) m3
          ?d (pre @ concat (rb # rbs)) ?rest post m"
        using Suc.prems j rs(2) by (intro Suc.hyps(1) [OF step]) (auto simp: after_record_def less_Suc_eq)
      then show ?thesis by simp
    qed
    moreover have "ready q d pre (concat (rb # rbs) @ ?rest) post" using Suc.prems(2) by (simp add: split bss)
    ultimately show ?thesis
      unfolding split bss using rs opens Suc.prems(4) opened(2) by (intro run_records)
  qed
qed

lemma scalar_record_nonempty: "scalar_record p n v \<noteq> []"
  using encodeHeader_nonempty by (simp add: scalar_record_def)

lemma wire_deserialized:
  assumes big: "2 ^ 31 - 1 \<le> maxByteArray p"
  shows "wire_message sc p q m bs \<Longrightarrow> child_reads sc p q m bs"
    and "wire_field sc p q m i bs \<Longrightarrow> field_transfers sc p q m i bs"
proof (induction m bs and m i bs rule: wire_message_wire_field.inducts)
  case (wire_messageI m bss)
  let ?t = "msg_type m"
  have fields: "\<forall>i < f_count sc ?t. wire_field sc p q m i (bss i) \<and> field_transfers sc p q m i (bss i)"
    using wire_messageI by blast
  have type: "?t < length sc" using wire_messageI by (simp add: class_ok_def)
  have "finishes (deserializeMessage k sc p (default_message sc ?t) d) d pre
      (concat (map bss [0..<f_count sc ?t]) @ unknown_bytes m) post m"
    if d: "ready q d pre (concat (map bss [0..<f_count sc ?t]) @ unknown_bytes m) post" "d_cachedIndex d = -1" "d_cachedValue d = Invalid"
      and k: "length (concat (map bss [0..<f_count sc ?t]) @ unknown_bytes m) + 1 < k" for pre post d k
  proof -
    have "commits sc (default_message sc ?t) d (upto_field sc m bss 0)"
      using d wire_messageI type
      by (auto simp: commits_def upto_field_0 storeCachedValue_def clearCachedValue_def)
    then have "completes sc p (fold mark_seen [] (new_seen (fieldCount (f_ordering sc ?t)))) (default_message sc ?t) d pre
        (concat (map bss [0..<f_count sc ?t]) @ unknown_bytes m) post m"
      using wire_messageI fields d by (intro fields_complete) simp_all
    with k show ?thesis
      by (simp add: completes_def deserializeMessage_def propertyOrdering_def f_ordering_def)
  qed
  with wire_messageI show ?case by (simp add: child_reads_def)
next
  case (wire_absent m i)
  then show ?case by (simp add: field_transfers_def field_absent_def)
next
  case (wire_single m i v)
  have "scalar_record p (m_number sc m i) v \<noteq> []" by (simp add: scalar_record_nonempty)
  with wire_single show ?case
    by (intro field_transfersI [of "[scalar_record p (m_number sc m i) v]"]) (auto dest: field_reads_single)
next
  case (wire_packed m i vs)
  have "packed_record p (m_number sc m i) vs \<noteq> []"
    using encodeHeader_nonempty by (simp add: packed_record_def)
  with wire_packed show ?case
    by (intro field_transfersI [of "[packed_record p (m_number sc m i) vs]"]) (auto dest: field_reads_list(1))
next
  case (wire_list m i vs)
  have "field_reads sc p q M i (map (scalar_record p (m_number sc m i)) vs) (m_member sc m i)"
    if "fits sc M i" "msg_type M = msg_type m" "m_member sc M i = default_member (m_kind sc m i)" for M
    using field_reads_list(2) [OF that(1)] that wire_list by simp
  with wire_list show ?case
    by (intro field_transfersI [of "map (scalar_record p (m_number sc m i)) vs"])
      (auto simp: hd_map scalar_record_nonempty)
next
  case (wire_submessage m i c bs)
  have "message_record (m_number sc m i) bs \<noteq> []"
    using message_record_length [of bs "m_number sc m i"] by auto
  with wire_submessage big show ?case
    by (intro field_transfersI [of "[message_record (m_number sc m i) bs]"]) (auto dest: field_reads_message)
next
  case (wire_messages m i cs cbs)
  have children: "list_all2 (child_reads sc p q) cs cbs"
    using wire_messages.IH(2) by (rule list.rel_mono_strong) blast
  have len: "\<forall>cb \<in> set cbs. length cb < 2 ^ 31" "\<forall>cb \<in> set cbs. length cb \<le> maxByteArray p"
    using wire_messages big by fastforce+
  have nonempty: "message_record (m_number sc m i) cb \<noteq> []" for cb
    using message_record_length [of cb "m_number sc m i"] by auto
  have "field_reads sc p q M i (map (message_record (m_number sc m i)) cbs) (m_member sc m i)"
    if "fits sc M i" "msg_type M = msg_type m" "m_member sc M i = default_member (m_kind sc m i)" for M
    using field_reads_messages [OF that(1) _ _ _ children len] that wire_messages by simp
  moreover have "cbs \<noteq> []" using wire_messages children by auto
  ultimately show ?case
    by (intro field_transfersI [of "map (message_record (m_number sc m i)) cbs"])
      (auto simp: hd_map nonempty)
qed

end
