(* ===== verification/MessageRoundtrip.thy ===== *)
theory MessageRoundtrip
  imports WireRoundtrip
begin

text \<open>
  The properties of the wire format as a whole: a message class that is generated from a descriptor
  with a field of every shape, the serializer against the format, the round trip through serializer
  and deserializer, and the generated tables.
\<close>

subsection \<open>A message with fields of every shape\<close>

definition demo_fields :: "field_descriptor list" where
  "demo_fields =
     (let f = \<lparr>desc_type = TYPE_SCALAR T_int32, desc_number = 1, desc_json_name = [0x61], is_map = False,
        is_repeated = False, is_required = False, is_packed = False, has_presence = False,
        real_containing_oneof = None, desc_message_name = '''', desc_package = ''demo''\<rparr>
      in [f,
          f\<lparr>desc_type := TYPE_SCALAR T_sint32, desc_number := 2, desc_json_name := [0x62], is_repeated := True, is_packed := True\<rparr>,
          f\<lparr>desc_type := TYPE_MESSAGE 0, desc_number := 3, desc_json_name := [0x63], has_presence := True\<rparr>,
          f\<lparr>desc_type := TYPE_MESSAGE 1, desc_number := 4, desc_json_name := [0x64], is_map := True, is_repeated := True\<rparr>,
          f\<lparr>desc_type := TYPE_SCALAR T_QString, desc_number := 5, desc_json_name := [0x65], has_presence := True, real_containing_oneof := Some 0\<rparr>,
          f\<lparr>desc_type := TYPE_ENUM, desc_number := 6, desc_json_name := [0x66], has_presence := True, real_containing_oneof := Some 0\<rparr>,
          f\<lparr>desc_type := TYPE_SCALAR T_float, desc_number := 7, desc_json_name := [0x67]\<rparr>])"

definition demo_descriptor :: message_descriptor where
  "demo_descriptor = \<lparr>desc_full_name = [0x4D], desc_fields = demo_fields, real_oneof_decl_count = 1\<rparr>"

definition wire_schema :: schema where
  "wire_schema = [generated_class demo_descriptor, map_entry_class (PK_scalar T_QString) (PK_scalar T_int32)]"

lemma all_less_Suc: "(\<forall>i < Suc n. P i) \<longleftrightarrow> P n \<and> (\<forall>i < n. P i)"
  by (auto simp: less_Suc_eq)

lemma demo_generated: "generated_fields demo_descriptor = demo_fields" "length demo_fields = 7"
  by (simp_all add: demo_descriptor_def demo_fields_def isGroupField_def Let_def)

lemma demo_valid: "valid_descriptor demo_descriptor" "\<forall>f \<in> set (generated_fields demo_descriptor). core_field f"
  unfolding valid_descriptor_def demo_generated
  by (simp_all add: demo_fields_def valid_field_def charData_eq demo_generated metaCharDataSize_def Let_def
      demo_descriptor_def core_field_def isQtType_def isOverridden_def name_bytes_def)

lemma wire_schema_ok: "class_ok wire_schema 0" "class_ok wire_schema 1"
  by (rule generated_class_ok [OF demo_valid], simp_all add: wire_schema_def)
    (rule map_entry_class_ok [of "PK_scalar T_int32"], simp_all add: wire_schema_def)

lemma wire_schema_nth: "wire_schema ! 0 = generated_class demo_descriptor"
  "wire_schema ! 1 = map_entry_class (PK_scalar T_QString) (PK_scalar T_int32)"
  by (simp_all add: wire_schema_def)

lemma demo_table:
  "f_count wire_schema 0 = 7"
  "i < 7 \<Longrightarrow> f_number wire_schema 0 i = int (desc_number (demo_fields ! i))"
  "i < 7 \<Longrightarrow> f_flags wire_schema 0 i = flags_of (collectFieldFlags (demo_fields ! i))"
  "i < 7 \<Longrightarrow> f_kind wire_schema 0 i = value_kind (demo_fields ! i)"
  "i < 7 \<Longrightarrow> f_slot wire_schema 0 i = member_slot demo_fields i 0 (plain_members demo_fields)"
  "mc_defaults (wire_schema ! 0) = printClassMembers demo_descriptor"
proof -
  have od: "f_ordering wire_schema 0 = printFieldsOrdering demo_descriptor"
    by (simp add: f_ordering_def wire_schema_nth generated_class_def)
  have df: "desc_fields demo_descriptor = demo_fields" by (simp add: demo_descriptor_def)
  have gf: "filter (\<lambda>f. \<not> isGroupField f) demo_fields = demo_fields"
    using demo_generated(1) by (simp only: df)
  have len: "i < length (generated_fields demo_descriptor)" if "i < 7" for i
    using that by (simp only: demo_generated)
  note acc = generated_accessors [OF demo_valid(1) len od, unfolded df gf]
  note fld = generated_field [OF demo_valid(1) len wire_schema_nth(1), unfolded df gf]
  show "f_count wire_schema 0 = 7" using fld(1) [of 0] by (simp add: demo_generated)
  show "i < 7 \<Longrightarrow> f_number wire_schema 0 i = int (desc_number (demo_fields ! i))"
    and "i < 7 \<Longrightarrow> f_flags wire_schema 0 i = flags_of (collectFieldFlags (demo_fields ! i))"
    using acc by simp_all
  show "i < 7 \<Longrightarrow> f_kind wire_schema 0 i = value_kind (demo_fields ! i)"
    and "i < 7 \<Longrightarrow> f_slot wire_schema 0 i = member_slot demo_fields i 0 (plain_members demo_fields)"
    using fld(2) by (simp_all add: f_kind_def f_slot_def)
  show "mc_defaults (wire_schema ! 0) = printClassMembers demo_descriptor"
    by (simp add: wire_schema_nth generated_class_def)
qed


lemmas demo_defs = demo_fields_def value_kind_def collectFieldFlags_def isOneofField_def isOptionalField_def
  isPureMessage_def isQtType_def isOverridden_def Let_def

lemma demo_kinds [simp]:
  "f_kind wire_schema 0 0 = PK_scalar T_int32" "f_kind wire_schema 0 (Suc 0) = PK_scalars T_sint32"
  "f_kind wire_schema 0 2 = PK_message 0" "f_kind wire_schema 0 3 = PK_map 1"
  "f_kind wire_schema 0 4 = PK_oneof T_QString 5" "f_kind wire_schema 0 5 = PK_oneof_enum 6"
  "f_kind wire_schema 0 6 = PK_scalar T_float"
  unfolding demo_table(4) [of 0, simplified] demo_table(4) [of 1, simplified] demo_table(4) [of 2, simplified]
    demo_table(4) [of 3, simplified] demo_table(4) [of 4, simplified] demo_table(4) [of 5, simplified]
    demo_table(4) [of 6, simplified]
  by (simp_all add: demo_defs)

lemma demo_slots [simp]:
  "f_slot wire_schema 0 0 = 0" "f_slot wire_schema 0 (Suc 0) = 1" "f_slot wire_schema 0 2 = 2"
  "f_slot wire_schema 0 3 = 3" "f_slot wire_schema 0 4 = 5" "f_slot wire_schema 0 5 = 5" "f_slot wire_schema 0 6 = 4"
  unfolding demo_table(5) [of 0, simplified] demo_table(5) [of 1, simplified] demo_table(5) [of 2, simplified]
    demo_table(5) [of 3, simplified] demo_table(5) [of 4, simplified] demo_table(5) [of 5, simplified]
    demo_table(5) [of 6, simplified]
  by (simp_all add: demo_defs member_slot_def plain_members_def isGroupField_def)


lemma demo_numbers [simp]:
  "f_number wire_schema 0 0 = 1" "f_number wire_schema 0 (Suc 0) = 2" "f_number wire_schema 0 2 = 3"
  "f_number wire_schema 0 3 = 4" "f_number wire_schema 0 4 = 5"
  by (simp_all add: demo_table(2) demo_defs)

lemma demo_flags [simp]:
  "\<not> f_nonpacked wire_schema 0 (Suc 0)"
  "\<not> f_required wire_schema 0 0" "\<not> f_required wire_schema 0 (Suc 0)" "\<not> f_required wire_schema 0 2"
  "\<not> f_required wire_schema 0 3" "\<not> f_required wire_schema 0 4" "\<not> f_required wire_schema 0 5"
  "\<not> f_required wire_schema 0 6"
  "\<not> f_forced wire_schema 0 0" "\<not> f_forced wire_schema 0 (Suc 0)" "\<not> f_forced wire_schema 0 3"
  "\<not> f_forced wire_schema 0 6"
  by (simp_all add: f_forced_def f_nonpacked_def f_required_def f_optional_def demo_table(3) demo_defs flag_eval)

lemma demo_entry [simp]:
  "f_kind wire_schema (Suc 0) 0 = PK_scalar T_QString" "f_kind wire_schema (Suc 0) (Suc 0) = PK_scalar T_int32"
  "f_slot wire_schema (Suc 0) 0 = 0" "f_slot wire_schema (Suc 0) (Suc 0) = 1"
  "f_number wire_schema (Suc 0) 0 = 1" "f_number wire_schema (Suc 0) (Suc 0) = 2"
  "f_forced wire_schema (Suc 0) 0" "f_forced wire_schema (Suc 0) (Suc 0)" "f_count wire_schema (Suc 0) = 2"
  "mc_defaults (wire_schema ! Suc 0) = [M_plain (Scalar (V_QString [])), M_plain (Scalar (V_int32 0))]"
  using map_entry_facts [OF wire_schema_nth(2)]
  by (simp_all add: f_kind_def f_slot_def f_forced_def f_optional_def flag_eval getFlagForType_def)

lemma demo_defaults:
  "mc_defaults (wire_schema ! 0) = [M_plain (Scalar (V_int32 0)), M_plain (Scalars T_sint32 []), M_message 0 None,
     M_plain (MapOf 1 []), M_plain (Scalar (V_float 0)), new_oneof]"
  unfolding demo_table(6)
  by (simp add: printClassMembers_def iterateMessageFields_def demo_descriptor_def demo_defs isGroupField_def)

definition demo_message :: qmessage where
  "demo_message =
     QMessage 0
       [M_plain (Scalar (V_int32 150)), M_plain (Scalars T_sint32 [V_sint32 (- 1), V_sint32 2]),
        M_message 0 (Some (default_message wire_schema 0)),
        M_plain (MapOf 1 [QMessage 1 [M_plain (Scalar (V_QString [0x6B])), M_plain (Scalar (V_int32 0))] []]),
        M_plain (Scalar (V_float 0)), M_oneof (Scalar (V_QString [0x78])) 5]
       [(15, [[0x78, 0x01]])]"

text \<open>The bytes of its fields, and of the map entry.\<close>

definition entry_bytes :: "byte list" where
  "entry_bytes = scalar_record latin1_platform 1 (V_QString [0x6B]) @ scalar_record latin1_platform 2 (V_int32 0)"

definition demo_bytes :: "nat \<Rightarrow> byte list" where
  "demo_bytes i =
     [scalar_record latin1_platform 1 (V_int32 150), packed_record latin1_platform 2 [V_sint32 (- 1), V_sint32 2],
      message_record 3 [], message_record 4 entry_bytes, scalar_record latin1_platform 5 (V_QString [0x78]), [], []] ! i"

lemma all_less_7: "(\<forall>i < (7 :: nat). P i) \<longleftrightarrow> P 0 \<and> P (Suc 0) \<and> P 2 \<and> P 3 \<and> P 4 \<and> P 5 \<and> P 6"
  by (simp add: eval_nat_numeral all_less_Suc) blast

lemma all_less_6: "(\<forall>i < (6 :: nat). P i) \<longleftrightarrow> P 0 \<and> P (Suc 0) \<and> P 2 \<and> P 3 \<and> P 4 \<and> P 5"
  by (simp add: eval_nat_numeral all_less_Suc) blast

lemma demo_default: "default_message wire_schema 0 = QMessage 0 [M_plain (Scalar (V_int32 0)), M_plain (Scalars T_sint32 []),
    M_message 0 None, M_plain (MapOf 1 []), M_plain (Scalar (V_float 0)), new_oneof] []"
  by (simp add: default_message_def demo_defaults) (simp add: wire_schema_def)

lemma wire_default: "wire_message wire_schema p u (default_message wire_schema 0) []"
proof -
  let ?m = "default_message wire_schema 0"
  have "wire_message wire_schema p u ?m (concat (map (\<lambda>_. []) [0..<f_count wire_schema (msg_type ?m)]) @ unknown_bytes ?m)"
  proof (rule wire_messageI)
    show "\<forall>i < f_count wire_schema (msg_type ?m). wire_field wire_schema p u ?m i []"
      by (simp add: demo_table(1) all_less_7)
        (simp add: wire_absent field_absent_def get_slot_def demo_default new_oneof_def)
  qed (simp_all add: wire_schema_ok demo_default demo_defaults unknown_ok_def)
  moreover have "concat (map (\<lambda>_. [] :: byte list) [0..<k]) = []" for k by simp
  ultimately show ?thesis by (simp add: demo_default unknown_bytes_def)
qed

lemma wire_entry:
  "wire_message wire_schema latin1_platform u
     (QMessage 1 [M_plain (Scalar (V_QString [0x6B])), M_plain (Scalar (V_int32 0))] []) entry_bytes"
proof -
  let ?m = "QMessage 1 [M_plain (Scalar (V_QString [0x6B])), M_plain (Scalar (V_int32 0))] []"
  let ?b = "\<lambda>i :: nat. if i = 0 then scalar_record latin1_platform 1 (V_QString [0x6B])
    else scalar_record latin1_platform 2 (V_int32 0)"
  have "wire_field wire_schema latin1_platform u ?m 0 (?b 0)"
    using wire_single [of wire_schema ?m 0 "V_QString [0x6B]" latin1_platform u]
    by (simp add: single_value_def get_slot_def latin1_platform_def)
  moreover have "wire_field wire_schema latin1_platform u ?m 1 (?b 1)"
    using wire_single [of wire_schema ?m "Suc 0" "V_int32 0" latin1_platform u]
    by (simp add: single_value_def get_slot_def)
  ultimately have "wire_message wire_schema latin1_platform u ?m
      (concat (map ?b [0..<f_count wire_schema (msg_type ?m)]) @ unknown_bytes ?m)"
    by (intro wire_messageI) (auto simp: wire_schema_ok [simplified] unknown_ok_def less_2_cases_all
        scalar_record_nonempty less_Suc_eq)
  then show ?thesis by (simp add: entry_bytes_def unknown_bytes_def upt_rec)
qed


lemma raw_demo: "raw_record 15 [0x78, 0x01]"
proof -
  have "encodeHeader 15 WT_Varint = [0x78]"
    by (simp add: encodeHeader_def serializeVarintCommon_def serializeVarintCommonImpl_def varint_groups.simps)
  then show ?thesis
    unfolding raw_record_def by (intro conjI exI [of _ WT_Varint] exI [of _ "[0x01]"]) simp_all
qed

lemma entry_length: "length entry_bytes < 2 ^ 31"
  by (simp add: entry_bytes_def scalar_record_def encodeHeader_def serializeVarintCommon_def
      serializeVarintCommonImpl_def varint_groups.simps prependLengthDelimitedSize_def latin1_platform_def)

lemma generated_no_index:
  assumes valid: "valid_descriptor d" and n: "0 < n" "n < 2 ^ 31"
    and other: "\<forall>f \<in> set (generated_fields d). int (desc_number f) \<noteq> n"
  shows "indexOfFieldNumber (printFieldsOrdering d) n = -1"
proof -
  let ?gs = "generated_fields d"
  note b = generated_table [OF valid]
  note count = build_count [OF b, unfolded builder_fields]
  note rd = build_uint_data [OF b, unfolded builder_fields]
  have "uint_dataForIndex (printFieldsOrdering d) (int j) (fieldNumberOffset (printFieldsOrdering d)) \<noteq> word_of_int n"
    if j: "j < length ?gs" for j
  proof
    assume "uint_dataForIndex (printFieldsOrdering d) (int j) (fieldNumberOffset (printFieldsOrdering d)) = word_of_int n"
    then have eq: "(of_nat (desc_number (?gs ! j)) :: uint32) = word_of_int n"
      using j by (simp add: rd builder_fields)
    have "valid_field d (?gs ! j)" using valid nth_mem [OF j] unfolding valid_descriptor_def by blast
    then have "int (desc_number (?gs ! j)) = uint (of_nat (desc_number (?gs ! j)) :: uint32)"
      by (simp add: valid_field_def unsigned_of_nat take_bit_nat_eq_self)
    also have "\<dots> = uint (word_of_int n :: uint32)" by (simp only: eq)
    also have "\<dots> = n" using n by (simp add: uint_word_of_int)
    finally have "int (desc_number (?gs ! j)) = n" .
    with other nth_mem [OF j] show False by blast
  qed
  then have "find (\<lambda>j. uint_dataForIndex (printFieldsOrdering d) (int j) (fieldNumberOffset (printFieldsOrdering d)) =
      word_of_int n) [0..<nat (fieldCount (printFieldsOrdering d))] = None"
    unfolding find_None_iff by (simp add: count)
  then show ?thesis by (simp add: indexOfFieldNumber_def)
qed

lemma demo_unknown: "unknown_ok wire_schema True demo_message"
proof -
  have "indexOfFieldNumber (printFieldsOrdering demo_descriptor) 15 = -1"
    by (rule generated_no_index [OF demo_valid(1)]) (simp_all add: demo_generated, simp add: demo_fields_def Let_def)
  then have "indexOfFieldNumber (f_ordering wire_schema 0) 15 = -1"
    by (simp add: f_ordering_def wire_schema_nth generated_class_def)
  then show ?thesis by (simp add: unknown_ok_def demo_message_def raw_demo)
qed

lemma wire_demo:
  "wire_message wire_schema latin1_platform True demo_message
     (concat (map demo_bytes [0..<7]) @ [0x78, 0x01])"
proof -
  let ?p = latin1_platform
  note evals = demo_message_def get_slot_def
  have "wire_field wire_schema ?p True demo_message 0 (demo_bytes 0)"
    using wire_single [of wire_schema demo_message 0 "V_int32 150" ?p True]
    by (simp add: single_value_def evals demo_bytes_def scalar_eq_def)
  moreover have "wire_field wire_schema ?p True demo_message (Suc 0) (demo_bytes (Suc 0))"
    using wire_packed [of wire_schema demo_message "Suc 0" "[V_sint32 (- 1), V_sint32 2]" ?p True]
    by (simp add: list_value_def evals demo_bytes_def serializeListType_def prependLengthDelimitedSize_def
        serializeZigZag32_def serializeVarintCommon_def serializeVarintCommonImpl_def varint_groups.simps)
  moreover have "wire_field wire_schema ?p True demo_message 2 (demo_bytes 2)"
    using wire_submessage [of wire_schema demo_message 2 "default_message wire_schema 0" ?p True "[]"]
      wire_default [of ?p True]
    by (simp add: message_value_def evals demo_bytes_def demo_default)
  moreover have "wire_field wire_schema ?p True demo_message 3 (demo_bytes 3)"
    using wire_messages [of wire_schema demo_message 3
        "[QMessage 1 [M_plain (Scalar (V_QString [0x6B])), M_plain (Scalar (V_int32 0))] []]" ?p True "[entry_bytes]"]
      wire_entry [of True] entry_length
    by (simp add: messages_value_def evals demo_bytes_def entry_ok_def)
  moreover have "wire_field wire_schema ?p True demo_message 4 (demo_bytes 4)"
    using wire_single [of wire_schema demo_message 4 "V_QString [0x78]" ?p True]
    by (simp add: single_value_def evals demo_bytes_def latin1_platform_def)
  moreover have "wire_field wire_schema ?p True demo_message 5 (demo_bytes 5)"
    using wire_absent [of wire_schema demo_message 5 ?p True]
    by (simp add: field_absent_def evals demo_bytes_def)
  moreover have "wire_field wire_schema ?p True demo_message 6 (demo_bytes 6)"
    using wire_absent [of wire_schema demo_message 6 ?p True]
    by (simp add: field_absent_def evals demo_bytes_def)
  ultimately have fields: "\<forall>i < 7. wire_field wire_schema ?p True demo_message i (demo_bytes i)"
    unfolding all_less_7 by blast
  have "wire_message wire_schema ?p True demo_message
      (concat (map demo_bytes [0..<f_count wire_schema (msg_type demo_message)]) @ unknown_bytes demo_message)"
  proof (rule wire_messageI)
    show "\<forall>i < f_count wire_schema (msg_type demo_message). wire_field wire_schema ?p True demo_message i (demo_bytes i)"
      using fields by (simp add: demo_message_def demo_table(1))
    show "\<forall>s < length (msg_members demo_message).
       (\<forall>i < f_count wire_schema (msg_type demo_message).
          f_slot wire_schema (msg_type demo_message) i = s \<longrightarrow> demo_bytes i = []) \<longrightarrow>
       msg_members demo_message ! s = mc_defaults (wire_schema ! msg_type demo_message) ! s"
      by (simp add: demo_message_def all_less_6 demo_table(1) all_less_7 demo_defaults demo_bytes_def
          scalar_record_nonempty packed_record_def message_record_def encodeHeader_not_Nil)
  qed (simp_all add: wire_schema_ok demo_unknown, simp_all add: demo_message_def wire_schema_ok demo_defaults)
  then show ?thesis by (simp add: demo_message_def demo_table(1) unknown_bytes_def)
qed


lemma serialize_encoding:
  assumes "wire_message sc p (preserveUnknownFields d) m bs" and "length bs < fuel"
    and "length bs \<le> 2147483647"
  shows "serialize fuel sc p m d =
    Some (bs, d\<lparr>lastError := NoError, sp_serializer := \<lparr>m_result = [], m_state = []\<rparr>\<rparr>)"
proof -
  obtain fb where bs: "bs = fb @ unknown_bytes m"
    and ser: "\<And>defaults st. serializeMessage fuel sc p (preserveUnknownFields d) defaults m st = Some (ser_append fb st)"
    and pres: "preserveUnknownFields d \<or> unknownEntries m = []"
    using wire_serialized(1) [OF assms(1)] assms(2) by (auto simp: writes_def)
  have "serializeUnknownFields (preserveUnknownFields d) m st = ser_append (unknown_bytes m) st" for st
    using pres by (auto simp: serializeUnknownFields_def unknown_bytes_def)
  then show ?thesis
    using assms(3) bs
    by (simp add: serialize_def Let_def ser MaxSerializeMessageSizeLimit_def)
      (simp add: ser_append_def ser_reset_def)
qed

lemma demo_length: "length (concat (map demo_bytes [0..<7]) @ [0x78, 0x01]) < 100"
  by (simp add: demo_bytes_def upt_rec entry_bytes_def scalar_record_def packed_record_def message_record_def
      encodeHeader_def serializeVarintCommon_def serializeVarintCommonImpl_def varint_groups.simps
      serializeListType_def serializeZigZag32_def prependLengthDelimitedSize_def latin1_platform_def)

lemma default_limit: "unat (effectiveMaximumInputSize Env_unset new_serializer) = 2147483647"
  by (simp add: effectiveMaximumInputSize_def new_serializer_def readEnvMaximumInputSize_def
      MaxDeserializeMessageSizeLimit_def MaxSerializeMessageSizeLimit_def)

subsection \<open>Properties\<close>

text \<open>C2: The serializer refines the wire format: for a message that has an encoding it returns
  exactly that encoding and no error, whatever state it was left in, with fuel of the size of the
  encoding.\<close>

theorem serializer_writes_encoding:
  assumes "wire_message sc p (preserveUnknownFields d) m bs" and "length bs < fuel"
    and "length bs \<le> 2147483647"
  shows "serialize fuel sc p m d =
    Some (bs, d\<lparr>lastError := NoError, sp_serializer := \<lparr>m_result = [], m_state = []\<rparr>\<rparr>)"
  by (rule serialize_encoding [OF assms])

theorem serializer_writes_encoding_witness:
  "\<exists>d'. serialize 100 wire_schema latin1_platform demo_message new_serializer =
     Some (concat (map demo_bytes [0..<7]) @ [0x78, 0x01], d') \<and> lastError d' = NoError"
proof -
  have "wire_message wire_schema latin1_platform (preserveUnknownFields new_serializer) demo_message
      (concat (map demo_bytes [0..<7]) @ [0x78, 0x01])"
    using wire_demo by (simp add: new_serializer_def)
  from serializer_writes_encoding [OF this, of 100] demo_length show ?thesis by force
qed

lemma deserialize_encoding:
  assumes "wire_message sc p (preserveUnknownFields s) m bs" and "length bs + 1 < fuel"
    and "2147483647 \<le> maxByteArray p"
    and "length bs \<le> unat (effectiveMaximumInputSize env s)" and "msg_type target = msg_type m"
  shows "deserialize fuel env sc p target bs (s\<lparr>lastError := NoError, sp_serializer := \<lparr>m_result = [], m_state = []\<rparr>\<rparr>) =
    Ret (True, m, s\<lparr>lastError := NoError, sp_serializer := \<lparr>m_result = [], m_state = []\<rparr>\<rparr>)"
proof -
  let ?s = "s\<lparr>lastError := NoError, sp_serializer := \<lparr>m_result = [], m_state = []\<rparr>\<rparr>"
  have eff: "effectiveMaximumInputSize env (?s\<lparr>lastError := NoError\<rparr>) = effectiveMaximumInputSize env s"
    by (simp add: effectiveMaximumInputSize_def)
  let ?d = "deser_reset bs (new_deserializer ?s)"
  have "2 ^ 31 - 1 \<le> maxByteArray p" using assms(3) by simp
  from wire_deserialized(1) [OF this assms(1)]
  have reads: "child_reads sc p (preserveUnknownFields s) m bs" .
  have "ready (preserveUnknownFields s) ?d [] bs []" "d_cachedIndex ?d = -1" "d_cachedValue ?d = Invalid"
    by (simp_all add: ready_def deser_reset_def clearCachedValue_def new_deserializer_def fromView_def at_bytes_def)
  with reads assms(2)
  have "finishes (deserializeMessage fuel sc p (default_message sc (msg_type m)) ?d) ?d [] bs [] m"
    unfolding child_reads_def by blast
  then show "deserialize fuel env sc p target bs ?s = Ret (True, m, ?s)"
    using assms(4,5) eff
    by (auto simp: deserialize_def qprotobuf_deserializeMessage_def Let_def finishes_def deser_reset_def
        clearCachedValue_def new_deserializer_def)
qed

text \<open>C1: Round trip of messages: what \<open>serialize\<close> writes for a message with an encoding is
  read back by \<open>deserialize\<close> as that message, whatever the target contained before, with its nested
  messages, map entries, oneofs and unknown fields, and without an error; fuel of the size of the
  bytes and two more units is enough for both.\<close>

theorem message_wire_roundtrip:
  assumes "wire_message sc p (preserveUnknownFields s) m bs" and "length bs + 1 < fuel"
    and "length bs \<le> 2147483647" and "2147483647 \<le> maxByteArray p"
    and "length bs \<le> unat (effectiveMaximumInputSize env s)" and "msg_type target = msg_type m"
  shows "\<exists>s'. serialize fuel sc p m s = Some (bs, s') \<and> lastError s' = NoError \<and>
    deserialize fuel env sc p target bs s' = Ret (True, m, s')"
  using deserialize_encoding [OF assms(1,2,4,5,6)] serialize_encoding [OF assms(1) _ assms(3), of fuel] assms(2) by simp

theorem message_wire_roundtrip_witness:
  "\<exists>bs s'. serialize 102 wire_schema latin1_platform demo_message new_serializer = Some (bs, s') \<and>
     deserialize 102 Env_unset wire_schema latin1_platform (QMessage 0 [] []) bs s' = Ret (True, demo_message, s')"
proof -
  have w: "wire_message wire_schema latin1_platform (preserveUnknownFields new_serializer) demo_message
      (concat (map demo_bytes [0..<7]) @ [0x78, 0x01])"
    using wire_demo by (simp add: new_serializer_def)
  have "msg_type (QMessage 0 [] []) = msg_type demo_message" by (simp add: demo_message_def)
  with message_wire_roundtrip [OF w, of 102 Env_unset "QMessage 0 [] []"] demo_length
  show ?thesis unfolding default_limit by (auto simp: latin1_platform_def)
qed

text \<open>The encoding of a message is determined by the message, and the message by its class and the
  encoding: two messages of a class with the same bytes are equal.\<close>

theorem encoding_one_to_one:
  assumes "wire_message sc p u m bs" and "wire_message sc p u m' bs'" and "msg_type m = msg_type m'"
    and "2147483647 \<le> maxByteArray p"
  shows "m = m' \<longleftrightarrow> bs = bs'"
proof
  assume m: "m = m'"
  let ?k = "length bs + length bs' + 1" and ?st = "\<lparr>m_result = [], m_state = []\<rparr>"
  from wire_serialized(1) [OF assms(1)] obtain fb where bs: "bs = fb @ unknown_bytes m"
    "\<forall>fuel defaults st. length bs < fuel \<longrightarrow> serializeMessage fuel sc p u defaults m st = Some (ser_append fb st)"
    unfolding writes_def by blast
  from wire_serialized(1) [OF assms(2)] obtain fb' where bs': "bs' = fb' @ unknown_bytes m'"
    "\<forall>fuel defaults st. length bs' < fuel \<longrightarrow> serializeMessage fuel sc p u defaults m' st = Some (ser_append fb' st)"
    unfolding writes_def by blast
  have "serializeMessage ?k sc p u [] m ?st = Some (ser_append fb ?st)"
    "serializeMessage ?k sc p u [] m' ?st = Some (ser_append fb' ?st)"
    by (rule bs(2) [rule_format], simp) (rule bs'(2) [rule_format], simp)
  with m have "fb = fb'" by (simp add: ser_append_def)
  with m bs(1) bs'(1) show "bs = bs'" by simp
next
  assume bs: "bs = bs'"
  have big: "2 ^ 31 - 1 \<le> maxByteArray p" using assms(4) by simp
  define d where "d = (deser_reset bs (new_deserializer new_serializer))\<lparr>d_preserve := u\<rparr>"
  have d: "ready u d [] bs []" "d_cachedIndex d = -1" "d_cachedValue d = Invalid"
    by (simp_all add: d_def ready_def deser_reset_def clearCachedValue_def new_deserializer_def fromView_def at_bytes_def)
  have "finishes (deserializeMessage (length bs + 2) sc p (default_message sc (msg_type m)) d) d [] bs [] m"
    using wire_deserialized(1) [OF big assms(1)] d unfolding child_reads_def by simp
  moreover have "finishes (deserializeMessage (length bs + 2) sc p (default_message sc (msg_type m)) d) d [] bs [] m'"
    using wire_deserialized(1) [OF big assms(2)] d unfolding child_reads_def bs assms(3) by simp
  ultimately show "m = m'" by (auto simp: finishes_def)
qed

text \<open>A field of type \<open>float\<close> or \<open>double\<close> without explicit presence that holds \<open>-0.0\<close> writes nothing,
  as if it held \<open>0.0\<close>: the sign is lost on the wire.\<close>

theorem negative_zero_is_not_written:
  assumes "class_ok sc (msg_type m)" and "i < f_count sc (msg_type m)"
    and "length (msg_members m) = length (mc_defaults (sc ! msg_type m))"
    and "\<not> f_forced sc (msg_type m) i"
    and "m_kind sc m i = PK_scalar T_float \<and> m_member sc m i = M_plain (Scalar (V_float 0x80000000)) \<or>
      m_kind sc m i = PK_scalar T_double \<and> m_member sc m i = M_plain (Scalar (V_double 0x8000000000000000))"
  shows "serialize_field sc p preserve ser defaults m i st = Some st"
proof -
  have fits: "fits sc m i" using assms(1-3) by (simp add: fits_def class_ok_def)
  note ok = fits_ok [OF fits]
  note unfolds = serialize_field_def Let_def fits_facts(1,2) [OF fits] field_flags_test [OF ok]
    has_value_def read_member_def serializeScalarField_def scalar_eq_def float_eq_def double_eq_def
  show ?thesis using assms(4,5) by (elim disjE) (simp_all add: unfolds split: option.split)
qed

text \<open>C8: The table that the generator prints as static data is the one that the ordering builder makes from
  the same fields at run time, and it is always made; the strings have the size that the generator
  computed for their array.\<close>

theorem generated_table_equals_builder:
  assumes "valid_descriptor d"
  shows "build (builder_of d) = Some (printFieldsOrdering d) \<and>
    length (printCharData d) = metaCharDataSize d + 1 + charDataSize d"
  using generated_table [OF assms] charData_eq [of d] by (simp add: metaCharDataSize_def)

theorem generated_table_equals_builder_witness:
  "build (builder_of demo_descriptor) = Some (printFieldsOrdering demo_descriptor)"
  using generated_table_equals_builder [OF demo_valid(1)] by blast

text \<open>Read through the accessors of the ordering, a generated table gives the full name of the message
  and, for the fields in the order of the descriptor without its groups, their names, numbers and
  flags; the property index selects the property of the value, of the kind of the field.\<close>

theorem generated_table_describes_fields:
  assumes "valid_descriptor d" and "i < length (generated_fields d)"
  shows "fieldCount (printFieldsOrdering d) = int (generatedFieldCount d) \<and>
    messageFullName (printFieldsOrdering d) = desc_full_name d \<and>
    jsonName (printFieldsOrdering d) (int i) = desc_json_name (generated_fields d ! i) \<and>
    fieldNumber (printFieldsOrdering d) (int i) = int (desc_number (generated_fields d ! i)) \<and>
    fieldFlags (printFieldsOrdering d) (int i) = flags_of (collectFieldFlags (generated_fields d ! i)) \<and>
    nat (propertyIndex (printFieldsOrdering d) (int i)) < length (printProperties d) \<and>
    p_kind (printProperties d ! nat (propertyIndex (printFieldsOrdering d) (int i))) =
      value_kind (generated_fields d ! i)"
proof -
  let ?sc = "[generated_class d]"
  have od: "f_ordering ?sc 0 = printFieldsOrdering d" by (simp add: f_ordering_def generated_class_def)
  note b = generated_table [OF assms(1)]
  have chars: "char_size (builder_of d) < 2 ^ 32"
    using assms(1) builder_names [of "length (generated_fields d)" d]
    by (simp add: valid_descriptor_def char_size_def build_chars_def builder_fields charData_eq metaCharDataSize_def)
  note acc = generated_accessors [OF assms od]
  note fld = generated_field [OF assms, of ?sc 0]
  have "jsonName (printFieldsOrdering d) (int i) = desc_json_name (generated_fields d ! i)"
    using build_names [OF b chars, of i] assms(2) by (simp add: builder_fields)
  moreover have "messageFullName (printFieldsOrdering d) = desc_full_name d"
    using build_full_name [OF b chars] by (simp add: builder_fields)
  moreover have "fieldCount (printFieldsOrdering d) = int (generatedFieldCount d)"
    using build_count(1) [OF b] by (simp add: builder_fields generatedFieldCount_def)
  moreover have "fieldNumber (printFieldsOrdering d) (int i) = int (desc_number (generated_fields d ! i))"
    "propertyIndex (printFieldsOrdering d) (int i) = int (property_count (take i (generated_fields d)))"
    "fieldFlags (printFieldsOrdering d) (int i) = flags_of (collectFieldFlags (generated_fields d ! i))"
    using acc(2-4) by (simp_all add: f_number_def f_pindex_def f_flags_def od)
  moreover have "property_count (take i (generated_fields d)) < length (printProperties d)"
    "p_kind (printProperties d ! property_count (take i (generated_fields d))) = value_kind (generated_fields d ! i)"
    using fld(2,3) acc(3) by (simp_all add: f_prop_def generated_class_def)
  ultimately show ?thesis by simp
qed

text \<open>C7: The classes that the generator prints keep the contract between the tables, the properties and
  the members: every property index and number of the table leads to a property of the kind that the
  flags announce, with a member that has the default of this kind, and only the fields of a oneof
  share a member.\<close>

theorem generated_classes_fit:
  assumes "valid_descriptor d" and "\<forall>f \<in> set (generated_fields d). core_field f"
  shows "class_ok [generated_class d] 0"
  by (rule generated_class_ok [OF assms]) simp_all

theorem generated_classes_fit_witness: "class_ok [generated_class demo_descriptor] 0"
  by (rule generated_classes_fit [OF demo_valid])

end
