(* ===== verification/EndToEnd.thy ===== *)
theory EndToEnd
  imports ClientCorrectness MessageRoundtrip
begin

text \<open>
  A call from end to end: the argument of the client as the server reads it from the stream, and the
  messages of the server as the client reads them.
\<close>

subsection \<open>Calls are runs of their handler\<close>

fun writes_event :: "'s event \<Rightarrow> bool" where
  "writes_event (WriteMessageRequested bs) = True"
| "writes_event WritesDoneRequested = True"
| "writes_event _ = False"

definition runs_with :: "('s event \<Rightarrow> bool) \<Rightarrow> 's net \<Rightarrow> 's http2_handler \<Rightarrow> 's http2_handler \<Rightarrow> bool" where
  "runs_with W net h h' \<longleftrightarrow> (\<exists>es. handler_run net h es h' \<and> (\<forall>e \<in> set es. W e))"

lemma runs_with_refl [simp]: "runs_with W net h h"
  unfolding runs_with_def by (intro exI [of _ "[]"]) (simp add: run_nil)

lemma runs_with_step: "runs_with W net h h' \<Longrightarrow> enabled e h' \<Longrightarrow> W e \<Longrightarrow> runs_with W net h (handle net e h')"
  unfolding runs_with_def
  by (metis (no_types, lifting) Un_iff deliver empty_iff insert_iff list.set(1) list.simps(15) run_snoc set_append)

definition handler_runs :: "('s event \<Rightarrow> bool) \<Rightarrow> 's net \<Rightarrow> 's http2_handler \<Rightarrow> ('m, 'w, 's) client_call \<Rightarrow> bool" where
  "handler_runs W net h0 c \<longleftrightarrow> (case cc_handler c of Some h \<Rightarrow> runs_with W net h0 h | None \<Rightarrow> True)"

lemma handler_runs_event:
  "handler_runs W net h0 c \<Longrightarrow> (\<And>h. cc_handler c = Some h \<Longrightarrow> enabled e h) \<Longrightarrow> W e \<Longrightarrow>
   handler_runs W net h0 (handler_event gc net e c)"
  by (auto simp: handler_runs_def handler_event_handler runs_with_step split: option.splits)

lemma handler_runs_requests:
  assumes "handler_runs W net h0 c" and "\<forall>r \<in> set rs. \<forall>e. request_event r = Some e \<longrightarrow> W e"
  shows "handler_runs W net h0 (fold (deliver_request gc net) rs c)"
  using assms
proof (induction rs arbitrary: c)
  case (Cons r rs)
  have "handler_runs W net h0 (deliver_request gc net r c)"
    using Cons.prems by (auto simp: deliver_request_def intro: handler_runs_event split: option.split)
  then show ?case using Cons by simp
qed simp

lemma handler_runs_call:
  assumes "call_run gc net c0 es c" and "handler_runs W net h0 c0" and "call_ok c0"
    and "\<And>e. channel_side e \<or> e = CancelRequested \<Longrightarrow> W e"
    and "forwards_written (rpc_kind (op_rpc (cc_operation c0))) \<Longrightarrow> W = (\<lambda>_. True)"
  shows "handler_runs W net h0 c"
  using assms
proof (induction rule: call_run.induct)
  case (call_run_snoc c0 es c e)
  have run: "handler_runs W net h0 c" using call_run_snoc by simp
  have ok: "call_ok c" using call_run_snoc call_ok_run by blast
  have rpc: "op_rpc (cc_operation c) = op_rpc (cc_operation c0)"
    using same_call_run [OF call_run_snoc(1)] by (simp add: same_call_def)
  have act: "handler_runs W net h0 (client_action gc net f c)"
    if "\<forall>r \<in> set (drop (length (op_requests (cc_operation c))) (op_requests (f (cc_operation c)))).
        \<forall>e. request_event r = Some e \<longrightarrow> W e" for f
    unfolding client_action_def Let_def
    using run that by (intro handler_runs_requests) (auto simp: handler_runs_def)
  show ?case
  proof (cases e)
    case ClientCancel
    then show ?thesis
      using call_run_snoc.prems(3) act [of "op_cancel gc"] by (auto simp: op_cancel_def)
  next
    case (ClientWriteMessage msg)
    then have "W = (\<lambda>_. True)" using call_run_snoc.hyps call_run_snoc.prems(4) rpc by simp
    then show ?thesis using ClientWriteMessage act [of "op_writeMessage gc msg"] by simp
  next
    case ClientWritesDone
    then have "W = (\<lambda>_. True)" using call_run_snoc.hyps call_run_snoc.prems(4) rpc by simp
    then show ?thesis using ClientWritesDone act [of "op_writesDone gc"] by simp
  next
    case (HandlerSlot ev)
    then show ?thesis
      using run call_run_snoc.hyps call_run_snoc.prems(3) by (auto intro!: handler_runs_event split: option.splits)
  qed (use run in \<open>auto simp: handler_runs_def\<close>)
qed simp

text \<open>A call with a handler, as a run of that handler.\<close>

lemma started_call:
  assumes "call_run gc net (start_call gc net hds cho env locked unwritable rpc arg opts oid w) es c"
    and "cc_handler c = Some h" and "initOperation gc locked rpc arg opts oid w = (Some bs, op)"
  shows "runs_with (\<lambda>e. forwards_written (rpc_kind rpc) \<or> \<not> writes_event e) net
    (new_handler net hds rpc (op_options op) cho env bs (rpc_endStream (rpc_kind rpc))) h"
proof -
  let ?h0 = "new_handler net hds rpc (op_options op) cho env bs (rpc_endStream (rpc_kind rpc))"
  let ?W = "\<lambda>e. forwards_written (rpc_kind rpc) \<or> \<not> writes_event e"
  have "handler_runs ?W net ?h0 (start_call gc net hds cho env locked unwritable rpc arg opts oid w)"
    using assms(3) by (simp add: start_call_def handler_runs_def Let_def split: option.split)
  moreover have "?W e" if "channel_side e \<or> e = CancelRequested" for e using that by (cases e) auto
  moreover have "op_rpc (cc_operation (start_call gc net hds cho env locked unwritable rpc arg opts oid w)) = rpc"
    using assms(3) initOperation_result [OF assms(3)] same_call_signals [OF same_call_refl, of op gc]
    by (simp add: start_call_def Let_def same_call_def split: option.split)
  ultimately have "handler_runs ?W net ?h0 c"
    by (intro handler_runs_call [OF assms(1) _ call_ok_start]) auto
  then show ?thesis using assms(2) by (simp add: handler_runs_def)
qed

lemma nothing_enqueued: "\<not> writes_event e \<Longrightarrow> enqueued net e h = []"
  by (cases e) simp_all

lemma silent_accepted: "\<forall>e \<in> set es. \<not> writes_event e \<Longrightarrow> accepted net es h = []"
  by (induction es arbitrary: h) (simp_all add: nothing_enqueued)

lemma handler_events:
  assumes "cc_handler c = Some h" and "\<forall>e \<in> set es. e \<noteq> ContextDestroyed"
  shows "fold (\<lambda>e. handler_event gc net e) es c =
    \<lparr>cc_operation = fold (context_signal gc) (new_effects h (fold (handle net) es h)) (cc_operation c),
     cc_handler = Some (fold (handle net) es h)\<rparr>"
  using assms
proof (induction es arbitrary: c h)
  case Nil
  then show ?case by (simp add: new_effects_def)
next
  case (Cons e es)
  let ?h = "handle net e h"
  have g: "goes_on h ?h" using Cons.prems by (intro goes_on_handle) simp
  have "goes_on g (fold (handle net) ds g)" if "\<forall>e \<in> set ds. e \<noteq> ContextDestroyed" for ds g
    using that by (induction ds arbitrary: g) (auto intro: goes_on_trans [OF goes_on_handle])
  then have "goes_on ?h (fold (handle net) es ?h)" using Cons.prems by simp
  with g have "new_effects h (fold (handle net) es ?h) = new_effects h ?h @ new_effects ?h (fold (handle net) es ?h)"
    by (auto simp: goes_on_def new_effects_def)
  moreover have "handler_event gc net e c =
      \<lparr>cc_operation = fold (context_signal gc) (new_effects h ?h) (cc_operation c), cc_handler = Some ?h\<rparr>"
    using Cons.prems(1) by (simp add: handler_event_def Let_def)
  ultimately show ?case using Cons.IH [of "handler_event gc net e c" ?h] Cons.prems by simp
qed


subsection \<open>Serializers\<close>

text \<open>
  The contract of a serializer with an operation: a message that it can encode is written without an
  error, and is read back into any message of its class.
\<close>

locale message_codec =
  fixes ser :: "'m message_serializer" and encodes :: "'m \<Rightarrow> byte list \<Rightarrow> bool" and same_class :: "'m \<Rightarrow> 'm \<Rightarrow> bool"
  assumes writes: "encodes m bs \<Longrightarrow> \<exists>errText. ser_serialize ser m = (bs, NoError, errText)"
    and reads: "encodes m bs \<Longrightarrow> same_class t m \<Longrightarrow> ser_deserialize ser t bs = Ret (True, m)"
begin

lemma argument_serialized:
  assumes "encodes arg bs" and "gc_serializer gc = Some ser" and "gc_sameThread gc"
    and "\<not> hasHandlerFor (gc_engine gc) StartCap"
  shows "initOperation gc True rpc arg opts oid w =
    (Some bs, new_operation gc True rpc opts oid w)"
proof -
  obtain e where "ser_serialize ser arg = (bs, NoError, e)" using writes [OF assms(1)] by blast
  then show ?thesis using assms(2-4)
    by (simp add: initOperation_def new_operation_def serializeInitialMessage_def serializationFailure_def Let_def)
qed

text \<open>The messages of a server arrive one after the other; the operation holds the last one.\<close>

lemma messages_arrive:
  assumes "\<not> hasHandlerFor (gc_engine gc) MessageReceivedCap" and "bss \<noteq> []"
  shows "op_data (fold (context_signal gc) (map EmitMessageReceived bss) op) = last bss \<and>
    op_client (fold (context_signal gc) (map EmitMessageReceived bss) op) =
      op_client op @ (if forwards_received (rpc_kind (op_rpc op))
                      then replicate (length bss) OperationMessageReceived else [])"
  using assms(2)
proof (induction bss rule: rev_induct)
  case (snoc bs bss)
  have rpc: "op_rpc (fold (context_signal gc) es op) = op_rpc op" for es
    using same_call_signals [OF same_call_refl, of op gc es] by (simp add: same_call_def)
  show ?case
  proof (cases "bss = []")
    case True
    then show ?thesis using assms(1)
      by (simp add: context_messageReceived_def intercept_none tell_client_def Let_def)
  next
    case False
    then show ?thesis using assms(1) snoc rpc [of "map EmitMessageReceived bss"]
      by (simp add: context_messageReceived_def intercept_none tell_client_def Let_def replicate_append_same)
  qed
qed simp

lemma received_is_read:
  "op_serializer op = Some ser \<Longrightarrow> op_data op = bs \<Longrightarrow> encodes m bs \<Longrightarrow> same_class t m \<Longrightarrow>
   read_message t op = Ret (True, m)"
  by (simp add: read_message_def reads)

end

text \<open>
  The serializer of the wire format in the state \<open>s\<close>. The fuel stands for a number that is large
  enough: without it the result would not be that of the code.
\<close>

definition wire_serializer ::
  "nat \<Rightarrow> env_value \<Rightarrow> schema \<Rightarrow> platform \<Rightarrow> (ser_error \<Rightarrow> string) \<Rightarrow> serializer_private \<Rightarrow> qmessage message_serializer" where
  "wire_serializer fuel env sc p errText s =
     \<lparr>ser_serialize = (\<lambda>m. case serialize fuel sc p m s of
        Some (bs, s') \<Rightarrow> (bs, lastError s', errText (lastError s')) | None \<Rightarrow> ([], UnknownType, [])),
      ser_deserialize = (\<lambda>m bs. run_bind (deserialize fuel env sc p m bs s) (\<lambda>(ok, m', s'). Ret (ok, m')))\<rparr>"

definition wire_encodes ::
  "nat \<Rightarrow> env_value \<Rightarrow> schema \<Rightarrow> platform \<Rightarrow> serializer_private \<Rightarrow> qmessage \<Rightarrow> byte list \<Rightarrow> bool" where
  "wire_encodes fuel env sc p s m bs \<longleftrightarrow>
     wire_message sc p (preserveUnknownFields s) m bs \<and> length bs + 1 < fuel \<and> length bs \<le> 2147483647 \<and>
     2147483647 \<le> maxByteArray p \<and> length bs \<le> unat (effectiveMaximumInputSize env s) \<and>
     lastError s = NoError \<and> sp_serializer s = \<lparr>m_result = [], m_state = []\<rparr>"

lemma wire_encodes_fresh:
  "wire_encodes fuel env sc p s m bs \<Longrightarrow> s\<lparr>lastError := NoError, sp_serializer := \<lparr>m_result = [], m_state = []\<rparr>\<rparr> = s"
  by (simp add: wire_encodes_def)

lemma wire_encodes_deserialize:
  assumes "wire_encodes fuel env sc p s m bs" and "msg_type t = msg_type m"
  shows "deserialize fuel env sc p t bs s = Ret (True, m, s)"
  using deserialize_encoding [of sc p s m bs fuel env t] assms wire_encodes_fresh [OF assms(1)]
  unfolding wire_encodes_def by metis

interpretation wire: message_codec "wire_serializer fuel env sc p errText s" "wire_encodes fuel env sc p s"
    "\<lambda>t m. msg_type t = msg_type m"
  for fuel env sc p errText s
proof
  fix m bs assume e: "wire_encodes fuel env sc p s m bs"
  then show "\<exists>e. ser_serialize (wire_serializer fuel env sc p errText s) m = (bs, NoError, e)"
    using serialize_encoding [of sc p s m bs fuel] by (simp add: wire_encodes_def wire_serializer_def)
  fix t assume "msg_type t = msg_type m"
  with e show "ser_deserialize (wire_serializer fuel env sc p errText s) t bs = Ret (True, m)"
    by (simp add: wire_serializer_def wire_encodes_deserialize)
qed

subsection \<open>An example\<close>

definition demo_wire :: "qmessage message_serializer" where
  "demo_wire = wire_serializer 102 Env_unset wire_schema latin1_platform (\<lambda>_. []) (new_serializer\<lparr>lastError := NoError\<rparr>)"

abbreviation demo_encoding :: "byte list" where
  "demo_encoding \<equiv> concat (map demo_bytes [0..<7]) @ [0x78, 0x01]"

lemma demo_encodes:
  "wire_encodes 102 Env_unset wire_schema latin1_platform (new_serializer\<lparr>lastError := NoError\<rparr>) demo_message demo_encoding"
proof -
  have "unat (effectiveMaximumInputSize Env_unset (new_serializer\<lparr>lastError := NoError\<rparr>)) = 2147483647"
    using default_limit by (simp add: effectiveMaximumInputSize_def)
  moreover have "preserveUnknownFields (new_serializer\<lparr>lastError := NoError\<rparr>)"
    "sp_serializer (new_serializer\<lparr>lastError := NoError\<rparr>) = \<lparr>m_result = [], m_state = []\<rparr>"
    "2147483647 \<le> maxByteArray latin1_platform"
    by (simp_all add: new_serializer_def latin1_platform_def)
  ultimately show ?thesis using wire_demo demo_length unfolding wire_encodes_def by force
qed

definition demo_rpc :: "rpc_type \<Rightarrow> rpc_descriptor" where
  "demo_rpc t = \<lparr>service = ''S'', rpc_method = ''M'', rpc_kind = t\<rparr>"

definition demo_unary :: "(qmessage, unit, stream_state) client_call" where
  "demo_unary =
     start_call (demo_gc demo_wire) demo_net demo_channel_headers (new_channel_options (\<lambda>_. True) 0) None True None
       (demo_rpc UnaryCall) demo_message new_common_options 0 ()"

lemma demo_gc_thread [simp]: "gc_sameThread (demo_gc ser)"
  by (simp add: demo_gc_def)

lemma demo_unary_handler:
  "cc_handler demo_unary =
     Some (new_handler demo_net demo_channel_headers (demo_rpc UnaryCall) new_common_options
       (new_channel_options (\<lambda>_. True) 0) None demo_encoding True)"
proof -
  let ?rpc = "demo_rpc UnaryCall"
  have "initOperation (demo_gc demo_wire) True ?rpc demo_message new_common_options 0 () =
      (Some demo_encoding, new_operation (demo_gc demo_wire) True ?rpc new_common_options 0 ())"
    by (rule wire.argument_serialized [OF demo_encodes]) (simp_all add: demo_wire_def)
  moreover have "op_options (new_operation (demo_gc demo_wire) True ?rpc new_common_options 0 ()) = new_common_options"
    by (simp add: new_operation_def Let_def)
  ultimately show ?thesis by (simp add: demo_unary_def start_call_def Let_def rpc_endStream_def demo_rpc_def)
qed

lemma writeMessage_keeps_parser: "h_stream h = None \<Longrightarrow> h_parser (writeMessage net bs h) = h_parser h"
  by (simp add: writeMessage_def finish_def handleContextExpired_def processQueue_def enqueue_message_def
      warn_queue_def perform_def Let_def split: prod.split)

lemma new_handler_parser:
  "h_parser (new_handler net hds rpc co cho env bs e) = new_parser (constructMaximumReceiveSize co cho env)"
  by (simp add: new_handler_def writeMessage_keeps_parser)

subsection \<open>From the client to the server and back\<close>

text \<open>C24: The argument of a call reaches the server: whatever happens during a unary or server streaming call,
  the handler has handed exactly one message to the stream or still has it in its queue, and a server
  that cuts the stream into frames, inflates a compressed one and deserializes it gets the argument of
  the client.\<close>

theorem argument_reaches_server:
  assumes "call_run gc net (start_call gc net hds cho envMax True unwritable rpc arg opts oid w) es c"
    and "cc_handler c = Some h" and "\<not> forwards_written (rpc_kind rpc)"
    and "gc_serializer gc = Some (wire_serializer fuel env sc p errText s)" and "gc_sameThread gc"
    and "\<not> hasHandlerFor (gc_engine gc) StartCap" and "wire_encodes fuel env sc p s arg bs"
    and "zlib_inverse (net_zlib net) inflate" and "length bs \<le> unat (maxReceiveSize server)"
    and "container server = []" and "msg_type target = msg_type arg"
  shows "\<exists>buffer payload compressed.
    data_calls (h_effects h) @ h_queue h = [buffer] \<and>
    parseNextFrame (feed buffer server) = (Frame payload compressed, server\<lparr>container := []\<rparr>) \<and>
    deserialize fuel env sc p target
      (if compressed then inflate (constructRequestEncoding opts cho) payload else payload) s = Ret (True, arg, s)"
proof -
  let ?enc = "constructRequestEncoding opts cho"
  let ?msg = "fst (build_message (net_zlib net) ?enc bs None)"
  have io: "initOperation gc True rpc arg opts oid w = (Some bs, new_operation gc True rpc opts oid w)"
    by (rule wire.argument_serialized [OF assms(7,4,5,6)])
  have "op_options (new_operation gc True rpc opts oid w) = opts"
    using assms(4,5) by (simp add: new_operation_def Let_def)
  with started_call [OF assms(1,2) io] assms(3) obtain hes where
    run: "handler_run net (new_handler net hds rpc opts cho envMax bs (rpc_endStream (rpc_kind rpc))) hes h"
    and silent: "\<forall>e \<in> set hes. \<not> writes_event e"
    unfolding runs_with_def by auto
  have "\<not> uint GrpcMaxPayloadSize < int (length bs)"
    using assms(7) by (simp add: wire_encodes_def GrpcMaxPayloadSize_def GrpcMessageSizeHeaderSize_def)
  then have out: "outgoing h = [?msg]"
    using run_extends_queue [OF run] new_handler_queue [of net hds rpc opts cho envMax bs "rpc_endStream (rpc_kind rpc)"]
      silent_accepted [OF silent, of net] by (simp add: extends_queue_def)
  obtain flag payload c' where cp: "compress_payload (net_zlib net) ?enc bs None = (flag, payload, c')"
    by (cases "compress_payload (net_zlib net) ?enc bs None") auto
  then have msg: "?msg = frame_message flag payload" by (simp add: build_message_def)
  have "helper_for ?enc None" by (simp add: helper_for_def)
  with compress_payload_cases [OF assms(8) this, of bs] cp
  have pl: "length payload \<le> length bs" "(if flag \<noteq> 0 then inflate ?enc payload else payload) = bs" by auto
  have "frame_dec (maxReceiveSize server) (frame_message flag payload @ []) = Some ((payload, flag \<noteq> 0), [])"
    by (rule frame_dec_frame) (use pl(1) assms(9) in simp)
  then have parse: "parseNextFrame (feed ?msg server) = (Frame payload (flag \<noteq> 0), server\<lparr>container := []\<rparr>)"
    using assms(10) parseNextFrame_Frame [of "maxReceiveSize server" ?msg payload "flag \<noteq> 0" "[]"]
    by (cases server) (simp add: msg feed_def)
  have "deserialize fuel env sc p target bs s = Ret (True, arg, s)"
    using assms(7,11) by (rule wire_encodes_deserialize)
  then have "deserialize fuel env sc p target (if flag \<noteq> 0 then inflate ?enc payload else payload) s = Ret (True, arg, s)"
    by (simp only: pl(2))
  moreover have "data_calls (h_effects h) @ h_queue h = [?msg]" using out unfolding outgoing_def .
  ultimately show ?thesis using parse by blast
qed


theorem argument_reaches_server_witness:
  "\<exists>h buffer payload compressed.
    cc_handler demo_unary = Some h \<and> data_calls (h_effects h) @ h_queue h = [buffer] \<and>
    parseNextFrame (feed buffer (new_parser 1000)) = (Frame payload compressed, (new_parser 1000)\<lparr>container := []\<rparr>) \<and>
    deserialize 102 Env_unset wire_schema latin1_platform (QMessage 0 [] [])
      (if compressed then demo_inflate payload else payload) (new_serializer\<lparr>lastError := NoError\<rparr>) =
        Ret (True, demo_message, new_serializer\<lparr>lastError := NoError\<rparr>)"
proof -
  have ser: "gc_serializer (demo_gc demo_wire) = Some (wire_serializer 102 Env_unset wire_schema latin1_platform (\<lambda>_. [])
      (new_serializer\<lparr>lastError := NoError\<rparr>))"
    by (simp add: demo_wire_def)
  have z: "zlib_inverse (net_zlib demo_net) (\<lambda>_. demo_inflate)" using demo_zlib_inverse by (simp add: demo_net_def)
  have n: "\<not> forwards_written (rpc_kind (demo_rpc UnaryCall))" by (simp add: forwards_written_def demo_rpc_def)
  have len: "length demo_encoding \<le> unat (maxReceiveSize (new_parser 1000))" "container (new_parser 1000) = []"
    "msg_type (QMessage 0 [] []) = msg_type demo_message"
    using demo_length by (simp_all add: new_parser_def demo_message_def)
  from argument_reaches_server [OF call_run_nil [of "demo_gc demo_wire" demo_net demo_unary, unfolded demo_unary_def]
      demo_unary_handler [unfolded demo_unary_def] n ser demo_gc_thread demo_gc_none demo_encodes z len]
  show ?thesis using demo_unary_handler by blast
qed

text \<open>C25: The messages of the server reach the client: when the frames of their encodings arrive, in whatever
  chunks, the client is told of each message once (on a stream that receives several) and reads the
  last one, equal to what the server had.\<close>

theorem server_messages_are_read:
  assumes "call_run gc net (start_call gc net hds cho envMax locked unwritable rpc arg opts oid w) es c"
    and "cc_handler c = Some h" and "h_state h \<noteq> Cancelled" and "container (h_parser h) = []"
    and "gc_serializer gc = Some (wire_serializer fuel env sc p errText s)"
    and "\<not> hasHandlerFor (gc_engine gc) MessageReceivedCap"
    and "list_all2 (wire_encodes fuel env sc p s) ms bss" and "ms \<noteq> []"
    and "\<forall>bs \<in> set bss. length bs \<le> unat (maxReceiveSize (h_parser h))"
    and "concat chunks = concat (map (frame_message 0) bss)" and "msg_type target = msg_type (last ms)"
    and "c' = fold (\<lambda>chunk. call_handle gc net (HandlerSlot (DataReceived chunk False))) chunks c"
  shows "read_message target (cc_operation c') = Ret (True, last ms) \<and>
    op_client (cc_operation c') = op_client (cc_operation c) @
      (if forwards_received (rpc_kind rpc) then replicate (length ms) OperationMessageReceived else [])"
proof -
  let ?m = "maxReceiveSize (h_parser h)" and ?fs = "map (\<lambda>p. (p, False)) bss"
  have "concat chunks = concat (map frame_enc ?fs)"
    by (simp add: assms(10) frame_enc_def comp_def)
  then have "decode_all (frame_dec ?m) (container (h_parser h) @ concat chunks) = (?fs, [])"
    using assms(4,9) decode_all_frames [of ?fs ?m] by simp
  moreover have "frame_dec ?m (container (h_parser h)) = None"
    by (simp add: assms(4) frame_dec_def parseNextFrame_def GrpcMessageSizeHeaderSize_def)
  ultimately have "fold (\<lambda>bs. onDataReceived net bs False) chunks h = deliver ?fs [] h"
    by (rule receive_chunks) (use assms(3) in simp_all)
  moreover have "handle net (DataReceived x False) = onDataReceived net x False" for x by (rule ext) simp
  ultimately have h': "fold (handle net) (map (\<lambda>chunk. DataReceived chunk False) chunks) h = deliver ?fs [] h"
    by (simp add: fold_map comp_def)
  have "call_handle gc net (HandlerSlot e) = handler_event gc net e" for e by (rule ext) simp
  then have "c' = fold (\<lambda>e. handler_event gc net e) (map (\<lambda>chunk. DataReceived chunk False) chunks) c"
    by (simp add: assms(12) fold_map comp_def)
  also have "\<dots> = \<lparr>cc_operation = fold (context_signal gc) (new_effects h (deliver ?fs [] h)) (cc_operation c),
      cc_handler = Some (deliver ?fs [] h)\<rparr>"
    using handler_events [OF assms(2), of "map (\<lambda>chunk. DataReceived chunk False) chunks" gc net] h' by simp
  also have "new_effects h (deliver ?fs [] h) = map EmitMessageReceived bss"
    by (simp add: new_effects_def deliver_def comp_def)
  finally have c': "cc_operation c' = fold (context_signal gc) (map EmitMessageReceived bss) (cc_operation c)"
    by simp
  have len: "length ms = length bss" "bss \<noteq> []"
    using assms(7,8) by (auto dest: list_all2_lengthD)
  have enc: "wire_encodes fuel env sc p s (last ms) (last bss)"
    using assms(7,8) len by (simp add: last_conv_nth list_all2_conv_all_nth)
  obtain bs0 op0 where rpc: "op_serializer (cc_operation c) = gc_serializer gc" "op_rpc (cc_operation c) = rpc"
    using start_serializer [OF assms(1)] assms(2) by blast
  note arrive = wire.messages_arrive [OF assms(6) len(2), of "cc_operation c"]
  have "read_message target (cc_operation c') = Ret (True, last ms)"
    by (rule wire.received_is_read [where bs = "last bss"]) (use c' arrive rpc assms(5,11) enc in simp_all)
  then show ?thesis using c' arrive rpc(2) len by simp
qed

theorem server_messages_are_read_witness:
  "read_message (QMessage 0 [] []) (cc_operation
     (fold (\<lambda>chunk. call_handle (demo_gc demo_wire) demo_net (HandlerSlot (DataReceived chunk False)))
        [frame_message 0 demo_encoding] demo_unary)) = Ret (True, demo_message)"
proof -
  let ?h = "new_handler demo_net demo_channel_headers (demo_rpc UnaryCall) new_common_options
       (new_channel_options (\<lambda>_. True) 0) None demo_encoding True"
  have ser: "gc_serializer (demo_gc demo_wire) = Some (wire_serializer 102 Env_unset wire_schema latin1_platform (\<lambda>_. [])
      (new_serializer\<lparr>lastError := NoError\<rparr>))"
    by (simp add: demo_wire_def)
  have parser: "h_parser ?h = new_parser 4194304"
    by (simp add: new_handler_parser constructMaximumReceiveSize_def new_common_options_def new_channel_options_def
        DefaultMaximumReceiveMessageSize_def channel_options.defs common_options.defs)
  have "h_state ?h \<noteq> Cancelled"
    by (simp add: new_handler_def writeMessage_def build_message_def processQueue_def enqueue_message_def
        warn_queue_def perform_def isStreamClosedForSending_def finish_def handleContextExpired_def Let_def split: prod.split)
  moreover have "container (h_parser ?h) = []" by (simp add: parser new_parser_def)
  moreover have "\<forall>bs \<in> set [demo_encoding]. length bs \<le> unat (maxReceiveSize (h_parser ?h))"
    using demo_length by (simp add: parser new_parser_def)
  moreover have "msg_type (QMessage 0 [] []) = msg_type (last [demo_message])" by (simp add: demo_message_def)
  ultimately show ?thesis
    using server_messages_are_read [OF call_run_nil [of "demo_gc demo_wire" demo_net demo_unary, unfolded demo_unary_def]
        demo_unary_handler [unfolded demo_unary_def] _ _ ser demo_gc_none, of "[demo_message]" "[demo_encoding]"
        "[frame_message 0 demo_encoding]" "QMessage 0 [] []"] demo_encodes
    by (simp add: demo_unary_def)
qed

end
