(* ===== verification/JsonValues.thy ===== *)
theory JsonValues
  imports WireDeserializer
begin

text \<open>
  JSON values and the JSON form of scalars (src/src/protobuf/protobufscalarjsonserializers_p.h, and
  the registry of handlers in qprotobufjsonserializer.cpp). A JSON value is what \<open>QJsonValue\<close>
  holds; an object is a list of keys and values in the order of the keys, each key once, which is
  the order in which \<open>QJsonObject::keys\<close> returns them.
\<close>

subsection \<open>JSON values\<close>

datatype json =
  J_Undefined | J_Null | J_Bool bool | J_Integer "64 word" | J_Double "64 word"
| J_String qstring | J_Array "json list" | J_Object "(qstring \<times> json) list"

type_synonym jobject = "(qstring \<times> json) list"

text \<open>\<open>QString\<close> comparison: by code units.\<close>

fun key_less :: "qstring \<Rightarrow> qstring \<Rightarrow> bool" where
  "key_less [] [] = False"
| "key_less [] (b # bs) = True"
| "key_less (a # as) [] = False"
| "key_less (a # as) (b # bs) = (a < b \<or> a = b \<and> key_less as bs)"

definition obj_keys :: "jobject \<Rightarrow> qstring list" where
  "obj_keys o' = map fst o'"

definition obj_value :: "qstring \<Rightarrow> jobject \<Rightarrow> json" where
  "obj_value k o' = (case map_of o' k of Some v \<Rightarrow> v | None \<Rightarrow> J_Undefined)"

definition obj_remove :: "qstring \<Rightarrow> jobject \<Rightarrow> jobject" where
  "obj_remove k o' = filter (\<lambda>e. fst e \<noteq> k) o'"

fun obj_put :: "qstring \<Rightarrow> json \<Rightarrow> jobject \<Rightarrow> jobject" where
  "obj_put k v [] = [(k, v)]"
| "obj_put k v (e # es) =
     (if k = fst e then (k, v) # es
      else if key_less k (fst e) then (k, v) # e # es else e # obj_put k v es)"

text \<open>\<open>insert\<close> of an undefined value removes the key.\<close>

definition obj_insert :: "qstring \<Rightarrow> json \<Rightarrow> jobject \<Rightarrow> jobject" where
  "obj_insert k v o' = (if v = J_Undefined then obj_remove k o' else obj_put k v o')"

fun toArray :: "json \<Rightarrow> json list" where
  "toArray (J_Array vs) = vs" | "toArray _ = []"

fun toObject :: "json \<Rightarrow> jobject" where
  "toObject (J_Object o') = o'" | "toObject _ = []"

subsection \<open>Custom handlers\<close>

text \<open>
  The registry of custom handlers: for the class of a message a serializer and a deserializer, each
  of which may be missing. Well-known types have handlers there.
\<close>

type_synonym custom_json_serializer = "qmessage \<Rightarrow> json"
type_synonym custom_json_deserializer = "qmessage \<Rightarrow> json \<Rightarrow> bool \<times> qmessage"
type_synonym json_registry = "nat \<Rightarrow> (custom_json_serializer option \<times> custom_json_deserializer option) option"

definition registerCustomJsonHandler ::
  "nat \<Rightarrow> custom_json_serializer option \<Rightarrow> custom_json_deserializer option \<Rightarrow> json_registry \<Rightarrow> json_registry" where
  "registerCustomJsonHandler t serializer deserializer reg = reg(t \<mapsto> (serializer, deserializer))"

definition findCustomJsonSerializer :: "json_registry \<Rightarrow> nat \<Rightarrow> custom_json_serializer option" where
  "findCustomJsonSerializer reg t = (case reg t of Some h \<Rightarrow> fst h | None \<Rightarrow> None)"

definition findCustomJsonDeserializer :: "json_registry \<Rightarrow> nat \<Rightarrow> custom_json_deserializer option" where
  "findCustomJsonDeserializer reg t = (case reg t of Some h \<Rightarrow> snd h | None \<Rightarrow> None)"

subsection \<open>What the code takes from QtCore\<close>

text \<open>
  Upper case of a character, decimal text of an integer and its parsers, the text and the parsers of
  floating point numbers (the parsers also return whether they succeeded), the integer that a
  \<open>QJsonValue\<close> of a double holds in its place when the double is integral, the conversion of a
  double to an integer (\<open>convertDoubleTo\<close>), base64, the keys of an enumeration
  (\<open>QMetaEnum\<close>, here by the field that has it as its type), and the parser and printer of JSON
  documents. None of them is code of the repository. The registry of custom handlers, which is filled
  before the serializer is used, is kept beside them.
\<close>

record json_platform =
  jp_utf :: platform
  jp_toUpper :: "16 word \<Rightarrow> 16 word"
  jp_number :: "int \<Rightarrow> qstring"
  jp_toLongLong :: "qstring \<Rightarrow> 64 word option"
  jp_toULongLong :: "qstring \<Rightarrow> 64 word option"
  jp_doubleText :: "64 word \<Rightarrow> byte list"
  jp_toFloat :: "byte list \<Rightarrow> 32 word \<times> bool"
  jp_toDouble :: "byte list \<Rightarrow> 64 word \<times> bool"
  jp_integral :: "64 word \<Rightarrow> 64 word option"
  jp_toInt64 :: "64 word \<Rightarrow> 64 word \<times> bool"
  jp_toUInt64 :: "64 word \<Rightarrow> 64 word \<times> bool"
  jp_toBase64 :: "byte list \<Rightarrow> byte list"
  jp_fromBase64 :: "byte list \<Rightarrow> byte list"
  jp_enumKey :: "field_info \<Rightarrow> 32 word \<Rightarrow> qstring"
  jp_enumValue :: "field_info \<Rightarrow> qstring \<Rightarrow> 32 word option"
  jp_toJson :: "jobject \<Rightarrow> byte list"
  jp_fromJson :: "byte list \<Rightarrow> json option"
  jp_registry :: json_registry

subsection \<open>Conversions of the machine between integers and floating point numbers\<close>

text \<open>On IEEE-754 bit patterns: \<open>float\<close> to \<open>double\<close> is exact, an integer is rounded to 53 bits,
  ties to even.\<close>

fun bit_length :: "nat \<Rightarrow> nat" where
  "bit_length n = (if n = 0 then 0 else Suc (bit_length (n div 2)))"

declare bit_length.simps [simp del]

definition float_to_double :: "32 word \<Rightarrow> 64 word" where
  "float_to_double a =
     (let s = push_bit 63 (ucast (drop_bit 31 a)) :: 64 word;
          e = unat (drop_bit 23 a AND 0xFF);
          f = unat (a AND 0x7FFFFF)
      in if e = 255 then s OR 0x7FF0000000000000 OR of_nat (f * 2 ^ 29)
         else if e = 0 then
           (if f = 0 then s
            else let k = bit_length f - 1
                 in s OR of_nat ((k + 874) * 2 ^ 52 + (f - 2 ^ k) * 2 ^ (52 - k)))
         else s OR of_nat ((e + 896) * 2 ^ 52 + f * 2 ^ 29))"

definition half_even :: "nat \<Rightarrow> nat \<Rightarrow> nat" where
  "half_even a d =
     (let q = a div d; r = a mod d in if d < 2 * r \<or> 2 * r = d \<and> odd q then q + 1 else q)"

definition int_to_double :: "int \<Rightarrow> 64 word" where
  "int_to_double i =
     (let a = nat \<bar>i\<bar>; n = bit_length a
      in if a = 0 then 0
         else (if i < 0 then push_bit 63 1 else 0) OR
           of_nat ((n + 1022) * 2 ^ 52 +
             ((if n \<le> 53 then a * 2 ^ (53 - n) else half_even a (2 ^ (n - 53))) - 2 ^ 52)))"

subsection \<open>Serializers of scalars\<close>

definition Infinity :: qstring where
  "Infinity = [0x49, 0x6E, 0x66, 0x69, 0x6E, 0x69, 0x74, 0x79]"

definition NegInfinity :: qstring where
  "NegInfinity = 0x2D # Infinity"

definition NaN :: qstring where
  "NaN = [0x4E, 0x61, 0x4E]"

definition InfinityLower :: "byte list" where
  "InfinityLower = [0x69, 0x6E, 0x66, 0x69, 0x6E, 0x69, 0x74, 0x79]"

definition NegInfinityLower :: "byte list" where
  "NegInfinityLower = 0x2D # InfinityLower"

definition NaNLower :: "byte list" where
  "NaNLower = [0x6E, 0x61, 0x6E]"

definition TrueText :: qstring where
  "TrueText = [0x74, 0x72, 0x75, 0x65]"

definition FalseText :: qstring where
  "FalseText = [0x66, 0x61, 0x6C, 0x73, 0x65]"

definition float_inf :: "32 word" where "float_inf = 0x7F800000"
definition float_neg_inf :: "32 word" where "float_neg_inf = 0xFF800000"
definition float_nan :: "32 word" where "float_nan = 0x7FC00000"
definition double_inf :: "64 word" where "double_inf = 0x7FF0000000000000"
definition double_neg_inf :: "64 word" where "double_neg_inf = 0xFFF0000000000000"
definition double_nan :: "64 word" where "double_nan = 0x7FF8000000000000"

text \<open>\<open>QJsonValue(double)\<close>\<close>

definition json_double_value :: "json_platform \<Rightarrow> 64 word \<Rightarrow> json" where
  "json_double_value jp d = (case jp_integral jp d of Some n \<Rightarrow> J_Integer n | None \<Rightarrow> J_Double d)"

definition json_of_float :: "json_platform \<Rightarrow> 32 word \<Rightarrow> json" where
  "json_of_float jp a =
     (if float_eq a float_neg_inf then J_String NegInfinity
      else if float_eq a float_inf then J_String Infinity
      else if \<not> float_eq a a then J_String NaN
      else json_double_value jp (float_to_double a))"

definition json_of_double :: "json_platform \<Rightarrow> 64 word \<Rightarrow> json" where
  "json_of_double jp a =
     (if double_eq a double_neg_inf then J_String NegInfinity
      else if double_eq a double_inf then J_String Infinity
      else if \<not> double_eq a a then J_String NaN
      else json_double_value jp a)"

text \<open>The overloads of \<open>serialize\<close>: unsigned 64-bit integers are written as strings.\<close>

fun json_serialize :: "json_platform \<Rightarrow> scalar \<Rightarrow> json" where
  "json_serialize jp (V_int32 w) = J_Integer (scast w)"
| "json_serialize jp (V_int64 w) = J_Integer w"
| "json_serialize jp (V_uint32 w) = J_Integer (ucast w)"
| "json_serialize jp (V_sint32 w) = J_Integer (scast w)"
| "json_serialize jp (V_sint64 w) = J_Integer w"
| "json_serialize jp (V_fixed32 w) = J_Integer (ucast w)"
| "json_serialize jp (V_sfixed32 w) = J_Integer (scast w)"
| "json_serialize jp (V_sfixed64 w) = J_Integer w"
| "json_serialize jp (V_uint64 w) = J_String (jp_number jp (uint w))"
| "json_serialize jp (V_fixed64 w) = J_String (jp_number jp (uint w))"
| "json_serialize jp (V_float a) = json_of_float jp a"
| "json_serialize jp (V_double a) = json_of_double jp a"
| "json_serialize jp (V_boolean b) = J_Bool b"
| "json_serialize jp (V_QString s) = J_String s"
| "json_serialize jp (V_QByteArray bs) = J_String (fromUtf8 (jp_utf jp) (jp_toBase64 jp bs))"

definition json_serializeList :: "json_platform \<Rightarrow> scalar list \<Rightarrow> json" where
  "json_serializeList jp vs = J_Array (map (json_serialize jp) vs)"

subsection \<open>Deserializers of scalars\<close>

text \<open>
  \<open>validateJsonNumberString\<close> matches the pattern \<open>^-?\d+$\<close>, in which \<open>$\<close> also matches before a
  final line feed.
\<close>

definition is_digit :: "16 word \<Rightarrow> bool" where
  "is_digit c \<longleftrightarrow> 0x30 \<le> c \<and> c \<le> 0x39"

definition validateJsonNumberString :: "qstring \<Rightarrow> bool" where
  "validateJsonNumberString s =
     (let s1 = (if s \<noteq> [] \<and> last s = 0x0A then butlast s else s);
          s2 = (case s1 of c # cs \<Rightarrow> if c = 0x2D then cs else s1 | [] \<Rightarrow> [])
      in s2 \<noteq> [] \<and> list_all is_digit s2)"

text \<open>The 64-bit integer that \<open>deserialize<T>\<close> reads, before the range of \<open>T\<close> is checked.\<close>

definition json_raw_int :: "json_platform \<Rightarrow> json \<Rightarrow> 64 word \<times> bool" where
  "json_raw_int jp v =
     (case v of
        J_String s \<Rightarrow>
          if \<not> validateJsonNumberString s then (0, False)
          else (case jp_toLongLong jp s of Some w \<Rightarrow> (w, True) | None \<Rightarrow> (0, False))
      | J_Integer w \<Rightarrow> (w, True)
      | J_Double d \<Rightarrow>
          (case jp_toInt64 jp d of
             (raw, ok) \<Rightarrow> (raw, ok \<and> double_eq (int_to_double (sint raw)) d))
      | _ \<Rightarrow> (0, False))"

definition json_in_range :: "int \<Rightarrow> int \<Rightarrow> 64 word \<times> bool \<Rightarrow> bool" where
  "json_in_range lo hi r \<longleftrightarrow> snd r \<and> lo \<le> sint (fst r) \<and> sint (fst r) \<le> hi"

definition json_int32 :: "json_platform \<Rightarrow> json \<Rightarrow> 32 word \<times> bool" where
  "json_int32 jp v =
     (let r = json_raw_int jp v; ok = json_in_range (- (2 ^ 31)) (2 ^ 31 - 1) r
      in (if ok then ucast (fst r) else 0, ok))"

definition json_uint32 :: "json_platform \<Rightarrow> json \<Rightarrow> 32 word \<times> bool" where
  "json_uint32 jp v =
     (let r = json_raw_int jp v; ok = json_in_range 0 (2 ^ 32 - 1) r
      in (if ok then ucast (fst r) else 0, ok))"

definition json_int64 :: "json_platform \<Rightarrow> json \<Rightarrow> 64 word \<times> bool" where
  "json_int64 jp v =
     (let r = json_raw_int jp v in (if snd r then fst r else 0, snd r))"

text \<open>\<open>QVariant::toULongLong\<close> casts the number of a JSON integer.\<close>

definition json_uint64 :: "json_platform \<Rightarrow> json \<Rightarrow> 64 word \<times> bool" where
  "json_uint64 jp v =
     (case v of
        J_String s \<Rightarrow> (case jp_toULongLong jp s of Some w \<Rightarrow> (w, True) | None \<Rightarrow> (0, False))
      | J_Integer w \<Rightarrow> (w, True)
      | J_Double d \<Rightarrow>
          (case jp_toUInt64 jp d of
             (raw, ok) \<Rightarrow> (raw, ok \<and> double_eq (int_to_double (uint raw)) d))
      | _ \<Rightarrow> (0, False))"

text \<open>\<open>toVariant().toByteArray()\<close>\<close>

definition json_bytes :: "json_platform \<Rightarrow> json \<Rightarrow> byte list" where
  "json_bytes jp v =
     (case v of
        J_String s \<Rightarrow> toUtf8 (jp_utf jp) s
      | J_Integer w \<Rightarrow> toUtf8 (jp_utf jp) (jp_number jp (sint w))
      | J_Double d \<Rightarrow> jp_doubleText jp d
      | J_Bool b \<Rightarrow> toUtf8 (jp_utf jp) (if b then TrueText else FalseText)
      | _ \<Rightarrow> [])"

definition ascii_lower :: "byte \<Rightarrow> byte" where
  "ascii_lower b = (if 0x41 \<le> b \<and> b \<le> 0x5A then b + 0x20 else b)"

definition equals_ignoring_case :: "byte list \<Rightarrow> byte list \<Rightarrow> bool" where
  "equals_ignoring_case as bs \<longleftrightarrow> map ascii_lower as = map ascii_lower bs"

definition json_float :: "json_platform \<Rightarrow> json \<Rightarrow> 32 word \<times> bool" where
  "json_float jp v =
     (let bs = json_bytes jp v
      in if equals_ignoring_case bs NegInfinityLower then (float_neg_inf, True)
         else if equals_ignoring_case bs InfinityLower then (float_inf, True)
         else if equals_ignoring_case bs NaNLower then (float_nan, True)
         else jp_toFloat jp bs)"

definition json_double :: "json_platform \<Rightarrow> json \<Rightarrow> 64 word \<times> bool" where
  "json_double jp v =
     (let bs = json_bytes jp v
      in if equals_ignoring_case bs NegInfinityLower then (double_neg_inf, True)
         else if equals_ignoring_case bs InfinityLower then (double_inf, True)
         else if equals_ignoring_case bs NaNLower then (double_nan, True)
         else jp_toDouble jp bs)"

definition json_boolean :: "json \<Rightarrow> bool \<times> bool" where
  "json_boolean v =
     (case v of
        J_Bool b \<Rightarrow> (b, True)
      | J_String s \<Rightarrow>
          if s = TrueText then (True, True) else if s = FalseText then (False, True) else (False, False)
      | _ \<Rightarrow> (False, False))"

definition json_string :: "json \<Rightarrow> qstring \<times> bool" where
  "json_string v = (case v of J_String s \<Rightarrow> (s, True) | _ \<Rightarrow> ([], False))"

definition json_byteArray :: "json_platform \<Rightarrow> json \<Rightarrow> byte list \<times> bool" where
  "json_byteArray jp v =
     (case v of J_String s \<Rightarrow> (jp_fromBase64 jp (json_bytes jp v), True) | _ \<Rightarrow> ([], False))"

text \<open>\<open>deserialize<T>\<close>: the value and whether it could be read.\<close>

fun json_deserialize :: "json_platform \<Rightarrow> scalar_type \<Rightarrow> json \<Rightarrow> scalar \<times> bool" where
  "json_deserialize jp T_int32 v = apfst V_int32 (json_int32 jp v)"
| "json_deserialize jp T_sint32 v = apfst V_sint32 (json_int32 jp v)"
| "json_deserialize jp T_sfixed32 v = apfst V_sfixed32 (json_int32 jp v)"
| "json_deserialize jp T_uint32 v = apfst V_uint32 (json_uint32 jp v)"
| "json_deserialize jp T_fixed32 v = apfst V_fixed32 (json_uint32 jp v)"
| "json_deserialize jp T_int64 v = apfst V_int64 (json_int64 jp v)"
| "json_deserialize jp T_sint64 v = apfst V_sint64 (json_int64 jp v)"
| "json_deserialize jp T_sfixed64 v = apfst V_sfixed64 (json_int64 jp v)"
| "json_deserialize jp T_uint64 v = apfst V_uint64 (json_uint64 jp v)"
| "json_deserialize jp T_fixed64 v = apfst V_fixed64 (json_uint64 jp v)"
| "json_deserialize jp T_float v = apfst V_float (json_float jp v)"
| "json_deserialize jp T_double v = apfst V_double (json_double jp v)"
| "json_deserialize jp T_boolean v = apfst V_boolean (json_boolean v)"
| "json_deserialize jp T_QString v = apfst V_QString (json_string v)"
| "json_deserialize jp T_QByteArray v = apfst V_QByteArray (json_byteArray jp v)"

definition json_deserializeCommon :: "json_platform \<Rightarrow> scalar_type \<Rightarrow> json \<Rightarrow> variant \<times> bool" where
  "json_deserializeCommon jp t v = apfst Scalar (json_deserialize jp t v)"

text \<open>
  \<open>deserializeList\<close> stops at the first element that cannot be read, with the elements before it.
  The flag \<open>ok\<close> that the caller passes is set only by the elements, so it stays as it was for an
  empty array.
\<close>

fun json_elements :: "json_platform \<Rightarrow> scalar_type \<Rightarrow> json list \<Rightarrow> bool \<Rightarrow> scalar list \<times> bool" where
  "json_elements jp t [] ok = ([], ok)"
| "json_elements jp t (v # vs) ok =
     (case json_deserialize jp t v of
        (x, False) \<Rightarrow> ([], False)
      | (x, True) \<Rightarrow> apfst ((#) x) (json_elements jp t vs True))"

definition json_deserializeList ::
  "json_platform \<Rightarrow> scalar_type \<Rightarrow> json \<Rightarrow> bool \<Rightarrow> variant \<times> bool" where
  "json_deserializeList jp t v ok =
     (case v of
        J_Array vs \<Rightarrow> apfst (Scalars t) (json_elements jp t vs ok)
      | _ \<Rightarrow> (Invalid, False))"

subsection \<open>The registry of handlers\<close>

text \<open>The handlers of floating point types have a presence check of their own.\<close>

datatype json_handler = CommonHandler scalar_type | FloatingHandler scalar_type | ListHandler scalar_type

definition json_handlers :: "(meta \<times> json_handler) list" where
  "json_handlers =
     map (\<lambda>t. (MT_scalar t, CommonHandler t))
       [T_int32, T_sfixed32, T_sint32, T_uint32, T_fixed32, T_sint64, T_int64, T_sfixed64, T_uint64,
        T_fixed64, T_boolean, T_QString, T_QByteArray] @
     map (\<lambda>t. (MT_scalar t, FloatingHandler t)) [T_float, T_double] @
     map (\<lambda>t. (MT_list t, ListHandler t))
       [T_boolean, T_int32, T_int64, T_sint32, T_sint64, T_uint32, T_uint64, T_fixed32, T_fixed64,
        T_sfixed32, T_sfixed64, T_float, T_double, T_QString, T_QByteArray]"

fun json_handler_isPresent :: "json_handler \<Rightarrow> variant \<Rightarrow> bool" where
  "json_handler_isPresent (FloatingHandler t) (Scalar s) = (isPresent_scalar s \<or> signbit s)"
| "json_handler_isPresent h v = isPresent v"

fun json_handler_serializer :: "json_platform \<Rightarrow> json_handler \<Rightarrow> variant \<Rightarrow> json" where
  "json_handler_serializer jp (ListHandler t) (Scalars u vs) = json_serializeList jp vs"
| "json_handler_serializer jp h (Scalar s) = json_serialize jp s"
| "json_handler_serializer jp h v = J_Undefined"

fun json_handler_deserializer ::
  "json_platform \<Rightarrow> json_handler \<Rightarrow> json \<Rightarrow> bool \<Rightarrow> variant \<times> bool" where
  "json_handler_deserializer jp (ListHandler t) v ok = json_deserializeList jp t v ok"
| "json_handler_deserializer jp (CommonHandler t) v ok = json_deserializeCommon jp t v"
| "json_handler_deserializer jp (FloatingHandler t) v ok = json_deserializeCommon jp t v"

text \<open>\<open>convertJsonKeyToJsonName\<close>: the words between underscores, with upper case initials.\<close>

fun convert_key_loop :: "json_platform \<Rightarrow> bool \<Rightarrow> qstring \<Rightarrow> qstring" where
  "convert_key_loop jp nextUpperCase [] = []"
| "convert_key_loop jp nextUpperCase (c # cs) =
     (if c = 0x5F then convert_key_loop jp True cs
      else (if nextUpperCase then jp_toUpper jp c else c) # convert_key_loop jp False cs)"

definition convertJsonKeyToJsonName :: "json_platform \<Rightarrow> qstring \<Rightarrow> qstring" where
  "convertJsonKeyToJsonName jp name = convert_key_loop jp False name"

end
