(* ===== verification/JsonSerializer.thy ===== *)
theory JsonSerializer
  imports JsonValues
begin

text \<open>
  The JSON serializer (src/src/protobuf/qprotobufjsonserializer.cpp) on the walk of
  qprotobufserializerbase.cpp. The object under construction is a state; the objects of the
  enclosing messages are kept on a stack. The walk takes fuel, one unit per level of nested messages.
\<close>

record json_writer =
  jw_result :: jobject
  jw_state :: "jobject list"

record json_serializer =
  js_lastError :: ser_error
  js_writer :: json_writer

definition json_writer_reset :: "json_writer \<Rightarrow> json_writer" where
  "json_writer_reset st = st\<lparr>jw_result := [], jw_state := []\<rparr>"

definition field_key :: "json_platform \<Rightarrow> field_info \<Rightarrow> qstring" where
  "field_key jp fi = fromUtf8 (jp_utf jp) (fi_jsonName fi)"

definition json_write :: "qstring \<Rightarrow> json \<Rightarrow> json_writer \<Rightarrow> json_writer" where
  "json_write k v st = st\<lparr>jw_result := obj_insert k v (jw_result st)\<rparr>"

text \<open>Enumerators are written by their keys. Result \<open>None\<close>: the value is no enumeration.\<close>

definition json_serializeEnum ::
  "json_platform \<Rightarrow> variant \<Rightarrow> field_info \<Rightarrow> json_writer \<Rightarrow> json_writer option" where
  "json_serializeEnum jp value fi st =
     (if testFlag (fi_flags fi) Repeated then
        (case value of
           Enums es \<Rightarrow>
             if es = [] then Some st
             else Some (json_write (field_key jp fi)
                    (json_serializeList jp (map (\<lambda>e. V_QString (jp_enumKey jp fi e)) es)) st)
         | _ \<Rightarrow> None)
      else
        (case value of
           Enum e \<Rightarrow>
             let key = jp_enumKey jp fi e
             in if key = [] \<and> \<not> mustSerializeDefaultValue (fi_flags fi) then Some st
                else Some (json_write (field_key jp fi) (json_serialize jp (V_QString key)) st)
         | _ \<Rightarrow> None))"

definition json_serializeScalarField ::
  "json_platform \<Rightarrow> variant \<Rightarrow> field_info \<Rightarrow> json_writer \<Rightarrow> json_writer option" where
  "json_serializeScalarField jp value fi st =
     (case map_of json_handlers (metaType value) of
        None \<Rightarrow> None
      | Some h \<Rightarrow>
          if \<not> json_handler_isPresent h value \<and> \<not> mustSerializeDefaultValue (fi_flags fi) then Some st
          else Some (json_write (field_key jp fi) (json_handler_serializer jp h value) st))"

definition json_serializeMessageFieldBegin :: "json_writer \<Rightarrow> json_writer" where
  "json_serializeMessageFieldBegin st =
     st\<lparr>jw_state := jw_state st @ [jw_result st], jw_result := []\<rparr>"

text \<open>The text of a key of a map, as \<open>QVariant::toString\<close> gives it.\<close>

fun key_text :: "json_platform \<Rightarrow> variant \<Rightarrow> qstring" where
  "key_text jp (Scalar (V_int32 w)) = jp_number jp (sint w)"
| "key_text jp (Scalar (V_int64 w)) = jp_number jp (sint w)"
| "key_text jp (Scalar (V_uint32 w)) = jp_number jp (uint w)"
| "key_text jp (Scalar (V_uint64 w)) = jp_number jp (uint w)"
| "key_text jp (Scalar (V_sint32 w)) = jp_number jp (sint w)"
| "key_text jp (Scalar (V_sint64 w)) = jp_number jp (sint w)"
| "key_text jp (Scalar (V_fixed32 w)) = jp_number jp (uint w)"
| "key_text jp (Scalar (V_fixed64 w)) = jp_number jp (uint w)"
| "key_text jp (Scalar (V_sfixed32 w)) = jp_number jp (sint w)"
| "key_text jp (Scalar (V_sfixed64 w)) = jp_number jp (sint w)"
| "key_text jp (Scalar (V_boolean b)) = (if b then TrueText else FalseText)"
| "key_text jp (Scalar (V_QString s)) = s"
| "key_text jp v = []"

definition key_name :: qstring where
  "key_name = [0x6B, 0x65, 0x79]"

definition value_name :: qstring where
  "value_name = [0x76, 0x61, 0x6C, 0x75, 0x65]"

text \<open>
  The end of a nested message: it becomes an element of an array, an entry of an object, or the
  value of the field.
\<close>

definition json_serializeMessageFieldEnd ::
  "json_platform \<Rightarrow> qmessage \<Rightarrow> field_info \<Rightarrow> json_writer \<Rightarrow> json_writer" where
  "json_serializeMessageFieldEnd jp m fi st =
     (let store = last (jw_state st);
          name = field_key jp fi;
          v = (if testFlag (fi_flags fi) Repeated
               then J_Array (toArray (obj_value name store) @ [J_Object (jw_result st)])
               else if testFlag (fi_flags fi) MapFlag
               then J_Object (obj_insert (key_text jp (entry_key m)) (obj_value value_name (jw_result st))
                      (toObject (obj_value name store)))
               else J_Object (jw_result st))
      in st\<lparr>jw_state := butlast (jw_state st), jw_result := obj_insert name v store\<rparr>)"

subsection \<open>Messages\<close>

type_synonym json_walk = "nat list \<Rightarrow> qmessage \<Rightarrow> json_writer \<Rightarrow> json_writer option"

text \<open>A message of a class with a custom serializer is written as the value that it returns.\<close>

definition json_write_custom :: "json_platform \<Rightarrow> json \<Rightarrow> field_info \<Rightarrow> json_writer \<Rightarrow> json_writer" where
  "json_write_custom jp value fi st =
     (if value = J_Undefined then st
      else if testAnyFlags (fi_flags fi) [Repeated]
      then json_write (field_key jp fi)
             (J_Array (toArray (obj_value (field_key jp fi) (jw_result st)) @ [value])) st
      else json_write (field_key jp fi) value st)"

definition json_serializeMessageField ::
  "json_platform \<Rightarrow> json_walk \<Rightarrow> nat list \<Rightarrow> qmessage \<Rightarrow> field_info \<Rightarrow> json_writer \<Rightarrow> json_writer option"
  where
  "json_serializeMessageField jp ser defaults m fi st =
     (case findCustomJsonSerializer (jp_registry jp) (msg_type m) of
        Some serializer \<Rightarrow> Some (json_write_custom jp (serializer m) fi st)
      | None \<Rightarrow>
          map_option (json_serializeMessageFieldEnd jp m fi)
            (ser defaults m (json_serializeMessageFieldBegin st)))"

definition json_serializeDefaultMessageField ::
  "json_platform \<Rightarrow> schema \<Rightarrow> json_walk \<Rightarrow> nat list \<Rightarrow> nat \<Rightarrow> field_info \<Rightarrow> json_writer \<Rightarrow>
   json_writer option" where
  "json_serializeDefaultMessageField jp sc ser defaults t fi st =
     (if t \<in> set defaults then Some st
      else json_serializeMessageField jp ser (defaults @ [t]) (default_message sc t) fi st)"

definition json_serialize_value ::
  "json_platform \<Rightarrow> variant \<Rightarrow> field_info \<Rightarrow> json_writer \<Rightarrow> json_writer" where
  "json_serialize_value jp value fi st =
     (if testFlag (fi_flags fi) EnumFlag then
        (case json_serializeEnum jp value fi st of Some st' \<Rightarrow> st' | None \<Rightarrow> st)
      else
        (case json_serializeScalarField jp value fi st of Some st' \<Rightarrow> st' | None \<Rightarrow> st))"

definition json_serialize_field ::
  "json_platform \<Rightarrow> schema \<Rightarrow> json_walk \<Rightarrow> nat list \<Rightarrow> qmessage \<Rightarrow> nat \<Rightarrow> json_writer \<Rightarrow> json_writer option"
  where
  "json_serialize_field jp sc ser defaults m index st =
     (let fi = mk_field_info sc m (int index);
          (value, m') = messageProperty sc m fi False
      in if metaType value = MT_unknown \<or> isNull value then
           (case metaType value of
              MT_ptr t \<Rightarrow>
                if testFlag (fi_flags fi) Required
                then json_serializeDefaultMessageField jp sc ser defaults t fi st else Some st
            | _ \<Rightarrow> Some st)
         else
           (case value of
              Ptr t \<Rightarrow>
                (case field_pointee sc m' fi of
                   Some child \<Rightarrow> json_serializeMessageField jp ser defaults child fi st
                 | None \<Rightarrow> Some st)
            | _ \<Rightarrow>
              (case repeated_messages value of
                 Some ms \<Rightarrow> fold_option (\<lambda>child. json_serializeMessageField jp ser defaults child fi) ms st
               | None \<Rightarrow> Some (json_serialize_value jp value fi st))))"

primrec json_serializeMessage :: "nat \<Rightarrow> json_platform \<Rightarrow> schema \<Rightarrow> json_walk" where
  "json_serializeMessage 0 jp sc defaults m st = None"
| "json_serializeMessage (Suc n) jp sc defaults m st =
     fold_option (json_serialize_field jp sc (json_serializeMessage n jp sc) defaults m)
       [0..<nat (fieldCount (propertyOrdering sc m))] st"

text \<open>\<open>QProtobufJsonSerializer::serializeMessage\<close>\<close>

definition qjson_serializeMessage ::
  "nat \<Rightarrow> json_platform \<Rightarrow> schema \<Rightarrow> qmessage \<Rightarrow> json_serializer \<Rightarrow> (byte list \<times> json_serializer) option"
  where
  "qjson_serializeMessage fuel jp sc m s =
     (case json_serializeMessage fuel jp sc [] m (json_writer_reset (js_writer s)) of
        None \<Rightarrow> None
      | Some st \<Rightarrow>
          Some (jp_toJson jp (jw_result st),
                s\<lparr>js_lastError := NoError, js_writer := json_writer_reset st\<rparr>))"

end
