(* ===== verification/JsonDeserializer.thy ===== *)
theory JsonDeserializer
  imports JsonSerializer
begin

text \<open>
  The JSON deserializer (src/src/protobuf/qprotobufjsonserializer.cpp on the loop of
  qprotobufdeserializerbase.cpp). It keeps a stack of the objects of the messages under
  construction, each with the index of the field to look for next and the value that was found;
  \<open>nextFieldIndex\<close> takes the fields in the order of the message, not of the text. Reading the last
  object of an empty stack is undefined behaviour.
\<close>

record json_state =
  jst_obj :: jobject
  jst_index :: int
  jst_scalarValue :: json

definition new_json_state :: "jobject \<Rightarrow> json_state" where
  "new_json_state o' = \<lparr>jst_obj = o', jst_index = 0, jst_scalarValue = J_Undefined\<rparr>"

record json_reader =
  jr_state :: "json_state list"
  jr_cachedValue :: variant
  jr_cachedIndex :: int
  jr_lastError :: ser_error

definition json_clearCachedValue :: "json_reader \<Rightarrow> json_reader" where
  "json_clearCachedValue d = d\<lparr>jr_cachedValue := Invalid, jr_cachedIndex := -1\<rparr>"

definition json_reset :: "jobject \<Rightarrow> json_reader \<Rightarrow> json_reader" where
  "json_reset o' d =
     (json_clearCachedValue d)\<lparr>jr_state := (if o' \<noteq> [] then [new_json_state o'] else [])\<rparr>"

definition json_setError :: "ser_error \<Rightarrow> json_reader \<Rightarrow> json_reader" where
  "json_setError e d = d\<lparr>jr_lastError := e\<rparr>"

definition json_hasError :: "json_reader \<Rightarrow> bool" where
  "json_hasError d \<longleftrightarrow> jr_lastError d \<noteq> NoError"

definition json_setUnexpectedEndOfStreamError :: "json_reader \<Rightarrow> json_reader" where
  "json_setUnexpectedEndOfStreamError d = json_setError UnexpectedEndOfStream d"

definition json_setInvalidFormatError :: "json_reader \<Rightarrow> json_reader" where
  "json_setInvalidFormatError d = json_setError InvalidFormat d"

subsection \<open>The next field\<close>

text \<open>The key of an object that names a field: the first in the order of the keys.\<close>

definition find_key :: "json_platform \<Rightarrow> qstring \<Rightarrow> jobject \<Rightarrow> qstring option" where
  "find_key jp name o' =
     find (\<lambda>key. name = key \<or> name = convertJsonKeyToJsonName jp key) (obj_keys o')"

text \<open>
  What the value of a field does to the current state: the next field is looked for, the field of
  this index is read from this state or from a nested object that is pushed, or the format is
  invalid. \<open>state.scalarValue = {}\<close> makes a null value.
\<close>

datatype json_step = Skip_field json_state | Take_field int json_state
  | Push_field int json_state jobject | Invalid_field json_state

definition json_repeated_field :: "qstring \<Rightarrow> json \<Rightarrow> json_state \<Rightarrow> json_step" where
  "json_repeated_field key val st =
     (case val of
        J_Array [] \<Rightarrow> Skip_field (st\<lparr>jst_index := jst_index st + 1, jst_scalarValue := J_Null\<rparr>)
      | J_Array (nextValue # array) \<Rightarrow>
          if nextValue = J_Null then Invalid_field st
          else let st' = st\<lparr>jst_obj := obj_insert key (J_Array array) (jst_obj st)\<rparr>
               in (case nextValue of
                     J_Object o' \<Rightarrow> Push_field (jst_index st) st' o'
                   | _ \<Rightarrow> Take_field (jst_index st) (st'\<lparr>jst_scalarValue := nextValue\<rparr>))
      | _ \<Rightarrow> Invalid_field st)"

definition json_map_field :: "qstring \<Rightarrow> json \<Rightarrow> json_state \<Rightarrow> json_step" where
  "json_map_field key val st =
     (case val of
        J_Object [] \<Rightarrow> Skip_field (st\<lparr>jst_index := jst_index st + 1\<rparr>)
      | J_Object ((k, v) # entries) \<Rightarrow>
          Push_field (jst_index st) (st\<lparr>jst_obj := obj_insert key (J_Object entries) (jst_obj st)\<rparr>)
            (obj_insert value_name v (obj_insert key_name (J_String k) []))
      | _ \<Rightarrow> Invalid_field st)"

definition json_message_field :: "json \<Rightarrow> json_state \<Rightarrow> json_step" where
  "json_message_field val st =
     (let st' = st\<lparr>jst_index := jst_index st + 1\<rparr>
      in case val of
           J_Array vs \<Rightarrow> Invalid_field st
         | J_Undefined \<Rightarrow> Invalid_field st
         | J_Object o' \<Rightarrow> Push_field (jst_index st) st' o'
         | _ \<Rightarrow> Take_field (jst_index st) (st'\<lparr>jst_scalarValue := val\<rparr>))"

definition json_field_step :: "json_platform \<Rightarrow> ordering_data \<Rightarrow> json_state \<Rightarrow> json_step" where
  "json_field_step jp od st =
     (let skip = Skip_field (st\<lparr>jst_index := jst_index st + 1\<rparr>)
      in case find_key jp (fromUtf8 (jp_utf jp) (jsonName od (jst_index st))) (jst_obj st) of
           None \<Rightarrow> skip
         | Some key \<Rightarrow>
             let flags = fieldFlags od (jst_index st); val = obj_value key (jst_obj st)
             in if val = J_Null then skip
                else if testFlags flags [MessageFlag, Repeated] then json_repeated_field key val st
                else if testFlag flags MapFlag then json_map_field key val st
                else if testFlag flags MessageFlag then json_message_field val st
                else Take_field (jst_index st)
                       (st\<lparr>jst_index := jst_index st + 1, jst_scalarValue := val\<rparr>))"

text \<open>The loop over the fields, with a number of steps that is always enough.\<close>

primrec json_scan :: "nat \<Rightarrow> json_platform \<Rightarrow> ordering_data \<Rightarrow> json_state \<Rightarrow> json_step" where
  "json_scan 0 jp od st = Skip_field st"
| "json_scan (Suc n) jp od st =
     (if jst_index st < fieldCount od then
        (case json_field_step jp od st of Skip_field st' \<Rightarrow> json_scan n jp od st' | s \<Rightarrow> s)
      else Skip_field st)"

definition json_nextFieldIndex ::
  "json_platform \<Rightarrow> schema \<Rightarrow> qmessage \<Rightarrow> json_reader \<Rightarrow> (int \<times> json_reader) run" where
  "json_nextFieldIndex jp sc m d =
     (let od = propertyOrdering sc m
      in if fieldCount od = 0 then Ret (-1, d)
         else if jr_state d = [] then Undef
         else
           let st = (last (jr_state d))\<lparr>jst_scalarValue := J_Null\<rparr>;
               outer = butlast (jr_state d)
           in Ret (case json_scan (nat (fieldCount od - jst_index st)) jp od st of
                     Skip_field st' \<Rightarrow> (-1, d\<lparr>jr_state := outer\<rparr>)
                   | Take_field index st' \<Rightarrow> (index, d\<lparr>jr_state := outer @ [st']\<rparr>)
                   | Push_field index st' o' \<Rightarrow>
                       (index, d\<lparr>jr_state := outer @ [st', new_json_state o']\<rparr>)
                   | Invalid_field st' \<Rightarrow>
                       (-1, json_setInvalidFormatError (d\<lparr>jr_state := outer @ [st']\<rparr>))))"

subsection \<open>Scalars and enumerations\<close>

definition json_scalarValue :: "json_reader \<Rightarrow> json option" where
  "json_scalarValue d =
     (if jr_state d = [] then None else Some (jst_scalarValue (last (jr_state d))))"

text \<open>A value that cannot be read sets the error, and the field is still set.\<close>

definition json_deserializeScalarField :: "json_platform \<Rightarrow> json_reader \<Rightarrow> (bool \<times> json_reader) run" where
  "json_deserializeScalarField jp d =
     (case map_of json_handlers (metaType (jr_cachedValue d)) of
        None \<Rightarrow> Ret (False, d)
      | Some h \<Rightarrow>
          (case json_scalarValue d of
             None \<Rightarrow> Undef
           | Some v \<Rightarrow>
               (case json_handler_deserializer jp h v False of
                  (value, ok) \<Rightarrow>
                    let d' = d\<lparr>jr_cachedValue := value\<rparr>
                    in Ret (True, if ok then d' else json_setInvalidFormatError d'))))"

definition json_deserializeEnum ::
  "json_platform \<Rightarrow> field_info \<Rightarrow> json_reader \<Rightarrow> (bool \<times> json_reader) run" where
  "json_deserializeEnum jp fi d =
     (case json_scalarValue d of
        None \<Rightarrow> Undef
      | Some v \<Rightarrow>
          (case (if testFlag (fi_flags fi) Repeated then json_deserializeList jp T_QString v False
                 else (case v of
                         J_String s \<Rightarrow> json_deserializeCommon jp T_QString v
                       | _ \<Rightarrow> json_deserializeCommon jp T_int64 v)) of
             (value, ok) \<Rightarrow> Ret (ok, d\<lparr>jr_cachedValue := value\<rparr>)))"

subsection \<open>Messages\<close>

text \<open>
  The conversion that \<open>QMetaProperty::writeOnGadget\<close> makes for a property of an enumeration: a key
  becomes its enumerator, a list of keys a list of enumerators. A value that cannot be converted
  is not written.
\<close>

definition keys_to_enums :: "json_platform \<Rightarrow> field_info \<Rightarrow> scalar list \<Rightarrow> 32 word list option" where
  "keys_to_enums jp fi vs =
     (let es = map (\<lambda>v. case v of V_QString s \<Rightarrow> jp_enumValue jp fi s | _ \<Rightarrow> None) vs
      in if None \<in> set es then None else Some (map the es))"

definition convert_keys :: "json_platform \<Rightarrow> field_info \<Rightarrow> variant \<Rightarrow> variant" where
  "convert_keys jp fi value =
     (if \<not> testFlag (fi_flags fi) EnumFlag then value
      else (case value of
              Scalar (V_QString s) \<Rightarrow>
                (case jp_enumValue jp fi s of Some e \<Rightarrow> Enum e | None \<Rightarrow> value)
            | Scalars T_QString vs \<Rightarrow>
                (case keys_to_enums jp fi vs of Some es \<Rightarrow> Enums es | None \<Rightarrow> value)
            | _ \<Rightarrow> value))"

definition json_storeCachedValue ::
  "json_platform \<Rightarrow> schema \<Rightarrow> qmessage \<Rightarrow> json_reader \<Rightarrow> bool \<times> qmessage \<times> json_reader" where
  "json_storeCachedValue jp sc m d =
     (if 0 \<le> jr_cachedIndex d \<and> \<not> isNull (jr_cachedValue d) then
        let fi = mk_field_info sc m (jr_cachedIndex d);
            (ok, m') = setMessageProperty sc m fi (convert_keys jp fi (jr_cachedValue d))
        in (ok, m', json_clearCachedValue d)
      else (True, m, d))"

type_synonym json_message_reader = "qmessage \<Rightarrow> json_reader \<Rightarrow> (bool \<times> qmessage \<times> json_reader) run"

text \<open>
  A message is read from the object that was pushed, any other value by the custom deserializer of
  its class; without one the value is invalid.
\<close>

definition json_deserializeMessageField :: "json_platform \<Rightarrow> json_message_reader \<Rightarrow> json_message_reader" where
  "json_deserializeMessageField jp deser m d =
     (case json_scalarValue d of
        None \<Rightarrow> Undef
      | Some v \<Rightarrow>
          if v \<noteq> J_Undefined then
            (case findCustomJsonDeserializer (jp_registry jp) (msg_type m) of
               Some deserializer \<Rightarrow> (case deserializer m v of (ok, m') \<Rightarrow> Ret (ok, m', d))
             | None \<Rightarrow> Ret (False, m, json_setInvalidFormatError d))
          else run_bind (deser m (json_clearCachedValue d)) (\<lambda>(ok, m', d').
            Ret (ok, m', d'\<lparr>jr_cachedValue := jr_cachedValue d, jr_cachedIndex := jr_cachedIndex d\<rparr>)))"

definition json_cache_field ::
  "json_platform \<Rightarrow> schema \<Rightarrow> int \<Rightarrow> qmessage \<Rightarrow> json_reader \<Rightarrow> bool \<times> qmessage \<times> json_reader" where
  "json_cache_field jp sc index m d =
     (if jr_cachedIndex d \<noteq> index then
        (case json_storeCachedValue jp sc m d of
           (ok, m1, d1) \<Rightarrow>
             if \<not> ok then (False, m1, json_setError InvalidFormat d1)
             else let (v, m2) = messageProperty sc m1 (mk_field_info sc m1 index) True
                  in (True, m2, d1\<lparr>jr_cachedValue := v, jr_cachedIndex := index\<rparr>))
      else (True, m, d))"

datatype json_outcome = JContinue qmessage json_reader | JFinish bool qmessage json_reader

definition json_deserialize_field ::
  "json_message_reader \<Rightarrow> json_platform \<Rightarrow> schema \<Rightarrow> int \<Rightarrow> qmessage \<Rightarrow> json_reader \<Rightarrow> json_outcome run"
  where
  "json_deserialize_field deser jp sc index m d =
     (let fi = mk_field_info sc m index
      in case jr_cachedValue d of
           Ptr t \<Rightarrow>
             (case field_pointee sc m fi of
                None \<Rightarrow> Undef
              | Some child \<Rightarrow>
                  run_bind (json_deserializeMessageField jp deser child d) (\<lambda>(ok, child', d').
                    let m' = set_field_pointee sc fi child' m
                    in Ret (if ok then JContinue m' d' else JFinish False m' d')))
         | value \<Rightarrow>
             if is_repeated_message (fi_flags fi) \<and> repeated_messages value \<noteq> None then
               (case addNext sc value of
                  (element, value1) \<Rightarrow>
                    run_bind (json_deserializeMessageField jp deser element (d\<lparr>jr_cachedValue := value1\<rparr>))
                      (\<lambda>(ok, element', d').
                         let d1 = d'\<lparr>jr_cachedValue := fill_element element' (jr_cachedValue d')\<rparr>
                         in if \<not> ok then Ret (JFinish False m d1)
                            else Ret (JContinue m
                              (d1\<lparr>jr_cachedValue := push_element sc element' (jr_cachedValue d1)\<rparr>))))
             else if testFlag (fi_flags fi) EnumFlag then
               run_bind (json_deserializeEnum jp fi d) (\<lambda>(ok, d').
                 Ret (if ok then JContinue m d' else JFinish False m (json_setError UnknownType d')))
             else
               run_bind (json_deserializeScalarField jp d) (\<lambda>(ok, d').
                 if ok then Ret (if jr_cachedValue d' = Invalid then JFinish False m d' else JContinue m d')
                 else Ret (JFinish False m (json_setError UnknownType d'))))"

text \<open>
  The loop of \<open>deserializeMessage\<close>. The deserializer does not enforce required fields, so the check
  of required fields always succeeds.
\<close>

definition json_finish_message ::
  "json_platform \<Rightarrow> schema \<Rightarrow> qmessage \<Rightarrow> json_reader \<Rightarrow> bool \<times> qmessage \<times> json_reader" where
  "json_finish_message jp sc m d =
     (case json_storeCachedValue jp sc m d of
        (ok, m', d') \<Rightarrow> if \<not> ok then (False, m', json_setError InvalidFormat d') else (True, m', d'))"

primrec json_deserializeMessage :: "nat \<Rightarrow> json_platform \<Rightarrow> schema \<Rightarrow> json_message_reader" where
  "json_deserializeMessage 0 jp sc m d = Stuck"
| "json_deserializeMessage (Suc n) jp sc m d =
     run_bind (json_nextFieldIndex jp sc m d) (\<lambda>(index, d1).
       if index < 0 then Ret (json_finish_message jp sc m d1)
       else
         (case json_cache_field jp sc index m d1 of
            (ok, m2, d2) \<Rightarrow>
              if \<not> ok then Ret (False, m2, d2)
              else run_bind (json_deserialize_field (json_deserializeMessage n jp sc) jp sc index m2 d2)
                (\<lambda>s. case s of
                       JContinue m3 d3 \<Rightarrow> json_deserializeMessage n jp sc m3 d3
                     | JFinish r m3 d3 \<Rightarrow> Ret (r, m3, d3))))"

text \<open>
  \<open>QProtobufJsonSerializer::deserializeMessage\<close>, and \<open>QAbstractProtobufSerializer::deserialize\<close>, which
  first constructs the message anew. The result is that of the base class; the last error is kept
  apart from it.
\<close>

definition qjson_deserializeMessage ::
  "nat \<Rightarrow> json_platform \<Rightarrow> schema \<Rightarrow> qmessage \<Rightarrow> byte list \<Rightarrow> json_reader \<Rightarrow>
   (bool \<times> qmessage \<times> json_reader) run" where
  "qjson_deserializeMessage fuel jp sc m bs d =
     (let d0 = json_setError NoError d
      in case jp_fromJson jp bs of
           None \<Rightarrow> Ret (False, m, json_setUnexpectedEndOfStreamError d0)
         | Some (J_Object o') \<Rightarrow>
             if o' = [] then Ret (True, m, d0)
             else run_bind (json_deserializeMessage fuel jp sc m (json_reset o' d0)) (\<lambda>(ok, m', d').
                    Ret (ok, m', json_reset [] d'))
         | Some _ \<Rightarrow> Ret (False, m, json_setInvalidFormatError d0))"

definition json_read ::
  "nat \<Rightarrow> json_platform \<Rightarrow> schema \<Rightarrow> qmessage \<Rightarrow> byte list \<Rightarrow> json_reader \<Rightarrow>
   (bool \<times> qmessage \<times> json_reader) run" where
  "json_read fuel jp sc m bs d =
     qjson_deserializeMessage fuel jp sc (default_message sc (msg_type m)) bs d"

end
