(* ===== verification/JsonScalars.thy ===== *)
theory JsonScalars
  imports JsonDeserializer WireFields
begin

text \<open>
  The JSON form of scalars: what is written is read back, integers are read exactly or not at all,
  and objects look up what was inserted.
\<close>

subsection \<open>Objects\<close>

text \<open>
  A store of values by keys: what a lookup returns after an insertion. Proved from it: writing
  values under distinct keys keeps all of them.
\<close>

locale keyed_store =
  fixes lookup :: "'o \<Rightarrow> 'k \<Rightarrow> 'v option"
    and put :: "'k \<Rightarrow> 'v \<Rightarrow> 'o \<Rightarrow> 'o"
  assumes lookup_put: "lookup (put k v st) k' = (if k' = k then Some v else lookup st k')"
begin

lemma lookup_writes:
  "distinct (map fst kvs) \<Longrightarrow>
   lookup (fold (\<lambda>(k, v). put k v) kvs st) k = (case map_of kvs k of Some v \<Rightarrow> Some v | None \<Rightarrow> lookup st k)"
proof (induction kvs arbitrary: st)
  case (Cons kv kvs)
  have "map_of kvs (fst kv) = None" using Cons.prems by (simp add: map_of_eq_None_iff)
  with Cons show ?case by (cases kv) (auto simp: lookup_put split: option.split)
qed simp

lemma lookup_written: "distinct (map fst kvs) \<Longrightarrow> (k, v) \<in> set kvs \<Longrightarrow> lookup (fold (\<lambda>(k, v). put k v) kvs st) k = Some v"
  by (simp add: lookup_writes)

end

lemma map_of_obj_put: "map_of (obj_put k v es) k' = (if k' = k then Some v else map_of es k')"
  by (induction es) auto

interpretation json_objects: keyed_store "map_of :: jobject \<Rightarrow> qstring \<Rightarrow> json option" obj_put
  by unfold_locales (rule map_of_obj_put)

lemma keys_obj_put: "fst ` set (obj_put k v es) = insert k (fst ` set es)"
  by (induction es) auto

lemma obj_put_put [simp]: "obj_put k v (obj_put k w es) = obj_put k v es"
  by (induction es) auto

lemma key_less_irrefl [simp]: "\<not> key_less k k"
  by (induction k) auto

lemma key_less_trans: "key_less a b \<Longrightarrow> key_less b c \<Longrightarrow> key_less a c"
proof (induction a b arbitrary: c rule: key_less.induct)
  case (4 x as y bs)
  then show ?case by (cases c) (auto dest: less_trans)
next
  case (2 b bs)
  then show ?case by (cases c) auto
qed auto

lemma key_less_linear: "a = b \<or> key_less a b \<or> key_less b a"
  by (induction a b rule: key_less.induct) auto

text \<open>A key after all others is put at the end.\<close>

lemma obj_put_last: "\<forall>e \<in> set es. key_less (fst e) k \<Longrightarrow> obj_put k v es = es @ [(k, v)]"
  by (induction es) (use key_less_irrefl key_less_trans in \<open>fastforce+\<close>)

lemma obj_value_put [simp]: "obj_value k' (obj_put k v es) = (if k' = k then v else obj_value k' es)"
  by (simp add: obj_value_def map_of_obj_put)

subsection \<open>Scalars\<close>

text \<open>
  What the conversions of QtCore have to do for a value to be read back: the text of an unsigned
  64-bit integer, of a floating point number (or of the integer that its JSON value holds) and of
  bytes is parsed to the value it was made of.
  A NaN is read back as the quiet NaN.
\<close>

definition special_text :: "byte list \<Rightarrow> bool" where
  "special_text bs \<longleftrightarrow>
     equals_ignoring_case bs NegInfinityLower \<or> equals_ignoring_case bs InfinityLower \<or>
     equals_ignoring_case bs NaNLower"

definition ascii_ok :: "platform \<Rightarrow> qstring \<Rightarrow> bool" where
  "ascii_ok p s \<longleftrightarrow> toUtf8 p s = map ucast s"

fun json_scalar_ok :: "json_platform \<Rightarrow> scalar \<Rightarrow> bool" where
  "json_scalar_ok jp (V_uint64 w) \<longleftrightarrow> jp_toULongLong jp (jp_number jp (uint w)) = Some w"
| "json_scalar_ok jp (V_fixed64 w) \<longleftrightarrow> jp_toULongLong jp (jp_number jp (uint w)) = Some w"
| "json_scalar_ok jp (V_float a) \<longleftrightarrow>
     (if a = float_neg_inf then ascii_ok (jp_utf jp) NegInfinity
      else if a = float_inf then ascii_ok (jp_utf jp) Infinity
      else if \<not> float_eq a a then a = float_nan \<and> ascii_ok (jp_utf jp) NaN
      else \<not> special_text (json_bytes jp (json_double_value jp (float_to_double a))) \<and>
        jp_toFloat jp (json_bytes jp (json_double_value jp (float_to_double a))) = (a, True))"
| "json_scalar_ok jp (V_double d) \<longleftrightarrow>
     (if d = double_neg_inf then ascii_ok (jp_utf jp) NegInfinity
      else if d = double_inf then ascii_ok (jp_utf jp) Infinity
      else if \<not> double_eq d d then d = double_nan \<and> ascii_ok (jp_utf jp) NaN
      else \<not> special_text (json_bytes jp (json_double_value jp d)) \<and>
        jp_toDouble jp (json_bytes jp (json_double_value jp d)) = (d, True))"
| "json_scalar_ok jp (V_QByteArray bs) \<longleftrightarrow>
     jp_fromBase64 jp (toUtf8 (jp_utf jp) (fromUtf8 (jp_utf jp) (jp_toBase64 jp bs))) = bs"
| "json_scalar_ok jp v \<longleftrightarrow> True"

lemma sint_scast_64: "sint (scast (w :: 32 word) :: 64 word) = sint w"
  by (simp add: sint_up_scast is_up)

lemma sint_ucast_64: "sint (ucast (w :: 32 word) :: 64 word) = uint w"
proof -
  have "uint (ucast w :: 64 word) = uint w" by (simp add: uint_up_ucast is_up)
  moreover have "uint w < 2 ^ 32" using uint_lt2p [of w] by simp
  moreover have "- (2 ^ 63) \<le> uint w" by (rule order_trans [of _ 0]) simp_all
  ultimately show ?thesis unfolding sint_uint by (subst signed_take_bit_int_eq_self) simp_all
qed

lemma ucast_scast_down: "(scast (w :: 64 word) :: 32 word) = ucast w"
  by (rule bit_word_eqI) (auto simp: bit_ucast_iff bit_signed_iff min_def)

lemma sint_bounds_32: "- (2 ^ 31) \<le> sint (w :: 32 word)" "sint (w :: 32 word) \<le> 2 ^ 31 - 1"
  using sint_range_size [of w] by (simp_all add: size_word.rep_eq)

lemma json_bytes_special:
  "ascii_ok (jp_utf jp) NegInfinity \<Longrightarrow> json_bytes jp (J_String NegInfinity) = 0x2D # map ucast Infinity"
  "ascii_ok (jp_utf jp) Infinity \<Longrightarrow> json_bytes jp (J_String Infinity) = map ucast Infinity"
  "ascii_ok (jp_utf jp) NaN \<Longrightarrow> json_bytes jp (J_String NaN) = map ucast NaN"
  by (simp_all add: json_bytes_def ascii_ok_def NegInfinity_def)

lemmas special_texts = Infinity_def NaN_def InfinityLower_def NegInfinityLower_def NaNLower_def
  equals_ignoring_case_def ascii_lower_def

lemma float_eq_inf: "float_eq a float_inf \<longleftrightarrow> a = float_inf" "float_eq a float_neg_inf \<longleftrightarrow> a = float_neg_inf"
  by (auto simp: float_eq_def float_inf_def float_neg_inf_def)

lemma double_eq_inf: "double_eq a double_inf \<longleftrightarrow> a = double_inf" "double_eq a double_neg_inf \<longleftrightarrow> a = double_neg_inf"
  by (auto simp: double_eq_def double_inf_def double_neg_inf_def)

lemma json_float_of_float: "json_scalar_ok jp (V_float a) \<Longrightarrow> json_float jp (json_of_float jp a) = (a, True)"
  by (auto simp: json_float_def json_of_float_def float_eq_inf json_bytes_special special_text_def Let_def split: if_splits)
    (simp_all add: special_texts)

lemma json_double_of_double: "json_scalar_ok jp (V_double d) \<Longrightarrow> json_double jp (json_of_double jp d) = (d, True)"
  by (auto simp: json_double_def json_of_double_def double_eq_inf json_bytes_special special_text_def Let_def split: if_splits)
    (simp_all add: special_texts)

lemma json_int32_integer:
  "json_int32 jp (J_Integer w) =
     (let ok = - (2 ^ 31) \<le> sint w \<and> sint w \<le> 2 ^ 31 - 1 in (if ok then word_of_int (sint w) else 0, ok))"
  by (simp add: json_int32_def json_raw_int_def json_in_range_def Let_def ucast_scast_down)

lemma json_uint32_integer:
  "json_uint32 jp (J_Integer w) =
     (let ok = 0 \<le> sint w \<and> sint w \<le> 2 ^ 32 - 1 in (if ok then word_of_int (sint w) else 0, ok))"
  by (simp add: json_uint32_def json_raw_int_def json_in_range_def Let_def ucast_scast_down)

lemma json_int64_integer: "json_int64 jp (J_Integer w) = (w, True)"
  by (simp add: json_int64_def json_raw_int_def)

lemma json_uint64_integer: "json_uint64 jp (J_Integer w) = (w, True)"
  by (simp add: json_uint64_def)

lemma uint_bounds_32: "0 \<le> uint (w :: 32 word)" "uint (w :: 32 word) \<le> 2 ^ 32 - 1"
  using uint_lt2p [of w] by simp_all

lemma json_int32_scast: "json_int32 jp (J_Integer (scast w)) = (w, True)"
  using sint_bounds_32 [of w] by (simp add: json_int32_integer sint_scast_64)

lemma json_uint32_ucast: "json_uint32 jp (J_Integer (ucast w)) = (w, True)"
  using uint_bounds_32 [of w] by (simp add: json_uint32_integer sint_ucast_64)

lemma json_scalar_read: "json_scalar_ok jp v \<Longrightarrow> json_deserialize jp (scalar_type_of v) (json_serialize jp v) = (v, True)"
  by (cases v)
    (simp_all add: json_int32_scast json_uint32_ucast json_int64_integer json_uint64_def json_boolean_def
      json_string_def json_byteArray_def json_bytes_def json_float_of_float json_double_of_double
      del: json_scalar_ok.simps(3,4))

lemma json_elements_read:
  "\<forall>v \<in> set vs. scalar_type_of v = t \<and> json_scalar_ok jp v \<Longrightarrow>
   json_elements jp t (map (json_serialize jp) vs) ok = (vs, vs \<noteq> [] \<or> ok)"
proof (induction vs arbitrary: ok)
  case (Cons v vs)
  with json_scalar_read [of jp v] show ?case by auto
qed simp

lemma json_list_read:
  "\<forall>v \<in> set vs. scalar_type_of v = t \<and> json_scalar_ok jp v \<Longrightarrow>
   json_deserializeList jp t (json_serializeList jp vs) ok = (Scalars t vs, vs \<noteq> [] \<or> ok)"
  using json_elements_read [of vs t jp ok] by (simp add: json_deserializeList_def json_serializeList_def)

text \<open>A key of a map is read from its text.\<close>

fun json_key_ok :: "json_platform \<Rightarrow> scalar \<Rightarrow> bool" where
  "json_key_ok jp (V_uint64 w) \<longleftrightarrow> jp_toULongLong jp (jp_number jp (uint w)) = Some w"
| "json_key_ok jp (V_fixed64 w) \<longleftrightarrow> jp_toULongLong jp (jp_number jp (uint w)) = Some w"
| "json_key_ok jp (V_uint32 w) \<longleftrightarrow>
     validateJsonNumberString (jp_number jp (uint w)) \<and> jp_toLongLong jp (jp_number jp (uint w)) = Some (ucast w)"
| "json_key_ok jp (V_fixed32 w) \<longleftrightarrow>
     validateJsonNumberString (jp_number jp (uint w)) \<and> jp_toLongLong jp (jp_number jp (uint w)) = Some (ucast w)"
| "json_key_ok jp (V_int32 w) \<longleftrightarrow>
     validateJsonNumberString (jp_number jp (sint w)) \<and> jp_toLongLong jp (jp_number jp (sint w)) = Some (scast w)"
| "json_key_ok jp (V_sint32 w) \<longleftrightarrow>
     validateJsonNumberString (jp_number jp (sint w)) \<and> jp_toLongLong jp (jp_number jp (sint w)) = Some (scast w)"
| "json_key_ok jp (V_sfixed32 w) \<longleftrightarrow>
     validateJsonNumberString (jp_number jp (sint w)) \<and> jp_toLongLong jp (jp_number jp (sint w)) = Some (scast w)"
| "json_key_ok jp (V_int64 w) \<longleftrightarrow>
     validateJsonNumberString (jp_number jp (sint w)) \<and> jp_toLongLong jp (jp_number jp (sint w)) = Some w"
| "json_key_ok jp (V_sint64 w) \<longleftrightarrow>
     validateJsonNumberString (jp_number jp (sint w)) \<and> jp_toLongLong jp (jp_number jp (sint w)) = Some w"
| "json_key_ok jp (V_sfixed64 w) \<longleftrightarrow>
     validateJsonNumberString (jp_number jp (sint w)) \<and> jp_toLongLong jp (jp_number jp (sint w)) = Some w"
| "json_key_ok jp (V_boolean b) \<longleftrightarrow> True"
| "json_key_ok jp (V_QString s) \<longleftrightarrow> True"
| "json_key_ok jp v \<longleftrightarrow> False"

lemma json_int32_text:
  "validateJsonNumberString s \<Longrightarrow> jp_toLongLong jp s = Some (scast w) \<Longrightarrow> json_int32 jp (J_String s) = (w, True)"
  using json_int32_scast [of jp w] by (simp add: json_int32_def json_raw_int_def)

lemma json_uint32_text:
  "validateJsonNumberString s \<Longrightarrow> jp_toLongLong jp s = Some (ucast w) \<Longrightarrow> json_uint32 jp (J_String s) = (w, True)"
  using json_uint32_ucast [of jp w] by (simp add: json_uint32_def json_raw_int_def)

lemma json_key_read:
  "json_key_ok jp v \<Longrightarrow>
   json_deserialize jp (scalar_type_of v) (J_String (key_text jp (Scalar v))) = (v, True)"
  by (cases v)
    (simp_all add: json_int32_text json_uint32_text json_int64_def json_raw_int_def json_uint64_def
      json_boolean_def json_string_def TrueText_def FalseText_def)

text \<open>
  What \<open>deserialize<T>\<close> makes of an integer of a document: a 32-bit type accepts exactly its range
  and gives 0 outside of it, a signed 64-bit type accepts all, and an unsigned one accepts all and
  takes a negative integer modulo \<open>2 ^ 64\<close>.
\<close>

definition integer_range :: "scalar_type \<Rightarrow> (int \<times> int) option" where
  "integer_range t =
     (if t \<in> {T_int32, T_sint32, T_sfixed32} then Some (- (2 ^ 31), 2 ^ 31 - 1)
      else if t \<in> {T_uint32, T_fixed32} then Some (0, 2 ^ 32 - 1)
      else if t \<in> {T_int64, T_sint64, T_sfixed64} then Some (- (2 ^ 63), 2 ^ 63 - 1)
      else if t \<in> {T_uint64, T_fixed64} then Some (0, 2 ^ 64 - 1) else None)"

fun integer_value :: "scalar \<Rightarrow> int" where
  "integer_value (V_int32 w) = sint w" | "integer_value (V_sint32 w) = sint w"
| "integer_value (V_sfixed32 w) = sint w" | "integer_value (V_int64 w) = sint w"
| "integer_value (V_sint64 w) = sint w" | "integer_value (V_sfixed64 w) = sint w"
| "integer_value (V_uint32 w) = uint w" | "integer_value (V_fixed32 w) = uint w"
| "integer_value (V_uint64 w) = uint w" | "integer_value (V_fixed64 w) = uint w"
| "integer_value v = 0"

lemma sint_of_range:
  "- (2 ^ 31) \<le> sint w \<Longrightarrow> sint w \<le> 2 ^ 31 - 1 \<Longrightarrow> sint (scast (w :: 64 word) :: 32 word) = sint w"
  using sint_sbintrunc' [of "sint w", where 'a = 32] signed_take_bit_int_eq_self [of 31 "sint w"] by simp

lemma uint_of_range:
  "0 \<le> sint w \<Longrightarrow> sint w \<le> 2 ^ 32 - 1 \<Longrightarrow> uint (scast (w :: 64 word) :: 32 word) = sint w"
  using uint_word_of_int [of "sint w", where 'a = 32] by simp

lemma json_integer_read:
  assumes "integer_range t = Some (lo, hi)" and "json_deserialize jp t (J_Integer w) = (v, ok)"
  shows "t \<notin> {T_uint64, T_fixed64} \<Longrightarrow>
      ok = (lo \<le> sint w \<and> sint w \<le> hi) \<and> integer_value v = (if ok then sint w else 0)"
    and "t \<in> {T_uint64, T_fixed64} \<Longrightarrow> ok \<and> integer_value v = sint w mod 2 ^ 64"
proof -
  have bounds: "- (2 ^ 63) \<le> sint w" "sint w \<le> 2 ^ 63 - 1"
    using sint_range_size [of w] by (simp_all add: size_word.rep_eq)
  show "ok = (lo \<le> sint w \<and> sint w \<le> hi) \<and> integer_value v = (if ok then sint w else 0)"
    if "t \<notin> {T_uint64, T_fixed64}"
    using assms that bounds
    by (cases t) (auto simp: integer_range_def json_int32_integer json_uint32_integer json_int64_integer
        sint_of_range uint_of_range Let_def split: if_splits)
  show "ok \<and> integer_value v = sint w mod 2 ^ 64" if "t \<in> {T_uint64, T_fixed64}"
    using assms(2) that by (auto simp: json_uint64_integer uint_sint take_bit_eq_mod)
qed

end
