(* ===== verification/JsonFormat.thy ===== *)
theory JsonFormat
  imports JsonScalars
begin

text \<open>
  The JSON form of a message as a specification: \<open>json_message jp sc m o\<close> says that the object \<open>o\<close>
  has the fields of \<open>m\<close> under their JSON names, with no reference to the serializer. The theory
  shows that the serializer writes this object; the next one that the deserializer reads it back.
\<close>

subsection \<open>Sizes\<close>

text \<open>The fuel that a value needs: at least one unit for every message and every element.\<close>

fun json_weight :: "json \<Rightarrow> nat" where
  "json_weight (J_Array vs) = 1 + sum_list (map (\<lambda>v. 1 + json_weight v) vs)"
| "json_weight (J_Object o') = 1 + sum_list (map (\<lambda>e. 4 + json_weight (snd e)) o')"
| "json_weight v = 1"

lemma json_weight_pos: "0 < json_weight v"
  by (cases v) simp_all

subsection \<open>The specification\<close>

definition field_name :: "json_platform \<Rightarrow> schema \<Rightarrow> nat \<Rightarrow> nat \<Rightarrow> qstring" where
  "field_name jp sc t i = fromUtf8 (jp_utf jp) (jsonName (f_ordering sc t) (int i))"

abbreviation "m_name jp sc m i \<equiv> field_name jp sc (msg_type m) i"

text \<open>
  A class whose messages can be read back: it has a field, and no JSON name is that of another field,
  also not after \<open>convertJsonKeyToJsonName\<close>.
\<close>

definition json_class_ok :: "json_platform \<Rightarrow> schema \<Rightarrow> nat \<Rightarrow> bool" where
  "json_class_ok jp sc t \<longleftrightarrow>
     class_ok sc t \<and> 0 < f_count sc t \<and>
     (\<forall>i < f_count sc t. \<forall>j < f_count sc t. i \<noteq> j \<longrightarrow>
        field_name jp sc t i \<noteq> field_name jp sc t j \<and>
        field_name jp sc t i \<noteq> convertJsonKeyToJsonName jp (field_name jp sc t j))"

text \<open>The object with the values of the first \<open>n\<close> fields.\<close>

definition put_field ::
  "json_platform \<Rightarrow> schema \<Rightarrow> nat \<Rightarrow> (nat \<Rightarrow> json option) \<Rightarrow> nat \<Rightarrow> jobject \<Rightarrow> jobject" where
  "put_field jp sc t vs i o' = (case vs i of None \<Rightarrow> o' | Some v \<Rightarrow> obj_put (field_name jp sc t i) v o')"

definition json_object :: "json_platform \<Rightarrow> schema \<Rightarrow> nat \<Rightarrow> (nat \<Rightarrow> json option) \<Rightarrow> nat \<Rightarrow> jobject" where
  "json_object jp sc t vs n = fold (put_field jp sc t vs) [0..<n] []"

text \<open>The scalar of a field; a negative zero is written as well. Enumerators are apart.\<close>

definition plain_signbit :: "member \<Rightarrow> bool" where
  "plain_signbit x = (case x of M_plain (Scalar v) \<Rightarrow> signbit v | _ \<Rightarrow> False)"

definition json_single :: "prop_kind \<Rightarrow> bool \<Rightarrow> member \<Rightarrow> scalar option" where
  "json_single k forced x = (if enum_kind k then None else single_value k (forced \<or> plain_signbit x) x)"

definition json_enumerator :: "json_platform \<Rightarrow> field_info \<Rightarrow> 32 word \<Rightarrow> bool" where
  "json_enumerator jp fi e \<longleftrightarrow> jp_enumKey jp fi e \<noteq> [] \<and> jp_enumValue jp fi (jp_enumKey jp fi e) = Some e"

definition json_key :: "json_platform \<Rightarrow> field_info \<Rightarrow> 32 word \<Rightarrow> scalar" where
  "json_key jp fi e = V_QString (jp_enumKey jp fi e)"

text \<open>
  A value that no object and no list holds: what a custom deserializer is called with.
\<close>

definition json_plain_value :: "json \<Rightarrow> bool" where
  "json_plain_value v = (case v of J_Bool b \<Rightarrow> True | J_Integer w \<Rightarrow> True | J_Double d \<Rightarrow> True | J_String s \<Rightarrow> True | _ \<Rightarrow> False)"

text \<open>
  A nested message is an object, or the value of the custom serializer of its class when the custom
  deserializer makes the same message of it.

  An entry of a map is a message with a key and a value; the key stands outside, as the text under
  which the value is. The entries of a map are listed in the order of these texts, which is one of
  the orders in which a hash may be walked.
\<close>

inductive json_message :: "json_platform \<Rightarrow> schema \<Rightarrow> qmessage \<Rightarrow> jobject \<Rightarrow> bool"
  and json_field :: "json_platform \<Rightarrow> schema \<Rightarrow> qmessage \<Rightarrow> nat \<Rightarrow> json option \<Rightarrow> bool"
  and json_nested :: "json_platform \<Rightarrow> schema \<Rightarrow> qmessage \<Rightarrow> json \<Rightarrow> bool"
  and json_entry :: "json_platform \<Rightarrow> schema \<Rightarrow> qmessage \<Rightarrow> qstring \<times> json \<Rightarrow> bool"
  for jp :: json_platform and sc :: schema
  where
  json_messageI:
    "json_class_ok jp sc (msg_type m) \<Longrightarrow> length (msg_members m) = length (mc_defaults (sc ! msg_type m)) \<Longrightarrow>
     unknownEntries m = [] \<Longrightarrow> \<forall>i < f_count sc (msg_type m). json_field jp sc m i (vs i) \<Longrightarrow>
     \<forall>s < length (msg_members m).
       (\<forall>i < f_count sc (msg_type m). f_slot sc (msg_type m) i = s \<longrightarrow> vs i = None) \<longrightarrow>
       msg_members m ! s = mc_defaults (sc ! msg_type m) ! s \<Longrightarrow>
     json_message jp sc m (json_object jp sc (msg_type m) vs (f_count sc (msg_type m)))"
| json_absent:
    "field_absent (m_kind sc m i) (m_required sc m i) (m_forced sc m i) (m_member sc m i) \<Longrightarrow>
     m_kind sc m i \<noteq> PK_enum \<Longrightarrow> json_field jp sc m i None"
| json_single:
    "json_single (m_kind sc m i) (m_forced sc m i) (m_member sc m i) = Some v \<Longrightarrow> json_scalar_ok jp v \<Longrightarrow>
     json_field jp sc m i (Some (json_serialize jp v))"
| json_enum:
    "enum_kind (m_kind sc m i) \<Longrightarrow>
     single_value (m_kind sc m i) True (m_member sc m i) = Some (enum_int64 e) \<Longrightarrow>
     json_enumerator jp (f_info sc (msg_type m) i) e \<Longrightarrow>
     json_field jp sc m i (Some (json_serialize jp (json_key jp (f_info sc (msg_type m) i) e)))"
| json_list:
    "m_kind sc m i = PK_scalars t \<Longrightarrow> m_member sc m i = M_plain (Scalars t xs) \<Longrightarrow> xs \<noteq> [] \<Longrightarrow>
     \<forall>x \<in> set xs. scalar_type_of x = t \<and> json_scalar_ok jp x \<Longrightarrow>
     json_field jp sc m i (Some (json_serializeList jp xs))"
| json_enums:
    "m_kind sc m i = PK_enums \<Longrightarrow> m_member sc m i = M_plain (Enums es) \<Longrightarrow> es \<noteq> [] \<Longrightarrow>
     \<forall>e \<in> set es. json_enumerator jp (f_info sc (msg_type m) i) e \<Longrightarrow>
     json_field jp sc m i (Some (json_serializeList jp (map (json_key jp (f_info sc (msg_type m) i)) es)))"
| json_submessage:
    "message_value (m_kind sc m i) (m_member sc m i) = Some c \<Longrightarrow> json_nested jp sc c v \<Longrightarrow>
     json_field jp sc m i (Some v)"
| json_messages:
    "m_kind sc m i = PK_messages t \<Longrightarrow> messages_value (m_kind sc m i) (m_member sc m i) = Some cs \<Longrightarrow>
     cs \<noteq> [] \<Longrightarrow> list_all2 (json_nested jp sc) cs vs \<Longrightarrow>
     json_field jp sc m i (Some (J_Array vs))"
| json_map:
    "m_kind sc m i = PK_map t \<Longrightarrow> messages_value (m_kind sc m i) (m_member sc m i) = Some es \<Longrightarrow>
     es \<noteq> [] \<Longrightarrow> list_all2 (json_entry jp sc) es kvs \<Longrightarrow> sorted_wrt key_less (map fst kvs) \<Longrightarrow>
     json_field jp sc m i (Some (J_Object kvs))"
| json_nestedI:
    "findCustomJsonSerializer (jp_registry jp) (msg_type c) = None \<Longrightarrow> json_message jp sc c oc \<Longrightarrow>
     json_nested jp sc c (J_Object oc)"
| json_customI:
    "findCustomJsonSerializer (jp_registry jp) (msg_type c) = Some serializer \<Longrightarrow>
     findCustomJsonDeserializer (jp_registry jp) (msg_type c) = Some deserializer \<Longrightarrow>
     json_plain_value (serializer c) \<Longrightarrow>
     deserializer (default_message sc (msg_type c)) (serializer c) = (True, c) \<Longrightarrow>
     json_nested jp sc c (serializer c)"
| json_entryI:
    "json_class_ok jp sc (msg_type e) \<Longrightarrow> length (msg_members e) = length (mc_defaults (sc ! msg_type e)) \<Longrightarrow>
     unknownEntries e = [] \<Longrightarrow> f_count sc (msg_type e) = 2 \<Longrightarrow> length (msg_members e) = 2 \<Longrightarrow>
     m_name jp sc e 0 = key_name \<Longrightarrow> m_name jp sc e 1 = value_name \<Longrightarrow>
     f_slot sc (msg_type e) 0 = 0 \<Longrightarrow> f_slot sc (msg_type e) 1 = 1 \<Longrightarrow>
     m_kind sc e 0 = PK_scalar (scalar_type_of kv) \<Longrightarrow> m_member sc e 0 = M_plain (Scalar kv) \<Longrightarrow>
     json_key_ok jp kv \<Longrightarrow> findCustomJsonSerializer (jp_registry jp) (msg_type e) = None \<Longrightarrow>
     json_field jp sc e 1 (Some v) \<Longrightarrow>
     json_entry jp sc e (key_text jp (Scalar kv), v)"

subsection \<open>Objects of fields\<close>

lemma names_apart:
  "json_class_ok jp sc t \<Longrightarrow> i < f_count sc t \<Longrightarrow> j < f_count sc t \<Longrightarrow>
   field_name jp sc t i = field_name jp sc t j \<longleftrightarrow> i = j"
  unfolding json_class_ok_def by blast

lemma map_of_json_object:
  assumes "json_class_ok jp sc t" and "n \<le> f_count sc t" and "i < f_count sc t"
  shows "map_of (json_object jp sc t vs n) (field_name jp sc t i) = (if i < n then vs i else None)"
  using assms(2)
proof (induction n)
  case (Suc n)
  then show ?case using names_apart [OF assms(1,3), of n] assms(3)
    by (auto simp: json_object_def put_field_def map_of_obj_put less_Suc_eq split: option.split)
qed (simp add: json_object_def)

lemma keys_json_object: "fst ` set (json_object jp sc t vs n) \<subseteq> field_name jp sc t ` {..<n}"
proof (induction n)
  case (Suc n)
  then show ?case
    by (auto simp: json_object_def put_field_def keys_obj_put lessThan_Suc split: option.splits)
qed (simp add: json_object_def)

text \<open>The weight of the values of an object is that of its fields.\<close>

definition field_cost :: "json option \<Rightarrow> nat" where
  "field_cost v = (case v of None \<Rightarrow> 0 | Some j \<Rightarrow> 4 + json_weight j)"

lemma weight_obj_put:
  "k \<notin> fst ` set es \<Longrightarrow>
   sum_list (map (\<lambda>e. 4 + json_weight (snd e)) (obj_put k v es)) =
     4 + json_weight v + sum_list (map (\<lambda>e. 4 + json_weight (snd e)) es)"
  by (induction es) auto

lemma weight_json_object:
  assumes "json_class_ok jp sc t" and "n \<le> f_count sc t"
  shows "json_weight (J_Object (json_object jp sc t vs n)) = 1 + sum_list (map (\<lambda>i. field_cost (vs i)) [0..<n])"
  using assms(2)
proof (induction n)
  case (Suc n)
  have "map_of (json_object jp sc t vs n) (field_name jp sc t n) = None"
    using map_of_json_object [OF assms(1), of n n] Suc.prems by simp
  then have "field_name jp sc t n \<notin> fst ` set (json_object jp sc t vs n)" by (simp add: map_of_eq_None_iff)
  note put = weight_obj_put [OF this]
  have "json_object jp sc t vs (Suc n) = put_field jp sc t vs n (json_object jp sc t vs n)"
    by (simp add: json_object_def)
  with Suc put show ?case by (auto simp: put_field_def field_cost_def split: option.split)
qed (simp add: json_object_def)

lemma field_weight_le:
  "i < n \<Longrightarrow> field_cost (vs i) \<le> sum_list (map (\<lambda>i. field_cost (vs i)) [0..<n])"
  by (induction n) (auto simp: less_Suc_eq)

end
