(* ===== verification/JsonEncoding.thy ===== *)
theory JsonEncoding
  imports JsonFormat
begin

text \<open>The JSON serializer writes the object of the specification.\<close>

subsection \<open>Flags and handlers\<close>

lemma kind_flags_json:
  assumes "kind_flags k np req opt = Some fs"
  shows "testFlag (flags_of fs) MapFlag \<longleftrightarrow> (\<exists>t. k = PK_map t)"
    and "testFlags (flags_of fs) [MessageFlag, Repeated] \<longleftrightarrow> (\<exists>t. k = PK_messages t)"
    and "testFlag (flags_of fs) MessageFlag \<longleftrightarrow> message_kind k \<or> messages_kind k"
  using assms by (cases k; force simp: flag_eval split: if_splits)+

lemma field_flags_json:
  assumes "field_ok sc t i"
  shows "testFlag (f_flags sc t i) MapFlag \<longleftrightarrow> (\<exists>u. f_kind sc t i = PK_map u)"
    and "testFlags (f_flags sc t i) [MessageFlag, Repeated] \<longleftrightarrow> (\<exists>u. f_kind sc t i = PK_messages u)"
    and "testFlag (f_flags sc t i) MessageFlag \<longleftrightarrow> message_kind (f_kind sc t i) \<or> messages_kind (f_kind sc t i)"
proof -
  obtain fs where fs: "kind_flags (f_kind sc t i) (f_nonpacked sc t i) (f_required sc t i) (f_optional sc t i) = Some fs"
    "f_flags sc t i = flags_of fs"
    using assms by (auto simp: field_ok_def split: option.splits)
  note kind_flags_json [OF fs(1), folded fs(2)]
  then show "testFlag (f_flags sc t i) MapFlag \<longleftrightarrow> (\<exists>u. f_kind sc t i = PK_map u)"
    and "testFlags (f_flags sc t i) [MessageFlag, Repeated] \<longleftrightarrow> (\<exists>u. f_kind sc t i = PK_messages u)"
    and "testFlag (f_flags sc t i) MessageFlag \<longleftrightarrow> message_kind (f_kind sc t i) \<or> messages_kind (f_kind sc t i)"
    by simp_all
qed

lemma json_handlers_found:
  "map_of json_handlers (MT_scalar t) =
     Some (if t = T_float \<or> t = T_double then FloatingHandler t else CommonHandler t)"
  "map_of json_handlers (MT_list t) = Some (ListHandler t)"
  by (cases t; simp add: json_handlers_def)+

lemma json_serialize_defined [simp]: "json_serialize jp v \<noteq> J_Undefined"
  by (cases v) (simp_all add: json_of_float_def json_of_double_def json_double_value_def split: option.split)

lemma json_handler_present:
  "json_handler_isPresent (if t = T_float \<or> t = T_double then FloatingHandler t else CommonHandler t) (Scalar v) \<longleftrightarrow>
   isPresent_scalar v \<or> (t = T_float \<or> t = T_double) \<and> signbit v"
  by simp

lemma signbit_floating: "signbit v \<Longrightarrow> scalar_type_of v = T_float \<or> scalar_type_of v = T_double"
  by (cases v) simp_all

lemma json_handler_scalar:
  "json_handler_serializer jp (if c then FloatingHandler t else CommonHandler t) (Scalar v) = json_serialize jp v"
  by simp

lemma field_key_name: "field_key jp (f_info sc t i) = field_name jp sc t i"
  by (simp add: field_key_def field_name_def fi_jsonName_def f_info_def)

lemma json_write_defined: "v \<noteq> J_Undefined \<Longrightarrow> json_write k v st = st\<lparr>jw_result := obj_put k v (jw_result st)\<rparr>"
  by (simp add: json_write_def obj_insert_def)

subsection \<open>One field\<close>

lemma json_serialize_absent:
  assumes fits: "fits sc m i" and a: "field_absent (m_kind sc m i) (m_required sc m i) (m_forced sc m i) (m_member sc m i)"
    and "m_kind sc m i \<noteq> PK_enum"
  shows "json_serialize_field jp sc ser defaults m i st = Some st"
proof -
  have "\<not> signbit (default_scalar t)" for t by (cases t) simp_all
  with assms(2,3) field_flags_test(1,6) [OF fits_ok [OF fits]] fits_facts(4) [OF fits]
  show ?thesis
    by (cases "m_kind sc m i")
      (auto simp: json_serialize_field_def json_serialize_value_def Let_def fits_facts(1,2) [OF fits]
        field_flags_test [OF fits_ok [OF fits]] field_absent_def has_value_def read_member_def has_optional_def
        has_message_def json_serializeEnum_def json_serializeScalarField_def json_handlers_found
        default_not_present f_required_def split: option.splits)
qed

lemma json_serialize_single:
  assumes fits: "fits sc m i" and v: "json_single (m_kind sc m i) (m_forced sc m i) (m_member sc m i) = Some v"
  shows "json_serialize_field jp sc ser defaults m i st =
    Some (json_write (m_name jp sc m i) (json_serialize jp v) st)"
proof -
  note ok = fits_ok [OF fits]
  note facts = fits_facts(4) [OF fits] field_okD(1,6) [OF ok] field_flags_test(10) [OF ok]
  note unfolds = json_serialize_field_def Let_def fits_facts(1,2) [OF fits] field_flags_test [OF ok]
    has_value_def read_member_def has_optional_def get_optional_def get_oneof_def json_serialize_value_def
    json_serializeScalarField_def json_handlers_found json_handler_present json_handler_scalar field_key_name
  from v have single: "single_value (m_kind sc m i) (m_forced sc m i \<or> plain_signbit (m_member sc m i)) (m_member sc m i) = Some v"
    and "\<not> enum_kind (m_kind sc m i)"
    by (simp_all add: json_single_def split: if_splits)
  from single show ?thesis
    by (cases rule: single_valueE)
      (use facts signbit_floating [of v] \<open>\<not> enum_kind (m_kind sc m i)\<close> in \<open>auto simp: unfolds plain_signbit_def\<close>)
qed

lemma json_serialize_enum:
  assumes fits: "fits sc m i" and k: "enum_kind (m_kind sc m i)"
    and v: "single_value (m_kind sc m i) True (m_member sc m i) = Some (enum_int64 e)"
    and key: "json_enumerator jp (f_info sc (msg_type m) i) e"
  shows "json_serialize_field jp sc ser defaults m i st =
    Some (json_write (m_name jp sc m i) (json_serialize jp (json_key jp (f_info sc (msg_type m) i) e)) st)"
proof -
  note ok = fits_ok [OF fits]
  note facts = fits_facts(4) [OF fits] field_okD(1,6) [OF ok] field_flags_test(10) [OF ok]
  note unfolds = json_serialize_field_def Let_def fits_facts(1,2) [OF fits] field_flags_test [OF ok]
    has_value_def read_member_def has_optional_def get_optional_def get_oneof_def json_serialize_value_def
    json_serializeEnum_def field_key_name json_key_def json_enumerator_def
  have inj: "enum_int64 e = enum_int64 e' \<Longrightarrow> e' = e" for e' by (metis enum_of_enum)
  from v show ?thesis
    by (cases rule: single_valueE) (use facts k key inj in \<open>auto simp: unfolds\<close>)
qed

lemma json_serialize_list:
  assumes fits: "fits sc m i" and "m_kind sc m i = PK_scalars t" "m_member sc m i = M_plain (Scalars t xs)" "xs \<noteq> []"
  shows "json_serialize_field jp sc ser defaults m i st =
    Some (json_write (m_name jp sc m i) (json_serializeList jp xs) st)"
  using assms(2-)
  by (simp add: json_serialize_field_def Let_def fits_facts(1,2) [OF fits] field_flags_test [OF fits_ok [OF fits]]
      has_value_def read_member_def json_serialize_value_def json_serializeScalarField_def json_handlers_found
      field_key_name)

lemma json_serialize_enums:
  assumes fits: "fits sc m i" and "m_kind sc m i = PK_enums" "m_member sc m i = M_plain (Enums es)" "es \<noteq> []"
  shows "json_serialize_field jp sc ser defaults m i st =
    Some (json_write (m_name jp sc m i)
      (json_serializeList jp (map (json_key jp (f_info sc (msg_type m) i)) es)) st)"
  using assms(2-)
  by (simp add: json_serialize_field_def Let_def fits_facts(1,2) [OF fits] field_flags_test [OF fits_ok [OF fits]]
      has_value_def read_member_def json_serialize_value_def json_serializeEnum_def field_key_name
      json_key_def [abs_def])

subsection \<open>Nested messages\<close>

definition json_writes :: "json_walk \<Rightarrow> nat list \<Rightarrow> qmessage \<Rightarrow> jobject \<Rightarrow> bool" where
  "json_writes ser defaults c oc \<longleftrightarrow>
     (\<forall>st. jw_result st = [] \<longrightarrow> ser defaults c st = Some (st\<lparr>jw_result := oc\<rparr>))"

lemma json_message_field_end:
  assumes "json_writes ser defaults c oc"
    and "findCustomJsonSerializer (jp_registry jp) (msg_type c) = None"
  shows "json_serializeMessageField jp ser defaults c fi st =
    Some (st\<lparr>jw_result := obj_insert (field_key jp fi)
      (if testFlag (fi_flags fi) Repeated
       then J_Array (toArray (obj_value (field_key jp fi) (jw_result st)) @ [J_Object oc])
       else if testFlag (fi_flags fi) MapFlag
       then J_Object (obj_insert (key_text jp (entry_key c)) (obj_value value_name oc)
              (toObject (obj_value (field_key jp fi) (jw_result st))))
       else J_Object oc) (jw_result st)\<rparr>)"
  using assms by (simp add: json_writes_def json_serializeMessageField_def json_serializeMessageFieldBegin_def
      json_serializeMessageFieldEnd_def Let_def)

definition json_nests :: "json_platform \<Rightarrow> json_walk \<Rightarrow> nat list \<Rightarrow> qmessage \<Rightarrow> json \<Rightarrow> bool" where
  "json_nests jp ser defaults c v \<longleftrightarrow> v \<noteq> J_Undefined \<and>
     (case findCustomJsonSerializer (jp_registry jp) (msg_type c) of
        Some serializer \<Rightarrow> v = serializer c
      | None \<Rightarrow> \<exists>oc. v = J_Object oc \<and> json_writes ser defaults c oc)"

lemma testAnyFlags_repeated: "testAnyFlags flags [Repeated] = testFlag flags Repeated"
proof -
  have "flags AND 2 ^ n = (if bit flags n then 2 ^ n else 0)" for n
    by (rule bit_word_eqI) (auto simp: bit_and_iff bit_exp_iff)
  from this [of 6] show ?thesis by (simp add: flag_eval)
qed

lemma json_nested_field:
  assumes "json_nests jp ser defaults c v" and "\<not> testFlag (fi_flags fi) MapFlag"
  shows "json_serializeMessageField jp ser defaults c fi st =
    Some (json_write (field_key jp fi)
      (if testFlag (fi_flags fi) Repeated then J_Array (toArray (obj_value (field_key jp fi) (jw_result st)) @ [v]) else v) st)"
proof (cases "findCustomJsonSerializer (jp_registry jp) (msg_type c)")
  case None
  then obtain oc where "v = J_Object oc" "json_writes ser defaults c oc" using assms(1) by (auto simp: json_nests_def)
  with None assms(2) show ?thesis by (simp add: json_message_field_end json_write_def)
next
  case (Some serializer)
  with assms(1) show ?thesis
    by (auto simp: json_nests_def json_serializeMessageField_def json_write_custom_def testAnyFlags_repeated)
qed

lemma json_serialize_message:
  assumes fits: "fits sc m i" and c: "message_value (m_kind sc m i) (m_member sc m i) = Some c"
    and ser: "json_nests jp ser defaults c v"
  shows "json_serialize_field jp sc ser defaults m i st = Some (json_write (m_name jp sc m i) v st)"
proof -
  note ok = fits_ok [OF fits]
  have meta: "metaProperty sc m (f_pindex sc (msg_type m) i) = Some (f_prop sc (msg_type m) i)"
    using fits by (intro field_metaProperty) (simp_all add: fits_def)
  have pointee: "field_pointee sc m (f_info sc (msg_type m) i) = pointee (m_member sc m i)"
    by (simp add: field_pointee_def meta f_slot_def)
  note unfolds = json_serialize_field_def Let_def fits_facts(1,2) [OF fits] has_value_def read_member_def
    get_message_def get_oneof_message_def has_message_def default_message_def set_slot_same pointee
    field_flags_test(2) [OF ok] field_key_name
  from c have "\<not> testFlag (fi_flags (f_info sc (msg_type m) i)) MapFlag"
    using field_flags_json(1) [OF ok] by (auto elim: message_valueE)
  note nested = json_nested_field [OF ser this]
  from c show ?thesis
    by (cases rule: message_valueE) (use field_okD(1,6) [OF ok] in \<open>simp_all add: unfolds nested\<close>)
qed

lemma json_messages_fold:
  assumes "list_all2 (json_nests jp ser defaults) cs js" and "testFlag (fi_flags fi) Repeated" "\<not> testFlag (fi_flags fi) MapFlag"
    and "cs \<noteq> []" and "toArray (obj_value (field_key jp fi) (jw_result st)) = vs"
  shows "fold_option (\<lambda>c. json_serializeMessageField jp ser defaults c fi) cs st =
    Some (st\<lparr>jw_result := obj_put (field_key jp fi) (J_Array (vs @ js)) (jw_result st)\<rparr>)"
  using assms
proof (induction cs js arbitrary: st vs rule: list_all2_induct)
  case (Cons c cs j js)
  then show ?case by (cases "cs = []") (auto simp: json_nested_field json_write_defined)
qed simp

lemma json_entries_fold:
  assumes "list_all2 (\<lambda>e kv. findCustomJsonSerializer (jp_registry jp) (msg_type e) = None \<and>
      (\<exists>oc. json_writes ser defaults e oc \<and> key_text jp (entry_key e) = fst kv \<and>
        obj_value value_name oc = snd kv \<and> snd kv \<noteq> J_Undefined)) es kvs"
    and "testFlag (fi_flags fi) MapFlag" "\<not> testFlag (fi_flags fi) Repeated"
    and "es \<noteq> []" and "toObject (obj_value (field_key jp fi) (jw_result st)) = vs"
    and "sorted_wrt key_less (map fst (vs @ kvs))"
  shows "fold_option (\<lambda>c. json_serializeMessageField jp ser defaults c fi) es st =
    Some (st\<lparr>jw_result := obj_put (field_key jp fi) (J_Object (vs @ kvs)) (jw_result st)\<rparr>)"
  using assms
proof (induction es kvs arbitrary: st vs rule: list_all2_induct)
  case (Cons e es kv kvs)
  then obtain oc where oc: "json_writes ser defaults e oc" "key_text jp (entry_key e) = fst kv"
    "obj_value value_name oc = snd kv" "snd kv \<noteq> J_Undefined" by blast
  have "obj_put (fst kv) (snd kv) vs = vs @ [kv]"
    using Cons.prems(5) obj_put_last [of vs "fst kv" "snd kv"] by (auto simp: sorted_wrt_append)
  with Cons oc show ?case by (cases "es = []") (auto simp: json_message_field_end obj_insert_def)
qed simp

lemma json_serialize_messages:
  assumes fits: "fits sc m i" and k: "m_kind sc m i = PK_messages t"
    and cs: "messages_value (m_kind sc m i) (m_member sc m i) = Some cs" "cs \<noteq> []"
    and ser: "list_all2 (json_nests jp ser defaults) cs js"
    and fresh: "obj_value (m_name jp sc m i) (jw_result st) = J_Undefined"
  shows "json_serialize_field jp sc ser defaults m i st =
    Some (json_write (m_name jp sc m i) (J_Array js) st)"
proof -
  note ok = fits_ok [OF fits]
  have fold: "fold_option (\<lambda>c. json_serializeMessageField jp ser defaults c (f_info sc (msg_type m) i)) cs st =
      Some (json_write (m_name jp sc m i) (J_Array js) st)"
    using json_messages_fold [OF ser _ _ cs(2), of "f_info sc (msg_type m) i" st "[]"] fresh k field_flags_test(2) [OF ok]
      field_flags_json(1) [OF ok]
    by (simp add: field_key_name json_write_defined)
  from cs(1) show ?thesis
    by (cases rule: messages_valueE)
      (use k in \<open>simp_all add: json_serialize_field_def Let_def fits_facts(1,2) [OF fits] has_value_def read_member_def fold\<close>)
qed

lemma json_serialize_map:
  assumes fits: "fits sc m i" and k: "m_kind sc m i = PK_map t"
    and es: "messages_value (m_kind sc m i) (m_member sc m i) = Some es" "es \<noteq> []"
    and ser: "list_all2 (\<lambda>e kv. findCustomJsonSerializer (jp_registry jp) (msg_type e) = None \<and>
      (\<exists>oc. json_writes ser defaults e oc \<and> key_text jp (entry_key e) = fst kv \<and>
        obj_value value_name oc = snd kv \<and> snd kv \<noteq> J_Undefined)) es kvs"
    and sorted: "sorted_wrt key_less (map fst kvs)"
    and fresh: "obj_value (m_name jp sc m i) (jw_result st) = J_Undefined"
  shows "json_serialize_field jp sc ser defaults m i st = Some (json_write (m_name jp sc m i) (J_Object kvs) st)"
proof -
  note ok = fits_ok [OF fits]
  have fold: "fold_option (\<lambda>c. json_serializeMessageField jp ser defaults c (f_info sc (msg_type m) i)) es st =
      Some (json_write (m_name jp sc m i) (J_Object kvs) st)"
    using json_entries_fold [OF ser _ _ es(2), of "f_info sc (msg_type m) i" st "[]"] fresh k sorted
      field_flags_test(2) [OF ok] field_flags_json(1) [OF ok]
    by (simp add: field_key_name json_write_defined)
  from es(1) show ?thesis
    by (cases rule: messages_valueE)
      (use k in \<open>simp_all add: json_serialize_field_def Let_def fits_facts(1,2) [OF fits] has_value_def read_member_def fold\<close>)
qed

subsection \<open>Whole messages\<close>

lemma fold_option_app:
  "fold_option f (xs @ ys) s = (case fold_option f xs s of None \<Rightarrow> None | Some s' \<Rightarrow> fold_option f ys s')"
  by (induction xs arbitrary: s) (auto split: option.split)

lemma json_fields_fold:
  assumes cls: "json_class_ok jp sc (msg_type m)" and n: "n \<le> f_count sc (msg_type m)" and st: "jw_result st = []"
    and field: "\<And>i st. i < f_count sc (msg_type m) \<Longrightarrow> obj_value (m_name jp sc m i) (jw_result st) = J_Undefined \<Longrightarrow>
      json_serialize_field jp sc ser defaults m i st =
        Some (case vs i of None \<Rightarrow> st | Some j \<Rightarrow> st\<lparr>jw_result := obj_put (m_name jp sc m i) j (jw_result st)\<rparr>)"
  shows "fold_option (json_serialize_field jp sc ser defaults m) [0..<n] st =
    Some (st\<lparr>jw_result := json_object jp sc (msg_type m) vs n\<rparr>)"
  using n
proof (induction n)
  case 0
  then show ?case using st by (simp add: json_object_def)
next
  case (Suc n)
  let ?o = "json_object jp sc (msg_type m) vs n"
  have "obj_value (m_name jp sc m n) ?o = J_Undefined"
    using map_of_json_object [OF cls, of n n vs] Suc.prems by (simp add: obj_value_def)
  with field [of n "st\<lparr>jw_result := ?o\<rparr>"] Suc show ?case
    by (auto simp: fold_option_app json_object_def put_field_def split: option.split)
qed

lemma json_serialize_key:
  assumes fits: "fits sc e 0" and k: "m_kind sc e 0 = PK_scalar (scalar_type_of kv)" "m_member sc e 0 = M_plain (Scalar kv)"
  shows "\<exists>w. w \<noteq> Some J_Undefined \<and> (\<forall>st. json_serialize_field jp sc ser defaults e 0 st =
    Some (case w of None \<Rightarrow> st | Some j \<Rightarrow> st\<lparr>jw_result := obj_put (m_name jp sc e 0) j (jw_result st)\<rparr>))"
proof (cases "isPresent_scalar kv \<or> m_forced sc e 0 \<or> signbit kv")
  case True
  then have "json_single (m_kind sc e 0) (m_forced sc e 0) (m_member sc e 0) = Some kv"
    using k by (auto simp: json_single_def single_value_def plain_signbit_def)
  from json_serialize_single [OF fits this] show ?thesis
    by (intro exI [of _ "Some (json_serialize jp kv)"]) (simp add: json_write_defined)
next
  case False
  have "json_serialize_field jp sc ser defaults e 0 st = Some st" for st
    using False k fits_facts(1,2) [OF fits] fits_facts(4) [OF fits] field_flags_test [OF fits_ok [OF fits]]
    by (simp add: json_serialize_field_def Let_def has_value_def read_member_def json_serialize_value_def
        json_serializeScalarField_def json_handlers_found)
  then show ?thesis by (intro exI [of _ None]) simp
qed

lemma json_message_fits:
  "json_class_ok jp sc (msg_type m) \<Longrightarrow> length (msg_members m) = length (mc_defaults (sc ! msg_type m)) \<Longrightarrow>
   i < f_count sc (msg_type m) \<Longrightarrow> fits sc m i"
  by (simp add: json_class_ok_def class_ok_def fits_def)

lemma json_field_defined: "json_field jp sc m i v \<Longrightarrow> v \<noteq> Some J_Undefined"
  by (erule json_field.cases) (auto simp: json_serializeList_def json_plain_value_def elim: json_nested.cases)

lemma json_serializeMessage_count:
  "json_serializeMessage (Suc fuel) jp sc defaults m st =
     fold_option (json_serialize_field jp sc (json_serializeMessage fuel jp sc) defaults m)
       [0..<f_count sc (msg_type m)] st"
  by (simp add: f_count_def f_ordering_def propertyOrdering_def)

lemma weight_nested:
  "v \<in> set vs \<Longrightarrow> json_weight v < json_weight (J_Array vs)"
  "kv \<in> set kvs \<Longrightarrow> json_weight (snd kv) + 4 < json_weight (J_Object kvs)"
proof -
  show "v \<in> set vs \<Longrightarrow> json_weight v < json_weight (J_Array vs)"
    by (induction vs) auto
  show "kv \<in> set kvs \<Longrightarrow> json_weight (snd kv) + 4 < json_weight (J_Object kvs)"
    by (induction kvs) auto
qed

lemma json_serialized:
  "json_message jp sc m oo \<Longrightarrow> json_weight (J_Object oo) \<le> fuel \<Longrightarrow>
     json_writes (json_serializeMessage fuel jp sc) defaults m oo"
  "json_field jp sc m i v \<Longrightarrow> fits sc m i \<Longrightarrow> field_cost v \<le> fuel + 4 \<Longrightarrow>
     obj_value (m_name jp sc m i) (jw_result st) = J_Undefined \<Longrightarrow>
     json_serialize_field jp sc (json_serializeMessage fuel jp sc) defaults m i st =
       Some (case v of None \<Rightarrow> st | Some j \<Rightarrow> st\<lparr>jw_result := obj_put (m_name jp sc m i) j (jw_result st)\<rparr>)"
  "json_nested jp sc c v' \<Longrightarrow> json_weight v' \<le> fuel \<Longrightarrow> json_nests jp (json_serializeMessage fuel jp sc) defaults c v'"
  "json_entry jp sc e kv \<Longrightarrow> json_weight (snd kv) < fuel \<Longrightarrow> findCustomJsonSerializer (jp_registry jp) (msg_type e) = None \<and>
     (\<exists>oc. json_writes (json_serializeMessage fuel jp sc) defaults e oc \<and>
       key_text jp (entry_key e) = fst kv \<and> obj_value value_name oc = snd kv \<and> snd kv \<noteq> J_Undefined)"
proof (induction m oo and m i v and c v' and e kv arbitrary: fuel defaults and fuel defaults st and fuel defaults and fuel defaults
    rule: json_message_json_field_json_nested_json_entry.inducts)
  case (json_messageI m vs)
  let ?n = "f_count sc (msg_type m)"
  have cls: "json_class_ok jp sc (msg_type m)" by fact
  note weight = weight_json_object [OF cls order.refl, of vs]
  obtain n where fuel: "fuel = Suc n" using json_messageI.prems json_weight_pos [of "J_Object (json_object jp sc (msg_type m) vs ?n)"]
    by (cases fuel) auto
  show ?case unfolding json_writes_def fuel json_serializeMessage_count
  proof (intro allI impI)
    fix st :: json_writer
    assume "jw_result st = []"
    then show "fold_option (json_serialize_field jp sc (json_serializeMessage n jp sc) defaults m) [0..<?n] st =
        Some (st\<lparr>jw_result := json_object jp sc (msg_type m) vs ?n\<rparr>)"
    proof (rule json_fields_fold [OF cls order.refl])
      fix i and st :: json_writer
      assume i: "i < ?n" and "obj_value (m_name jp sc m i) (jw_result st) = J_Undefined"
      moreover have "fits sc m i" using json_messageI i by (intro json_message_fits)
      moreover have "field_cost (vs i) \<le> n + 4"
        using field_weight_le [of i ?n vs] i weight json_messageI.prems fuel by simp
      ultimately show "json_serialize_field jp sc (json_serializeMessage n jp sc) defaults m i st =
          Some (case vs i of None \<Rightarrow> st | Some j \<Rightarrow> st\<lparr>jw_result := obj_put (m_name jp sc m i) j (jw_result st)\<rparr>)"
        using json_messageI by blast
    qed
  qed
next
  case (json_submessage m i c v)
  then have "json_nests jp (json_serializeMessage fuel jp sc) defaults c v" by (simp add: field_cost_def)
  with json_submessage show ?case by (auto simp: json_serialize_message json_nests_def intro!: json_write_defined)
next
  case (json_messages m i t cs vs)
  have "list_all2 (json_nests jp (json_serializeMessage fuel jp sc) defaults) cs vs"
    by (rule list.rel_mono_strong [OF json_messages.IH(3)])
      (use json_messages.prems weight_nested(1) in \<open>fastforce simp: field_cost_def\<close>)
  with json_messages show ?case by (simp add: json_serialize_messages json_write_defined)
next
  case (json_map m i t es kvs)
  have "list_all2 (\<lambda>e kv. findCustomJsonSerializer (jp_registry jp) (msg_type e) = None \<and>
      (\<exists>oc. json_writes (json_serializeMessage fuel jp sc) defaults e oc \<and>
      key_text jp (entry_key e) = fst kv \<and> obj_value value_name oc = snd kv \<and> snd kv \<noteq> J_Undefined)) es kvs"
    by (rule list.rel_mono_strong [OF json_map.IH(3)])
      (use json_map.prems weight_nested(2) in \<open>fastforce simp: field_cost_def\<close>)
  with json_map show ?case by (simp add: json_serialize_map json_write_defined)
next
  case (json_nestedI c oc)
  then show ?case by (simp add: json_nests_def)
next
  case (json_customI c serializer deserializer)
  then show ?case by (auto simp: json_nests_def json_plain_value_def)
next
  case (json_entryI e kv v)
  obtain n where fuel: "fuel = Suc n" using json_entryI.prems by (cases fuel) auto
  have fits: "fits sc e i" if "i < 2" for i using json_entryI that by (intro json_message_fits) auto
  obtain w where w: "w \<noteq> Some J_Undefined" "\<forall>st. json_serialize_field jp sc (json_serializeMessage n jp sc) defaults e 0 st =
      Some (case w of None \<Rightarrow> st | Some j \<Rightarrow> st\<lparr>jw_result := obj_put (m_name jp sc e 0) j (jw_result st)\<rparr>)"
    using json_serialize_key [OF fits [of 0] json_entryI.IH(8,9), of jp "json_serializeMessage n jp sc" defaults] by auto
  let ?vs = "\<lambda>i::nat. if i = 0 then w else Some v"
  let ?o = "json_object jp sc (msg_type e) ?vs 2"
  have "json_writes (json_serializeMessage fuel jp sc) defaults e ?o"
    unfolding json_writes_def fuel json_serializeMessage_count \<open>f_count sc (msg_type e) = 2\<close>
  proof (intro allI impI json_fields_fold)
    fix i and st :: json_writer
    assume "i < f_count sc (msg_type e)" "obj_value (m_name jp sc e i) (jw_result st) = J_Undefined"
    then show "json_serialize_field jp sc (json_serializeMessage n jp sc) defaults e i st =
        Some (case ?vs i of None \<Rightarrow> st | Some j \<Rightarrow> st\<lparr>jw_result := obj_put (m_name jp sc e i) j (jw_result st)\<rparr>)"
      using json_entryI.IH(13) [of n st defaults] json_entryI.prems fuel w(2) fits [of 1] \<open>f_count sc (msg_type e) = 2\<close>
      by (cases "i = 0") (auto simp: field_cost_def less_2_cases_iff)
  qed (use json_entryI in simp_all)
  moreover have "obj_value value_name ?o = v"
    using map_of_json_object [of jp sc "msg_type e" 2 1 ?vs] json_entryI by (simp add: obj_value_def)
  moreover have "v \<noteq> J_Undefined" using json_field_defined [OF json_entryI.IH(12)] by simp
  ultimately show ?case using json_entryI by (auto simp: entry_key_def)
qed (auto simp: json_serialize_absent json_serialize_single json_serialize_enum json_serialize_list
    json_serialize_enums json_write_defined json_serializeList_def)

end
