(* ===== verification/JsonWalk.thy ===== *)
theory JsonWalk
  imports JsonEncoding WireRoundtrip
begin

text \<open>
  The JSON deserializer reads the object of the specification back: how \<open>nextFieldIndex\<close> walks over
  the object, what one field makes of its value, and the loop over the fields.
\<close>

subsection \<open>The walk over an object\<close>

definition jstate :: "jobject \<Rightarrow> nat \<Rightarrow> json \<Rightarrow> json_state" where
  "jstate o' i v = \<lparr>jst_obj = o', jst_index = int i, jst_scalarValue = v\<rparr>"

definition reading :: "json_reader \<Rightarrow> json_state list \<Rightarrow> jobject \<Rightarrow> nat \<Rightarrow> bool" where
  "reading d outer o' i \<longleftrightarrow> jr_lastError d = NoError \<and> (\<exists>v. jr_state d = outer @ [jstate o' i v])"

definition keys_known :: "json_platform \<Rightarrow> schema \<Rightarrow> nat \<Rightarrow> jobject \<Rightarrow> bool" where
  "keys_known jp sc t o' \<longleftrightarrow> fst ` set o' \<subseteq> field_name jp sc t ` {..<f_count sc t}"

lemma jstate_simps [simp]:
  "jst_obj (jstate o' i v) = o'" "jst_index (jstate o' i v) = int i"
  "(jstate o' i v)\<lparr>jst_scalarValue := w\<rparr> = jstate o' i w"
  "(jstate o' i v)\<lparr>jst_obj := o1\<rparr> = jstate o1 i v"
  "(jstate o' i v)\<lparr>jst_index := int i + 1\<rparr> = jstate o' (Suc i) v"
  "jst_scalarValue (jstate o' i v) = v"
  by (simp_all add: jstate_def)

lemma find_same: "find (\<lambda>k. k = a) ks = (if a \<in> set ks then Some a else None)"
  by (induction ks) auto

lemma find_key_name:
  assumes cls: "json_class_ok jp sc t" and keys: "keys_known jp sc t o'" and i: "i < f_count sc t"
  shows "find_key jp (field_name jp sc t i) o' =
    (case map_of o' (field_name jp sc t i) of None \<Rightarrow> None | Some v \<Rightarrow> Some (field_name jp sc t i))"
proof -
  have "(field_name jp sc t i = k \<or> field_name jp sc t i = convertJsonKeyToJsonName jp k) \<longleftrightarrow> k = field_name jp sc t i"
    if k: "k \<in> set (obj_keys o')" for k
  proof -
    from k keys obtain j where "j < f_count sc t" "k = field_name jp sc t j"
      unfolding keys_known_def obj_keys_def by auto
    with cls i show ?thesis unfolding json_class_ok_def by metis
  qed
  then have "find_key jp (field_name jp sc t i) o' = find (\<lambda>k. k = field_name jp sc t i) (obj_keys o')"
    unfolding find_key_def by (intro find_cong) simp_all
  then show ?thesis
    by (auto simp: find_same obj_keys_def map_of_eq_None_iff split: option.split) (metis map_of_eq_None_iff option.distinct(1))
qed

lemma class_field_ok: "json_class_ok jp sc t \<Longrightarrow> i < f_count sc t \<Longrightarrow> field_ok sc t i"
  by (simp add: json_class_ok_def class_ok_def)

text \<open>What a step of the walk makes of the value of field \<open>i\<close>.\<close>

lemma field_step_simps:
  "fieldFlags (f_ordering sc t) (int i) = f_flags sc t i"
  "fromUtf8 (jp_utf jp) (jsonName (f_ordering sc t) (int i)) = field_name jp sc t i"
  by (simp_all add: f_flags_def field_name_def)

lemma step_skip:
  assumes "json_class_ok jp sc t" "keys_known jp sc t o'" "i < f_count sc t"
  shows "map_of o' (field_name jp sc t i) = None \<Longrightarrow>
      json_field_step jp (f_ordering sc t) (jstate o' i J_Null) = Skip_field (jstate o' (Suc i) J_Null)"
    and "map_of o' (field_name jp sc t i) = Some (J_Array []) \<Longrightarrow> f_kind sc t i = PK_messages u \<Longrightarrow>
      json_field_step jp (f_ordering sc t) (jstate o' i J_Null) = Skip_field (jstate o' (Suc i) J_Null)"
    and "map_of o' (field_name jp sc t i) = Some (J_Object []) \<Longrightarrow> f_kind sc t i = PK_map u \<Longrightarrow>
      json_field_step jp (f_ordering sc t) (jstate o' i J_Null) = Skip_field (jstate o' (Suc i) J_Null)"
  using find_key_name [OF assms] field_flags_json [OF class_field_ok [OF assms(1,3)]]
  by (simp_all add: json_field_step_def field_step_simps Let_def obj_value_def json_repeated_field_def json_map_field_def)

lemma step_take:
  assumes "json_class_ok jp sc t" "keys_known jp sc t o'" "i < f_count sc t"
    and "map_of o' (field_name jp sc t i) = Some v" "v \<noteq> J_Null"
    and "\<not> message_kind (f_kind sc t i)" "\<not> messages_kind (f_kind sc t i)"
  shows "json_field_step jp (f_ordering sc t) (jstate o' i J_Null) = Take_field (int i) (jstate o' (Suc i) v)"
proof -
  have "\<not> (\<exists>u. f_kind sc t i = PK_messages u)" "\<not> (\<exists>u. f_kind sc t i = PK_map u)" using assms(7) by auto
  then show ?thesis
    using assms(4-) find_key_name [OF assms(1-3)] field_flags_json [OF class_field_ok [OF assms(1,3)]]
    by (simp add: json_field_step_def field_step_simps Let_def obj_value_def)
qed

lemma step_push:
  assumes "json_class_ok jp sc t" "keys_known jp sc t o'" "i < f_count sc t"
  shows "map_of o' (field_name jp sc t i) = Some (J_Object oc) \<Longrightarrow> message_kind (f_kind sc t i) \<Longrightarrow>
      json_field_step jp (f_ordering sc t) (jstate o' i J_Null) = Push_field (int i) (jstate o' (Suc i) J_Null) oc"
    and "map_of o' (field_name jp sc t i) = Some (J_Array (J_Object oc # vs)) \<Longrightarrow> f_kind sc t i = PK_messages u \<Longrightarrow>
      json_field_step jp (f_ordering sc t) (jstate o' i J_Null) =
        Push_field (int i) (jstate (obj_put (field_name jp sc t i) (J_Array vs) o') i J_Null) oc"
    and "map_of o' (field_name jp sc t i) = Some (J_Object ((k, v) # kvs)) \<Longrightarrow> f_kind sc t i = PK_map u \<Longrightarrow>
      v \<noteq> J_Undefined \<Longrightarrow>
      json_field_step jp (f_ordering sc t) (jstate o' i J_Null) =
        Push_field (int i) (jstate (obj_put (field_name jp sc t i) (J_Object kvs) o') i J_Null)
          [(key_name, J_String k), (value_name, v)]"
proof -
  note facts = find_key_name [OF assms(1-3)] field_flags_json [OF class_field_ok [OF assms(1,3)]]
  note unfolds = json_field_step_def field_step_simps Let_def obj_value_def json_repeated_field_def
    json_map_field_def json_message_field_def obj_insert_def
  show "map_of o' (field_name jp sc t i) = Some (J_Object oc) \<Longrightarrow> message_kind (f_kind sc t i) \<Longrightarrow>
      json_field_step jp (f_ordering sc t) (jstate o' i J_Null) = Push_field (int i) (jstate o' (Suc i) J_Null) oc"
    by (cases "f_kind sc t i") (simp_all add: unfolds facts)
  show "map_of o' (field_name jp sc t i) = Some (J_Array (J_Object oc # vs)) \<Longrightarrow> f_kind sc t i = PK_messages u \<Longrightarrow>
      json_field_step jp (f_ordering sc t) (jstate o' i J_Null) =
        Push_field (int i) (jstate (obj_put (field_name jp sc t i) (J_Array vs) o') i J_Null) oc"
    by (simp add: unfolds facts)
  show "map_of o' (field_name jp sc t i) = Some (J_Object ((k, v) # kvs)) \<Longrightarrow> f_kind sc t i = PK_map u \<Longrightarrow>
      v \<noteq> J_Undefined \<Longrightarrow>
      json_field_step jp (f_ordering sc t) (jstate o' i J_Null) =
        Push_field (int i) (jstate (obj_put (field_name jp sc t i) (J_Object kvs) o') i J_Null)
          [(key_name, J_String k), (value_name, v)]"
    by (simp add: unfolds facts key_name_def value_name_def)
qed

text \<open>A value that is no object is taken for a message as it is; a custom deserializer reads it.\<close>

lemma step_take_nested:
  assumes "json_class_ok jp sc t" "keys_known jp sc t o'" "i < f_count sc t" "json_plain_value v"
  shows "map_of o' (field_name jp sc t i) = Some v \<Longrightarrow> message_kind (f_kind sc t i) \<Longrightarrow>
      json_field_step jp (f_ordering sc t) (jstate o' i J_Null) = Take_field (int i) (jstate o' (Suc i) v)"
    and "map_of o' (field_name jp sc t i) = Some (J_Array (v # vs)) \<Longrightarrow> f_kind sc t i = PK_messages u \<Longrightarrow>
      json_field_step jp (f_ordering sc t) (jstate o' i J_Null) =
        Take_field (int i) (jstate (obj_put (field_name jp sc t i) (J_Array vs) o') i v)"
proof -
  note facts = find_key_name [OF assms(1-3)] field_flags_json [OF class_field_ok [OF assms(1,3)]]
  note unfolds = json_field_step_def field_step_simps Let_def obj_value_def json_repeated_field_def
    json_message_field_def obj_insert_def
  show "map_of o' (field_name jp sc t i) = Some v \<Longrightarrow> message_kind (f_kind sc t i) \<Longrightarrow>
      json_field_step jp (f_ordering sc t) (jstate o' i J_Null) = Take_field (int i) (jstate o' (Suc i) v)"
    using assms(4) by (cases "f_kind sc t i"; cases v) (simp_all add: unfolds facts json_plain_value_def)
  show "map_of o' (field_name jp sc t i) = Some (J_Array (v # vs)) \<Longrightarrow> f_kind sc t i = PK_messages u \<Longrightarrow>
      json_field_step jp (f_ordering sc t) (jstate o' i J_Null) =
        Take_field (int i) (jstate (obj_put (field_name jp sc t i) (J_Array vs) o') i v)"
    using assms(4) by (cases v) (simp_all add: unfolds facts json_plain_value_def)
qed

text \<open>The next field from field \<open>i\<close> on.\<close>

lemma next_index:
  assumes d: "reading d outer o' i" and m: "msg_type m = t" and t: "0 < f_count sc t"
  shows "i = f_count sc t \<Longrightarrow> json_nextFieldIndex jp sc m d = Ret (-1, d\<lparr>jr_state := outer\<rparr>)"
    and "i < f_count sc t \<Longrightarrow>
      json_field_step jp (f_ordering sc t) (jstate o' i J_Null) = Take_field k st' \<Longrightarrow>
      json_nextFieldIndex jp sc m d = Ret (k, d\<lparr>jr_state := outer @ [st']\<rparr>)"
    and "i < f_count sc t \<Longrightarrow>
      json_field_step jp (f_ordering sc t) (jstate o' i J_Null) = Push_field k st' oc \<Longrightarrow>
      json_nextFieldIndex jp sc m d = Ret (k, d\<lparr>jr_state := outer @ [st', new_json_state oc]\<rparr>)"
    and "i < f_count sc t \<Longrightarrow>
      json_field_step jp (f_ordering sc t) (jstate o' i J_Null) = Skip_field (jstate o' (Suc i) J_Null) \<Longrightarrow>
      json_nextFieldIndex jp sc m d = json_nextFieldIndex jp sc m (d\<lparr>jr_state := outer @ [jstate o' (Suc i) J_Null]\<rparr>)"
proof -
  obtain v where st: "jr_state d = outer @ [jstate o' i v]" using d by (auto simp: reading_def)
  have count: "fieldCount (propertyOrdering sc m) = int (f_count sc t)" "propertyOrdering sc m = f_ordering sc t"
    using m t by (simp_all add: f_count_def f_ordering_def propertyOrdering_def)
  have sub: "nat (int a - int b) = a - b" "nat (int a - (1 + int b)) = a - Suc b" for a b :: nat by simp_all
  note unfolds = json_nextFieldIndex_def count st Let_def sub
  show "i = f_count sc t \<Longrightarrow> json_nextFieldIndex jp sc m d = Ret (-1, d\<lparr>jr_state := outer\<rparr>)"
    using t by (simp add: unfolds count(1) [unfolded count(2)])
  assume i: "i < f_count sc t"
  then have steps: "f_count sc t - i = Suc (f_count sc t - Suc i)" by simp
  note unfolds = unfolds count(1) [unfolded count(2)] steps
  show "json_field_step jp (f_ordering sc t) (jstate o' i J_Null) = Take_field k st' \<Longrightarrow>
      json_nextFieldIndex jp sc m d = Ret (k, d\<lparr>jr_state := outer @ [st']\<rparr>)"
    using i by (simp add: unfolds)
  show "json_field_step jp (f_ordering sc t) (jstate o' i J_Null) = Push_field k st' oc \<Longrightarrow>
      json_nextFieldIndex jp sc m d = Ret (k, d\<lparr>jr_state := outer @ [st', new_json_state oc]\<rparr>)"
    using i by (simp add: unfolds)
  show "json_field_step jp (f_ordering sc t) (jstate o' i J_Null) = Skip_field (jstate o' (Suc i) J_Null) \<Longrightarrow>
      json_nextFieldIndex jp sc m d = json_nextFieldIndex jp sc m (d\<lparr>jr_state := outer @ [jstate o' (Suc i) J_Null]\<rparr>)"
    using i by (simp add: unfolds split: json_step.split)
qed

end
