(* ===== verification/JsonRounds.thy ===== *)
theory JsonRounds
  imports JsonWalk
begin

text \<open>
  One field in JSON: the rounds of the loop that read its value, what they leave in the message, and
  the value that is stored in the end.
\<close>

subsection \<open>Rounds\<close>

text \<open>
  One round of the loop: with fuel \<open>c\<close>, the walk finds field \<open>i\<close> in the object and the field is read,
  which leaves another object and another index.
\<close>

definition json_round ::
  "json_platform \<Rightarrow> schema \<Rightarrow> nat \<Rightarrow> nat \<Rightarrow> nat \<Rightarrow> jobject \<Rightarrow> qmessage \<Rightarrow> variant \<Rightarrow>
   jobject \<Rightarrow> nat \<Rightarrow> qmessage \<Rightarrow> variant \<Rightarrow> bool" where
  "json_round jp sc t i c o' m v o2 i2 m2 v2 \<longleftrightarrow>
     msg_type m2 = msg_type m \<and>
     (\<forall>d outer n. reading d outer o' i \<longrightarrow> c \<le> n \<longrightarrow>
        (\<exists>st w. (\<forall>m0. msg_type m0 = t \<longrightarrow> json_nextFieldIndex jp sc m0 d = Ret (int i, d\<lparr>jr_state := st\<rparr>)) \<and>
           json_deserialize_field (json_deserializeMessage n jp sc) jp sc (int i) m
             (d\<lparr>jr_state := st, jr_cachedValue := v, jr_cachedIndex := int i\<rparr>) =
           Ret (JContinue m2 (d\<lparr>jr_state := outer @ [jstate o2 i2 w], jr_cachedValue := v2, jr_cachedIndex := int i\<rparr>))))"

fun json_rounds ::
  "json_platform \<Rightarrow> schema \<Rightarrow> nat \<Rightarrow> nat \<Rightarrow> nat list \<Rightarrow> jobject \<Rightarrow> nat \<Rightarrow> qmessage \<Rightarrow> variant \<Rightarrow>
   jobject \<Rightarrow> nat \<Rightarrow> qmessage \<Rightarrow> variant \<Rightarrow> bool" where
  "json_rounds jp sc t i [] o' j m v o2 j2 m2 v2 \<longleftrightarrow> o2 = o' \<and> j2 = j \<and> m2 = m \<and> v2 = v"
| "json_rounds jp sc t i (c # cs) o' j m v o2 j2 m2 v2 \<longleftrightarrow>
     j = i \<and> (\<exists>o1 j1 m1 v1. json_round jp sc t i c o' m v o1 j1 m1 v1 \<and>
       json_rounds jp sc t i cs o1 j1 m1 v1 o2 j2 m2 v2)"

text \<open>A value that is no message takes one round.\<close>

lemma round_take:
  assumes cls: "json_class_ok jp sc t" "keys_known jp sc t o'" "i < f_count sc t"
    and v: "map_of o' (field_name jp sc t i) = Some j" "j \<noteq> J_Null"
    and k: "\<not> message_kind (f_kind sc t i)" "\<not> messages_kind (f_kind sc t i)"
    and deser: "\<And>reader d. jr_cachedValue d = v \<Longrightarrow> json_scalarValue d = Some j \<Longrightarrow>
      json_deserialize_field reader jp sc (int i) m d = Ret (JContinue m (d\<lparr>jr_cachedValue := v2\<rparr>))"
  shows "json_round jp sc t i 0 o' m v o' (Suc i) m v2"
  unfolding json_round_def
proof (intro conjI allI impI)
  fix d outer and n :: nat
  assume d: "reading d outer o' i"
  let ?d = "d\<lparr>jr_state := outer @ [jstate o' (Suc i) j], jr_cachedValue := v, jr_cachedIndex := int i\<rparr>"
  have "json_nextFieldIndex jp sc m0 d = Ret (int i, d\<lparr>jr_state := outer @ [jstate o' (Suc i) j]\<rparr>)"
    if "msg_type m0 = t" for m0
    using next_index(2) [OF d that] step_take [OF cls v k] cls by (simp add: json_class_ok_def)
  moreover have "json_deserialize_field (json_deserializeMessage n jp sc) jp sc (int i) m ?d =
      Ret (JContinue m (?d\<lparr>jr_cachedValue := v2\<rparr>))"
    by (rule deser) (simp_all add: json_scalarValue_def)
  ultimately show "\<exists>st w. (\<forall>m0. msg_type m0 = t \<longrightarrow> json_nextFieldIndex jp sc m0 d = Ret (int i, d\<lparr>jr_state := st\<rparr>)) \<and>
      json_deserialize_field (json_deserializeMessage n jp sc) jp sc (int i) m
        (d\<lparr>jr_state := st, jr_cachedValue := v, jr_cachedIndex := int i\<rparr>) =
      Ret (JContinue m (d\<lparr>jr_state := outer @ [jstate o' (Suc i) w], jr_cachedValue := v2, jr_cachedIndex := int i\<rparr>))"
    by (intro exI [of _ "outer @ [jstate o' (Suc i) j]"] exI [of _ j]) simp
qed simp

lemma plain_kind:
  "field_ok sc t i \<Longrightarrow> \<not> messages_kind (f_kind sc t i) \<Longrightarrow> \<not> is_repeated_message (f_flags sc t i)"
  by (simp add: field_flags_test(7))

lemma round_scalar:
  assumes cls: "json_class_ok jp sc t" "keys_known jp sc t o'" "i < f_count sc t" and m: "msg_type m = t"
    and v: "map_of o' (field_name jp sc t i) = Some j" "j \<noteq> J_Null"
    and k: "\<not> message_kind (f_kind sc t i)" "\<not> messages_kind (f_kind sc t i)" "\<not> enum_kind (f_kind sc t i)"
    and read: "json_deserialize jp (scalar_type_of v0) j = (x, True)"
  shows "json_round jp sc t i 0 o' m (Scalar v0) o' (Suc i) m (Scalar x)"
proof (rule round_take [OF cls v k(1,2)])
  fix reader and d :: json_reader
  assume d: "jr_cachedValue d = Scalar v0" "json_scalarValue d = Some j"
  note ok = class_field_ok [OF cls(1,3)]
  show "json_deserialize_field reader jp sc (int i) m d = Ret (JContinue m (d\<lparr>jr_cachedValue := Scalar x\<rparr>))"
    using d k read plain_kind [OF ok k(2)] field_flags_test(3) [OF ok]
    by (simp add: json_deserialize_field_def mk_field_info_eq [OF m] json_deserializeScalarField_def
        json_handlers_found json_deserializeCommon_def)
qed

lemma round_list:
  assumes cls: "json_class_ok jp sc t" "keys_known jp sc t o'" "i < f_count sc t" and m: "msg_type m = t"
    and v: "map_of o' (field_name jp sc t i) = Some j" "j \<noteq> J_Null" and k: "f_kind sc t i = PK_scalars u"
    and read: "json_deserializeList jp u j False = (Scalars u xs, True)"
  shows "json_round jp sc t i 0 o' m (Scalars u us) o' (Suc i) m (Scalars u xs)"
proof (rule round_take [OF cls v])
  fix reader and d :: json_reader
  assume d: "jr_cachedValue d = Scalars u us" "json_scalarValue d = Some j"
  note ok = class_field_ok [OF cls(1,3)]
  show "json_deserialize_field reader jp sc (int i) m d = Ret (JContinue m (d\<lparr>jr_cachedValue := Scalars u xs\<rparr>))"
    using d k read plain_kind [OF ok] field_flags_test(3) [OF ok]
    by (simp add: json_deserialize_field_def mk_field_info_eq [OF m] json_deserializeScalarField_def
        json_handlers_found)
qed (use k in simp_all)

lemma round_enum:
  assumes cls: "json_class_ok jp sc t" "keys_known jp sc t o'" "i < f_count sc t" and m: "msg_type m = t"
    and v: "map_of o' (field_name jp sc t i) = Some (J_String s)"
    and k: "enum_kind (f_kind sc t i)" "\<not> repeated_kind (f_kind sc t i)"
  shows "json_round jp sc t i 0 o' m (Enum e0) o' (Suc i) m (Scalar (V_QString s))"
proof (rule round_take [OF cls v])
  fix reader and d :: json_reader
  assume d: "jr_cachedValue d = Enum e0" "json_scalarValue d = Some (J_String s)"
  note ok = class_field_ok [OF cls(1,3)]
  show "json_deserialize_field reader jp sc (int i) m d =
      Ret (JContinue m (d\<lparr>jr_cachedValue := Scalar (V_QString s)\<rparr>))"
    using d k plain_kind [OF ok] field_flags_test(2,3) [OF ok]
    by (cases "f_kind sc t i") (simp_all add: json_deserialize_field_def mk_field_info_eq [OF m] json_deserializeEnum_def
        json_deserializeCommon_def json_string_def)
qed (use k in \<open>cases "f_kind sc t i"; simp\<close>)+

lemma round_enums:
  assumes cls: "json_class_ok jp sc t" "keys_known jp sc t o'" "i < f_count sc t" and m: "msg_type m = t"
    and v: "map_of o' (field_name jp sc t i) = Some j" "j \<noteq> J_Null" and k: "f_kind sc t i = PK_enums"
    and read: "json_deserializeList jp T_QString j False = (Scalars T_QString xs, True)"
  shows "json_round jp sc t i 0 o' m (Enums es) o' (Suc i) m (Scalars T_QString xs)"
proof (rule round_take [OF cls v])
  fix reader and d :: json_reader
  assume d: "jr_cachedValue d = Enums es" "json_scalarValue d = Some j"
  note ok = class_field_ok [OF cls(1,3)]
  show "json_deserialize_field reader jp sc (int i) m d =
      Ret (JContinue m (d\<lparr>jr_cachedValue := Scalars T_QString xs\<rparr>))"
    using d k read plain_kind [OF ok] field_flags_test(2,3) [OF ok]
    by (simp add: json_deserialize_field_def mk_field_info_eq [OF m] json_deserializeEnum_def)
qed (use k in simp_all)

subsection \<open>Rounds with a nested message\<close>

definition json_child_reads :: "json_platform \<Rightarrow> schema \<Rightarrow> qmessage \<Rightarrow> jobject \<Rightarrow> nat \<Rightarrow> bool" where
  "json_child_reads jp sc c oc need \<longleftrightarrow>
     (\<forall>n d outer. jr_state d = outer @ [new_json_state oc] \<longrightarrow> jr_lastError d = NoError \<longrightarrow>
        jr_cachedValue d = Invalid \<longrightarrow> jr_cachedIndex d = -1 \<longrightarrow> need \<le> n \<longrightarrow>
        json_deserializeMessage n jp sc (default_message sc (msg_type c)) d = Ret (True, c, d\<lparr>jr_state := outer\<rparr>))"

lemma round_push:
  assumes cls: "0 < f_count sc t" "i < f_count sc t"
    and step: "json_field_step jp (f_ordering sc t) (jstate o' i J_Null) = Push_field (int i) (jstate o2 i2 J_Null) oc"
    and child: "json_child_reads jp sc c oc need" and m2: "msg_type m2 = msg_type m"
    and deser: "\<And>reader d d'. jr_cachedValue d = v \<Longrightarrow>
      json_deserializeMessageField jp reader (default_message sc (msg_type c)) (d\<lparr>jr_cachedValue := w\<rparr>) =
        Ret (True, c, d'\<lparr>jr_cachedValue := w\<rparr>) \<Longrightarrow>
      json_deserialize_field reader jp sc (int i) m d = Ret (JContinue m2 (d'\<lparr>jr_cachedValue := v2\<rparr>))"
  shows "json_round jp sc t i need o' m v o2 i2 m2 v2"
  unfolding json_round_def
proof (intro conjI allI impI)
  fix d outer n
  assume d: "reading d outer o' i" and n: "need \<le> n"
  let ?st = "outer @ [jstate o2 i2 J_Null, new_json_state oc]"
  let ?D = "d\<lparr>jr_state := ?st, jr_cachedValue := v, jr_cachedIndex := int i\<rparr>"
  let ?reader = "json_deserializeMessage n jp sc"
  have next1: "json_nextFieldIndex jp sc m0 d = Ret (int i, d\<lparr>jr_state := ?st\<rparr>)" if "msg_type m0 = t" for m0
    using next_index(3) [OF d that cls(1,2) step] .
  have "?reader (default_message sc (msg_type c)) (json_clearCachedValue (?D\<lparr>jr_cachedValue := w\<rparr>)) =
      Ret (True, c, (json_clearCachedValue (?D\<lparr>jr_cachedValue := w\<rparr>))\<lparr>jr_state := outer @ [jstate o2 i2 J_Null]\<rparr>)"
    using child d n unfolding json_child_reads_def
    by (simp add: json_clearCachedValue_def reading_def)
  then have "json_deserializeMessageField jp ?reader (default_message sc (msg_type c)) (?D\<lparr>jr_cachedValue := w\<rparr>) =
      Ret (True, c, (d\<lparr>jr_state := outer @ [jstate o2 i2 J_Null], jr_cachedIndex := int i\<rparr>)\<lparr>jr_cachedValue := w\<rparr>)"
    by (simp add: json_deserializeMessageField_def json_scalarValue_def new_json_state_def json_clearCachedValue_def)
  from deser [OF _ this]
  have "json_deserialize_field ?reader jp sc (int i) m ?D =
      Ret (JContinue m2 (d\<lparr>jr_state := outer @ [jstate o2 i2 J_Null], jr_cachedValue := v2, jr_cachedIndex := int i\<rparr>))"
    by simp
  with next1 show "\<exists>st w. (\<forall>m0. msg_type m0 = t \<longrightarrow> json_nextFieldIndex jp sc m0 d = Ret (int i, d\<lparr>jr_state := st\<rparr>)) \<and>
      json_deserialize_field ?reader jp sc (int i) m
        (d\<lparr>jr_state := st, jr_cachedValue := v, jr_cachedIndex := int i\<rparr>) =
      Ret (JContinue m2 (d\<lparr>jr_state := outer @ [jstate o2 i2 w], jr_cachedValue := v2, jr_cachedIndex := int i\<rparr>))"
    by (intro exI [of _ ?st] exI [of _ J_Null]) simp
qed (rule m2)

lemma json_round_mono: "json_round jp sc t i c o' m v o2 i2 m2 v2 \<Longrightarrow> c \<le> c' \<Longrightarrow> json_round jp sc t i c' o' m v o2 i2 m2 v2"
  unfolding json_round_def by (meson order_trans)

text \<open>A nested message: an object that is read by the loop, or a value for the custom deserializer.\<close>

definition json_custom_reads :: "json_platform \<Rightarrow> schema \<Rightarrow> qmessage \<Rightarrow> json \<Rightarrow> bool" where
  "json_custom_reads jp sc c j \<longleftrightarrow> json_plain_value j \<and>
     (\<exists>f. findCustomJsonDeserializer (jp_registry jp) (msg_type c) = Some f \<and>
        f (default_message sc (msg_type c)) j = (True, c))"

definition json_nested_reads :: "json_platform \<Rightarrow> schema \<Rightarrow> qmessage \<Rightarrow> json \<Rightarrow> nat \<Rightarrow> bool" where
  "json_nested_reads jp sc c j need \<longleftrightarrow>
     (\<exists>oc. j = J_Object oc \<and> json_child_reads jp sc c oc need) \<or> json_custom_reads jp sc c j"

lemma round_custom:
  assumes cls: "0 < f_count sc t" "i < f_count sc t"
    and step: "json_field_step jp (f_ordering sc t) (jstate o' i J_Null) = Take_field (int i) (jstate o2 i2 j)"
    and custom: "json_custom_reads jp sc c j" and m2: "msg_type m2 = msg_type m"
    and deser: "\<And>reader d d'. jr_cachedValue d = v \<Longrightarrow>
      json_deserializeMessageField jp reader (default_message sc (msg_type c)) (d\<lparr>jr_cachedValue := w\<rparr>) =
        Ret (True, c, d'\<lparr>jr_cachedValue := w\<rparr>) \<Longrightarrow>
      json_deserialize_field reader jp sc (int i) m d = Ret (JContinue m2 (d'\<lparr>jr_cachedValue := v2\<rparr>))"
  shows "json_round jp sc t i 0 o' m v o2 i2 m2 v2"
  unfolding json_round_def
proof (intro conjI allI impI)
  fix d outer and n :: nat
  assume d: "reading d outer o' i"
  let ?st = "outer @ [jstate o2 i2 j]" and ?reader = "json_deserializeMessage n jp sc"
  let ?D = "d\<lparr>jr_state := ?st, jr_cachedValue := v, jr_cachedIndex := int i\<rparr>"
  obtain f where f: "findCustomJsonDeserializer (jp_registry jp) (msg_type c) = Some f"
    "f (default_message sc (msg_type c)) j = (True, c)" and "json_plain_value j"
    using custom unfolding json_custom_reads_def by blast
  then have "json_deserializeMessageField jp ?reader (default_message sc (msg_type c)) (?D\<lparr>jr_cachedValue := w\<rparr>) =
      Ret (True, c, ?D\<lparr>jr_cachedValue := w\<rparr>)"
    by (auto simp: json_deserializeMessageField_def json_scalarValue_def json_plain_value_def)
  from deser [OF _ this] next_index(2) [OF d _ cls(1,2) step]
  show "\<exists>st w. (\<forall>m0. msg_type m0 = t \<longrightarrow> json_nextFieldIndex jp sc m0 d = Ret (int i, d\<lparr>jr_state := st\<rparr>)) \<and>
      json_deserialize_field ?reader jp sc (int i) m
        (d\<lparr>jr_state := st, jr_cachedValue := v, jr_cachedIndex := int i\<rparr>) =
      Ret (JContinue m2 (d\<lparr>jr_state := outer @ [jstate o2 i2 w], jr_cachedValue := v2, jr_cachedIndex := int i\<rparr>))"
    by (intro exI [of _ ?st] exI [of _ j]) simp
qed (rule m2)

lemma round_nested:
  assumes cls: "0 < f_count sc t" "i < f_count sc t"
    and push: "\<And>oc. j = J_Object oc \<Longrightarrow>
      json_field_step jp (f_ordering sc t) (jstate o' i J_Null) = Push_field (int i) (jstate o2 i2 J_Null) oc"
    and take: "json_plain_value j \<Longrightarrow>
      json_field_step jp (f_ordering sc t) (jstate o' i J_Null) = Take_field (int i) (jstate o2 i2 j)"
    and nested: "json_nested_reads jp sc c j need" and m2: "msg_type m2 = msg_type m"
    and deser: "\<And>reader d d'. jr_cachedValue d = v \<Longrightarrow>
      json_deserializeMessageField jp reader (default_message sc (msg_type c)) (d\<lparr>jr_cachedValue := w\<rparr>) =
        Ret (True, c, d'\<lparr>jr_cachedValue := w\<rparr>) \<Longrightarrow>
      json_deserialize_field reader jp sc (int i) m d = Ret (JContinue m2 (d'\<lparr>jr_cachedValue := v2\<rparr>))"
  shows "json_round jp sc t i need o' m v o2 i2 m2 v2"
  using nested unfolding json_nested_reads_def
proof (elim disjE exE conjE)
  fix oc assume "j = J_Object oc" "json_child_reads jp sc c oc need"
  then show ?thesis by (intro round_push [OF cls push _ m2 deser])
next
  assume c: "json_custom_reads jp sc c j"
  then have "json_plain_value j" by (simp add: json_custom_reads_def)
  from json_round_mono [OF round_custom [OF cls take [OF this] c m2 deser]] show ?thesis by simp
qed

lemma round_message:
  assumes cls: "json_class_ok jp sc t" "keys_known jp sc t o'" "i < f_count sc t" and m: "msg_type m = t"
    and v: "map_of o' (field_name jp sc t i) = Some j" and k: "message_kind (f_kind sc t i)"
    and child: "json_nested_reads jp sc c j need"
    and dflt: "pointee (get_slot m (f_slot sc t i)) = Some (default_message sc (msg_type c))"
  shows "json_round jp sc t i need o' m (Ptr u) o' (Suc i)
    (set_slot (f_slot sc t i) (update_pointee c (get_slot m (f_slot sc t i))) m) (Ptr u)"
proof (rule round_nested [OF _ cls(3) step_push(1) [OF cls] step_take_nested(1) [OF cls] child, where w = "Ptr u"])
  fix reader :: json_message_reader and d d' :: json_reader
  assume v: "jr_cachedValue d = Ptr u"
    and r: "json_deserializeMessageField jp reader (default_message sc (msg_type c)) (d\<lparr>jr_cachedValue := Ptr u\<rparr>) =
      Ret (True, c, d'\<lparr>jr_cachedValue := Ptr u\<rparr>)"
  have t: "t < length sc" using cls(1) by (simp add: json_class_ok_def class_ok_def)
  from v have "d\<lparr>jr_cachedValue := Ptr u\<rparr> = d" by (cases d) simp
  with r v show "json_deserialize_field reader jp sc (int i) m d =
      Ret (JContinue (set_slot (f_slot sc t i) (update_pointee c (get_slot m (f_slot sc t i))) m)
        (d'\<lparr>jr_cachedValue := Ptr u\<rparr>))"
    by (simp add: json_deserialize_field_def mk_field_info_eq [OF m]
        field_pointee_slot [OF class_field_ok [OF cls(1,3)] t m] dflt)
qed (use cls v k in \<open>simp_all add: json_class_ok_def\<close>)

text \<open>One element of a list of messages, and one entry of a map.\<close>

lemma round_element:
  assumes cls: "json_class_ok jp sc t" "keys_known jp sc t o'" "i < f_count sc t" and m: "msg_type m = t"
    and v: "map_of o' (field_name jp sc t i) = Some (J_Array (j # vs))" and k: "f_kind sc t i = PK_messages u"
    and child: "json_nested_reads jp sc c j need" and u: "msg_type c = u"
  shows "json_round jp sc t i need o' m (Msgs u cs)
    (obj_put (field_name jp sc t i) (J_Array vs) o') i m (Msgs u (cs @ [c]))"
proof (rule round_nested [OF _ cls(3) step_push(2) [OF cls] step_take_nested(2) [OF cls _ v k] child, where w = "Msgs u (cs @ [default_message sc u])"])
  fix reader :: json_message_reader and d d' :: json_reader
  assume "jr_cachedValue d = Msgs u cs"
    and "json_deserializeMessageField jp reader (default_message sc (msg_type c))
        (d\<lparr>jr_cachedValue := Msgs u (cs @ [default_message sc u])\<rparr>) =
      Ret (True, c, d'\<lparr>jr_cachedValue := Msgs u (cs @ [default_message sc u])\<rparr>)"
  then show "json_deserialize_field reader jp sc (int i) m d =
      Ret (JContinue m (d'\<lparr>jr_cachedValue := Msgs u (cs @ [c])\<rparr>))"
    using k u by (simp add: json_deserialize_field_def mk_field_info_eq [OF m]
        field_flags_test(7) [OF class_field_ok [OF cls(1,3)]])
qed (use cls v k in \<open>simp_all add: json_class_ok_def\<close>)

lemma round_entry:
  assumes cls: "json_class_ok jp sc t" "keys_known jp sc t o'" "i < f_count sc t" and m: "msg_type m = t"
    and v: "map_of o' (field_name jp sc t i) = Some (J_Object ((k, x) # kvs))" "x \<noteq> J_Undefined"
    and kind: "f_kind sc t i = PK_map u"
    and child: "json_child_reads jp sc e [(key_name, J_String k), (value_name, x)] need"
    and u: "msg_type e = u" "entry_ensure_value sc e = e"
  shows "json_round jp sc t i need o' m (MapOf u es)
    (obj_put (field_name jp sc t i) (J_Object kvs) o') i m (MapOf u (emplace_entry e es))"
proof (rule round_push [OF _ cls(3) step_push(3) [OF cls v(1) kind v(2)] child, where w = "MapOf u es"])
  fix reader :: json_message_reader and d d' :: json_reader
  assume "jr_cachedValue d = MapOf u es"
    and "json_deserializeMessageField jp reader (default_message sc (msg_type e)) (d\<lparr>jr_cachedValue := MapOf u es\<rparr>) =
      Ret (True, e, d'\<lparr>jr_cachedValue := MapOf u es\<rparr>)"
  then show "json_deserialize_field reader jp sc (int i) m d =
      Ret (JContinue m (d'\<lparr>jr_cachedValue := MapOf u (emplace_entry e es)\<rparr>))"
    using kind u by (simp add: json_deserialize_field_def mk_field_info_eq [OF m]
        field_flags_test(7) [OF class_field_ok [OF cls(1,3)]])
qed (use cls in \<open>simp_all add: json_class_ok_def\<close>)

end
