(* ===== verification/JsonFields.thy ===== *)
theory JsonFields
  imports JsonRounds
begin

text \<open>
  Fields in JSON: the value of a field is read by its rounds into the cache, and committed to the
  member of the message that was written.
\<close>

text \<open>After the rounds the walk stands at the next field, or at a value that it skips.\<close>

definition json_passed :: "json_platform \<Rightarrow> schema \<Rightarrow> nat \<Rightarrow> nat \<Rightarrow> jobject \<Rightarrow> nat \<Rightarrow> bool" where
  "json_passed jp sc t i o' j \<longleftrightarrow>
     j = Suc i \<or> j = i \<and> json_field_step jp (f_ordering sc t) (jstate o' i J_Null) = Skip_field (jstate o' (Suc i) J_Null)"

definition same_others :: "qstring \<Rightarrow> jobject \<Rightarrow> jobject \<Rightarrow> bool" where
  "same_others k o1 o2 \<longleftrightarrow> fst ` set o2 = fst ` set o1 \<and> (\<forall>k'. k' \<noteq> k \<longrightarrow> map_of o2 k' = map_of o1 k')"

lemma same_others_refl [simp]: "same_others k o' o'"
  by (simp add: same_others_def)

lemma same_others_put: "map_of o' k = Some v \<Longrightarrow> same_others k o' (obj_put k w o')"
proof -
  assume "map_of o' k = Some v"
  then have "k \<in> fst ` set o'" by (metis map_of_eq_None_iff option.distinct(1))
  then show ?thesis by (simp add: same_others_def keys_obj_put map_of_obj_put insert_absorb)
qed

lemma same_others_trans: "same_others k o1 o2 \<Longrightarrow> same_others k o2 o3 \<Longrightarrow> same_others k o1 o3"
  by (simp add: same_others_def)

lemma same_others_known: "same_others k o1 o2 \<Longrightarrow> keys_known jp sc t o1 \<Longrightarrow> keys_known jp sc t o2"
  by (simp add: same_others_def keys_known_def)

definition json_field_reads ::
  "json_platform \<Rightarrow> schema \<Rightarrow> qmessage \<Rightarrow> nat \<Rightarrow> jobject \<Rightarrow> nat \<Rightarrow> member \<Rightarrow> bool" where
  "json_field_reads jp sc M i o' need x \<longleftrightarrow>
     (\<exists>c cs o2 j v m2 v3 m3. sum_list (map Suc (c # cs)) \<le> need \<and>
        messageProperty sc M (f_info sc (msg_type M) i) True = (v, m2) \<and> msg_type m2 = msg_type M \<and>
        json_rounds jp sc (msg_type M) i (c # cs) o' i m2 v o2 j m3 v3 \<and>
        json_passed jp sc (msg_type M) i o2 j \<and> same_others (m_name jp sc M i) o' o2 \<and> msg_type m3 = msg_type M \<and>
        setMessageProperty sc m3 (f_info sc (msg_type M) i) (convert_keys jp (f_info sc (msg_type M) i) v3) =
          (True, set_slot (f_slot sc (msg_type M) i) x M) \<and> \<not> isNull v3)"

lemma json_field_readsI:
  assumes "json_rounds jp sc (msg_type M) i cs o' i m2 v o2 j m3 v3" and "cs \<noteq> []"
    and "sum_list (map Suc cs) \<le> need"
    and "messageProperty sc M (f_info sc (msg_type M) i) True = (v, m2)" and "msg_type m2 = msg_type M"
    and "json_passed jp sc (msg_type M) i o2 j" and "same_others (m_name jp sc M i) o' o2"
    and "msg_type m3 = msg_type M" and "\<not> isNull v3"
    and "setMessageProperty sc m3 (f_info sc (msg_type M) i) (convert_keys jp (f_info sc (msg_type M) i) v3) =
      (True, set_slot (f_slot sc (msg_type M) i) x M)"
  shows "json_field_reads jp sc M i o' need x"
proof -
  obtain c cs' where "cs = c # cs'" using assms(2) by (cases cs) auto
  with assms show ?thesis unfolding json_field_reads_def by blast
qed

lemma first_round:
  "json_round jp sc t i c o' m v o1 j1 m1 v1 \<Longrightarrow> json_rounds jp sc t i cs o1 j1 m1 v1 o2 j2 m2 v2 \<Longrightarrow>
   json_rounds jp sc t i (c # cs) o' i m v o2 j2 m2 v2"
  unfolding json_rounds.simps by blast

lemma one_round:
  "json_round jp sc t i c o' m v o2 j m2 v2 \<Longrightarrow> json_rounds jp sc t i [c] o' i m v o2 j m2 v2"
  by simp

lemma json_passed_Suc [simp]: "json_passed jp sc t i o' (Suc i)"
  by (simp add: json_passed_def)

subsection \<open>Scalars and enumerators\<close>

text \<open>
  What the reader needs of a field that holds a JSON value: the class, the object with the value, and
  the default member that is filled.
\<close>

definition json_open :: "json_platform \<Rightarrow> schema \<Rightarrow> qmessage \<Rightarrow> nat \<Rightarrow> jobject \<Rightarrow> json \<Rightarrow> bool" where
  "json_open jp sc M i o' j \<longleftrightarrow>
     json_class_ok jp sc (msg_type M) \<and> keys_known jp sc (msg_type M) o' \<and> i < f_count sc (msg_type M) \<and>
     map_of o' (m_name jp sc M i) = Some j \<and> fits sc M i \<and> m_member sc M i = default_member (m_kind sc M i)"

lemma json_openD:
  assumes "json_open jp sc M i o' j"
  shows "json_class_ok jp sc (msg_type M)" "keys_known jp sc (msg_type M) o'" "i < f_count sc (msg_type M)"
    "map_of o' (m_name jp sc M i) = Some j" "fits sc M i" "m_member sc M i = default_member (m_kind sc M i)"
  using assms by (simp_all add: json_open_def)

lemma convert_keys_plain:
  "\<not> enum_kind (f_kind sc t i) \<Longrightarrow> field_ok sc t i \<Longrightarrow> convert_keys jp (f_info sc t i) v = v"
  by (simp add: convert_keys_def field_flags_test(3))

lemma json_reads_single:
  assumes o: "json_open jp sc M i o' j" and j: "j \<noteq> J_Null" and k: "\<not> enum_kind (m_kind sc M i)"
    and x: "single_value (m_kind sc M i) forced x = Some v"
    and read: "json_deserialize jp (scalar_type_of v) j = (v, True)"
  shows "json_field_reads jp sc M i o' 1 x"
proof -
  note cls = json_openD(1-3) [OF o] and fits = json_openD(5) [OF o] and dflt = json_openD(6) [OF o]
  note ok = fits_ok [OF fits]
  note unfolds = open_plain [OF fits dflt] commit_field [OF fits] dflt read_member_def
    write_member_def convert_for_def get_optional_def get_oneof_def new_oneof_def convert_keys_plain [OF k ok]
  have num: "oneof_number (m_kind sc M i) = Some n \<Longrightarrow> n \<noteq> 0" for n
    using field_okD(1) [OF ok] field_okD(6) [OF ok] by fastforce
  have round: "json_round jp sc (msg_type M) i 0 o' M (Scalar (default_scalar (scalar_type_of v))) o' (Suc i) M (Scalar v)"
    if "\<not> message_kind (m_kind sc M i)" "\<not> messages_kind (m_kind sc M i)"
    using that k read by (intro round_scalar [OF cls refl json_openD(4) [OF o] j]) simp_all
  from x show ?thesis
  proof (cases rule: single_valueE)
    case (scalar t)
    then show ?thesis
      by (intro json_field_readsI [OF one_round [OF round]])
        (use set_floating_default [of v] in \<open>auto simp: unfolds set_plain_default\<close>)
  next
    case (optional t)
    then show ?thesis
      by (intro json_field_readsI [OF one_round [OF round]]) (auto simp: unfolds set_optional_def has_optional_def)
  next
    case (oneof t n)
    with num show ?thesis
      by (intro json_field_readsI [OF one_round [OF round]]) (auto simp: unfolds set_oneof_def)
  qed (use k in simp_all)
qed

lemma json_reads_enum:
  assumes o: "json_open jp sc M i o' (J_String s)" and k: "enum_kind (m_kind sc M i)"
    and x: "single_value (m_kind sc M i) forced x = Some (enum_int64 e)"
    and key: "jp_enumValue jp (f_info sc (msg_type M) i) s = Some e"
  shows "json_field_reads jp sc M i o' 1 x"
proof -
  note cls = json_openD(1-3) [OF o] and fits = json_openD(5) [OF o] and dflt = json_openD(6) [OF o]
  note ok = fits_ok [OF fits]
  have conv: "convert_keys jp (f_info sc (msg_type M) i) (Scalar (V_QString s)) = Enum e"
    using k key field_flags_test(3) [OF ok] by (simp add: convert_keys_def)
  note unfolds = open_plain [OF fits dflt] commit_field [OF fits] dflt read_member_def
    write_member_def convert_for_def get_optional_def get_oneof_def new_oneof_def conv
  have num: "oneof_number (m_kind sc M i) = Some n \<Longrightarrow> n \<noteq> 0" for n
    using field_okD(1) [OF ok] field_okD(6) [OF ok] by fastforce
  have inj: "enum_int64 e = enum_int64 e' \<Longrightarrow> e' = e" for e' by (metis enum_of_enum)
  have round: "json_round jp sc (msg_type M) i 0 o' M (Enum 0) o' (Suc i) M (Scalar (V_QString s))"
    if "\<not> repeated_kind (m_kind sc M i)"
    using that k by (intro round_enum [OF cls refl json_openD(4) [OF o]]) simp_all
  from x show ?thesis
  proof (cases rule: single_valueE)
    case (enum e')
    then show ?thesis
      by (intro json_field_readsI [OF one_round [OF round]])
        (use inj in \<open>auto simp: unfolds set_plain_def variant_eq_def\<close>)
  next
    case (optional_enum e')
    then show ?thesis
      by (intro json_field_readsI [OF one_round [OF round]])
        (use inj in \<open>auto simp: unfolds set_optional_def has_optional_def\<close>)
  next
    case (oneof_enum n e')
    with num show ?thesis
      by (intro json_field_readsI [OF one_round [OF round]]) (use inj in \<open>auto simp: unfolds set_oneof_def\<close>)
  qed (use k in simp_all)
qed

lemma json_reads_list:
  assumes o: "json_open jp sc M i o' (json_serializeList jp xs)" and k: "m_kind sc M i = PK_scalars t"
    and xs: "xs \<noteq> []" "\<forall>x \<in> set xs. scalar_type_of x = t \<and> json_scalar_ok jp x"
  shows "json_field_reads jp sc M i o' 1 (M_plain (Scalars t xs))"
proof -
  note cls = json_openD(1-3) [OF o] and fits = json_openD(5) [OF o] and dflt = json_openD(6) [OF o]
  have "json_round jp sc (msg_type M) i 0 o' M (Scalars t []) o' (Suc i) M (Scalars t xs)"
    using json_list_read [OF xs(2)] xs(1)
    by (intro round_list [OF cls refl json_openD(4) [OF o] _ k]) (simp_all add: json_serializeList_def)
  from one_round [OF this] show ?thesis
    by (rule json_field_readsI)
      (use k xs(1) convert_keys_plain [OF _ fits_ok [OF fits]]
        in \<open>auto simp: open_plain [OF fits dflt] commit_field [OF fits] dflt read_member_def write_member_def
          convert_for_def set_plain_def variant_eq_def\<close>)
qed

lemma json_reads_enums:
  assumes o: "json_open jp sc M i o' (json_serializeList jp (map (json_key jp (f_info sc (msg_type M) i)) es))"
    and k: "m_kind sc M i = PK_enums"
    and es: "es \<noteq> []" "\<forall>e \<in> set es. json_enumerator jp (f_info sc (msg_type M) i) e"
  shows "json_field_reads jp sc M i o' 1 (M_plain (Enums es))"
proof -
  note cls = json_openD(1-3) [OF o] and fits = json_openD(5) [OF o] and dflt = json_openD(6) [OF o]
  let ?xs = "map (json_key jp (f_info sc (msg_type M) i)) es"
  have "\<forall>x \<in> set ?xs. scalar_type_of x = T_QString \<and> json_scalar_ok jp x" by (simp add: json_key_def)
  from json_list_read [OF this, of False] es(1)
  have "json_round jp sc (msg_type M) i 0 o' M (Enums []) o' (Suc i) M (Scalars T_QString ?xs)"
    by (intro round_enums [OF cls refl json_openD(4) [OF o] _ k]) (simp_all add: json_serializeList_def)
  note rounds = one_round [OF this]
  have vals: "map (\<lambda>v. case v of V_QString s \<Rightarrow> jp_enumValue jp (f_info sc (msg_type M) i) s | _ \<Rightarrow> None) ?xs = map Some es"
    using es(2) by (auto simp: json_key_def json_enumerator_def)
  have "keys_to_enums jp (f_info sc (msg_type M) i) ?xs = Some es"
    unfolding keys_to_enums_def vals by (simp add: comp_def)
  then have conv: "convert_keys jp (f_info sc (msg_type M) i) (Scalars T_QString ?xs) = Enums es"
    using k field_flags_test(3) [OF fits_ok [OF fits]] by (simp add: convert_keys_def)
  from rounds show ?thesis
    by (rule json_field_readsI)
      (use k es(1) conv in \<open>auto simp: open_plain [OF fits dflt] commit_field [OF fits] dflt read_member_def
          write_member_def convert_for_def set_plain_def variant_eq_def\<close>)
qed

subsection \<open>Messages\<close>

lemma json_reads_message:
  assumes o: "json_open jp sc M i o' j" and c: "message_value (m_kind sc M i) x = Some c"
    and child: "json_nested_reads jp sc c j need"
  shows "json_field_reads jp sc M i o' (Suc need) x"
proof -
  note cls = json_openD(1-3) [OF o] and fits = json_openD(5) [OF o] and dflt = json_openD(6) [OF o]
  note ok = fits_ok [OF fits] and slot = fits_facts(3) [OF fits]
  let ?s = "f_slot sc (msg_type M) i"
  have ne: "\<not> enum_kind (m_kind sc M i)" and mk: "message_kind (m_kind sc M i)"
    using c by (auto elim: message_valueE)
  note conv = convert_keys_plain [OF ne ok]
  have round: "json_round jp sc (msg_type M) i need o' m (Ptr u) o' (Suc i)
      (set_slot ?s (update_pointee c (get_slot m ?s)) m) (Ptr u)"
    if "msg_type m = msg_type M" "pointee (get_slot m ?s) = Some (default_message sc (msg_type c))" for m u
    by (rule round_message [OF cls that(1) json_openD(4) [OF o] mk child that(2)])
  from c show ?thesis
  proof (cases rule: message_valueE)
    case message
    let ?m2 = "set_slot ?s (M_message (msg_type c) (Some (default_message sc (msg_type c)))) M"
    from round [of ?m2 "msg_type c"] message slot
    have r: "json_round jp sc (msg_type M) i need o' ?m2 (Ptr (msg_type c)) o' (Suc i) (set_slot ?s x M) (Ptr (msg_type c))"
      by simp
    have "setMessageProperty sc (set_slot ?s x M) (f_info sc (msg_type M) i) (Ptr (msg_type c)) = (True, set_slot ?s x M)"
      using message slot commit_field [OF fits_set_slot [OF fits], of ?s x "Ptr (msg_type c)"]
      by (simp add: write_member_def convert_for_def set_message_ptr_def)
    with message show ?thesis
      by (intro json_field_readsI [OF one_round [OF r]])
        (auto simp: open_field [OF fits] dflt read_member_def get_message_def conv)
  next
    case (oneof n)
    have num: "n \<noteq> 0" using field_okD(1,6) [OF ok] oneof(1) by force
    let ?m2 = "set_slot ?s (M_oneof (Msg (default_message sc (msg_type c))) 0) M"
    let ?m3 = "set_slot ?s (M_oneof (Msg c) 0) M"
    from round [of ?m2 "msg_type c"] oneof slot
    have r: "json_round jp sc (msg_type M) i need o' ?m2 (Ptr (msg_type c)) o' (Suc i) ?m3 (Ptr (msg_type c))"
      by simp
    have "setMessageProperty sc ?m3 (f_info sc (msg_type M) i) (Ptr (msg_type c)) = (True, set_slot ?s x M)"
      using oneof slot num commit_field [OF fits_set_slot [OF fits], of ?s "M_oneof (Msg c) 0" "Ptr (msg_type c)"]
      by (simp add: write_member_def convert_for_def set_oneof_message_ptr_def set_oneof_def)
    with oneof show ?thesis
      by (intro json_field_readsI [OF one_round [OF r]])
        (auto simp: open_field [OF fits] dflt read_member_def get_oneof_message_def new_oneof_def conv)
  qed
qed

text \<open>The elements of a list are taken one by one from the array, the entries of a map from the object.\<close>

lemma rounds_elements:
  assumes cls: "json_class_ok jp sc t" "i < f_count sc t" and m: "msg_type m = t" and k: "f_kind sc t i = PK_messages u"
    and cs: "list_all2 (\<lambda>c j. json_nested_reads jp sc c j (need j)) cs js"
  shows "keys_known jp sc t o' \<Longrightarrow> map_of o' (field_name jp sc t i) = Some (J_Array js) \<Longrightarrow>
    \<forall>c \<in> set cs. msg_type c = u \<Longrightarrow>
    \<exists>o2. json_rounds jp sc t i (map need js) o' i m (Msgs u ds) o2 i m (Msgs u (ds @ cs)) \<and>
      same_others (field_name jp sc t i) o' o2 \<and> map_of o2 (field_name jp sc t i) = Some (J_Array [])"
  using cs
proof (induction cs js arbitrary: o' ds rule: list_all2_induct)
  case (Cons c cs j js)
  let ?k = "field_name jp sc t i" and ?o1 = "obj_put (field_name jp sc t i) (J_Array js) o'"
  have same: "same_others ?k o' ?o1" using Cons.prems(2) by (rule same_others_put)
  have round: "json_round jp sc t i (need j) o' m (Msgs u ds) ?o1 i m (Msgs u (ds @ [c]))"
    using Cons by (intro round_element [OF cls(1) _ cls(2) m _ k]) simp_all
  obtain o2 where o2: "json_rounds jp sc t i (map need js) ?o1 i m (Msgs u (ds @ [c])) o2 i m (Msgs u (ds @ c # cs))"
    "same_others ?k ?o1 o2" "map_of o2 ?k = Some (J_Array [])"
    using Cons.IH [of ?o1 "ds @ [c]"] Cons.prems same_others_known [OF same] by (auto simp: map_of_obj_put)
  from first_round [OF round o2(1)] same_others_trans [OF same o2(2)] o2(3) show ?case
    unfolding list.map by blast
qed (auto intro: exI [of _ o'])

lemma rounds_entries:
  assumes cls: "json_class_ok jp sc t" "i < f_count sc t" and m: "msg_type m = t" and k: "f_kind sc t i = PK_map u"
    and es: "list_all2 (\<lambda>e kv. json_child_reads jp sc e [(key_name, J_String (fst kv)), (value_name, snd kv)] (need kv) \<and>
      snd kv \<noteq> J_Undefined) es kvs"
  shows "keys_known jp sc t o' \<Longrightarrow> map_of o' (field_name jp sc t i) = Some (J_Object kvs) \<Longrightarrow>
    \<forall>e \<in> set es. msg_type e = u \<and> entry_ok e \<Longrightarrow> distinct (map entry_key (ds @ es)) \<Longrightarrow>
    \<exists>o2. json_rounds jp sc t i (map need kvs) o' i m (MapOf u ds) o2 i m (MapOf u (ds @ es)) \<and>
      same_others (field_name jp sc t i) o' o2 \<and> map_of o2 (field_name jp sc t i) = Some (J_Object [])"
  using es
proof (induction es kvs arbitrary: o' ds rule: list_all2_induct)
  case (Cons e es kv kvs)
  let ?k = "field_name jp sc t i" and ?o1 = "obj_put (field_name jp sc t i) (J_Object kvs) o'"
  obtain k v where kv: "kv = (k, v)" by (cases kv)
  have same: "same_others ?k o' ?o1" using Cons.prems(2) by (rule same_others_put)
  have new: "emplace_entry e ds = ds @ [e]" using Cons.prems(4) by (intro emplace_new) auto
  have round: "json_round jp sc t i (need kv) o' m (MapOf u ds) ?o1 i m (MapOf u (emplace_entry e ds))"
    using Cons kv by (intro round_entry [OF cls(1) _ cls(2) m, where k = k and x = v]) (auto simp: entry_ok_ensure k)
  obtain o2 where o2: "json_rounds jp sc t i (map need kvs) ?o1 i m (MapOf u (ds @ [e])) o2 i m (MapOf u (ds @ e # es))"
    "same_others ?k ?o1 o2" "map_of o2 ?k = Some (J_Object [])"
    using Cons.IH [of ?o1 "ds @ [e]"] Cons.prems same_others_known [OF same] by (auto simp: map_of_obj_put)
  from first_round [OF round, unfolded new, OF o2(1)] same_others_trans [OF same o2(2)] o2(3) show ?case
    unfolding list.map by blast
qed (auto intro: exI [of _ o'])

end
