(* ===== verification/JsonMessages.thy ===== *)
theory JsonMessages
  imports JsonFields
begin

text \<open>
  Whole messages in JSON: the loop over the fields, and by induction over the specification that the
  deserializer reads back the message that the object stands for.
\<close>

lemma json_reads_messages:
  assumes o: "json_open jp sc M i o' (J_Array js)" and k: "m_kind sc M i = PK_messages t"
    and cs: "messages_value (m_kind sc M i) x = Some cs" "cs \<noteq> []"
    and children: "list_all2 (\<lambda>c j. json_nested_reads jp sc c j (need j)) cs js"
  shows "json_field_reads jp sc M i o' (sum_list (map (\<lambda>j. Suc (need j)) js)) x"
proof -
  note cls = json_openD(1-3) [OF o] and fits = json_openD(5) [OF o] and dflt = json_openD(6) [OF o]
  have x: "x = M_plain (Msgs t cs)" "\<forall>c \<in> set cs. msg_type c = t"
    using cs(1) k by (auto elim!: messages_valueE)
  obtain o2 where o2: "json_rounds jp sc (msg_type M) i (map need js) o' i M (Msgs t []) o2 i M (Msgs t cs)"
    "same_others (m_name jp sc M i) o' o2" "map_of o2 (m_name jp sc M i) = Some (J_Array [])"
    using rounds_elements [OF cls(1,3) refl k children cls(2) json_openD(4) [OF o] x(2), of "[]"] by auto
  have passed: "json_passed jp sc (msg_type M) i o2 i"
    using step_skip(2) [OF cls(1) same_others_known [OF o2(2) cls(2)] cls(3) o2(3) k] by (simp add: json_passed_def)
  have "js \<noteq> []" using children cs(2) by auto
  then show ?thesis
    by (intro json_field_readsI [OF o2(1) _ _ _ _ passed o2(2)])
      (use k cs(2) x convert_keys_plain [OF _ fits_ok [OF fits]]
        in \<open>auto simp: open_plain [OF fits dflt] commit_field [OF fits] dflt read_member_def write_member_def
          convert_for_def set_plain_def variant_eq_def comp_def\<close>)
qed

lemma json_reads_map:
  assumes o: "json_open jp sc M i o' (J_Object kvs)" and k: "m_kind sc M i = PK_map t"
    and es: "messages_value (m_kind sc M i) x = Some es" "es \<noteq> []"
    and entries: "list_all2 (\<lambda>e kv. json_child_reads jp sc e [(key_name, J_String (fst kv)), (value_name, snd kv)] (need kv) \<and>
      snd kv \<noteq> J_Undefined) es kvs"
  shows "json_field_reads jp sc M i o' (sum_list (map (\<lambda>kv. Suc (need kv)) kvs)) x"
proof -
  note cls = json_openD(1-3) [OF o] and fits = json_openD(5) [OF o] and dflt = json_openD(6) [OF o]
  have x: "x = M_plain (MapOf t es)" "\<forall>e \<in> set es. msg_type e = t \<and> entry_ok e" "distinct (map entry_key ([] @ es))"
    using es(1) k by (auto elim!: messages_valueE)
  obtain o2 where o2: "json_rounds jp sc (msg_type M) i (map need kvs) o' i M (MapOf t []) o2 i M (MapOf t es)"
    "same_others (m_name jp sc M i) o' o2" "map_of o2 (m_name jp sc M i) = Some (J_Object [])"
    using rounds_entries [OF cls(1,3) refl k entries cls(2) json_openD(4) [OF o] x(2,3)] by auto
  have passed: "json_passed jp sc (msg_type M) i o2 i"
    using step_skip(3) [OF cls(1) same_others_known [OF o2(2) cls(2)] cls(3) o2(3) k] by (simp add: json_passed_def)
  have "kvs \<noteq> []" using entries es(2) by auto
  then show ?thesis
    by (intro json_field_readsI [OF o2(1) _ _ _ _ passed o2(2)])
      (use k es(2) x convert_keys_plain [OF _ fits_ok [OF fits]]
        in \<open>auto simp: open_plain [OF fits dflt] commit_field [OF fits] dflt read_member_def write_member_def
          convert_for_def set_plain_def variant_eq_def comp_def\<close>)
qed

subsection \<open>The loop\<close>

definition json_commits :: "json_platform \<Rightarrow> schema \<Rightarrow> qmessage \<Rightarrow> json_reader \<Rightarrow> qmessage \<Rightarrow> bool" where
  "json_commits jp sc m d M \<longleftrightarrow>
     (\<forall>d'. jr_cachedIndex d' = jr_cachedIndex d \<longrightarrow> jr_cachedValue d' = jr_cachedValue d \<longrightarrow>
        json_storeCachedValue jp sc m d' = (True, M, json_clearCachedValue d'))"

lemma json_round_step:
  assumes r: "json_round jp sc t i c o' m2 v o2 j2 m3 v3" and d: "reading d outer o' i"
    and m: "msg_type m = t" "msg_type m2 = t" and n: "Suc c \<le> n"
    and cache: "\<And>st. json_cache_field jp sc (int i) m (d\<lparr>jr_state := st\<rparr>) =
      (True, m2, d\<lparr>jr_state := st, jr_cachedValue := v, jr_cachedIndex := int i\<rparr>)"
  shows "\<exists>w. json_deserializeMessage n jp sc m d =
    json_deserializeMessage (n - 1) jp sc m3
      (d\<lparr>jr_state := outer @ [jstate o2 j2 w], jr_cachedValue := v3, jr_cachedIndex := int i\<rparr>)"
proof -
  obtain n1 where n1: "n = Suc n1" "c \<le> n1" using n by (cases n) auto
  obtain st w where next1: "json_nextFieldIndex jp sc m d = Ret (int i, d\<lparr>jr_state := st\<rparr>)"
    and field: "json_deserialize_field (json_deserializeMessage n1 jp sc) jp sc (int i) m2
        (d\<lparr>jr_state := st, jr_cachedValue := v, jr_cachedIndex := int i\<rparr>) =
      Ret (JContinue m3 (d\<lparr>jr_state := outer @ [jstate o2 j2 w], jr_cachedValue := v3, jr_cachedIndex := int i\<rparr>))"
    using r d n1(2) m(1) unfolding json_round_def by blast
  have "json_deserializeMessage n jp sc m d = json_deserializeMessage n1 jp sc m3
      (d\<lparr>jr_state := outer @ [jstate o2 j2 w], jr_cachedValue := v3, jr_cachedIndex := int i\<rparr>)"
    by (simp add: n1(1) next1 cache field)
  then show ?thesis unfolding n1(1) by auto
qed

lemma reading_state: "reading d outer o' i \<Longrightarrow> reading (d\<lparr>jr_state := outer @ [jstate o2 j w], jr_cachedValue := v, jr_cachedIndex := k\<rparr>) outer o2 j"
  by (auto simp: reading_def)

lemma run_json_rounds:
  "json_rounds jp sc t i cs o' j m v o2 j2 m2 v2 \<Longrightarrow> reading d outer o' j \<Longrightarrow>
   jr_cachedIndex d = int i \<Longrightarrow> jr_cachedValue d = v \<Longrightarrow> msg_type m = t \<Longrightarrow> sum_list (map Suc cs) \<le> n \<Longrightarrow>
   \<exists>w n'. n \<le> n' + sum_list (map Suc cs) \<and> msg_type m2 = t \<and> json_deserializeMessage n jp sc m d =
     json_deserializeMessage n' jp sc m2
       (d\<lparr>jr_state := outer @ [jstate o2 j2 w], jr_cachedValue := v2, jr_cachedIndex := int i\<rparr>)"
proof (induction cs arbitrary: o' j m v d n)
  case Nil
  from Nil.prems(2) obtain w where "jr_state d = outer @ [jstate o2 j2 w]" using Nil.prems(1) by (auto simp: reading_def)
  then have "d\<lparr>jr_state := outer @ [jstate o2 j2 w], jr_cachedValue := v2, jr_cachedIndex := int i\<rparr> = d"
    using Nil.prems(1,3,4) by (cases d) simp
  then show ?case using Nil.prems(1,5) by (intro exI [of _ w] exI [of _ n]) simp
next
  case (Cons c cs)
  from Cons.prems(1) obtain o1 j1 m1 v1 where j: "j = i" and r: "json_round jp sc t i c o' m v o1 j1 m1 v1"
    and rs: "json_rounds jp sc t i cs o1 j1 m1 v1 o2 j2 m2 v2" by auto
  have type: "msg_type m1 = t" using r Cons.prems(5) by (simp add: json_round_def)
  have cache: "json_cache_field jp sc (int i) m (d\<lparr>jr_state := st\<rparr>) =
      (True, m, d\<lparr>jr_state := st, jr_cachedValue := v, jr_cachedIndex := int i\<rparr>)" for st
    using Cons.prems(3,4) by (cases d) (simp add: json_cache_field_def)
  obtain w where step: "json_deserializeMessage n jp sc m d = json_deserializeMessage (n - 1) jp sc m1
      (d\<lparr>jr_state := outer @ [jstate o1 j1 w], jr_cachedValue := v1, jr_cachedIndex := int i\<rparr>)"
    using json_round_step [OF r Cons.prems(2) [unfolded j] Cons.prems(5) Cons.prems(5) _ cache, of n] Cons.prems(6) by auto
  let ?d = "d\<lparr>jr_state := outer @ [jstate o1 j1 w], jr_cachedValue := v1, jr_cachedIndex := int i\<rparr>"
  have fuel: "sum_list (map Suc cs) \<le> n - 1" using Cons.prems(6) by simp
  obtain w' n' where "n - 1 \<le> n' + sum_list (map Suc cs)" "msg_type m2 = t"
    "json_deserializeMessage (n - 1) jp sc m1 ?d = json_deserializeMessage n' jp sc m2
      (?d\<lparr>jr_state := outer @ [jstate o2 j2 w'], jr_cachedValue := v2, jr_cachedIndex := int i\<rparr>)"
    using Cons.IH [OF rs reading_state [OF Cons.prems(2), of "int i" v1 o1 j1 w] _ _ type fuel] by auto
  with step Cons.prems(6) show ?case by (intro exI [of _ w'] exI [of _ n']) auto
qed

text \<open>What the induction carries for a field: every message with the default member can be filled.\<close>

definition json_transfers :: "json_platform \<Rightarrow> schema \<Rightarrow> qmessage \<Rightarrow> nat \<Rightarrow> json \<Rightarrow> nat \<Rightarrow> bool" where
  "json_transfers jp sc m i v need \<longleftrightarrow>
     (\<forall>M o'. msg_type M = msg_type m \<longrightarrow> json_open jp sc M i o' v \<longrightarrow>
        json_field_reads jp sc M i o' need (m_member sc m i))"

definition json_upto :: "schema \<Rightarrow> qmessage \<Rightarrow> (nat \<Rightarrow> json option) \<Rightarrow> nat \<Rightarrow> qmessage" where
  "json_upto sc m vs j = upto_field sc m (\<lambda>i. if vs i = None then [] else [0]) j"

definition json_held :: "schema \<Rightarrow> qmessage \<Rightarrow> (nat \<Rightarrow> json option) \<Rightarrow> bool" where
  "json_held sc m vs \<longleftrightarrow>
     (\<forall>i n. i < f_count sc (msg_type m) \<longrightarrow> vs i \<noteq> None \<longrightarrow> oneof_number (m_kind sc m i) = Some n \<longrightarrow>
        (\<exists>v. m_member sc m i = M_oneof v n))"

lemma json_upto_Suc:
  assumes "class_ok sc (msg_type m)" and "length (msg_members m) = length (mc_defaults (sc ! msg_type m))"
    and "json_held sc m vs" and "j < f_count sc (msg_type m)"
  shows "vs j = None \<Longrightarrow> json_upto sc m vs (Suc j) = json_upto sc m vs j"
    and "vs j = Some v \<Longrightarrow> json_upto sc m vs (Suc j) =
      set_slot (f_slot sc (msg_type m) j) (m_member sc m j) (json_upto sc m vs j)"
    and "vs j = Some v \<Longrightarrow> m_member sc (json_upto sc m vs j) j = default_member (m_kind sc m j)"
proof -
  have held: "\<forall>i n. i < f_count sc (msg_type m) \<longrightarrow> (if vs i = None then [] else [0 :: byte]) \<noteq> [] \<longrightarrow>
      oneof_number (m_kind sc m i) = Some n \<longrightarrow> (\<exists>v. m_member sc m i = M_oneof v n)"
    using assms(3) by (auto simp: json_held_def)
  note up = upto_field_Suc [OF assms(1,2) held assms(4)]
  show "vs j = None \<Longrightarrow> json_upto sc m vs (Suc j) = json_upto sc m vs j"
    and "vs j = Some v \<Longrightarrow> json_upto sc m vs (Suc j) =
      set_slot (f_slot sc (msg_type m) j) (m_member sc m j) (json_upto sc m vs j)"
    and "vs j = Some v \<Longrightarrow> m_member sc (json_upto sc m vs j) j = default_member (m_kind sc m j)"
    using up unfolding json_upto_def by simp_all
qed

lemma json_end:
  assumes d: "reading d outer o' (f_count sc (msg_type m))" and t: "0 < f_count sc (msg_type mc)"
    and m: "msg_type mc = msg_type m" and c: "json_commits jp sc mc d m" and n: "0 < n"
  shows "json_deserializeMessage n jp sc mc d =
    Ret (True, m, d\<lparr>jr_state := outer, jr_cachedValue := Invalid, jr_cachedIndex := -1\<rparr>)"
proof -
  obtain n1 where n1: "n = Suc n1" using n by (cases n) auto
  have "json_nextFieldIndex jp sc mc d = Ret (-1, d\<lparr>jr_state := outer\<rparr>)"
    using next_index(1) [OF d _ _ refl, of mc jp] t m by simp
  with c show ?thesis
    by (simp add: n1 json_commits_def json_finish_message_def json_clearCachedValue_def)
qed

lemma json_skip_field:
  assumes "reading d outer o' j" "msg_type mc = t" "0 < f_count sc t" "j < f_count sc t"
    and "json_field_step jp (f_ordering sc t) (jstate o' j J_Null) = Skip_field (jstate o' (Suc j) J_Null)"
  shows "json_nextFieldIndex jp sc mc d = json_nextFieldIndex jp sc mc (d\<lparr>jr_state := outer @ [jstate o' (Suc j) J_Null]\<rparr>)"
  using next_index(4) [OF assms(1-5)] .

text \<open>One field that is present, and the fields from the \<open>j\<close>-th on after the first \<open>j\<close> have been read.\<close>

lemma json_run_field:
  assumes cls: "0 < f_count sc t" "j < f_count sc t" and d: "reading d outer o' j" and type: "msg_type mc = t" "msg_type M = t"
    and commits: "json_commits jp sc mc d M" and idx: "jr_cachedIndex d < int j"
    and reads: "json_field_reads jp sc M j o' need x" and n: "need < n"
  shows "\<exists>n' m3 d2 o2. n \<le> n' + need \<and> json_deserializeMessage n jp sc mc d = json_deserializeMessage n' jp sc m3 d2 \<and>
    reading d2 outer o2 (Suc j) \<and> same_others (field_name jp sc t j) o' o2 \<and> msg_type m3 = t \<and>
    json_commits jp sc m3 d2 (set_slot (f_slot sc t j) x M) \<and> jr_cachedIndex d2 = int j \<and>
    d2\<lparr>jr_state := outer, jr_cachedValue := Invalid, jr_cachedIndex := -1\<rparr> =
      d\<lparr>jr_state := outer, jr_cachedValue := Invalid, jr_cachedIndex := -1\<rparr>"
proof -
  obtain c cs o2 i2 val m2 v3 m3 where need: "sum_list (map Suc (c # cs)) \<le> need"
    and opened: "messageProperty sc M (f_info sc t j) True = (val, m2)" "msg_type m2 = t"
    and rounds: "json_rounds jp sc t j (c # cs) o' j m2 val o2 i2 m3 v3"
    and passed: "json_passed jp sc t j o2 i2" and same: "same_others (field_name jp sc t j) o' o2"
    and stored: "msg_type m3 = t" "setMessageProperty sc m3 (f_info sc t j) (convert_keys jp (f_info sc t j) v3) =
      (True, set_slot (f_slot sc t j) x M)" "\<not> isNull v3"
    using reads unfolding json_field_reads_def type(2) by blast
  obtain o1 j1 m1 v1 where r: "json_round jp sc t j c o' m2 val o1 j1 m1 v1"
    and rs: "json_rounds jp sc t j cs o1 j1 m1 v1 o2 i2 m3 v3" using rounds by auto
  have cache: "json_cache_field jp sc (int j) mc (d\<lparr>jr_state := st\<rparr>) =
      (True, m2, d\<lparr>jr_state := st, jr_cachedValue := val, jr_cachedIndex := int j\<rparr>)" for st
    using commits idx opened mk_field_info_eq [OF type(2)]
    by (simp add: json_commits_def json_cache_field_def json_clearCachedValue_def)
  obtain w where step: "json_deserializeMessage n jp sc mc d = json_deserializeMessage (n - 1) jp sc m1
      (d\<lparr>jr_state := outer @ [jstate o1 j1 w], jr_cachedValue := v1, jr_cachedIndex := int j\<rparr>)"
    using json_round_step [OF r d type(1) opened(2) _ cache, of n] need n by auto
  have type1: "msg_type m1 = t" using r opened(2) by (simp add: json_round_def)
  let ?d1 = "d\<lparr>jr_state := outer @ [jstate o1 j1 w], jr_cachedValue := v1, jr_cachedIndex := int j\<rparr>"
  have fuel: "sum_list (map Suc cs) \<le> n - 1" using need n by simp
  obtain w' n' where n': "n - 1 \<le> n' + sum_list (map Suc cs)"
    and run: "json_deserializeMessage (n - 1) jp sc m1 ?d1 = json_deserializeMessage n' jp sc m3
      (?d1\<lparr>jr_state := outer @ [jstate o2 i2 w'], jr_cachedValue := v3, jr_cachedIndex := int j\<rparr>)"
    using run_json_rounds [OF rs reading_state [OF d, of "int j" v1 o1 j1 w] _ _ type1 fuel] by auto
  let ?d2 = "d\<lparr>jr_state := outer @ [jstate o2 i2 w'], jr_cachedValue := v3, jr_cachedIndex := int j\<rparr>"
  have commits2: "json_commits jp sc m3 (?d2\<lparr>jr_state := st\<rparr>) (set_slot (f_slot sc t j) x M)" for st
    using stored by (simp add: json_commits_def json_storeCachedValue_def mk_field_info_eq [OF stored(1)])
  obtain n2 where n2: "n' = Suc n2" using n' need n by (cases n') auto
  have "\<exists>w. json_deserializeMessage n' jp sc m3 ?d2 =
      json_deserializeMessage n' jp sc m3 (?d2\<lparr>jr_state := outer @ [jstate o2 (Suc j) w]\<rparr>)"
    using passed unfolding json_passed_def
  proof (elim disjE conjE)
    assume "i2 = Suc j"
    then show ?thesis by (intro exI [of _ w']) (cases d; simp)
  next
    assume i2: "i2 = j"
      and s: "json_field_step jp (f_ordering sc t) (jstate o2 j J_Null) = Skip_field (jstate o2 (Suc j) J_Null)"
    have "reading ?d2 outer o2 j" using d i2 by (auto simp: reading_def)
    from json_skip_field [OF this stored(1) cls s] show ?thesis
      by (intro exI [of _ J_Null]) (simp only: n2 json_deserializeMessage.simps)
  qed
  then obtain w2 where "json_deserializeMessage n' jp sc m3 ?d2 =
      json_deserializeMessage n' jp sc m3 (?d2\<lparr>jr_state := outer @ [jstate o2 (Suc j) w2]\<rparr>)" by blast
  then have "json_deserializeMessage n jp sc mc d =
      json_deserializeMessage n' jp sc m3 (?d2\<lparr>jr_state := outer @ [jstate o2 (Suc j) w2]\<rparr>)"
    using step run by simp
  then show ?thesis
    using n' need n d same stored(1) commits2
    by (intro exI [of _ n'] exI [of _ m3] exI [of _ "?d2\<lparr>jr_state := outer @ [jstate o2 (Suc j) w2]\<rparr>"] exI [of _ o2])
      (auto simp: reading_def)
qed

lemma json_fields_complete:
  assumes cls: "json_class_ok jp sc (msg_type m)" and size: "length (msg_members m) = length (mc_defaults (sc ! msg_type m))"
    and unknown: "unknownEntries m = []" and held: "json_held sc m vs"
    and fields: "\<forall>i < f_count sc (msg_type m). \<forall>v. vs i = Some v \<longrightarrow> json_transfers jp sc m i v (need i)"
    and dflts: "\<forall>s < length (msg_members m).
      (\<forall>i < f_count sc (msg_type m). f_slot sc (msg_type m) i = s \<longrightarrow> vs i = None) \<longrightarrow>
      msg_members m ! s = mc_defaults (sc ! msg_type m) ! s"
  shows "j \<le> f_count sc (msg_type m) \<Longrightarrow> reading d outer o' j \<Longrightarrow> keys_known jp sc (msg_type m) o' \<Longrightarrow>
    \<forall>i < f_count sc (msg_type m). j \<le> i \<longrightarrow> map_of o' (m_name jp sc m i) = vs i \<Longrightarrow>
    json_commits jp sc mc d (json_upto sc m vs j) \<Longrightarrow> msg_type mc = msg_type m \<Longrightarrow> jr_cachedIndex d < int j \<Longrightarrow>
    sum_list (map need [j..<f_count sc (msg_type m)]) < n \<Longrightarrow>
    json_deserializeMessage n jp sc mc d =
      Ret (True, m, d\<lparr>jr_state := outer, jr_cachedValue := Invalid, jr_cachedIndex := -1\<rparr>)"
proof (induction "f_count sc (msg_type m) - j" arbitrary: j d o' mc n)
  case 0
  then have j: "j = f_count sc (msg_type m)" by simp
  have e: "(if vs i = None then [] else [0 :: byte]) = [] \<longleftrightarrow> vs i = None" for i by simp
  have "json_upto sc m vs j = with_unknown [] m"
    unfolding j json_upto_def by (rule upto_field_count, unfold e) (rule dflts)
  then have "json_upto sc m vs j = m" using unknown with_unknown_simps(5) [of m] by simp
  with 0 j cls show ?case by (intro json_end) (auto simp: json_class_ok_def)
next
  case (Suc k)
  let ?t = "msg_type m" and ?c = "f_count sc (msg_type m)" and ?M = "json_upto sc m vs j"
  have j: "j < ?c" "k = ?c - Suc j" "Suc j \<le> ?c" using Suc.hyps(2) by simp_all
  have cls': "class_ok sc ?t" "0 < ?c" using cls by (simp_all add: json_class_ok_def)
  note up = json_upto_Suc [OF cls'(1) size held j(1)]
  have split: "[j..<?c] = j # [Suc j..<?c]" using j(1) by (simp add: upt_conv_Cons)
  show ?case
  proof (cases "vs j")
    case None
    let ?d = "d\<lparr>jr_state := outer @ [jstate o' (Suc j) J_Null]\<rparr>"
    have "map_of o' (field_name jp sc ?t j) = None" using None Suc.prems(4) j(1) by simp
    from step_skip(1) [OF cls Suc.prems(3) j(1) this]
    have skip: "json_nextFieldIndex jp sc mc d = json_nextFieldIndex jp sc mc ?d"
      by (rule json_skip_field [OF Suc.prems(2,6) cls'(2) j(1)])
    obtain n1 where n1: "n = Suc n1" using Suc.prems(8) by (cases n) auto
    have "json_deserializeMessage n jp sc mc d = json_deserializeMessage n jp sc mc ?d"
      unfolding n1 json_deserializeMessage.simps skip ..
    also have "\<dots> = Ret (True, m, ?d\<lparr>jr_state := outer, jr_cachedValue := Invalid, jr_cachedIndex := -1\<rparr>)"
    proof (rule Suc.hyps(1) [OF j(2,3) _ Suc.prems(3)])
      show "json_commits jp sc mc ?d (json_upto sc m vs (Suc j))"
        using Suc.prems(5) up(1) [OF None] by (simp add: json_commits_def)
    qed (use Suc.prems split in \<open>auto simp: reading_def\<close>)
    finally show ?thesis by simp
  next
    case (Some v)
    have type: "msg_type ?M = ?t" by (simp add: json_upto_def)
    have "fits sc ?M j" using cls'(1) size j(1) by (simp add: fits_def class_ok_def json_upto_def)
    then have "json_open jp sc ?M j o' v"
      using Suc.prems(3,4) Some cls j(1) up(3) [OF Some] type by (simp add: json_open_def)
    moreover have "json_transfers jp sc m j v (need j)" using fields j(1) Some by blast
    ultimately have reads: "json_field_reads jp sc ?M j o' (need j) (m_member sc m j)"
      using type unfolding json_transfers_def by blast
    have fuel: "sum_list (map need [Suc j..<?c]) + need j < n" using Suc.prems(8) split by simp
    then have "need j < n" by simp
    from json_run_field [OF cls'(2) j(1) Suc.prems(2,6) type Suc.prems(5,7) reads this]
    obtain n' m3 d2 o2 where run: "n \<le> n' + need j" "json_deserializeMessage n jp sc mc d = json_deserializeMessage n' jp sc m3 d2"
      "reading d2 outer o2 (Suc j)" "same_others (field_name jp sc ?t j) o' o2" "msg_type m3 = ?t"
      "json_commits jp sc m3 d2 (set_slot (f_slot sc ?t j) (m_member sc m j) ?M)" "jr_cachedIndex d2 = int j"
      "d2\<lparr>jr_state := outer, jr_cachedValue := Invalid, jr_cachedIndex := -1\<rparr> =
        d\<lparr>jr_state := outer, jr_cachedValue := Invalid, jr_cachedIndex := -1\<rparr>" by blast
    have vals2: "\<forall>i < ?c. Suc j \<le> i \<longrightarrow> map_of o2 (m_name jp sc m i) = vs i"
      using run(4) Suc.prems(4) names_apart [OF cls _ j(1)] by (simp add: same_others_def)
    have "json_deserializeMessage n' jp sc m3 d2 =
        Ret (True, m, d2\<lparr>jr_state := outer, jr_cachedValue := Invalid, jr_cachedIndex := -1\<rparr>)"
      by (rule Suc.hyps(1) [OF j(2,3) run(3) same_others_known [OF run(4) Suc.prems(3)] vals2 _ run(5)])
        (use run fuel up(2) [OF Some] in auto)
    with run(2,8) show ?thesis by simp
  qed
qed

end
