(* ===== verification/JsonReading.thy ===== *)
theory JsonReading
  imports JsonMessages
begin

text \<open>The deserializer reads the object of the specification back: the induction.\<close>

lemma json_transfers_mono: "json_transfers jp sc m i v need \<Longrightarrow> need \<le> need' \<Longrightarrow> json_transfers jp sc m i v need'"
  unfolding json_transfers_def json_field_reads_def by (meson order_trans)

lemma json_transfersI:
  assumes "\<And>M o'. msg_type M = msg_type m \<Longrightarrow> json_open jp sc M i o' v \<Longrightarrow>
    json_field_reads jp sc M i o' need (m_member sc m i)"
  shows "json_transfers jp sc m i v need"
  using assms by (simp add: json_transfers_def)

lemma json_field_held:
  assumes "json_field jp sc m i v" "v \<noteq> None" "oneof_number (m_kind sc m i) = Some n"
  shows "\<exists>x. m_member sc m i = M_oneof x n"
  using assms
  by (cases rule: json_field.cases)
    (auto simp: json_single_def elim!: single_valueE message_valueE messages_valueE split: if_splits)

lemma json_start:
  assumes "class_ok sc (msg_type m)" "length (msg_members m) = length (mc_defaults (sc ! msg_type m))"
    and "jr_cachedValue d = Invalid" "jr_cachedIndex d = -1"
  shows "json_commits jp sc (default_message sc (msg_type m)) d (json_upto sc m vs 0)"
proof -
  have "json_upto sc m vs 0 = default_message sc (msg_type m)"
    unfolding json_upto_def using assms(1,2) by (intro upto_field_0) (simp_all add: class_ok_def)
  with assms(3,4) show ?thesis
    by (simp add: json_commits_def json_storeCachedValue_def json_clearCachedValue_def)
qed

lemma json_child_readsI:
  assumes cls: "json_class_ok jp sc (msg_type m)" and size: "length (msg_members m) = length (mc_defaults (sc ! msg_type m))"
    and unknown: "unknownEntries m = []" and held: "json_held sc m vs"
    and fields: "\<And>i v. i < f_count sc (msg_type m) \<Longrightarrow> vs i = Some v \<Longrightarrow> json_transfers jp sc m i v (need i)"
    and dflts: "\<forall>s < length (msg_members m).
      (\<forall>i < f_count sc (msg_type m). f_slot sc (msg_type m) i = s \<longrightarrow> vs i = None) \<longrightarrow>
      msg_members m ! s = mc_defaults (sc ! msg_type m) ! s"
    and keys: "keys_known jp sc (msg_type m) oo"
    and vals: "\<And>i. i < f_count sc (msg_type m) \<Longrightarrow> map_of oo (m_name jp sc m i) = vs i"
    and n0: "sum_list (map need [0..<f_count sc (msg_type m)]) < n0"
  shows "json_child_reads jp sc m oo n0"
  unfolding json_child_reads_def
proof (intro allI impI)
  fix n outer and d :: json_reader
  assume d: "jr_state d = outer @ [new_json_state oo]" "jr_lastError d = NoError" "jr_cachedValue d = Invalid"
    "jr_cachedIndex d = -1" "n0 \<le> n"
  have "reading d outer oo 0" using d(1,2) by (auto simp: reading_def new_json_state_def jstate_def)
  moreover have "json_commits jp sc (default_message sc (msg_type m)) d (json_upto sc m vs 0)"
    using cls size d(3,4) by (intro json_start) (simp_all add: json_class_ok_def)
  ultimately have "json_deserializeMessage n jp sc (default_message sc (msg_type m)) d =
      Ret (True, m, d\<lparr>jr_state := outer, jr_cachedValue := Invalid, jr_cachedIndex := -1\<rparr>)"
    using d n0 vals fields
    by (intro json_fields_complete [OF cls size unknown held _ dflts, of need 0 d outer oo _ n]) (simp_all add: keys)
  also have "d\<lparr>jr_state := outer, jr_cachedValue := Invalid, jr_cachedIndex := -1\<rparr> = d\<lparr>jr_state := outer\<rparr>"
    using d(3,4) by (cases d) simp
  finally show "json_deserializeMessage n jp sc (default_message sc (msg_type m)) d = Ret (True, m, d\<lparr>jr_state := outer\<rparr>)" .
qed

definition field_need :: "json option \<Rightarrow> nat" where
  "field_need v = (case v of None \<Rightarrow> 0 | Some j \<Rightarrow> Suc (json_weight j))"

lemma field_need_cost: "sum_list (map (\<lambda>i. field_need (vs i)) is) \<le> sum_list (map (\<lambda>i. field_cost (vs i)) is)"
  by (rule sum_list_mono) (simp add: field_need_def field_cost_def split: option.split)

lemma weight_list:
  "sum_list (map (\<lambda>j. Suc (json_weight j)) js) < json_weight (J_Array js)"
  "sum_list (map (\<lambda>kv. Suc (3 + json_weight (snd kv))) kvs) < json_weight (J_Object kvs)"
proof -
  show "sum_list (map (\<lambda>j. Suc (json_weight j)) js) < json_weight (J_Array js)"
    by (simp add: comp_def)
  show "sum_list (map (\<lambda>kv. Suc (3 + json_weight (snd kv))) kvs) < json_weight (J_Object kvs)"
    by (simp add: eval_nat_numeral)
qed

lemma json_transfers_need:
  assumes "\<And>M o'. msg_type M = msg_type m \<Longrightarrow> json_open jp sc M i o' v \<Longrightarrow>
      json_field_reads jp sc M i o' need (m_member sc m i)" and "need \<le> Suc (json_weight v)"
  shows "json_transfers jp sc m i v (field_need (Some v))"
  using json_transfers_mono [OF json_transfersI [OF assms(1)]] assms(2) by (simp add: field_need_def)

lemma json_serialize_not_null [simp]: "json_serialize jp v \<noteq> J_Null"
  by (cases v) (simp_all add: json_of_float_def json_of_double_def json_double_value_def split: option.split)

lemma json_read_back:
  "json_message jp sc m oo \<Longrightarrow> json_child_reads jp sc m oo (json_weight (J_Object oo))"
  "json_field jp sc m i w \<Longrightarrow> \<forall>v. w = Some v \<longrightarrow> json_transfers jp sc m i v (field_need (Some v))"
  "json_nested jp sc c v' \<Longrightarrow> json_nested_reads jp sc c v' (json_weight v')"
  "json_entry jp sc e kv \<Longrightarrow>
     json_child_reads jp sc e [(key_name, J_String (fst kv)), (value_name, snd kv)] (3 + json_weight (snd kv)) \<and>
     snd kv \<noteq> J_Undefined"
proof (induction m oo and m i w and c v' and e kv rule: json_message_json_field_json_nested_json_entry.inducts)
  case (json_messageI m vs)
  let ?n = "f_count sc (msg_type m)"
  have cls: "json_class_ok jp sc (msg_type m)" by fact
  have fields: "\<forall>i < ?n. json_field jp sc m i (vs i) \<and>
      (\<forall>v. vs i = Some v \<longrightarrow> json_transfers jp sc m i v (field_need (Some v)))" by fact
  have "json_held sc m vs" using fields json_field_held unfolding json_held_def by blast
  then show ?case
  proof (rule json_child_readsI [OF cls, where need = "\<lambda>i. field_need (vs i)", rotated 2])
    show "keys_known jp sc (msg_type m) (json_object jp sc (msg_type m) vs ?n)"
      using keys_json_object by (simp add: keys_known_def)
    show "map_of (json_object jp sc (msg_type m) vs ?n) (m_name jp sc m i) = vs i" if "i < ?n" for i
      using map_of_json_object [OF cls order.refl that] that by simp
    show "sum_list (map (\<lambda>i. field_need (vs i)) [0..<?n]) < json_weight (J_Object (json_object jp sc (msg_type m) vs ?n))"
      using weight_json_object [OF cls order.refl, of vs] field_need_cost [of vs "[0..<?n]"] by simp
    show "json_transfers jp sc m i v (field_need (vs i))" if "i < ?n" "vs i = Some v" for i v
      using fields that by auto
  qed fact+
next
  case (json_single m i v)
  then show ?case
    using json_scalar_read [of jp v]
    by (auto simp: json_single_def split: if_splits intro!: json_transfers_need [where need = 1]
        elim!: json_reads_single [where j = "json_serialize jp v", rotated -1])
next
  case (json_enum m i e)
  then show ?case
    by (auto simp: json_key_def json_enumerator_def intro!: json_transfers_need [where need = 1] intro: json_reads_enum)
next
  case (json_list m i t xs)
  then show ?case by (auto simp del: One_nat_def intro!: json_transfers_need [where need = 1] json_reads_list)
next
  case (json_enums m i es)
  then show ?case by (auto simp del: One_nat_def intro!: json_transfers_need [where need = 1] json_reads_enums)
next
  case (json_submessage m i c v)
  have "json_transfers jp sc m i v (field_need (Some v))"
    by (rule json_transfers_need [where need = "Suc (json_weight v)"])
      (use json_submessage json_reads_message in auto)
  then show ?case by simp
next
  case (json_messages m i t cs vs)
  then have children: "list_all2 (\<lambda>c j. json_nested_reads jp sc c j (json_weight j)) cs vs"
    by (auto elim: list.rel_mono_strong)
  have "json_transfers jp sc m i (J_Array vs) (field_need (Some (J_Array vs)))"
    by (rule json_transfers_need, rule json_reads_messages [OF _ _ _ _ children])
      (use json_messages weight_list(1) [of vs] in auto)
  then show ?case by simp
next
  case (json_map m i t es kvs)
  then have entries: "list_all2 (\<lambda>e kv. json_child_reads jp sc e [(key_name, J_String (fst kv)), (value_name, snd kv)]
      (3 + json_weight (snd kv)) \<and> snd kv \<noteq> J_Undefined) es kvs"
    by (auto elim: list.rel_mono_strong)
  have "json_transfers jp sc m i (J_Object kvs) (field_need (Some (J_Object kvs)))"
    by (rule json_transfers_need, rule json_reads_map [OF _ _ _ _ entries])
      (use json_map weight_list(2) [of kvs] in auto)
  then show ?case by simp
next
  case (json_nestedI c oc)
  then show ?case unfolding json_nested_reads_def by blast
next
  case (json_customI c serializer deserializer)
  then show ?case unfolding json_nested_reads_def json_custom_reads_def by blast
next
  case (json_entryI e kv v)
  let ?k = "key_text jp (Scalar kv)" and ?vs = "\<lambda>i::nat. Some (if i = 0 then J_String (key_text jp (Scalar kv)) else v)"
  let ?need = "\<lambda>i::nat. if i = 0 then 1 else Suc (json_weight v)"
  have count: "f_count sc (msg_type e) = 2" by fact
  have key: "json_transfers jp sc e 0 (J_String ?k) 1"
  proof (rule json_transfersI)
    fix M o' assume M: "msg_type M = msg_type e" and o: "json_open jp sc M 0 o' (J_String ?k)"
    show "json_field_reads jp sc M 0 o' 1 (m_member sc e 0)"
      by (rule json_reads_single [OF o _ _ _ json_key_read, where forced = True])
        (use json_entryI M in \<open>auto simp: single_value_def\<close>)
  qed
  have field: "json_transfers jp sc e 1 v (Suc (json_weight v))"
    using json_entryI by (auto simp: field_need_def)
  have held: "json_held sc e ?vs"
    unfolding json_held_def count
  proof (intro allI impI)
    fix i n assume "i < 2" and n: "oneof_number (m_kind sc e i) = Some n"
    then consider "i = 0" | "i = 1" by linarith
    then show "\<exists>x. m_member sc e i = M_oneof x n"
      using n json_entryI json_field_held [of jp sc e 1 "Some v"] by cases auto
  qed
  have two: "[0..<2] = [0 :: nat, 1]" by code_simp
  have distinct: "key_name \<noteq> value_name" by (simp add: key_name_def value_name_def)
  have "json_child_reads jp sc e [(key_name, J_String ?k), (value_name, v)] (3 + json_weight v)"
  proof (rule json_child_readsI [OF _ _ _ held, where need = ?need])
    show "json_transfers jp sc e i w (?need i)" if "i < f_count sc (msg_type e)" "?vs i = Some w" for i w
      using that key field unfolding count by (cases "i = 0") (auto simp: less_2_cases_iff)
    show "keys_known jp sc (msg_type e) [(key_name, J_String ?k), (value_name, v)]"
      using \<open>m_name jp sc e 0 = key_name\<close> \<open>m_name jp sc e 1 = value_name\<close>
      by (simp add: keys_known_def count numeral_2_eq_2 lessThan_Suc)
    show "map_of [(key_name, J_String ?k), (value_name, v)] (m_name jp sc e i) = ?vs i"
      if "i < f_count sc (msg_type e)" for i
      using that json_entryI distinct unfolding count by (cases "i = 0") (auto simp: less_2_cases_iff)
  qed (use json_entryI in \<open>auto simp: count two less_2_cases_iff\<close>)
  moreover have "v \<noteq> J_Undefined" using json_field_defined [of jp sc e 1 "Some v"] json_entryI by simp
  ultimately show ?case by simp
qed auto

end
