(* ===== verification/DecimalText.thy ===== *)
theory DecimalText
  imports JsonValues
begin

text \<open>
  Decimal texts of integers, as \<open>QString::number\<close> makes them, and the value of such a text.
\<close>

fun decimal_digits :: "nat \<Rightarrow> qstring" where
  "decimal_digits n = (if n < 10 then [0x30 + of_nat n] else decimal_digits (n div 10) @ [0x30 + of_nat (n mod 10)])"

declare decimal_digits.simps [simp del]

definition decimal_text :: "int \<Rightarrow> qstring" where
  "decimal_text i = (if i < 0 then 0x2D # decimal_digits (nat (- i)) else decimal_digits (nat i))"

definition digits_value :: "qstring \<Rightarrow> int" where
  "digits_value s = foldl (\<lambda>n c. 10 * n + uint (c - 0x30)) 0 s"

definition decimal_value :: "qstring \<Rightarrow> int" where
  "decimal_value s =
     (case s of c # cs \<Rightarrow> if c = 0x2D then - digits_value cs else digits_value s | [] \<Rightarrow> 0)"

lemma digit_small: "n < 10 \<Longrightarrow> unat (0x30 + of_nat n :: 16 word) = 0x30 + n"
  by (simp add: unat_word_ariths unsigned_of_nat take_bit_nat_eq_self)

lemma is_digit_small: "n < 10 \<Longrightarrow> is_digit (0x30 + of_nat n)"
  by (simp add: is_digit_def word_le_nat_alt digit_small)

lemma digit_value_small: "n < 10 \<Longrightarrow> uint (0x30 + of_nat n - 0x30 :: 16 word) = int n"
  by (simp add: uint_nat unsigned_of_nat take_bit_nat_eq_self)

lemma decimal_digits_nonempty [simp]: "decimal_digits n \<noteq> []"
  by (subst decimal_digits.simps) simp

lemma decimal_digits_digits [simp]: "list_all is_digit (decimal_digits n)"
  by (induction n rule: decimal_digits.induct)
    (subst decimal_digits.simps, simp add: is_digit_small)

lemma digits_value_snoc: "digits_value (s @ [c]) = 10 * digits_value s + uint (c - 0x30)"
  by (simp add: digits_value_def)

lemma digits_value_decimal [simp]: "digits_value (decimal_digits n) = int n"
proof (induction n rule: decimal_digits.induct)
  case (1 n)
  show ?case
  proof (cases "n < 10")
    case True
    then show ?thesis
      using digit_value_small [OF True] by (subst decimal_digits.simps) (simp add: digits_value_def)
  next
    case False
    have "digits_value (decimal_digits n) = 10 * digits_value (decimal_digits (n div 10)) + int (n mod 10)"
      using False digit_value_small [of "n mod 10"]
      by (subst decimal_digits.simps) (simp add: digits_value_snoc)
      with 1 [OF False] show ?thesis by (simp add: zdiv_int zmod_int)
  qed
qed

lemma digits_value_zeros: "digits_value (replicate z 0x30 @ s) = digits_value s"
  by (induction z) (simp_all add: digits_value_def)

lemma length_decimal_digits: "10 ^ k \<le> n \<Longrightarrow> n < 10 ^ Suc k \<Longrightarrow> length (decimal_digits n) = Suc k"
proof (induction k arbitrary: n)
  case 0
  then show ?case by (subst decimal_digits.simps) simp
next
  case (Suc k)
  have "(10 :: nat) \<le> 10 ^ Suc k" by simp
  then have "10 \<le> n" using Suc.prems(1) by linarith
  moreover have "10 ^ k \<le> n div 10" "n div 10 < 10 ^ Suc k"
    using Suc.prems by (simp_all add: less_eq_div_iff_mult_less_eq div_less_iff_less_mult mult.commute)
  ultimately show ?case using Suc.IH [of "n div 10"] by (subst decimal_digits.simps) simp
qed

lemma length_decimal_digits_le: "n < 10 ^ k \<Longrightarrow> 0 < k \<Longrightarrow> length (decimal_digits n) \<le> k"
proof (induction k arbitrary: n)
  case (Suc k)
  then show ?case
    by (subst decimal_digits.simps) (cases k; force simp: div_less_iff_less_mult mult.commute)
qed simp

end
