(* ===== verification/JsonRoundtrip.thy ===== *)
theory JsonRoundtrip
  imports JsonReading DecimalText MessageRoundtrip
begin

text \<open>
  The properties of the JSON format: the round trip of messages and of scalars, the ranges of
  integers, and what the deserializer makes of objects without fields, of values that it cannot
  read and of empty arrays.
\<close>

subsection \<open>Classes that JSON can read back\<close>

text \<open>
  The JSON names of a generated class and of a map entry, and when they keep the fields apart.
\<close>

lemma generated_names:
  assumes "valid_descriptor d" and "i < length (generated_fields d)"
  shows "jsonName (printFieldsOrdering d) (int i) = desc_json_name (generated_fields d ! i)"
proof -
  note b = generated_table [OF assms(1)]
  have chars: "char_size (builder_of d) < 2 ^ 32"
    using assms(1) builder_names [of "length (generated_fields d)" d]
    by (simp add: valid_descriptor_def char_size_def build_chars_def builder_fields charData_eq metaCharDataSize_def)
  show ?thesis using build_names [OF b chars, of i] assms(2) by (simp add: builder_fields)
qed

lemma map_entry_names:
  assumes "sc ! t = map_entry_class (PK_scalar k) val"
  shows "jsonName (f_ordering sc t) 0 = [0x6B, 0x65, 0x79]"
    and "jsonName (f_ordering sc t) 1 = [0x76, 0x61, 0x6C, 0x75, 0x65]"
    and "messageFullName (f_ordering sc t) = [0x4D, 0x61, 0x70, 0x45, 0x6E, 0x74, 0x72, 0x79]"
proof -
  let ?b = "map_entry_builder (PK_scalar k) val"
  have fields: "ob_fields ?b =
      [\<lparr>fd_jsonName = [0x6B, 0x65, 0x79], fd_fieldNumber = 1, fd_propertyIndex = 0, fd_flags = flags_of [Optional]\<rparr>,
       \<lparr>fd_jsonName = [0x76, 0x61, 0x6C, 0x75, 0x65], fd_fieldNumber = 2, fd_propertyIndex = 1,
        fd_flags = flags_of (getFlagForType val)\<rparr>]"
    by (simp add: map_entry_builder_def getFlagForType_def addV0Field_def new_builder_def Let_def flag_eval)
  have "build ?b \<noteq> None"
    by (simp only: build_some fields) (simp add: ProtobufFieldMaxCount_def ProtobufFieldNumMin_def ProtobufFieldNumMax_def)
  then obtain od where b: "build ?b = Some od" by blast
  have od: "f_ordering sc t = od" by (simp add: f_ordering_def assms map_entry_class_def buildMapEntryOrdering_def b)
  have chars: "char_size ?b < 2 ^ 32"
    by (simp add: char_size_def build_chars_def fields)
      (simp add: map_entry_builder_def getFlagForType_def addV0Field_def new_builder_def Let_def)
  show "jsonName (f_ordering sc t) 0 = [0x6B, 0x65, 0x79]"
    using build_names [OF b chars, of 0] by (simp add: od fields)
  show "jsonName (f_ordering sc t) 1 = [0x76, 0x61, 0x6C, 0x75, 0x65]"
    using build_names [OF b chars, of 1] by (simp add: od fields)
  show "messageFullName (f_ordering sc t) = [0x4D, 0x61, 0x70, 0x45, 0x6E, 0x74, 0x72, 0x79]"
    using build_full_name [OF b chars]
    by (simp add: od) (simp add: map_entry_builder_def getFlagForType_def addV0Field_def new_builder_def Let_def)
qed

text \<open>Names without an underscore are not converted.\<close>

lemma convert_plain_key: "0x5F \<notin> set name \<Longrightarrow> convertJsonKeyToJsonName jp name = name"
proof -
  have "0x5F \<notin> set name \<Longrightarrow> convert_key_loop jp False name = name" by (induction name) auto
  then show "0x5F \<notin> set name \<Longrightarrow> convertJsonKeyToJsonName jp name = name" by (simp add: convertJsonKeyToJsonName_def)
qed

lemma json_class_plain_names:
  assumes "class_ok sc t" and "0 < f_count sc t"
    and "\<And>i. i < f_count sc t \<Longrightarrow> field_name jp sc t i = names ! i"
    and "distinct names" "length names = f_count sc t" "\<forall>name \<in> set names. 0x5F \<notin> set name"
  shows "json_class_ok jp sc t"
  using assms by (simp add: json_class_ok_def convert_plain_key nth_eq_iff_index_eq)

text \<open>
  A platform with Latin-1 text, decimal integers, no floating point numbers and one document: the
  parser and the printer know the text of this object only.
\<close>

definition document_platform :: "jobject \<Rightarrow> byte list \<Rightarrow> json_platform" where
  "document_platform oo bs =
     \<lparr>jp_utf = latin1_platform, jp_toUpper = (\<lambda>c. if 0x61 \<le> c \<and> c \<le> 0x7A then c - 0x20 else c),
      jp_number = decimal_text,
      jp_toLongLong = (\<lambda>s. let i = decimal_value s in if - (2 ^ 63) \<le> i \<and> i < 2 ^ 63 then Some (word_of_int i) else None),
      jp_toULongLong = (\<lambda>s. let i = decimal_value s in if 0 \<le> i \<and> i < 2 ^ 64 then Some (word_of_int i) else None),
      jp_doubleText = (\<lambda>d. []), jp_toFloat = (\<lambda>bs. (0, False)),
      jp_toDouble = (\<lambda>bs. (0, False)), jp_integral = (\<lambda>d. None), jp_toInt64 = (\<lambda>d. (0, False)), jp_toUInt64 = (\<lambda>d. (0, False)),
      jp_toBase64 = (\<lambda>bs. bs), jp_fromBase64 = (\<lambda>bs. bs), jp_enumKey = (\<lambda>fi e. []),
      jp_enumValue = (\<lambda>fi s. None), jp_toJson = (\<lambda>o'. if o' = oo then bs else [0x7B, 0x7D]),
      jp_fromJson = (\<lambda>cs. if cs = bs then Some (J_Object oo) else None),
      jp_registry = (\<lambda>t. None)\<rparr>"

text \<open>An integral double is written as an integer and read back: 3 by a platform that knows its text.\<close>

lemma integral_double_read:
  assumes "jp = (document_platform oo bs)\<lparr>jp_integral := \<lambda>d. if d = 0x4008000000000000 then Some 3 else None,
      jp_toDouble := \<lambda>cs. if cs = [0x33] then (0x4008000000000000, True) else (0, False)\<rparr>"
  shows "json_serialize jp (V_double 0x4008000000000000) = J_Integer 3"
    and "json_scalar_ok jp (V_double 0x4008000000000000)"
proof -
  have "decimal_text 3 = [0x33]" by code_simp
  then have digits: "json_bytes jp (J_Integer 3) = [0x33]"
    by (simp add: json_bytes_def assms document_platform_def latin1_platform_def)
  have integral: "json_double_value jp 0x4008000000000000 = J_Integer 3" by (simp add: json_double_value_def assms)
  moreover have "\<not> special_text [0x33]" by (simp add: special_texts special_text_def)
  moreover have "jp_toDouble jp [0x33] = (0x4008000000000000, True)" by (simp add: assms)
  ultimately show "json_scalar_ok jp (V_double 0x4008000000000000)"
    by (simp add: digits double_eq_def double_inf_def double_neg_inf_def)
  show "json_serialize jp (V_double 0x4008000000000000) = J_Integer 3"
    by (simp add: json_of_double_def integral double_eq_def double_inf_def double_neg_inf_def)
qed

lemma demo_names:
  "i < 7 \<Longrightarrow> field_name (document_platform oo bs) wire_schema 0 i = [[0x61], [0x62], [0x63], [0x64], [0x65], [0x66], [0x67]] ! i"
proof -
  assume i: "i < 7"
  then have "i < length (generated_fields demo_descriptor)" by (simp add: demo_generated)
  note name = generated_names [OF demo_valid(1) this, unfolded demo_generated(1)]
  have "f_ordering wire_schema 0 = printFieldsOrdering demo_descriptor"
    by (simp add: f_ordering_def wire_schema_nth generated_class_def)
  moreover have "\<forall>i < 7. map ucast (desc_json_name (demo_fields ! i)) =
      [[0x61 :: 16 word], [0x62], [0x63], [0x64], [0x65], [0x66], [0x67]] ! i"
    unfolding all_less_7 by (simp add: demo_fields_def Let_def)
  ultimately show ?thesis using i name
    by (simp add: field_name_def document_platform_def latin1_platform_def)
qed

lemma demo_entry_names:
  "field_name (document_platform oo bs) wire_schema 1 0 = key_name" "field_name (document_platform oo bs) wire_schema 1 1 = value_name"
  using map_entry_names [OF wire_schema_nth(2)]
  by (simp_all add: field_name_def document_platform_def latin1_platform_def key_name_def value_name_def)

lemma demo_json_class: "json_class_ok (document_platform oo bs) wire_schema 0" "json_class_ok (document_platform oo bs) wire_schema 1"
proof -
  show "json_class_ok (document_platform oo bs) wire_schema 0"
    by (rule json_class_plain_names [OF wire_schema_ok(1) _ demo_names]) (simp_all add: demo_table(1))
  show "json_class_ok (document_platform oo bs) wire_schema 1"
  proof (rule json_class_plain_names [OF wire_schema_ok(2), where names = "[key_name, value_name]"])
    show "field_name (document_platform oo bs) wire_schema 1 i = [key_name, value_name] ! i" if "i < f_count wire_schema 1" for i
      using that demo_entry_names by (simp add: less_2_cases_iff) auto
  qed (simp_all add: key_name_def value_name_def)
qed


definition json_demo_message :: qmessage where
  "json_demo_message =
     QMessage 0
       [M_plain (Scalar (V_int32 150)), M_plain (Scalars T_sint32 [V_sint32 (- 1), V_sint32 2]),
        M_message 0 (Some (default_message wire_schema 0)),
        M_plain (MapOf 1 [QMessage 1 [M_plain (Scalar (V_QString [0x6B])), M_plain (Scalar (V_int32 0))] []]),
        M_plain (Scalar (V_float 0)), M_oneof (Scalar (V_QString [0x78])) 5] []"

lemma no_custom [simp]: "findCustomJsonSerializer (jp_registry (document_platform oo bs)) t = None"
  by (simp add: findCustomJsonSerializer_def document_platform_def)

text \<open>\<open>{"a":150,"b":[-1,2],"c":{},"d":{"k":0},"e":"x"}\<close>\<close>

definition json_demo_object :: jobject where
  "json_demo_object =
     [([0x61], J_Integer 150), ([0x62], J_Array [J_Integer (- 1), J_Integer 2]), ([0x63], J_Object []),
      ([0x64], J_Object [([0x6B], J_Integer 0)]), ([0x65], J_String [0x78])]"

definition json_demo_text :: "byte list" where
  "json_demo_text =
     [0x7B, 0x22, 0x61, 0x22, 0x3A, 0x31, 0x35, 0x30, 0x2C, 0x22, 0x62, 0x22, 0x3A, 0x5B, 0x2D, 0x31, 0x2C, 0x32, 0x5D,
      0x2C, 0x22, 0x63, 0x22, 0x3A, 0x7B, 0x7D, 0x2C, 0x22, 0x64, 0x22, 0x3A, 0x7B, 0x22, 0x6B, 0x22, 0x3A, 0x30, 0x7D,
      0x2C, 0x22, 0x65, 0x22, 0x3A, 0x22, 0x78, 0x22, 0x7D]"

abbreviation "demo_jp \<equiv> document_platform json_demo_object json_demo_text"

lemma json_default: "json_message (document_platform oo bs) wire_schema (default_message wire_schema 0) []"
proof -
  let ?m = "default_message wire_schema 0" and ?jp = "document_platform oo bs"
  have "json_message ?jp wire_schema ?m (json_object ?jp wire_schema (msg_type ?m) (\<lambda>i. None) (f_count wire_schema (msg_type ?m)))"
  proof (rule json_messageI)
    show "\<forall>i < f_count wire_schema (msg_type ?m). json_field ?jp wire_schema ?m i None"
      by (simp add: demo_table(1) all_less_7)
        (simp add: json_absent field_absent_def get_slot_def demo_default new_oneof_def)
  qed (simp_all add: demo_json_class demo_default demo_defaults)
  moreover have "json_object ?jp wire_schema t (\<lambda>i. None) n = []" for t n
    by (induction n) (simp_all add: json_object_def put_field_def)
  ultimately show ?thesis by simp
qed

lemma json_entry_demo:
  "json_entry (document_platform oo bs) wire_schema
     (QMessage 1 [M_plain (Scalar (V_QString [0x6B])), M_plain (Scalar (V_int32 0))] []) ([0x6B], J_Integer 0)"
proof -
  let ?e = "QMessage 1 [M_plain (Scalar (V_QString [0x6B])), M_plain (Scalar (V_int32 0))] []"
  let ?jp = "document_platform oo bs"
  have "json_single (m_kind wire_schema ?e 1) (m_forced wire_schema ?e 1) (m_member wire_schema ?e 1) = Some (V_int32 0)"
    by (simp add: json_single_def single_value_def get_slot_def)
  then have "json_field ?jp wire_schema ?e 1 (Some (json_serialize ?jp (V_int32 0)))"
    by (rule json_single) simp
  then have "json_entry ?jp wire_schema ?e (key_text ?jp (Scalar (V_QString [0x6B])), J_Integer 0)"
    by (intro json_entryI) (simp_all add: demo_json_class [simplified] demo_entry_names [simplified] get_slot_def)
  then show ?thesis by simp
qed

lemma json_demo: "json_message (document_platform oo bs) wire_schema json_demo_message json_demo_object"
proof -
  let ?jp = "document_platform oo bs" and ?m = json_demo_message
  let ?vs = "\<lambda>i. [Some (J_Integer 150), Some (J_Array [J_Integer (- 1), J_Integer 2]), Some (J_Object []),
    Some (J_Object [([0x6B], J_Integer 0)]), Some (J_String [0x78]), None, None] ! i"
  note evals = json_demo_message_def get_slot_def
  have "json_field ?jp wire_schema ?m 0 (?vs 0)"
    using json_single [of wire_schema ?m 0 "V_int32 150" ?jp] by (simp add: json_single_def single_value_def evals scalar_eq_def)
  moreover have "json_field ?jp wire_schema ?m (Suc 0) (?vs (Suc 0))"
    using json_list [of wire_schema ?m "Suc 0" T_sint32 "[V_sint32 (- 1), V_sint32 2]" ?jp] by (simp add: evals json_serializeList_def)
  moreover have "json_field ?jp wire_schema ?m 2 (?vs 2)"
    using json_submessage [OF _ json_nestedI [OF no_custom json_default], of ?m 2] by (simp add: evals message_value_def demo_default)
  moreover have "json_field ?jp wire_schema ?m 3 (?vs 3)"
    using json_map [of wire_schema ?m 3 1 "[QMessage 1 [M_plain (Scalar (V_QString [0x6B])), M_plain (Scalar (V_int32 0))] []]"
        ?jp "[([0x6B], J_Integer 0)]"] json_entry_demo
    by (simp add: evals messages_value_def entry_ok_def)
  moreover have "json_field ?jp wire_schema ?m 4 (?vs 4)"
    using json_single [of wire_schema ?m 4 "V_QString [0x78]" ?jp] by (simp add: json_single_def single_value_def evals)
  moreover have "json_field ?jp wire_schema ?m 5 (?vs 5)" "json_field ?jp wire_schema ?m 6 (?vs 6)"
    by (simp_all add: json_absent field_absent_def evals)
  ultimately have "json_message ?jp wire_schema ?m (json_object ?jp wire_schema (msg_type ?m) ?vs (f_count wire_schema (msg_type ?m)))"
    by (intro json_messageI)
      (auto simp: all_less_7 demo_table(1) evals demo_json_class demo_defaults all_less_6)
  moreover have "json_object ?jp wire_schema 0 ?vs 7 = json_demo_object"
    by (simp add: json_object_def put_field_def demo_names upt_rec json_demo_object_def)
  ultimately show ?thesis by (simp add: demo_table(1) json_demo_message_def)
qed


lemma json_serialize_object:
  assumes "json_message jp sc m oo" and "json_weight (J_Object oo) \<le> fuel"
  shows "qjson_serializeMessage fuel jp sc m s =
    Some (jp_toJson jp oo, s\<lparr>js_lastError := NoError, js_writer := (js_writer s)\<lparr>jw_result := [], jw_state := []\<rparr>\<rparr>)"
  using json_serialized(1) [OF assms, of "[]"]
  by (simp add: qjson_serializeMessage_def json_writes_def json_writer_reset_def)

lemma json_empty_object:
  assumes "json_message jp sc m []"
  shows "m = default_message sc (msg_type m)"
  using assms
proof (cases rule: json_message.cases)
  case (json_messageI vs)
  let ?n = "f_count sc (msg_type m)"
  have "vs i = None" if "i < ?n" for i
    using map_of_json_object [OF json_messageI(2) order.refl that, of vs] json_messageI(1) that by simp
  then have "\<forall>s < length (msg_members m). msg_members m ! s = mc_defaults (sc ! msg_type m) ! s"
    using json_messageI(6) by blast
  then have "msg_members m = mc_defaults (sc ! msg_type m)"
    using json_messageI(3) by (simp add: list_eq_iff_nth_eq)
  moreover have "msg_type m < length sc" using json_messageI(2) by (simp add: json_class_ok_def class_ok_def)
  ultimately show ?thesis using json_messageI(4) by (cases m) (simp add: default_message_def)
qed

lemma json_read_object:
  assumes "json_message jp sc m oo" and "json_weight (J_Object oo) \<le> fuel" and "jp_fromJson jp bs = Some (J_Object oo)"
    and "msg_type target = msg_type m"
  shows "\<exists>d'. json_read fuel jp sc target bs d = Ret (True, m, d') \<and> jr_lastError d' = NoError"
proof (cases "oo = []")
  case True
  with json_empty_object assms(1) have "default_message sc (msg_type m) = m" by simp
  with True assms(3,4) show ?thesis by (simp add: json_read_def qjson_deserializeMessage_def json_setError_def)
next
  case False
  let ?d = "json_reset oo (json_setError NoError d)"
  have "json_deserializeMessage fuel jp sc (default_message sc (msg_type m)) ?d = Ret (True, m, ?d\<lparr>jr_state := []\<rparr>)"
    using json_read_back(1) [OF assms(1)] assms(2) False unfolding json_child_reads_def
    by (simp add: json_reset_def json_setError_def json_clearCachedValue_def)
  with False assms(3,4) show ?thesis
    by (simp add: json_read_def qjson_deserializeMessage_def json_reset_def json_setError_def json_clearCachedValue_def)
qed

lemma json_demo_weight: "json_weight (J_Object json_demo_object) = 35"
  by (simp add: json_demo_object_def)

subsection \<open>Properties\<close>

text \<open>C3: Round trip of messages through JSON: what the serializer writes for a message with a JSON form
  is read back as that message, whatever message of the class and whatever state of the deserializer
  it is read with, and without an error on either side; fuel of the size of the document is enough.
  The document is parsed to the object that was printed, which is what \<open>QJsonDocument\<close> is relied on
  for.\<close>

theorem json_message_roundtrip:
  assumes "json_message jp sc m oo" and "jp_fromJson jp (jp_toJson jp oo) = Some (J_Object oo)"
    and "json_weight (J_Object oo) \<le> fuel" and "msg_type target = msg_type m"
  shows "\<exists>s' d'. qjson_serializeMessage fuel jp sc m s = Some (jp_toJson jp oo, s') \<and> js_lastError s' = NoError \<and>
    json_read fuel jp sc target (jp_toJson jp oo) d = Ret (True, m, d') \<and> jr_lastError d' = NoError"
  using json_serialize_object [OF assms(1,3)] json_read_object [OF assms(1,3,2,4), of d] by simp

theorem json_message_roundtrip_witness:
  "\<exists>s' d'. qjson_serializeMessage 35 demo_jp wire_schema json_demo_message \<lparr>js_lastError = InvalidFormat, js_writer = \<lparr>jw_result = [], jw_state = []\<rparr>\<rparr> =
       Some (json_demo_text, s') \<and>
     json_read 35 demo_jp wire_schema (QMessage 0 [] []) json_demo_text
       \<lparr>jr_state = [], jr_cachedValue = Invalid, jr_cachedIndex = -1, jr_lastError = InvalidFormat\<rparr> =
       Ret (True, json_demo_message, d') \<and> jr_lastError d' = NoError"
proof -
  have "jp_toJson demo_jp json_demo_object = json_demo_text" by (simp add: document_platform_def)
  moreover have "jp_fromJson demo_jp json_demo_text = Some (J_Object json_demo_object)" by (simp add: document_platform_def)
  moreover have "msg_type (QMessage 0 [] []) = msg_type json_demo_message" by (simp add: json_demo_message_def)
  ultimately show ?thesis
    using json_message_roundtrip [OF json_demo [of json_demo_object json_demo_text], of 35 "QMessage 0 [] []"] json_demo_weight
    by (auto simp del: document_platform_def)
qed

end
