(* ===== verification/JsonErrors.thy ===== *)
theory JsonErrors
  imports JsonRoundtrip
begin

text \<open>
  What the JSON deserializer makes of documents that it should not read in silence: an object for a
  class without fields, a value that cannot be read, an empty array.
\<close>

subsection \<open>The walk over fields without a key\<close>

definition keys_absent :: "json_platform \<Rightarrow> schema \<Rightarrow> nat \<Rightarrow> jobject \<Rightarrow> nat \<Rightarrow> nat \<Rightarrow> bool" where
  "keys_absent jp sc t o' i k \<longleftrightarrow> (\<forall>j. i \<le> j \<and> j < k \<longrightarrow> map_of o' (field_name jp sc t j) = None)"

lemma scan_absent:
  assumes cls: "json_class_ok jp sc t" "keys_known jp sc t o'" and k: "k \<le> f_count sc t" "i \<le> k"
    and absent: "keys_absent jp sc t o' i k"
  shows "json_scan (f_count sc t - i) jp (f_ordering sc t) (jstate o' i J_Null) =
    json_scan (f_count sc t - k) jp (f_ordering sc t) (jstate o' k J_Null)"
  using k(2) absent
proof (induction rule: inc_induct)
  case (step j)
  have j: "j < f_count sc t" using step.hyps k(1) by simp
  then have "f_count sc t - j = Suc (f_count sc t - Suc j)" by simp
  moreover have "json_field_step jp (f_ordering sc t) (jstate o' j J_Null) = Skip_field (jstate o' (Suc j) J_Null)"
    by (rule step_skip(1) [OF cls j]) (use step.hyps step.prems in \<open>simp add: keys_absent_def\<close>)
  moreover have "int j < fieldCount (f_ordering sc t)" using j by (simp add: f_count_def)
  ultimately show ?case using step by (simp add: keys_absent_def)
qed simp

lemma next_absent:
  assumes cls: "json_class_ok jp sc t" "keys_known jp sc t o'" and k: "k \<le> f_count sc t" "i \<le> k"
    and absent: "keys_absent jp sc t o' i k" and st: "jr_state d = outer @ [jstate o' i v]" and m: "msg_type m = t"
  shows "k = f_count sc t \<Longrightarrow> json_nextFieldIndex jp sc m d = Ret (-1, d\<lparr>jr_state := outer\<rparr>)"
    and "k < f_count sc t \<Longrightarrow>
      json_field_step jp (f_ordering sc t) (jstate o' k J_Null) = Take_field l st' \<Longrightarrow>
      json_nextFieldIndex jp sc m d = Ret (l, d\<lparr>jr_state := outer @ [st']\<rparr>)"
    and "k < f_count sc t \<Longrightarrow>
      json_field_step jp (f_ordering sc t) (jstate o' k J_Null) = Push_field l st' oc \<Longrightarrow>
      json_nextFieldIndex jp sc m d = Ret (l, d\<lparr>jr_state := outer @ [st', new_json_state oc]\<rparr>)"
proof -
  have pos: "0 < f_count sc t" using cls(1) by (simp add: json_class_ok_def)
  then have count: "fieldCount (f_ordering sc t) = int (f_count sc t)" "propertyOrdering sc m = f_ordering sc t"
    using m by (simp_all add: f_count_def f_ordering_def propertyOrdering_def)
  have sub: "nat (int a - int b) = a - b" for a b :: nat by simp
  note unfolds = json_nextFieldIndex_def count st Let_def sub scan_absent [OF cls k absent]
  show "k = f_count sc t \<Longrightarrow> json_nextFieldIndex jp sc m d = Ret (-1, d\<lparr>jr_state := outer\<rparr>)"
    using pos by (simp add: unfolds)
  assume "k < f_count sc t"
  then have "f_count sc t - k = Suc (f_count sc t - Suc k)" by simp
  note unfolds = unfolds this
  show "json_field_step jp (f_ordering sc t) (jstate o' k J_Null) = Take_field l st' \<Longrightarrow>
      json_nextFieldIndex jp sc m d = Ret (l, d\<lparr>jr_state := outer @ [st']\<rparr>)"
    and "json_field_step jp (f_ordering sc t) (jstate o' k J_Null) = Push_field l st' oc \<Longrightarrow>
      json_nextFieldIndex jp sc m d = Ret (l, d\<lparr>jr_state := outer @ [st', new_json_state oc]\<rparr>)"
    using \<open>k < f_count sc t\<close> by (simp_all add: unfolds)
qed

lemma default_fits:
  assumes "json_class_ok jp sc t" "i < f_count sc t"
  shows "fits sc (default_message sc t) i"
    and "m_member sc (default_message sc t) i = default_member (f_kind sc t i)"
proof -
  have ok: "field_ok sc t i" "t < length sc" using assms by (simp_all add: json_class_ok_def class_ok_def)
  then show "fits sc (default_message sc t) i" by (simp add: fits_def default_message_def)
  show "m_member sc (default_message sc t) i = default_member (f_kind sc t i)"
    using ok by (simp add: default_message_def get_slot_def field_ok_def)
qed

subsection \<open>One key\<close>

text \<open>The first value of an object that holds the value of one field only.\<close>

definition lone_field :: "json_platform \<Rightarrow> schema \<Rightarrow> nat \<Rightarrow> nat \<Rightarrow> json \<Rightarrow> jobject" where
  "lone_field jp sc t i j = [(field_name jp sc t i, j)]"

lemma lone_field_keys:
  assumes "json_class_ok jp sc t" "i < f_count sc t"
  shows "keys_known jp sc t (lone_field jp sc t i j)" "keys_absent jp sc t (lone_field jp sc t i j) 0 i"
    and "keys_absent jp sc t (lone_field jp sc t i j) (Suc i) (f_count sc t)"
    and "map_of (lone_field jp sc t i j) (field_name jp sc t i) = Some j"
  using assms names_apart [OF assms(1)]
  by (auto simp: keys_known_def keys_absent_def lone_field_def)

lemma read_lone_field:
  assumes cls: "json_class_ok jp sc t" "i < f_count sc t"
    and k: "\<not> message_kind (f_kind sc t i)" "\<not> messages_kind (f_kind sc t i)" and j: "j \<noteq> J_Null"
    and doc: "jp_fromJson jp bs = Some (J_Object (lone_field jp sc t i j))" and target: "msg_type target = t"
  defines "v \<equiv> fst (read_member sc (f_kind sc t i) (default_member (f_kind sc t i)))"
  shows "\<exists>d1. jr_cachedValue d1 = v \<and> jr_cachedIndex d1 = int i \<and> json_scalarValue d1 = Some j \<and>
    jr_state d1 = [jstate (lone_field jp sc t i j) (Suc i) j] \<and>
    json_read (Suc n) jp sc target bs d =
      run_bind (json_deserialize_field (json_deserializeMessage n jp sc) jp sc (int i) (default_message sc t) d1)
        (\<lambda>s. run_bind (case s of JContinue m3 d3 \<Rightarrow> json_deserializeMessage n jp sc m3 d3
           | JFinish r m3 d3 \<Rightarrow> Ret (r, m3, d3)) (\<lambda>(ok, m', d'). Ret (ok, m', json_reset [] d')))"
proof -
  let ?o = "lone_field jp sc t i j" and ?M = "default_message sc t"
  let ?d0 = "json_reset ?o (json_setError NoError d)"
  let ?d1 = "?d0\<lparr>jr_state := [jstate ?o (Suc i) j], jr_cachedValue := v, jr_cachedIndex := int i\<rparr>"
  note keys = lone_field_keys [OF cls, of j]
  have ne: "?o \<noteq> []" by (simp add: lone_field_def)
  then have st: "jr_state ?d0 = [] @ [jstate ?o 0 J_Undefined]"
    by (simp add: json_reset_def new_json_state_def jstate_def)
  have next1: "json_nextFieldIndex jp sc ?M ?d0 = Ret (int i, ?d0\<lparr>jr_state := [jstate ?o (Suc i) j]\<rparr>)"
    using next_absent(2) [OF cls(1) keys(1) less_imp_le [OF cls(2)] _ keys(2) st _ cls(2)
        step_take [OF cls(1) keys(1) cls(2) keys(4) j k]]
    by simp
  have idx: "jr_cachedIndex ?d0 = -1" "jr_cachedValue ?d0 = Invalid" by (simp_all add: json_reset_def json_clearCachedValue_def)
  note fits = default_fits [OF cls]
  have "messageProperty sc ?M (f_info sc t i) True = (v, ?M)"
    using open_plain [OF fits(1)] fits(2) k(1) by (simp add: v_def)
  then have "json_cache_field jp sc (int i) ?M (?d0\<lparr>jr_state := [jstate ?o (Suc i) j]\<rparr>) = (True, ?M, ?d1)"
    using idx mk_field_info_eq [of ?M t sc i] by (simp add: json_cache_field_def json_storeCachedValue_def)
  with next1 have "json_read (Suc n) jp sc target bs d =
      run_bind (json_deserialize_field (json_deserializeMessage n jp sc) jp sc (int i) ?M ?d1)
        (\<lambda>s. run_bind (case s of JContinue m3 d3 \<Rightarrow> json_deserializeMessage n jp sc m3 d3
           | JFinish r m3 d3 \<Rightarrow> Ret (r, m3, d3)) (\<lambda>(ok, m', d'). Ret (ok, m', json_reset [] d')))"
    using ne doc target by (cases "json_deserialize_field (json_deserializeMessage n jp sc) jp sc (int i) ?M ?d1")
      (simp_all add: json_read_def qjson_deserializeMessage_def)
  then show ?thesis by (intro exI [of _ ?d1]) (simp add: json_scalarValue_def)
qed


text \<open>After the value nothing is left: the cached value is stored, and the result is true.\<close>

lemma finish_lone_field:
  assumes cls: "json_class_ok jp sc t" "i < f_count sc t"
    and st: "jr_state d = [jstate (lone_field jp sc t i j) (Suc i) w]" and idx: "jr_cachedIndex d = int i"
    and v: "jr_cachedValue d = v" "\<not> isNull v" and enum: "\<not> enum_kind (f_kind sc t i)"
    and stored: "write_member (f_kind sc t i) (convert_for (f_kind sc t i) v) (default_member (f_kind sc t i)) =
      Some y"
  shows "json_deserializeMessage (Suc n) jp sc (default_message sc t) d =
    Ret (True, set_slot (f_slot sc t i) y (default_message sc t), json_clearCachedValue (d\<lparr>jr_state := []\<rparr>))"
proof -
  let ?M = "default_message sc t"
  note keys = lone_field_keys [OF cls, of j] and fits = default_fits [OF cls]
  have "json_nextFieldIndex jp sc ?M d = Ret (-1, d\<lparr>jr_state := []\<rparr>)"
    using next_absent(1) [OF cls(1) keys(1) order.refl _ keys(3), of d "[]" w ?M] cls(2) st by simp
  moreover have "setMessageProperty sc ?M (f_info sc t i) (convert_keys jp (f_info sc t i) v) =
      (True, set_slot (f_slot sc t i) y ?M)"
    using commit_field [OF fits(1), of v] fits(2) stored convert_keys_plain [OF enum class_field_ok [OF cls]]
    by (simp split: option.split)
  ultimately show ?thesis
    using v idx mk_field_info_eq [of ?M t sc i]
    by (simp add: json_finish_message_def json_storeCachedValue_def json_clearCachedValue_def)
qed

lemma lone_scalar:
  assumes cls: "json_class_ok jp sc t" "i < f_count sc t" and k: "f_kind sc t i = PK_scalar u"
    and v: "jr_cachedValue d = Scalar (default_scalar u)" "json_scalarValue d = Some j"
    and bad: "json_deserialize jp u j = (x, False)"
  shows "json_deserialize_field reader jp sc (int i) (default_message sc t) d =
    Ret (JContinue (default_message sc t) (json_setInvalidFormatError (d\<lparr>jr_cachedValue := Scalar x\<rparr>)))"
proof -
  note ok = class_field_ok [OF cls]
  show ?thesis
    using v k bad plain_kind [OF ok] field_flags_test(3) [OF ok]
    by (simp add: json_deserialize_field_def mk_field_info_eq [of _ t] json_deserializeScalarField_def
        json_handlers_found json_deserializeCommon_def json_setInvalidFormatError_def json_setError_def)
qed

lemma lone_list:
  assumes cls: "json_class_ok jp sc t" "i < f_count sc t" and k: "f_kind sc t i = PK_scalars u"
    and v: "jr_cachedValue d = Scalars u []" "json_scalarValue d = Some (J_Array [])"
  shows "json_deserialize_field reader jp sc (int i) (default_message sc t) d =
    Ret (JContinue (default_message sc t) (json_setInvalidFormatError (d\<lparr>jr_cachedValue := Scalars u []\<rparr>)))"
proof -
  note ok = class_field_ok [OF cls]
  show ?thesis
    using v k plain_kind [OF ok] field_flags_test(3) [OF ok]
    by (simp add: json_deserialize_field_def mk_field_info_eq [of _ t] json_deserializeScalarField_def
        json_handlers_found json_deserializeList_def json_setInvalidFormatError_def json_setError_def)
qed

lemma lone_enums:
  assumes cls: "json_class_ok jp sc t" "i < f_count sc t" and k: "f_kind sc t i = PK_enums"
    and v: "jr_cachedValue d = Enums []" "json_scalarValue d = Some (J_Array [])"
  shows "json_deserialize_field reader jp sc (int i) (default_message sc t) d =
    Ret (JFinish False (default_message sc t) (json_setError UnknownType (d\<lparr>jr_cachedValue := Scalars T_QString []\<rparr>)))"
proof -
  note ok = class_field_ok [OF cls]
  show ?thesis
    using v k plain_kind [OF ok] field_flags_test(2,3) [OF ok]
    by (simp add: json_deserialize_field_def mk_field_info_eq [of _ t] json_deserializeEnum_def json_deserializeList_def)
qed

lemma json_deserialize_type: "json_deserialize jp u j = (x, ok) \<Longrightarrow> scalar_type_of x = u"
  by (cases u) (auto simp: apfst_def map_prod_def split: prod.splits)

subsection \<open>A class with a field of a class without fields\<close>

definition lost_fields :: "field_descriptor list" where
  "lost_fields =
     (let f = \<lparr>desc_type = TYPE_MESSAGE 1, desc_number = 1, desc_json_name = [0x61], is_map = False,
        is_repeated = False, is_required = False, is_packed = False, has_presence = True,
        real_containing_oneof = None, desc_message_name = '''', desc_package = ''demo''\<rparr>
      in [f, f\<lparr>desc_type := TYPE_SCALAR T_int32, desc_number := 2, desc_json_name := [0x62], has_presence := False\<rparr>])"

definition lost_descriptor :: message_descriptor where
  "lost_descriptor = \<lparr>desc_full_name = [0x4C], desc_fields = lost_fields, real_oneof_decl_count = 0\<rparr>"

definition empty_descriptor :: message_descriptor where
  "empty_descriptor = \<lparr>desc_full_name = [0x45], desc_fields = [], real_oneof_decl_count = 0\<rparr>"

definition lost_schema :: schema where
  "lost_schema = [generated_class lost_descriptor, generated_class empty_descriptor]"

lemma lost_generated: "generated_fields lost_descriptor = lost_fields" "generated_fields empty_descriptor = []"
  "length lost_fields = 2"
  by (simp_all add: lost_descriptor_def empty_descriptor_def lost_fields_def isGroupField_def Let_def)

lemma lost_valid: "valid_descriptor lost_descriptor" "\<forall>f \<in> set (generated_fields lost_descriptor). core_field f"
  "valid_descriptor empty_descriptor"
  unfolding valid_descriptor_def lost_generated
  by (simp_all add: lost_fields_def valid_field_def charData_eq lost_generated metaCharDataSize_def Let_def
      lost_descriptor_def empty_descriptor_def core_field_def isQtType_def isOverridden_def name_bytes_def)

lemma lost_ordering:
  "f_ordering lost_schema 0 = printFieldsOrdering lost_descriptor"
  "f_ordering lost_schema 1 = printFieldsOrdering empty_descriptor"
  by (simp_all add: f_ordering_def lost_schema_def generated_class_def)

lemma lost_table:
  "f_count lost_schema 0 = 2" "fieldCount (f_ordering lost_schema 1) = 0"
  "f_kind lost_schema 0 0 = PK_message 1" "f_kind lost_schema 0 (Suc 0) = PK_scalar T_int32"
  "f_slot lost_schema 0 0 = 0" "f_slot lost_schema 0 (Suc 0) = 1"
  "mc_defaults (lost_schema ! 0) = [M_message 1 None, M_plain (Scalar (V_int32 0))]"
  "mc_defaults (lost_schema ! 1) = []"
proof -
  have df: "desc_fields lost_descriptor = lost_fields" by (simp add: lost_descriptor_def)
  have gf: "filter (\<lambda>f. \<not> isGroupField f) lost_fields = lost_fields" using lost_generated(1) by (simp only: df)
  have len: "i < length (generated_fields lost_descriptor)" if "i < 2" for i
    using that by (simp only: lost_generated)
  have nth: "lost_schema ! 0 = generated_class lost_descriptor" by (simp add: lost_schema_def)
  note fld = generated_field [OF lost_valid(1) len nth, unfolded df gf]
  show "f_count lost_schema 0 = 2" using fld(1) [of 0] by (simp add: lost_generated)
  show "fieldCount (f_ordering lost_schema 1) = 0"
    using build_count(1) [OF generated_table [OF lost_valid(3)]] by (simp add: lost_ordering [simplified] builder_fields lost_generated)
  show "f_kind lost_schema 0 0 = PK_message 1" "f_kind lost_schema 0 (Suc 0) = PK_scalar T_int32"
    using fld(2) [of 0] fld(2) [of 1] by (simp_all add: f_kind_def lost_fields_def demo_defs)
  show "f_slot lost_schema 0 0 = 0" "f_slot lost_schema 0 (Suc 0) = 1"
    using fld(2) [of 0] fld(2) [of 1]
    by (simp_all add: f_slot_def lost_fields_def member_slot_def plain_members_def isGroupField_def demo_defs)
  show "mc_defaults (lost_schema ! 0) = [M_message 1 None, M_plain (Scalar (V_int32 0))]" "mc_defaults (lost_schema ! 1) = []"
    by (simp_all add: lost_schema_def generated_class_def printClassMembers_def iterateMessageFields_def
        lost_descriptor_def empty_descriptor_def lost_fields_def demo_defs isGroupField_def)
qed

lemma lost_names: "i < 2 \<Longrightarrow> field_name (document_platform oo bs) lost_schema 0 i = [[0x61], [0x62]] ! i"
proof -
  assume i: "i < 2"
  then have "i < length (generated_fields lost_descriptor)" by (simp add: lost_generated)
  note name = generated_names [OF lost_valid(1) this, unfolded lost_generated(1)]
  have "\<forall>i < 2. map ucast (desc_json_name (lost_fields ! i)) = [[0x61 :: 16 word], [0x62]] ! i"
    by (simp add: less_2_cases_all lost_fields_def Let_def)
  with i name show ?thesis by (simp add: field_name_def lost_ordering document_platform_def latin1_platform_def)
qed

lemma lost_class: "json_class_ok (document_platform oo bs) lost_schema 0"
proof (rule json_class_plain_names [OF _ _ lost_names])
  show "class_ok lost_schema 0" by (rule generated_class_ok [OF lost_valid(1,2)]) (simp_all add: lost_schema_def)
qed (simp_all add: lost_table)

subsection \<open>Properties\<close>

text \<open>C14: A value that cannot be read is an error that the result does not tell: for a document that holds
  a scalar field with such a value, the deserializer returns true with the value that the conversion
  left in the field, and only the last error says that the format is invalid.\<close>

theorem json_error_returns_true:
  assumes "json_class_ok jp sc t" and "i < f_count sc t" and "f_kind sc t i = PK_scalar u"
    and "j \<noteq> J_Null" and "json_deserialize jp u j = (x, False)"
    and "jp_fromJson jp bs = Some (J_Object [(field_name jp sc t i, j)])" and "msg_type target = t" and "2 \<le> fuel"
  shows "\<exists>d'. json_read fuel jp sc target bs d =
      Ret (True, set_slot (f_slot sc t i) (M_plain (Scalar x)) (default_message sc t), d') \<and>
    jr_lastError d' = InvalidFormat"
proof -
  obtain n where n: "fuel = Suc (Suc n)" using assms(8) by (metis add_2_eq_Suc le_Suc_ex)
  have x: "scalar_type_of x = u" by (rule json_deserialize_type [OF assms(5)])
  obtain d1 where d1: "jr_cachedValue d1 = Scalar (default_scalar u)" "jr_cachedIndex d1 = int i"
    "json_scalarValue d1 = Some j" "jr_state d1 = [jstate (lone_field jp sc t i j) (Suc i) j]"
    and run: "json_read fuel jp sc target bs d =
      run_bind (json_deserialize_field (json_deserializeMessage (Suc n) jp sc) jp sc (int i) (default_message sc t) d1)
        (\<lambda>s. run_bind (case s of JContinue m3 d3 \<Rightarrow> json_deserializeMessage (Suc n) jp sc m3 d3
           | JFinish r m3 d3 \<Rightarrow> Ret (r, m3, d3)) (\<lambda>(ok, m', d'). Ret (ok, m', json_reset [] d')))"
    using read_lone_field [OF assms(1,2) _ _ assms(4) assms(6) [folded lone_field_def] assms(7), of "Suc n" d] assms(3)
    unfolding n by (auto simp: read_member_def)
  let ?d2 = "json_setInvalidFormatError (d1\<lparr>jr_cachedValue := Scalar x\<rparr>)"
  have "json_deserializeMessage (Suc n) jp sc (default_message sc t) ?d2 =
      Ret (True, set_slot (f_slot sc t i) (M_plain (Scalar x)) (default_message sc t), json_clearCachedValue (?d2\<lparr>jr_state := []\<rparr>))"
    by (rule finish_lone_field [OF assms(1,2)])
      (use d1 x assms(3) set_floating_default [of x] in \<open>auto simp: json_setInvalidFormatError_def json_setError_def
        write_member_def convert_for_def set_plain_default\<close>)
  then show ?thesis
    using run lone_scalar [OF assms(1-3) d1(1,3) assms(5)]
    by (simp add: json_reset_def json_clearCachedValue_def json_setInvalidFormatError_def json_setError_def)
qed

theorem json_error_returns_true_witness:
  "\<exists>d'. json_read 2 (document_platform [([0x61], J_Bool True)] [0x7B]) wire_schema json_demo_message [0x7B]
       \<lparr>jr_state = [], jr_cachedValue = Invalid, jr_cachedIndex = -1, jr_lastError = NoError\<rparr> =
     Ret (True, default_message wire_schema 0, d') \<and> jr_lastError d' = InvalidFormat"
proof -
  let ?jp = "document_platform [([0x61], J_Bool True)] [0x7B]"
  have doc: "jp_fromJson ?jp [0x7B] = Some (J_Object [(field_name ?jp wire_schema 0 0, J_Bool True)])"
    by (simp add: demo_names) (simp add: document_platform_def)
  have same: "set_slot (f_slot wire_schema 0 0) (M_plain (Scalar (V_int32 0))) (default_message wire_schema 0) =
      default_message wire_schema 0"
    by (rule set_slot_same) (simp add: demo_default get_slot_def)
  have "msg_type json_demo_message = 0" by (simp add: json_demo_message_def)
  from json_error_returns_true [OF demo_json_class(1) _ _ _ _ doc this, of T_int32 "V_int32 0" 2] same
  show ?thesis by (simp add: demo_table(1) json_int32_def json_raw_int_def json_in_range_def)
qed

text \<open>An empty array is no list: for a document that holds an empty array for a list of scalars, the
  deserializer returns true and the last error says that the format is invalid; for a list of
  enumerators it returns false with an unknown type.\<close>

theorem json_empty_array_rejected:
  assumes "json_class_ok jp sc t" and "i < f_count sc t"
    and "f_kind sc t i = PK_scalars u \<or> f_kind sc t i = PK_enums"
    and "jp_fromJson jp bs = Some (J_Object [(field_name jp sc t i, J_Array [])])" and "msg_type target = t"
    and "2 \<le> fuel"
  shows "\<exists>d'. json_read fuel jp sc target bs d = Ret (f_kind sc t i \<noteq> PK_enums, default_message sc t, d') \<and>
    jr_lastError d' = (if f_kind sc t i = PK_enums then UnknownType else InvalidFormat)"
proof -
  obtain n where n: "fuel = Suc (Suc n)" using assms(6) by (metis add_2_eq_Suc le_Suc_ex)
  let ?k = "f_kind sc t i"
  have k: "\<not> message_kind ?k" "\<not> messages_kind ?k" using assms(3) by auto
  have "J_Array [] \<noteq> J_Null" by simp
  from read_lone_field [OF assms(1,2) k this assms(4) [folded lone_field_def] assms(5), of "Suc n" d]
  obtain d1 where d1: "jr_cachedValue d1 = fst (read_member sc ?k (default_member ?k))" "jr_cachedIndex d1 = int i"
    "json_scalarValue d1 = Some (J_Array [])" "jr_state d1 = [jstate (lone_field jp sc t i (J_Array [])) (Suc i) (J_Array [])]"
    and run: "json_read fuel jp sc target bs d =
      run_bind (json_deserialize_field (json_deserializeMessage (Suc n) jp sc) jp sc (int i) (default_message sc t) d1)
        (\<lambda>s. run_bind (case s of JContinue m3 d3 \<Rightarrow> json_deserializeMessage (Suc n) jp sc m3 d3
           | JFinish r m3 d3 \<Rightarrow> Ret (r, m3, d3)) (\<lambda>(ok, m', d'). Ret (ok, m', json_reset [] d')))"
    unfolding n by auto
  from assms(3) show ?thesis
  proof
    assume s: "?k = PK_scalars u"
    let ?d2 = "json_setInvalidFormatError (d1\<lparr>jr_cachedValue := Scalars u []\<rparr>)"
    have y: "set_slot (f_slot sc t i) (M_plain (Scalars u [])) (default_message sc t) = default_message sc t"
      using default_fits(2) [OF assms(1,2)] s by (intro set_slot_same) simp
    have "json_deserializeMessage (Suc n) jp sc (default_message sc t) ?d2 =
        Ret (True, set_slot (f_slot sc t i) (M_plain (Scalars u [])) (default_message sc t), json_clearCachedValue (?d2\<lparr>jr_state := []\<rparr>))"
      by (rule finish_lone_field [OF assms(1,2)])
        (use d1 s in \<open>auto simp: json_setInvalidFormatError_def json_setError_def write_member_def convert_for_def
          set_plain_def variant_eq_def\<close>)
    then show ?thesis
      using run s y d1(1) lone_list [OF assms(1,2) s _ d1(3)]
      by (simp add: read_member_def json_reset_def json_clearCachedValue_def json_setInvalidFormatError_def json_setError_def)
  next
    assume e: "?k = PK_enums"
    then show ?thesis
      using run d1(1) lone_enums [OF assms(1,2) e _ d1(3)]
      by (simp add: read_member_def json_reset_def json_clearCachedValue_def json_setError_def)
  qed
qed

text \<open>An empty object in a field of a class without fields: nothing is read, and the object stays on the stack.\<close>

lemma empty_child_read:
  assumes "json_class_ok jp sc t" "i < f_count sc t" "f_kind sc t i = PK_message u" "u < length sc" "fieldCount (f_ordering sc u) = 0"
    and m: "msg_type m = t" "get_slot m (f_slot sc t i) = M_message u (Some (default_message sc u))" "fits sc m i"
    and d: "jr_state d = [jstate oo (Suc i) J_Null, new_json_state []]" "jr_cachedValue d = Ptr u" "jr_cachedIndex d = int i"
  shows "json_deserialize_field (json_deserializeMessage (Suc n) jp sc) jp sc (int i) m d = Ret (JContinue m d)"
    and "json_deserializeMessage (Suc n) jp sc m d =
      Ret (True, m, json_clearCachedValue (d\<lparr>jr_state := [jstate oo (Suc i) J_Null]\<rparr>))"
proof -
  let ?s = "f_slot sc t i" and ?c = "default_message sc u"
  note cls = assms(1,2) and ok = class_field_ok [OF assms(1,2)]
  have child: "json_deserializeMessage (Suc n) jp sc ?c (json_clearCachedValue d) = Ret (True, ?c, json_clearCachedValue d)"
    using assms(5) by (simp add: json_nextFieldIndex_def propertyOrdering_def f_ordering_def json_finish_message_def
        json_storeCachedValue_def json_clearCachedValue_def)
  have d_eq: "d\<lparr>jr_cachedValue := Ptr u, jr_cachedIndex := int i\<rparr> = d" using d by simp
  show "json_deserialize_field (json_deserializeMessage (Suc n) jp sc) jp sc (int i) m d = Ret (JContinue m d)"
    using field_pointee_slot [OF ok _ m(1)] cls(1) m(2) child set_slot_same [of "M_message u (Some ?c)" m ?s] assms(3) d d_eq
    by (simp add: json_deserialize_field_def mk_field_info_eq [OF m(1)] json_deserializeMessageField_def
        json_scalarValue_def new_json_state_def json_clearCachedValue_def json_class_ok_def class_ok_def
        del: json_deserializeMessage.simps)
  have "jr_state d = [jstate oo (Suc i) J_Null] @ [jstate [] 0 J_Undefined]"
    using d(1) by (simp add: new_json_state_def jstate_def)
  then have "json_nextFieldIndex jp sc m d = Ret (-1, d\<lparr>jr_state := [jstate oo (Suc i) J_Null]\<rparr>)"
    by (intro next_absent(1) [OF cls(1) _ order.refl _ _ _ m(1) refl]) (simp_all add: keys_known_def keys_absent_def)
  moreover have "setMessageProperty sc m (f_info sc t i) (Ptr u) = (True, m)"
    using commit_field [OF m(3), of "Ptr u"] m assms(3) set_slot_same [of "M_message u (Some ?c)" m ?s]
    by (simp add: write_member_def convert_for_def set_message_ptr_def)
  ultimately show "json_deserializeMessage (Suc n) jp sc m d =
      Ret (True, m, json_clearCachedValue (d\<lparr>jr_state := [jstate oo (Suc i) J_Null]\<rparr>))"
    using mk_field_info_eq [OF m(1)] convert_keys_plain [OF _ ok] assms(3) d
    by (simp add: json_finish_message_def json_storeCachedValue_def json_clearCachedValue_def)
qed

text \<open>C13: A message without fields loses what follows: when the first field of a document that is present
  holds a message of a class without fields, the deserializer returns true without an error, with the
  empty message in that field and with every other field left at its default, whatever the document
  holds for it. (For such a class \<open>nextFieldIndex\<close> returns before it removes the object of the message
  from the stack, so the other fields are looked for in that object.)\<close>

theorem json_empty_message_loses_fields:
  assumes "json_class_ok jp sc t" and "keys_known jp sc t oo" and "i < f_count sc t"
    and "f_kind sc t i = PK_message u" and "u < length sc" and "fieldCount (f_ordering sc u) = 0"
    and "\<forall>j < i. map_of oo (field_name jp sc t j) = None" and "map_of oo (field_name jp sc t i) = Some (J_Object [])"
    and "jp_fromJson jp bs = Some (J_Object oo)" and "msg_type target = t" and "2 \<le> fuel"
  shows "\<exists>d'. json_read fuel jp sc target bs d =
      Ret (True, set_slot (f_slot sc t i) (M_message u (Some (default_message sc u))) (default_message sc t), d') \<and>
    jr_lastError d' = NoError"
proof -
  obtain n where n: "fuel = Suc (Suc n)" using assms(11) by (metis add_2_eq_Suc le_Suc_ex)
  note cls = assms(1,3) and ok = class_field_ok [OF assms(1,3)] and fits = default_fits [OF assms(1,3)]
  let ?M = "default_message sc t" and ?s = "f_slot sc t i" and ?c = "default_message sc u"
  let ?m2 = "set_slot ?s (M_message u (Some ?c)) ?M"
  have ne: "oo \<noteq> []" using assms(8) by auto
  let ?d0 = "json_reset oo (json_setError NoError d)"
  let ?d1 = "?d0\<lparr>jr_state := [jstate oo (Suc i) J_Null, new_json_state []]\<rparr>"
  let ?d2 = "?d1\<lparr>jr_cachedValue := Ptr u, jr_cachedIndex := int i\<rparr>"
  have idx: "jr_cachedIndex ?d0 = -1" "jr_cachedValue ?d0 = Invalid" by (simp_all add: json_reset_def json_clearCachedValue_def)
  have st: "jr_state ?d0 = [] @ [jstate oo 0 J_Undefined]"
    using ne by (simp add: json_reset_def new_json_state_def jstate_def)
  have absent: "keys_absent jp sc t oo 0 i" using assms(7) by (simp add: keys_absent_def)
  have mk: "message_kind (f_kind sc t i)" by (simp add: assms(4))
  have next1: "json_nextFieldIndex jp sc ?M ?d0 = Ret (int i, ?d1)"
    using next_absent(3) [OF cls(1) assms(2) less_imp_le [OF cls(2)] _ absent st _ cls(2)
        step_push(1) [OF cls(1) assms(2) cls(2) assms(8) mk], of ?M] by simp
  have slot: "get_slot ?m2 ?s = M_message u (Some ?c)" "fits sc ?m2 i" "msg_type ?m2 = t"
    using fits_facts(3) [OF fits(1)] fits_set_slot [OF fits(1)] by simp_all
  have "messageProperty sc ?M (f_info sc t i) True = (Ptr u, ?m2)"
    using open_field [OF fits(1)] fits(2) assms(4) by (simp add: read_member_def get_message_def)
  then have cache: "json_cache_field jp sc (int i) ?M ?d1 = (True, ?m2, ?d2)"
    using idx mk_field_info_eq [of ?M t sc i] by (simp add: json_cache_field_def json_storeCachedValue_def)
  have "jr_state ?d2 = [jstate oo (Suc i) J_Null, new_json_state []]" "jr_cachedValue ?d2 = Ptr u" "jr_cachedIndex ?d2 = int i"
    by simp_all
  note child = empty_child_read [OF cls assms(4-6) slot(3,1,2) this]
  have "json_deserializeMessage fuel jp sc ?M ?d0 =
      Ret (True, ?m2, json_clearCachedValue (?d2\<lparr>jr_state := [jstate oo (Suc i) J_Null]\<rparr>))"
    using child [of n] unfolding n by (simp add: next1 cache del: json_deserializeMessage.simps(2))
      (simp add: next1 cache json_deserializeMessage.simps(2) [of "Suc n"] del: json_deserializeMessage.simps(2))
  then show ?thesis
    using ne assms(9,10) by (simp add: json_read_def qjson_deserializeMessage_def json_reset_def json_clearCachedValue_def
        json_setError_def)
qed

theorem json_empty_message_loses_fields_witness:
  "\<exists>d'. json_read 2 (document_platform [([0x61], J_Object []), ([0x62], J_Integer 7)] [0x7B]) lost_schema
       (QMessage 0 [] []) [0x7B]
       \<lparr>jr_state = [], jr_cachedValue = Invalid, jr_cachedIndex = -1, jr_lastError = NoError\<rparr> =
     Ret (True, QMessage 0 [M_message 1 (Some (QMessage 1 [] [])), M_plain (Scalar (V_int32 0))] [], d') \<and>
     jr_lastError d' = NoError"
proof -
  let ?oo = "[([0x61], J_Object []), ([0x62], J_Integer 7)] :: jobject"
  let ?jp = "document_platform ?oo [0x7B]"
  have "keys_known ?jp lost_schema 0 ?oo"
    by (simp add: keys_known_def lost_table numeral_2_eq_2 lessThan_Suc lost_names [of 0, simplified] lost_names [of 1, simplified])
  moreover have "jp_fromJson ?jp [0x7B] = Some (J_Object ?oo)" "1 < length lost_schema"
    by (simp_all add: document_platform_def lost_schema_def)
  moreover have "default_message lost_schema 1 = QMessage 1 [] []"
    "default_message lost_schema 0 = QMessage 0 [M_message 1 None, M_plain (Scalar (V_int32 0))] []"
    using lost_table(7,8) by (simp_all add: default_message_def) (simp_all add: lost_schema_def)
  ultimately show ?thesis
    using json_empty_message_loses_fields [OF lost_class _ _ lost_table(3) _ lost_table(2), of ?oo "[0x7B]" ?oo "[0x7B]" "QMessage 0 [] []" 2]
    by (simp add: lost_table lost_names [of 0, simplified] set_slot_def)
qed

text \<open>C12: Integers of a document are read exactly or not at all, but for one case: a 32-bit type takes
  exactly the integers of its range and gives 0 for the others, a signed 64-bit type takes all, and an
  unsigned 64-bit type takes a negative integer as well, modulo \<open>2 ^ 64\<close>.\<close>

theorem json_integer_range:
  assumes "integer_range t = Some (lo, hi)" and "json_deserialize jp t (J_Integer w) = (v, ok)"
  shows "if t = T_uint64 \<or> t = T_fixed64 then ok \<and> integer_value v = sint w mod 2 ^ 64
    else ok = (lo \<le> sint w \<and> sint w \<le> hi) \<and> integer_value v = (if ok then sint w else 0)"
  using json_integer_read [OF assms] by auto

theorem json_integer_range_witness:
  "json_deserialize demo_jp T_int32 (J_Integer 2147483648) = (V_int32 0, False) \<and>
   \<not> sint (2147483648 :: 64 word) \<le> 2147483647 \<and>
   integer_value (fst (json_deserialize demo_jp T_uint64 (J_Integer (- 1)))) = 18446744073709551615"
proof -
  have bad: "json_deserialize demo_jp T_int32 (J_Integer 2147483648) = (V_int32 0, False)"
    by (simp add: json_int32_def json_raw_int_def json_in_range_def)
  have big: "integer_range T_int32 = Some (- (2 ^ 31), 2 ^ 31 - 1)" "integer_range T_uint64 = Some (0, 2 ^ 64 - 1)"
    by (simp_all add: integer_range_def)
  have "\<not> sint (2147483648 :: 64 word) \<le> 2147483647" using json_integer_range [OF big(1) bad] by simp
  moreover have "integer_value (fst (json_deserialize demo_jp T_uint64 (J_Integer (- 1)))) = 18446744073709551615"
    using json_integer_range [OF big(2) surjective_pairing [of "json_deserialize demo_jp T_uint64 (J_Integer (- 1))"]] by simp
  ultimately show ?thesis using bad by simp
qed

text \<open>Round trip of scalars and lists of scalars through JSON values: a value whose text QtCore parses back
  is read as it was, a list with at least one element as well; the flag that an empty list leaves is
  the one that the caller passed.\<close>

theorem json_scalar_roundtrip:
  assumes "\<forall>v \<in> set vs. scalar_type_of v = t \<and> json_scalar_ok jp v"
  shows "map (\<lambda>v. json_deserialize jp t (json_serialize jp v)) vs = map (\<lambda>v. (v, True)) vs \<and>
    json_deserializeList jp t (json_serializeList jp vs) ok = (Scalars t vs, vs \<noteq> [] \<or> ok)"
  using assms json_scalar_read json_list_read [OF assms] by auto

end
