(* ===== verification/WellKnownJson.thy ===== *)
theory WellKnownJson
  imports JsonScalars "HOL-Library.Signed_Division"
begin

text \<open>
  The JSON handlers of well-known types (src/src/wellknown/qprotobufwellknowntypesjsonserializers.cpp)
  and the helpers that \<open>qtprotobufgen\<close> prints for \<open>Timestamp\<close> and \<open>Duration\<close>
  (src/src/tools/qtprotobufgen/messagedefinitionprinter.cpp). The messages have the members
  \<open>seconds\<close> and \<open>nanos\<close>, or \<open>value\<close>, in the order of their fields.
\<close>

subsection \<open>What the code takes from QtCore\<close>

text \<open>
  Upper case of a text, \<open>QString::toInt\<close> (0 for a text that is no number), the text of a time in
  milliseconds since the epoch (\<open>QDateTime::toString\<close> in UTC) and its parser, with the format
  \<open>ISODateWithMs\<close>, and Latin-1.
\<close>

record time_platform =
  tp_toUpper :: "qstring \<Rightarrow> qstring"
  tp_toInt :: "qstring \<Rightarrow> 32 word"
  tp_toString :: "64 word \<Rightarrow> qstring"
  tp_fromString :: "qstring \<Rightarrow> 64 word option"
  tp_toLatin1 :: "qstring \<Rightarrow> byte list"

subsection \<open>Members\<close>

definition wk_seconds :: "qmessage \<Rightarrow> 64 word option" where
  "wk_seconds m = (case get_slot m 0 of M_plain (Scalar (V_int64 w)) \<Rightarrow> Some w | _ \<Rightarrow> None)"

definition wk_nanos :: "qmessage \<Rightarrow> 32 word option" where
  "wk_nanos m = (case get_slot m 1 of M_plain (Scalar (V_int32 w)) \<Rightarrow> Some w | _ \<Rightarrow> None)"

definition wk_set :: "64 word \<Rightarrow> 32 word \<Rightarrow> qmessage \<Rightarrow> qmessage" where
  "wk_set seconds nanos m =
     set_slot 1 (set_plain (Scalar (V_int32 nanos)) (get_slot m 1))
       (set_slot 0 (set_plain (Scalar (V_int64 seconds)) (get_slot m 0)) m)"

subsection \<open>Timestamp\<close>

text \<open>
  Milliseconds since the epoch; the division of C++ rounds toward zero. A product out of range is
  undefined in C++ and wraps here.
\<close>

definition timestamp_msecs :: "64 word \<Rightarrow> 32 word \<Rightarrow> 64 word" where
  "timestamp_msecs secs nanos = secs * 1000 + word_of_int (sint nanos sdiv 1000000)"

definition serializeProtobufWellKnownTimestamp :: "time_platform \<Rightarrow> qmessage \<Rightarrow> json" where
  "serializeProtobufWellKnownTimestamp tp m =
     (let secs = (case wk_seconds m of Some w \<Rightarrow> w | None \<Rightarrow> 0);
          nanos = (case wk_nanos m of Some w \<Rightarrow> w | None \<Rightarrow> 0)
      in J_String (tp_toString tp (timestamp_msecs secs nanos)))"

text \<open>
  The pattern \<open>.+([\+\-]\d{2}:\d{2}|Z)$\<close>: the text, up to a final line feed, ends with \<open>Z\<close> or an offset
  after at least one character that is no line feed.
\<close>

definition timestamp_ending :: "qstring \<Rightarrow> bool" where
  "timestamp_ending s =
     (case rev s of
        x # c # cs \<Rightarrow>
          x = 0x5A \<and> c \<noteq> 0x0A \<or>
          (case rev s of
             d1 # d2 # colon # d3 # d4 # sign # c' # cs' \<Rightarrow>
               list_all is_digit [d1, d2, d3, d4] \<and> colon = 0x3A \<and> (sign = 0x2B \<or> sign = 0x2D) \<and> c' \<noteq> 0x0A
           | _ \<Rightarrow> False)
      | _ \<Rightarrow> False)"

definition TimeStampEnding :: "qstring \<Rightarrow> bool" where
  "TimeStampEnding s \<longleftrightarrow> timestamp_ending s \<or> s \<noteq> [] \<and> last s = 0x0A \<and> timestamp_ending (butlast s)"

definition timestamp_of_msecs :: "64 word \<Rightarrow> 64 word \<times> 32 word" where
  "timestamp_of_msecs msecs =
     (word_of_int (sint msecs sdiv 1000), word_of_int ((sint msecs smod 1000) * 1000000))"

definition deserializeProtobufWellKnownTimestamp ::
  "time_platform \<Rightarrow> qmessage \<Rightarrow> json \<Rightarrow> bool \<times> qmessage" where
  "deserializeProtobufWellKnownTimestamp tp m v =
     (case v of
        J_String s \<Rightarrow>
          if tp_toUpper tp s \<noteq> s then (False, m)
          else if 0x20 \<in> set s then (False, m)
          else if \<not> TimeStampEnding s then (False, m)
          else (case tp_fromString tp s of
                  None \<Rightarrow> (False, m)
                | Some msecs \<Rightarrow> (case timestamp_of_msecs msecs of (secs, nanos) \<Rightarrow> (True, wk_set secs nanos m)))
      | _ \<Rightarrow> (False, m))"

text \<open>The conversions with \<open>QDateTime\<close> that are printed for the class; \<open>ts\<close> is the new object.\<close>

definition Timestamp_fromDateTime :: "64 word \<Rightarrow> qmessage \<Rightarrow> qmessage" where
  "Timestamp_fromDateTime msecs ts = (case timestamp_of_msecs msecs of (secs, nanos) \<Rightarrow> wk_set secs nanos ts)"

definition Timestamp_toDateTime :: "qmessage \<Rightarrow> 64 word option" where
  "Timestamp_toDateTime ts =
     (case (wk_seconds ts, wk_nanos ts) of (Some s, Some n) \<Rightarrow> Some (timestamp_msecs s n) | _ \<Rightarrow> None)"

subsection \<open>Duration\<close>

definition SecondsRange :: int where "SecondsRange = 315576000000"
definition NanosRange :: int where "NanosRange = 999999999"

definition checkDurationRange :: "64 word \<Rightarrow> 32 word \<Rightarrow> bool" where
  "checkDurationRange seconds nanos \<longleftrightarrow>
     \<not> (SecondsRange < sint seconds \<or> sint seconds < - SecondsRange) \<and>
     \<not> (NanosRange < sint nanos \<or> sint nanos < - NanosRange)"

definition checkSignMatch :: "64 word \<Rightarrow> 32 word \<Rightarrow> bool" where
  "checkSignMatch seconds nanos \<longleftrightarrow>
     \<not> (seconds \<noteq> 0 \<and> nanos \<noteq> 0 \<and> sint (seconds XOR scast nanos) < 0)"

definition Duration_isValid :: "64 word \<Rightarrow> 32 word \<Rightarrow> bool" where
  "Duration_isValid seconds nanos \<longleftrightarrow> checkDurationRange seconds nanos \<and> checkSignMatch seconds nanos"

text \<open>
  The loop over the digits after the point: zeros are appended while the number is smaller than the
  multiplier, until the multiplier divides it.
\<close>

function nanos_loop :: "nat \<Rightarrow> nat \<Rightarrow> qstring \<Rightarrow> nat \<times> qstring" where
  "nanos_loop multiplier nanos result =
     (if multiplier \<noteq> 0 \<and> nanos mod multiplier \<noteq> 0
      then nanos_loop (multiplier div 10) nanos (if nanos div multiplier = 0 then result @ [0x30] else result)
      else (multiplier, result))"
  by auto
termination by (relation "measure fst") simp_all

declare nanos_loop.simps [simp del]

definition duration_text :: "(int \<Rightarrow> qstring) \<Rightarrow> 64 word \<Rightarrow> 32 word \<Rightarrow> qstring" where
  "duration_text number seconds nanos =
     (let sign = (if sint nanos < 0 \<and> seconds = 0 then [0x2D] else []);
          n = nat \<bar>sint nanos\<bar>;
          result = sign @ number (sint seconds);
          result' = (if n \<noteq> 0
                     then (case nanos_loop 100000000 n (result @ [0x2E]) of
                             (multiplier, r) \<Rightarrow> r @ number (int (n div multiplier)))
                     else result)
      in result' @ [0x73])"

definition serializeProtobufWellKnownDuration :: "json_platform \<Rightarrow> qmessage \<Rightarrow> json" where
  "serializeProtobufWellKnownDuration jp m =
     (case wk_seconds m of
        None \<Rightarrow> J_Undefined
      | Some seconds \<Rightarrow>
          (case wk_nanos m of
             None \<Rightarrow> J_Undefined
           | Some nanos \<Rightarrow>
               if \<not> Duration_isValid seconds nanos then J_Undefined
               else json_serialize jp (V_QString (duration_text (jp_number jp) seconds nanos))))"

text \<open>
  The pattern \<open>^(-?)(\d{1,12})(\.(\d{1,9}))?s$\<close> with its groups for the sign, the seconds and the
  digits after the point.
\<close>

definition duration_unit :: "qstring \<Rightarrow> bool" where
  "duration_unit s \<longleftrightarrow> s = [0x73] \<or> s = [0x73, 0x0A]"

definition DurationRegex :: "qstring \<Rightarrow> (qstring \<times> qstring \<times> qstring) option" where
  "DurationRegex s =
     (let (sign, r) = (case s of c # cs \<Rightarrow> if c = 0x2D then ([c], cs) else ([], s) | [] \<Rightarrow> ([], []));
          secs = takeWhile is_digit r; r1 = dropWhile is_digit r
      in if secs = [] \<or> 12 < length secs then None
         else if duration_unit r1 then Some (sign, secs, [])
         else (case r1 of
                 c # r2 \<Rightarrow>
                   let nanos = takeWhile is_digit r2
                   in if c = 0x2E \<and> nanos \<noteq> [] \<and> length nanos \<le> 9 \<and> duration_unit (dropWhile is_digit r2)
                      then Some (sign, secs, nanos) else None
               | [] \<Rightarrow> None))"

definition deserializeProtobufWellKnownDuration ::
  "json_platform \<Rightarrow> time_platform \<Rightarrow> qmessage \<Rightarrow> json \<Rightarrow> bool \<times> qmessage" where
  "deserializeProtobufWellKnownDuration jp tp m v =
     (case v of
        J_String s \<Rightarrow>
          (case DurationRegex s of
             None \<Rightarrow> (False, m)
           | Some (sign, secsString, nanosString) \<Rightarrow>
               let seconds = (case jp_toLongLong jp secsString of Some w \<Rightarrow> w | None \<Rightarrow> 0);
                   nanos = tp_toInt tp nanosString
               in if \<not> Duration_isValid seconds nanos then (False, m)
                  else let nanos' = (if nanos \<noteq> 0 then nanos * 10 ^ (9 - length nanosString) else nanos)
                       in (True, if sign \<noteq> [] then wk_set (seconds * - 1) (nanos' * - 1) m
                                 else wk_set seconds nanos' m))
      | _ \<Rightarrow> (False, m))"

subsection \<open>Wrappers\<close>

text \<open>The messages with a single value; only their deserializers are registered.\<close>

definition wk_set_value :: "scalar_type \<Rightarrow> scalar \<Rightarrow> qmessage \<Rightarrow> qmessage" where
  "wk_set_value t x m =
     set_slot 0 (if t = T_float \<or> t = T_double then set_floating x (get_slot m 0)
                 else set_plain (Scalar x) (get_slot m 0)) m"

definition deserializeProtobufWellKnownValueType ::
  "json_platform \<Rightarrow> scalar_type \<Rightarrow> qmessage \<Rightarrow> json \<Rightarrow> bool \<times> qmessage" where
  "deserializeProtobufWellKnownValueType jp t m v =
     (case json_deserialize jp t v of (x, ok) \<Rightarrow> (ok, wk_set_value t x m))"

definition deserialize_string_value :: "qmessage \<Rightarrow> json \<Rightarrow> bool \<times> qmessage" where
  "deserialize_string_value m v =
     (case v of J_String s \<Rightarrow> (True, wk_set_value T_QString (V_QString s) m) | _ \<Rightarrow> (False, m))"

definition deserialize_bytes_value :: "json_platform \<Rightarrow> time_platform \<Rightarrow> qmessage \<Rightarrow> json \<Rightarrow> bool \<times> qmessage" where
  "deserialize_bytes_value jp tp m v =
     (case v of
        J_String s \<Rightarrow> (True, wk_set_value T_QByteArray (V_QByteArray (jp_fromBase64 jp (tp_toLatin1 tp s))) m)
      | _ \<Rightarrow> (False, m))"

subsection \<open>Registration\<close>

definition registerTimestampCustomJsonHandler :: "time_platform \<Rightarrow> nat \<Rightarrow> json_registry \<Rightarrow> json_registry" where
  "registerTimestampCustomJsonHandler tp t =
     registerCustomJsonHandler t (Some (serializeProtobufWellKnownTimestamp tp))
       (Some (deserializeProtobufWellKnownTimestamp tp))"

definition registerDurationCustomJsonHandler ::
  "json_platform \<Rightarrow> time_platform \<Rightarrow> nat \<Rightarrow> json_registry \<Rightarrow> json_registry" where
  "registerDurationCustomJsonHandler jp tp t =
     registerCustomJsonHandler t (Some (serializeProtobufWellKnownDuration jp))
       (Some (deserializeProtobufWellKnownDuration jp tp))"

definition registerProtobufWellKnownValueTypeJsonHandler ::
  "json_platform \<Rightarrow> scalar_type \<Rightarrow> nat \<Rightarrow> json_registry \<Rightarrow> json_registry" where
  "registerProtobufWellKnownValueTypeJsonHandler jp v t =
     registerCustomJsonHandler t None (Some (deserializeProtobufWellKnownValueType jp v))"

definition registerStringValueCustomJsonHandler :: "nat \<Rightarrow> json_registry \<Rightarrow> json_registry" where
  "registerStringValueCustomJsonHandler t = registerCustomJsonHandler t None (Some deserialize_string_value)"

definition registerBytesValueCustomJsonHandler ::
  "json_platform \<Rightarrow> time_platform \<Rightarrow> nat \<Rightarrow> json_registry \<Rightarrow> json_registry" where
  "registerBytesValueCustomJsonHandler jp tp t = registerCustomJsonHandler t None (Some (deserialize_bytes_value jp tp))"

end
