(* ===== verification/WellKnownRoundtrip.thy ===== *)
theory WellKnownRoundtrip
  imports WellKnownJson DecimalText
begin

text \<open>
  Well-known types in JSON: the round trip of durations, and which timestamps survive one.
\<close>

subsection \<open>The digits after the point\<close>

lemma nanos_loop_large:
  "10 ^ i \<le> n \<Longrightarrow> \<exists>e \<le> i. nanos_loop (10 ^ i) n r = (10 ^ e, r) \<and> 10 ^ e dvd n"
proof (induction i)
  case 0
  then show ?case by (subst nanos_loop.simps) simp
next
  case (Suc i)
  show ?case
  proof (cases "(10 :: nat) ^ Suc i dvd n")
    case True
    then show ?thesis by (subst nanos_loop.simps) (auto simp: dvd_eq_mod_eq_0)
  next
    case False
    have "(10 :: nat) ^ i \<le> 10 ^ Suc i" by simp
    then have "10 ^ i \<le> n" using Suc.prems by (rule order_trans)
    from Suc.IH [OF this] obtain e where e: "e \<le> i" "nanos_loop (10 ^ i) n r = (10 ^ e, r)" "10 ^ e dvd n" by blast
    have "nanos_loop (10 ^ Suc i) n r = nanos_loop (10 ^ i) n r"
      using False Suc.prems by (subst nanos_loop.simps) (auto simp: dvd_eq_mod_eq_0 div_eq_0_iff)
    with e show ?thesis by (intro exI [of _ e]) auto
  qed
qed

lemma nanos_loop_digits:
  assumes "0 < n" "n < 10 ^ Suc j"
  shows "\<exists>e z. nanos_loop (10 ^ j) n r = (10 ^ e, r @ replicate z 0x30) \<and> 10 ^ e dvd n \<and> e \<le> j \<and>
    z + length (decimal_digits (n div 10 ^ e)) + e = Suc j"
  using assms
proof (induction j arbitrary: r)
  case 0
  then show ?case
    using length_decimal_digits [of 0 n] by (subst nanos_loop.simps) (auto intro!: exI [of _ 0])
next
  case (Suc j)
  show ?case
  proof (cases "10 ^ Suc j \<le> n")
    case True
    obtain e where e: "e \<le> Suc j" "nanos_loop (10 ^ Suc j) n r = (10 ^ e, r)" "10 ^ e dvd n"
      using nanos_loop_large [OF True] by blast
    have split: "10 ^ (Suc j - e) * 10 ^ e = (10 :: nat) ^ Suc j"
      using e(1) by (metis le_add_diff_inverse2 power_add)
    have "10 ^ (Suc j - e) \<le> n div 10 ^ e"
      using True split by (simp add: less_eq_div_iff_mult_less_eq)
    moreover have "n div 10 ^ e < 10 ^ Suc (Suc j - e)"
      using Suc.prems(2) split by (simp add: div_less_iff_less_mult)
    ultimately have "length (decimal_digits (n div 10 ^ e)) = Suc (Suc j - e)" by (rule length_decimal_digits)
    with e show ?thesis by (intro exI [of _ e] exI [of _ 0]) auto
  next
    case False
    then have n: "n < 10 ^ Suc j" by simp
    then have "\<not> 10 ^ Suc j dvd n" using Suc.prems(1) by (meson dvd_imp_le not_le)
    then have "nanos_loop (10 ^ Suc j) n r = nanos_loop (10 ^ j) n (r @ [0x30])"
      using n by (subst nanos_loop.simps) (auto simp: dvd_eq_mod_eq_0)
    with Suc.IH [OF Suc.prems(1) n, of "r @ [0x30]"] show ?thesis
      by (auto simp: replicate_app_Cons_same) (metis le_SucI add_Suc append_Cons append_Nil replicate_Suc)
  qed
qed

subsection \<open>Durations\<close>

lemma takeWhile_digits: "list_all is_digit ds \<Longrightarrow> \<not> is_digit c \<Longrightarrow>
  takeWhile is_digit (ds @ c # r) = ds \<and> dropWhile is_digit (ds @ c # r) = c # r"
  by (induction ds) auto

lemma no_digits [simp]: "\<not> is_digit 0x73" "\<not> is_digit 0x2E" "\<not> is_digit 0x2D"
  by (simp_all add: is_digit_def word_le_nat_alt)

lemma duration_regex_whole:
  assumes "list_all is_digit ds" "ds \<noteq> []" "length ds \<le> 12" "sign = [] \<or> sign = [0x2D]"
  shows "DurationRegex (sign @ ds @ [0x73]) = Some (sign, ds, [])"
proof -
  have "hd ds \<noteq> 0x2D" using assms(1,2) by (cases ds) (auto simp: is_digit_def word_le_nat_alt)
  with assms takeWhile_digits [OF assms(1), of "0x73" "[]"] show ?thesis
    by (cases ds) (auto simp: DurationRegex_def Let_def duration_unit_def)
qed

lemma duration_regex_fraction:
  assumes "list_all is_digit ds" "ds \<noteq> []" "length ds \<le> 12" "sign = [] \<or> sign = [0x2D]"
    and "list_all is_digit fs" "fs \<noteq> []" "length fs \<le> 9"
  shows "DurationRegex (sign @ ds @ 0x2E # fs @ [0x73]) = Some (sign, ds, fs)"
proof -
  have "hd ds \<noteq> 0x2D" using assms(1,2) by (cases ds) (auto simp: is_digit_def word_le_nat_alt)
  with assms takeWhile_digits [OF assms(1), of "0x2E" "fs @ [0x73]"] takeWhile_digits [OF assms(5), of "0x73" "[]"]
  show ?thesis by (cases ds) (auto simp: DurationRegex_def Let_def duration_unit_def)
qed


lemma sint_XOR_negative: "sint (a XOR b :: 'a::len word) < 0 \<longleftrightarrow> (sint a < 0) \<noteq> (sint b < 0)"
  by (simp add: bit_last_iff [symmetric] bit_xor_iff)

lemma sint_eq_0: "sint w = 0 \<longleftrightarrow> w = 0"
  by (rule signed_eq_0_iff)

lemma sint_scast_32_64: "sint (scast (w :: 32 word) :: 64 word) = sint w"
  by (rule sint_scast_64)

lemma checkSignMatch_iff:
  "checkSignMatch s n \<longleftrightarrow> sint s = 0 \<or> sint n = 0 \<or> (sint s < 0 \<longleftrightarrow> sint n < 0)"
  by (auto simp: checkSignMatch_def sint_XOR_negative sint_scast_32_64 sint_eq_0)

definition duration_negative :: "64 word \<Rightarrow> 32 word \<Rightarrow> bool" where
  "duration_negative s n \<longleftrightarrow> sint s < 0 \<or> sint n < 0"

lemma duration_text_sign:
  assumes "Duration_isValid s n"
  shows "(if sint n < 0 \<and> s = 0 then [0x2D] else []) @ decimal_text (sint s) =
    (if duration_negative s n then [0x2D] else []) @ decimal_digits (nat \<bar>sint s\<bar>)"
proof -
  have "s = 0 \<longleftrightarrow> sint s = 0" by (simp add: sint_eq_0)
  with assms show ?thesis
    by (auto simp: Duration_isValid_def checkSignMatch_iff duration_negative_def decimal_text_def)
qed

lemma duration_bounds:
  assumes "Duration_isValid s n"
  shows "nat \<bar>sint s\<bar> \<le> 315576000000" "nat \<bar>sint n\<bar> \<le> 999999999"
  using assms by (auto simp: Duration_isValid_def checkDurationRange_def SecondsRange_def NanosRange_def)

lemma duration_text_parsed:
  assumes "Duration_isValid s n"
  shows "\<exists>fs. DurationRegex (duration_text decimal_text s n) =
      Some (if duration_negative s n then [0x2D] else [], decimal_digits (nat \<bar>sint s\<bar>), fs) \<and>
    list_all is_digit fs \<and> length fs \<le> 9 \<and> digits_value fs * 10 ^ (9 - length fs) = \<bar>sint n\<bar> \<and>
    digits_value fs \<le> \<bar>sint n\<bar>"
proof -
  let ?n = "nat \<bar>sint n\<bar>" and ?ds = "decimal_digits (nat \<bar>sint s\<bar>)"
  let ?sign = "if duration_negative s n then [0x2D] else [] :: qstring"
  have ds: "list_all is_digit ?ds" "?ds \<noteq> []" "length ?ds \<le> 12" "?sign = [] \<or> ?sign = [0x2D]"
    using duration_bounds(1) [OF assms] by (simp_all add: length_decimal_digits_le)
  show ?thesis
  proof (cases "?n = 0")
    case True
    then have "duration_text decimal_text s n = ?sign @ ?ds @ [0x73]"
      using duration_text_sign [OF assms] by (simp add: duration_text_def Let_def)
    with duration_regex_whole [OF ds] True show ?thesis
      by (intro exI [of _ "[]"]) (simp add: digits_value_def)
  next
    case False
    have "0 < ?n" "?n < 10 ^ Suc 8" using False duration_bounds(2) [OF assms] by simp_all
    from nanos_loop_digits [OF this, of "(if sint n < 0 \<and> s = 0 then [0x2D] else []) @ decimal_text (sint s) @ [0x2E]"]
    obtain e z where loop: "nanos_loop (10 ^ 8) ?n ((if sint n < 0 \<and> s = 0 then [0x2D] else []) @ decimal_text (sint s) @ [0x2E]) =
        (10 ^ e, ((if sint n < 0 \<and> s = 0 then [0x2D] else []) @ decimal_text (sint s) @ [0x2E]) @ replicate z 0x30)"
      and e: "10 ^ e dvd ?n" "z + length (decimal_digits (?n div 10 ^ e)) + e = 9" by auto
    let ?fs = "replicate z 0x30 @ decimal_digits (?n div 10 ^ e)"
    have "duration_text decimal_text s n = (((if sint n < 0 \<and> s = 0 then [0x2D] else []) @ decimal_text (sint s)) @ 0x2E # ?fs) @ [0x73]"
      using False loop by (simp add: duration_text_def Let_def decimal_text_def [of "int (?n div 10 ^ e)"])
    then have text_eq: "duration_text decimal_text s n = ?sign @ ?ds @ 0x2E # ?fs @ [0x73]"
      unfolding duration_text_sign [OF assms] by simp
    have "is_digit 0x30" by (simp add: is_digit_def)
    then have "list_all is_digit (replicate z 0x30)" by (simp add: list_all_iff)
    then have fs: "list_all is_digit ?fs" "?fs \<noteq> []" "length ?fs \<le> 9" "digits_value ?fs = int (?n div 10 ^ e)"
      "9 - length ?fs = e"
      using e(2) by (simp_all add: digits_value_zeros)
    have "int (?n div 10 ^ e * 10 ^ e) = int ?n" using e(1) by simp
    then have "int (?n div 10 ^ e) * 10 ^ e = \<bar>sint n\<bar>" by simp
    moreover have "int (?n div 10 ^ e) \<le> \<bar>sint n\<bar>"
      using div_le_dividend [of ?n "10 ^ e"] by linarith
    ultimately show ?thesis
      using duration_regex_fraction [OF ds fs(1-3)] fs text_eq by (intro exI [of _ ?fs]) simp
  qed
qed


text \<open>What QtCore does with decimal texts.\<close>

definition decimal_platform :: "json_platform \<Rightarrow> time_platform \<Rightarrow> bool" where
  "decimal_platform jp tp \<longleftrightarrow>
     jp_number jp = decimal_text \<and>
     (\<forall>s. list_all is_digit s \<and> s \<noteq> [] \<and> length s \<le> 12 \<longrightarrow> jp_toLongLong jp s = Some (word_of_int (digits_value s))) \<and>
     (\<forall>s. list_all is_digit s \<and> length s \<le> 9 \<longrightarrow> tp_toInt tp s = word_of_int (digits_value s))"

lemma sint_small: "- (2 ^ (LENGTH('a) - 1)) \<le> i \<Longrightarrow> i < 2 ^ (LENGTH('a) - 1) \<Longrightarrow> sint (word_of_int i :: 'a::len word) = i"
  by (simp add: sint_sbintrunc' signed_take_bit_int_eq_self)

lemma magnitude_word:
  "word_of_int \<bar>sint w\<bar> = (if sint w < 0 then - w else w)"
  by (simp add: abs_if)

lemma duration_read:
  assumes "Duration_isValid s n" and "decimal_platform jp tp"
  shows "deserializeProtobufWellKnownDuration jp tp t (J_String (duration_text (jp_number jp) s n)) = (True, wk_set s n t)"
proof -
  obtain fs where regex: "DurationRegex (duration_text decimal_text s n) =
      Some (if duration_negative s n then [0x2D] else [], decimal_digits (nat \<bar>sint s\<bar>), fs)"
    and fs: "list_all is_digit fs" "length fs \<le> 9" "digits_value fs * 10 ^ (9 - length fs) = \<bar>sint n\<bar>"
      "digits_value fs \<le> \<bar>sint n\<bar>"
    using duration_text_parsed [OF assms(1)] by blast
  let ?S = "word_of_int \<bar>sint s\<bar> :: 64 word" and ?N = "word_of_int (digits_value fs) :: 32 word"
  note bounds = duration_bounds [OF assms(1)]
  have pos: "0 \<le> digits_value fs" using fs(3) by (metis abs_ge_zero zero_le_mult_iff zero_less_numeral zero_less_power not_le)
  have "length (decimal_digits (nat \<bar>sint s\<bar>)) \<le> 12"
    using bounds(1) by (simp add: length_decimal_digits_le)
  then have secs: "jp_toLongLong jp (decimal_digits (nat \<bar>sint s\<bar>)) = Some ?S"
    using assms(2) by (simp add: decimal_platform_def)
  have nanos: "tp_toInt tp fs = ?N" using assms(2) fs(1,2) by (simp add: decimal_platform_def)
  have S: "sint ?S = \<bar>sint s\<bar>" using bounds(1) by (intro sint_small) simp_all
  have N: "sint ?N = digits_value fs" using bounds(2) fs(4) pos by (intro sint_small) simp_all
  have "\<bar>sint s\<bar> \<le> 315576000000" "digits_value fs \<le> 999999999" using bounds fs(4) by linarith+
  then have valid: "Duration_isValid ?S ?N"
    using pos by (simp add: Duration_isValid_def checkDurationRange_def checkSignMatch_iff S N SecondsRange_def NanosRange_def)
  have "?N * 10 ^ (9 - length fs) = word_of_int (digits_value fs * 10 ^ (9 - length fs))"
    by simp
  then have scaled: "?N * 10 ^ (9 - length fs) = word_of_int \<bar>sint n\<bar>" unfolding fs(3) .
  have "?N = 0 \<Longrightarrow> word_of_int \<bar>sint n\<bar> = (0 :: 32 word)" using scaled by simp
  with scaled have nanos': "(if ?N \<noteq> 0 then ?N * 10 ^ (9 - length fs) else ?N) = word_of_int \<bar>sint n\<bar>" by auto
  have sign: "duration_negative s n \<Longrightarrow> - ?S = s \<and> - word_of_int \<bar>sint n\<bar> = n"
    "\<not> duration_negative s n \<Longrightarrow> ?S = s \<and> word_of_int \<bar>sint n\<bar> = n"
    using assms(1) by (auto simp: duration_negative_def magnitude_word Duration_isValid_def checkSignMatch_iff sint_eq_0)
  have number: "jp_number jp = decimal_text" using assms(2) by (simp add: decimal_platform_def)
  show ?thesis
    unfolding number deserializeProtobufWellKnownDuration_def json.case regex option.case prod.case secs nanos Let_def nanos'
    using valid sign by simp
qed

text \<open>A message with the members of \<open>Timestamp\<close> and \<open>Duration\<close>.\<close>

definition time_message :: "qmessage \<Rightarrow> bool" where
  "time_message m \<longleftrightarrow> length (msg_members m) = 2 \<and> unknownEntries m = [] \<and> wk_seconds m \<noteq> None \<and> wk_nanos m \<noteq> None"

lemma time_message_members:
  assumes "time_message m" "wk_seconds m = Some s" "wk_nanos m = Some n"
  shows "m = QMessage (msg_type m) [M_plain (Scalar (V_int64 s)), M_plain (Scalar (V_int32 n))] []"
proof -
  obtain a b where members: "msg_members m = [a, b]"
    using assms(1) by (auto simp: time_message_def length_Suc_conv numeral_2_eq_2)
  have "a = M_plain (Scalar (V_int64 s))" "b = M_plain (Scalar (V_int32 n))"
    using assms members by (auto simp: wk_seconds_def wk_nanos_def get_slot_def split: member.splits variant.splits scalar.splits)
  with members assms(1) show ?thesis by (cases m) (simp add: time_message_def)
qed

lemma wk_set_members:
  "wk_set s n (QMessage t [M_plain (Scalar (V_int64 s0)), M_plain (Scalar (V_int32 n0))] us) =
   QMessage t [M_plain (Scalar (V_int64 s)), M_plain (Scalar (V_int32 n))] us"
  by (simp add: wk_set_def set_slot_def get_slot_def set_plain_def variant_eq_def scalar_eq_def)

lemma wk_set_target:
  assumes "time_message m" "wk_seconds m = Some s" "wk_nanos m = Some n" "time_message t" "msg_type t = msg_type m"
  shows "wk_set s n t = m"
proof -
  obtain s0 n0 where "wk_seconds t = Some s0" "wk_nanos t = Some n0" using assms(4) by (auto simp: time_message_def)
  from time_message_members [OF assms(4) this] wk_set_members [of s n "msg_type t" s0 n0 "[]"]
    time_message_members [OF assms(1-3)] assms(5)
  show ?thesis by simp
qed


subsection \<open>Timestamps\<close>

definition valid_timestamp :: "64 word \<Rightarrow> 32 word \<Rightarrow> bool" where
  "valid_timestamp s n \<longleftrightarrow>
     - 62135596800 \<le> sint s \<and> sint s \<le> 253402300799 \<and> 0 \<le> sint n \<and> sint n \<le> 999999999"

lemma sint_inject: "sint a = sint b \<longleftrightarrow> a = b"
  by (auto intro: signed_word_eqI)

lemma smod_1000: "- 1000 < i smod 1000" "i smod 1000 < (1000 :: int)" "i = 1000 * (i sdiv 1000) + i smod 1000"
  using smod_int_range [of 1000 i] mult_sdiv_smod_eq [of 1000 i] by auto

lemma timestamp_msecs_value:
  assumes "valid_timestamp s n"
  shows "sint (timestamp_msecs s n) = sint s * 1000 + sint n div 1000000"
proof -
  have n: "0 \<le> sint n div 1000000" "sint n div 1000000 \<le> 999"
    using assms by (simp_all add: valid_timestamp_def pos_imp_zdiv_nonneg_iff) linarith
  have "sint n sdiv 1000000 = sint n div 1000000"
    using assms by (auto simp: valid_timestamp_def signed_divide_int_eq_divide_int sgn_if)
  then have "timestamp_msecs s n = word_of_int (sint s * 1000 + sint n div 1000000)"
    by (simp add: timestamp_msecs_def)
  also have "sint \<dots> = sint s * 1000 + sint n div 1000000"
    using assms n by (intro sint_small) (simp_all add: valid_timestamp_def)
  finally show ?thesis .
qed

lemma timestamp_of_msecs_value:
  "sint (fst (timestamp_of_msecs ms)) = sint ms sdiv 1000"
  "sint (snd (timestamp_of_msecs ms)) = (sint ms smod 1000) * 1000000"
proof -
  have range: "- (2 ^ 63) \<le> sint ms" "sint ms < 2 ^ 63"
    using sint_range_size [of ms] by (simp_all add: size_word.rep_eq)
  note parts = smod_1000 [of "sint ms"]
  show "sint (fst (timestamp_of_msecs ms)) = sint ms sdiv 1000"
    unfolding timestamp_of_msecs_def fst_conv
  proof (rule sint_small)
    show "- (2 ^ (LENGTH(64) - 1)) \<le> sint ms sdiv 1000" "sint ms sdiv 1000 < 2 ^ (LENGTH(64) - 1)"
      using range parts by simp_all
  qed
  show "sint (snd (timestamp_of_msecs ms)) = (sint ms smod 1000) * 1000000"
    unfolding timestamp_of_msecs_def snd_conv using parts by (intro sint_small) simp_all
qed

lemma split_1000:
  fixes S q k r :: int
  assumes "S * 1000 + q = 1000 * k + r" "r - q < 1000" "q - r < 1000"
  shows "k = S \<and> r = q"
proof -
  from assms have "1000 * k - 1000 * S < 1000" "1000 * S - 1000 * k < 1000" by linarith+
  then have "k = S" by linarith
  with assms(1) show ?thesis by simp
qed

text \<open>The milliseconds give back the timestamp when no digit is cut off and it is not a fraction before the epoch.\<close>

lemma timestamp_restored_iff:
  assumes "valid_timestamp s n"
  shows "timestamp_of_msecs (timestamp_msecs s n) = (s, n) \<longleftrightarrow> 1000000 dvd sint n \<and> (0 \<le> sint s \<or> sint n = 0)"
proof -
  let ?q = "sint n div 1000000" and ?ms = "sint s * 1000 + sint n div 1000000"
  have q: "0 \<le> ?q" "?q \<le> 999" "sint n = 1000000 * ?q + sint n mod 1000000"
    using assms by (simp_all add: valid_timestamp_def pos_imp_zdiv_nonneg_iff) linarith
  note parts = smod_1000 [of ?ms]
  have sign: "0 \<le> ?ms \<Longrightarrow> 0 \<le> ?ms smod 1000" "?ms \<le> 0 \<Longrightarrow> ?ms smod 1000 \<le> 0"
    by (simp_all add: smod_int_compares)
  have "timestamp_of_msecs (timestamp_msecs s n) = (s, n) \<longleftrightarrow>
      ?ms sdiv 1000 = sint s \<and> (?ms smod 1000) * 1000000 = sint n"
    using timestamp_of_msecs_value [of "timestamp_msecs s n"] timestamp_msecs_value [OF assms]
    by (simp add: prod_eq_iff sint_inject [symmetric])
  also have "\<dots> \<longleftrightarrow> sint n mod 1000000 = 0 \<and> (0 \<le> sint s \<or> sint n = 0)"
  proof (cases "0 \<le> sint s")
    case True
    with q(1) sign(1) have "0 \<le> ?ms smod 1000" by simp
    with q(1,2) parts(2) split_1000 [OF parts(3)]
    have "?ms sdiv 1000 = sint s" "?ms smod 1000 = ?q" by simp_all
    moreover have "?q * 1000000 = sint n \<longleftrightarrow> sint n mod 1000000 = 0" using q(3) by linarith
    ultimately show ?thesis using True by simp
  next
    case False
    with q(2) sign(2) have r: "?ms smod 1000 \<le> 0" by simp
    show ?thesis
    proof
      assume "?ms sdiv 1000 = sint s \<and> (?ms smod 1000) * 1000000 = sint n"
      with parts(3) r q(1) False show "sint n mod 1000000 = 0 \<and> (0 \<le> sint s \<or> sint n = 0)" by auto
    next
      assume "sint n mod 1000000 = 0 \<and> (0 \<le> sint s \<or> sint n = 0)"
      with False have n: "sint n = 0" by simp
      with parts(1,2) split_1000 [OF parts(3)] have "?ms sdiv 1000 = sint s" "?ms smod 1000 = 0" by auto
      with n show "?ms sdiv 1000 = sint s \<and> (?ms smod 1000) * 1000000 = sint n" by simp
    qed
  qed
  finally show ?thesis by (simp add: dvd_eq_mod_eq_0)
qed

end
