(* ===== verification/WellKnownProperties.thy ===== *)
theory WellKnownProperties
  imports JsonRoundtrip WellKnownRoundtrip
begin

text \<open>
  The properties of durations and timestamps in JSON, and messages with such fields.
\<close>

subsection \<open>A platform for times\<close>

text \<open>
  A platform that reads numbers as decimal digits and knows the text of one time, midnight of the
  epoch plus the given milliseconds, \<open>1970-01-01T00:00:00.000Z\<close> for 0.
\<close>

definition one_time_platform :: "qstring \<Rightarrow> 64 word \<Rightarrow> time_platform" where
  "one_time_platform s ms =
     \<lparr>tp_toUpper = map (\<lambda>c. if 0x61 \<le> c \<and> c \<le> 0x7A then c - 0x20 else c),
      tp_toInt = (\<lambda>s. word_of_int (digits_value s)), tp_toString = (\<lambda>t. if t = ms then s else []),
      tp_fromString = (\<lambda>u. if u = s then Some ms else None), tp_toLatin1 = map ucast\<rparr>"

lemma digits_value_bound: "list_all is_digit s \<Longrightarrow> 0 \<le> digits_value s \<and> digits_value s < 10 ^ length s"
proof (induction s rule: rev_induct)
  case Nil
  then show ?case by (simp add: digits_value_def)
next
  case (snoc c s)
  have "0x30 \<le> unat c" "unat c \<le> 0x39" using snoc.prems by (simp_all add: is_digit_def word_le_nat_alt)
  then have "unat c - 0x30 \<le> 9" by linarith
  moreover have "unat (c - 0x30) = unat c - 0x30" 
    using snoc.prems unat_sub [of "0x30" c] by (simp add: is_digit_def word_le_nat_alt)
  ultimately have "0 \<le> uint (c - 0x30)" "uint (c - 0x30) \<le> 9" unfolding uint_nat by linarith+
  moreover have "0 \<le> digits_value s" "digits_value s < 10 ^ length s" using snoc by simp_all
  ultimately show ?case unfolding digits_value_snoc length_append power_add by simp
qed

lemma decimal_value_digits: "list_all is_digit s \<Longrightarrow> decimal_value s = digits_value s"
  by (cases s) (auto simp: decimal_value_def digits_value_def)

lemma document_platform_decimal: "decimal_platform (document_platform oo bs) (one_time_platform u ms)"
proof -
  have "jp_toLongLong (document_platform oo bs) s = Some (word_of_int (digits_value s))"
    if s: "list_all is_digit s" "length s \<le> 12" for s
  proof -
    have "(10 :: int) ^ length s \<le> 10 ^ 12" using s(2) by (intro power_increasing) simp_all
    with digits_value_bound [OF s(1)] have "0 \<le> digits_value s" "digits_value s < 10 ^ 12" by linarith+
    with decimal_value_digits [OF s(1)] show ?thesis by (simp add: document_platform_def)
  qed
  then show ?thesis by (simp add: decimal_platform_def document_platform_def one_time_platform_def)
qed


lemma wk_set_parts:
  assumes "time_message t"
  shows "wk_seconds (wk_set s n t) = Some s" "wk_nanos (wk_set s n t) = Some n"
proof -
  obtain s0 n0 where "wk_seconds t = Some s0" "wk_nanos t = Some n0" using assms by (auto simp: time_message_def)
  from time_message_members [OF assms this] have "wk_set s n t = QMessage (msg_type t) [M_plain (Scalar (V_int64 s)), M_plain (Scalar (V_int32 n))] []"
    using wk_set_members [of s n "msg_type t" s0 n0 "[]"] by simp
  then show "wk_seconds (wk_set s n t) = Some s" "wk_nanos (wk_set s n t) = Some n"
    by (simp_all add: wk_seconds_def wk_nanos_def get_slot_def)
qed

lemma duration_written:
  assumes "wk_seconds m = Some s" "wk_nanos m = Some n" "Duration_isValid s n"
  shows "serializeProtobufWellKnownDuration jp m = J_String (duration_text (jp_number jp) s n)"
  using assms by (simp add: serializeProtobufWellKnownDuration_def)

text \<open>A nested duration is written by its registered handler and read back by it.\<close>

lemma registered_duration_nested:
  assumes "time_message m" "wk_seconds m = Some s" "wk_nanos m = Some n" "Duration_isValid s n" "decimal_platform jp0 tp"
    and "jp_registry jp = registerDurationCustomJsonHandler jp0 tp (msg_type m) r"
    and "time_message (default_message sc (msg_type m))" 
  shows "json_nested jp sc m (J_String (duration_text (jp_number jp0) s n))"
proof -
  have "json_nested jp sc m (serializeProtobufWellKnownDuration jp0 m)"
  proof (rule json_customI)
    show "findCustomJsonSerializer (jp_registry jp) (msg_type m) = Some (serializeProtobufWellKnownDuration jp0)"
      "findCustomJsonDeserializer (jp_registry jp) (msg_type m) = Some (deserializeProtobufWellKnownDuration jp0 tp)"
      by (simp_all add: assms(6) registerDurationCustomJsonHandler_def registerCustomJsonHandler_def
          findCustomJsonSerializer_def findCustomJsonDeserializer_def)
    show "json_plain_value (serializeProtobufWellKnownDuration jp0 m)" by (simp add: duration_written [OF assms(2-4)] json_plain_value_def)
    show "deserializeProtobufWellKnownDuration jp0 tp (default_message sc (msg_type m)) (serializeProtobufWellKnownDuration jp0 m) = (True, m)"
      using duration_read [OF assms(4,5)] wk_set_target [OF assms(1-3,7)]
      by (simp add: duration_written [OF assms(2-4)] default_message_def)
  qed
  then show ?thesis by (simp add: duration_written [OF assms(2-4)])
qed

subsection \<open>Properties\<close>

text \<open>C15: Round trip of durations through JSON: a valid duration is written as a text, and reading it sets the
  seconds and the nanoseconds that were written on whatever message of the class it is read into.
  It relies on QtCore for decimal numbers only: what \<open>QString::number\<close> prints, and what
  \<open>toLongLong\<close> and \<open>toInt\<close> make of digits.\<close>

theorem duration_json_roundtrip:
  assumes "time_message m" "wk_seconds m = Some s" "wk_nanos m = Some n" "Duration_isValid s n"
    and "decimal_platform jp tp" and "time_message t" "msg_type t = msg_type m"
  shows "\<exists>str. serializeProtobufWellKnownDuration jp m = J_String str \<and>
    deserializeProtobufWellKnownDuration jp tp t (J_String str) = (True, m)"
  using duration_written [OF assms(2-4)] duration_read [OF assms(4,5)] wk_set_target [OF assms(1-3,6,7)] by simp

abbreviation time_value :: "64 word \<Rightarrow> 32 word \<Rightarrow> qmessage" where
  "time_value s n \<equiv> QMessage 0 [M_plain (Scalar (V_int64 s)), M_plain (Scalar (V_int32 n))] []"

lemma time_value_parts: "time_message (time_value s n)" "wk_seconds (time_value s n) = Some s" "wk_nanos (time_value s n) = Some n"
  by (simp_all add: time_message_def wk_seconds_def wk_nanos_def get_slot_def)

theorem duration_json_roundtrip_witness:
  "\<exists>str. serializeProtobufWellKnownDuration (document_platform [] []) (time_value 0 (- 50000000)) = J_String str \<and>
     deserializeProtobufWellKnownDuration (document_platform [] []) (one_time_platform [] 0) (time_value 7 8) (J_String str) =
       (True, time_value 0 (- 50000000))"
proof (rule duration_json_roundtrip [OF time_value_parts _ document_platform_decimal time_value_parts(1)])
  show "Duration_isValid 0 (- 50000000)"
    by (simp add: Duration_isValid_def checkDurationRange_def checkSignMatch_def SecondsRange_def NanosRange_def)
qed simp

text \<open>C16: Which timestamps survive JSON: when QtCore reads the text of a time in milliseconds back, a
  valid timestamp is restored exactly when its nanoseconds are whole milliseconds and it is not a
  fraction of a second before the epoch: the digits below a millisecond are lost, and a time before
  1970 with a fraction comes back with negative nanoseconds.\<close>

theorem timestamp_json_roundtrip_iff:
  assumes "time_message m" "wk_seconds m = Some s" "wk_nanos m = Some n" "valid_timestamp s n"
    and "tp_toString tp (timestamp_msecs s n) = str" "tp_fromString tp str = Some (timestamp_msecs s n)"
    and "tp_toUpper tp str = str" "0x20 \<notin> set str" "TimeStampEnding str"
    and "time_message t" "msg_type t = msg_type m"
  shows "deserializeProtobufWellKnownTimestamp tp t (serializeProtobufWellKnownTimestamp tp m) = (True, m) \<longleftrightarrow>
    1000000 dvd sint n \<and> (0 \<le> sint s \<or> sint n = 0)"
proof -
  obtain s' n' where parts: "timestamp_of_msecs (timestamp_msecs s n) = (s', n')" by fastforce
  have "deserializeProtobufWellKnownTimestamp tp t (serializeProtobufWellKnownTimestamp tp m) = (True, wk_set s' n' t)"
    using assms(2,3,5-9) parts
    by (simp add: serializeProtobufWellKnownTimestamp_def deserializeProtobufWellKnownTimestamp_def)
  moreover have "wk_set s' n' t = m \<longleftrightarrow> (s', n') = (s, n)"
    using wk_set_target [OF assms(1-3,10,11)] wk_set_parts [OF assms(10), of s' n'] assms(2,3) by auto
  ultimately show ?thesis using timestamp_restored_iff [OF assms(4)] parts by simp
qed


text \<open>\<open>1969-12-31T23:59:59.500Z\<close>\<close>

definition before_epoch_text :: qstring where
  "before_epoch_text =
     [0x31, 0x39, 0x36, 0x39, 0x2D, 0x31, 0x32, 0x2D, 0x33, 0x31, 0x54, 0x32, 0x33, 0x3A, 0x35, 0x39, 0x3A, 0x35, 0x39,
      0x2E, 0x35, 0x30, 0x30, 0x5A]"

theorem timestamp_json_roundtrip_iff_witness:
  "deserializeProtobufWellKnownTimestamp (one_time_platform before_epoch_text (- 500)) (time_value 7 8)
     (serializeProtobufWellKnownTimestamp (one_time_platform before_epoch_text (- 500)) (time_value (- 1) 500000000)) \<noteq>
       (True, time_value (- 1) 500000000) \<and>
   serializeProtobufWellKnownTimestamp (one_time_platform before_epoch_text (- 500)) (time_value (- 1) 500000000) =
     J_String before_epoch_text"
proof -
  let ?tp = "one_time_platform before_epoch_text (- 500)"
  have msecs: "timestamp_msecs (- 1) 500000000 = - 500" by (simp add: timestamp_msecs_def signed_divide_int_eq_divide_int)
  have ending: "TimeStampEnding before_epoch_text"
    by (simp add: TimeStampEnding_def timestamp_ending_def before_epoch_text_def)
  have upper: "tp_toUpper ?tp before_epoch_text = before_epoch_text" "0x20 \<notin> set before_epoch_text"
    by (simp_all add: one_time_platform_def before_epoch_text_def)
  have written: "tp_toString ?tp (timestamp_msecs (- 1) 500000000) = before_epoch_text"
    "tp_fromString ?tp before_epoch_text = Some (timestamp_msecs (- 1) 500000000)"
    by (simp_all add: msecs one_time_platform_def)
  have valid: "valid_timestamp (- 1) 500000000" by (simp add: valid_timestamp_def)
  from timestamp_json_roundtrip_iff [OF time_value_parts valid written upper ending time_value_parts(1) [of 7 8]]
  show ?thesis
    using written time_value_parts by (simp add: serializeProtobufWellKnownTimestamp_def)
qed

end
