(* ===== verification/AnySupport.thy ===== *)
theory AnySupport
  imports EndToEnd JsonRoundtrip
begin

text \<open>
  \<open>QtProtobuf::Any\<close> (src/src/wellknown/qprotobufanysupport.cpp): a message in its serialized form beside
  the URL of its type.
\<close>

subsection \<open>State\<close>

record any =
  any_typeUrl :: qstring
  any_value :: "byte list"

definition new_any :: any where "new_any = \<lparr>any_typeUrl = [], any_value = []\<rparr>"

definition Any_setTypeUrl :: "qstring \<Rightarrow> any \<Rightarrow> any" where
  "Any_setTypeUrl typeUrl a = (if any_typeUrl a \<noteq> typeUrl then a\<lparr>any_typeUrl := typeUrl\<rparr> else a)"

definition Any_setValue :: "byte list \<Rightarrow> any \<Rightarrow> any" where
  "Any_setValue v a = (if any_value a \<noteq> v then a\<lparr>any_value := v\<rparr> else a)"

definition Any_comparesEqual :: "any \<Rightarrow> any \<Rightarrow> bool" where
  "Any_comparesEqual a b \<longleftrightarrow> any_typeUrl a = any_typeUrl b \<and> any_value a = any_value b"

subsection \<open>Packing and unpacking\<close>

text \<open>\<open>"type.googleapis.com"\<close>\<close>

definition defaultUrlPrefix :: qstring where
  "defaultUrlPrefix = map (\<lambda>c. of_nat (of_char c)) ''type.googleapis.com''"

text \<open>The functions take the full name of a message as QtCore reads it from its UTF-8 form.\<close>

definition message_name :: "platform \<Rightarrow> schema \<Rightarrow> qmessage \<Rightarrow> qstring" where
  "message_name p sc m = fromUtf8 p (messageFullName (propertyOrdering sc m))"

definition Any_fromMessageImpl ::
  "'m message_serializer \<Rightarrow> ('m \<Rightarrow> qstring) \<Rightarrow> 'm \<Rightarrow> qstring \<Rightarrow> any" where
  "Any_fromMessageImpl ser name m typeUrlPrefix =
     Any_setTypeUrl (typeUrlPrefix @ 0x2F # name m) (Any_setValue (fst (ser_serialize ser m)) new_any)"

definition last_segment :: "qstring \<Rightarrow> qstring" where
  "last_segment s = rev (takeWhile (\<lambda>c. c \<noteq> 0x2F) (rev s))"

definition Any_unpackImpl ::
  "'m message_serializer \<Rightarrow> ('m \<Rightarrow> qstring) \<Rightarrow> any \<Rightarrow> 'm \<Rightarrow> (bool \<times> 'm) run" where
  "Any_unpackImpl ser name a m =
     (if last_segment (any_typeUrl a) \<noteq> name m then Ret (False, m)
      else ser_deserialize ser m (any_value a))"

text \<open>\<open>unpack\<close> of a class, whose default instance is the second argument.\<close>

definition Any_unpack ::
  "'m message_serializer \<Rightarrow> ('m \<Rightarrow> qstring) \<Rightarrow> 'm \<Rightarrow> any \<Rightarrow> 'm option run" where
  "Any_unpack ser name m a =
     run_bind (Any_unpackImpl ser name a m) (\<lambda>(ok, m'). Ret (if ok then Some m' else None))"

subsection \<open>The generated class of the same name\<close>

text \<open>
  The fields of \<open>google.protobuf.Any\<close> are the type URL and the value. The class has the index \<open>t\<close> in
  the schema.
\<close>

definition to_real_any :: "schema \<Rightarrow> nat \<Rightarrow> any \<Rightarrow> qmessage" where
  "to_real_any sc t a =
     (let m = default_message sc t;
          m1 = set_slot 1 (set_plain (Scalar (V_QByteArray (any_value a))) (get_slot m 1)) m
      in set_slot 0 (set_plain (Scalar (V_QString (any_typeUrl a))) (get_slot m1 0)) m1)"

definition real_typeUrl :: "qmessage \<Rightarrow> qstring" where
  "real_typeUrl m = (case get_slot m 0 of M_plain (Scalar (V_QString s)) \<Rightarrow> s | _ \<Rightarrow> [])"

definition real_value :: "qmessage \<Rightarrow> byte list" where
  "real_value m = (case get_slot m 1 of M_plain (Scalar (V_QByteArray s)) \<Rightarrow> s | _ \<Rightarrow> [])"

definition of_real_any :: "qmessage \<Rightarrow> any \<Rightarrow> any" where
  "of_real_any m a = Any_setValue (real_value m) (Any_setTypeUrl (real_typeUrl m) a)"

definition Any_fromAnyMessageImpl ::
  "qmessage message_serializer \<Rightarrow> platform \<Rightarrow> schema \<Rightarrow> nat \<Rightarrow> any \<Rightarrow> qstring \<Rightarrow> any" where
  "Any_fromAnyMessageImpl ser p sc t a typeUrlPrefix =
     Any_fromMessageImpl ser (message_name p sc) (to_real_any sc t a) typeUrlPrefix"

definition Any_unpack_Any :: "qmessage message_serializer \<Rightarrow> platform \<Rightarrow> schema \<Rightarrow> nat \<Rightarrow> any \<Rightarrow> any option run" where
  "Any_unpack_Any ser p sc t a =
     run_bind (Any_unpackImpl ser (message_name p sc) a (default_message sc t))
       (\<lambda>(ok, m). Ret (if ok then Some (of_real_any m new_any) else None))"

subsection \<open>Handlers of fields\<close>

text \<open>
  The handlers registered for fields of the type and of lists of it: the serializer and the deserializer
  of a message field, which they are given, thread the state \<open>'s\<close>. A null object is \<open>None\<close>.
\<close>

definition any_serializerProxy ::
  "schema \<Rightarrow> nat \<Rightarrow> (qmessage \<Rightarrow> 's \<Rightarrow> 's) \<Rightarrow> any option \<Rightarrow> 's \<Rightarrow> 's" where
  "any_serializerProxy sc t serializer obj s =
     (case obj of
        None \<Rightarrow> s
      | Some a \<Rightarrow> if any_typeUrl a = [] then s else serializer (to_real_any sc t a) s)"

definition any_listSerializerProxy ::
  "schema \<Rightarrow> nat \<Rightarrow> (qmessage \<Rightarrow> 's \<Rightarrow> 's) \<Rightarrow> any list option \<Rightarrow> 's \<Rightarrow> 's" where
  "any_listSerializerProxy sc t serializer obj s =
     (case obj of None \<Rightarrow> s | Some as \<Rightarrow> fold (\<lambda>a. serializer (to_real_any sc t a)) as s)"

definition any_deserializerProxy ::
  "schema \<Rightarrow> nat \<Rightarrow> (qmessage \<Rightarrow> 's \<Rightarrow> bool \<times> qmessage \<times> 's) \<Rightarrow> any option \<Rightarrow> 's \<Rightarrow> any option \<times> 's" where
  "any_deserializerProxy sc t deserializer obj s =
     (case obj of
        None \<Rightarrow> (None, s)
      | Some a \<Rightarrow> (case deserializer (default_message sc t) s of
                    (ok, m, s') \<Rightarrow> (Some (if ok then of_real_any m a else a), s')))"

definition any_listDeserializerProxy ::
  "schema \<Rightarrow> nat \<Rightarrow> (qmessage \<Rightarrow> 's \<Rightarrow> bool \<times> qmessage \<times> 's) \<Rightarrow> any list option \<Rightarrow> 's \<Rightarrow> any list option \<times> 's" where
  "any_listDeserializerProxy sc t deserializer obj s =
     (case obj of
        None \<Rightarrow> (None, s)
      | Some as \<Rightarrow> (case deserializer (default_message sc t) s of
                     (ok, m, s') \<Rightarrow> (Some (if ok then as @ [of_real_any m new_any] else as), s')))"

subsection \<open>Laws\<close>

text \<open>A codec whose messages of one class have one name.\<close>

locale named_codec = message_codec ser encodes same_class
  for ser :: "'m message_serializer" and encodes :: "'m \<Rightarrow> byte list \<Rightarrow> bool" and same_class :: "'m \<Rightarrow> 'm \<Rightarrow> bool" +
  fixes name :: "'m \<Rightarrow> qstring"
  assumes same_name: "same_class t m \<Longrightarrow> name t = name m"
begin

lemma packed:
  assumes "encodes m bs"
  shows "Any_fromMessageImpl ser name m prefix = \<lparr>any_typeUrl = prefix @ 0x2F # name m, any_value = bs\<rparr>"
proof -
  obtain e where "ser_serialize ser m = (bs, NoError, e)" using writes [OF assms] by blast
  then show ?thesis by (auto simp: Any_fromMessageImpl_def Any_setTypeUrl_def Any_setValue_def new_any_def)
qed

lemma last_segment_name: "0x2F \<notin> set n \<Longrightarrow> last_segment (prefix @ 0x2F # n) = n"
  by (simp add: last_segment_def takeWhile_append)

lemma unpacked:
  assumes "encodes m bs" "0x2F \<notin> set (name m)"
  shows "same_class t m \<Longrightarrow> Any_unpack ser name t (Any_fromMessageImpl ser name m prefix) = Ret (Some m)"
    and "name t \<noteq> name m \<Longrightarrow> Any_unpack ser name t (Any_fromMessageImpl ser name m prefix) = Ret None"
  using reads [OF assms(1), of t] same_name [of t m] last_segment_name [OF assms(2)]
  by (simp_all add: packed [OF assms(1)] Any_unpack_def Any_unpackImpl_def)

end

text \<open>Both serializers of the library are such codecs.\<close>

lemma same_class_name: "msg_type t = msg_type m \<Longrightarrow> message_name p sc t = message_name p sc m"
  by (simp add: message_name_def propertyOrdering_def)

interpretation wire_any: named_codec "wire_serializer fuel env sc p errText s" "wire_encodes fuel env sc p s"
    "\<lambda>t m. msg_type t = msg_type m" "message_name p sc"
  for fuel env sc p errText s
  by unfold_locales (rule same_class_name)

definition json_codec ::
  "nat \<Rightarrow> json_platform \<Rightarrow> schema \<Rightarrow> (ser_error \<Rightarrow> string) \<Rightarrow> json_serializer \<Rightarrow> json_reader \<Rightarrow> qmessage message_serializer" where
  "json_codec fuel jp sc errText s d =
     \<lparr>ser_serialize = (\<lambda>m. case qjson_serializeMessage fuel jp sc m s of
        Some (bs, s') \<Rightarrow> (bs, js_lastError s', errText (js_lastError s')) | None \<Rightarrow> ([], UnknownType, [])),
      ser_deserialize = (\<lambda>m bs. run_bind (json_read fuel jp sc m bs d) (\<lambda>(ok, m', d'). Ret (ok, m')))\<rparr>"

definition json_encodes :: "nat \<Rightarrow> json_platform \<Rightarrow> schema \<Rightarrow> qmessage \<Rightarrow> byte list \<Rightarrow> bool" where
  "json_encodes fuel jp sc m bs \<longleftrightarrow>
     (\<exists>oo. json_message jp sc m oo \<and> jp_toJson jp oo = bs \<and> jp_fromJson jp bs = Some (J_Object oo) \<and>
       json_weight (J_Object oo) \<le> fuel)"

interpretation json_format: message_codec "json_codec fuel jp sc errText s d" "json_encodes fuel jp sc"
    "\<lambda>t m. msg_type t = msg_type m"
  for fuel jp sc errText s d
proof
  fix m bs assume "json_encodes fuel jp sc m bs"
  then obtain oo where oo: "json_message jp sc m oo" "jp_toJson jp oo = bs" "jp_fromJson jp bs = Some (J_Object oo)"
    "json_weight (J_Object oo) \<le> fuel" by (auto simp: json_encodes_def)
  show "\<exists>e. ser_serialize (json_codec fuel jp sc errText s d) m = (bs, NoError, e)"
    using json_serialize_object [OF oo(1,4)] oo(2) by (simp add: json_codec_def)
  fix t assume t: "msg_type t = msg_type m"
  from json_read_object [OF oo(1,4,3) t, of d]
  show "ser_deserialize (json_codec fuel jp sc errText s d) t bs = Ret (True, m)"
    by (auto simp: json_codec_def)
qed

interpretation json_any: named_codec "json_codec fuel jp sc errText s d" "json_encodes fuel jp sc"
    "\<lambda>t m. msg_type t = msg_type m" "message_name p sc"
  for fuel jp sc errText s d p
  by unfold_locales (rule same_class_name)

text \<open>The members of the generated class.\<close>

definition any_class :: "schema \<Rightarrow> nat \<Rightarrow> bool" where
  "any_class sc t \<longleftrightarrow> t < length sc \<and> mc_defaults (sc ! t) = [M_plain (Scalar (V_QString [])), M_plain (Scalar (V_QByteArray []))]"

lemma real_any_members:
  assumes "any_class sc t"
  shows "to_real_any sc t a =
    QMessage t [M_plain (Scalar (V_QString (any_typeUrl a))), M_plain (Scalar (V_QByteArray (any_value a)))] []"
proof -
  have "default_message sc t = QMessage t [M_plain (Scalar (V_QString [])), M_plain (Scalar (V_QByteArray []))] []"
    using assms by (simp add: any_class_def default_message_def)
  then show ?thesis
    by (simp add: to_real_any_def Let_def get_slot_def set_slot_def set_plain_def variant_eq_def scalar_eq_def)
qed

lemma real_any_back:
  assumes "any_class sc t"
  shows "of_real_any (to_real_any sc t a) b = a"
  unfolding real_any_members [OF assms]
  by (cases a; cases b)
    (simp add: of_real_any_def real_typeUrl_def real_value_def get_slot_def Any_setTypeUrl_def Any_setValue_def)

text \<open>A packed \<open>Any\<close> comes back too.\<close>

lemma any_in_any:
  assumes "any_class sc t" and "wire_encodes fuel env sc p s (to_real_any sc t a) bs"
    and "0x2F \<notin> set (message_name p sc (default_message sc t))"
  shows "Any_unpack_Any (wire_serializer fuel env sc p errText s) p sc t
      (Any_fromAnyMessageImpl (wire_serializer fuel env sc p errText s) p sc t a prefix) = Ret (Some a)"
proof -
  have m: "msg_type (default_message sc t) = msg_type (to_real_any sc t a)"
    unfolding real_any_members [OF assms(1)] by (simp add: default_message_def)
  note name = same_class_name [OF m, of p sc]
  have "Any_unpack (wire_serializer fuel env sc p errText s) (message_name p sc) (default_message sc t)
      (Any_fromAnyMessageImpl (wire_serializer fuel env sc p errText s) p sc t a prefix) = Ret (Some (to_real_any sc t a))"
    unfolding Any_fromAnyMessageImpl_def
    by (rule wire_any.unpacked(1) [OF assms(2) _ m]) (use assms(3) name in simp)
  then show ?thesis
    using real_any_back [OF assms(1)]
    by (cases "Any_unpackImpl (wire_serializer fuel env sc p errText s) (message_name p sc)
        (Any_fromAnyMessageImpl (wire_serializer fuel env sc p errText s) p sc t a prefix) (default_message sc t)")
      (auto simp: Any_unpack_def Any_unpack_Any_def split: if_splits)
qed

text \<open>What a message field holds of an \<open>Any\<close>: one with an empty URL is not written, and is kept in a list.\<close>

lemma proxies_write:
  "any_serializerProxy sc t serializer (Some a) s = (if any_typeUrl a = [] then s else serializer (to_real_any sc t a) s)"
  "any_listSerializerProxy sc t serializer (Some as) s = fold serializer (map (to_real_any sc t) as) s"
  by (simp_all add: any_serializerProxy_def any_listSerializerProxy_def fold_map comp_def)

text \<open>Reading what was written gives back a list one element at a time.\<close>

lemma list_proxy_reads:
  assumes "any_class sc t" and "deserializer (default_message sc t) s = (True, to_real_any sc t a, s')"
  shows "any_listDeserializerProxy sc t deserializer (Some as) s = (Some (as @ [a]), s')"
    and "any_deserializerProxy sc t deserializer (Some b) s = (Some a, s')"
  using assms(2) real_any_back [OF assms(1)] by (simp_all add: any_listDeserializerProxy_def any_deserializerProxy_def)

text \<open>C17: Round trip of \<open>Any\<close>: a message that is packed by the serializer of the wire format is unpacked as
  that message by a request for its class, and a request for a class with another full name gives
  nothing, without reading the value. The prefix of the URL is free, so it may hold slashes.\<close>

theorem any_unpack_roundtrip:
  assumes "wire_encodes fuel env sc p s m bs" and "0x2F \<notin> set (message_name p sc m)"
  shows "(msg_type t = msg_type m \<longrightarrow>
      Any_unpack (wire_serializer fuel env sc p errText s) (message_name p sc) t
        (Any_fromMessageImpl (wire_serializer fuel env sc p errText s) (message_name p sc) m prefix) = Ret (Some m)) \<and>
    (message_name p sc t \<noteq> message_name p sc m \<longrightarrow>
      Any_unpack (wire_serializer fuel env sc p errText s) (message_name p sc) t
        (Any_fromMessageImpl (wire_serializer fuel env sc p errText s) (message_name p sc) m prefix) = Ret None)"
  using wire_any.unpacked [OF assms] by blast

theorem any_unpack_roundtrip_witness:
  "Any_unpack demo_wire (message_name latin1_platform wire_schema) (QMessage 0 [] [])
     (Any_fromMessageImpl demo_wire (message_name latin1_platform wire_schema) demo_message defaultUrlPrefix) =
       Ret (Some demo_message) \<and>
   Any_unpack demo_wire (message_name latin1_platform wire_schema) (QMessage 1 [] [])
     (Any_fromMessageImpl demo_wire (message_name latin1_platform wire_schema) demo_message defaultUrlPrefix) = Ret None"
proof -
  have "messageFullName (printFieldsOrdering demo_descriptor) = desc_full_name demo_descriptor"
    using generated_table_describes_fields [OF demo_valid(1), of 0] by (simp add: demo_generated)
  then have name: "message_name latin1_platform wire_schema demo_message = map ucast (desc_full_name demo_descriptor)"
    by (simp add: message_name_def propertyOrdering_def wire_schema_nth generated_class_def latin1_platform_def demo_message_def)
  have other: "message_name latin1_platform wire_schema (QMessage 1 [] []) \<noteq> message_name latin1_platform wire_schema demo_message"
    using map_entry_names(3) [OF wire_schema_nth(2)] unfolding name
    by (simp add: message_name_def propertyOrdering_def f_ordering_def latin1_platform_def demo_descriptor_def)
  have "0x2F \<notin> set (message_name latin1_platform wire_schema demo_message)"
    unfolding name by (simp add: demo_descriptor_def)
  from any_unpack_roundtrip [OF demo_encodes this, of "QMessage 0 [] []" _ defaultUrlPrefix]
    any_unpack_roundtrip [OF demo_encodes this, of "QMessage 1 [] []" _ defaultUrlPrefix] other
  show ?thesis by (simp add: demo_wire_def demo_message_def)
qed

end
