(* ===== verification/QtTypes.thy ===== *)
theory QtTypes
  imports WireSerializer
begin

text \<open>
  Fields of types of QtCore and QtGui (src/src/protobufqttypes): the handlers that
  \<open>registerQtTypeHandler\<close> registers, and the conversions of values to the messages that stand for them
  and back. The Qt types are parameters: a record holds the constructor and the functions of a type
  that the conversions call.
\<close>

subsection \<open>The handlers\<close>

text \<open>
  \<open>convert\<close> of a Qt value may give nothing, then nothing is written. The handler that reads does not
  look at what the deserializer returns. The functions for a message field, which the handlers are
  given, thread the state \<open>'s\<close>.
\<close>

definition qt_serialize ::
  "('q \<Rightarrow> qmessage option) \<Rightarrow> (qmessage \<Rightarrow> 's \<Rightarrow> 's) \<Rightarrow> 'q \<Rightarrow> 's \<Rightarrow> 's" where
  "qt_serialize conv serializer q s = (case conv q of Some object \<Rightarrow> serializer object s | None \<Rightarrow> s)"

definition qt_deserialize ::
  "(qmessage \<Rightarrow> 'q option) \<Rightarrow> (qmessage \<Rightarrow> 's \<Rightarrow> bool \<times> qmessage \<times> 's) \<Rightarrow> qmessage \<Rightarrow> 'q \<Rightarrow> 's \<Rightarrow> 'q \<times> 's" where
  "qt_deserialize conv deserializer object q s =
     (case deserializer object s of (ok, object', s') \<Rightarrow>
        (case conv object' of None \<Rightarrow> q | Some r \<Rightarrow> r, s'))"

subsection \<open>Objects of the generated classes\<close>

definition put_value :: "nat \<Rightarrow> scalar \<Rightarrow> qmessage \<Rightarrow> qmessage" where
  "put_value i x m =
     set_slot i (if scalar_type_of x = T_float \<or> scalar_type_of x = T_double then set_floating x (get_slot m i)
                 else set_plain (Scalar x) (get_slot m i)) m"

definition scalar_at :: "qmessage \<Rightarrow> nat \<Rightarrow> scalar" where
  "scalar_at m i = (case plain_value (get_slot m i) of Scalar s \<Rightarrow> s | _ \<Rightarrow> V_boolean False)"

fun un_int32 :: "scalar \<Rightarrow> 32 word" where "un_int32 (V_int32 w) = w" | "un_int32 _ = 0"
fun un_sint32 :: "scalar \<Rightarrow> 32 word" where "un_sint32 (V_sint32 w) = w" | "un_sint32 _ = 0"
fun un_uint32 :: "scalar \<Rightarrow> 32 word" where "un_uint32 (V_uint32 w) = w" | "un_uint32 _ = 0"
fun un_int64 :: "scalar \<Rightarrow> 64 word" where "un_int64 (V_int64 w) = w" | "un_int64 _ = 0"
fun un_uint64 :: "scalar \<Rightarrow> 64 word" where "un_uint64 (V_uint64 w) = w" | "un_uint64 _ = 0"
fun un_float :: "scalar \<Rightarrow> 32 word" where "un_float (V_float w) = w" | "un_float _ = 0"
fun un_double :: "scalar \<Rightarrow> 64 word" where "un_double (V_double w) = w" | "un_double _ = 0"
fun un_string :: "scalar \<Rightarrow> qstring" where "un_string (V_QString s) = s" | "un_string _ = []"
fun un_bytes :: "scalar \<Rightarrow> byte list" where "un_bytes (V_QByteArray s) = s" | "un_bytes _ = []"

definition scalars_at :: "qmessage \<Rightarrow> nat \<Rightarrow> scalar list" where
  "scalars_at m i = (case plain_value (get_slot m i) of Scalars t vs \<Rightarrow> vs | _ \<Rightarrow> [])"

definition put_scalars :: "nat \<Rightarrow> scalar_type \<Rightarrow> scalar list \<Rightarrow> qmessage \<Rightarrow> qmessage" where
  "put_scalars i t vs m = set_slot i (set_plain (Scalars t vs) (get_slot m i)) m"

subsection \<open>Types with one value\<close>

text \<open>A constructor from the value, the value, and the tests.\<close>

record ('q, 'v) single_type =
  sg_make :: "'v \<Rightarrow> 'q"
  sg_get :: "'q \<Rightarrow> 'v"
  sg_isValid :: "'q \<Rightarrow> bool"
  sg_isNull :: "'q \<Rightarrow> bool"
  sg_isEmpty :: "'q \<Rightarrow> bool"

definition QUrl_from :: "('q, qstring) single_type \<Rightarrow> qmessage \<Rightarrow> 'q option" where
  "QUrl_from q from' =
     (let url = sg_make q (un_string (scalar_at from' 0))
      in if sg_isValid q url \<or> sg_isEmpty q url then Some url else None)"

definition QUrl_to :: "('q, qstring) single_type \<Rightarrow> schema \<Rightarrow> nat \<Rightarrow> 'q \<Rightarrow> qmessage option" where
  "QUrl_to q sc t from' =
     (if sg_isValid q from' \<or> sg_isEmpty q from'
      then Some (put_value 0 (V_QString (sg_get q from')) (default_message sc t)) else None)"

text \<open>A \<open>QChar\<close> is its UTF-16 code unit; the constructor cuts off the upper half.\<close>

definition QChar_from :: "qmessage \<Rightarrow> 16 word option" where
  "QChar_from from' = Some (ucast (un_uint32 (scalar_at from' 0)))"

definition QChar_to :: "schema \<Rightarrow> nat \<Rightarrow> 16 word \<Rightarrow> qmessage option" where
  "QChar_to sc t from' = Some (put_value 0 (V_uint32 (ucast from')) (default_message sc t))"

definition QUuid_from :: "('q, byte list) single_type \<Rightarrow> qmessage \<Rightarrow> 'q option" where
  "QUuid_from q from' =
     (if length (un_bytes (scalar_at from' 0)) \<noteq> 16 then None
      else Some (sg_make q (un_bytes (scalar_at from' 0))))"

definition QUuid_to :: "('q, byte list) single_type \<Rightarrow> schema \<Rightarrow> nat \<Rightarrow> 'q \<Rightarrow> qmessage option" where
  "QUuid_to q sc t from' =
     (if length (sg_get q from') \<noteq> 16 then None
      else Some (put_value 0 (V_QByteArray (sg_get q from')) (default_message sc t)))"

definition QTime_from :: "('q, 32 word) single_type \<Rightarrow> qmessage \<Rightarrow> 'q option" where
  "QTime_from q from' =
     (let time = sg_make q (un_int32 (scalar_at from' 0)) in if sg_isValid q time then Some time else None)"

definition QTime_to :: "('q, 32 word) single_type \<Rightarrow> schema \<Rightarrow> nat \<Rightarrow> 'q \<Rightarrow> qmessage option" where
  "QTime_to q sc t from' =
     (if \<not> sg_isValid q from' \<or> sg_isNull q from' then None
      else Some (put_value 0 (V_int32 (sg_get q from')) (default_message sc t)))"

definition QDate_from :: "('q, 64 word) single_type \<Rightarrow> qmessage \<Rightarrow> 'q option" where
  "QDate_from q from' =
     (let date = sg_make q (un_int64 (scalar_at from' 0)) in if sg_isValid q date then Some date else None)"

definition QDate_to :: "('q, 64 word) single_type \<Rightarrow> schema \<Rightarrow> nat \<Rightarrow> 'q \<Rightarrow> qmessage option" where
  "QDate_to q sc t from' =
     (if \<not> sg_isValid q from' \<or> sg_isNull q from' then None
      else Some (put_value 0 (V_int64 (sg_get q from')) (default_message sc t)))"

text \<open>The segments of a version number are integers of 32 bits.\<close>

definition QVersionNumber_from :: "('q, 32 word list) single_type \<Rightarrow> qmessage \<Rightarrow> 'q option" where
  "QVersionNumber_from q from' =
     (if length (scalars_at from' 0) = 0 then None else Some (sg_make q (map un_int32 (scalars_at from' 0))))"

definition QVersionNumber_to :: "('q, 32 word list) single_type \<Rightarrow> schema \<Rightarrow> nat \<Rightarrow> 'q \<Rightarrow> qmessage option" where
  "QVersionNumber_to q sc t from' =
     (if length (sg_get q from') = 0 then None
      else Some (put_scalars 0 T_int32 (map V_int32 (sg_get q from')) (default_message sc t)))"

subsection \<open>Sizes, points and rectangles\<close>

record ('q, 'v) size_type =
  sz_make :: "'v \<Rightarrow> 'v \<Rightarrow> 'q"
  sz_width :: "'q \<Rightarrow> 'v"
  sz_height :: "'q \<Rightarrow> 'v"
  sz_isNull :: "'q \<Rightarrow> bool"
  sz_isEmpty :: "'q \<Rightarrow> bool"
  sz_isValid :: "'q \<Rightarrow> bool"

record ('q, 'v) point_type =
  pt_make :: "'v \<Rightarrow> 'v \<Rightarrow> 'q"
  pt_x :: "'q \<Rightarrow> 'v"
  pt_y :: "'q \<Rightarrow> 'v"
  pt_isNull :: "'q \<Rightarrow> bool"

text \<open>The constructor of a rectangle from its corner and its size, and the functions of the type.\<close>

record ('q, 'v) rect_type =
  rc_make :: "'v \<Rightarrow> 'v \<Rightarrow> 'v \<Rightarrow> 'v \<Rightarrow> 'q"
  rc_x :: "'q \<Rightarrow> 'v"
  rc_y :: "'q \<Rightarrow> 'v"
  rc_width :: "'q \<Rightarrow> 'v"
  rc_height :: "'q \<Rightarrow> 'v"
  rc_isNull :: "'q \<Rightarrow> bool"
  rc_isEmpty :: "'q \<Rightarrow> bool"
  rc_isValid :: "'q \<Rightarrow> bool"

definition QSize_from :: "('q, 32 word) size_type \<Rightarrow> qmessage \<Rightarrow> 'q option" where
  "QSize_from q from' = Some (sz_make q (un_int32 (scalar_at from' 0)) (un_int32 (scalar_at from' 1)))"

definition QSize_to :: "('q, 32 word) size_type \<Rightarrow> schema \<Rightarrow> nat \<Rightarrow> 'q \<Rightarrow> qmessage option" where
  "QSize_to q sc t from' =
     (if sz_isNull q from' \<or> sz_isEmpty q from' \<or> \<not> sz_isValid q from' then None
      else Some (put_value 1 (V_int32 (sz_height q from')) (put_value 0 (V_int32 (sz_width q from')) (default_message sc t))))"

definition QSizeF_from :: "('q, 64 word) size_type \<Rightarrow> qmessage \<Rightarrow> 'q option" where
  "QSizeF_from q from' = Some (sz_make q (un_double (scalar_at from' 0)) (un_double (scalar_at from' 1)))"

definition QSizeF_to :: "('q, 64 word) size_type \<Rightarrow> schema \<Rightarrow> nat \<Rightarrow> 'q \<Rightarrow> qmessage option" where
  "QSizeF_to q sc t from' =
     (if sz_isNull q from' \<or> sz_isEmpty q from' \<or> \<not> sz_isValid q from' then None
      else Some (put_value 1 (V_double (sz_height q from')) (put_value 0 (V_double (sz_width q from')) (default_message sc t))))"

definition QPoint_from :: "('q, 32 word) point_type \<Rightarrow> qmessage \<Rightarrow> 'q option" where
  "QPoint_from q from' = Some (pt_make q (un_sint32 (scalar_at from' 0)) (un_sint32 (scalar_at from' 1)))"

definition QPoint_to :: "('q, 32 word) point_type \<Rightarrow> schema \<Rightarrow> nat \<Rightarrow> 'q \<Rightarrow> qmessage option" where
  "QPoint_to q sc t from' =
     (if pt_isNull q from' then None
      else Some (put_value 1 (V_sint32 (pt_y q from')) (put_value 0 (V_sint32 (pt_x q from')) (default_message sc t))))"

definition QPointF_from :: "('q, 64 word) point_type \<Rightarrow> qmessage \<Rightarrow> 'q option" where
  "QPointF_from q from' = Some (pt_make q (un_double (scalar_at from' 0)) (un_double (scalar_at from' 1)))"

definition QPointF_to :: "('q, 64 word) point_type \<Rightarrow> schema \<Rightarrow> nat \<Rightarrow> 'q \<Rightarrow> qmessage option" where
  "QPointF_to q sc t from' =
     (if pt_isNull q from' then None
      else Some (put_value 1 (V_double (pt_y q from')) (put_value 0 (V_double (pt_x q from')) (default_message sc t))))"

definition QRect_from :: "('q, 32 word) rect_type \<Rightarrow> qmessage \<Rightarrow> 'q option" where
  "QRect_from q from' =
     Some (rc_make q (un_sint32 (scalar_at from' 0)) (un_sint32 (scalar_at from' 1))
       (un_int32 (scalar_at from' 2)) (un_int32 (scalar_at from' 3)))"

definition QRect_to :: "('q, 32 word) rect_type \<Rightarrow> schema \<Rightarrow> nat \<Rightarrow> 'q \<Rightarrow> qmessage option" where
  "QRect_to q sc t from' =
     (if rc_isNull q from' \<or> rc_isEmpty q from' \<or> \<not> rc_isValid q from' then None
      else Some (put_value 3 (V_int32 (rc_height q from')) (put_value 2 (V_int32 (rc_width q from'))
        (put_value 1 (V_sint32 (rc_y q from')) (put_value 0 (V_sint32 (rc_x q from')) (default_message sc t))))))"

definition QRectF_from :: "('q, 64 word) rect_type \<Rightarrow> qmessage \<Rightarrow> 'q option" where
  "QRectF_from q from' =
     Some (rc_make q (un_double (scalar_at from' 0)) (un_double (scalar_at from' 1))
       (un_double (scalar_at from' 2)) (un_double (scalar_at from' 3)))"

definition QRectF_to :: "('q, 64 word) rect_type \<Rightarrow> schema \<Rightarrow> nat \<Rightarrow> 'q \<Rightarrow> qmessage option" where
  "QRectF_to q sc t from' =
     (if rc_isNull q from' \<or> rc_isEmpty q from' \<or> \<not> rc_isValid q from' then None
      else Some (put_value 3 (V_double (rc_height q from')) (put_value 2 (V_double (rc_width q from'))
        (put_value 1 (V_double (rc_y q from')) (put_value 0 (V_double (rc_x q from')) (default_message sc t))))))"

subsection \<open>Time zones and times\<close>

datatype time_spec = TimeZone | LocalTime | UTC | OffsetFromUTC

record 'z zone_type =
  zn_ofId :: "byte list \<Rightarrow> 'z"
  zn_localTime :: 'z
  zn_utc :: 'z
  zn_fromSecondsAheadOfUtc :: "32 word \<Rightarrow> 'z"
  zn_isValid :: "'z \<Rightarrow> bool"
  zn_timeSpec :: "'z \<Rightarrow> time_spec"
  zn_id :: "'z \<Rightarrow> byte list"
  zn_fixedSecondsAheadOfUtc :: "'z \<Rightarrow> 32 word"

text \<open>The message has a oneof of the offset (1), the name (2) and an enumerator (3), which is 0 for local time.\<close>

definition getTimeZoneInitialization :: "'z zone_type \<Rightarrow> 32 word \<Rightarrow> 'z" where
  "getTimeZoneInitialization z protoSpec = (if protoSpec = 0 then zn_localTime z else zn_utc z)"

definition QTimeZone_from :: "'z zone_type \<Rightarrow> qmessage \<Rightarrow> 'z option" where
  "QTimeZone_from z from' =
     (let x = get_slot from' 0; n = oneof_fieldNumber x;
          checked = (\<lambda>r. if zn_isValid z r then Some r else None)
      in if n = 2 then
           checked (zn_ofId z (case get_oneof (Scalar (V_QByteArray [])) 2 x of Scalar s \<Rightarrow> un_bytes s | _ \<Rightarrow> []))
         else if n = 3 then
           checked (getTimeZoneInitialization z (case get_oneof (Enum 0) 3 x of Enum e \<Rightarrow> e | _ \<Rightarrow> 0))
         else if n = 1 then
           checked (zn_fromSecondsAheadOfUtc z
             (case get_oneof (Scalar (V_int32 0)) 1 x of Scalar s \<Rightarrow> un_int32 s | _ \<Rightarrow> 0))
         else None)"

definition QTimeZone_to :: "'z zone_type \<Rightarrow> schema \<Rightarrow> nat \<Rightarrow> 'z \<Rightarrow> qmessage option" where
  "QTimeZone_to z sc t from' =
     (if \<not> zn_isValid z from' then None
      else let m = default_message sc t; put = (\<lambda>v n. set_slot 0 (set_oneof v n (get_slot m 0)) m)
        in Some (case zn_timeSpec z from' of
             TimeZone \<Rightarrow> put (Scalar (V_QByteArray (zn_id z from'))) 2
           | LocalTime \<Rightarrow> put (Enum 0) 3
           | UTC \<Rightarrow> put (Enum 1) 3
           | OffsetFromUTC \<Rightarrow> put (Scalar (V_int32 (zn_fixedSecondsAheadOfUtc z from'))) 1))"

text \<open>A time is made of milliseconds in a zone, or in local time.\<close>

record ('d, 'z) datetime_type =
  dt_inZone :: "64 word \<Rightarrow> 'z \<Rightarrow> 'd"
  dt_local :: "64 word \<Rightarrow> 'd"
  dt_toMSecsSinceEpoch :: "'d \<Rightarrow> 64 word"
  dt_timeRepresentation :: "'d \<Rightarrow> 'z"
  dt_isValid :: "'d \<Rightarrow> bool"
  dt_isNull :: "'d \<Rightarrow> bool"

text \<open>The class of the time is \<open>t\<close>, that of its zone \<open>tz\<close>.\<close>

definition QDateTime_from :: "('d, 'z) datetime_type \<Rightarrow> 'z zone_type \<Rightarrow> schema \<Rightarrow> nat \<Rightarrow> qmessage \<Rightarrow> 'd option" where
  "QDateTime_from d z sc tz from' =
     (let msecs = un_int64 (scalar_at from' 0);
          zone = (case pointee (snd (get_message sc tz (get_slot from' 1))) of Some m \<Rightarrow> QTimeZone_from z m | None \<Rightarrow> None);
          dateTime = (case zone of Some r \<Rightarrow> dt_inZone d msecs r | None \<Rightarrow> dt_local d msecs)
      in if dt_isValid d dateTime then Some dateTime else None)"

definition QDateTime_to :: "('d, 'z) datetime_type \<Rightarrow> 'z zone_type \<Rightarrow> schema \<Rightarrow> nat \<Rightarrow> nat \<Rightarrow> 'd \<Rightarrow> qmessage option" where
  "QDateTime_to d z sc t tz from' =
     (if \<not> dt_isValid d from' \<or> dt_isNull d from' then None
      else let datetime = put_value 0 (V_int64 (dt_toMSecsSinceEpoch d from')) (default_message sc t)
        in (case QTimeZone_to z sc tz (dt_timeRepresentation d from') of
              Some tZone \<Rightarrow>
                Some (set_slot 1 (update_pointee tZone (snd (get_message sc tz (get_slot datetime 1)))) datetime)
            | None \<Rightarrow> None))"

subsection \<open>Types of QtGui\<close>

text \<open>A 64-bit color is its value.\<close>

definition QRgba64_from :: "qmessage \<Rightarrow> 64 word option" where
  "QRgba64_from from' = Some (un_uint64 (scalar_at from' 0))"

definition QRgba64_to :: "schema \<Rightarrow> nat \<Rightarrow> 64 word \<Rightarrow> qmessage option" where
  "QRgba64_to sc t from' = Some (put_value 0 (V_uint64 from') (default_message sc t))"

text \<open>Colors: the message has a oneof of a 64-bit color (1) and a 32-bit color (2).\<close>

record 'c color_type =
  co_ofRgba64 :: "64 word \<Rightarrow> 'c"
  co_ofRgb :: "32 word \<Rightarrow> 'c"
  co_rgba64 :: "'c \<Rightarrow> 64 word"
  co_isValid :: "'c \<Rightarrow> bool"

definition QColor_from :: "'c color_type \<Rightarrow> qmessage \<Rightarrow> 'c option" where
  "QColor_from c from' =
     (let x = get_slot from' 0
      in if holdsField 1 x then
           (case pointee x of Some m \<Rightarrow> map_option (co_ofRgba64 c) (QRgba64_from m) | None \<Rightarrow> None)
         else if holdsField 2 x then
           Some (co_ofRgb c (case get_oneof (Scalar (V_uint32 0)) 2 x of Scalar s \<Rightarrow> un_uint32 s | _ \<Rightarrow> 0))
         else None)"

definition QColor_to :: "'c color_type \<Rightarrow> schema \<Rightarrow> nat \<Rightarrow> nat \<Rightarrow> 'c \<Rightarrow> qmessage option" where
  "QColor_to c sc t t64 from' =
     (if \<not> co_isValid c from' then None
      else let rgba64 = put_value 0 (V_uint64 (co_rgba64 c from')) (default_message sc t64); m = default_message sc t
        in Some (set_slot 0 (set_oneof (Msg rgba64) 1 (get_slot m 0)) m))"

text \<open>
  The constructor of a matrix takes its values row by row; \<open>data\<close> returns them column by column. A
  transform has an accessor for each of its values.
\<close>

record 'x matrix_type =
  mx_make :: "32 word list \<Rightarrow> 'x"
  mx_data :: "'x \<Rightarrow> 32 word list"

record 'x transform_type =
  tf_make :: "64 word list \<Rightarrow> 'x"
  tf_m :: "'x \<Rightarrow> nat \<Rightarrow> nat \<Rightarrow> 64 word"

definition QMatrix4x4_from :: "'x matrix_type \<Rightarrow> qmessage \<Rightarrow> 'x option" where
  "QMatrix4x4_from x from' =
     (let xs = map un_float (scalars_at from' 0) in if length xs = 16 then Some (mx_make x xs) else None)"

definition QMatrix4x4_to :: "'x matrix_type \<Rightarrow> schema \<Rightarrow> nat \<Rightarrow> 'x \<Rightarrow> qmessage option" where
  "QMatrix4x4_to x sc t from' =
     (let matrixData = mx_data x from'
      in Some (put_scalars 0 T_float
           (map (\<lambda>i. V_float (matrixData ! i)) [0, 4, 8, 12, 1, 5, 9, 13, 2, 6, 10, 14, 3, 7, 11, 15])
           (default_message sc t)))"

definition QTransform_from :: "'x transform_type \<Rightarrow> qmessage \<Rightarrow> 'x option" where
  "QTransform_from x from' =
     (let xs = map un_double (scalars_at from' 0) in if length xs = 9 then Some (tf_make x xs) else None)"

definition QTransform_to :: "'x transform_type \<Rightarrow> schema \<Rightarrow> nat \<Rightarrow> 'x \<Rightarrow> qmessage option" where
  "QTransform_to x sc t from' =
     Some (put_scalars 0 T_double
       (map V_double [tf_m x from' 1 1, tf_m x from' 1 2, tf_m x from' 1 3, tf_m x from' 2 1, tf_m x from' 2 2,
          tf_m x from' 2 3, tf_m x from' 3 1, tf_m x from' 3 2, tf_m x from' 3 3])
       (default_message sc t))"

text \<open>Vectors of two, three and four values and quaternions: the constructor and the values in its order.\<close>

record 'x vector_type =
  vc_make :: "32 word list \<Rightarrow> 'x"
  vc_values :: "'x \<Rightarrow> 32 word list"
  vc_isNull :: "'x \<Rightarrow> bool"

definition QVector2D_from :: "'x vector_type \<Rightarrow> qmessage \<Rightarrow> 'x option" where
  "QVector2D_from x from' = Some (vc_make x [un_float (scalar_at from' 0), un_float (scalar_at from' 1)])"

definition QVector2D_to :: "'x vector_type \<Rightarrow> schema \<Rightarrow> nat \<Rightarrow> 'x \<Rightarrow> qmessage option" where
  "QVector2D_to x sc t from' =
     (if vc_isNull x from' then None
      else Some (put_value 1 (V_float (vc_values x from' ! 1)) (put_value 0 (V_float (vc_values x from' ! 0))
        (default_message sc t))))"

definition QVector3D_from :: "'x vector_type \<Rightarrow> qmessage \<Rightarrow> 'x option" where
  "QVector3D_from x from' =
     Some (vc_make x [un_float (scalar_at from' 0), un_float (scalar_at from' 1), un_float (scalar_at from' 2)])"

definition QVector3D_to :: "'x vector_type \<Rightarrow> schema \<Rightarrow> nat \<Rightarrow> 'x \<Rightarrow> qmessage option" where
  "QVector3D_to x sc t from' =
     (if vc_isNull x from' then None
      else Some (put_value 2 (V_float (vc_values x from' ! 2)) (put_value 1 (V_float (vc_values x from' ! 1))
        (put_value 0 (V_float (vc_values x from' ! 0)) (default_message sc t)))))"

text \<open>\<open>QVector4D\<close> and \<open>QQuaternion\<close> differ in the names only.\<close>

definition QVector4D_from :: "'x vector_type \<Rightarrow> qmessage \<Rightarrow> 'x option" where
  "QVector4D_from x from' =
     Some (vc_make x [un_float (scalar_at from' 0), un_float (scalar_at from' 1), un_float (scalar_at from' 2),
       un_float (scalar_at from' 3)])"

definition QVector4D_to :: "'x vector_type \<Rightarrow> schema \<Rightarrow> nat \<Rightarrow> 'x \<Rightarrow> qmessage option" where
  "QVector4D_to x sc t from' =
     (if vc_isNull x from' then None
      else Some (put_value 3 (V_float (vc_values x from' ! 3)) (put_value 2 (V_float (vc_values x from' ! 2))
        (put_value 1 (V_float (vc_values x from' ! 1)) (put_value 0 (V_float (vc_values x from' ! 0))
          (default_message sc t))))))"

definition QQuaternion_from :: "'x vector_type \<Rightarrow> qmessage \<Rightarrow> 'x option" where
  "QQuaternion_from x from' = QVector4D_from x from'"

definition QQuaternion_to :: "'x vector_type \<Rightarrow> schema \<Rightarrow> nat \<Rightarrow> 'x \<Rightarrow> qmessage option" where
  "QQuaternion_to x sc t from' = QVector4D_to x sc t from'"

end
