(* ===== verification/QtConversions.thy ===== *)
theory QtConversions
  imports QtTypes WireFields
begin

text \<open>
  What the conversions of Qt types keep: a value that is written by its handler is the value that is
  read. One locale states the contract of a pair of conversions; it is interpreted for every type.
\<close>

subsection \<open>The contract of a pair of conversions\<close>

text \<open>The values that are kept are among those that are converted.\<close>

locale qt_conversion =
  fixes conv_to :: "'q \<Rightarrow> qmessage option" and conv_from :: "qmessage \<Rightarrow> 'q option" and kept :: "'q \<Rightarrow> bool"
  assumes converts: "kept q \<Longrightarrow> \<exists>m. conv_to q = Some m \<and> conv_from m = Some q"
begin

text \<open>
  What is written and then read from the state that was left: the field serializer is called once, with
  the message that stands for the value.
\<close>

lemma field_roundtrip:
  assumes "kept q"
    and "\<And>m. conv_to q = Some m \<Longrightarrow> \<exists>s'. deserializer obj (serializer m s) = (True, m, s')"
  shows "fst (qt_deserialize conv_from deserializer obj q0 (qt_serialize conv_to serializer q s)) = q"
proof -
  obtain m where m: "conv_to q = Some m" "conv_from m = Some q" using converts [OF assms(1)] by blast
  obtain s' where "deserializer obj (serializer m s) = (True, m, s')" using assms(2) [OF m(1)] by blast
  then show ?thesis by (simp add: qt_serialize_def qt_deserialize_def m)
qed

text \<open>A value that is not converted leaves no trace, and a message that is not converted leaves the value.\<close>

lemma nothing_written: "conv_to q = None \<Longrightarrow> qt_serialize conv_to serializer q s = s"
  by (simp add: qt_serialize_def)

lemma nothing_read:
  "deserializer obj s = (ok, m, s') \<Longrightarrow> conv_from m = None \<Longrightarrow> qt_deserialize conv_from deserializer obj q s = (q, s')"
  by (simp add: qt_deserialize_def)

end

subsection \<open>Objects whose values were set\<close>

definition scalar_class :: "schema \<Rightarrow> nat \<Rightarrow> scalar_type list \<Rightarrow> bool" where
  "scalar_class sc t ts \<longleftrightarrow> t < length sc \<and> mc_defaults (sc ! t) = map (\<lambda>k. M_plain (Scalar (default_scalar k))) ts"

definition list_class :: "schema \<Rightarrow> nat \<Rightarrow> scalar_type \<Rightarrow> bool" where
  "list_class sc t k \<longleftrightarrow> t < length sc \<and> mc_defaults (sc ! t) = [M_plain (Scalars k [])]"

definition oneof_class :: "schema \<Rightarrow> nat \<Rightarrow> bool" where
  "oneof_class sc t \<longleftrightarrow> t < length sc \<and> mc_defaults (sc ! t) = [new_oneof]"

lemma scalar_object: "scalar_class sc t ts \<Longrightarrow>
    default_message sc t = QMessage t (map (\<lambda>k. M_plain (Scalar (default_scalar k))) ts) []"
  by (simp add: scalar_class_def default_message_def)

lemma put_value_default:
  assumes "i < length xs" "xs ! i = M_plain (Scalar (default_scalar (scalar_type_of x)))"
  shows "put_value i x (QMessage t xs us) = QMessage t (xs[i := M_plain (Scalar x)]) us"
  using assms set_floating_default [of x] set_plain_default [of x]
  by (simp add: put_value_def set_slot_def get_slot_def)

lemma scalar_at_members [simp]: "i < length xs \<Longrightarrow> xs ! i = M_plain (Scalar x) \<Longrightarrow> scalar_at (QMessage t xs us) i = x"
  by (simp add: scalar_at_def get_slot_def)

lemma put_one:
  "scalar_class sc t [scalar_type_of x] \<Longrightarrow> put_value 0 x (default_message sc t) = QMessage t [M_plain (Scalar x)] []"
  by (simp add: scalar_object put_value_default)

lemma put_two:
  "scalar_class sc t [scalar_type_of x, scalar_type_of y] \<Longrightarrow>
   put_value 1 y (put_value 0 x (default_message sc t)) = QMessage t (map (M_plain \<circ> Scalar) [x, y]) []"
  by (simp add: scalar_object put_value_default)

lemma put_three:
  "scalar_class sc t [scalar_type_of x, scalar_type_of y, scalar_type_of z] \<Longrightarrow>
   put_value 2 z (put_value 1 y (put_value 0 x (default_message sc t))) = QMessage t (map (M_plain \<circ> Scalar) [x, y, z]) []"
  by (simp add: scalar_object put_value_default numeral_2_eq_2)

lemma put_four:
  "scalar_class sc t [scalar_type_of x, scalar_type_of y, scalar_type_of z, scalar_type_of w] \<Longrightarrow>
   put_value 3 w (put_value 2 z (put_value 1 y (put_value 0 x (default_message sc t)))) =
     QMessage t (map (M_plain \<circ> Scalar) [x, y, z, w]) []"
  by (simp add: scalar_object put_value_default numeral_2_eq_2 numeral_3_eq_3)

lemma put_list:
  assumes "list_class sc t k" "vs \<noteq> []"
  shows "put_scalars 0 k vs (default_message sc t) = QMessage t [M_plain (Scalars k vs)] []"
  using assms by (cases vs) (simp_all add: list_class_def default_message_def put_scalars_def set_slot_def get_slot_def
      set_plain_def variant_eq_def)

lemma scalars_at_list [simp]: "scalars_at (QMessage t [M_plain (Scalars k vs)] us) 0 = vs"
  by (simp add: scalars_at_def get_slot_def)

lemma put_oneof:
  "oneof_class sc t \<Longrightarrow> v \<noteq> Invalid \<Longrightarrow> n \<noteq> 0 \<Longrightarrow>
   set_slot 0 (set_oneof v n (get_slot (default_message sc t) 0)) (default_message sc t) = QMessage t [M_oneof v n] []"
  by (simp add: oneof_class_def default_message_def set_slot_def get_slot_def set_oneof_def new_oneof_def)

lemma un_map [simp]: "map un_int32 (map V_int32 xs) = xs" "map un_float (map V_float fs) = fs"
  by (simp_all add: comp_def)

lemmas put_values = put_one put_two [simplified] put_three [simplified] put_four [simplified] put_list put_oneof

subsection \<open>The types of QtCore\<close>

text \<open>
  A kept value is one that the constructor gives back from its parts, in a class with the members of
  the type; the tests of the code follow.
\<close>

interpretation url: qt_conversion "QUrl_to q sc t" "QUrl_from q"
    "\<lambda>v. scalar_class sc t [T_QString] \<and> sg_make q (sg_get q v) = v \<and> (sg_isValid q v \<or> sg_isEmpty q v)" for q sc t
  by unfold_locales (auto simp: QUrl_to_def QUrl_from_def put_values)

lemma ucast_16_32: "ucast (ucast (c :: 16 word) :: 32 word) = c"
  by (rule bit_word_eqI) (simp add: bit_ucast_iff)

interpretation char: qt_conversion "QChar_to sc t" QChar_from "\<lambda>v. scalar_class sc t [T_uint32]" for sc t
  by unfold_locales (auto simp: QChar_to_def QChar_from_def put_values ucast_16_32)

interpretation uuid: qt_conversion "QUuid_to q sc t" "QUuid_from q"
    "\<lambda>v. scalar_class sc t [T_QByteArray] \<and> sg_make q (sg_get q v) = v \<and> length (sg_get q v) = 16" for q sc t
  by unfold_locales (auto simp: QUuid_to_def QUuid_from_def put_values)

interpretation time: qt_conversion "QTime_to q sc t" "QTime_from q"
    "\<lambda>v. scalar_class sc t [T_int32] \<and> sg_make q (sg_get q v) = v \<and> sg_isValid q v \<and> \<not> sg_isNull q v" for q sc t
  by unfold_locales (auto simp: QTime_to_def QTime_from_def put_values)

interpretation date: qt_conversion "QDate_to q sc t" "QDate_from q"
    "\<lambda>v. scalar_class sc t [T_int64] \<and> sg_make q (sg_get q v) = v \<and> sg_isValid q v \<and> \<not> sg_isNull q v" for q sc t
  by unfold_locales (auto simp: QDate_to_def QDate_from_def put_values)

interpretation version: qt_conversion "QVersionNumber_to q sc t" "QVersionNumber_from q"
    "\<lambda>v. list_class sc t T_int32 \<and> sg_make q (sg_get q v) = v \<and> sg_get q v \<noteq> []" for q sc t
  by unfold_locales (auto simp: QVersionNumber_to_def QVersionNumber_from_def put_values comp_def)

interpretation size: qt_conversion "QSize_to q sc t" "QSize_from q"
    "\<lambda>v. scalar_class sc t [T_int32, T_int32] \<and> sz_make q (sz_width q v) (sz_height q v) = v \<and>
      \<not> sz_isNull q v \<and> \<not> sz_isEmpty q v \<and> sz_isValid q v" for q sc t
  by unfold_locales (auto simp: QSize_to_def QSize_from_def put_values)

interpretation size_f: qt_conversion "QSizeF_to q sc t" "QSizeF_from q"
    "\<lambda>v. scalar_class sc t [T_double, T_double] \<and> sz_make q (sz_width q v) (sz_height q v) = v \<and>
      \<not> sz_isNull q v \<and> \<not> sz_isEmpty q v \<and> sz_isValid q v" for q sc t
  by unfold_locales (auto simp: QSizeF_to_def QSizeF_from_def put_values)

interpretation point: qt_conversion "QPoint_to q sc t" "QPoint_from q"
    "\<lambda>v. scalar_class sc t [T_sint32, T_sint32] \<and> pt_make q (pt_x q v) (pt_y q v) = v \<and> \<not> pt_isNull q v" for q sc t
  by unfold_locales (auto simp: QPoint_to_def QPoint_from_def put_values)

interpretation point_f: qt_conversion "QPointF_to q sc t" "QPointF_from q"
    "\<lambda>v. scalar_class sc t [T_double, T_double] \<and> pt_make q (pt_x q v) (pt_y q v) = v \<and> \<not> pt_isNull q v" for q sc t
  by unfold_locales (auto simp: QPointF_to_def QPointF_from_def put_values)

interpretation rect: qt_conversion "QRect_to q sc t" "QRect_from q"
    "\<lambda>v. scalar_class sc t [T_sint32, T_sint32, T_int32, T_int32] \<and>
      rc_make q (rc_x q v) (rc_y q v) (rc_width q v) (rc_height q v) = v \<and>
      \<not> rc_isNull q v \<and> \<not> rc_isEmpty q v \<and> rc_isValid q v" for q sc t
  by unfold_locales (auto simp: QRect_to_def QRect_from_def put_values)

interpretation rect_f: qt_conversion "QRectF_to q sc t" "QRectF_from q"
    "\<lambda>v. scalar_class sc t [T_double, T_double, T_double, T_double] \<and>
      rc_make q (rc_x q v) (rc_y q v) (rc_width q v) (rc_height q v) = v \<and>
      \<not> rc_isNull q v \<and> \<not> rc_isEmpty q v \<and> rc_isValid q v" for q sc t
  by unfold_locales (auto simp: QRectF_to_def QRectF_from_def put_values)


text \<open>
  A zone is kept when it is what its name, its offset or its kind makes; a time when its zone is, and
  when it is made of its milliseconds and its zone.
\<close>

definition zone_kept :: "'z zone_type \<Rightarrow> schema \<Rightarrow> nat \<Rightarrow> 'z \<Rightarrow> bool" where
  "zone_kept z sc t v \<longleftrightarrow> oneof_class sc t \<and> zn_isValid z v \<and>
     v = (case zn_timeSpec z v of
            TimeZone \<Rightarrow> zn_ofId z (zn_id z v)
          | LocalTime \<Rightarrow> zn_localTime z
          | UTC \<Rightarrow> zn_utc z
          | OffsetFromUTC \<Rightarrow> zn_fromSecondsAheadOfUtc z (zn_fixedSecondsAheadOfUtc z v))"

lemma zone_read:
  "QTimeZone_from z (QMessage t [M_oneof (Scalar (V_QByteArray s)) 2] []) =
     (if zn_isValid z (zn_ofId z s) then Some (zn_ofId z s) else None)"
  "QTimeZone_from z (QMessage t [M_oneof (Enum e) 3] []) =
     (if zn_isValid z (getTimeZoneInitialization z e) then Some (getTimeZoneInitialization z e) else None)"
  "QTimeZone_from z (QMessage t [M_oneof (Scalar (V_int32 n)) 1] []) =
     (if zn_isValid z (zn_fromSecondsAheadOfUtc z n) then Some (zn_fromSecondsAheadOfUtc z n) else None)"
  by (simp_all add: QTimeZone_from_def Let_def get_slot_def get_oneof_def)

interpretation zone: qt_conversion "QTimeZone_to z sc t" "QTimeZone_from z" "zone_kept z sc t" for z sc t
proof
  fix v assume k: "zone_kept z sc t v"
  then show "\<exists>m. QTimeZone_to z sc t v = Some m \<and> QTimeZone_from z m = Some v"
    by (cases "zn_timeSpec z v")
      (auto simp: zone_kept_def QTimeZone_to_def Let_def put_oneof zone_read getTimeZoneInitialization_def)
qed

definition datetime_class :: "schema \<Rightarrow> nat \<Rightarrow> nat \<Rightarrow> bool" where
  "datetime_class sc t tz \<longleftrightarrow> t < length sc \<and> mc_defaults (sc ! t) = [M_plain (Scalar (V_int64 0)), M_message tz None]"

definition datetime_kept :: "('d, 'z) datetime_type \<Rightarrow> 'z zone_type \<Rightarrow> schema \<Rightarrow> nat \<Rightarrow> nat \<Rightarrow> 'd \<Rightarrow> bool" where
  "datetime_kept d z sc t tz v \<longleftrightarrow> datetime_class sc t tz \<and> dt_isValid d v \<and> \<not> dt_isNull d v \<and>
     zone_kept z sc tz (dt_timeRepresentation d v) \<and>
     dt_inZone d (dt_toMSecsSinceEpoch d v) (dt_timeRepresentation d v) = v"

interpretation datetime: qt_conversion "QDateTime_to d z sc t tz" "QDateTime_from d z sc tz" "datetime_kept d z sc t tz"
  for d z sc t tz
proof
  fix v assume k: "datetime_kept d z sc t tz v"
  then obtain m where m: "QTimeZone_to z sc tz (dt_timeRepresentation d v) = Some m"
    "QTimeZone_from z m = Some (dt_timeRepresentation d v)"
    using zone.converts [of z sc tz "dt_timeRepresentation d v"] unfolding datetime_kept_def by blast
  have "put_value 0 (V_int64 w) (default_message sc t) = QMessage t [M_plain (Scalar (V_int64 w)), M_message tz None] []" for w
    using k by (simp add: datetime_kept_def datetime_class_def default_message_def put_value_default)
  then have "QDateTime_to d z sc t tz v =
      Some (QMessage t [M_plain (Scalar (V_int64 (dt_toMSecsSinceEpoch d v))), M_message tz (Some m)] [])"
    using k m(1) by (simp add: QDateTime_to_def datetime_kept_def Let_def get_message_def get_slot_def set_slot_def)
  moreover have "QDateTime_from d z sc tz (QMessage t [M_plain (Scalar (V_int64 (dt_toMSecsSinceEpoch d v))), M_message tz (Some m)] []) = Some v"
    using k m(2) by (simp add: QDateTime_from_def datetime_kept_def Let_def get_message_def get_slot_def)
  ultimately show "\<exists>m. QDateTime_to d z sc t tz v = Some m \<and> QDateTime_from d z sc tz m = Some v" by blast
qed

subsection \<open>The types of QtGui\<close>

interpretation rgba64: qt_conversion "QRgba64_to sc t" QRgba64_from "\<lambda>v. scalar_class sc t [T_uint64]" for sc t
  by unfold_locales (auto simp: QRgba64_to_def QRgba64_from_def put_values)

lemma color_read: "QColor_from c (QMessage t [M_oneof (Msg m) 1] []) = map_option (co_ofRgba64 c) (QRgba64_from m)"
  by (simp add: QColor_from_def get_slot_def)

interpretation color: qt_conversion "QColor_to c sc t u" "QColor_from c"
    "\<lambda>v. oneof_class sc t \<and> scalar_class sc u [T_uint64] \<and> co_isValid c v \<and> co_ofRgba64 c (co_rgba64 c v) = v" for c sc t u
  by unfold_locales (auto simp: QColor_to_def color_read QRgba64_from_def put_values Let_def)

text \<open>
  A matrix is given row by row and read column by column: when \<open>data\<close> of the constructor is the
  transposed list, the list of the message is the one that the constructor takes.
\<close>

definition transposed :: "'a list \<Rightarrow> 'a list" where
  "transposed xs = map (\<lambda>i. xs ! (4 * (i mod 4) + i div 4)) [0..<16]"

lemma transposed_rows: "map (\<lambda>i. xs ! i) [0, 4, 8, 12, 1, 5, 9, 13, 2, 6, 10, 14, 3, 7, 11, 15] = transposed xs"
  by (simp add: transposed_def upt_rec) (simp add: numeral_2_eq_2)

lemma length_transposed [simp]: "length (transposed xs) = 16"
  by (simp add: transposed_def)

lemma nth_transposed: "i < 16 \<Longrightarrow> transposed xs ! i = xs ! (4 * (i mod 4) + i div 4)"
  by (simp add: transposed_def)

lemma transposed_twice:
  assumes "length xs = 16"
  shows "transposed (transposed xs) = xs"
proof (rule nth_equalityI)
  fix i :: nat assume "i < length (transposed (transposed xs))"
  then have i: "i < 16" by simp
  let ?j = "4 * (i mod 4) + i div 4"
  have q: "i div 4 < 4" "i mod 4 < 4" using i by simp_all
  then have "?j < 16" by linarith
  moreover have "?j mod 4 = i div 4" "?j div 4 = i mod 4" using q by simp_all
  ultimately show "transposed (transposed xs) ! i = xs ! i"
    using i by (simp add: nth_transposed)
qed (simp add: assms)

lemma matrix_message:
  assumes "list_class sc t T_float" "length xs = 16" "mx_data x v = transposed xs"
  shows "QMatrix4x4_to x sc t v = Some (QMessage t [M_plain (Scalars T_float (map V_float xs))] [])"
proof -
  have "map V_float xs \<noteq> []" using assms(2) by auto
  moreover have "map (\<lambda>i. V_float (ys ! i)) is = map V_float (map (\<lambda>i. ys ! i) is)" for ys "is"
    by simp
  moreover have "map (\<lambda>i. mx_data x v ! i) [0, 4, 8, 12, 1, 5, 9, 13, 2, 6, 10, 14, 3, 7, 11, 15] = xs"
    unfolding transposed_rows assms(3) by (rule transposed_twice [OF assms(2)])
  ultimately show ?thesis unfolding QMatrix4x4_to_def Let_def using put_list [OF assms(1)] by metis
qed

interpretation matrix: qt_conversion "QMatrix4x4_to x sc t" "QMatrix4x4_from x"
    "\<lambda>v. list_class sc t T_float \<and> (\<exists>xs. length xs = 16 \<and> v = mx_make x xs \<and> mx_data x v = transposed xs)" for x sc t
  by unfold_locales (auto simp: matrix_message QMatrix4x4_from_def Let_def comp_def)

interpretation transform: qt_conversion "QTransform_to x sc t" "QTransform_from x"
    "\<lambda>v. list_class sc t T_double \<and>
      tf_make x [tf_m x v 1 1, tf_m x v 1 2, tf_m x v 1 3, tf_m x v 2 1, tf_m x v 2 2, tf_m x v 2 3,
        tf_m x v 3 1, tf_m x v 3 2, tf_m x v 3 3] = v" for x sc t
  by unfold_locales (auto simp: QTransform_to_def QTransform_from_def put_values)

interpretation vector2: qt_conversion "QVector2D_to x sc t" "QVector2D_from x"
    "\<lambda>v. scalar_class sc t [T_float, T_float] \<and> vc_make x [vc_values x v ! 0, vc_values x v ! 1] = v \<and>
      \<not> vc_isNull x v" for x sc t
  by unfold_locales (auto simp: QVector2D_to_def QVector2D_from_def put_values)

interpretation vector3: qt_conversion "QVector3D_to x sc t" "QVector3D_from x"
    "\<lambda>v. scalar_class sc t [T_float, T_float, T_float] \<and>
      vc_make x [vc_values x v ! 0, vc_values x v ! 1, vc_values x v ! 2] = v \<and> \<not> vc_isNull x v" for x sc t
  by unfold_locales (auto simp: QVector3D_to_def QVector3D_from_def put_values)

lemma vector4_converts:
  assumes "scalar_class sc t [T_float, T_float, T_float, T_float]" "\<not> vc_isNull x v"
    "vc_make x [vc_values x v ! 0, vc_values x v ! 1, vc_values x v ! 2, vc_values x v ! 3] = v"
  shows "\<exists>m. QVector4D_to x sc t v = Some m \<and> QVector4D_from x m = Some v"
  using assms by (auto simp: QVector4D_to_def QVector4D_from_def put_values)

interpretation vector4: qt_conversion "QVector4D_to x sc t" "QVector4D_from x"
    "\<lambda>v. scalar_class sc t [T_float, T_float, T_float, T_float] \<and>
      vc_make x [vc_values x v ! 0, vc_values x v ! 1, vc_values x v ! 2, vc_values x v ! 3] = v \<and> \<not> vc_isNull x v" for x sc t
  by unfold_locales (simp add: vector4_converts)

interpretation quaternion: qt_conversion "QQuaternion_to x sc t" "QQuaternion_from x"
    "\<lambda>v. scalar_class sc t [T_float, T_float, T_float, T_float] \<and>
      vc_make x [vc_values x v ! 0, vc_values x v ! 1, vc_values x v ! 2, vc_values x v ! 3] = v \<and> \<not> vc_isNull x v" for x sc t
  by unfold_locales (simp add: QQuaternion_to_def QQuaternion_from_def vector4_converts)


subsection \<open>Properties\<close>

text \<open>Fields of rectangles: a rectangle that its constructor gives back from its corner and size is read
  as it was written, unless it is null, empty or invalid; then nothing is written, and a reader keeps
  the value that it had.\<close>

theorem qt_rect_field_roundtrip:
  assumes "scalar_class sc t [T_sint32, T_sint32, T_int32, T_int32]"
    and "rc_make q (rc_x q v) (rc_y q v) (rc_width q v) (rc_height q v) = v"
    and "\<And>m. \<exists>s'. deserializer obj (serializer m s) = (True, m, s')"
  shows "if rc_isNull q v \<or> rc_isEmpty q v \<or> \<not> rc_isValid q v
    then qt_serialize (QRect_to q sc t) serializer v s = s
    else fst (qt_deserialize (QRect_from q) deserializer obj q0 (qt_serialize (QRect_to q sc t) serializer v s)) = v"
  using rect.field_roundtrip [of sc t q v deserializer obj serializer s q0] assms
    rect.nothing_written [of q sc t v serializer s] by (auto simp: QRect_to_def)

text \<open>C40: Fields of matrices: the message of a matrix holds its values row by row, as its \<open>.proto\<close> file says,
  and the matrix that is read is the one that was written.\<close>

theorem qt_matrix_field_roundtrip:
  assumes "list_class sc t T_float" and "length xs = 16" and "mx_data x (mx_make x xs) = transposed xs"
    and "\<And>m. \<exists>s'. deserializer obj (serializer m s) = (True, m, s')"
  shows "QMatrix4x4_to x sc t (mx_make x xs) = Some (QMessage t [M_plain (Scalars T_float (map V_float xs))] []) \<and>
    fst (qt_deserialize (QMatrix4x4_from x) deserializer obj q0
      (qt_serialize (QMatrix4x4_to x sc t) serializer (mx_make x xs) s)) = mx_make x xs"
proof
  show "QMatrix4x4_to x sc t (mx_make x xs) = Some (QMessage t [M_plain (Scalars T_float (map V_float xs))] [])"
    by (rule matrix_message [OF assms(1-3)])
  show "fst (qt_deserialize (QMatrix4x4_from x) deserializer obj q0
      (qt_serialize (QMatrix4x4_to x sc t) serializer (mx_make x xs) s)) = mx_make x xs"
    using assms by (intro matrix.field_roundtrip) auto
qed

text \<open>A schema of one class, for a stream that holds messages.\<close>

definition plain_schema :: "member list \<Rightarrow> schema" where
  "plain_schema xs = [\<lparr>mc_ordering = the (build (new_builder [])), mc_props = [], mc_defaults = xs\<rparr>]"

lemma plain_class: "scalar_class (plain_schema (map (\<lambda>k. M_plain (Scalar (default_scalar k))) ts)) 0 ts"
  "list_class (plain_schema [M_plain (Scalars k [])]) 0 k"
  by (simp_all add: scalar_class_def list_class_def plain_schema_def)

theorem qt_matrix_field_roundtrip_witness:
  "fst (qt_deserialize (QMatrix4x4_from \<lparr>mx_make = id, mx_data = transposed\<rparr>) (\<lambda>obj s. (True, last s, butlast s))
     (QMessage 0 [] []) [] (qt_serialize (QMatrix4x4_to \<lparr>mx_make = id, mx_data = transposed\<rparr>
        (plain_schema [M_plain (Scalars T_float [])]) 0) (\<lambda>m s. s @ [m]) (map of_nat [0..<16]) [])) = map of_nat [0..<16]"
  using qt_matrix_field_roundtrip [OF plain_class(2), of "map of_nat [0..<16]" "\<lparr>mx_make = id, mx_data = transposed\<rparr>"
      "\<lambda>obj s. (True, last s, butlast s)" "QMessage 0 [] []" "\<lambda>m s. s @ [m]" "[]" "[]"]
  by simp

end
