(* ===== verification/TypeRegistration.thy ===== *)
theory TypeRegistration
  imports QtTypes
begin

text \<open>
  The registration of types (src/src/protobuf/qprotobufregistration.cpp): the registry of handlers of
  message fields, and the functions of generated code that fill it, which run when a serializer is
  first used. The locks that guard them are left out: every operation is one step.
\<close>

subsection \<open>The registry of handlers\<close>

text \<open>A handler has a serializer and a deserializer; a type without one has none of both.\<close>

type_synonym ('s, 'd) handlers_registry = "nat \<rightharpoonup> 's \<times> 'd"

definition registerHandler :: "nat \<Rightarrow> 's \<Rightarrow> 'd \<Rightarrow> ('s, 'd) handlers_registry \<Rightarrow> ('s, 'd) handlers_registry" where
  "registerHandler type serializer deserializer reg = reg(type \<mapsto> (serializer, deserializer))"

definition findHandler :: "nat \<Rightarrow> ('s, 'd) handlers_registry \<Rightarrow> ('s \<times> 'd) option" where
  "findHandler type reg = reg type"

text \<open>The handler of a Qt type, by its two conversions.\<close>

definition registerQtTypeHandler ::
  "nat \<Rightarrow> ('q \<Rightarrow> qmessage option) \<Rightarrow> (qmessage \<Rightarrow> 'q option) \<Rightarrow> qmessage \<Rightarrow>
   ((qmessage \<Rightarrow> 's \<Rightarrow> 's) \<Rightarrow> 'q \<Rightarrow> 's \<Rightarrow> 's, (qmessage \<Rightarrow> 's \<Rightarrow> bool \<times> qmessage \<times> 's) \<Rightarrow> 'q \<Rightarrow> 's \<Rightarrow> 'q \<times> 's) handlers_registry \<Rightarrow>
   ((qmessage \<Rightarrow> 's \<Rightarrow> 's) \<Rightarrow> 'q \<Rightarrow> 's \<Rightarrow> 's, (qmessage \<Rightarrow> 's \<Rightarrow> bool \<times> qmessage \<times> 's) \<Rightarrow> 'q \<Rightarrow> 's \<Rightarrow> 'q \<times> 's) handlers_registry"
  where
  "registerQtTypeHandler type conv_to conv_from object reg =
     registerHandler type (qt_serialize conv_to) (\<lambda>deserializer. qt_deserialize conv_from deserializer object) reg"

lemma find_registered [simp]:
  "findHandler type (registerHandler u s d reg) = (if type = u then Some (s, d) else findHandler type reg)"
  by (simp add: findHandler_def registerHandler_def)

subsection \<open>Registration on first use\<close>

text \<open>
  The functions that wait, and whether the base types are registered; the functions change the world
  \<open>'w\<close> of the registries.
\<close>

record 'w type_registry =
  registrationList :: "('w \<Rightarrow> 'w) list"
  base_registered :: bool

definition ProtoTypeRegistrar :: "('w \<Rightarrow> 'w) \<Rightarrow> 'w type_registry \<Rightarrow> 'w type_registry" where
  "ProtoTypeRegistrar initializer r = r\<lparr>registrationList := registrationList r @ [initializer]\<rparr>"

definition qRegisterBaseTypes :: "('w \<Rightarrow> 'w) \<Rightarrow> 'w type_registry \<times> 'w \<Rightarrow> 'w type_registry \<times> 'w" where
  "qRegisterBaseTypes base st =
     (case st of (r, w) \<Rightarrow> if base_registered r then (r, w) else (r\<lparr>base_registered := True\<rparr>, base w))"

definition qRegisterProtobufTypes :: "('w \<Rightarrow> 'w) \<Rightarrow> 'w type_registry \<times> 'w \<Rightarrow> 'w type_registry \<times> 'w" where
  "qRegisterProtobufTypes base st =
     (case qRegisterBaseTypes base st of
        (r, w) \<Rightarrow> (r\<lparr>registrationList := []\<rparr>, fold (\<lambda>registerFunc. registerFunc) (registrationList r) w))"

text \<open>Every function runs once, in the order of registration, and the base types are registered first, once.\<close>

lemma registered_once:
  "qRegisterProtobufTypes base (qRegisterProtobufTypes base st) = qRegisterProtobufTypes base st"
  by (cases st) (simp add: qRegisterProtobufTypes_def qRegisterBaseTypes_def)

lemma registered_in_order:
  assumes "st = (\<lparr>registrationList = [], base_registered = False\<rparr>, w)"
  shows "snd (qRegisterProtobufTypes base (fold ProtoTypeRegistrar fs (fst st), snd st)) = fold (\<lambda>f. f) fs (base w)"
proof -
  have "fold ProtoTypeRegistrar fs r = r\<lparr>registrationList := registrationList r @ fs\<rparr>" for r
    by (induction fs arbitrary: r) (simp_all add: ProtoTypeRegistrar_def)
  with assms show ?thesis by (simp add: qRegisterProtobufTypes_def qRegisterBaseTypes_def)
qed

end
