(* ===== verification/GeneratorText.thy ===== *)
theory GeneratorText
  imports Prelude "HOL-Library.List_Lexorder" "HOL-Library.Char_ord"
begin

text \<open>
  The text functions of the code generators (src/src/tools/qtprotoccommon/utils.cpp and utils.h): search,
  \<open>split\<close>, \<open>join\<close> and \<open>replace\<close>, escapes for string literals and comments, identifiers, letter case,
  and the order of includes. A \<open>std::string\<close> is a list of bytes as characters.
\<close>

subsection \<open>Characters\<close>

abbreviation code :: "char \<Rightarrow> nat" where "code c \<equiv> of_char c"

definition isAsciiUpper :: "char \<Rightarrow> bool" where "isAsciiUpper c \<longleftrightarrow> 65 \<le> code c \<and> code c \<le> 90"
definition isAsciiLower :: "char \<Rightarrow> bool" where "isAsciiLower c \<longleftrightarrow> 97 \<le> code c \<and> code c \<le> 122"

text \<open>\<open>isalpha\<close> and \<open>isalnum\<close> of the standard library in the C locale.\<close>

definition isAsciiAlpha :: "char \<Rightarrow> bool" where
  "isAsciiAlpha c \<longleftrightarrow> code c \<le> 127 \<and> (isAsciiUpper c \<or> isAsciiLower c)"

definition isAsciiAlnum :: "char \<Rightarrow> bool" where
  "isAsciiAlnum c \<longleftrightarrow> code c \<le> 127 \<and> (isAsciiUpper c \<or> isAsciiLower c \<or> 48 \<le> code c \<and> code c \<le> 57)"

definition toAsciiLower :: "char \<Rightarrow> char" where
  "toAsciiLower ch = (if isAsciiUpper ch then char_of (code ch - 65 + 97) else ch)"

definition toAsciiUpper :: "char \<Rightarrow> char" where
  "toAsciiUpper ch = (if isAsciiLower ch then char_of (code ch - 97 + 65) else ch)"

definition asciiToLower :: "string \<Rightarrow> string" where "asciiToLower s = map toAsciiLower s"
definition asciiToUpper :: "string \<Rightarrow> string" where "asciiToUpper s = map toAsciiUpper s"

definition AsciiSpacing :: "char list" where
  "AsciiSpacing = [CHR '' '', CHR 0x09, CHR 0x0A, CHR 0x0D, CHR 0x0C, CHR 0x0B]"

subsection \<open>Search\<close>

fun text_startsWith :: "string \<Rightarrow> string \<Rightarrow> bool" where
  "text_startsWith s [] = True"
| "text_startsWith [] (c # cs) = False"
| "text_startsWith (x # xs) (c # cs) = (x = c \<and> text_startsWith xs cs)"

definition endsWith :: "string \<Rightarrow> string \<Rightarrow> bool" where
  "endsWith s c \<longleftrightarrow> length c \<le> length s \<and> drop (length s - length c) s = c"

definition text_startsWith_char :: "string \<Rightarrow> char \<Rightarrow> bool" where
  "text_startsWith_char s c \<longleftrightarrow> s \<noteq> [] \<and> hd s = c"

definition endsWith_char :: "string \<Rightarrow> char \<Rightarrow> bool" where
  "endsWith_char s c \<longleftrightarrow> s \<noteq> [] \<and> last s = c"

text \<open>\<open>std::string_view::find\<close>: the position of the first occurrence.\<close>

fun find_text :: "string \<Rightarrow> string \<Rightarrow> nat option" where
  "find_text c s =
     (if text_startsWith s c then Some 0
      else case s of [] \<Rightarrow> None | x # xs \<Rightarrow> map_option Suc (find_text c xs))"

declare find_text.simps [simp del]

definition contains :: "string \<Rightarrow> string \<Rightarrow> bool" where "contains s c \<longleftrightarrow> find_text c s \<noteq> None"
definition contains_char :: "string \<Rightarrow> char \<Rightarrow> bool" where "contains_char s c \<longleftrightarrow> c \<in> set s"
definition count_char :: "string \<Rightarrow> char \<Rightarrow> nat" where "count_char s c = length (filter (\<lambda>x. x = c) s)"

subsection \<open>Splitting and replacing\<close>

lemma text_startsWith_iff: "text_startsWith s c \<longleftrightarrow> (\<exists>r. s = c @ r)"
  by (induction s c rule: text_startsWith.induct) auto

lemma find_text_some:
  assumes "find_text c s = Some n"
  shows "n \<le> length s \<and> s = take n s @ c @ drop (n + length c) s"
  using assms
proof (induction s arbitrary: n)
  case Nil
  then show ?case by (subst (asm) find_text.simps) (auto simp: text_startsWith_iff split: if_splits)
next
  case (Cons x xs)
  show ?case
  proof (cases "text_startsWith (x # xs) c")
    case True
    with Cons.prems have "n = 0" by (subst (asm) find_text.simps) simp
    with True show ?thesis by (auto simp: text_startsWith_iff)
  next
    case False
    with Cons.prems obtain k where k: "find_text c xs = Some k" "n = Suc k"
      by (subst (asm) find_text.simps) auto
    from Cons.IH [OF k(1)] show ?thesis by (simp add: k(2))
  qed
qed

lemma find_text_length: "find_text c s = Some n \<Longrightarrow> n + length c \<le> length s"
  using find_text_some [of c s n] by (metis add_left_mono append_assoc length_append length_take le_add1 min.absorb2)

lemma find_text_shorter: "c \<noteq> [] \<Longrightarrow> find_text c s = Some n \<Longrightarrow> length s - (n + length c) < length s"
  by (drule find_text_length) (cases c; simp)

text \<open>
  The loops look for the separator from the end of the last one. The code asserts that it is not empty;
  for an empty one, which the loop would never get past, the definitions stop at once.
\<close>

function split_loop :: "string \<Rightarrow> bool \<Rightarrow> string \<Rightarrow> string list" where
  "split_loop c keepEmpty s =
     (case (if c = [] then None else find_text c s) of
        None \<Rightarrow> if keepEmpty \<or> s \<noteq> [] then [s] else []
      | Some n \<Rightarrow>
          (let item = take n s
           in (if keepEmpty \<or> item \<noteq> [] then [item] else []) @ split_loop c keepEmpty (drop (n + length c) s)))"
  by auto

termination
  by (relation "measure (\<lambda>(c, k, s). length s)") (auto split: if_splits intro: find_text_shorter)

declare split_loop.simps [simp del]

definition split :: "string \<Rightarrow> string \<Rightarrow> bool \<Rightarrow> string list" where
  "split s c keepEmpty = split_loop c keepEmpty s"

function replace_loop :: "string \<Rightarrow> string \<Rightarrow> string \<Rightarrow> string" where
  "replace_loop from' to' s =
     (case (if from' = [] then None else find_text from' s) of
        None \<Rightarrow> s
      | Some n \<Rightarrow> take n s @ to' @ replace_loop from' to' (drop (n + length from') s))"
  by auto
termination
  by (relation "measure (\<lambda>(c, k, s). length s)") (auto split: if_splits intro: find_text_shorter)

declare replace_loop.simps [simp del]

definition replace :: "string \<Rightarrow> string \<Rightarrow> string \<Rightarrow> string" where
  "replace where' from' to' = (if from' = to' then where' else replace_loop from' to' where')"

fun join_loop :: "bool \<Rightarrow> string \<Rightarrow> string list \<Rightarrow> string" where
  "join_loop first separator [] = []"
| "join_loop first separator (v # vs) = (if first then [] else separator) @ v @ join_loop False separator vs"

definition join :: "string list \<Rightarrow> string \<Rightarrow> string \<Rightarrow> string \<Rightarrow> string" where
  "join container separator prefix suffix = prefix @ join_loop True separator container @ suffix"

subsection \<open>Escapes\<close>

definition escape_char :: "char \<Rightarrow> string" where
  "escape_char c =
     (if c = CHR 0x22 \<or> c = CHR 0x5C then [CHR 0x5C, c]
      else if 0x20 \<le> code c \<and> code c < 0x7F then [c]
      else [CHR 0x5C, char_of (48 + code c div 64), char_of (48 + code c div 8 mod 8), char_of (48 + code c mod 8)])"

definition escapeCString :: "string \<Rightarrow> string" where
  "escapeCString s = concat (map escape_char s)"

definition escapeBlockComment :: "string \<Rightarrow> string" where
  "escapeBlockComment s = replace (replace s ''*/'' ''* /'') ''/*'' ''/ *''"

subsection \<open>Identifiers and letter case\<close>

definition identifier_char :: "char \<Rightarrow> char" where
  "identifier_char c = (if isAsciiAlnum c \<or> c = CHR ''_'' then c else CHR ''_'')"

text \<open>The code asserts that the name is not empty.\<close>

definition toValidIdentifier :: "string \<Rightarrow> string" where
  "toValidIdentifier name =
     (case name of
        [] \<Rightarrow> []
      | c # cs \<Rightarrow> (if \<not> isAsciiAlpha c \<and> c \<noteq> CHR ''_'' then [CHR ''_''] else []) @ map identifier_char name)"

text \<open>The first letter: the bit 0x20 is cleared or set.\<close>

definition capitalizeAsciiName :: "string \<Rightarrow> string" where
  "capitalizeAsciiName name =
     (case name of [] \<Rightarrow> [] | c # cs \<Rightarrow> if \<not> isAsciiAlpha c then name else char_of (unset_bit 5 (code c)) # cs)"

definition deCapitalizeAsciiName :: "string \<Rightarrow> string" where
  "deCapitalizeAsciiName name =
     (case name of [] \<Rightarrow> [] | c # cs \<Rightarrow> if \<not> isAsciiAlpha c then name else char_of (set_bit 5 (code c)) # cs)"

definition rtrim :: "string \<Rightarrow> string" where
  "rtrim s = rev (dropWhile (\<lambda>c. c \<in> set AsciiSpacing) (rev s))"

definition ltrim :: "string \<Rightarrow> string" where
  "ltrim s = dropWhile (\<lambda>c. c \<in> set AsciiSpacing) s"

definition trim :: "string \<Rightarrow> string" where
  "trim s = ltrim (rtrim s)"

text \<open>\<open>HeaderComparator\<close>: the headers of QtCore last.\<close>

definition HeaderComparator :: "string \<Rightarrow> string \<Rightarrow> bool" where
  "HeaderComparator lhs rhs =
     (let l = text_startsWith lhs ''QtCore/''; r = text_startsWith rhs ''QtCore/''
      in if l \<and> \<not> r then False else if \<not> l \<and> r then True else lhs < rhs)"

end
