(* ===== verification/GeneratorTextLaws.thy ===== *)
theory GeneratorTextLaws
  imports GeneratorText
begin

text \<open>
  What the text functions of the generators guarantee: the escapes keep generated code well formed, and
  \<open>split\<close>, \<open>join\<close> and \<open>replace\<close> fit together.
\<close>

subsection \<open>Search, split and replace\<close>

definition occurs :: "string \<Rightarrow> string \<Rightarrow> bool" where
  "occurs c s \<longleftrightarrow> (\<exists>u v. s = u @ c @ v)"

lemma occurs_Cons: "occurs c (x # xs) \<longleftrightarrow> text_startsWith (x # xs) c \<or> occurs c xs"
proof
  assume "occurs c (x # xs)"
  then obtain u v where e: "x # xs = u @ c @ v" by (auto simp: occurs_def)
  then show "text_startsWith (x # xs) c \<or> occurs c xs"
  proof (cases u)
    case (Cons y us)
    with e have "xs = us @ c @ v" by simp
    then show ?thesis unfolding occurs_def by blast
  qed (auto simp: text_startsWith_iff)
next
  assume "text_startsWith (x # xs) c \<or> occurs c xs"
  then obtain u v where "x # xs = u @ c @ v"
    unfolding text_startsWith_iff occurs_def by (metis append_Cons append_Nil)
  then show "occurs c (x # xs)" unfolding occurs_def by blast
qed

lemma find_text_none: "find_text c s = None \<longleftrightarrow> \<not> occurs c s"
proof (induction s)
  case Nil
  then show ?case by (subst find_text.simps) (auto simp: occurs_def text_startsWith_iff)
next
  case (Cons x xs)
  then show ?case by (subst find_text.simps) (auto simp: occurs_Cons)
qed

text \<open>The piece before the first occurrence has none of its own.\<close>

lemma find_text_first: "find_text c s = Some n \<Longrightarrow> c \<noteq> [] \<Longrightarrow> \<not> occurs c (take n s)"
proof (induction s arbitrary: n)
  case Nil
  then show ?case by (simp add: occurs_def)
next
  case (Cons x xs)
  show ?case
  proof (cases "text_startsWith (x # xs) c")
    case True
    with Cons.prems have "n = 0" by (subst (asm) find_text.simps) simp
    with Cons.prems(2) show ?thesis by (simp add: occurs_def)
  next
    case False
    with Cons.prems obtain k where k: "find_text c xs = Some k" "n = Suc k"
      by (subst (asm) find_text.simps) auto
    have "\<not> text_startsWith (x # take k xs) c"
    proof
      assume "text_startsWith (x # take k xs) c"
      then obtain r where "x # take k xs = c @ r" by (auto simp: text_startsWith_iff)
      then have "x # xs = c @ r @ drop k xs" by (metis append_Cons append_assoc append_take_drop_id)
      with False show False by (auto simp: text_startsWith_iff)
    qed
    with Cons.IH [OF k(1) Cons.prems(2)] show ?thesis by (simp add: k(2) occurs_Cons)
  qed
qed

lemma split_none: "find_text c s = None \<or> c = [] \<Longrightarrow> split_loop c k s = (if k \<or> s \<noteq> [] then [s] else [])"
  by (subst split_loop.simps) auto

lemma split_some: "find_text c s = Some n \<Longrightarrow> c \<noteq> [] \<Longrightarrow>
    split_loop c k s = (if k \<or> take n s \<noteq> [] then [take n s] else []) @ split_loop c k (drop (n + length c) s)"
  by (subst split_loop.simps) (simp add: Let_def)

lemma split_keep_nonempty: "split_loop c True s \<noteq> []"
  by (subst split_loop.simps) (auto simp: Let_def split: option.split)

lemma join_loop_False: "vs \<noteq> [] \<Longrightarrow> join_loop False c vs = c @ join_loop True c vs"
  by (cases vs) simp_all

text \<open>Replacing joins the pieces with another separator.\<close>

lemma replace_loop_join: "c \<noteq> [] \<Longrightarrow> replace_loop c d s = join_loop True d (split_loop c True s)"
proof (induction c d s rule: replace_loop.induct)
  case (1 c d s)
  show ?case
  proof (cases "find_text c s")
    case None
    then show ?thesis by (subst replace_loop.simps) (simp add: split_none)
  next
    case (Some n)
    have "replace_loop c d (drop (n + length c) s) = join_loop True d (split_loop c True (drop (n + length c) s))"
      using 1 Some by simp
    then show ?thesis
      using Some 1(2) split_keep_nonempty [of c "drop (n + length c) s"]
      by (subst replace_loop.simps) (simp add: split_some join_loop_False)
  qed
qed

lemma join_split: "c \<noteq> [] \<Longrightarrow> join_loop True c (split_loop c True s) = s"
proof (induction c True s rule: split_loop.induct)
  case (1 c s)
  show ?case
  proof (cases "find_text c s")
    case None
    then show ?thesis by (simp add: split_none)
  next
    case (Some n)
    then have "join_loop True c (split_loop c True (drop (n + length c) s)) = drop (n + length c) s"
      using 1 by simp
    then show ?thesis
      using find_text_some [OF Some] split_keep_nonempty [of c "drop (n + length c) s"] 1(2)
      by (simp add: split_some [OF Some] join_loop_False)
  qed
qed

lemma split_pieces: "c \<noteq> [] \<Longrightarrow> \<forall>item \<in> set (split_loop c k s). \<not> occurs c item"
proof (induction c k s rule: split_loop.induct)
  case (1 c k s)
  show ?case
  proof (cases "find_text c s")
    case None
    then show ?thesis using find_text_none [of c s] by (simp add: split_none)
  next
    case (Some n)
    then show ?thesis
      using 1 find_text_first [OF Some] by (auto simp: split_some)
  qed
qed

lemma replace_join: "c \<noteq> [] \<Longrightarrow> replace s c d = join (split s c True) d [] []"
  by (simp add: replace_def join_def split_def replace_loop_join join_split)

text \<open>Replacing a single character.\<close>

lemma concat_unchanged: "c \<notin> set s \<Longrightarrow> concat (map (\<lambda>x. if x = c then d else [x]) s) = s"
  by (induction s) auto

lemma replace_char: "replace_loop [c] d s = concat (map (\<lambda>x. if x = c then d else [x]) s)"
proof (induction "[c]" d s rule: replace_loop.induct)
  case (1 d s)
  show ?case
  proof (cases "find_text [c] s")
    case None
    then have "c \<notin> set s" using split_list [of c s] by (auto simp: find_text_none occurs_def)
    with None show ?thesis by (subst replace_loop.simps) (simp add: concat_unchanged)
  next
    case (Some n)
    have "c \<notin> set (take n s)"
      using find_text_first [OF Some] split_list [of c "take n s"] by (auto simp: occurs_def)
    note same = concat_unchanged [OF this, of d]
    have "concat (map (\<lambda>x. if x = c then d else [x]) s) =
        concat (map (\<lambda>x. if x = c then d else [x]) (take n s @ [c] @ drop (n + length [c]) s))"
      using find_text_some [OF Some] by simp
    also have "\<dots> = take n s @ d @ concat (map (\<lambda>x. if x = c then d else [x]) (drop (n + length [c]) s))"
      using same by simp
    finally show ?thesis using 1 Some by (subst replace_loop.simps) simp
  qed
qed

subsection \<open>Two characters that must not meet\<close>

fun meets :: "char \<Rightarrow> char \<Rightarrow> string \<Rightarrow> bool" where
  "meets a b (x # y # zs) = (x = a \<and> y = b \<or> meets a b (y # zs))"
| "meets a b _ = False"

lemma meets_occurs: "meets a b s \<longleftrightarrow> occurs [a, b] s"
  by (induction a b s rule: meets.induct) (auto simp: occurs_Cons text_startsWith_iff occurs_def Cons_eq_append_conv)

text \<open>What \<open>replace\<close> makes of the pair, character by character.\<close>

fun separate :: "char \<Rightarrow> char \<Rightarrow> string \<Rightarrow> string" where
  "separate a b (x # y # zs) =
     (if x = a \<and> y = b then a # CHR '' '' # b # separate a b zs else x # separate a b (y # zs))"
| "separate a b s = s"

lemma separate_none: "\<not> meets a b s \<Longrightarrow> separate a b s = s"
  by (induction a b s rule: separate.induct) auto

lemma separate_some: "find_text [a, b] s = Some n \<Longrightarrow> separate a b s = take n s @ [a, CHR '' '', b] @ separate a b (drop (n + 2) s)"
proof (induction a b s arbitrary: n rule: separate.induct)
  case (1 a b x y zs)
  show ?case
  proof (cases "x = a \<and> y = b")
    case True
    then have "find_text [a, b] (x # y # zs) = Some 0" by (subst find_text.simps) simp
    with 1(3) True show ?thesis by simp
  next
    case False
    then have "\<not> text_startsWith (x # y # zs) [a, b]" by simp
    with 1(3) obtain k where k: "find_text [a, b] (y # zs) = Some k" "n = Suc k"
      by (subst (asm) find_text.simps) auto
    have "separate a b (x # y # zs) = x # separate a b (y # zs)" using False by auto
    with 1(2) [OF False k(1)] show ?thesis by (simp only: k(2)) simp
  qed
qed (auto dest: find_text_length)

lemma replace_pair: "replace_loop [a, b] [a, CHR '' '', b] s = separate a b s"
proof (induction "[a, b]" "[a, CHR '' '', b]" s rule: replace_loop.induct)
  case (1 s)
  show ?case
  proof (cases "find_text [a, b] s")
    case None
    then show ?thesis
      using find_text_none [of "[a, b]" s] by (subst replace_loop.simps) (simp add: separate_none meets_occurs)
  next
    case (Some n)
    then show ?thesis using 1 separate_some [OF Some] by (subst replace_loop.simps) simp
  qed
qed

lemma separate_head: "separate a b (y # zs) = y # tl (separate a b (y # zs))"
  by (cases zs) auto

lemma meets_Cons: "meets a b (x # s) \<longleftrightarrow> (x = a \<and> s \<noteq> [] \<and> hd s = b) \<or> meets a b s"
  by (cases s) auto

lemma separate_hd: "separate a b s = [] \<longleftrightarrow> s = []" "s \<noteq> [] \<Longrightarrow> hd (separate a b s) = hd s"
  by (cases s; cases "tl s"; auto)+

lemma separate_separates: "a \<noteq> b \<Longrightarrow> a \<noteq> CHR '' '' \<Longrightarrow> b \<noteq> CHR '' '' \<Longrightarrow> \<not> meets a b (separate a b s)"
  by (induction a b s rule: separate.induct) (auto simp: meets_Cons separate_hd)

text \<open>Separating the pair \<open>ba\<close> makes no pair \<open>ab\<close>.\<close>

lemma separate_keeps: "a \<noteq> b \<Longrightarrow> a \<noteq> CHR '' '' \<Longrightarrow> b \<noteq> CHR '' '' \<Longrightarrow> \<not> meets a b s \<Longrightarrow> \<not> meets a b (separate b a s)"
  by (induction b a s rule: separate.induct) (auto simp: meets_Cons separate_hd)


subsection \<open>Trimming and the order of includes\<close>

lemma trim_ends: "trim s \<noteq> [] \<Longrightarrow> hd (trim s) \<notin> set AsciiSpacing"
  by (metis (mono_tags, lifting) hd_dropWhile ltrim_def trim_def)

text \<open>The comparator is a strict linear order, as the set of includes asks for.\<close>

lemma header_order:
  "\<not> HeaderComparator a a" "HeaderComparator a b \<Longrightarrow> HeaderComparator b c \<Longrightarrow> HeaderComparator a c"
  "HeaderComparator a b \<or> a = b \<or> HeaderComparator b a"
  by (auto simp: HeaderComparator_def Let_def split: if_splits)

end
