(* ===== verification/GeneratedLiterals.thy ===== *)
theory GeneratedLiterals
  imports GeneratorTextLaws
begin

text \<open>
  What a C++ compiler makes of the text that the generators print: string literals and comments.
\<close>

subsection \<open>A reader of string literals\<close>

text \<open>
  The bytes of a sequence of string literals between white space and comments, as the language defines
  them: adjacent literals are joined, an octal escape takes up to three digits, and a line does not end
  within a literal. The result is nothing when the text is no such sequence; escapes that the generators
  do not print are not read. The flag says whether the reader is inside a literal.
\<close>

definition octal_digit :: "char \<Rightarrow> bool" where
  "octal_digit c \<longleftrightarrow> 48 \<le> code c \<and> code c \<le> 55"

definition octal_digits :: "string \<Rightarrow> string" where
  "octal_digits s = takeWhile octal_digit (take 3 s)"

definition octal_value :: "string \<Rightarrow> nat" where
  "octal_value ds = foldl (\<lambda>n c. 8 * n + (code c - 48)) 0 ds"

function c_read :: "bool \<Rightarrow> string \<Rightarrow> string option" where
  "c_read False [] = Some []"
| "c_read True [] = None"
| "c_read True (c # cs) =
     (if c = CHR 0x22 then c_read False cs
      else if c = CHR 0x0A then None
      else if c = CHR 0x5C then
        (if octal_digits cs \<noteq> [] then
           (if octal_value (octal_digits cs) < 256
            then map_option (Cons (char_of (octal_value (octal_digits cs)))) (c_read True (drop (length (octal_digits cs)) cs))
            else None)
         else if cs \<noteq> [] \<and> (hd cs = CHR 0x22 \<or> hd cs = CHR 0x5C)
         then map_option (Cons (hd cs)) (c_read True (tl cs))
         else None)
      else map_option (Cons c) (c_read True cs))"
| "c_read False (c # cs) =
     (if c = CHR 0x22 then c_read True cs
      else if c \<in> set AsciiSpacing then c_read False cs
      else if text_startsWith (c # cs) ''//'' then c_read False (dropWhile (\<lambda>x. x \<noteq> CHR 0x0A) cs)
      else if text_startsWith (c # cs) ''/*'' then
        (case find_text ''*/'' (tl cs) of None \<Rightarrow> None | Some n \<Rightarrow> c_read False (drop (n + 2) (tl cs)))
      else None)"
  by pat_completeness auto
termination by (relation "measure (\<lambda>(b, s). length s)") (auto simp: le_imp_less_Suc length_dropWhile_le)

subsection \<open>Escaped text within a literal\<close>

lemma char_cases: "c = d \<longleftrightarrow> code c = (code d :: nat)"
  by (metis char_of_char)

lemma read_plain: "c \<noteq> CHR 0x22 \<Longrightarrow> c \<noteq> CHR 0x5C \<Longrightarrow> c \<noteq> CHR 0x0A \<Longrightarrow> c_read True (c # s) = map_option (Cons c) (c_read True s)"
  by simp

lemma octal_three: "octal_digit a \<Longrightarrow> octal_digit b \<Longrightarrow> octal_digit c \<Longrightarrow> octal_digits (a # b # c # s) = [a, b, c]"
  by (simp add: octal_digits_def numeral_3_eq_3)

lemma octal_char: "n < 8 \<Longrightarrow> octal_digit (char_of (48 + n)) \<and> code (char_of (48 + n) :: char) = 48 + n"
  by (simp add: octal_digit_def)

lemma octal_parts: "(n :: nat) < 256 \<Longrightarrow> 8 * (8 * (n div 64) + n div 8 mod 8) + n mod 8 = n \<and> n div 64 < 8"
proof -
  have "n div 64 = n div 8 div 8" by (simp flip: div_mult2_eq)
  then have "8 * (n div 64) + n div 8 mod 8 = n div 8" by simp
  moreover assume "n < 256"
  ultimately show ?thesis by simp
qed

lemma read_escape: "c_read True (escape_char c @ s) = map_option (Cons c) (c_read True s)"
proof -
  consider "c = CHR 0x22 \<or> c = CHR 0x5C" | "c \<noteq> CHR 0x22" "c \<noteq> CHR 0x5C" "0x20 \<le> code c" "code c < 0x7F"
    | "c \<noteq> CHR 0x22" "c \<noteq> CHR 0x5C" "\<not> (0x20 \<le> code c \<and> code c < 0x7F)" by linarith
  then show ?thesis
  proof cases
    case 1
    then show ?thesis by (auto simp: escape_char_def octal_digits_def octal_digit_def)
  next
    case 2
    then have "c \<noteq> CHR 0x0A" by auto
    with 2 show ?thesis by (simp add: escape_char_def)
  next
    case 3
    have n: "code c < 256" using of_char_mod_256 [of c, where 'a = nat] by (metis mod_less_divisor zero_less_numeral)
    let ?ds = "[char_of (48 + code c div 64), char_of (48 + code c div 8 mod 8), char_of (48 + code c mod 8)] :: string"
    note parts = octal_parts [OF n]
    have "octal_digits (?ds @ s) = ?ds"
      using octal_char [of "code c div 64"] octal_char [of "code c div 8 mod 8"] octal_char [of "code c mod 8"] parts
      by (simp add: octal_three)
    moreover have "octal_value ?ds = code c"
      using octal_char [of "code c div 64"] octal_char [of "code c div 8 mod 8"] octal_char [of "code c mod 8"] parts
      by (simp add: octal_value_def)
    ultimately show ?thesis using 3 n by (simp add: escape_char_def)
  qed
qed

lemma read_escaped: "c_read True (escapeCString t @ s) = map_option ((@) t) (c_read True s)"
proof (induction t)
  case Nil
  then show ?case by (simp add: escapeCString_def option.map_ident)
next
  case (Cons c t)
  then show ?case
    by (simp add: escapeCString_def read_escape option.map_comp comp_def)
qed

text \<open>\<open>\0\<close>, when no octal digit follows.\<close>

lemma read_nul:
  assumes "s = [] \<or> \<not> octal_digit (hd s)"
  shows "c_read True (CHR 0x5C # CHR ''0'' # s) = map_option (Cons CHR 0x00) (c_read True s)"
proof -
  have "octal_digits (CHR ''0'' # s) = [CHR ''0'']"
    using assms by (cases s) (auto simp: octal_digits_def octal_digit_def numeral_3_eq_3)
  moreover have "octal_value [CHR ''0''] = 0" "(char_of (0 :: nat) :: char) = CHR 0x00"
    by (simp_all add: octal_value_def char_of_def)
  ultimately show ?thesis by simp
qed

lemma read_quote: "c_read True (CHR 0x22 # s) = c_read False s" by simp

lemma read_open: "c_read False (CHR 0x22 # s) = c_read True s" by simp

lemma read_space: "c \<in> set AsciiSpacing \<Longrightarrow> c \<noteq> CHR 0x22 \<Longrightarrow> c_read False (c # s) = c_read False s" by simp


subsection \<open>Comments\<close>

text \<open>A comment whose body has no end mark of its own closes where the generator closes it.\<close>

lemma meets_append: "meets a b (s @ t) \<longleftrightarrow> meets a b s \<or> meets a b t \<or> (s \<noteq> [] \<and> t \<noteq> [] \<and> last s = a \<and> hd t = b)"
  by (induction s) (auto simp: meets_Cons hd_append)

lemma find_pair: "\<not> meets a b s \<Longrightarrow> a \<noteq> CHR '' '' \<Longrightarrow> b \<noteq> CHR '' '' \<Longrightarrow> find_text [a, b] (s @ [CHR '' '', a, b]) = Some (length s + 1)"
proof (induction s)
  case Nil
  then show ?case by (simp add: find_text.simps)
next
  case (Cons x s)
  have "\<not> text_startsWith ((x # s) @ [CHR '' '', a, b]) [a, b]"
    using Cons.prems by (cases s) (auto simp: meets_Cons)
  with Cons show ?case by (subst find_text.simps) (simp add: meets_Cons)
qed

lemma escaped_comment: "\<not> meets CHR ''*'' CHR ''/'' (escapeBlockComment s) \<and> \<not> meets CHR ''/'' CHR ''*'' (escapeBlockComment s)"
  using separate_keeps [OF _ _ _ separate_separates [of "CHR ''*''" "CHR ''/''" s]]
    separate_separates [of "CHR ''/''" "CHR ''*''" "separate CHR ''*'' CHR ''/'' s"]
  by (simp add: escapeBlockComment_def replace_def replace_pair)

lemma comment_closes: "find_text ''*/'' (escapeBlockComment s @ '' */'') = Some (length (escapeBlockComment s) + 1)"
  using escaped_comment [of s] by (intro find_pair) simp_all

end
