(* ===== verification/GeneratedText.thy ===== *)
theory GeneratedText
  imports GeneratedLiterals MessageRoundtrip
begin

text \<open>
  The text that the generator prints for the names of a table (\<open>printCharData\<close> and \<open>printUintData\<close> of
  src/src/tools/qtprotobufgen/messagedefinitionprinter.cpp) and for the comments that it copies
  (src/src/tools/qtprotoccommon/baseprinter.cpp), and what a compiler makes of it.
\<close>

subsection \<open>The names of a table\<close>

definition text_of :: "byte list \<Rightarrow> string" where
  "text_of bs = map (\<lambda>b. char_of (unat b)) bs"

text \<open>
  The loop over the fields with the number of names that were printed. Every fifth name starts a new
  literal on a new line, and a name that starts with an octal digit starts a new literal, so that the
  digit is not read as part of the escape before it.
\<close>

fun print_names :: "nat \<Rightarrow> field_descriptor list \<Rightarrow> string" where
  "print_names emitted [] = []"
| "print_names emitted (f # fs) =
     (if isGroupField f then print_names emitted fs
      else let jsonName = escapeCString (text_of (desc_json_name f))
        in (if emitted \<noteq> 0 \<and> emitted mod 5 = 0 then [CHR 0x22, CHR 0x0A, CHR 0x22]
            else if emitted \<noteq> 0 \<and> jsonName \<noteq> [] \<and> 48 \<le> code (hd jsonName) \<and> code (hd jsonName) \<le> 55
            then [CHR 0x22, CHR '' '', CHR 0x22]
            else []) @ jsonName @ [CHR 0x5C, CHR ''0''] @ print_names (emitted + 1) fs)"

definition printCharData_text :: "message_descriptor \<Rightarrow> string" where
  "printCharData_text d =
     ''// char_data'' @ [CHR 0x0A] @ ''/* metadata char_data: */'' @ [CHR 0x0A, CHR 0x22] @
     text_of (desc_full_name d) @ [CHR 0x5C, CHR ''0'', CHR 0x22] @ '' /* = full message name */'' @ [CHR 0x0A] @
     ''/* field char_data: */'' @ [CHR 0x0A, CHR 0x22] @ print_names 0 (desc_fields d) @ [CHR 0x22, CHR 0x0A]"

text \<open>The name of a field as the comment of its row shows it.\<close>

definition row_comment :: "field_descriptor \<Rightarrow> string" where
  "row_comment f = escapeBlockComment (escapeCString (text_of (desc_json_name f)))"

subsection \<open>Copied comments\<close>

text \<open>
  The pieces that are given to \<open>Printer::Print\<close>, which takes \<open>$$\<close> for a dollar sign.
\<close>

definition printCommentsImpl :: "string \<Rightarrow> string list" where
  "printCommentsImpl comments0 =
     (let comments = trim comments0
      in if comments = [] then []
         else let isSingleLine = \<not> contains_char comments CHR 0x0A;
                  c1 = (if hd comments \<noteq> CHR ''!'' \<and> hd comments \<noteq> CHR ''*''
                        then (if isSingleLine then [] else [CHR 0x0A]) @ CHR '' '' # comments else comments);
                  c2 = (if isSingleLine then c1 else replace c1 [CHR 0x0A] [CHR 0x0A, CHR '' '', CHR ''*'']);
                  c3 = (if \<not> isSingleLine \<and> \<not> endsWith_char c2 CHR 0x0A then c2 @ [CHR 0x0A] else c2)
              in [CHR 0x0A # ''/*'', replace (escapeBlockComment c3) ''$'' ''$$'', '' */''])"

fun printed :: "string \<Rightarrow> string" where
  "printed (x # y # zs) = (if x = CHR ''$'' \<and> y = CHR ''$'' then CHR ''$'' # printed zs else x # printed (y # zs))"
| "printed s = s"

subsection \<open>The compiler reads the names\<close>

lemma names_start: "print_names (Suc n) fs @ [CHR 0x22, CHR 0x0A] \<noteq> [] \<and>
    \<not> octal_digit (hd (print_names (Suc n) fs @ [CHR 0x22, CHR 0x0A]))"
proof (induction fs arbitrary: n)
  case Nil
  then show ?case by (simp add: octal_digit_def)
next
  case (Cons f fs)
  show ?case
  proof (cases "isGroupField f")
    case True
    then show ?thesis using Cons by simp
  next
    case False
    then show ?thesis by (auto simp: Let_def octal_digit_def hd_append)
  qed
qed

abbreviation name_texts :: "field_descriptor list \<Rightarrow> string" where
  "name_texts fs \<equiv> concat (map (\<lambda>f. if isGroupField f then [] else text_of (desc_json_name f) @ [CHR 0x00]) fs)"

lemma read_reopen: "c_read True (CHR 0x22 # CHR 0x0A # CHR 0x22 # s) = c_read True s"
  "c_read True (CHR 0x22 # CHR '' '' # CHR 0x22 # s) = c_read True s"
  by (simp_all add: AsciiSpacing_def)

lemma read_name_row: "\<not> octal_digit (hd s) \<Longrightarrow> s \<noteq> [] \<Longrightarrow>
    c_read True (escapeCString t @ CHR 0x5C # CHR ''0'' # s) = map_option (\<lambda>r. t @ CHR 0x00 # r) (c_read True s)"
  by (simp add: read_escaped read_nul option.map_comp comp_def del: c_read.simps)

lemma read_names: "c_read True (print_names n fs @ [CHR 0x22, CHR 0x0A]) = Some (name_texts fs)"
proof (induction fs arbitrary: n)
  case Nil
  then show ?case by (simp add: AsciiSpacing_def)
next
  case (Cons f fs)
  show ?case
  proof (cases "isGroupField f")
    case True
    then show ?thesis using Cons by simp
  next
    case False
    let ?t = "text_of (desc_json_name f)" and ?s = "print_names (Suc n) fs @ [CHR 0x22, CHR 0x0A]"
    have "c_read True (escapeCString ?t @ CHR 0x5C # CHR ''0'' # ?s) = Some (?t @ CHR 0x00 # name_texts fs)"
      using names_start [of n fs] by (subst read_name_row) (simp_all add: Cons del: c_read.simps)
    then show ?thesis using False by (auto simp: Let_def read_reopen simp del: c_read.simps)
  qed
qed

lemma text_of_append [simp]: "text_of (xs @ ys) = text_of xs @ text_of ys" "text_of [] = []" "text_of (0 # ys) = CHR 0x00 # text_of ys"
  by (simp_all add: text_of_def char_of_def)

lemma read_plain_text:
  "\<forall>c \<in> set s. c \<noteq> CHR 0x22 \<and> c \<noteq> CHR 0x5C \<and> c \<noteq> CHR 0x0A \<Longrightarrow> c_read True (s @ r) = map_option (\<lambda>x. s @ x) (c_read True r)"
  by (cases "c_read True r"; induction s) auto


text \<open>C36: The names of a generated table: the string literals that are printed for a message, whatever bytes
  its JSON names have, are read by a compiler as the names that the table is made of, each with its
  terminator; the last terminator is the one that the compiler adds.\<close>

theorem char_data_text_decodes:
  assumes "\<forall>c \<in> set (text_of (desc_full_name d)). c \<noteq> CHR 0x22 \<and> c \<noteq> CHR 0x5C \<and> c \<noteq> CHR 0x0A"
  shows "c_read False (printCharData_text d) = Some (text_of (butlast (printCharData d)))"
proof -
  let ?names = "print_names 0 (desc_fields d) @ [CHR 0x22, CHR 0x0A]"
  have names: "text_of (concat (map (\<lambda>f. if isGroupField f then [] else desc_json_name f @ [0]) fs)) = name_texts fs" for fs
    by (induction fs) simp_all
  have second: "c_read False ('' /* = full message name */'' @ [CHR 0x0A] @ ''/* field char_data: */'' @ [CHR 0x0A, CHR 0x22] @ ?names) =
      Some (name_texts (desc_fields d))"
    using read_names [of 0 "desc_fields d"] by (simp add: AsciiSpacing_def find_text.simps del: print_names.simps)
  have "c_read False (printCharData_text d) =
      c_read True (text_of (desc_full_name d) @ [CHR 0x5C, CHR ''0'', CHR 0x22] @ '' /* = full message name */'' @
        [CHR 0x0A] @ ''/* field char_data: */'' @ [CHR 0x0A, CHR 0x22] @ ?names)"
    by (simp add: printCharData_text_def AsciiSpacing_def find_text.simps)
  also have "\<dots> = map_option (\<lambda>x. text_of (desc_full_name d) @ x)
      (c_read True (CHR 0x5C # CHR ''0'' # CHR 0x22 # '' /* = full message name */'' @
        [CHR 0x0A] @ ''/* field char_data: */'' @ [CHR 0x0A, CHR 0x22] @ ?names))"
    by (simp only: read_plain_text [OF assms] append_Cons append_Nil)
  also have "\<dots> = Some (text_of (desc_full_name d) @ CHR 0x00 # name_texts (desc_fields d))"
    using second by (subst read_nul) (simp_all add: octal_digit_def del: c_read.simps add: read_quote)
  finally show ?thesis
    by (simp add: printCharData_def names butlast_append)
qed


theorem char_data_text_decodes_witness:
  "c_read False (printCharData_text demo_descriptor) = Some (text_of (butlast (printCharData demo_descriptor)))"
proof (rule char_data_text_decodes)
  show "\<forall>c \<in> set (text_of (desc_full_name demo_descriptor)). c \<noteq> CHR 0x22 \<and> c \<noteq> CHR 0x5C \<and> c \<noteq> CHR 0x0A"
    by (simp add: demo_descriptor_def text_of_def char_of_def)
qed

text \<open>The dollar signs that are doubled for the printer are single in the output.\<close>

lemma printed_other: "x \<noteq> CHR ''$'' \<Longrightarrow> printed (x # s) = x # printed s"
  by (cases s) auto

lemma printed_dollars: "printed (replace s ''$'' ''$$'') = s"
proof -
  have "printed (concat (map (\<lambda>x. if x = CHR ''$'' then ''$$'' else [x]) s)) = s"
    by (induction s) (auto simp: printed_other)
  then show ?thesis by (simp add: replace_def replace_char)
qed

text \<open>C37: A comment that is copied from a \<open>.proto\<close> file stays closed: in the output, what follows the
  mark that opens the comment holds the mark that closes it at its very end only, and no second
  opening mark, whatever the text of the comment is; so no text of a comment becomes code.\<close>

theorem copied_comment_stays_closed:
  "printCommentsImpl comments = [] \<or>
   (\<exists>body. concat (map printed (printCommentsImpl comments)) = CHR 0x0A # ''/*'' @ body @ '' */'' \<and>
     find_text ''*/'' (body @ '' */'') = Some (length body + 1) \<and> \<not> occurs ''/*'' (body @ '' */''))"
proof (cases "printCommentsImpl comments = []")
  case False
  then obtain c where c: "printCommentsImpl comments = [CHR 0x0A # ''/*'', replace (escapeBlockComment c) ''$'' ''$$'', '' */'']"
    by (auto simp: printCommentsImpl_def Let_def split: if_splits)
  have "concat (map printed (printCommentsImpl comments)) = CHR 0x0A # ''/*'' @ escapeBlockComment c @ '' */''"
    unfolding c by (simp add: printed_dollars)
  moreover have "\<not> occurs ''/*'' (escapeBlockComment c @ '' */'')"
    using escaped_comment [of c] by (simp add: meets_occurs [symmetric] meets_append)
  ultimately show ?thesis using comment_closes [of c] by blast
qed simp

end
