(* ===== verification/GeneratorOptions.thy ===== *)
theory GeneratorOptions
  imports GeneratorTextLaws
begin

text \<open>
  The options of the code generators (src/src/tools/qtprotoccommon/options.cpp and options.h) and the
  names that the generators make of the names of a \<open>.proto\<close> file
  (src/src/tools/qtprotoccommon/generatorcommon.cpp).
\<close>

subsection \<open>Options\<close>

datatype HeaderGuardType = Pragma | ProtoFilename
datatype FinalPolicy = Final | NonFinal

record options =
  m_generateComments :: bool
  m_isFolder :: bool
  m_generateFieldEnum :: bool
  m_extraNamespace :: string
  m_exportMacro :: string
  m_exportMacroFilename :: string
  m_generateMacroExportFile :: bool
  m_qml :: bool
  m_mutableGetterConflicts :: bool
  m_messageGenerationType :: FinalPolicy
  m_propertyGenerationType :: FinalPolicy
  m_headerGuard :: HeaderGuardType

definition new_options :: options where
  "new_options =
     \<lparr>m_generateComments = False, m_isFolder = False, m_generateFieldEnum = True, m_extraNamespace = [],
      m_exportMacro = [], m_exportMacroFilename = [], m_generateMacroExportFile = False, m_qml = False,
      m_mutableGetterConflicts = False, m_messageGenerationType = Final, m_propertyGenerationType = Final,
      m_headerGuard = ProtoFilename\<rparr>"

definition extractCompositeOptionValue :: "string \<Rightarrow> string" where
  "extractCompositeOptionValue option =
     (let compositeOption = split option ''='' False
      in if length compositeOption \<noteq> 2 then []
         else let optionValue = last compositeOption
           in if text_startsWith_char optionValue CHR 0x22 \<and> endsWith_char optionValue CHR 0x22
              then take (length optionValue - 2) (drop 1 optionValue) else optionValue)"

text \<open>\<open>[a-zA-Z_][0-9a-zA-Z_]*\<close>\<close>

definition valid_c_identifier :: "string \<Rightarrow> bool" where
  "valid_c_identifier s \<longleftrightarrow>
     (case s of
        [] \<Rightarrow> False
      | c # cs \<Rightarrow> (isAsciiAlpha c \<or> c = CHR ''_'') \<and> list_all (\<lambda>x. isAsciiAlnum x \<or> x = CHR ''_'') cs)"

definition macro_error :: "string \<Rightarrow> string" where
  "macro_error m = ''EXPORT_MACRO '' @ [CHR 0x27] @ m @ [CHR 0x27] @ '' is not a valid C identifier.''"

text \<open>The parts of \<open>EXPORT_MACRO=macro:file:flag\<close>; the result is the error that ends the loop.\<close>

definition set_export_macro :: "string list \<Rightarrow> options \<Rightarrow> string + options" where
  "set_export_macro export_macro_values o0 =
     (case export_macro_values of
        [] \<Rightarrow> Inr o0
      | macro # rest \<Rightarrow>
          if \<not> valid_c_identifier macro then Inl (macro_error macro)
          else let o1 = o0\<lparr>m_exportMacro := macro\<rparr>;
                   o2 = (case rest of [] \<Rightarrow> o1 | file # _ \<Rightarrow> o1\<lparr>m_exportMacroFilename := file\<rparr>);
                   o3 = (case rest of _ # flag # _ \<Rightarrow> o2\<lparr>m_generateMacroExportFile := (flag = ''true'')\<rparr> | _ \<Rightarrow> o2)
            in Inr (if m_exportMacroFilename o3 = []
                    then o3\<lparr>m_exportMacroFilename := asciiToLower (m_exportMacro o3) @ ''_exports.qpb.h''\<rparr> else o3))"

definition set_option :: "string \<Rightarrow> options \<Rightarrow> string + options" where
  "set_option option o0 =
     (if option = ''COPY_COMMENTS'' then Inr (o0\<lparr>m_generateComments := True\<rparr>)
      else if option = ''GENERATE_PACKAGE_SUBFOLDERS'' then Inr (o0\<lparr>m_isFolder := True\<rparr>)
      else if option = ''FIELD_ENUM'' then Inr o0
      else if find_text ''EXTRA_NAMESPACE'' option = Some 0
      then Inr (o0\<lparr>m_extraNamespace := extractCompositeOptionValue option\<rparr>)
      else if find_text ''EXPORT_MACRO'' option = Some 0
      then set_export_macro (split (extractCompositeOptionValue option) '':'' False) o0
      else if option = ''QML'' then Inr (o0\<lparr>m_qml := True\<rparr>)
      else if find_text ''HEADER_GUARD'' option = Some 0
      then Inr (if extractCompositeOptionValue option = ''pragma'' then o0\<lparr>m_headerGuard := Pragma\<rparr> else o0)
      else if option = ''ALLOW_MUTABLE_GETTER_CONFLICTS'' then Inr (o0\<lparr>m_mutableGetterConflicts := True\<rparr>)
      else if option = ''GENERATE_NON_FINAL_MESSAGES'' then Inr (o0\<lparr>m_messageGenerationType := NonFinal\<rparr>)
      else if option = ''GENERATE_NON_FINAL_PROPERTIES'' then Inr (o0\<lparr>m_propertyGenerationType := NonFinal\<rparr>)
      else Inr o0)"

text \<open>The options that were set stay when one ends the loop.\<close>

fun set_options :: "string list \<Rightarrow> options \<Rightarrow> options \<times> string option" where
  "set_options [] o0 = (o0, None)"
| "set_options (option # rest) o0 =
     (case set_option option o0 of Inl e \<Rightarrow> (o0, Some e) | Inr o1 \<Rightarrow> set_options rest o1)"

definition setFromString :: "string \<Rightarrow> options \<Rightarrow> options \<times> string option" where
  "setFromString opts o0 = set_options (split opts '';'' False) o0"

text \<open>The macro that is printed before exported names.\<close>

definition buildExportMacro :: "bool \<Rightarrow> options \<Rightarrow> string" where
  "buildExportMacro addTrailingSpace o0 =
     (if m_exportMacro o0 = [] then []
      else ''QPB_'' @ m_exportMacro o0 @ ''_EXPORT'' @ (if addTrailingSpace then '' '' else []))"

subsection \<open>Names\<close>

definition headerGuardFromFilename :: "string \<Rightarrow> string" where
  "headerGuardFromFilename fileName = replace (asciiToUpper fileName) ''.'' ''_''"

definition generateRelativeFilePath :: "options \<Rightarrow> string \<Rightarrow> string \<Rightarrow> string" where
  "generateRelativeFilePath o0 package name =
     (let folder = (if m_isFolder o0 \<and> package \<noteq> [] then replace package ''.'' ''/'' @ ''/'' else [])
      in folder @ name)"

definition ListOfQmlExceptions :: "string list" where
  "ListOfQmlExceptions = [''id'', ''property'', ''import'']"

definition ListOfCppExceptions :: "string list" where
  "ListOfCppExceptions =
     [''NULL'', ''alignas'', ''alignof'', ''and'', ''and_eq'', ''asm'', ''auto'', ''bitand'', ''bitor'', ''bool'',
      ''break'', ''case'', ''catch'', ''char'', ''class'', ''compl'', ''const'', ''constexpr'', ''const_cast'', ''continue'',
      ''decltype'', ''default'', ''delete'', ''do'', ''double'', ''dynamic_cast'', ''else'', ''enum'', ''explicit'', ''export'',
      ''extern'', ''false'', ''float'', ''for'', ''friend'', ''goto'', ''if'', ''inline'', ''int'', ''long'',
      ''mutable'', ''namespace'', ''new'', ''noexcept'', ''not'', ''not_eq'', ''nullptr'', ''operator'', ''or'', ''or_eq'',
      ''private'', ''protected'', ''public'', ''register'', ''reinterpret_cast'', ''return'', ''short'', ''signed'', ''sizeof'',
      ''static'', ''static_assert'', ''static_cast'', ''struct'', ''switch'', ''template'', ''this'', ''thread_local'', ''throw'',
      ''true'', ''try'', ''typedef'', ''typeid'', ''typename'', ''union'', ''unsigned'', ''using'', ''virtual'', ''void'',
      ''volatile'', ''wchar_t'', ''while'', ''xor'', ''xor_eq'',
      ''char8_t'', ''char16_t'', ''char32_t'', ''concept'', ''consteval'', ''constinit'', ''co_await'', ''co_return'',
      ''co_yield'', ''requires'', ''assert'', ''signals'', ''slots'', ''emit'']"

definition qualifiedCppName :: "string \<Rightarrow> string" where
  "qualifiedCppName name = (if name \<in> set ListOfCppExceptions then name @ ''_'' else name)"

definition qualifiedQmlName :: "string \<Rightarrow> string" where
  "qualifiedQmlName name = (if name \<in> set ListOfQmlExceptions then name @ ''_proto'' else name)"

text \<open>The names of a property, from the name of its field in camel case.\<close>

definition property_name :: "string \<Rightarrow> string" where
  "property_name camelcase = qualifiedCppName (qualifiedQmlName (deCapitalizeAsciiName camelcase))"

definition property_name_cap :: "string \<Rightarrow> string" where
  "property_name_cap camelcase = capitalizeAsciiName (property_name camelcase)"

definition mutable_getter_name :: "string \<Rightarrow> string" where
  "mutable_getter_name camelcase = ''mut'' @ property_name_cap camelcase"

definition hasCustomJsonCoversion :: "string \<Rightarrow> bool" where
  "hasCustomJsonCoversion name \<longleftrightarrow> name \<in> set [''Timestamp'', ''Duration'', ''BoolValue'', ''Int32Value'', ''Int64Value'',
     ''UInt32Value'', ''UInt64Value'', ''FloatValue'', ''DoubleValue'', ''BytesValue'', ''StringValue'']"

subsection \<open>Namespaces\<close>

text \<open>
  A message or enum type: its name, its package and file, whether it is a map entry, and the names of the
  types around it, the innermost first. The types of a pool have different full names, so two types
  are the same when these are.
\<close>

record type_descriptor =
  td_name :: string
  td_containing :: "string list"
  td_package :: string
  td_file :: string
  td_is_map :: bool

definition QtProtobufNestedNamespace :: string where
  "QtProtobufNestedNamespace = ''_QtProtobufNested''"

text \<open>\<open>rfind('.')\<close> and the text before it.\<close>

definition before_last_dot :: "string \<Rightarrow> string option" where
  "before_last_dot s =
     (if CHR ''.'' \<in> set s then Some (rev (drop 1 (dropWhile (\<lambda>c. c \<noteq> CHR ''.'') (rev s)))) else None)"

definition getFullNamespace_text :: "options \<Rightarrow> string \<Rightarrow> string \<Rightarrow> bool \<Rightarrow> string" where
  "getFullNamespace_text o0 fullDescriptorName separator extraScope =
     (let output = (if extraScope then m_extraNamespace o0 else [])
      in case before_last_dot fullDescriptorName of
           None \<Rightarrow> output
         | Some scope \<Rightarrow>
             let n0 = replace scope ''.'' separator;
                 namespacesStr = (if n0 = ''QtCore'' \<or> n0 = ''QtGui'' then ''QtProtobufPrivate'' @ separator @ n0 else n0)
             in (if output \<noteq> [] \<and> namespacesStr \<noteq> [] then output @ separator else output) @ namespacesStr)"

text \<open>Each containing type is put before those inside it.\<close>

definition getFullNamespace :: "options \<Rightarrow> string set \<Rightarrow> type_descriptor option \<Rightarrow> string \<Rightarrow> string" where
  "getFullNamespace o0 m_extraNamespacedFiles type separator =
     (case type of
        None \<Rightarrow> []
      | Some t \<Rightarrow>
          let nestingNamespaces = fold (\<lambda>c acc. (separator @ capitalizeAsciiName c) @ acc) (td_containing t) []
          in getFullNamespace_text o0 (td_package t @ nestingNamespaces @ ''.'' @ td_name t) separator
               (td_file t \<in> m_extraNamespacedFiles))"

definition getNestedNamespace :: "type_descriptor \<Rightarrow> string \<Rightarrow> string" where
  "getNestedNamespace t separator =
     (let nestingNamespaces =
            fold (\<lambda>c acc. (separator @ capitalizeAsciiName c @ QtProtobufNestedNamespace) @ acc) (td_containing t) []
      in replace (if nestingNamespaces \<noteq> [] then td_package t @ nestingNamespaces else td_package t) ''.'' separator)"

definition getScopeNamespace_text :: "string \<Rightarrow> string \<Rightarrow> string" where
  "getScopeNamespace_text original scope =
     (if scope = [] then original
      else if original = scope then []
      else let scopeWithSeparator = scope @ ''::''
        in if text_startsWith original scopeWithSeparator then drop (length scopeWithSeparator) original else original)"

text \<open>The walk through the containing types stops at the scope.\<close>

fun scope_walk :: "string list \<Rightarrow> string list \<Rightarrow> string \<Rightarrow> bool \<Rightarrow> string \<Rightarrow> string" where
  "scope_walk scope [] suffix first nestingNamespaces = nestingNamespaces"
| "scope_walk scope (c # cs) suffix first nestingNamespaces =
     (let n = capitalizeAsciiName c @ suffix @ nestingNamespaces
      in if c # cs = scope then n
         else scope_walk scope cs (if first then QtProtobufNestedNamespace @ ''::'' else suffix) False n)"

definition getScopeNamespace :: "options \<Rightarrow> string set \<Rightarrow> bool \<Rightarrow> type_descriptor \<Rightarrow> type_descriptor option \<Rightarrow> string" where
  "getScopeNamespace o0 files is_enum type scope =
     (case scope of
        None \<Rightarrow> getFullNamespace o0 files (Some type) ''::''
      | Some s \<Rightarrow>
          if td_package s \<noteq> td_package type then getFullNamespace o0 files (Some type) ''::''
          else let suffix = (if is_enum \<or> \<not> td_is_map type then QtProtobufNestedNamespace else [])
            in scope_walk (td_name s # td_containing s) (td_containing type) suffix True [])"


subsection \<open>Namespaces in use\<close>

text \<open>What is left of a name within its scope is the name.\<close>

lemma scope_namespace_resolves:
  "getScopeNamespace_text original scope = original \<or> original = scope \<or>
   original = scope @ ''::'' @ getScopeNamespace_text original scope"
  by (auto simp: getScopeNamespace_text_def Let_def text_startsWith_iff)

text \<open>A nested type of a file without a package: the extra namespace is joined with a separator too many.\<close>

lemma nested_type_without_package:
  "getFullNamespace (new_options\<lparr>m_extraNamespace := ''Extra''\<rparr>) {''a.proto''}
     (Some \<lparr>td_name = ''Inner'', td_containing = [''Outer''], td_package = [], td_file = ''a.proto'', td_is_map = False\<rparr>)
     ''::'' = ''Extra::::Outer''"
  by code_simp

end
