(* ===== verification/GeneratorNames.thy ===== *)
theory GeneratorNames
  imports GeneratorOptions
begin

text \<open>
  What the options and the names of the generators guarantee: the export macro is an identifier that the
  asserts of the generators ask for, names of properties are no keywords but for two of Qt, and guards are identifiers.
\<close>

subsection \<open>Identifiers\<close>

definition word_char :: "char \<Rightarrow> bool" where
  "word_char c \<longleftrightarrow> isAsciiAlnum c \<or> c = CHR ''_''"

lemma alpha_word [simp]: "isAsciiAlpha c \<Longrightarrow> isAsciiAlnum c" "isAsciiAlpha c \<Longrightarrow> word_char c" "word_char CHR ''_''"
  by (auto simp: isAsciiAlpha_def isAsciiAlnum_def word_char_def)

lemma valid_identifier_iff:
  "valid_c_identifier s \<longleftrightarrow> s \<noteq> [] \<and> (isAsciiAlpha (hd s) \<or> hd s = CHR ''_'') \<and> list_all word_char s"
proof -
  have "(\<lambda>x. isAsciiAlnum x \<or> x = CHR ''_'') = word_char" by (simp add: word_char_def fun_eq_iff)
  then show ?thesis by (cases s) (auto simp: valid_c_identifier_def)
qed

lemma identifier_char_word: "word_char (identifier_char x)" "word_char c \<Longrightarrow> identifier_char c = c"
  by (auto simp: identifier_char_def word_char_def)

lemma identifier_valid:
  assumes "name \<noteq> []"
  shows "valid_c_identifier (toValidIdentifier name)"
proof -
  obtain c cs where name: "name = c # cs" using assms by (cases name) auto
  have "list_all word_char (map identifier_char xs)" for xs by (simp add: list_all_iff identifier_char_word)
  then show ?thesis
    by (auto simp: name toValidIdentifier_def valid_identifier_iff identifier_char_word simp del: list.map)
      (auto simp: identifier_char_word)
qed

lemma identifier_unchanged:
  assumes "valid_c_identifier s"
  shows "toValidIdentifier s = s"
proof -
  have "map identifier_char s = s"
    using assms by (simp add: valid_identifier_iff list_all_iff map_idI identifier_char_word)
  with assms show ?thesis by (cases s) (auto simp: toValidIdentifier_def valid_identifier_iff)
qed

text \<open>Letter case keeps the characters of identifiers.\<close>

lemma upper_word: "word_char c \<Longrightarrow> word_char (toAsciiUpper c)"
  by (auto simp: word_char_def toAsciiUpper_def isAsciiAlnum_def isAsciiUpper_def isAsciiLower_def)

lemma upper_alpha: "isAsciiAlpha c \<Longrightarrow> isAsciiAlpha (toAsciiUpper c)" "toAsciiUpper CHR ''_'' = CHR ''_''"
  by (auto simp: toAsciiUpper_def isAsciiAlpha_def isAsciiUpper_def isAsciiLower_def)

lemma upper_identifier: "valid_c_identifier s \<Longrightarrow> valid_c_identifier (asciiToUpper s)"
  using upper_word upper_alpha by (cases s) (auto simp: valid_identifier_iff asciiToUpper_def list_all_iff)

text \<open>A header guard is made of an identifier and the suffix of headers.\<close>

lemma replace_char_map: "replace s [c] [d] = map (\<lambda>x. if x = c then d else x) s"
proof -
  have "concat (map (\<lambda>x. if x = c then [d] else [x]) s) = map (\<lambda>x. if x = c then d else x) s" by (induction s) auto
  moreover have "map (\<lambda>x. if x = c then c else x) s = s" by (induction s) auto
  ultimately show ?thesis by (auto simp: replace_def replace_char)
qed

lemma guard_of_identifier:
  assumes "valid_c_identifier s"
  shows "valid_c_identifier (headerGuardFromFilename (s @ ''.h''))"
proof -
  have up: "valid_c_identifier (asciiToUpper s)" using assms by (rule upper_identifier)
  let ?f = "\<lambda>x. if x = CHR ''.'' then CHR ''_'' else x"
  have "asciiToUpper ''.h'' = ''.H''" by code_simp
  then have "headerGuardFromFilename (s @ ''.h'') = map ?f (asciiToUpper s) @ ''_H''"
    by (simp add: headerGuardFromFilename_def replace_char_map asciiToUpper_def)
  moreover have "list_all word_char (map ?f (asciiToUpper s))"
    using up by (auto simp: valid_identifier_iff list_all_iff)
  moreover have "word_char CHR ''H''" by (simp add: word_char_def isAsciiAlnum_def isAsciiUpper_def)
  ultimately show ?thesis using up by (auto simp: valid_identifier_iff hd_map)
qed

text \<open>The guard of the headers for QML is made of the name of the file itself.\<close>

lemma qml_guard_is_no_identifier: "\<not> valid_c_identifier (headerGuardFromFilename (''qmlmy-service_client.qpb'' @ ''.h''))"
  by (simp add: headerGuardFromFilename_def replace_char_map) code_simp

subsection \<open>Options\<close>

text \<open>What the generators rely on when they print a macro, or the file that defines it.\<close>

definition options_ok :: "options \<Rightarrow> bool" where
  "options_ok o1 \<longleftrightarrow>
     (m_exportMacro o1 = [] \<or> valid_c_identifier (m_exportMacro o1)) \<and>
     (m_exportMacro o1 \<noteq> [] \<longrightarrow> m_exportMacroFilename o1 \<noteq> []) \<and>
     (m_generateMacroExportFile o1 \<longrightarrow> m_exportMacro o1 \<noteq> [])"

lemma new_options_ok: "options_ok new_options"
  by (simp add: options_ok_def new_options_def)

lemma export_macro_ok:
  assumes "set_export_macro vs o0 = Inr o1" "options_ok o0"
  shows "options_ok o1"
proof -
  have "valid_c_identifier m \<Longrightarrow> m \<noteq> []" for m by (auto simp: valid_c_identifier_def)
  then show ?thesis
    using assms by (auto simp: set_export_macro_def options_ok_def Let_def split: list.splits if_splits)
qed

lemma export_macro_error: "set_export_macro vs o0 = Inl e \<Longrightarrow> \<exists>m. \<not> valid_c_identifier m \<and> e = macro_error m"
  by (auto simp: set_export_macro_def Let_def split: list.splits if_splits)

lemma set_option_ok: "set_option option o0 = Inr o1 \<Longrightarrow> options_ok o0 \<Longrightarrow> options_ok o1"
  unfolding set_option_def by (auto split: if_splits dest: export_macro_ok) (simp_all add: options_ok_def)

lemma set_option_error: "set_option option o0 = Inl e \<Longrightarrow> \<exists>m. \<not> valid_c_identifier m \<and> e = macro_error m"
  unfolding set_option_def by (auto split: if_splits dest: export_macro_error)

lemma set_options_ok:
  "options_ok o0 \<Longrightarrow> set_options opts o0 = (o1, err) \<Longrightarrow>
   options_ok o1 \<and> (\<forall>e. err = Some e \<longrightarrow> (\<exists>m. \<not> valid_c_identifier m \<and> e = macro_error m))"
proof (induction opts arbitrary: o0)
  case (Cons option opts)
  then show ?case
    by (cases "set_option option o0") (auto dest: set_option_error set_option_ok)
qed simp

text \<open>C38: The options that a generator is given leave it in a state that its asserts ask for: whatever text
  is parsed, the export macro is empty or an identifier of C, a macro has a file name, and the file
  that defines the macro is generated only when there is one; an error names a text that is no
  identifier.\<close>

theorem parsed_options_ok:
  "case setFromString opts new_options of (o1, err) \<Rightarrow>
     (m_exportMacro o1 = [] \<or> valid_c_identifier (m_exportMacro o1)) \<and>
     (m_exportMacro o1 = [] \<or> m_exportMacroFilename o1 \<noteq> []) \<and>
     (\<not> m_generateMacroExportFile o1 \<or> m_exportMacro o1 \<noteq> []) \<and>
     (err = None \<or> (\<exists>m. \<not> valid_c_identifier m \<and> err = Some (macro_error m)))"
proof -
  obtain o1 err where r: "setFromString opts new_options = (o1, err)" by fastforce
  from set_options_ok [OF new_options_ok r [unfolded setFromString_def]] show ?thesis
    by (cases err) (auto simp: r options_ok_def)
qed

theorem parsed_options_ok_witness:
  "(case setFromString ''EXPORT_MACRO=MYLIB:f.h:true'' new_options of (o1, err) \<Rightarrow>
     m_generateMacroExportFile o1 \<and> m_exportMacro o1 \<noteq> [] \<and> m_exportMacroFilename o1 \<noteq> [] \<and>
     valid_c_identifier (m_exportMacro o1))"
proof -
  have r: "m_generateMacroExportFile (fst (setFromString ''EXPORT_MACRO=MYLIB:f.h:true'' new_options))" by code_simp
  show ?thesis using parsed_options_ok [of "''EXPORT_MACRO=MYLIB:f.h:true''"] r by (auto split: prod.splits)
qed

subsection \<open>Names of properties\<close>

text \<open>
  The words that a name of a property must not be, from their own sources and not from the lists of
  the generator: the keywords and the alternative tokens of C++20 (tables 5 and 6 of the standard), the
  keywords that the headers of Qt define as macros unless \<open>QT_NO_KEYWORDS\<close> is set, and the words that
  stand for the identifier of an object, the declaration of a property and an import in QML.
\<close>

definition cpp_keywords :: "string list" where
  "cpp_keywords =
     [''alignas'', ''alignof'', ''asm'', ''auto'', ''bool'', ''break'', ''case'', ''catch'', ''char'', ''char8_t'', ''char16_t'',
      ''char32_t'', ''class'', ''concept'', ''const'', ''consteval'', ''constexpr'', ''constinit'', ''const_cast'',
      ''continue'', ''co_await'', ''co_return'', ''co_yield'', ''decltype'', ''default'', ''delete'', ''do'', ''double'',
      ''dynamic_cast'', ''else'', ''enum'', ''explicit'', ''export'', ''extern'', ''false'', ''float'', ''for'', ''friend'',
      ''goto'', ''if'', ''inline'', ''int'', ''long'', ''mutable'', ''namespace'', ''new'', ''noexcept'', ''nullptr'',
      ''operator'', ''private'', ''protected'', ''public'', ''register'', ''reinterpret_cast'', ''requires'', ''return'',
      ''short'', ''signed'', ''sizeof'', ''static'', ''static_assert'', ''static_cast'', ''struct'', ''switch'', ''template'',
      ''this'', ''thread_local'', ''throw'', ''true'', ''try'', ''typedef'', ''typeid'', ''typename'', ''union'', ''unsigned'',
      ''using'', ''virtual'', ''void'', ''volatile'', ''wchar_t'', ''while'',
      ''and'', ''and_eq'', ''bitand'', ''bitor'', ''compl'', ''not'', ''not_eq'', ''or'', ''or_eq'', ''xor'', ''xor_eq'']"

definition qt_keyword_macros :: "string list" where
  "qt_keyword_macros = [''signals'', ''slots'', ''emit'', ''foreach'', ''forever'']"

definition qml_words :: "string list" where
  "qml_words = [''id'', ''property'', ''import'']"

text \<open>The generator knows all of them but two, and two macros of the C headers.\<close>

lemma known_words: "set ListOfCppExceptions = set (cpp_keywords @ [''signals'', ''slots'', ''emit'', ''assert'', ''NULL''])"
  unfolding cpp_keywords_def ListOfCppExceptions_def by (simp only: list.set append.simps insert_commute)

lemma qml_words_apart:
  "list_all (\<lambda>w. w @ ''_proto'' \<notin> set (cpp_keywords @ qt_keyword_macros @ qml_words @ ListOfCppExceptions)) qml_words"
  "list_all (\<lambda>w. w \<notin> set ListOfCppExceptions) (qml_words @ [''foreach'', ''forever''])"
  "ListOfQmlExceptions = qml_words"
  by (simp_all add: cpp_keywords_def qt_keyword_macros_def qml_words_def ListOfCppExceptions_def ListOfQmlExceptions_def)

lemma renamed_words_iff:
  "w \<noteq> ''NULL'' \<Longrightarrow>
   w \<in> set (cpp_keywords @ [''signals'', ''slots'', ''emit'', ''assert'']) \<longleftrightarrow> w \<in> set ListOfCppExceptions"
  unfolding known_words by auto

lemma missed_words_iff:
  "w \<notin> set ListOfCppExceptions \<Longrightarrow>
   w \<in> set (cpp_keywords @ qt_keyword_macros) \<longleftrightarrow> w = ''foreach'' \<or> w = ''forever''"
  unfolding known_words by (auto simp: qt_keyword_macros_def)

text \<open>No word ends with an underscore.\<close>

lemma word_end: "w \<in> set (cpp_keywords @ qt_keyword_macros @ qml_words @ ListOfCppExceptions) \<Longrightarrow> last w \<noteq> CHR ''_''"
proof -
  have "list_all (\<lambda>w. last w \<noteq> CHR ''_'') (cpp_keywords @ qt_keyword_macros @ qml_words @ ListOfCppExceptions)"
    by (simp add: cpp_keywords_def qt_keyword_macros_def qml_words_def ListOfCppExceptions_def)
  then show "w \<in> set (cpp_keywords @ qt_keyword_macros @ qml_words @ ListOfCppExceptions) \<Longrightarrow> last w \<noteq> CHR ''_''"
    by (simp only: list_all_iff) blast
qed

text \<open>What becomes of a name: a word of QML, a word of C++, and any other.\<close>

lemma qualified_name:
  "n \<in> set qml_words \<Longrightarrow> qualifiedCppName (qualifiedQmlName n) = n @ ''_proto''"
  "n \<in> set ListOfCppExceptions \<Longrightarrow> qualifiedCppName (qualifiedQmlName n) = n @ ''_''"
  "n \<notin> set qml_words \<Longrightarrow> n \<notin> set ListOfCppExceptions \<Longrightarrow> qualifiedCppName (qualifiedQmlName n) = n"
  using qml_words_apart by (auto simp: qualifiedCppName_def qualifiedQmlName_def list_all_iff)

lemma suffixed_identifier: "valid_c_identifier s \<Longrightarrow> list_all word_char t \<Longrightarrow> valid_c_identifier (s @ t)"
  by (simp add: valid_identifier_iff)

lemma qualified_identifier: "valid_c_identifier n \<Longrightarrow> valid_c_identifier (qualifiedCppName (qualifiedQmlName n))"
proof -
  have "list_all word_char ''_proto''" by (simp add: word_char_def isAsciiAlnum_def isAsciiLower_def)
  then show "valid_c_identifier n \<Longrightarrow> valid_c_identifier (qualifiedCppName (qualifiedQmlName n))"
    by (auto simp: qualifiedCppName_def qualifiedQmlName_def intro!: suffixed_identifier)
qed


lemma decapitalized_lower: "isAsciiAlpha c \<Longrightarrow> isAsciiLower (char_of (set_bit 5 (code c)))"
proof -
  assume a: "isAsciiAlpha c"
  have all: "\<forall>n \<in> set ([65..<91] @ [97..<123]). 97 \<le> set_bit 5 n \<and> set_bit 5 n \<le> (122 :: nat)" by code_simp
  from a have "code c \<in> set ([65..<91] @ [97..<123])"
    unfolding set_append set_upt by (auto simp: isAsciiAlpha_def isAsciiUpper_def isAsciiLower_def)
  with all have b: "97 \<le> set_bit 5 (code c)" "set_bit 5 (code c) \<le> (122 :: nat)" by blast+
  then have "set_bit 5 (code c) mod 256 = set_bit 5 (code c)" by simp
  with b show "isAsciiLower (char_of (set_bit 5 (code c)))"
    by (simp add: isAsciiLower_def)
qed

lemma decapitalized_char: "isAsciiAlpha c \<Longrightarrow> isAsciiAlpha (char_of (set_bit 5 (code c)))"
  using decapitalized_lower [of c] by (simp add: isAsciiAlpha_def isAsciiLower_def)

lemma decapitalized_identifier: "valid_c_identifier s \<Longrightarrow> valid_c_identifier (deCapitalizeAsciiName s)"
  using decapitalized_char by (cases s) (auto simp: deCapitalizeAsciiName_def valid_identifier_iff)

lemma decapitalized_not_NULL: "deCapitalizeAsciiName s \<noteq> ''NULL''"
proof
  assume n: "deCapitalizeAsciiName s = ''NULL''"
  then obtain c cs where s: "s = c # cs" by (cases s) (simp_all add: deCapitalizeAsciiName_def)
  show False
  proof (cases "isAsciiAlpha c")
    case True
    then have "isAsciiLower (char_of (set_bit 5 (code c)))" by (rule decapitalized_lower)
    with n s True show False by (simp add: deCapitalizeAsciiName_def isAsciiLower_def)
  next
    case False
    with n s have "c = CHR ''N''" by (simp add: deCapitalizeAsciiName_def)
    with False show False by (simp add: isAsciiAlpha_def isAsciiUpper_def)
  qed
qed

text \<open>C39: Names of properties: for a field whose name in camel case is an identifier, the name of its
  property is an identifier too. It is a keyword of C++20 or a keyword macro of the headers of Qt only for
  the fields \<open>foreach\<close> and \<open>forever\<close>, two of these macros that the list of the generator lacks, and never one
  of the three words of QML. And a name is changed only when it has to be: when it is one of these words
  (other than those two) or the macro \<open>assert\<close>.\<close>

theorem property_names_usable:
  assumes "valid_c_identifier camelcase" and "field = deCapitalizeAsciiName camelcase"
  shows "valid_c_identifier (property_name camelcase) \<and>
    (property_name camelcase \<in> set (cpp_keywords @ qt_keyword_macros) \<longleftrightarrow> field = ''foreach'' \<or> field = ''forever'') \<and>
    property_name camelcase \<notin> set qml_words \<and>
    (property_name camelcase \<noteq> field \<longleftrightarrow>
       field \<in> set (cpp_keywords @ [''signals'', ''slots'', ''emit'', ''assert''] @ qml_words))"
proof -
  have valid: "valid_c_identifier (property_name camelcase)"
    unfolding property_name_def by (rule qualified_identifier [OF decapitalized_identifier [OF assms(1)]])
  have name: "property_name camelcase = qualifiedCppName (qualifiedQmlName field)"
    by (simp add: property_name_def assms(2))
  have "field \<noteq> ''NULL''" by (simp add: assms(2) decapitalized_not_NULL)
  note words = renamed_words_iff [OF this]
  consider (qml) "field \<in> set qml_words" | (cpp) "field \<in> set ListOfCppExceptions" "field \<notin> set qml_words"
    | (other) "field \<notin> set ListOfCppExceptions" "field \<notin> set qml_words" by blast
  then show ?thesis
  proof cases
    case qml
    then have "field \<noteq> ''foreach''" "field \<noteq> ''forever''" by (auto simp: qml_words_def)
    moreover have "field @ ''_proto'' \<notin> set (cpp_keywords @ qt_keyword_macros @ qml_words)"
      using qml_words_apart(1) qml by (auto simp: list_all_iff)
    ultimately show ?thesis using valid qml qualified_name(1) [OF qml] by (simp add: name)
  next
    case cpp
    have "field @ ''_'' \<notin> set (cpp_keywords @ qt_keyword_macros @ qml_words)"
      using word_end [of "field @ ''_''"] by auto
    moreover have "field \<noteq> ''foreach''" "field \<noteq> ''forever''"
      using cpp(1) qml_words_apart(2) by (auto simp: list_all_iff)
    ultimately show ?thesis using valid words cpp(1) qualified_name(2) [OF cpp(1)] by (auto simp: name)
  next
    case other
    with qualified_name(3) [OF other(2,1)] missed_words_iff [OF other(1)] show ?thesis
      using valid words by (simp add: name)
  qed
qed

theorem property_names_usable_witness:
  "property_name ''Class'' = ''class_'' \<and> ''class_'' \<notin> set (cpp_keywords @ qt_keyword_macros) \<and>
   property_name ''Forever'' \<in> set (cpp_keywords @ qt_keyword_macros)"
proof -
  have v: "valid_c_identifier ''Class''" "valid_c_identifier ''Forever''" by code_simp+
  have f: "''class'' = deCapitalizeAsciiName ''Class''" "''forever'' = deCapitalizeAsciiName ''Forever''" by code_simp+
  have "property_name ''Class'' = ''class_''" by code_simp
  with property_names_usable [OF v(1) f(1)] property_names_usable [OF v(2) f(2)] show ?thesis by auto
qed

end
