(* ===== verification/Spec2Isabelle.thy ===== *)
theory Spec2Isabelle
  imports EndToEnd JsonErrors WellKnownProperties AnySupport QtConversions TypeRegistration GeneratedText GeneratorNames
begin

text \<open>
  A verification library for Qt GRPC and Qt Protobuf.

  The repository has two libraries. Qt Protobuf (src/src/protobuf) serializes messages, which are
  Qt gadget classes printed by \<open>qtprotobufgen\<close>, to the protobuf wire format. Qt GRPC (src/src/grpc)
  runs remote calls with such messages over HTTP/2. A call goes through both: the client serializes
  its argument, \<open>Http2Handler\<close> compresses and frames the bytes and puts them on the HTTP/2 stream;
  the answer comes back as DATA frames which are cut into gRPC messages, decompressed and
  deserialized, until the trailers tell the status of the call.

  Qt Protobuf, bottom up:
  \<^item> \<open>SelfcheckIterator\<close>: \<open>QProtobufSelfcheckIterator\<close>, positions in a byte view.
  \<^item> \<open>ScalarSerializers\<close>, \<open>ScalarRoundtrip\<close>: the templates of protobufscalarserializers_p.h
    (varints, zigzag, fixed width, length delimited, packed and non-packed lists) with the round
    trip of every scalar type and the behaviour of overlong varints.
  \<^item> \<open>PropertyOrdering\<close>: the memory layout of \<open>QProtobufPropertyOrdering\<close>, its builder, its
    accessors and the registry of orderings.
  \<^item> \<open>Messages\<close>: generated classes by template (commontemplates.cpp), the oneof object, meta
    properties, unknown fields, repeated and map elements.
  \<^item> \<open>WireSerializer\<close>, \<open>WireDeserializer\<close>: \<open>QProtobufSerializerBase\<close>, \<open>QProtobufDeserializerBase\<close>
    and their binary implementations.
  \<^item> \<open>WireProgress\<close>: every step of the deserializer moves forward, so that it ends; an error stays;
    required fields; size limits.
  \<^item> \<open>WireFormat\<close>: the wire format as a specification, \<open>wire_message\<close> and \<open>wire_field\<close>: which bytes
    encode which message, without a word on how they are written or read.
  \<^item> \<open>WireEncoding\<close>: the serializer writes the encoding. \<open>WireRecords\<close>, \<open>WireFields\<close>,
    \<open>WireRoundtrip\<close>: the deserializer reads it back, record by record, field by field and message by
    message, with nested messages, maps, oneofs and unknown fields. \<open>MessageRoundtrip\<close> has the
    properties, and an example with a field of every shape.
  \<^item> \<open>GeneratedClasses\<close>: the tables, properties and members that \<open>qtprotobufgen\<close> prints for a message
    (src/src/tools), by the values that the text denotes, and the tables of map entries; that they
    are what the serializers rely on (\<open>class_ok\<close>).

  JSON (qprotobufjsonserializer.cpp, protobufscalarjsonserializers_p.h), along the same lines:
  \<^item> \<open>JsonValues\<close>: JSON values, the registry of custom handlers, the JSON form of scalars and lists.
    \<open>JsonSerializer\<close>, \<open>JsonDeserializer\<close>: the two implementations with their states; the deserializer
    is driven by \<open>nextFieldIndex\<close> over a stack of objects.
  \<^item> \<open>JsonScalars\<close>: scalars and lists are read as they were written. \<open>JsonFormat\<close>: the JSON form of a
    message as a specification, \<open>json_message\<close> and \<open>json_field\<close>, with nested messages that are
    written by custom handlers. \<open>JsonEncoding\<close>: the serializer writes it.
  \<^item> \<open>JsonWalk\<close> (the walk through the stack of objects), \<open>JsonRounds\<close> (a round of the deserializer),
    \<open>JsonFields\<close>, \<open>JsonMessages\<close>, \<open>JsonReading\<close>: the deserializer reads it back, field by field and
    message by message. \<open>JsonRoundtrip\<close> has the round trip with an example; \<open>JsonErrors\<close> the
    ranges of integers, and what becomes of values that cannot be read, of empty arrays and of
    messages without fields.

  Well-known types and Qt types:
  \<^item> \<open>DecimalText\<close>: decimal texts and their values. \<open>WellKnownJson\<close>: the JSON handlers of \<open>Timestamp\<close>,
    \<open>Duration\<close> and the wrappers (src/src/wellknown), and the helpers that are printed for the first
    two. \<open>WellKnownRoundtrip\<close>, \<open>WellKnownProperties\<close>: durations are read back, also as fields of a message
    (\<open>registered_duration_nested\<close>); which timestamps are.
  \<^item> \<open>AnySupport\<close>: \<open>QtProtobuf::Any\<close>. The locale \<open>named_codec\<close> extends \<open>message_codec\<close> by the names of
    classes; it is interpreted on both serializers.
  \<^item> \<open>QtTypes\<close>: the handlers of fields of Qt types and the conversions of the types of QtCore and QtGui
    (src/src/protobufqttypes). \<open>QtConversions\<close>: the locale \<open>qt_conversion\<close>, interpreted for every type.
    \<open>TypeRegistration\<close>: the registry of handlers, registration on first use (qprotobufregistration.cpp).

  The text that the generators print (src/src/tools/qtprotoccommon):
  \<^item> \<open>GeneratorText\<close>: the functions of utils.cpp. \<open>GeneratorTextLaws\<close>: \<open>split\<close>, \<open>join\<close> and \<open>replace\<close>,
    escapes, the order of includes. \<open>GeneratedLiterals\<close>: a reader of the string literals of C++, which reads
    escaped text as it was. \<open>GeneratedText\<close>: the literals that are printed for a table denote the names
    of \<open>GeneratedClasses\<close>, and a comment that is copied from a \<open>.proto\<close> file stays a comment.
  \<^item> \<open>GeneratorOptions\<close>: options.cpp, and the identifiers, namespaces and names of generatorcommon.cpp.
    \<open>GeneratorNames\<close>: what the options guarantee; identifiers, guards and names of properties, which are
    compared with the keywords of C++20 and of Qt.

  Qt GRPC:
  \<^item> \<open>StreamCodec\<close>: a locale for a byte stream that is cut into frames. Its lemmas (frames of chunks,
    encode and decode) are used through the interpretation on the gRPC frame format.
  \<^item> \<open>GrpcOptions\<close>: status codes, serialization formats, the call and channel options.
  \<^item> \<open>GrpcFraming\<close>: \<open>GrpcDataParser\<close>, \<open>GrpcCompressionHelper\<close>, the five byte frame header.
  \<^item> \<open>Http2Handler\<close>: the class \<open>Http2Handler\<close> of qgrpchttp2channel.cpp, one definition per slot or
    method, and the step relation of a handler whose slots run in any order.
  \<^item> \<open>HandlerInvariants\<close>, \<open>HandlerCorrectness\<close>: the life cycle of a call, the order of its messages,
    what ends it and how.
  \<^item> \<open>ReconnectBackoff\<close>: the delays between attempts to connect. The doubles of the code are rational
    numbers rounded to 53 digits after every operation; the bounds hold for maximal delays up to \<open>2 ^ 44\<close>
    milliseconds.
  \<^item> \<open>ChannelSetup\<close>: what a channel derives from its address, its options and the environment: the kind
    of socket, the headers that all calls share, the content type, the receive windows.
  \<^item> \<open>Http2Channel\<close>: \<open>QGrpcHttp2ChannelPrivate\<close>, one definition per slot or method, and the step
    relation of a channel with its socket, timers, handlers and posted events.
  \<^item> \<open>ChannelInvariants\<close>, \<open>ChannelCorrectness\<close>: the states of the connection, that every call on a
    channel is a run of a handler, so that the theorems of the handler hold for it, and what an error
    of the socket does.
  \<^item> \<open>Interceptors\<close>: chains of interceptors and the engine that runs them at the stages of a call.
  \<^item> \<open>GrpcOperation\<close>: the operation that a client holds, with its context; what it does on its own is
    there, with the serializer and the interceptors as parameters.
  \<^item> \<open>ClientCalls\<close>: an operation and its handler (none when the call could not be started), connected by
    the signals of the context, as a step relation; the client with its set of active streams.
  \<^item> \<open>ClientInvariants\<close>: the locale \<open>rpc_transport\<close> says what an operation relies on in a channel; the
    handler of the HTTP/2 stream is its interpretation \<open>http2\<close>. \<open>ClientCorrectness\<close>: the client is told
    once that a call is over, cancelling, failed writes, changing the channel.
  \<^item> \<open>EndToEnd\<close>: the locale \<open>message_codec\<close> is the contract of a serializer with an operation, \<open>wire\<close> its
    interpretation on the binary serializer. The argument of a call reaches the server and the
    messages of the server reach the client, through serializer, compression, frames, stream and back.

  Conventions. A record of the model has the members of the class; a method is a function from the
  record to the record and its results. What a handler does to the outside (signals, calls to the
  HTTP/2 stream) is a list of effects, in order. Errors are values of a sum, of an option, or the
  constructors of \<open>outcome\<close> and \<open>run\<close>, where undefined behaviour and loops without end are values
  too. Integers that may wrap are words of their width; \<open>int\<close> stands for a C++ integer where the
  code keeps it in range.

  Bounds and fuel. The deserializer takes fuel, one unit per field and per level of nesting;
  the length of the input plus two is always enough (\<open>deserialize_terminates\<close>). The serializer
  takes one unit per level of nested messages; one more than the length of its output is enough.
  For JSON the size of the document (\<open>json_weight\<close>) is enough on both sides. The threshold of the
  queue warning doubles at most 64 times.

  Parameters, for code that is not in the repository: the bytes in memory outside of a view, the
  maximal size of a \<open>QByteArray\<close>, UTF-8 conversion (\<open>platform\<close>), the HTTP/2 stream of QtNetwork,
  zlib and the decompressor, number parsing, time (\<open>net\<close>), and the descriptors of libprotoc
  (\<open>valid_descriptor\<close> has what they promise). For JSON: the text of a document, of numbers and of
  base64, which doubles a \<open>QJsonValue\<close> holds as integers, and the keys of enumerations
  (\<open>json_platform\<close>); the text of a time (\<open>time_platform\<close>); the
  value types of QtCore and QtGui, by the functions that the conversions call.

  Interceptors and the serializer of an operation are parameters too (\<open>grpc_channel\<close>).

  Simplifications. A 64-bit release build. Locks and threads are not modelled, nor slots of the user
  that run inside of a signal and call back. A hash is the list of its entries in the order in
  which it is walked. Messages are compared as values. The texts of errors and logging are left out,
  except for the texts that become the status of a call.

  A socket of the channel signals an error only while it connects or is connected. The options of a
  channel and the environment do not change after its construction.

  The entries of a map are listed in the order of their keys' texts, as \<open>QJsonObject\<close> keeps them. The
  platform of JSON holds the registry of custom handlers, which does not change while a message is
  written or read. The indentation that the printer of libprotoc adds to lines is left out.

  Not modelled: custom handlers of fields in the wire format, beyond the handlers of Qt types and of
  \<open>Any\<close> on their own; images; the meta type of a response; QML bindings; the generators of
  clients, servers and enumerations, the maps of type names and the text of methods.
\<close>

end
